(* ===== verification/Prelude.thy ===== *)
theory Prelude
  imports
    Complex_Main
    "HOL-Library.AList"
    "HOL-Library.Char_ord"
    "HOL-Library.List_Lexorder"
    "HOL-Library.Multiset"
begin

text \<open>
  Shared vocabulary of the development: Go results as sums, byte strings, association lists
  standing for Go maps, and the hint collections that carry the component proofs.

  \<^item> A Go function returning \<open>(T, error)\<close> is a HOL function into \<open>'e + 'a\<close>: \<open>Inl e\<close> is an early
    return with the error \<open>e\<close>, \<open>Inr x\<close> the normal return.  \<open>bindE\<close> is the pattern
    \<open>x, err := f(); if err != nil { return err }\<close>, and \<open>guardE\<close> is
    \<open>if !cond { return err }\<close>.
  \<^item> Go strings and byte slices are \<open>string\<close>, a list of 8-bit \<open>char\<close>s, so \<open>length\<close> counts bytes as
    \<open>len\<close> does and \<open><\<close> is the bytewise lexicographic order of \<open>slices.Sort\<close>.
  \<^item> A Go map with string keys is an association list without repeated keys; \<open>AList.update\<close> is
    the assignment \<open>m[k] = v\<close>.
\<close>

named_theorems result_simps \<open>rewrite rules for results of fallible steps\<close>
named_theorems byte_simps \<open>facts about bytes and their numeric values\<close>

section \<open>Fallible computations\<close>

definition bindE :: "'e + 'a \<Rightarrow> ('a \<Rightarrow> 'e + 'b) \<Rightarrow> 'e + 'b" where
  "bindE m f = (case m of Inl e \<Rightarrow> Inl e | Inr x \<Rightarrow> f x)"

definition guardE :: "bool \<Rightarrow> 'e \<Rightarrow> 'e + unit" where
  "guardE c e = (if c then Inr () else Inl e)"

definition mapErr :: "('e \<Rightarrow> 'f) \<Rightarrow> 'e + 'a \<Rightarrow> 'f + 'a" where
  "mapErr g m = (case m of Inl e \<Rightarrow> Inl (g e) | Inr x \<Rightarrow> Inr x)"

lemma bindE_simps [simp]:
  "bindE (Inl e) f = Inl e"
  "bindE (Inr x) f = f x"
  by (simp_all add: bindE_def)

lemma guardE_simps [simp]:
  "guardE True e = Inr ()"
  "guardE False e = Inl e"
  by (simp_all add: guardE_def)

lemma mapErr_simps [simp]:
  "mapErr g (Inl e) = Inl (g e)"
  "mapErr g (Inr x) = Inr x"
  by (simp_all add: mapErr_def)

lemma bindE_Inr_iff [result_simps]:
  "bindE m f = Inr y \<longleftrightarrow> (\<exists>x. m = Inr x \<and> f x = Inr y)"
  by (cases m) auto

lemma bindE_Inl_iff:
  "bindE m f = Inl e \<longleftrightarrow> m = Inl e \<or> (\<exists>x. m = Inr x \<and> f x = Inl e)"
  by (cases m) auto

lemma guardE_Inr_iff [result_simps]: "guardE c e = Inr u \<longleftrightarrow> c"
  by (cases c) auto

lemma guardE_Inl_iff: "guardE c e = Inl e' \<longleftrightarrow> \<not> c \<and> e' = e"
  by (cases c) auto

lemma mapErr_Inr_iff [result_simps]: "mapErr g m = Inr x \<longleftrightarrow> m = Inr x"
  by (cases m) auto

lemma bindE_cong [fundef_cong]:
  "m = m' \<Longrightarrow> (\<And>x. m' = Inr x \<Longrightarrow> f x = f' x) \<Longrightarrow> bindE m f = bindE m' f'"
  by (cases m') auto

lemma bindE_assoc: "bindE (bindE m f) g = bindE m (\<lambda>x. bindE (f x) g)"
  by (cases m) auto

text \<open>A loop that performs one fallible step per element and stops at the first error.\<close>

fun forE :: "('a \<Rightarrow> 's \<Rightarrow> 'e + 's) \<Rightarrow> 'a list \<Rightarrow> 's \<Rightarrow> 'e + 's" where
  "forE f [] s = Inr s"
| "forE f (x # xs) s = bindE (f x s) (forE f xs)"

lemma forE_cong [fundef_cong]:
  assumes "xs = ys" and "s = t" and "\<And>x u. x \<in> set ys \<Longrightarrow> f x u = g x u"
  shows "forE f xs s = forE g ys t"
proof -
  have "(\<And>x u. x \<in> set ys \<Longrightarrow> f x u = g x u) \<Longrightarrow> forE f ys s = forE g ys s" for s
    by (induction ys arbitrary: s) (auto intro!: bindE_cong)
  with assms show ?thesis by auto
qed

lemma forE_append: "forE f (xs @ ys) s = bindE (forE f xs s) (forE f ys)"
proof (induction xs arbitrary: s)
  case (Cons x xs)
  then show ?case by (cases "f x s") simp_all
qed simp

lemma forE_invariant:
  assumes "forE f xs s = Inr t" and "P s"
    and "\<And>x u v. x \<in> set xs \<Longrightarrow> P u \<Longrightarrow> f x u = Inr v \<Longrightarrow> P v"
  shows "P t"
  using assms
  by (induction xs arbitrary: s) (auto simp: result_simps)

definition checkAll :: "('a \<Rightarrow> 'e + unit) \<Rightarrow> 'a list \<Rightarrow> 'e + unit" where
  "checkAll f xs = forE (\<lambda>x _. f x) xs ()"

lemma checkAll_simps [simp]:
  "checkAll f [] = Inr ()"
  "checkAll f (x # xs) = bindE (f x) (\<lambda>_. checkAll f xs)"
  by (simp_all add: checkAll_def)

lemma checkAll_Inr_iff [result_simps]:
  "checkAll f xs = Inr u \<longleftrightarrow> (\<forall>x \<in> set xs. f x = Inr ())"
  by (induction xs) (auto simp: result_simps)

section \<open>Lists\<close>

text \<open>The bounded prefix of a Go slice expression \<open>xs[:min(len(xs), n)]\<close> is \<open>take n xs\<close>; a
  sub-slice \<open>xs[i:j]\<close> with \<open>i \<le> j \<le> len(xs)\<close> is \<open>slice i j xs\<close>.\<close>

definition slice :: "nat \<Rightarrow> nat \<Rightarrow> 'a list \<Rightarrow> 'a list" where
  "slice i j xs = take (j - i) (drop i xs)"

lemma slice_append:
  assumes "i \<le> j" and "j \<le> k"
  shows "slice i j xs @ slice j k xs = slice i k xs"
proof -
  have "take (k - i) (drop i xs) = take (j - i) (drop i xs) @ take (k - j) (drop (j - i) (drop i xs))"
    using assms take_add [of "j - i" "k - j" "drop i xs"] by simp
  moreover have "drop (j - i) (drop i xs) = drop j xs"
    using assms by simp
  ultimately show ?thesis by (simp add: slice_def)
qed

lemma slice_full [simp]: "slice 0 (length xs) xs = xs"
  by (simp add: slice_def)

lemma length_slice [simp]: "j \<le> length xs \<Longrightarrow> length (slice i j xs) = j - i"
  by (simp add: slice_def)

section \<open>Association lists as Go maps\<close>

abbreviation keys :: "('k \<times> 'v) list \<Rightarrow> 'k list" where
  "keys m \<equiv> map fst m"

lemma map_of_update [simp]:
  "map_of (AList.update k v m) = (map_of m)(k \<mapsto> v)"
  by (rule update_conv')

lemma distinct_keys_update [simp]:
  "distinct (keys m) \<Longrightarrow> distinct (keys (AList.update k v m))"
  by (rule distinct_update)

lemma set_keys_update [simp]: "set (keys (AList.update k v m)) = insert k (set (keys m))"
proof -
  have "set (keys (AList.update k v m)) = dom (map_of (AList.update k v m))"
    by (simp only: dom_map_of_conv_image_fst image_set)
  also have "\<dots> = insert k (dom (map_of m))" by auto
  finally show ?thesis by (simp add: dom_map_of_conv_image_fst)
qed

lemma update_fresh: "k \<notin> set (keys m) \<Longrightarrow> AList.update k v m = m @ [(k, v)]"
  by (induction m) auto

lemma in_keys_iff: "k \<in> set (keys m) \<longleftrightarrow> map_of m k \<noteq> None"
  by (simp add: map_of_eq_None_iff)

end
