(* ===== verification/Go_Float.thy ===== *)
theory Go_Float
  imports Go_Strings
begin

text \<open>
  Go's \<open>float64\<close> as the sources use it: an executable model of IEEE binary64 over exact
  rationals.  A finite value is the rational it denotes, negative zero has its own constructor,
  and every arithmetic result is the exact rational result rounded by \<open>round64\<close> (round to
  nearest, ties to even, gradual underflow, overflow to infinity).  \<open>parse_float\<close> is
  \<open>strconv.ParseFloat(s, 64)\<close> on decimal text and on the names of the special values (the
  hexadecimal and underscore forms never reach it: every caller restricts the text first), and
  \<open>format_e\<close>, \<open>format_f\<close> and \<open>format_g\<close> are \<open>strconv.FormatFloat(x, _, -1, 64)\<close>.
\<close>

section \<open>Values and rounding\<close>

datatype f64 = F_NaN | F_Inf bool | F_NegZero | F_Fin rat

fun f64_finite :: "f64 \<Rightarrow> bool" where
  "f64_finite F_NaN = False"
| "f64_finite (F_Inf _) = False"
| "f64_finite F_NegZero = True"
| "f64_finite (F_Fin _) = True"

text \<open>The rational a finite value denotes.\<close>

fun f64_val :: "f64 \<Rightarrow> rat" where
  "f64_val (F_Fin q) = q"
| "f64_val _ = 0"

fun nlog2 :: "nat \<Rightarrow> nat" where
  "nlog2 n = (if n < 2 then 0 else Suc (nlog2 (n div 2)))"

declare nlog2.simps [simp del]

definition pow_int :: "rat \<Rightarrow> int \<Rightarrow> rat" where
  "pow_int b e = (if 0 \<le> e then b ^ nat e else 1 / b ^ nat (- e))"

text \<open>The exponent of the leading binary digit of a positive rational.\<close>

definition flog2 :: "rat \<Rightarrow> int" where
  "flog2 a = (let (n, d) = quotient_of a; k = int (nlog2 (nat n)) - int (nlog2 (nat d))
              in if pow_int 2 k \<le> a then k else k - 1)"

definition round_half_even :: "rat \<Rightarrow> int" where
  "round_half_even q =
     (let f = \<lfloor>q\<rfloor>; d = q - of_int f
      in if d < 1 / 2 then f else if d > 1 / 2 then f + 1 else if even f then f else f + 1)"

definition round64 :: "rat \<Rightarrow> f64" where
  "round64 q =
     (if q = 0 then F_Fin 0
      else let neg = (q < 0); a = \<bar>q\<bar>; e = max (flog2 a - 52) (-1074);
               m = round_half_even (a / pow_int 2 e); v = of_int m * pow_int 2 e
           in if e > 971 \<or> e = 971 \<and> m \<ge> 9007199254740992 then F_Inf neg
              else if v = 0 then (if neg then F_NegZero else F_Fin 0)
              else F_Fin (if neg then - v else v))"

definition f64_of_int :: "int \<Rightarrow> f64" where
  "f64_of_int i = round64 (of_int i)"

section \<open>Arithmetic and comparison\<close>

fun f64_neg :: "f64 \<Rightarrow> f64" where
  "f64_neg F_NaN = F_NaN"
| "f64_neg (F_Inf b) = F_Inf (\<not> b)"
| "f64_neg F_NegZero = F_Fin 0"
| "f64_neg (F_Fin q) = (if q = 0 then F_NegZero else F_Fin (- q))"

fun f64_add :: "f64 \<Rightarrow> f64 \<Rightarrow> f64" where
  "f64_add F_NaN y = F_NaN"
| "f64_add x F_NaN = F_NaN"
| "f64_add (F_Inf a) (F_Inf b) = (if a = b then F_Inf a else F_NaN)"
| "f64_add (F_Inf a) y = F_Inf a"
| "f64_add x (F_Inf b) = F_Inf b"
| "f64_add F_NegZero F_NegZero = F_NegZero"
| "f64_add x y = round64 (f64_val x + f64_val y)"

definition f64_sub :: "f64 \<Rightarrow> f64 \<Rightarrow> f64" where
  "f64_sub x y = f64_add x (f64_neg y)"

fun f64_less :: "f64 \<Rightarrow> f64 \<Rightarrow> bool" where
  "f64_less F_NaN y = False"
| "f64_less x F_NaN = False"
| "f64_less (F_Inf a) (F_Inf b) = (a \<and> \<not> b)"
| "f64_less (F_Inf a) y = a"
| "f64_less x (F_Inf b) = (\<not> b)"
| "f64_less x y = (f64_val x < f64_val y)"

fun f64_le :: "f64 \<Rightarrow> f64 \<Rightarrow> bool" where
  "f64_le F_NaN y = False"
| "f64_le x F_NaN = False"
| "f64_le (F_Inf a) (F_Inf b) = (a \<or> \<not> b)"
| "f64_le (F_Inf a) y = a"
| "f64_le x (F_Inf b) = (\<not> b)"
| "f64_le x y = (f64_val x \<le> f64_val y)"

definition f64_zero :: f64 where
  "f64_zero = F_Fin 0"

definition f64_is_zero :: "f64 \<Rightarrow> bool" where
  "f64_is_zero x \<longleftrightarrow> x = F_Fin 0 \<or> x = F_NegZero"

text \<open>Go's \<open>==\<close> on floats: NaN differs from everything, the two zeros are equal.\<close>

definition f64_eq :: "f64 \<Rightarrow> f64 \<Rightarrow> bool" where
  "f64_eq x y \<longleftrightarrow> f64_le x y \<and> f64_le y x"

definition f64_abs :: "f64 \<Rightarrow> f64" where
  "f64_abs x = (case x of F_NaN \<Rightarrow> F_NaN | F_Inf _ \<Rightarrow> F_Inf False | F_NegZero \<Rightarrow> F_Fin 0
     | F_Fin q \<Rightarrow> F_Fin \<bar>q\<bar>)"

text \<open>\<open>math.Max(0, x)\<close> and the two-argument minimum (\<open>math.Min\<close> and the builtin agree).\<close>

definition f64_max0 :: "f64 \<Rightarrow> f64" where
  "f64_max0 x = (if x = F_NaN then F_NaN else if f64_less f64_zero x then x else f64_zero)"

definition f64_min :: "f64 \<Rightarrow> f64 \<Rightarrow> f64" where
  "f64_min x y =
     (if x = F_Inf True \<or> y = F_Inf True then F_Inf True
      else if x = F_NaN \<or> y = F_NaN then F_NaN
      else if f64_is_zero x \<and> f64_is_zero y then (if x = F_NegZero then x else y)
      else if f64_less x y then x else y)"

lemma f64_finite_cases:
  "f64_finite x \<longleftrightarrow> x = F_NegZero \<or> (\<exists>q. x = F_Fin q)"
  by (cases x) auto

lemma f64_less_val: "f64_finite x \<Longrightarrow> f64_finite y \<Longrightarrow> f64_less x y \<longleftrightarrow> f64_val x < f64_val y"
  by (auto simp: f64_finite_cases)

lemma f64_le_val: "f64_finite x \<Longrightarrow> f64_finite y \<Longrightarrow> f64_le x y \<longleftrightarrow> f64_val x \<le> f64_val y"
  by (auto simp: f64_finite_cases)

lemma f64_not_less: "x \<noteq> F_NaN \<Longrightarrow> y \<noteq> F_NaN \<Longrightarrow> \<not> f64_less x y \<longleftrightarrow> f64_le y x"
  by (cases x; cases y) auto

lemma f64_less_irrefl [simp]: "\<not> f64_less x x"
  by (cases x) auto

lemma round64_not_NaN [simp]: "round64 q \<noteq> F_NaN"
  by (simp add: round64_def Let_def)

lemma f64_max0_nonneg: "x \<noteq> F_NaN \<Longrightarrow> f64_le f64_zero (f64_max0 x)"
  by (cases x) (auto simp: f64_max0_def f64_zero_def)

lemma f64_eq_refl: "f64_finite x \<Longrightarrow> f64_eq x x"
  by (cases x) (auto simp: f64_eq_def)

lemma f64_eq_sym: "f64_eq x y \<longleftrightarrow> f64_eq y x"
  by (auto simp: f64_eq_def)

section \<open>Small integers are exact\<close>

lemma nlog2_bounds: "0 < n \<Longrightarrow> 2 ^ nlog2 n \<le> n \<and> n < 2 ^ Suc (nlog2 n)"
proof (induction n rule: nlog2.induct)
  case (1 n)
  show ?case
  proof (cases "n < 2")
    case True
    with 1(2) show ?thesis by (subst (1 2) nlog2.simps) auto
  next
    case False
    with 1(1) have "2 ^ nlog2 (n div 2) \<le> n div 2 \<and> n div 2 < 2 ^ Suc (nlog2 (n div 2))" by simp
    with False show ?thesis by (subst (1 2) nlog2.simps) auto
  qed
qed

lemma flog2_of_nat:
  assumes "0 < n"
  shows "flog2 (of_nat n) = int (nlog2 n)"
proof -
  have "quotient_of (of_nat n :: rat) = (int n, 1)"
    using quotient_of_int [of "int n"] by (simp add: Rat.of_int_def)
  moreover have "nlog2 1 = 0" by (subst nlog2.simps) simp
  moreover have "(2 :: rat) ^ nlog2 n \<le> of_nat n"
    using nlog2_bounds [OF assms] by (metis of_nat_le_iff of_nat_numeral of_nat_power)
  ultimately show ?thesis by (simp add: flog2_def pow_int_def)
qed

lemma round_half_even_of_int [simp]: "round_half_even (of_int i) = i"
  by (simp add: round_half_even_def)

lemma round64_of_nat:
  assumes "n < 9007199254740992"
  shows "round64 (of_nat n) = F_Fin (of_nat n)"
proof (cases "n = 0")
  case False
  then have pos: "0 < n" by simp
  have "nlog2 n \<le> 52"
  proof (rule ccontr)
    assume "\<not> nlog2 n \<le> 52"
    then have "(2 :: nat) ^ 53 \<le> 2 ^ nlog2 n" by (intro power_increasing) auto
    with nlog2_bounds [OF pos] assms show False by simp
  qed
  then have k: "int (nlog2 n) - 52 = - int (52 - nlog2 n)" by simp
  define k where "k = 52 - nlog2 n"
  have e: "max (flog2 (of_nat n) - 52) (- 1074) = - int k"
    unfolding flog2_of_nat [OF pos] k k_def by simp
  have q: "(of_nat n :: rat) / pow_int 2 (- int k) = of_int (int n * 2 ^ k)"
    by (simp add: pow_int_def)
  have v: "of_int (int n * 2 ^ k) * pow_int 2 (- int k) = (of_nat n :: rat)"
    by (simp add: pow_int_def)
  have "\<not> - int k > 971" and "- int k \<noteq> 971" by linarith+
  moreover have "(of_nat n :: rat) \<noteq> 0" and "\<not> (of_nat n :: rat) < 0" using pos by simp_all
  ultimately show ?thesis
    by (simp only: round64_def Let_def e abs_of_nat q round_half_even_of_int v if_False simp_thms)
qed (simp add: round64_def)

lemma round64_numeral:
  "(numeral k :: nat) < 9007199254740992 \<Longrightarrow> round64 (numeral k) = F_Fin (numeral k)"
  using round64_of_nat [of "numeral k"] by simp

lemma round64_0 [simp]: "round64 0 = F_Fin 0"
  by (simp add: round64_def)

lemma round64_1 [simp]: "round64 1 = F_Fin 1"
  using round64_of_nat [of 1] by simp

section \<open>Decimal text to float\<close>

definition sign_split :: "string \<Rightarrow> bool \<times> string" where
  "sign_split s = (case s of
       [] \<Rightarrow> (False, [])
     | c # t \<Rightarrow> if c = CHR ''-'' then (True, t) else if c = CHR ''+'' then (False, t) else (False, s))"

definition parse_exponent :: "string \<Rightarrow> int option" where
  "parse_exponent t =
     (let (neg, ds) = sign_split t
      in if ds \<noteq> [] \<and> list_all is_digit ds
         then Some (if neg then - int (digits_val ds) else int (digits_val ds)) else None)"

definition parse_unsigned :: "string \<Rightarrow> rat option" where
  "parse_unsigned s =
     (let ip = takeWhile is_digit s; r = dropWhile is_digit s;
          (fp, r2) = (case r of
              [] \<Rightarrow> ([], [])
            | c # t \<Rightarrow> if c = CHR ''.'' then (takeWhile is_digit t, dropWhile is_digit t) else ([], r));
          m = (of_nat (digits_val (ip @ fp)) :: rat)
      in if ip @ fp = [] then None
         else (case r2 of
             [] \<Rightarrow> Some (m * pow_int 10 (- int (length fp)))
           | c # t \<Rightarrow> if c = CHR ''e'' \<or> c = CHR ''E''
                      then map_option (\<lambda>e. m * pow_int 10 (e - int (length fp))) (parse_exponent t)
                      else None))"

text \<open>The flag of the result says whether Go also returns \<open>ErrRange\<close>.\<close>

definition parse_float :: "string \<Rightarrow> (f64 \<times> bool) option" where
  "parse_float s =
     (let (neg, t) = sign_split s; lower = map (\<lambda>c. if 65 \<le> ord c \<and> ord c \<le> 90 then chr (ord c + 32) else c)
      in if lower t = ''inf'' \<or> lower t = ''infinity'' then Some (F_Inf neg, False)
         else if lower s = ''nan'' then Some (F_NaN, False)
         else map_option (\<lambda>q. let r = round64 q in
                (if neg then f64_neg r else r, \<not> f64_finite r)) (parse_unsigned t))"

lemma parse_float_range: "parse_float s = Some (x, True) \<Longrightarrow> \<not> f64_finite x"
  by (auto simp: parse_float_def Let_def split: prod.splits if_splits)
    (metis f64_finite.elims(3) f64_finite.simps(1,2) f64_neg.simps(1,2))

section \<open>Float to decimal text\<close>

text \<open>The decimal exponent \<open>x\<close> with \<open>10 ^ x \<le> a < 10 ^ (x + 1)\<close> of a positive rational.\<close>

definition dec_exponent :: "rat \<Rightarrow> int" where
  "dec_exponent a =
     (if 1 \<le> a then int (length (nat_str (nat \<lfloor>a\<rfloor>))) - 1
      else - int (length (nat_str (nat (\<lceil>1 / a\<rceil> - 1)))))"

text \<open>The decimal with \<open>n\<close> significant digits that reads back as \<open>a\<close> and is closest to it.\<close>

definition decimal_at :: "rat \<Rightarrow> nat \<Rightarrow> int option" where
  "decimal_at a n =
     (let sc = pow_int 10 (dec_exponent a - int n + 1); lo = \<lfloor>a / sc\<rfloor>;
          fits = (\<lambda>c. round64 (of_int c * sc) = F_Fin a);
          near = round_half_even (a / sc)
      in if fits lo \<and> fits (lo + 1) then Some near
         else if fits lo then Some lo
         else if fits (lo + 1) then Some (lo + 1) else None)"

fun shortest_from :: "rat \<Rightarrow> nat list \<Rightarrow> int \<times> nat" where
  "shortest_from a [] = (round_half_even (a / pow_int 10 (dec_exponent a - 16)), 17)"
| "shortest_from a (n # ns) =
     (case decimal_at a n of Some m \<Rightarrow> (m, n) | None \<Rightarrow> shortest_from a ns)"

text \<open>Shortest digits of a positive finite value and the position of its decimal point.\<close>

definition shortest_digits :: "rat \<Rightarrow> string \<times> int" where
  "shortest_digits a =
     (if a = 0 then (''0'', 1)
      else let (m, n) = shortest_from a [1..<18]; ds = nat_str (nat m)
           in (rev (trim_left ''0'' (rev ds)), dec_exponent a - int n + 1 + int (length ds)))"

definition exponent_text :: "int \<Rightarrow> string" where
  "exponent_text e =
     (let ds = nat_str (nat \<bar>e\<bar>)
      in (if e < 0 then ''-'' else ''+'') @ (if length ds < 2 then CHR ''0'' # ds else ds))"

definition text_e :: "string \<Rightarrow> int \<Rightarrow> string" where
  "text_e ds dp = take 1 ds @ (if tl ds = [] then [] else CHR ''.'' # tl ds) @ ''e'' @
     exponent_text (if ds = ''0'' then 0 else dp - 1)"

definition text_f :: "string \<Rightarrow> int \<Rightarrow> string" where
  "text_f ds dp =
     (if dp \<le> 0 then ''0.'' @ replicate (nat (- dp)) CHR ''0'' @ ds
      else if int (length ds) \<le> dp then ds @ replicate (nat dp - length ds) CHR ''0''
      else take (nat dp) ds @ CHR ''.'' # drop (nat dp) ds)"

definition format_with :: "(string \<Rightarrow> int \<Rightarrow> string) \<Rightarrow> f64 \<Rightarrow> string" where
  "format_with t x = (case x of
       F_NaN \<Rightarrow> ''NaN''
     | F_Inf neg \<Rightarrow> (if neg then ''-Inf'' else ''+Inf'')
     | F_NegZero \<Rightarrow> CHR ''-'' # t ''0'' 1
     | F_Fin q \<Rightarrow> (if q < 0 then ''-'' else []) @ (let (ds, dp) = shortest_digits \<bar>q\<bar> in t ds dp))"

definition format_e :: "f64 \<Rightarrow> string" where
  "format_e = format_with text_e"

definition format_f :: "f64 \<Rightarrow> string" where
  "format_f = format_with (\<lambda>ds dp. if ds = ''0'' then ''0'' else text_f ds dp)"

definition format_g :: "f64 \<Rightarrow> string" where
  "format_g = format_with (\<lambda>ds dp.
     if ds = ''0'' then ''0''
     else if dp - 1 < -4 \<or> dp - 1 \<ge> 6 then text_e ds dp
     else text_f ds dp)"

text \<open>\<open>fmt.Sprintf("%.kf", x)\<close>: the exact value rounded half-even at the \<open>k\<close>-th decimal.\<close>

definition format_fixed :: "nat \<Rightarrow> f64 \<Rightarrow> string" where
  "format_fixed k x = (case x of
       F_NaN \<Rightarrow> ''NaN''
     | F_Inf neg \<Rightarrow> (if neg then ''-Inf'' else ''+Inf'')
     | _ \<Rightarrow>
        (let q = f64_val x; m = nat (round_half_even (\<bar>q\<bar> * 10 ^ k));
             ds = nat_str m; ds' = replicate (Suc k - length ds) CHR ''0'' @ ds
         in (if q < 0 \<or> x = F_NegZero then ''-'' else []) @ take (length ds' - k) ds' @
            (if k = 0 then [] else CHR ''.'' # drop (length ds' - k) ds')))"

end
