(* ===== verification/Json_Value.thy ===== *)
theory Json_Value
  imports Go_Float
begin

text \<open>
  The decoder of \<open>internal/jsonvalue\<close> (\<open>decode.go\<close>, \<open>string.go\<close>).  A decoded value is a \<open>jval\<close>: numbers
  keep their spelling (\<open>json.Number\<close>), strings are byte strings in which a lone surrogate is its
  three-byte WTF-8 form, and an object is an association list in first-insertion order whose later
  assignments to a key replace the earlier value, as the Go map does.  \<open>JInt\<close> and \<open>JFloat\<close> stand for
  the Go integers and floats a caller may hand to the encoder; the decoder never makes them.

  The Go parser is a cursor over the data; here each method takes the remaining bytes and returns
  the value with the bytes after it.  Recursion needs no fuel: a successful parse consumes input
  (\<open>jvalue_consumes\<close>), which is the termination argument.  The context polls, which only ever turn a
  run into a cancellation error, are not part of the value computed and are left out.
\<close>

section \<open>Values\<close>

datatype jval =
    JNull
  | JBool bool
  | JNum string
  | JStr string
  | JArr "jval list"
  | JObj "(string \<times> jval) list"
  | JInt int
  | JFloat f64

datatype json_error = SyntaxError | DepthError

text \<open>Reading a Go map: a missing key gives the nil interface.\<close>

definition jat :: "(string \<times> jval) list \<Rightarrow> string \<Rightarrow> jval" where
  "jat m k = (case map_of m k of Some v \<Rightarrow> v | None \<Rightarrow> JNull)"

definition jset :: "string \<Rightarrow> jval \<Rightarrow> (string \<times> jval) list \<Rightarrow> (string \<times> jval) list" where
  "jset k v m = AList.update k v m"

lemma jat_jset [simp]: "jat (jset k v m) k' = (if k = k' then v else jat m k')"
  by (simp add: jat_def jset_def)

lemma distinct_keys_jset [simp]: "distinct (keys m) \<Longrightarrow> distinct (keys (jset k v m))"
  by (simp add: jset_def)

lemma jat_Nil [simp]: "jat [] k = JNull"
  by (simp add: jat_def)

lemma jat_Cons [simp]: "jat ((k', v) # m) k = (if k' = k then v else jat m k)"
  by (simp add: jat_def)

section \<open>Characters and literals\<close>

abbreviation quote_char :: char where "quote_char \<equiv> CHR 0x22"
abbreviation backslash :: char where "backslash \<equiv> CHR 0x5C"

definition json_space :: "char \<Rightarrow> bool" where
  "json_space c \<longleftrightarrow> c = CHR '' '' \<or> c = CHR 0x09 \<or> c = CHR 0x0D \<or> c = CHR 0x0A"

definition skip_space :: "string \<Rightarrow> string" where
  "skip_space s = dropWhile json_space s"

definition jliteral :: "string \<Rightarrow> jval \<Rightarrow> string \<Rightarrow> json_error + (jval \<times> string)" where
  "jliteral lit v s = (if has_prefix lit s then Inr (v, drop (length lit) s) else Inl SyntaxError)"

text \<open>\<open>json.Valid\<close> on text made of number characters only: the JSON number grammar.\<close>

definition number_char :: "char \<Rightarrow> bool" where
  "number_char c \<longleftrightarrow> is_digit c \<or> c \<in> set ''-+.eE''"

definition json_exponent_ok :: "string \<Rightarrow> bool" where
  "json_exponent_ok s = (case s of [] \<Rightarrow> True
     | c # t \<Rightarrow> (c = CHR ''e'' \<or> c = CHR ''E'') \<and>
         (let ds = (case t of [] \<Rightarrow> [] | d # u \<Rightarrow> if d = CHR ''+'' \<or> d = CHR ''-'' then u else t)
          in ds \<noteq> [] \<and> list_all is_digit ds))"

definition json_fraction_ok :: "string \<Rightarrow> bool" where
  "json_fraction_ok s = (case s of [] \<Rightarrow> True
     | c # t \<Rightarrow> if c = CHR ''.''
                then takeWhile is_digit t \<noteq> [] \<and> json_exponent_ok (dropWhile is_digit t)
                else json_exponent_ok s)"

definition json_number_ok :: "string \<Rightarrow> bool" where
  "json_number_ok s =
     (let u = trim_prefix ''-'' s; ip = takeWhile is_digit u
      in ip \<noteq> [] \<and> (hd ip = CHR ''0'' \<longrightarrow> length ip = 1) \<and> json_fraction_ok (dropWhile is_digit u))"

definition jnumber :: "string \<Rightarrow> json_error + (jval \<times> string)" where
  "jnumber s =
     (let raw = takeWhile number_char s; rest = dropWhile number_char s
      in if \<not> json_number_ok raw then Inl SyntaxError
         else if \<not> contains_any raw ''.eE'' \<and> length (trim_prefix ''-'' raw) > 4300 then Inl SyntaxError
         else Inr (JNum raw, rest))"

section \<open>Strings\<close>

definition hex_val :: "char \<Rightarrow> nat option" where
  "hex_val c = (let n = ord c in
     if 48 \<le> n \<and> n \<le> 57 then Some (n - 48)
     else if 97 \<le> n \<and> n \<le> 102 then Some (n - 97 + 10)
     else if 65 \<le> n \<and> n \<le> 70 then Some (n - 65 + 10) else None)"

fun hex_digits :: "nat \<Rightarrow> string \<Rightarrow> nat option" where
  "hex_digits acc [] = Some acc"
| "hex_digits acc (c # s) = (case hex_val c of None \<Rightarrow> None | Some d \<Rightarrow> hex_digits (acc * 16 + d) s)"

definition code_unit :: "string \<Rightarrow> json_error + (nat \<times> string)" where
  "code_unit s =
     (if length s < 4 then Inl SyntaxError
      else case hex_digits 0 (take 4 s) of
             None \<Rightarrow> Inl SyntaxError | Some n \<Rightarrow> Inr (n, drop 4 s))"

definition is_surrogate :: "nat \<Rightarrow> bool" where
  "is_surrogate r \<longleftrightarrow> 55296 \<le> r \<and> r \<le> 57343"

definition is_high_surrogate :: "nat \<Rightarrow> bool" where
  "is_high_surrogate r \<longleftrightarrow> 55296 \<le> r \<and> r \<le> 56319"

definition is_low_surrogate :: "nat \<Rightarrow> bool" where
  "is_low_surrogate r \<longleftrightarrow> 56320 \<le> r \<and> r \<le> 57343"

text \<open>The bytes written for a code point: a surrogate as its three-byte WTF-8 form.\<close>

definition wtf8 :: "nat \<Rightarrow> string" where
  "wtf8 r = (if is_surrogate r then [chr 237, chr (128 + r div 64 mod 64), chr (128 + r mod 64)]
             else encode_rune r)"

definition simple_escape :: "char \<Rightarrow> char option" where
  "simple_escape c =
     (if c = quote_char \<or> c = backslash \<or> c = CHR ''/'' then Some c
      else if c = CHR ''b'' then Some (CHR 0x08)
      else if c = CHR ''f'' then Some (CHR 0x0C)
      else if c = CHR ''n'' then Some (CHR 0x0A)
      else if c = CHR ''r'' then Some (CHR 0x0D)
      else if c = CHR ''t'' then Some (CHR 0x09) else None)"

text \<open>After \<open>\u\<close>: one code unit, joined with a following escaped low surrogate if it is a high one.\<close>

definition unicode_escape :: "string \<Rightarrow> json_error + (string \<times> string)" where
  "unicode_escape s =
     bindE (code_unit s) (\<lambda>(code, t).
       if is_high_surrogate code \<and> 6 \<le> length t \<and> has_prefix [backslash, CHR ''u''] t then
         bindE (code_unit (drop 2 t)) (\<lambda>(low, t').
           if is_low_surrogate low
           then Inr (wtf8 (65536 + (code - 55296) * 1024 + low - 56320), t')
           else Inr (wtf8 code, t))
       else Inr (wtf8 code, t))"

lemma code_unit_length: "code_unit s = Inr (n, t) \<Longrightarrow> length t < length s"
  by (auto simp: code_unit_def split: if_splits option.splits)

lemma unicode_escape_length: "unicode_escape s = Inr (b, t) \<Longrightarrow> length t < length s"
  by (auto simp: unicode_escape_def result_simps split: if_splits dest!: code_unit_length)

text \<open>The method \<open>string\<close>, entered after the opening quote; \<open>acc\<close> is the builder.\<close>

function scan_string :: "string \<Rightarrow> string \<Rightarrow> json_error + (string \<times> string)" where
  "scan_string acc [] = Inl SyntaxError"
| "scan_string acc (c # s) =
     (if c = quote_char then Inr (acc, s)
      else if ord c < 32 then Inl SyntaxError
      else if c \<noteq> backslash then scan_string (acc @ [c]) s
      else case s of [] \<Rightarrow> Inl SyntaxError
        | e # t \<Rightarrow>
           (case simple_escape e of
              Some b \<Rightarrow> scan_string (acc @ [b]) t
            | None \<Rightarrow>
                if e = CHR ''u''
                then bindE (unicode_escape t) (\<lambda>p. scan_string (acc @ fst p) (snd p))
                else Inl SyntaxError))"
  by pat_completeness auto
termination
  by (relation "measure (\<lambda>(acc, s). length s)") (auto dest!: unicode_escape_length)

lemma scan_string_length: "scan_string acc s = Inr (r, t) \<Longrightarrow> length t < length s"
proof (induction acc s rule: scan_string.induct)
  case (2 acc c s)
  consider "c = quote_char" | "c \<noteq> quote_char" "\<not> ord c < 32" "c \<noteq> backslash"
    | "c \<noteq> quote_char" "\<not> ord c < 32" "c = backslash"
    using "2.prems" by (auto split: if_splits)
  then show ?case
  proof cases
    case 3
    then obtain e u where s: "s = e # u" using "2.prems" by (cases s) auto
    show ?thesis
    proof (cases "simple_escape e")
      case None
      with "2.prems" 3 s obtain p where p: "unicode_escape u = Inr p"
        and r: "scan_string (acc @ fst p) (snd p) = Inr (r, t)" and e: "e = CHR ''u''"
        by (auto simp: result_simps split: if_splits)
      have "length t < length (snd p)"
        using "2.IH"(2) [OF 3(1,2) _ s None e p r] 3(3) by simp
      with unicode_escape_length [of u "fst p" "snd p"] p s show ?thesis by simp
    next
      case (Some b)
      with "2.prems" 3 s "2.IH"(3) [OF 3(1,2) _ s Some] show ?thesis by simp
    qed
  qed (use "2" in simp_all)
qed simp

section \<open>Values, arrays and objects\<close>

text \<open>Insertion into the result map: \<open>DecodeUnique\<close> refuses a key that is present.\<close>

definition jinsert :: "bool \<Rightarrow> (string \<times> jval) list \<Rightarrow> string \<Rightarrow> jval \<Rightarrow>
    json_error + (string \<times> jval) list" where
  "jinsert u m k v = (if u \<and> k \<in> set (keys m) then Inl SyntaxError else Inr (AList.update k v m))"

lemma skip_space_length: "length (skip_space s) \<le> length s"
  by (simp add: skip_space_def length_dropWhile_le)

lemma skip_space_Cons_length: "skip_space s = c # t \<Longrightarrow> length t < length s"
  using skip_space_length [of s] by simp

text \<open>\<open>jvalue\<close> is the method \<open>value\<close>; \<open>jmembers\<close> and \<open>jelements\<close> are the loops of \<open>object\<close> and
  \<open>array\<close>, entered after the test for an empty container.\<close>

function jvalue :: "bool \<Rightarrow> nat \<Rightarrow> string \<Rightarrow> json_error + (jval \<times> string)"
  and jmembers :: "bool \<Rightarrow> nat \<Rightarrow> (string \<times> jval) list \<Rightarrow> string \<Rightarrow> json_error + (jval \<times> string)"
  and jelements :: "bool \<Rightarrow> nat \<Rightarrow> jval list \<Rightarrow> string \<Rightarrow> json_error + (jval \<times> string)"
where
  "jvalue u depth s =
     (case skip_space s of [] \<Rightarrow> Inl SyntaxError
      | c # t \<Rightarrow>
         if c = CHR ''{'' \<or> c = CHR ''['' then
           (if depth \<ge> 512 then Inl DepthError
            else if c = CHR ''{'' then
              (if has_prefix ''}'' (skip_space t) then Inr (JObj [], tl (skip_space t))
               else jmembers u (Suc depth) [] (skip_space t))
            else
              (if has_prefix '']'' (skip_space t) then Inr (JArr [], tl (skip_space t))
               else jelements u (Suc depth) [] (skip_space t)))
         else if c = quote_char then bindE (scan_string [] t) (\<lambda>(x, r). Inr (JStr x, r))
         else if c = CHR ''t'' then jliteral ''true'' (JBool True) (c # t)
         else if c = CHR ''f'' then jliteral ''false'' (JBool False) (c # t)
         else if c = CHR ''n'' then jliteral ''null'' JNull (c # t)
         else if c = CHR ''N'' then jliteral ''NaN'' (JNum ''NaN'') (c # t)
         else if c = CHR ''I'' then jliteral ''Infinity'' (JNum ''Infinity'') (c # t)
         else if c = CHR ''-'' then
           (if has_prefix ''-Infinity'' (c # t)
            then jliteral ''-Infinity'' (JNum ''-Infinity'') (c # t)
            else jnumber (c # t))
         else if is_digit c then jnumber (c # t)
         else Inl SyntaxError)"
| "jmembers u depth m s =
     (case skip_space s of [] \<Rightarrow> Inl SyntaxError
      | c # t \<Rightarrow>
         if c \<noteq> quote_char then Inl SyntaxError
         else bindE (scan_string [] t) (\<lambda>p.
           case skip_space (snd p) of [] \<Rightarrow> Inl SyntaxError
           | d # t2 \<Rightarrow>
              if d \<noteq> CHR '':'' then Inl SyntaxError
              else bindE (jvalue u depth t2) (\<lambda>q.
                bindE (jinsert u m (fst p) (fst q)) (\<lambda>m'.
                  case skip_space (snd q) of [] \<Rightarrow> Inl SyntaxError
                  | e # t3 \<Rightarrow>
                     if e = CHR ''}'' then Inr (JObj m', t3)
                     else if e = CHR '','' then jmembers u depth m' t3
                     else Inl SyntaxError))))"
| "jelements u depth vs s =
     bindE (jvalue u depth s) (\<lambda>q.
       case skip_space (snd q) of [] \<Rightarrow> Inl SyntaxError
       | e # t3 \<Rightarrow>
          if e = CHR '']'' then Inr (JArr (vs @ [fst q]), t3)
          else if e = CHR '','' then jelements u depth (vs @ [fst q]) t3
          else Inl SyntaxError)"
  by pat_completeness auto

lemma jliteral_length: "jliteral lit v s = Inr (x, r) \<Longrightarrow> lit \<noteq> [] \<Longrightarrow> length r < length s"
  by (cases lit) (auto simp: jliteral_def has_prefix_iff split: if_splits)

lemma jnumber_length:
  "jnumber (c # s) = Inr (x, r) \<Longrightarrow> number_char c \<Longrightarrow> length r < length (c # s)"
  using length_dropWhile_le [of number_char s]
  by (auto simp: jnumber_def Let_def split: if_splits)

lemma number_char_intros: "is_digit c \<Longrightarrow> number_char c" "number_char CHR ''-''"
  by (simp_all add: number_char_def)


text \<open>A successful parse consumes at least one byte, wherever the recursion is defined.\<close>

lemma length_tl_skip: "length (tl (skip_space t)) \<le> length t"
  using skip_space_length [of t] by simp

lemma consumes_partial:
  "jvalue_jmembers_jelements_dom (Inl (u, d, s)) \<Longrightarrow>
     (\<forall>x r. jvalue u d s = Inr (x, r) \<longrightarrow> length r < length s)"
  "jvalue_jmembers_jelements_dom (Inr (Inl (u, d, m, s))) \<Longrightarrow>
     (\<forall>x r. jmembers u d m s = Inr (x, r) \<longrightarrow> length r < length s)"
  "jvalue_jmembers_jelements_dom (Inr (Inr (u, d, vs, s))) \<Longrightarrow>
     (\<forall>x r. jelements u d vs s = Inr (x, r) \<longrightarrow> length r < length s)"
proof (induction u d s and u d m s and u d vs s rule: jvalue_jmembers_jelements.pinduct)
  case (1 u d s)
  show ?case
  proof (intro allI impI)
    fix x r
    assume eq: "jvalue u d s = Inr (x, r)"
    then obtain c t where c: "skip_space s = c # t"
      by (auto simp: jvalue.psimps [OF 1(1)] split: list.splits)
    have t: "length t < length s" by (rule skip_space_Cons_length [OF c])
    note skip = skip_space_length [of t] length_tl_skip [of t]
    consider (mem) "c = CHR ''{'' \<or> c = CHR ''[''" "\<not> 512 \<le> d" "c = CHR ''{''"
        "\<not> has_prefix ''}'' (skip_space t)" "jmembers u (Suc d) [] (skip_space t) = Inr (x, r)"
      | (elem) "c = CHR ''{'' \<or> c = CHR ''[''" "\<not> 512 \<le> d" "c \<noteq> CHR ''{''"
        "\<not> has_prefix '']'' (skip_space t)" "jelements u (Suc d) [] (skip_space t) = Inr (x, r)"
      | (empty) "r = tl (skip_space t)"
      | (str) y where "scan_string [] t = Inr (y, r)"
      | (lit) l v where "jliteral l v (c # t) = Inr (x, r)" "l \<noteq> []"
      | (num) "jnumber (c # t) = Inr (x, r)" "number_char c"
    proof (cases "c = CHR ''{'' \<or> c = CHR ''['' \<or> c = quote_char")
      case True
      with eq mem elem empty str show ?thesis
        by (auto simp: jvalue.psimps [OF 1(1)] c result_simps split: if_splits)
    next
      case False
      with eq lit num number_char_intros show ?thesis
        by (simp add: jvalue.psimps [OF 1(1)] c split: if_splits)
    qed
    then show "length r < length s"
    proof cases
      case mem
      then show ?thesis using "1.IH"(1) [OF c mem(1-4)] t skip by fastforce
    next
      case elem
      then show ?thesis using "1.IH"(2) [OF c elem(1-4)] t skip by fastforce
    next
      case empty
      then show ?thesis using t skip by simp
    next
      case (str y)
      then show ?thesis using scan_string_length t by fastforce
    next
      case (lit l v)
      then show ?thesis using jliteral_length [OF lit] t by simp
    next
      case num
      then show ?thesis using jnumber_length [OF num] t by simp
    qed
  qed
next
  case (2 u d m s)
  show ?case
  proof (intro allI impI)
    fix x r
    assume eq: "jmembers u d m s = Inr (x, r)"
    then obtain t where c: "skip_space s = quote_char # t"
      by (auto simp: jmembers.psimps [OF 2(1)] split: list.splits if_splits)
    note unf = jmembers.psimps [OF 2(1)] c
    from eq obtain p where p: "scan_string [] t = Inr p"
      by (cases "scan_string [] t") (simp_all add: unf)
    from eq obtain d' t2 where "skip_space (snd p) = d' # t2"
      by (cases "skip_space (snd p)") (simp_all add: unf p)
    with eq have d: "skip_space (snd p) = CHR '':'' # t2"
      by (simp add: unf p split: if_splits)
    from eq obtain q where q: "jvalue u d t2 = Inr q"
      by (cases "jvalue u d t2") (simp_all add: unf p d)
    from eq obtain m' where i: "jinsert u m (fst p) (fst q) = Inr m'"
      by (cases "jinsert u m (fst p) (fst q)") (simp_all add: unf p d q)
    from eq obtain e t3 where e: "skip_space (snd q) = e # t3"
      by (cases "skip_space (snd q)") (simp_all add: unf p d q i)
    from eq have rest: "e = CHR ''}'' \<and> r = t3 \<or> e = CHR '','' \<and> e \<noteq> CHR ''}'' \<and> jmembers u d m' t3 = Inr (x, r)"
      by (simp add: unf p d q i e split: if_splits)
    have "length (snd q) < length t2"
      using "2.IH"(1) [OF c _ p d] q by (cases q) auto
    moreover have "length (snd p) < length t"
      using scan_string_length [of "[]" t "fst p" "snd p"] p by simp
    moreover have "length r \<le> length t3"
      using rest "2.IH"(2) [OF c _ p d _ q i e] by auto
    moreover note skip_space_Cons_length [OF c] skip_space_Cons_length [OF d] skip_space_Cons_length [OF e]
    ultimately show "length r < length s" by linarith
  qed
next
  case (3 u d vs s)
  show ?case
  proof (intro allI impI)
    fix x r
    assume eq: "jelements u d vs s = Inr (x, r)"
    note unf = jelements.psimps [OF 3(1)]
    from eq obtain q where q: "jvalue u d s = Inr q"
      by (cases "jvalue u d s") (simp_all add: unf)
    from eq obtain e t3 where e: "skip_space (snd q) = e # t3"
      by (cases "skip_space (snd q)") (simp_all add: unf q)
    from eq have rest: "e = CHR '']'' \<and> r = t3 \<or> e = CHR '','' \<and> e \<noteq> CHR '']'' \<and>
        jelements u d (vs @ [fst q]) t3 = Inr (x, r)"
      by (simp add: unf q e split: if_splits)
    have "length (snd q) < length s"
      using "3.IH"(1) q by (cases q) auto
    moreover have "length r \<le> length t3"
      using rest "3.IH"(2) [OF q e] by auto
    moreover note skip_space_Cons_length [OF e]
    ultimately show "length r < length s" by linarith
  qed
qed

termination jvalue
proof (relation "measure (\<lambda>x. case x of Inl (u, d, s) \<Rightarrow> 2 * length s
     | Inr (Inl (u, d, m, s)) \<Rightarrow> 2 * length s + 1 | Inr (Inr (u, d, vs, s)) \<Rightarrow> 2 * length s + 1)",
    goal_cases)
  case (2 u depth s c t)
  then show ?case
    using skip_space_Cons_length [of s c t] skip_space_length [of t] by simp
next
  case (3 u depth s c t)
  then show ?case
    using skip_space_Cons_length [of s c t] skip_space_length [of t] by simp
next
  case (4 u depth m s c t p d t2)
  then show ?case
    using skip_space_Cons_length [of s c t] skip_space_Cons_length [of "snd p" d t2]
      scan_string_length [of "[]" t "fst p" "snd p"] by simp
next
  case (5 u depth m s c t p d t2 q m' e t3)
  then show ?case
    using skip_space_Cons_length [of s c t] skip_space_Cons_length [of "snd p" d t2]
      scan_string_length [of "[]" t "fst p" "snd p"] skip_space_Cons_length [of "snd q" e t3]
      consumes_partial(1) [of u depth t2] by (cases q) simp
next
  case (7 u depth vs s q e t3)
  then show ?case
    using skip_space_Cons_length [of "snd q" e t3] consumes_partial(1) [of u depth s]
    by (cases q) simp
qed simp_all

declare jvalue.simps [simp del] jmembers.simps [simp del] jelements.simps [simp del]

lemmas json_parser_simps = jvalue.simps jmembers.simps jelements.simps

text \<open>The public entry points: trailing bytes other than white space are refused.\<close>

definition decode_json :: "bool \<Rightarrow> string \<Rightarrow> json_error + jval" where
  "decode_json u data =
     bindE (jvalue u 0 data) (\<lambda>(v, r). if skip_space r = [] then Inr v else Inl SyntaxError)"

definition Decode :: "string \<Rightarrow> json_error + jval" where
  "Decode = decode_json False"

definition DecodeUnique :: "string \<Rightarrow> json_error + jval" where
  "DecodeUnique = decode_json True"

end
