(* ===== verification/Json_Numbers.thy ===== *)
theory Json_Numbers
  imports Json_Value
begin

text \<open>
  \<open>internal/jsonvalue/numbers.go\<close>: the configuration grammars for positive integers and floats
  and Python's spelling of finite floats.  Also \<open>big.Int.SetString(s, 10)\<close> as \<open>parse_int\<close>.
\<close>

datatype number_error = InvalidPositiveInteger | InvalidPositiveNumber

definition parse_int :: "string \<Rightarrow> int option" where
  "parse_int s =
     (let (neg, ds) = sign_split s
      in if ds \<noteq> [] \<and> list_all is_digit ds
         then Some (if neg then - int (digits_val ds) else int (digits_val ds)) else None)"

definition PositiveInteger :: "string \<Rightarrow> number_error + int" where
  "PositiveInteger raw =
     (if raw = [] \<or> trim_cutset ''0123456789'' raw \<noteq> [] \<or> length (trim_left ''0'' raw) > 309
      then Inl InvalidPositiveInteger
      else case parse_int raw of
          None \<Rightarrow> Inl InvalidPositiveInteger
        | Some v \<Rightarrow>
            if v \<le> 0 then Inl InvalidPositiveInteger
            else (case f64_of_int v of
                F_Inf _ \<Rightarrow> Inl InvalidPositiveInteger
              | _ \<Rightarrow> Inr v))"

text \<open>The spans of \<open>unicode.Digit\<close> above ASCII (Unicode 17), all of stride one.\<close>

definition unicode_digit_spans :: "(nat \<times> nat) list" where
  "unicode_digit_spans = [(1632, 1641), (1776, 1785), (1984, 1993), (2406, 2415), (2534, 2543),
     (2662, 2671), (2790, 2799), (2918, 2927), (3046, 3055), (3174, 3183), (3302, 3311),
     (3430, 3439), (3558, 3567), (3664, 3673), (3792, 3801), (3872, 3881), (4160, 4169),
     (4240, 4249), (6112, 6121), (6160, 6169), (6470, 6479), (6608, 6617), (6784, 6793),
     (6800, 6809), (6992, 7001), (7088, 7097), (7232, 7241), (7248, 7257), (42528, 42537),
     (43216, 43225), (43264, 43273), (43472, 43481), (43504, 43513), (43600, 43609),
     (44016, 44025), (65296, 65305), (66720, 66729), (68912, 68921), (68928, 68937),
     (69734, 69743), (69872, 69881), (69942, 69951), (70096, 70105), (70384, 70393),
     (70736, 70745), (70864, 70873), (71248, 71257), (71360, 71369), (71376, 71395),
     (71472, 71481), (71904, 71913), (72016, 72025), (72688, 72697), (72784, 72793),
     (73040, 73049), (73120, 73129), (73184, 73193), (73552, 73561), (92768, 92777),
     (92864, 92873), (93008, 93017), (118000, 118009), (120782, 120831), (123200, 123209),
     (123632, 123641), (124144, 124153), (124401, 124410), (125264, 125273), (130032, 130041)]"

definition rune_digit :: "nat \<Rightarrow> nat option" where
  "rune_digit r =
     (case find (\<lambda>(lo, hi). lo \<le> r \<and> r \<le> hi) unicode_digit_spans of
        None \<Rightarrow> None | Some (lo, hi) \<Rightarrow> Some ((r - lo) mod 10))"

fun ascii_digits :: "(nat \<times> string) list \<Rightarrow> string option" where
  "ascii_digits [] = Some []"
| "ascii_digits ((r, b) # rs) =
     (if r < 128 then map_option ((@) b) (ascii_digits rs)
      else case rune_digit r of
          None \<Rightarrow> None
        | Some d \<Rightarrow> map_option ((#) (digit_char d)) (ascii_digits rs))"

text \<open>The regular expression: \<open>[0-9](?:_?[0-9])*\<close> is \<open>digit_run\<close>, which returns the rest.\<close>

fun digit_tail :: "string \<Rightarrow> string" where
  "digit_tail [] = []"
| "digit_tail (c # s) =
     (if is_digit c then digit_tail s
      else case s of [] \<Rightarrow> c # s
        | d # t \<Rightarrow> if c = CHR ''_'' \<and> is_digit d then digit_tail t else c # s)"

definition digit_run :: "string \<Rightarrow> string option" where
  "digit_run s = (case s of [] \<Rightarrow> None | c # t \<Rightarrow> if is_digit c then Some (digit_tail t) else None)"

definition python_mantissa :: "string \<Rightarrow> string option" where
  "python_mantissa s =
     (case digit_run s of
        Some r \<Rightarrow>
          (if has_prefix ''.'' r
           then (case digit_run (tl r) of None \<Rightarrow> Some (tl r) | Some r' \<Rightarrow> Some r')
           else Some r)
      | None \<Rightarrow> if has_prefix ''.'' s then digit_run (tl s) else None)"

definition python_exponent_ok :: "string \<Rightarrow> bool" where
  "python_exponent_ok s = (case s of [] \<Rightarrow> True
     | c # t \<Rightarrow> (c = CHR ''e'' \<or> c = CHR ''E'') \<and> digit_run (snd (sign_split t)) = Some [])"

definition python_number_ok :: "string \<Rightarrow> bool" where
  "python_number_ok s =
     (case python_mantissa (snd (sign_split s)) of None \<Rightarrow> False | Some r \<Rightarrow> python_exponent_ok r)"

definition PositiveFloat :: "string \<Rightarrow> number_error + f64" where
  "PositiveFloat raw =
     (case ascii_digits (runes (trim_runes is_space_rune raw)) of
        None \<Rightarrow> Inl InvalidPositiveNumber
      | Some number \<Rightarrow>
          if \<not> python_number_ok number then Inl InvalidPositiveNumber
          else (case parse_float (filter (\<lambda>c. c \<noteq> CHR ''_'') number) of
              None \<Rightarrow> Inl InvalidPositiveNumber
            | Some (f, overflow) \<Rightarrow>
                if overflow \<or> \<not> f64_finite f \<or> f64_le f f64_zero then Inl InvalidPositiveNumber
                else Inr f))"

definition FloatText :: "f64 \<Rightarrow> string" where
  "FloatText x =
     (let scientific = format_e x;
          exponent = (case cut_at ''e'' scientific of None \<Rightarrow> [] | Some (_, e) \<Rightarrow> e);
          power = (case parse_int exponent of None \<Rightarrow> 0 | Some n \<Rightarrow> n)
      in if -4 \<le> power \<and> power < 16
         then (let text = format_f x in if contains_any text ''.'' then text else text @ ''.0'')
         else scientific)"

lemma PositiveInteger_pos: "PositiveInteger raw = Inr v \<Longrightarrow> 0 < v"
  by (auto simp: PositiveInteger_def split: if_splits option.splits f64.splits)

lemma f64_of_int_cases: "(\<exists>b. f64_of_int v = F_Inf b) \<or> f64_finite (f64_of_int v)"
  by (cases "f64_of_int v") (auto simp: f64_of_int_def)

lemma PositiveInteger_finite: "PositiveInteger raw = Inr v \<Longrightarrow> f64_finite (f64_of_int v)"
  using f64_of_int_cases [of v]
  by (auto simp: PositiveInteger_def split: if_splits option.splits f64.splits)

lemma PositiveFloat_pos: "PositiveFloat raw = Inr f \<Longrightarrow> f64_finite f \<and> f64_less f64_zero f"
  by (auto simp: PositiveFloat_def f64_finite_cases f64_zero_def split: if_splits option.splits)

section \<open>Integer text\<close>

lemma parse_int_int_str: "parse_int (int_str i) = Some i"
proof -
  let ?n = "nat \<bar>i\<bar>"
  obtain c cs where cs: "nat_str ?n = c # cs" using nat_str_nonempty by (cases "nat_str ?n") auto
  have "is_digit c" using nat_str_digits [of ?n] cs by simp
  then have "c \<noteq> CHR ''-''" "c \<noteq> CHR ''+''" by (auto simp: is_digit_def)
  with cs have "sign_split (nat_str ?n) = (False, nat_str ?n)" by (simp add: sign_split_def)
  then have "sign_split (int_str i) = (i < 0, nat_str ?n)"
    by (cases "i < 0") (simp_all add: int_str_def sign_split_def)
  then show ?thesis using nat_str_digits [of ?n] by (auto simp: parse_int_def)
qed

lemma integer_chars: "\<forall>c \<in> set (int_str i). is_digit c \<or> c = CHR ''-''"
  using nat_str_digits [of "nat \<bar>i\<bar>"] by (auto simp: int_str_def list_all_iff)

lemma int_str_plain [simp]: "\<not> contains_any (int_str i) ''.eE''"
proof -
  have no: "\<not> is_digit c \<and> c \<noteq> CHR ''-'' \<Longrightarrow> c \<notin> set (int_str i)" for c
    using integer_chars [of i] by blast
  have "CHR ''.'' \<notin> set (int_str i)" "CHR ''e'' \<notin> set (int_str i)" "CHR ''E'' \<notin> set (int_str i)"
    by (rule no, simp add: is_digit_def)+
  then show ?thesis by (auto simp: contains_any_def list_ex_iff)
qed

end
