(* ===== verification/Json_Encode.thy ===== *)
theory Json_Encode
  imports Json_Numbers
begin

text \<open>
  The canonical encoder of \<open>internal/jsonvalue/encode.go\<close>: sorted keys, Python separators, ASCII
  output.  Strings are decomposed into runes by \<open>canon_runes\<close>, which accepts the three-byte form
  of a surrogate as the Go loop does; each rune is then escaped.  The result is the complete text
  the Go code streams into its writer; on an error the text written so far is never used.
\<close>

datatype encode_error = EncDepth | EncSyntax | EncNonfinite | EncString

section \<open>Strings\<close>

definition wtf8_surrogate_at :: "string \<Rightarrow> nat option" where
  "wtf8_surrogate_at s = (case map ord (take 3 s) of
       [b0, b1, b2] \<Rightarrow>
         if b0 = 237 \<and> 160 \<le> b1 \<and> b1 \<le> 191 \<and> 128 \<le> b2 \<and> b2 \<le> 191
         then Some ((b0 mod 16) * 4096 + (b1 mod 64) * 64 + b2 mod 64) else None
     | _ \<Rightarrow> None)"

function canon_runes :: "string \<Rightarrow> nat list option" where
  "canon_runes s =
     (if s = [] then Some []
      else let (r, n) = decode_rune s
           in if r = rune_error \<and> n = 1
              then (case wtf8_surrogate_at s of
                  None \<Rightarrow> None
                | Some r' \<Rightarrow> map_option ((#) r') (canon_runes (drop 3 s)))
              else map_option ((#) r) (canon_runes (drop n s)))"
  by pat_completeness auto
termination
proof (relation "measure length", goal_cases)
  case (3 s x r n)
  then have "n = snd (decode_rune s)" by (metis snd_conv)
  with 3(1) show ?case
    using decode_rune_width_pos [of s] by simp
qed (auto simp: wtf8_surrogate_at_def)

declare canon_runes.simps [simp del]

definition escape_unit :: "nat \<Rightarrow> string" where
  "escape_unit n = backslash # CHR ''u'' # hex4 n"

definition escape_rune :: "nat \<Rightarrow> string" where
  "escape_rune r =
     (if r = 34 then [backslash, quote_char]
      else if r = 92 then [backslash, backslash]
      else if r = 8 then [backslash, CHR ''b'']
      else if r = 12 then [backslash, CHR ''f'']
      else if r = 10 then [backslash, CHR ''n'']
      else if r = 13 then [backslash, CHR ''r'']
      else if r = 9 then [backslash, CHR ''t'']
      else if r < 32 \<or> r \<ge> 127 then
        (if r > 65535
         then escape_unit (55296 + (r - 65536) div 1024) @ escape_unit (56320 + (r - 65536) mod 1024)
         else escape_unit r)
      else [chr r])"

definition encode_string :: "string \<Rightarrow> encode_error + string" where
  "encode_string s = (case canon_runes s of
       None \<Rightarrow> Inl EncString
     | Some rs \<Rightarrow> Inr (quote_char # concat (map escape_rune rs) @ [quote_char]))"

section \<open>Values\<close>

definition encode_number :: "string \<Rightarrow> encode_error + string" where
  "encode_number n =
     (if \<not> contains_any n ''.eE''
      then (case parse_int n of None \<Rightarrow> Inl EncSyntax | Some i \<Rightarrow> Inr (int_str i))
      else (case parse_float n of
          None \<Rightarrow> Inl EncSyntax
        | Some (f, overflow) \<Rightarrow>
            if overflow \<or> \<not> f64_finite f then Inl EncSyntax else Inr (FloatText f)))"

lemma size_list_sort_key [simp]: "size_list f (sort_key k xs) = size_list f xs"
proof -
  have "sum_list (map f (sort_key k xs)) = sum_mset (image_mset f (mset (sort_key k xs)))"
    by (simp only: sum_mset_sum_list mset_map [symmetric])
  also have "\<dots> = sum_list (map f xs)"
    by (simp only: mset_sort sum_mset_sum_list mset_map [symmetric])
  finally show ?thesis by (simp add: size_list_conv_sum_list)
qed

function encode_value :: "nat \<Rightarrow> jval \<Rightarrow> encode_error + string"
  and encode_elems :: "nat \<Rightarrow> jval list \<Rightarrow> encode_error + string list"
  and encode_members :: "nat \<Rightarrow> (string \<times> jval) list \<Rightarrow> encode_error + string list"
where
  "encode_value depth v =
     (if depth > 512 then Inl EncDepth
      else case v of
          JNull \<Rightarrow> Inr ''null''
        | JBool b \<Rightarrow> Inr (if b then ''true'' else ''false'')
        | JStr s \<Rightarrow> encode_string s
        | JInt i \<Rightarrow> Inr (int_str i)
        | JFloat f \<Rightarrow> if \<not> f64_finite f then Inl EncNonfinite else Inr (FloatText f)
        | JNum n \<Rightarrow> encode_number n
        | JArr vs \<Rightarrow> bindE (encode_elems (Suc depth) vs)
            (\<lambda>ts. Inr (''['' @ join '', '' ts @ '']''))
        | JObj m \<Rightarrow> bindE (encode_members (Suc depth) (sort_key fst m))
            (\<lambda>ts. Inr (''{'' @ join '', '' ts @ ''}'')))"
| "encode_elems depth [] = Inr []"
| "encode_elems depth (v # vs) =
     bindE (encode_value depth v) (\<lambda>t. bindE (encode_elems depth vs) (\<lambda>ts. Inr (t # ts)))"
| "encode_members depth [] = Inr []"
| "encode_members depth (kv # m) =
     bindE (encode_string (fst kv)) (\<lambda>k. bindE (encode_value depth (snd kv))
       (\<lambda>t. bindE (encode_members depth m) (\<lambda>ts. Inr ((k @ '': '' @ t) # ts))))"
  by pat_completeness auto
termination
  by (relation "measure (\<lambda>x. case x of Inl (d, v) \<Rightarrow> 2 * size v
      | Inr (Inl (d, vs)) \<Rightarrow> 2 * size_list size vs
      | Inr (Inr (d, m)) \<Rightarrow> 2 * size_list (size_prod (\<lambda>_. 0) size) m)") auto

declare encode_value.simps [simp del]

definition EncodePython :: "jval \<Rightarrow> encode_error + string" where
  "EncodePython v = encode_value 0 v"

text \<open>\<open>RawString\<close>: Python's surrogateescape of bytes that are not UTF-8.\<close>

definition raw_rune :: "nat \<times> string \<Rightarrow> string" where
  "raw_rune p = (if invalid_rune p
     then [chr 237, chr (176 + ord (hd (snd p)) div 64), chr (128 + ord (hd (snd p)) mod 64)]
     else snd p)"

definition RawString :: "string \<Rightarrow> string" where
  "RawString raw = concat (map raw_rune (runes raw))"

end
