(* ===== verification/Json_Roundtrip.thy ===== *)
theory Json_Roundtrip
  imports Json_Encode
begin

text \<open>
  Correctness of the JSON codec.  The first part is about the decoder alone: what a decoded value
  looks like (distinct keys at every level, nesting at most 512).  The second part is the round trip:
  text produced by the canonical encoder decodes to the same value with its keys in sorted order.
\<close>

section \<open>Inversion of the parser\<close>

lemma jmembers_InrE:
  assumes "jmembers u d m s = Inr z"
  obtains t p t2 q m' e t3 where
    "skip_space s = quote_char # t" "scan_string [] t = Inr p"
    "skip_space (snd p) = CHR '':'' # t2" "jvalue u d t2 = Inr q"
    "jinsert u m (fst p) (fst q) = Inr m'" "skip_space (snd q) = e # t3"
    "e = CHR ''}'' \<and> z = (JObj m', t3) \<or> e \<noteq> CHR ''}'' \<and> e = CHR '','' \<and> jmembers u d m' t3 = Inr z"
proof -
  from assms obtain c t where c0: "skip_space s = c # t"
    by (cases "skip_space s") (simp_all add: jmembers.simps [of u d m s])
  with assms have c: "skip_space s = quote_char # t"
    by (simp add: jmembers.simps [of u d m s] split: if_splits)
  note unf = jmembers.simps [of u d m s] c
  from assms obtain p where p: "scan_string [] t = Inr p"
    by (cases "scan_string [] t") (simp_all add: unf)
  from assms obtain d' t2 where "skip_space (snd p) = d' # t2"
    by (cases "skip_space (snd p)") (simp_all add: unf p)
  with assms have d: "skip_space (snd p) = CHR '':'' # t2"
    by (simp add: unf p split: if_splits)
  from assms obtain q where q: "jvalue u d t2 = Inr q"
    by (cases "jvalue u d t2") (simp_all add: unf p d)
  from assms obtain m' where i: "jinsert u m (fst p) (fst q) = Inr m'"
    by (cases "jinsert u m (fst p) (fst q)") (simp_all add: unf p d q)
  from assms obtain e t3 where e: "skip_space (snd q) = e # t3"
    by (cases "skip_space (snd q)") (simp_all add: unf p d q i)
  from assms have "e = CHR ''}'' \<and> z = (JObj m', t3) \<or>
      e \<noteq> CHR ''}'' \<and> e = CHR '','' \<and> jmembers u d m' t3 = Inr z"
    by (auto simp: unf p d q i e split: if_splits)
  with c p d q i e that show thesis by blast
qed

lemma jelements_InrE:
  assumes "jelements u d vs s = Inr z"
  obtains q e t3 where "jvalue u d s = Inr q" "skip_space (snd q) = e # t3"
    "e = CHR '']'' \<and> z = (JArr (vs @ [fst q]), t3) \<or>
     e \<noteq> CHR '']'' \<and> e = CHR '','' \<and> jelements u d (vs @ [fst q]) t3 = Inr z"
proof -
  note unf = jelements.simps [of u d vs s]
  from assms obtain q where q: "jvalue u d s = Inr q"
    by (cases "jvalue u d s") (simp_all add: unf)
  from assms obtain e t3 where e: "skip_space (snd q) = e # t3"
    by (cases "skip_space (snd q)") (simp_all add: unf q)
  from assms have "e = CHR '']'' \<and> z = (JArr (vs @ [fst q]), t3) \<or>
     e \<noteq> CHR '']'' \<and> e = CHR '','' \<and> jelements u d (vs @ [fst q]) t3 = Inr z"
    by (auto simp: unf q e split: if_splits)
  with q e that show thesis by blast
qed

text \<open>The spellings a decoded number can have.\<close>

definition number_spelling :: "string \<Rightarrow> bool" where
  "number_spelling n \<longleftrightarrow> json_number_ok n \<or> n \<in> {''NaN'', ''Infinity'', ''-Infinity''}"

lemma jliteral_InrD: "jliteral lit v s = Inr (x, r) \<Longrightarrow> x = v"
  by (simp add: jliteral_def split: if_splits)

lemma jnumber_InrE:
  assumes "jnumber s = Inr (x, r)"
  obtains n where "x = JNum n" "json_number_ok n"
  using assms by (auto simp: jnumber_def Let_def split: if_splits)

lemma jnumber_spelling: "jnumber s = Inr (x, r) \<Longrightarrow> \<exists>n. x = JNum n \<and> number_spelling n"
  by (erule jnumber_InrE) (simp add: number_spelling_def)

lemma literal_spelling: "number_spelling ''NaN''" "number_spelling ''Infinity''" "number_spelling ''-Infinity''"
  by (simp_all add: number_spelling_def)

text \<open>The alternatives of a successful \<open>jvalue\<close>.  Only containers recurse.\<close>

lemma jvalue_InrE:
  assumes "jvalue u d s = Inr (x, r)"
  obtains (members) t where "skip_space s = CHR ''{'' # t" "d < 512"
      "\<not> has_prefix ''}'' (skip_space t)" "jmembers u (Suc d) [] (skip_space t) = Inr (x, r)"
    | (elements) t where "skip_space s = CHR ''['' # t" "d < 512"
      "\<not> has_prefix '']'' (skip_space t)" "jelements u (Suc d) [] (skip_space t) = Inr (x, r)"
    | (empty) "d < 512" "x = JObj [] \<or> x = JArr []"
    | (string) y where "x = JStr y"
    | (scalar) "x = JNull \<or> (\<exists>b. x = JBool b) \<or> (\<exists>n. x = JNum n \<and> number_spelling n)"
proof -
  note unf = jvalue.simps [of u d s]
  from assms obtain c t where c: "skip_space s = c # t"
    by (cases "skip_space s") (simp_all add: unf)
  consider "c = CHR ''{''" | "c = CHR ''[''" | "c = quote_char" | "c \<noteq> CHR ''{''" "c \<noteq> CHR ''[''" "c \<noteq> quote_char"
    by blast
  then show thesis
  proof cases
    case 1
    with assms members [of t] empty show ?thesis by (auto simp: unf c split: if_splits)
  next
    case 2
    with assms elements [of t] empty show ?thesis by (auto simp: unf c split: if_splits)
  next
    case 3
    with assms string show ?thesis by (auto simp: unf c result_simps)
  next
    case 4
    with assms scalar show ?thesis
      by (auto simp: unf c literal_spelling split: if_splits dest!: jliteral_InrD jnumber_spelling)
  qed
qed

section \<open>Shape of decoded values\<close>

fun jdepth :: "jval \<Rightarrow> nat" where
  "jdepth (JArr vs) = Suc (fold (max \<circ> jdepth) vs 0)"
| "jdepth (JObj m) = Suc (fold (\<lambda>kv. max (jdepth (snd kv))) m 0)"
| "jdepth _ = 0"

fun jwf :: "jval \<Rightarrow> bool" where
  "jwf (JArr vs) = list_all jwf vs"
| "jwf (JObj m) = (distinct (keys m) \<and> list_all (\<lambda>kv. jwf (snd kv)) m)"
| "jwf (JNum n) = number_spelling n"
| "jwf (JInt i) = False"
| "jwf (JFloat x) = False"
| "jwf _ = True"

lemma fold_max_le: "fold (\<lambda>x. max (f x)) xs (a::nat) \<le> n \<longleftrightarrow> a \<le> n \<and> (\<forall>x \<in> set xs. f x \<le> n)"
  by (induction xs arbitrary: a) auto

lemma jdepth_le_iff:
  "jdepth (JArr vs) \<le> Suc n \<longleftrightarrow> (\<forall>v \<in> set vs. jdepth v \<le> n)"
  "jdepth (JObj m) \<le> Suc n \<longleftrightarrow> (\<forall>kv \<in> set m. jdepth (snd kv) \<le> n)"
  using fold_max_le [of jdepth vs 0 n] fold_max_le [of "jdepth \<circ> snd" m 0 n]
  by (simp_all add: comp_def)

definition shaped :: "nat \<Rightarrow> jval \<Rightarrow> bool" where
  "shaped d v \<longleftrightarrow> jwf v \<and> jdepth v + d \<le> 512"

lemma shaped_JArr: "d < 512 \<Longrightarrow> shaped d (JArr vs) \<longleftrightarrow> (\<forall>v \<in> set vs. shaped (Suc d) v)"
  using jdepth_le_iff(1) [of vs "511 - d"]
  by (auto simp: shaped_def list_all_iff)

lemma shaped_JObj:
  "d < 512 \<Longrightarrow> shaped d (JObj m) \<longleftrightarrow> distinct (keys m) \<and> (\<forall>kv \<in> set m. shaped (Suc d) (snd kv))"
  using jdepth_le_iff(2) [of m "511 - d"]
  by (auto simp: shaped_def list_all_iff)

lemma set_update_subset: "set (AList.update k v m) \<subseteq> insert (k, v) (set m)"
  by (induction m) auto

lemma jinsert_Inr: "jinsert u m k v = Inr m' \<Longrightarrow> m' = AList.update k v m"
  by (simp add: jinsert_def split: if_splits)

lemma jparse_shaped:
  "\<And>x r. jvalue u d s = Inr (x, r) \<Longrightarrow> d \<le> 512 \<Longrightarrow> shaped d x"
  "\<And>x r. jmembers u d m s = Inr (x, r) \<Longrightarrow> 0 < d \<Longrightarrow> d \<le> 512 \<Longrightarrow> distinct (keys m) \<Longrightarrow>
     (\<forall>kv \<in> set m. shaped d (snd kv)) \<Longrightarrow> shaped (d - 1) x"
  "\<And>x r. jelements u d vs s = Inr (x, r) \<Longrightarrow> 0 < d \<Longrightarrow> d \<le> 512 \<Longrightarrow>
     (\<forall>v \<in> set vs. shaped d v) \<Longrightarrow> shaped (d - 1) x"
proof (induction u d s and u d m s and u d vs s rule: jvalue_jmembers_jelements.induct)
  case (1 u d s)
  from "1.prems"(1) show ?case
  proof (cases rule: jvalue_InrE)
    case (members t)
    then show ?thesis using "1.IH"(1) [of "CHR ''{''" t x r] by auto
  next
    case (elements t)
    then show ?thesis using "1.IH"(2) [of "CHR ''[''" t x r] by auto
  qed (use "1.prems"(2) in \<open>auto simp: shaped_def\<close>)
next
  case (2 u d m s)
  from "2.prems"(1) show ?case
  proof (cases rule: jmembers_InrE)
    case (1 t p t2 q m' e t3)
    have m': "m' = AList.update (fst p) (fst q) m" using 1(5) by (rule jinsert_Inr)
    have "shaped d (fst q)"
      using "2.IH"(1) [OF 1(1) _ 1(2,3), of "fst q" "snd q"] 1(4) "2.prems"(3) by simp
    then have all: "\<forall>kv \<in> set m'. shaped d (snd kv)" and dist: "distinct (keys m')"
      using "2.prems"(4,5) set_update_subset [of "fst p" "fst q" m] by (auto simp: m')
    show ?thesis
      using 1(7) "2.IH"(2) [OF 1(1) _ 1(2,3) _ 1(4,5,6), of x r] "2.prems"(2,3) all dist
      by (auto simp: shaped_JObj)
  qed
next
  case (3 u d vs s)
  from "3.prems"(1) show ?case
  proof (cases rule: jelements_InrE)
    case (1 q e t3)
    have "shaped d (fst q)"
      using "3.IH"(1) [of "fst q" "snd q"] 1(1) "3.prems"(3) by simp
    then have all: "\<forall>v \<in> set (vs @ [fst q]). shaped d v" using "3.prems"(4) by auto
    show ?thesis
      using 1(3) "3.IH"(2) [OF 1(1,2), of x r] "3.prems"(2,3) all
      by (auto simp: shaped_JArr)
  qed
qed

section \<open>Containers\<close>

lemma jvalue_container_simps:
  "skip_space s = CHR ''{'' # t \<Longrightarrow> d < 512 \<Longrightarrow> \<not> has_prefix ''}'' (skip_space t) \<Longrightarrow>
     jvalue u d s = jmembers u (Suc d) [] (skip_space t)"
  "skip_space s = CHR ''['' # t \<Longrightarrow> d < 512 \<Longrightarrow> \<not> has_prefix '']'' (skip_space t) \<Longrightarrow>
     jvalue u d s = jelements u (Suc d) [] (skip_space t)"
  by (simp_all add: jvalue.simps)

section \<open>Strings: escape and scan\<close>

lemma hex_val_hex_char [simp]: "n < 16 \<Longrightarrow> hex_val (hex_char n) = Some n"
  by (auto simp: hex_val_def hex_char_def byte_simps Let_def)

lemma code_unit_hex4:
  assumes "n < 65536"
  shows "code_unit (hex4 n @ s) = Inr (n, s)"
proof -
  define a b c where "a = n div 16" and "b = a div 16" and "c = b div 16"
  have d: "n div 256 = b" "n div 4096 = c" "c < 16"
    using assms by (simp_all add: a_def b_def c_def flip: div_mult2_eq)
  have "((c * 16 + b mod 16) * 16 + a mod 16) * 16 + n mod 16 = n"
    by (simp add: a_def b_def c_def div_mult_mod_eq)
  moreover have "hex_digits 0 (hex4 n) = Some (((c * 16 + b mod 16) * 16 + a mod 16) * 16 + n mod 16)"
    using d(3) by (simp add: hex4_def d(1,2)) (simp add: a_def)
  ultimately show ?thesis
    by (simp add: code_unit_def hex4_def)
qed

text \<open>A rune sequence without a high surrogate directly before a low one.\<close>

fun unpaired :: "nat list \<Rightarrow> bool" where
  "unpaired (r # r' # rs) = (\<not> (is_high_surrogate r \<and> is_low_surrogate r') \<and> unpaired (r' # rs))"
| "unpaired _ = True"

definition rune_ok :: "nat \<Rightarrow> bool" where
  "rune_ok r \<longleftrightarrow> r < 1114112"

definition escapes_low :: "string \<Rightarrow> bool" where
  "escapes_low s \<longleftrightarrow> (\<exists>n t. s = escape_unit n @ t \<and> is_low_surrogate n)"

lemma escape_unit_prefix [simp]: "has_prefix [backslash, CHR ''u''] (escape_unit n @ s)"
  by (simp add: escape_unit_def)

lemma length_escape_unit [simp]: "length (escape_unit n) = 6"
  by (simp add: escape_unit_def hex4_def)

text \<open>The next escape, if it starts with \<open>\u\<close>, is a complete code unit.\<close>

definition unit_ahead :: "string \<Rightarrow> nat option \<Rightarrow> bool" where
  "unit_ahead s a \<longleftrightarrow> (case a of None \<Rightarrow> \<not> has_prefix [backslash, CHR ''u''] s
     | Some n \<Rightarrow> n < 65536 \<and> (\<exists>t. s = escape_unit n @ t))"

lemma unicode_escape_plain:
  assumes "n < 65536" and "unit_ahead s a"
    and "is_high_surrogate n \<Longrightarrow> \<forall>l. a = Some l \<longrightarrow> \<not> is_low_surrogate l"
  shows "unicode_escape (hex4 n @ s) = Inr (wtf8 n, s)"
proof (cases a)
  case None
  with assms show ?thesis
    by (auto simp: unicode_escape_def code_unit_hex4 unit_ahead_def)
next
  case (Some l)
  with assms(2) obtain t where "s = escape_unit l @ t" and l: "l < 65536"
    by (auto simp: unit_ahead_def)
  moreover from this have "code_unit (drop 2 s) = Inr (l, t)"
    by (simp add: escape_unit_def code_unit_hex4)
  ultimately show ?thesis
    using assms(1,3) Some by (auto simp: unicode_escape_def code_unit_hex4)
qed

lemma unicode_escape_pair:
  assumes "is_high_surrogate h" and "is_low_surrogate l"
  shows "unicode_escape (hex4 h @ escape_unit l @ s) =
    Inr (wtf8 (65536 + (h - 55296) * 1024 + l - 56320), s)"
proof -
  have "h < 65536" and "l < 65536"
    using assms by (auto simp: is_high_surrogate_def is_low_surrogate_def)
  moreover from this have "code_unit (drop 2 (escape_unit l @ s)) = Inr (l, s)"
    by (simp add: escape_unit_def code_unit_hex4)
  ultimately show ?thesis
    using assms by (simp add: unicode_escape_def code_unit_hex4)
qed

lemma scan_escape_unit:
  assumes "unicode_escape (hex4 n @ s) = Inr (b, t)"
  shows "scan_string acc (escape_unit n @ s) = scan_string (acc @ b) t"
  using assms by (simp add: escape_unit_def simple_escape_def)

lemma chr_escapes:
  "chr 34 = quote_char" "chr 92 = backslash" "chr 8 = CHR 0x08" "chr 12 = CHR 0x0C"
  "chr 10 = CHR 0x0A" "chr 13 = CHR 0x0D" "chr 9 = CHR 0x09"
  by (simp_all add: chr_eq_iff)

lemma wtf8_ascii: "r < 128 \<Longrightarrow> wtf8 r = [chr r]"
  by (simp add: wtf8_def is_surrogate_def encode_rune_def)

lemma scan_escape_rune:
  assumes "rune_ok r" and "unit_ahead s a"
    and "is_high_surrogate r \<Longrightarrow> \<forall>l. a = Some l \<longrightarrow> \<not> is_low_surrogate l"
  shows "scan_string acc (escape_rune r @ s) = scan_string (acc @ wtf8 r) s"
proof -
  consider "r \<in> {34, 92, 8, 12, 10, 13, 9}"
    | "r \<notin> {34, 92, 8, 12, 10, 13, 9}" "32 \<le> r" "r < 127"
    | "r \<notin> {34, 92, 8, 12, 10, 13, 9}" "r < 32 \<or> 127 \<le> r" "r \<le> 65535"
    | "r > 65535"
    by fastforce
  then show ?thesis
  proof cases
    case 1
    then show ?thesis
      by (auto simp: escape_rune_def wtf8_ascii simple_escape_def chr_escapes)
  next
    case 2
    then have "chr r \<noteq> quote_char" and "chr r \<noteq> backslash" and "ord (chr r) = r"
      by (auto simp: byte_simps chr_eq_iff)
    with 2 show ?thesis
      by (simp add: escape_rune_def wtf8_ascii)
  next
    case 3
    then have "unicode_escape (hex4 r @ s) = Inr (wtf8 r, s)"
      using assms(2,3) by (intro unicode_escape_plain) auto
    moreover have "escape_rune r = escape_unit r" using 3 by (simp add: escape_rune_def)
    ultimately show ?thesis by (simp add: scan_escape_unit)
  next
    case 4
    let ?h = "55296 + (r - 65536) div 1024" and ?l = "56320 + (r - 65536) mod 1024"
    have "is_high_surrogate ?h" and "is_low_surrogate ?l"
      using assms(1) 4 by (auto simp: is_high_surrogate_def is_low_surrogate_def rune_ok_def)
    moreover have "65536 + (?h - 55296) * 1024 + ?l - 56320 = r"
      using 4 by (simp add: div_mult_mod_eq)
    ultimately have "unicode_escape (hex4 ?h @ escape_unit ?l @ s) = Inr (wtf8 r, s)"
      using unicode_escape_pair [of ?h ?l s] by simp
    moreover have "escape_rune r = escape_unit ?h @ escape_unit ?l"
      using 4 by (simp add: escape_rune_def)
    ultimately show ?thesis by (simp add: scan_escape_unit)
  qed
qed

definition ahead :: "nat list \<Rightarrow> nat option" where
  "ahead rs = (case rs of [] \<Rightarrow> None
     | r # _ \<Rightarrow> if r \<in> {34, 92, 8, 12, 10, 13, 9} \<or> 32 \<le> r \<and> r < 127 then None
                else if r > 65535 then Some (55296 + (r - 65536) div 1024) else Some r)"

lemma unit_ahead_escapes:
  assumes "list_all rune_ok rs"
  shows "unit_ahead (concat (map escape_rune rs) @ quote_char # t) (ahead rs)"
proof (cases rs)
  case Nil
  then show ?thesis by (simp add: ahead_def unit_ahead_def has_prefix_def)
next
  case (Cons r rs')
  with assms have r: "r < 1114112" by (simp add: rune_ok_def)
  consider "r \<in> {34, 92, 8, 12, 10, 13, 9}"
    | "r \<notin> {34, 92, 8, 12, 10, 13, 9}" "32 \<le> r" "r < 127"
    | "r \<notin> {34, 92, 8, 12, 10, 13, 9}" "r < 32 \<or> 127 \<le> r"
    by fastforce
  then show ?thesis
  proof cases
    case 1
    then show ?thesis by (auto simp: Cons ahead_def unit_ahead_def escape_rune_def)
  next
    case 2
    then have "chr r \<noteq> backslash" by (auto simp: chr_eq_iff)
    with 2 show ?thesis by (auto simp: Cons ahead_def unit_ahead_def escape_rune_def)
  next
    case 3
    then show ?thesis
      using r by (auto simp: Cons ahead_def unit_ahead_def escape_rune_def intro: exI)
  qed
qed

lemma ahead_low: "ahead rs = Some l \<Longrightarrow> is_low_surrogate l \<Longrightarrow> list_all rune_ok rs \<Longrightarrow> hd rs = l \<and> rs \<noteq> []"
  by (auto simp: ahead_def is_low_surrogate_def rune_ok_def split: list.splits if_splits)

lemma scan_escaped:
  assumes "list_all rune_ok rs" and "unpaired rs"
  shows "scan_string acc (concat (map escape_rune rs) @ quote_char # t) =
    Inr (acc @ concat (map wtf8 rs), t)"
  using assms
proof (induction rs arbitrary: acc)
  case (Cons r rs)
  have "scan_string acc (escape_rune r @ (concat (map escape_rune rs) @ quote_char # t)) =
      scan_string (acc @ wtf8 r) (concat (map escape_rune rs) @ quote_char # t)"
  proof (rule scan_escape_rune [OF _ unit_ahead_escapes])
    show "\<forall>l. ahead rs = Some l \<longrightarrow> \<not> is_low_surrogate l" if "is_high_surrogate r"
    proof (intro allI impI notI)
      fix l
      assume "ahead rs = Some l" and low: "is_low_surrogate l"
      then have "hd rs = l \<and> rs \<noteq> []" using Cons.prems(1) by (intro ahead_low) auto
      with that low Cons.prems(2) show False by (cases rs) auto
    qed
  qed (use Cons.prems(1) in auto)
  moreover have "unpaired rs" using Cons.prems(2) by (cases rs) auto
  ultimately show ?case using Cons.IH [of "acc @ wtf8 r"] Cons.prems(1) by simp
qed simp

section \<open>Strings: the rune decomposition is exact\<close>

lemma chr_ord_shift: "n < 256 \<Longrightarrow> ord c = n \<Longrightarrow> chr n = c"
  by (simp add: chr_eq_iff)

lemma shift_mod:
  "x < 32 \<Longrightarrow> (192 + x) mod 32 = (x::nat)" "x < 64 \<Longrightarrow> (128 + x) mod 64 = (x::nat)"
  "x < 16 \<Longrightarrow> (224 + x) mod 16 = (x::nat)" "x < 5 \<Longrightarrow> (240 + x) mod 8 = (x::nat)"
  by (rule mod_nat_eqI; simp)+

lemma radix64:
  fixes q r :: nat
  assumes "r < 64"
  shows "(q * 64 + r) div 64 = q" and "(q * 64 + r) mod 64 = r"
  using assms by simp_all

lemma radix64_3:
  fixes x y z :: nat
  assumes "y < 64" and "z < 64"
  shows "(x * 4096 + y * 64 + z) div 4096 = x" and "(x * 4096 + y * 64 + z) div 64 mod 64 = y"
    and "(x * 4096 + y * 64 + z) mod 64 = z"
proof -
  have e: "x * 4096 + y * 64 + z = (x * 64 + y) * 64 + z" by simp
  have "(x * 4096 + y * 64 + z) div 4096 = (x * 4096 + y * 64 + z) div 64 div 64"
    by (simp flip: div_mult2_eq)
  then show "(x * 4096 + y * 64 + z) div 4096 = x" "(x * 4096 + y * 64 + z) div 64 mod 64 = y"
    "(x * 4096 + y * 64 + z) mod 64 = z"
    unfolding e using assms by (simp_all only: radix64)
qed

lemma radix64_4:
  fixes x y z w :: nat
  assumes "y < 64" and "z < 64" and "w < 64"
  shows "(x * 262144 + y * 4096 + z * 64 + w) div 262144 = x"
    and "(x * 262144 + y * 4096 + z * 64 + w) div 4096 mod 64 = y"
    and "(x * 262144 + y * 4096 + z * 64 + w) div 64 mod 64 = z"
    and "(x * 262144 + y * 4096 + z * 64 + w) mod 64 = w"
proof -
  let ?r = "x * 262144 + y * 4096 + z * 64 + w"
  have e: "?r = ((x * 64 + y) * 64 + z) * 64 + w" by simp
  have d: "?r div 64 = (x * 64 + y) * 64 + z" unfolding e using assms by (simp only: radix64)
  have "?r div 4096 = ?r div 64 div 64" and "?r div 262144 = ?r div 64 div 64 div 64"
    by (simp_all flip: div_mult2_eq)
  then show "?r div 262144 = x" "?r div 4096 mod 64 = y"
    unfolding d using assms by (simp_all only: radix64)
  show "?r div 64 mod 64 = z" unfolding d using assms by (simp only: radix64)
  show "?r mod 64 = w" unfolding e using assms by (simp only: radix64)
qed

lemma wtf8_cases:
  "128 \<le> r \<Longrightarrow> r < 2048 \<Longrightarrow> wtf8 r = [chr (192 + r div 64), chr (128 + r mod 64)]"
  "2048 \<le> r \<Longrightarrow> r < 65536 \<Longrightarrow> \<not> is_surrogate r \<Longrightarrow>
     wtf8 r = [chr (224 + r div 4096), chr (128 + r div 64 mod 64), chr (128 + r mod 64)]"
  "is_surrogate r \<Longrightarrow> wtf8 r = [chr 237, chr (128 + r div 64 mod 64), chr (128 + r mod 64)]"
  "65536 \<le> r \<Longrightarrow> r < 1114112 \<Longrightarrow>
     wtf8 r = [chr (240 + r div 262144), chr (128 + r div 4096 mod 64),
       chr (128 + r div 64 mod 64), chr (128 + r mod 64)]"
  by (auto simp: wtf8_def encode_rune_def is_surrogate_def Let_def)

lemma two_bytes:
  assumes "194 \<le> ord a" and "ord a \<le> 223" and "cont (ord b)"
  shows "[a, b] = wtf8 (ord a mod 32 * 64 + ord b mod 64) \<and> rune_ok (ord a mod 32 * 64 + ord b mod 64)"
proof -
  obtain x where x: "ord a = 192 + x" "2 \<le> x" "x < 32"
    using assms(1,2) by (intro that [of "ord a - 192"]) auto
  obtain y where y: "ord b = 128 + y" "y < 64"
    using assms(3) by (intro that [of "ord b - 128"]) (auto simp: cont_def)
  have m: "ord a mod 32 = x" "ord b mod 64 = y" using x y by (simp_all only: shift_mod)
  have "wtf8 (x * 64 + y) = [chr (192 + x), chr (128 + y)]"
    using wtf8_cases(1) [of "x * 64 + y"] x y by (simp only: radix64)
  moreover have "chr (192 + x) = a" "chr (128 + y) = b"
    using x y by (simp_all add: chr_ord_shift)
  ultimately have "[a, b] = wtf8 (x * 64 + y)" by simp
  moreover have "rune_ok (x * 64 + y)" using x y by (simp add: rune_ok_def)
  ultimately show ?thesis by (simp only: m)
qed

lemma three_bytes:
  assumes "224 \<le> ord a" and "ord a \<le> 239" and "cont (ord b)" and "cont (ord c)"
    and "ord a = 224 \<Longrightarrow> 160 \<le> ord b"
  shows "[a, b, c] = wtf8 (ord a mod 16 * 4096 + ord b mod 64 * 64 + ord c mod 64) \<and>
     rune_ok (ord a mod 16 * 4096 + ord b mod 64 * 64 + ord c mod 64)"
proof -
  obtain x where x: "ord a = 224 + x" "x < 16"
    using assms(1,2) by (intro that [of "ord a - 224"]) auto
  obtain y where y: "ord b = 128 + y" "y < 64" "x = 0 \<longrightarrow> 32 \<le> y"
    using assms(3,5) x by (intro that [of "ord b - 128"]) (auto simp: cont_def)
  obtain z where z: "ord c = 128 + z" "z < 64"
    using assms(4) by (intro that [of "ord c - 128"]) (auto simp: cont_def)
  have m: "ord a mod 16 = x" "ord b mod 64 = y" "ord c mod 64 = z"
    using x y z by (simp_all only: shift_mod)
  let ?r = "x * 4096 + y * 64 + z"
  have b: "2048 \<le> ?r" "?r < 65536" using x y z by (cases "x = 0"; linarith)+
  have c: "chr (224 + x) = a" "chr (128 + y) = b" "chr (128 + z) = c"
    using x y z by (simp_all add: chr_ord_shift)
  have "[a, b, c] = wtf8 ?r"
  proof (cases "is_surrogate ?r")
    case True
    then have "x = 13" unfolding is_surrogate_def using y z by linarith
    then have "chr 237 = a" using c(1) by simp
    with wtf8_cases(3) [OF True] y z c show ?thesis by (simp only: radix64_3)
  next
    case False
    from wtf8_cases(2) [OF b False] y z c show ?thesis by (simp only: radix64_3)
  qed
  moreover have "rune_ok ?r" using b(2) by (simp add: rune_ok_def)
  ultimately show ?thesis by (simp only: m)
qed

lemma four_bytes:
  assumes "240 \<le> ord a" and "ord a \<le> 244" and "cont (ord b)" and "cont (ord c)" and "cont (ord d)"
    and "ord a = 240 \<Longrightarrow> 144 \<le> ord b" and "ord a = 244 \<Longrightarrow> ord b < 144"
  shows "[a, b, c, d] = wtf8 (ord a mod 8 * 262144 + ord b mod 64 * 4096 + ord c mod 64 * 64 + ord d mod 64) \<and>
     rune_ok (ord a mod 8 * 262144 + ord b mod 64 * 4096 + ord c mod 64 * 64 + ord d mod 64)"
proof -
  obtain x where x: "ord a = 240 + x" "x < 5"
    using assms(1,2) by (intro that [of "ord a - 240"]) auto
  obtain y where y: "ord b = 128 + y" "y < 64" "x = 0 \<longrightarrow> 16 \<le> y" "x = 4 \<longrightarrow> y < 16"
    using assms(3,6,7) x by (intro that [of "ord b - 128"]) (auto simp: cont_def)
  obtain z where z: "ord c = 128 + z" "z < 64"
    using assms(4) by (intro that [of "ord c - 128"]) (auto simp: cont_def)
  obtain w where w: "ord d = 128 + w" "w < 64"
    using assms(5) by (intro that [of "ord d - 128"]) (auto simp: cont_def)
  have m: "ord a mod 8 = x" "ord b mod 64 = y" "ord c mod 64 = z" "ord d mod 64 = w"
    using x y z w by (simp_all only: shift_mod)
  let ?r = "x * 262144 + y * 4096 + z * 64 + w"
  have b1: "65536 \<le> ?r" using x y z w by (cases "x = 0"; linarith)
  have b2: "?r < 1114112" using x y z w by (cases "x = 4"; linarith)
  have c: "chr (240 + x) = a" "chr (128 + y) = b" "chr (128 + z) = c" "chr (128 + w) = d"
    using x y z w by (simp_all add: chr_ord_shift)
  have "[a, b, c, d] = wtf8 ?r"
    using wtf8_cases(4) [OF b1 b2] y z w c by (simp only: radix64_4)
  moreover have "rune_ok ?r" using b2 by (simp add: rune_ok_def)
  ultimately show ?thesis by (simp only: m)
qed

lemma decode_rune_wtf8:
  assumes "decode_rune s = (r, n)" and "s \<noteq> []" and "\<not> (r = rune_error \<and> n = 1)"
  shows "take n s = wtf8 r \<and> rune_ok r"
proof -
  obtain a s1 where s: "s = a # s1" using assms(2) by (cases s) auto
  consider (one) "ord a < 128" | (two) "\<not> ord a < 128" "194 \<le> ord a" "ord a \<le> 223"
    | (three) "224 \<le> ord a" "ord a \<le> 239" | (four) "240 \<le> ord a" "ord a \<le> 244"
    | (bad) "\<not> ord a < 128" "\<not> (194 \<le> ord a \<and> ord a \<le> 223)" "\<not> (224 \<le> ord a \<and> ord a \<le> 239)"
        "\<not> (240 \<le> ord a \<and> ord a \<le> 244)"
    by linarith
  then show ?thesis
  proof cases
    case one
    then have "r = ord a" "n = 1" using assms(1) by (auto simp: s decode_rune_def)
    then show ?thesis using one
      by (simp add: s wtf8_def is_surrogate_def encode_rune_def rune_ok_def)
  next
    case two
    with assms(1,3) obtain b t where "s1 = b # t" "cont (ord b)" "n = 2"
        "r = ord a mod 32 * 64 + ord b mod 64"
      by (cases s1) (auto simp: s decode_rune_def split: if_splits)
    then show ?thesis using two_bytes [of a b] two by (simp add: s numeral_2_eq_2)
  next
    case three
    with assms(1,3) obtain b c t where "s1 = b # c # t" "cont (ord b)" "cont (ord c)"
        "ord a = 224 \<longrightarrow> 160 \<le> ord b" "n = 3" "r = ord a mod 16 * 4096 + ord b mod 64 * 64 + ord c mod 64"
      by (cases s1; cases "tl s1") (auto simp: s decode_rune_def split: if_splits)
    then show ?thesis using three_bytes [of a b c] three by (simp add: s numeral_3_eq_3)
  next
    case four
    with assms(1,3) obtain b c d t where "s1 = b # c # d # t" "cont (ord b)" "cont (ord c)" "cont (ord d)"
        "ord a = 240 \<longrightarrow> 144 \<le> ord b" "ord a = 244 \<longrightarrow> ord b < 144" "n = 4"
        "r = ord a mod 8 * 262144 + ord b mod 64 * 4096 + ord c mod 64 * 64 + ord d mod 64"
      by (cases s1; cases "tl s1"; cases "tl (tl s1)") (auto simp: s decode_rune_def split: if_splits)
    then show ?thesis using four_bytes [of a b c d] four by (simp add: s)
  next
    case bad
    then show ?thesis using assms(1,3) by (auto simp: s decode_rune_def)
  qed
qed

lemma surrogate_at_wtf8:
  assumes "wtf8_surrogate_at s = Some r"
  shows "take 3 s = wtf8 r \<and> rune_ok r"
proof -
  from assms obtain a b c t where s: "s = a # b # c # t" and a: "ord a = 237"
    and b: "160 \<le> ord b" "ord b \<le> 191" and c: "cont (ord c)"
    and r: "r = ord a mod 16 * 4096 + ord b mod 64 * 64 + ord c mod 64"
    by (cases s; cases "tl s"; cases "tl (tl s)")
      (auto simp: wtf8_surrogate_at_def cont_def split: if_splits)
  have "cont (ord b)" using b by (simp add: cont_def)
  with three_bytes [of a b c] a c show ?thesis by (simp add: s r)
qed

lemma canon_runes_exact:
  "canon_runes s = Some rs \<Longrightarrow> s = concat (map wtf8 rs) \<and> list_all rune_ok rs"
proof (induction s arbitrary: rs rule: canon_runes.induct)
  case (1 s)
  show ?case
  proof (cases "s = []")
    case True
    with "1.prems" show ?thesis by (simp add: canon_runes.simps [of "[]"])
  next
    case False
    obtain r n where d: "decode_rune s = (r, n)" by fastforce
    show ?thesis
    proof (cases "r = rune_error \<and> n = 1")
      case True
      with "1.prems" False d obtain r' rs' where r': "wtf8_surrogate_at s = Some r'"
        and rs': "canon_runes (drop 3 s) = Some rs'" and rs: "rs = r' # rs'"
        by (auto simp: canon_runes.simps [of s] split: option.splits)
      have "drop 3 s = concat (map wtf8 rs') \<and> list_all rune_ok rs'"
        using "1.IH"(1) [OF False d [symmetric] refl True r' rs'] .
      with surrogate_at_wtf8 [OF r'] show ?thesis
        using append_take_drop_id [of 3 s] by (simp add: rs)
    next
      case False': False
      with "1.prems" False d obtain rs' where rs': "canon_runes (drop n s) = Some rs'"
        and rs: "rs = r # rs'"
        by (auto simp: canon_runes.simps [of s])
      have "drop n s = concat (map wtf8 rs') \<and> list_all rune_ok rs'"
        using "1.IH"(2) [OF False d [symmetric] refl False' rs'] .
      with decode_rune_wtf8 [OF d False False'] show ?thesis
        using append_take_drop_id [of n s] by (simp add: rs)
    qed
  qed
qed

section \<open>Values\<close>

definition canonical_string :: "string \<Rightarrow> bool" where
  "canonical_string s = (case canon_runes s of None \<Rightarrow> False | Some rs \<Rightarrow> unpaired rs)"

lemma encode_string_scan:
  assumes "encode_string s = Inr t" and "canonical_string s"
  obtains r where "t = quote_char # r" "\<And>rest. scan_string [] (r @ rest) = Inr (s, rest)"
proof -
  from assms obtain rs where rs: "canon_runes s = Some rs" "unpaired rs"
    and t: "t = quote_char # concat (map escape_rune rs) @ [quote_char]"
    by (auto simp: encode_string_def canonical_string_def split: option.splits)
  have "scan_string [] ((concat (map escape_rune rs) @ [quote_char]) @ rest) = Inr (s, rest)" for rest
    using canon_runes_exact [OF rs(1)] scan_escaped [OF _ rs(2), of "[]" rest] by simp
  with t that show thesis by blast
qed

definition short_integer :: "int \<Rightarrow> bool" where
  "short_integer i \<longleftrightarrow> length (nat_str (nat \<bar>i\<bar>)) \<le> 4300"

fun jplain :: "jval \<Rightarrow> bool" where
  "jplain (JStr s) = canonical_string s"
| "jplain (JNum n) = (\<not> contains_any n ''.eE'' \<and>
     (case parse_int n of None \<Rightarrow> False | Some i \<Rightarrow> short_integer i))"
| "jplain (JInt i) = short_integer i"
| "jplain (JFloat f) = False"
| "jplain (JArr vs) = list_all jplain vs"
| "jplain (JObj m) = (distinct (keys m) \<and> list_all (\<lambda>kv. canonical_string (fst kv) \<and> jplain (snd kv)) m)"
| "jplain _ = True"

text \<open>What decoding gives back: integers respelled canonically and keys in sorted order.\<close>

fun jnorm :: "jval \<Rightarrow> jval" where
  "jnorm (JNum n) = (case parse_int n of None \<Rightarrow> JNum n | Some i \<Rightarrow> JNum (int_str i))"
| "jnorm (JInt i) = JNum (int_str i)"
| "jnorm (JArr vs) = JArr (map jnorm vs)"
| "jnorm (JObj m) = JObj (sort_key fst (map (\<lambda>kv. (fst kv, jnorm (snd kv))) m))"
| "jnorm v = v"

lemma insort_key_fst_map:
  "insort_key fst (fst x, g (snd x)) (map (\<lambda>kv. (fst kv, g (snd kv))) xs) =
     map (\<lambda>kv. (fst kv, g (snd kv))) (insort_key fst x xs)"
  by (induction xs) auto

lemma sort_key_fst_map:
  "sort_key fst (map (\<lambda>kv. (fst kv, g (snd kv))) xs) =
     map (\<lambda>kv. (fst kv, g (snd kv))) (sort_key fst xs)"
  by (induction xs) (simp_all add: insort_key_fst_map)

lemma int_str_nat: "int_str i = (if i < 0 then ''-'' else []) @ nat_str (nat \<bar>i\<bar>)"
  by (simp add: int_str_def)

lemma digit_not_special: "is_digit c \<Longrightarrow> number_char c \<and> c \<noteq> CHR ''-'' \<and> c \<notin> set ''.eE''"
  by (auto simp: is_digit_def number_char_def)

lemma nat_str_number_chars: "c \<in> set (nat_str n) \<Longrightarrow> is_digit c"
  using nat_str_digits [of n] by (simp add: list_all_iff)

lemma nat_str_json: "json_number_ok (nat_str n) \<and> json_number_ok (CHR ''-'' # nat_str n)"
proof -
  have all: "takeWhile is_digit (nat_str n) = nat_str n" "dropWhile is_digit (nat_str n) = []"
    using nat_str_number_chars by (auto simp: takeWhile_eq_all_conv dropWhile_eq_Nil_conv)
  have zero: "hd (nat_str n) = CHR ''0'' \<longrightarrow> length (nat_str n) = 1"
    using nat_str_no_leading_zero [of n] by (cases "n = 0") (simp_all add: nat_str.simps [of 0])
  obtain c cs where cs: "nat_str n = c # cs" using nat_str_nonempty by (cases "nat_str n") auto
  have "c \<noteq> CHR ''-''" using nat_str_number_chars [of c n] cs digit_not_special by auto
  then have "trim_prefix ''-'' (nat_str n) = nat_str n"
    by (simp add: cs trim_prefix_def)
  moreover have "trim_prefix ''-'' (CHR ''-'' # nat_str n) = nat_str n"
    by (simp add: trim_prefix_def)
  ultimately show ?thesis
    using zero by (simp add: json_number_ok_def Let_def json_fraction_ok_def all)
qed

definition ends_number :: "string \<Rightarrow> bool" where
  "ends_number s \<longleftrightarrow> s = [] \<or> \<not> number_char (hd s)"

lemma jnumber_int_str:
  assumes "short_integer i" and "ends_number rest"
  shows "jnumber (int_str i @ rest) = Inr (JNum (int_str i), rest)"
proof -
  have "\<forall>c \<in> set (int_str i). number_char c"
    using nat_str_number_chars digit_not_special
    by (auto simp: int_str_nat number_char_def split: if_splits)
  moreover have "takeWhile number_char rest = []" "dropWhile number_char rest = rest"
    using assms(2) by (cases rest; auto simp: ends_number_def)+
  ultimately have "takeWhile number_char (int_str i @ rest) = int_str i"
    "dropWhile number_char (int_str i @ rest) = rest"
    by simp_all
  moreover have "json_number_ok (int_str i)" using nat_str_json by (simp add: int_str_nat)
  moreover have "length (trim_prefix ''-'' (int_str i)) \<le> 4300"
    using assms(1) by (auto simp: int_str_nat short_integer_def trim_prefix_def)
  ultimately show ?thesis by (simp add: jnumber_def)
qed

lemma jvalue_digit: "is_digit c \<Longrightarrow> jvalue u d (c # t) = jnumber (c # t)"
proof -
  assume c: "is_digit c"
  then have "\<not> json_space c" "c \<notin> set ''{[tfnNI-'' \<and> c \<noteq> quote_char"
    by (auto simp: json_space_def is_digit_def)
  with c show ?thesis by (simp add: jvalue.simps [of u d "c # t"] skip_space_def)
qed

lemma jvalue_minus: "is_digit c \<Longrightarrow> jvalue u d (CHR ''-'' # c # t) = jnumber (CHR ''-'' # c # t)"
proof -
  assume c: "is_digit c"
  then have "c \<noteq> CHR ''I''" by (auto simp: is_digit_def)
  then show ?thesis
    by (simp add: jvalue.simps [of u d "CHR ''-'' # c # t"] skip_space_def json_space_def)
qed

lemma jvalue_int_str:
  assumes "short_integer i" and "ends_number rest"
  shows "jvalue u d (int_str i @ rest) = Inr (JNum (int_str i), rest)"
proof -
  obtain c cs where cs: "nat_str (nat \<bar>i\<bar>) = c # cs"
    using nat_str_nonempty by (cases "nat_str (nat \<bar>i\<bar>)") auto
  have c: "is_digit c" using nat_str_number_chars [of c "nat \<bar>i\<bar>"] cs by auto
  show ?thesis
    using jnumber_int_str [OF assms] jvalue_digit [OF c] jvalue_minus [OF c]
    by (simp add: int_str_nat cs split: if_splits)
qed

lemma skip_space_id: "s = [] \<or> \<not> json_space (hd s) \<Longrightarrow> skip_space s = s"
  by (cases s) (auto simp: skip_space_def)

lemma skip_blank [simp]:
  "jvalue u d (CHR '' '' # s) = jvalue u d s"
  "jelements u d vs (CHR '' '' # s) = jelements u d vs s"
  "jmembers u d m (CHR '' '' # s) = jmembers u d m s"
proof -
  have sp: "skip_space (CHR '' '' # s) = skip_space s" by (simp add: skip_space_def json_space_def)
  show v: "jvalue u d (CHR '' '' # s) = jvalue u d s"
    by (simp only: jvalue.simps [of u d "CHR '' '' # s"] jvalue.simps [of u d s] sp)
  show "jelements u d vs (CHR '' '' # s) = jelements u d vs s"
    by (simp only: jelements.simps [of u d vs "CHR '' '' # s"] jelements.simps [of u d vs s] v)
  show "jmembers u d m (CHR '' '' # s) = jmembers u d m s"
    by (simp only: jmembers.simps [of u d m "CHR '' '' # s"] jmembers.simps [of u d m s] sp)
qed

lemma jvalue_literals:
  "jvalue u d (''null'' @ r) = Inr (JNull, r)"
  "jvalue u d (''true'' @ r) = Inr (JBool True, r)"
  "jvalue u d (''false'' @ r) = Inr (JBool False, r)"
  by (simp_all add: jvalue.simps skip_space_def json_space_def jliteral_def)

lemma jvalue_string:
  "scan_string [] (r @ rest) = Inr (s, rest) \<Longrightarrow> jvalue u d ((quote_char # r) @ rest) = Inr (JStr s, rest)"
  by (simp add: jvalue.simps skip_space_def json_space_def)

section \<open>The round trip of values\<close>

lemma encode_string_head: "encode_string s = Inr t \<Longrightarrow> \<exists>r. t = quote_char # r"
  by (auto simp: encode_string_def split: option.splits)

lemma int_str_head: "\<exists>c r. int_str i = c # r \<and> (c = CHR ''-'' \<or> is_digit c)"
proof (cases "nat_str (nat \<bar>i\<bar>)")
  case (Cons c cs)
  then show ?thesis using nat_str_number_chars [of c "nat \<bar>i\<bar>"] by (simp add: int_str_nat)
qed simp

definition starts_value :: "string \<Rightarrow> bool" where
  "starts_value t \<longleftrightarrow> t \<noteq> [] \<and> \<not> json_space (hd t) \<and> hd t \<noteq> CHR '']'' \<and> hd t \<noteq> CHR ''}''"

lemma starts_value_int_str: "starts_value (int_str i)"
  using int_str_head [of i] by (auto simp: starts_value_def json_space_def is_digit_def)

lemma starts_value_string: "encode_string s = Inr t \<Longrightarrow> starts_value t"
  using encode_string_head [of s t] by (auto simp: starts_value_def json_space_def)

lemma encode_value_head:
  "encode_value d v = Inr t \<Longrightarrow> jplain v \<Longrightarrow> starts_value t"
  by (cases v) (auto simp: encode_value.simps encode_number_def result_simps
      starts_value_string starts_value_int_str split: if_splits option.splits,
      auto simp: starts_value_def json_space_def)

lemma skip_space_starts: "starts_value t \<Longrightarrow> skip_space (t @ s) = t @ s"
  by (rule skip_space_id) (simp add: starts_value_def)

lemma ends_number_punct: "ends_number (CHR '','' # s)" "ends_number (CHR '']'' # s)" "ends_number (CHR ''}'' # s)"
  by (simp_all add: ends_number_def number_char_def is_digit_def)

lemma skip_space_punct:
  "skip_space (CHR '','' # s) = CHR '','' # s" "skip_space (CHR '']'' # s) = CHR '']'' # s"
  "skip_space (CHR ''}'' # s) = CHR ''}'' # s" "skip_space (CHR '':'' # s) = CHR '':'' # s"
  "skip_space (quote_char # s) = quote_char # s"
  by (simp_all add: skip_space_def json_space_def)

text \<open>What one step of the element and member loops does on encoded text.\<close>

lemma jelements_step:
  assumes "jvalue u d (t @ CHR '','' # s) = Inr (v, CHR '','' # s)"
  shows "jelements u d acc (t @ CHR '','' # s) = jelements u d (acc @ [v]) s"
  using assms by (simp add: jelements.simps [of u d acc "t @ CHR '','' # s"] skip_space_punct)

lemma jelements_last:
  assumes "jvalue u d (t @ CHR '']'' # s) = Inr (v, CHR '']'' # s)"
  shows "jelements u d acc (t @ CHR '']'' # s) = Inr (JArr (acc @ [v]), s)"
  using assms by (simp add: jelements.simps [of u d acc "t @ CHR '']'' # s"] skip_space_punct)

lemma jmembers_member:
  assumes "scan_string [] (r @ CHR '':'' # CHR '' '' # t @ e # s) = Inr (k, CHR '':'' # CHR '' '' # t @ e # s)"
    and "jvalue u d (t @ e # s) = Inr (v, e # s)" and "k \<notin> set (keys acc)" and "e \<in> {CHR '','', CHR ''}''}"
  shows "jmembers u d acc (quote_char # r @ '': '' @ t @ e # s) =
    (if e = CHR ''}'' then Inr (JObj (acc @ [(k, v)]), s) else jmembers u d (acc @ [(k, v)]) s)"
  using assms by (auto simp: jmembers.simps [of u d acc "quote_char # r @ s'" for s']
      skip_space_punct jinsert_def update_fresh)

lemma join_Cons: "join sep (x # xs) = x @ (if xs = [] then [] else sep @ join sep xs)"
  by (cases xs) simp_all

lemma encode_elems_Nil: "encode_elems d vs = Inr [] \<longleftrightarrow> vs = []"
  by (cases vs) (auto simp: result_simps)

lemma encode_members_Nil: "encode_members d m = Inr [] \<longleftrightarrow> m = []"
  by (cases m) (auto simp: result_simps)

definition jfits :: "nat \<Rightarrow> jval \<Rightarrow> bool" where
  "jfits d v \<longleftrightarrow> jplain v \<and> jdepth v + d \<le> 512"

lemma jfits_containers:
  "jfits d (JArr vs) \<Longrightarrow> d < 512 \<and> list_all (jfits (Suc d)) vs"
  "jfits d (JObj m) \<Longrightarrow> d < 512 \<and> distinct (keys m) \<and>
     list_all (\<lambda>kv. canonical_string (fst kv) \<and> jfits (Suc d) (snd kv)) m"
proof -
  assume a: "jfits d (JArr vs)"
  then have d: "d < 512" by (simp add: jfits_def)
  with a d have "jdepth (JArr vs) \<le> Suc (511 - d)" by (auto simp: jfits_def)
  with a d show "d < 512 \<and> list_all (jfits (Suc d)) vs"
    unfolding jdepth_le_iff by (fastforce simp: jfits_def list_all_iff)
next
  assume a: "jfits d (JObj m)"
  then have d: "d < 512" by (simp add: jfits_def)
  with a d have "jdepth (JObj m) \<le> Suc (511 - d)" by (auto simp: jfits_def)
  with a d show "d < 512 \<and> distinct (keys m) \<and>
     list_all (\<lambda>kv. canonical_string (fst kv) \<and> jfits (Suc d) (snd kv)) m"
    unfolding jdepth_le_iff by (fastforce simp: jfits_def list_all_iff)
qed

definition jnorm_members :: "(string \<times> jval) list \<Rightarrow> (string \<times> jval) list" where
  "jnorm_members = map (\<lambda>kv. (fst kv, jnorm (snd kv)))"

lemma distinct_keys_sort: "distinct (keys m) \<Longrightarrow> distinct (keys (sort_key fst m))"
  by (metis distinct_map distinct_sort set_sort mset_sort mset_map distinct_count_atmost_1)

lemma encode_decode:
  "\<And>t rest. encode_value d v = Inr t \<Longrightarrow> jfits d v \<Longrightarrow> ends_number rest \<Longrightarrow>
     jvalue u d (t @ rest) = Inr (jnorm v, rest)"
  "\<And>ts acc rest. encode_elems e vs = Inr ts \<Longrightarrow> vs \<noteq> [] \<Longrightarrow> list_all (jfits e) vs \<Longrightarrow>
     jelements u e acc (join '', '' ts @ CHR '']'' # rest) = Inr (JArr (acc @ map jnorm vs), rest)"
  "\<And>ts acc rest. encode_members f m = Inr ts \<Longrightarrow> m \<noteq> [] \<Longrightarrow> distinct (keys acc @ keys m) \<Longrightarrow>
     list_all (\<lambda>kv. canonical_string (fst kv) \<and> jfits f (snd kv)) m \<Longrightarrow>
     jmembers u f acc (join '', '' ts @ CHR ''}'' # rest) = Inr (JObj (acc @ jnorm_members m), rest)"
proof (induction d v and e vs and f m rule: encode_value_encode_elems_encode_members.induct)
  case (1 d v)
  have depth: "\<not> 512 < d" using "1.prems"(1) by (auto simp: encode_value.simps [of d v])
  note unf = encode_value.simps depth
  show ?case
  proof (cases v)
    case (JArr vs)
    then obtain ts where ts: "encode_elems (Suc d) vs = Inr ts" "t = ''['' @ join '', '' ts @ '']''"
      using "1.prems"(1) by (auto simp: unf result_simps)
    have fit: "d < 512" "list_all (jfits (Suc d)) vs"
      using jfits_containers(1) "1.prems"(2) JArr by auto
    have skip: "skip_space (CHR ''['' # s) = CHR ''['' # s" for s
      by (simp add: skip_space_def json_space_def)
    show ?thesis
    proof (cases vs)
      case Nil
      with ts JArr fit skip show ?thesis
        by (simp add: jvalue.simps [of u d "CHR ''['' # s" for s] skip_space_punct has_prefix_def)
    next
      case (Cons w ws)
      with ts fit obtain t1 ts1 where t1: "encode_value (Suc d) w = Inr t1" "ts = t1 # ts1"
        by (auto simp: result_simps)
      have st: "starts_value t1"
        using t1(1) fit(2) Cons by (auto simp: jfits_def intro: encode_value_head)
      then have "skip_space (join '', '' ts @ s) = join '', '' ts @ s \<and>
          \<not> has_prefix '']'' (join '', '' ts @ s)" for s
        using skip_space_starts [OF st] by (cases t1) (auto simp: t1(2) join_Cons has_prefix_iff starts_value_def)
      with skip fit(1) "1.IH"(1) [OF depth JArr ts(1) _ fit(2), of "[]" rest] Cons JArr show ?thesis
        by (simp add: ts(2) jvalue.simps [of u d "CHR ''['' # s" for s])
    qed
  next
    case (JObj m)
    let ?m = "sort_key fst m"
    from JObj obtain ts where ts: "encode_members (Suc d) ?m = Inr ts" "t = ''{'' @ join '', '' ts @ ''}''"
      using "1.prems"(1) by (auto simp: unf result_simps)
    have fit: "d < 512" "distinct (keys m)"
      "list_all (\<lambda>kv. canonical_string (fst kv) \<and> jfits (Suc d) (snd kv)) ?m"
      using jfits_containers(2) [of d m] "1.prems"(2) JObj by (auto simp: list_all_iff)
    have dis: "distinct (keys [] @ keys ?m)" using fit(2) by (simp add: distinct_keys_sort)
    have skip: "skip_space (CHR ''{'' # s) = CHR ''{'' # s" for s
      by (simp add: skip_space_def json_space_def)
    have norm: "jnorm v = JObj (jnorm_members ?m)"
      by (simp add: JObj jnorm_members_def sort_key_fst_map)
    show ?thesis
    proof (cases ?m)
      case Nil
      with ts norm fit skip show ?thesis
        by (simp add: jvalue.simps [of u d "CHR ''{'' # s" for s] skip_space_punct has_prefix_def jnorm_members_def)
    next
      case (Cons w ws)
      with ts(1) obtain t1 t2 ts1 where t1: "encode_string (fst w) = Inr t1" "ts = (t1 @ t2) # ts1"
        by (auto simp: result_simps)
      then obtain r where "t1 = quote_char # r" using encode_string_head by blast
      then have "skip_space (join '', '' ts @ s) = join '', '' ts @ s \<and>
          \<not> has_prefix ''}'' (join '', '' ts @ s)" for s
        by (simp add: t1(2) join_Cons skip_space_punct has_prefix_iff)
      with skip fit(1) "1.IH"(2) [OF depth JObj ts(1) _ dis fit(3), of rest] Cons norm show ?thesis
        by (simp add: ts(2) jvalue.simps [of u d "CHR ''{'' # s" for s])
    qed
  next
    case (JStr s)
    with "1.prems" obtain r where "t = quote_char # r" "\<And>rest. scan_string [] (r @ rest) = Inr (s, rest)"
      by (auto simp: unf jfits_def elim: encode_string_scan)
    with JStr show ?thesis using jvalue_string [of r rest s] by simp
  next
    case (JNum n)
    with "1.prems" show ?thesis
      by (auto simp: unf jfits_def encode_number_def jvalue_int_str split: option.splits)
  next
    case (JInt i)
    with "1.prems" show ?thesis by (auto simp: unf jfits_def jvalue_int_str)
  next
    case (JBool b)
    with "1.prems"(1) show ?thesis using jvalue_literals [of u d rest] by (auto simp: unf)
  next
    case JNull
    with "1.prems"(1) show ?thesis using jvalue_literals [of u d rest] by (auto simp: unf)
  next
    case (JFloat f)
    with "1.prems"(2) show ?thesis by (simp add: jfits_def)
  qed
next
  case (3 e v vs)
  from "3.prems"(1) obtain t ts' where t: "encode_value e v = Inr t" "encode_elems e vs = Inr ts'" "ts = t # ts'"
    by (auto simp: result_simps)
  have v: "jvalue u e (t @ s) = Inr (jnorm v, s)" if "ends_number s" for s
    using "3.IH"(1) [OF t(1) _ that] "3.prems"(3) by simp
  show ?case
  proof (cases "vs = []")
    case True
    with t have "ts' = []" by simp
    with True t v [of "CHR '']'' # rest"] show ?thesis
      by (simp add: jelements_last ends_number_punct)
  next
    case False
    with t have "ts' \<noteq> []" by (auto simp: encode_elems_Nil)
    with t v [of "CHR '','' # CHR '' '' # join '', '' ts' @ CHR '']'' # rest"] False
      "3.IH"(2) [OF t(1,2), of "acc @ [jnorm v]" rest] "3.prems"(3)
    show ?thesis
      by (simp add: join_Cons [of _ t] jelements_step ends_number_punct)
  qed
next
  case (5 f kv m)
  from "5.prems"(1) obtain k t ts' where t: "encode_string (fst kv) = Inr k" "encode_value f (snd kv) = Inr t"
    "encode_members f m = Inr ts'" "ts = (k @ '': '' @ t) # ts'"
    by (auto simp: result_simps)
  obtain r where r: "k = quote_char # r" "\<And>rest. scan_string [] (r @ rest) = Inr (fst kv, rest)"
    using encode_string_scan [OF t(1)] "5.prems"(4) by auto
  have v: "jvalue u f (t @ s) = Inr (jnorm (snd kv), s)" if "ends_number s" for s
    using "5.IH"(1) [OF t(1,2) _ that] "5.prems"(4) by simp
  have mem: "jmembers u f acc (quote_char # r @ '': '' @ t @ e # s) =
    (if e = CHR ''}'' then Inr (JObj (acc @ [(fst kv, jnorm (snd kv))]), s)
     else jmembers u f (acc @ [(fst kv, jnorm (snd kv))]) s)" if "e \<in> {CHR '','', CHR ''}''}" for e s
    using that v [of "e # s"] "5.prems"(3) r(2)
    by (intro jmembers_member) (auto simp: ends_number_punct)
  show ?case
  proof (cases "m = []")
    case True
    with t have "ts' = []" by simp
    with True t r mem [of "CHR ''}''" rest] show ?thesis by (simp add: jnorm_members_def)
  next
    case False
    with t have "ts' \<noteq> []" by (auto simp: encode_members_Nil)
    with t r mem [of "CHR '',''" "CHR '' '' # join '', '' ts' @ CHR ''}'' # rest"] False
      "5.IH"(2) [OF t(1,2,3), of "acc @ [(fst kv, jnorm (snd kv))]" rest] "5.prems"(3,4)
    show ?thesis by (simp add: join_Cons [of _ _ ts'] jnorm_members_def)
  qed
qed simp_all

end
