(* ===== verification/Json_Grammar.thy ===== *)
theory Json_Grammar
  imports Json_Roundtrip
begin

text \<open>
  A reference for the decoder: the concrete syntax as an inductive relation that keeps every member of an
  object in the order of the text, duplicates included.  \<open>Decode\<close> is this relation followed by \<open>collapse\<close>, in
  which the last value of a key wins; \<open>DecodeUnique\<close> is this relation restricted to the texts in which no
  object, at any depth, repeats a key.
\<close>

section \<open>The concrete syntax\<close>

definition literals :: "(string \<times> jval) list" where
  "literals = [(''true'', JBool True), (''false'', JBool False), (''null'', JNull), (''NaN'', JNum ''NaN''),
     (''Infinity'', JNum ''Infinity''), (''-Infinity'', JNum ''-Infinity'')]"

definition starts_number :: "string \<Rightarrow> bool" where
  "starts_number s \<longleftrightarrow> s \<noteq> [] \<and> (is_digit (hd s) \<or> hd s = CHR ''-'' \<and> \<not> has_prefix ''-Infinity'' s)"

inductive reads_value :: "nat \<Rightarrow> string \<Rightarrow> jval \<Rightarrow> string \<Rightarrow> bool"
  and reads_members :: "nat \<Rightarrow> string \<Rightarrow> (string \<times> jval) list \<Rightarrow> string \<Rightarrow> bool"
  and reads_elements :: "nat \<Rightarrow> string \<Rightarrow> jval list \<Rightarrow> string \<Rightarrow> bool"
where
  read_literal: "skip_space s = lit @ r \<Longrightarrow> (lit, v) \<in> set literals \<Longrightarrow> reads_value d s v r"
| read_number: "starts_number (skip_space s) \<Longrightarrow> jnumber (skip_space s) = Inr (v, r) \<Longrightarrow> reads_value d s v r"
| read_string: "skip_space s = quote_char # t \<Longrightarrow> scan_string [] t = Inr (x, r) \<Longrightarrow> reads_value d s (JStr x) r"
| read_empty_object: "skip_space s = CHR ''{'' # t \<Longrightarrow> d < 512 \<Longrightarrow> skip_space t = CHR ''}'' # r \<Longrightarrow>
    reads_value d s (JObj []) r"
| read_object: "skip_space s = CHR ''{'' # t \<Longrightarrow> d < 512 \<Longrightarrow> reads_members (Suc d) (skip_space t) ms r \<Longrightarrow>
    reads_value d s (JObj ms) r"
| read_empty_array: "skip_space s = CHR ''['' # t \<Longrightarrow> d < 512 \<Longrightarrow> skip_space t = CHR '']'' # r \<Longrightarrow>
    reads_value d s (JArr []) r"
| read_array: "skip_space s = CHR ''['' # t \<Longrightarrow> d < 512 \<Longrightarrow> \<not> has_prefix '']'' (skip_space t) \<Longrightarrow>
    reads_elements (Suc d) (skip_space t) vs r \<Longrightarrow> reads_value d s (JArr vs) r"
| read_last_member: "skip_space s = quote_char # t \<Longrightarrow> scan_string [] t = Inr (k, t1) \<Longrightarrow>
    skip_space t1 = CHR '':'' # t2 \<Longrightarrow> reads_value d t2 v t3 \<Longrightarrow> skip_space t3 = CHR ''}'' # r \<Longrightarrow>
    reads_members d s [(k, v)] r"
| read_member: "skip_space s = quote_char # t \<Longrightarrow> scan_string [] t = Inr (k, t1) \<Longrightarrow>
    skip_space t1 = CHR '':'' # t2 \<Longrightarrow> reads_value d t2 v t3 \<Longrightarrow> skip_space t3 = CHR '','' # t4 \<Longrightarrow>
    reads_members d t4 ms r \<Longrightarrow> reads_members d s ((k, v) # ms) r"
| read_last_element: "reads_value d s v t \<Longrightarrow> skip_space t = CHR '']'' # r \<Longrightarrow> reads_elements d s [v] r"
| read_element: "reads_value d s v t \<Longrightarrow> skip_space t = CHR '','' # t1 \<Longrightarrow> reads_elements d t1 vs r \<Longrightarrow>
    reads_elements d s (v # vs) r"

definition json_text :: "string \<Rightarrow> jval \<Rightarrow> bool" where
  "json_text s w \<longleftrightarrow> (\<exists>r. reads_value 0 s w r \<and> skip_space r = [])"

section \<open>Duplicate keys\<close>

fun unique_keys :: "jval \<Rightarrow> bool" where
  "unique_keys (JArr vs) = list_all unique_keys vs"
| "unique_keys (JObj ms) = (distinct (keys ms) \<and> list_all (\<lambda>kv. unique_keys (snd kv)) ms)"
| "unique_keys _ = True"

fun collapse :: "jval \<Rightarrow> jval" where
  "collapse (JArr vs) = JArr (map collapse vs)"
| "collapse (JObj ms) = JObj (fold (\<lambda>kv. AList.update (fst kv) (collapse (snd kv))) ms [])"
| "collapse v = v"

text \<open>What a decoder in either mode makes of a value of the text, and of the members of an object.\<close>

definition kept :: "bool \<Rightarrow> jval \<Rightarrow> jval" where
  "kept u w = (if u then w else collapse w)"

definition allowed :: "bool \<Rightarrow> jval \<Rightarrow> bool" where
  "allowed u w \<longleftrightarrow> (u \<longrightarrow> unique_keys w)"

definition entered :: "bool \<Rightarrow> (string \<times> jval) list \<Rightarrow> (string \<times> jval) list \<Rightarrow> (string \<times> jval) list" where
  "entered u ms m = fold (\<lambda>kv. AList.update (fst kv) (kept u (snd kv))) ms m"

definition enterable :: "bool \<Rightarrow> (string \<times> jval) list \<Rightarrow> (string \<times> jval) list \<Rightarrow> bool" where
  "enterable u ms m \<longleftrightarrow> (\<forall>kv \<in> set ms. allowed u (snd kv)) \<and>
     (u \<longrightarrow> distinct (keys ms) \<and> set (keys ms) \<inter> set (keys m) = {})"

lemma entered_simps [simp]:
  "entered u [] m = m"
  "entered u ((k, v) # ms) m = entered u ms (AList.update k (kept u v) m)"
  by (simp_all add: entered_def)

lemma set_keys_updated: "fst ` set (AList.update k v m) = insert k (fst ` set m)"
  using set_keys_update [of k v m] by simp

lemma enterable_Cons [simp]:
  "enterable u [] m"
  "enterable u ((k, v) # ms) m \<longleftrightarrow> allowed u v \<and> (u \<longrightarrow> k \<notin> set (keys m)) \<and> enterable u ms (AList.update k (kept u v) m)"
  by (auto simp: enterable_def set_keys_updated)

lemma jinsert_iff: "jinsert u m k v = Inr m' \<longleftrightarrow> (u \<longrightarrow> k \<notin> set (keys m)) \<and> m' = AList.update k v m"
  by (auto simp: jinsert_def)

lemma entered_unique: "enterable True ms m \<Longrightarrow> entered True ms m = m @ ms"
proof (induction ms arbitrary: m)
  case (Cons kv ms)
  obtain k v where kv: "kv = (k, v)" by (cases kv)
  from Cons.prems have "k \<notin> set (keys m)" "enterable True ms (AList.update k v m)"
    by (simp_all add: kv kept_def)
  with Cons.IH show ?case by (simp add: kv kept_def update_fresh)
qed simp

lemma kept_object: "enterable u ms [] \<longleftrightarrow> allowed u (JObj ms)"
  "enterable u ms [] \<Longrightarrow> JObj (entered u ms []) = kept u (JObj ms)"
  using entered_unique [of ms "[]"]
  by (auto simp: enterable_def allowed_def kept_def entered_def list_all_iff)

lemma kept_array: "(\<forall>v \<in> set vs. allowed u v) \<longleftrightarrow> allowed u (JArr vs)" "JArr (map (kept u) vs) = kept u (JArr vs)"
  by (auto simp: allowed_def kept_def list_all_iff map_idI)

section \<open>Scalars\<close>

lemma jliteral_iff: "jliteral lit v s = Inr (x, r) \<longleftrightarrow> s = lit @ r \<and> x = v"
  by (auto simp: jliteral_def has_prefix_iff)

lemma literal_kept: "(lit, v) \<in> set literals \<Longrightarrow> kept u v = v \<and> allowed u v"
  by (auto simp: literals_def kept_def allowed_def)

lemma number_kept: "jnumber s = Inr (v, r) \<Longrightarrow> kept u v = v \<and> allowed u v"
  by (auto elim!: jnumber_InrE simp: kept_def allowed_def)

lemma scalar_value:
  assumes "skip_space s = c # t" "c \<noteq> CHR ''{''" "c \<noteq> CHR ''[''" "c \<noteq> quote_char"
  shows "jvalue u d s = Inr (v, r) \<longleftrightarrow> (\<exists>lit. (lit, v) \<in> set literals \<and> skip_space s = lit @ r) \<or>
    starts_number (skip_space s) \<and> jnumber (skip_space s) = Inr (v, r)"
proof -
  have lits: "(\<exists>lit. (lit, v) \<in> set literals \<and> skip_space s = lit @ r) \<longleftrightarrow>
      c # t = ''true'' @ r \<and> v = JBool True \<or> c # t = ''false'' @ r \<and> v = JBool False \<or> c # t = ''null'' @ r \<and> v = JNull \<or>
      c # t = ''NaN'' @ r \<and> v = JNum ''NaN'' \<or> c # t = ''Infinity'' @ r \<and> v = JNum ''Infinity'' \<or>
      c # t = ''-Infinity'' @ r \<and> v = JNum ''-Infinity''"
    unfolding literals_def assms(1) by fastforce
  have num: "starts_number (skip_space s) \<longleftrightarrow> is_digit c \<or> c = CHR ''-'' \<and> \<not> has_prefix ''-Infinity'' (c # t)"
    by (simp add: starts_number_def assms(1))
  have digits: "\<not> is_digit CHR ''t''" "\<not> is_digit CHR ''f''" "\<not> is_digit CHR ''n''" "\<not> is_digit CHR ''N''"
    "\<not> is_digit CHR ''I''" "\<not> is_digit CHR ''-''"
    by (simp_all add: is_digit_def)
  have inf: "c # t = ''-Infinity'' @ r \<Longrightarrow> has_prefix ''-Infinity'' (c # t)" by (simp add: has_prefix_iff)
  consider "c = CHR ''t''" | "c = CHR ''f''" | "c = CHR ''n''" | "c = CHR ''N''" | "c = CHR ''I''" | "c = CHR ''-''"
    | "c \<noteq> CHR ''t''" "c \<noteq> CHR ''f''" "c \<noteq> CHR ''n''" "c \<noteq> CHR ''N''" "c \<noteq> CHR ''I''" "c \<noteq> CHR ''-''" by blast
  then show ?thesis unfolding lits num
    by cases (use assms digits inf in \<open>simp_all add: jvalue.simps [of u d s] jliteral_iff, auto simp: has_prefix_iff\<close>)
qed

section \<open>The decoder reads the concrete syntax\<close>

definition result_of :: "bool \<Rightarrow> jval \<Rightarrow> jval \<Rightarrow> bool" where
  "result_of u w v \<longleftrightarrow> allowed u w \<and> v = kept u w"

lemma atoms_kept: "result_of u (JStr x) (JStr x)" "result_of u (JObj []) (JObj [])" "result_of u (JArr []) (JArr [])"
  by (auto simp: result_of_def allowed_def kept_def)

lemma scalar_start:
  assumes "(\<exists>lit. (lit, v) \<in> set literals \<and> skip_space s = lit @ r) \<or> starts_number (skip_space s)"
  obtains c t where "skip_space s = c # t" "c \<noteq> CHR ''{''" "c \<noteq> CHR ''[''" "c \<noteq> quote_char"
proof -
  have "\<not> is_digit CHR ''{''" "\<not> is_digit CHR ''[''" "\<not> is_digit quote_char" by (simp_all add: is_digit_def)
  with assms have "\<exists>c t. skip_space s = c # t \<and> c \<noteq> CHR ''{'' \<and> c \<noteq> CHR ''['' \<and> c \<noteq> quote_char"
    by (cases "skip_space s") (auto simp: literals_def starts_number_def)
  with that show thesis by blast
qed

lemma decoded_reads:
  "\<And>v r. jvalue u d s = Inr (v, r) \<Longrightarrow> \<exists>w. reads_value d s w r \<and> result_of u w v"
  "\<And>v r. jmembers u d m s = Inr (v, r) \<Longrightarrow> \<exists>ms. reads_members d s ms r \<and> enterable u ms m \<and> v = JObj (entered u ms m)"
  "\<And>v r. jelements u d vs s = Inr (v, r) \<Longrightarrow> \<exists>ws. reads_elements d s ws r \<and> (\<forall>w \<in> set ws. allowed u w) \<and>
     v = JArr (vs @ map (kept u) ws)"
proof (induction u d s and u d m s and u d vs s rule: jvalue_jmembers_jelements.induct)
  case (1 u d s)
  from "1.prems" obtain c t where c: "skip_space s = c # t"
    by (cases "skip_space s") (simp_all add: jvalue.simps [of u d s])
  note unf = jvalue.simps [of u d s] c
  consider "c = CHR ''{''" | "c = CHR ''[''" | "c = quote_char" | "c \<noteq> CHR ''{''" "c \<noteq> CHR ''[''" "c \<noteq> quote_char"
    by blast
  then show ?case
  proof cases
    case 1
    show ?thesis
    proof (cases "has_prefix ''}'' (skip_space t)")
      case True
      then obtain t' where "skip_space t = CHR ''}'' # t'" by (auto simp: has_prefix_iff)
      with "1.prems" 1 atoms_kept show ?thesis
        by (auto simp: unf split: if_splits intro!: exI [of _ "JObj []"] read_empty_object)
    next
      case False
      with "1.prems" 1 have m: "d < 512" "jmembers u (Suc d) [] (skip_space t) = Inr (v, r)"
        by (auto simp: unf split: if_splits)
      with "1.IH"(1) [OF c] False 1 obtain ms where
        "reads_members (Suc d) (skip_space t) ms r" "enterable u ms []" "v = JObj (entered u ms [])" by force
      with m(1) c 1 kept_object [of u ms] show ?thesis
        by (auto simp: result_of_def intro!: exI [of _ "JObj ms"] read_object)
    qed
  next
    case 2
    show ?thesis
    proof (cases "has_prefix '']'' (skip_space t)")
      case True
      then obtain t' where "skip_space t = CHR '']'' # t'" by (auto simp: has_prefix_iff)
      with "1.prems" 2 atoms_kept show ?thesis
        by (auto simp: unf split: if_splits intro!: exI [of _ "JArr []"] read_empty_array)
    next
      case False
      with "1.prems" 2 have m: "d < 512" "jelements u (Suc d) [] (skip_space t) = Inr (v, r)"
        by (auto simp: unf split: if_splits)
      with "1.IH"(2) [OF c] False 2 obtain ws where
        "reads_elements (Suc d) (skip_space t) ws r" "\<forall>w \<in> set ws. allowed u w" "v = JArr (map (kept u) ws)" by force
      with m(1) c 2 False kept_array [where vs = ws and u = u] show ?thesis
        by (auto simp: result_of_def intro!: exI [of _ "JArr ws"] read_array)
    qed
  next
    case 3
    with "1.prems" obtain x where "scan_string [] t = Inr (x, r)" "v = JStr x" by (auto simp: unf result_simps)
    with c 3 atoms_kept show ?thesis by (auto intro!: exI [of _ "JStr x"] read_string)
  next
    case 4
    with "1.prems" scalar_value [OF c 4] have "(\<exists>lit. (lit, v) \<in> set literals \<and> skip_space s = lit @ r) \<or>
      starts_number (skip_space s) \<and> jnumber (skip_space s) = Inr (v, r)" by blast
    then show ?thesis
      using literal_kept [of _ v u] number_kept [of "skip_space s" v r u]
      by (auto simp: result_of_def intro!: exI [of _ v] intro: read_literal read_number)
  qed
next
  case (2 u d m s)
  from "2.prems" show ?case
  proof (cases rule: jmembers_InrE)
    case (1 t p t2 q m' e t3)
    from "2.IH"(1) [OF 1(1) _ 1(2,3), of "fst q" "snd q"] 1(4) obtain w where
      w: "reads_value d t2 w (snd q)" "allowed u w" "fst q = kept u w" by (auto simp: result_of_def)
    from 1(5) have m': "u \<longrightarrow> fst p \<notin> set (keys m)" "m' = AList.update (fst p) (kept u w) m"
      by (auto simp: jinsert_iff w(3))
    have "scan_string [] t = Inr (fst p, snd p)" using 1(2) by simp
    note here = 1(1) this 1(3) w(1)
    from 1(7) show ?thesis
    proof (elim disjE conjE)
      assume "e = CHR ''}''" "(v, r) = (JObj m', t3)"
      with read_last_member [OF here, of r] 1(6) m' w(2) show ?thesis
        by (intro exI [of _ "[(fst p, w)]"]) (simp add: enterable_def allowed_def)
    next
      assume e: "e \<noteq> CHR ''}''" "e = CHR '',''" "jmembers u d m' t3 = Inr (v, r)"
      with "2.IH"(2) [OF 1(1) _ 1(2,3) _ 1(4,5,6)] obtain ms where
        "reads_members d t3 ms r" "enterable u ms m'" "v = JObj (entered u ms m')" by force
      with read_member [OF here, of t3 ms r] 1(6) e(2) m' w(2) show ?thesis
        by (intro exI [of _ "(fst p, w) # ms"]) simp
    qed
  qed
next
  case (3 u d vs s)
  from "3.prems" show ?case
  proof (cases rule: jelements_InrE)
    case (1 q e t3)
    from "3.IH"(1) [of "fst q" "snd q"] 1(1) obtain w where
      w: "reads_value d s w (snd q)" "allowed u w" "fst q = kept u w" by (auto simp: result_of_def)
    from 1(3) show ?thesis
    proof (elim disjE conjE)
      assume "e = CHR '']''" "(v, r) = (JArr (vs @ [fst q]), t3)"
      with read_last_element [OF w(1), of r] 1(2) w show ?thesis by (intro exI [of _ "[w]"]) simp
    next
      assume e: "e \<noteq> CHR '']''" "e = CHR '',''" "jelements u d (vs @ [fst q]) t3 = Inr (v, r)"
      with "3.IH"(2) [OF 1(1,2)] obtain ws where
        "reads_elements d t3 ws r" "\<forall>w \<in> set ws. allowed u w" "v = JArr ((vs @ [fst q]) @ map (kept u) ws)" by force
      with read_element [OF w(1), of t3 ws r] 1(2) e(2) w show ?thesis by (intro exI [of _ "w # ws"]) simp
    qed
  qed
qed

lemma members_start: "reads_members d s ms r \<Longrightarrow> \<exists>t. skip_space s = quote_char # t"
  by (cases rule: reads_members.cases) auto

lemma skip_space_twice [simp]: "skip_space (skip_space s) = skip_space s"
  by (simp add: skip_space_def)

lemma reads_decoded:
  "reads_value d s w r \<Longrightarrow> allowed u w \<Longrightarrow> jvalue u d s = Inr (kept u w, r)"
  "reads_members d s ms r \<Longrightarrow> (\<And>m. enterable u ms m \<Longrightarrow> jmembers u d m s = Inr (JObj (entered u ms m), r))"
  "reads_elements d s ws r \<Longrightarrow> (\<And>vs. (\<forall>w \<in> set ws. allowed u w) \<Longrightarrow> jelements u d vs s = Inr (JArr (vs @ map (kept u) ws), r))"
proof (induction rule: reads_value_reads_members_reads_elements.inducts)
  case (read_literal s lit r v d)
  then obtain c t where c: "skip_space s = c # t" "c \<noteq> CHR ''{''" "c \<noteq> CHR ''[''" "c \<noteq> quote_char"
    using scalar_start [of v s r] by metis
  with scalar_value [OF c] read_literal literal_kept [of lit v u] show ?case by auto
next
  case (read_number s v r d)
  then obtain c t where c: "skip_space s = c # t" "c \<noteq> CHR ''{''" "c \<noteq> CHR ''[''" "c \<noteq> quote_char"
    using scalar_start [of v s r] by metis
  with scalar_value [OF c] read_number number_kept [of "skip_space s" v r u] show ?case by auto
next
  case (read_string s t x r d)
  then show ?case by (simp add: jvalue.simps [of u d s] kept_def)
next
  case (read_empty_object s t d r)
  then show ?case by (simp add: jvalue.simps [of u d s] kept_def has_prefix_iff)
next
  case (read_object s t d ms r)
  from members_start [OF read_object(3)] have "\<not> has_prefix ''}'' (skip_space t)" by (auto simp: has_prefix_iff)
  with jvalue_container_simps(1) [OF read_object(1,2)] read_object kept_object [of u ms] show ?case by simp
next
  case (read_empty_array s t d r)
  then show ?case by (simp add: jvalue.simps [of u d s] kept_def has_prefix_iff)
next
  case (read_array s t d vs r)
  with jvalue_container_simps(2) [OF read_array(1-3)] kept_array [where vs = vs and u = u] show ?case by simp
next
  case (read_last_member s t k t1 t2 d v t3 r)
  then show ?case by (auto simp: jmembers.simps [of u d m s] jinsert_def)
next
  case (read_member s t k t1 t2 d v t3 t4 ms r)
  then show ?case by (auto simp: jmembers.simps [of u d m s] jinsert_def)
next
  case (read_last_element d s v t r)
  then show ?case by (simp add: jelements.simps [of u d vs s])
next
  case (read_element d s v t t1 ws r)
  then show ?case by (simp add: jelements.simps [of u d vs s])
qed

lemma decode_json_iff: "decode_json u s = Inr v \<longleftrightarrow> (\<exists>w. json_text s w \<and> allowed u w \<and> v = kept u w)"
proof
  assume "decode_json u s = Inr v"
  then obtain r where "jvalue u 0 s = Inr (v, r)" "skip_space r = []"
    by (auto simp: decode_json_def result_simps split: if_splits)
  with decoded_reads(1) [of u 0 s v r] show "\<exists>w. json_text s w \<and> allowed u w \<and> v = kept u w"
    by (auto simp: json_text_def result_of_def)
next
  assume "\<exists>w. json_text s w \<and> allowed u w \<and> v = kept u w"
  then show "decode_json u s = Inr v"
    using reads_decoded(1) by (fastforce simp: json_text_def decode_json_def)
qed

lemma collapse_unique: "unique_keys w \<Longrightarrow> collapse w = w"
proof (induction w rule: unique_keys.induct)
  case (1 vs)
  then show ?case by (auto simp: list_all_iff intro: map_idI)
next
  case (2 ms)
  then have "fold (\<lambda>kv. AList.update (fst kv) (collapse (snd kv))) ms [] = entered True ms []"
    unfolding entered_def kept_def by (intro fold_cong) (auto simp: list_all_iff)
  moreover have "enterable True ms []" using 2 by (auto simp: enterable_def allowed_def list_all_iff)
  ultimately show ?case using entered_unique [of ms "[]"] by simp
qed auto

text \<open>The syntax is unambiguous: a text has at most one reading, duplicates included.\<close>

lemma scalar_functional:
  assumes "jvalue False d s = Inr (w, r)" "reads_value d s w' r'" "collapse w = w" "\<And>ms. w \<noteq> JObj ms" "\<And>vs. w \<noteq> JArr vs"
  shows "w = w' \<and> r = r'"
proof -
  have "jvalue False d s = Inr (collapse w', r')"
    using reads_decoded(1) [OF assms(2), of False] by (simp add: allowed_def kept_def)
  then have eq: "collapse w' = w" "r' = r" using assms(1) by simp_all
  then have "w' = w" using assms(4,5) by (cases w') auto
  with eq show ?thesis by simp
qed

inductive_cases reads_objectE: "reads_value d s (JObj ms) r"
inductive_cases reads_arrayE: "reads_value d s (JArr vs) r"
inductive_cases reads_valueE: "reads_value d s v r"
inductive_cases reads_membersE: "reads_members d s ms r"
inductive_cases reads_elementsE: "reads_elements d s vs r"

lemma reads_start:
  assumes "reads_value d s w r"
  shows "skip_space s = CHR ''{'' # t \<Longrightarrow> \<exists>ms. w = JObj ms" "skip_space s = CHR ''['' # t \<Longrightarrow> \<exists>vs. w = JArr vs"
  using assms by (auto elim!: reads_valueE simp: literals_def starts_number_def is_digit_def)

lemma members_ahead: "reads_members d (skip_space t) ms r \<Longrightarrow> \<exists>u. skip_space t = quote_char # u"
  using members_start [of d "skip_space t" ms r] by simp

lemma read_objectE:
  assumes "reads_value d s (JObj ms) r" "skip_space s = CHR ''{'' # t"
  obtains "skip_space t = CHR ''}'' # r" "ms = []"
    | u where "reads_members (Suc d) (skip_space t) ms r" "skip_space t = quote_char # u"
proof -
  have "skip_space t = CHR ''}'' # r \<and> ms = [] \<or> reads_members (Suc d) (skip_space t) ms r"
    using assms by (auto elim!: reads_objectE jnumber_InrE simp: literals_def)
  with that members_ahead [of "Suc d" t ms r] show thesis by metis
qed

lemma read_arrayE:
  assumes "reads_value d s (JArr vs) r" "skip_space s = CHR ''['' # t"
  obtains "skip_space t = CHR '']'' # r" "vs = []"
    | "reads_elements (Suc d) (skip_space t) vs r" "\<not> has_prefix '']'' (skip_space t)"
  using assms by (auto elim!: reads_arrayE jnumber_InrE simp: literals_def)

lemma reads_functional:
  "reads_value d s w r \<Longrightarrow> (\<And>w' r'. reads_value d s w' r' \<Longrightarrow> w = w' \<and> r = r')"
  "reads_members d s ms r \<Longrightarrow> (\<And>ms' r'. reads_members d s ms' r' \<Longrightarrow> ms = ms' \<and> r = r')"
  "reads_elements d s ws r \<Longrightarrow> (\<And>ws' r'. reads_elements d s ws' r' \<Longrightarrow> ws = ws' \<and> r = r')"
proof (induction rule: reads_value_reads_members_reads_elements.inducts)
  case (read_literal s lit r v d)
  from read_literal(1,2) have rd: "reads_value d s v r" by (rule reads_value_reads_members_reads_elements.read_literal)
  have "jvalue False d s = Inr (v, r)"
    using reads_decoded(1) [OF rd, of False] literal_kept [OF read_literal(2), of False] by simp
  from scalar_functional [OF this read_literal(3)] read_literal(2) show ?case by (auto simp: literals_def)
next
  case (read_number s v r d)
  from read_number(1,2) have rd: "reads_value d s v r" by (rule reads_value_reads_members_reads_elements.read_number)
  have "jvalue False d s = Inr (v, r)"
    using reads_decoded(1) [OF rd, of False] number_kept [OF read_number(2), of False] by simp
  moreover obtain n where "v = JNum n" using jnumber_InrE [OF read_number(2)] .
  ultimately show ?case using scalar_functional [OF _ read_number(3)] by simp
next
  case (read_string s t x r d)
  from read_string(1,2) have rd: "reads_value d s (JStr x) r" by (rule reads_value_reads_members_reads_elements.read_string)
  have "jvalue False d s = Inr (JStr x, r)"
    using reads_decoded(1) [OF rd, of False] by (simp add: kept_def allowed_def)
  from scalar_functional [OF this read_string(3)] show ?case by auto
next
  case (read_empty_object s t d r)
  obtain ms where w: "w' = JObj ms" using reads_start(1) [OF read_empty_object(4,1)] by blast
  from read_objectE [OF read_empty_object(4) [unfolded w] read_empty_object(1)] read_empty_object(3) w
  show ?case by (auto elim: members_ahead)
next
  case (read_object s t d ms r)
  obtain ms' where w: "w' = JObj ms'" using reads_start(1) [OF read_object(5,1)] by blast
  obtain u where u: "skip_space t = quote_char # u" using members_ahead [OF read_object(3)] by blast
  have "reads_members (Suc d) (skip_space t) ms' r'"
    by (rule read_objectE [OF read_object(5) [unfolded w] read_object(1)]) (use u in simp_all)
  from read_object.IH [OF this]
  show ?case by (auto simp: w)
next
  case (read_empty_array s t d r)
  obtain vs where w: "w' = JArr vs" using reads_start(2) [OF read_empty_array(4,1)] by blast
  from read_arrayE [OF read_empty_array(4) [unfolded w] read_empty_array(1)] read_empty_array(3) w
  show ?case by (auto simp: has_prefix_iff)
next
  case (read_array s t d vs r)
  obtain vs' where w: "w' = JArr vs'" using reads_start(2) [OF read_array(6,1)] by blast
  from read_arrayE [OF read_array(6) [unfolded w] read_array(1)] read_array(3) w read_array.IH
  show ?case by (auto simp: has_prefix_iff)
next
  case (read_last_member s t k t1 t2 d v t3 r)
  from read_last_member(7) show ?case
    by (rule reads_membersE) (use read_last_member(1-3,5) read_last_member.IH in fastforce)+
next
  case (read_member s t k t1 t2 d v t3 t4 ms r)
  from read_member(9) show ?case
    by (rule reads_membersE) (use read_member(1-3,5) read_member.IH in fastforce)+
next
  case (read_last_element d s v t r)
  from read_last_element(4) show ?case
    by (rule reads_elementsE) (use read_last_element(2) read_last_element.IH in fastforce)+
next
  case (read_element d s v t t1 vs r)
  from read_element(6) show ?case
    by (rule reads_elementsE) (use read_element(2) read_element.IH in fastforce)+
qed

lemma json_text_functional: "json_text s w \<Longrightarrow> json_text s w' \<Longrightarrow> w = w'"
  using reads_functional(1) by (auto simp: json_text_def)

end
