(* ===== verification/Json_Props.thy ===== *)
theory Json_Props
  imports Json_Grammar
begin

text \<open>
  The properties of the JSON codec of \<open>internal/jsonvalue\<close>, over the inversion rules and the mutual
  inductions of \<open>Json_Roundtrip\<close> and the reference syntax of \<open>Json_Grammar\<close>.
\<close>

section \<open>Totality of the encoder on plain values\<close>

lemma encode_string_total: "canonical_string s \<Longrightarrow> \<exists>t. encode_string s = Inr t"
  by (auto simp: canonical_string_def encode_string_def split: option.splits)

lemma encode_total:
  "d + jdepth v \<le> 512 \<Longrightarrow> jplain v \<Longrightarrow> \<exists>t. encode_value d v = Inr t"
  "list_all (jfits e) vs \<Longrightarrow> \<exists>ts. encode_elems e vs = Inr ts"
  "list_all (\<lambda>kv. canonical_string (fst kv) \<and> jfits f (snd kv)) m \<Longrightarrow> \<exists>ts. encode_members f m = Inr ts"
proof (induction d v and e vs and f m rule: encode_value_encode_elems_encode_members.induct)
  case (1 d v)
  then have fit: "jfits d v" and d: "\<not> 512 < d" by (simp_all add: jfits_def)
  show ?case
  proof (cases v)
    case (JArr vs)
    with fit have "list_all (jfits (Suc d)) vs" using jfits_containers(1) by blast
    with "1.IH"(1) [OF d JArr] show ?thesis
      by (auto simp: encode_value.simps d JArr result_simps)
  next
    case (JObj m)
    with fit have "list_all (\<lambda>kv. canonical_string (fst kv) \<and> jfits (Suc d) (snd kv)) (sort_key fst m)"
      using jfits_containers(2) [of d m] by (auto simp: list_all_iff)
    with "1.IH"(2) [OF d JObj] show ?thesis
      by (auto simp: encode_value.simps d JObj result_simps)
  next
    case (JStr s)
    with "1.prems"(2) show ?thesis
      using encode_string_total [of s] by (simp add: encode_value.simps d)
  qed (use "1.prems"(2) in \<open>auto simp: encode_value.simps d encode_number_def split: option.splits\<close>)
next
  case (3 e v vs)
  then show ?case by (auto simp: jfits_def result_simps add.commute)
next
  case (5 f kv m)
  then obtain k where "encode_string (fst kv) = Inr k" using encode_string_total [of "fst kv"] by auto
  with 5 show ?case by (auto simp: jfits_def result_simps add.commute)
qed simp_all

section \<open>Members in any order\<close>

lemma sort_key_perm:
  assumes "mset m = mset m'" and "distinct (keys m)"
  shows "sort_key fst m = sort_key fst m'"
proof -
  have "distinct (keys m) = distinct (keys m')"
    using assms(1) by (metis mset_eq_imp_distinct_iff mset_map)
  with assms have "inj_on fst (set m)" "set m = set m'" and d: "distinct (keys m')"
    by (auto simp: distinct_map dest: mset_eq_setD)
  then show ?thesis
    using assms(2) distinct_keys_sort [OF assms(2)] distinct_keys_sort [OF d]
    by (intro map_sorted_distinct_set_unique [of fst]) simp_all
qed

section \<open>Encoded text is printable ASCII\<close>

definition printable :: "char \<Rightarrow> bool" where
  "printable c \<longleftrightarrow> 32 \<le> ord c \<and> ord c < 127"

lemma digit_printable: "is_digit c \<Longrightarrow> printable c"
  by (simp add: is_digit_def printable_def)

lemma nat_str_printable [simp]: "list_all printable (nat_str n)"
  using nat_str_digits [of n] by (auto simp: list_all_iff digit_printable)

lemma int_str_printable [simp]: "list_all printable (int_str i)"
  by (simp add: int_str_nat printable_def)

lemma list_all_tl: "list_all P xs \<Longrightarrow> list_all P (tl xs)"
  by (cases xs) simp_all

lemma list_all_dropWhile: "list_all P xs \<Longrightarrow> list_all P (dropWhile Q xs)"
  by (auto simp: list_all_iff dest: set_dropWhileD)

lemma shortest_digits_printable: "list_all printable (fst (shortest_digits a))"
  by (auto simp: shortest_digits_def printable_def Let_def trim_left_def split: prod.splits
      intro!: list_all_dropWhile)

lemma list_all_take_drop: "list_all P xs \<Longrightarrow> list_all P (take n xs) \<and> list_all P (drop n xs)"
  by (auto simp: list_all_iff dest: in_set_takeD in_set_dropD)

lemma text_e_printable: "list_all printable ds \<Longrightarrow> list_all printable (text_e ds dp)"
  by (simp add: text_e_def exponent_text_def Let_def list_all_tl list_all_take_drop)
    (simp add: printable_def)

lemma text_f_printable: "list_all printable ds \<Longrightarrow> list_all printable (text_f ds dp)"
  by (auto simp: text_f_def list_all_take_drop printable_def list_all_iff dest: in_set_takeD in_set_dropD)

lemma FloatText_printable: "list_all printable (FloatText x)"
proof -
  have fmt: "list_all printable (format_with t x)"
    if "\<And>ds dp. list_all printable ds \<Longrightarrow> list_all printable (t ds dp)" for t
    using that that [of "''0''" 1] shortest_digits_printable
    by (auto simp: format_with_def printable_def Let_def split: f64.split prod.split)
       (metis fst_conv)+
  then show ?thesis
    by (auto simp: FloatText_def Let_def format_e_def format_f_def text_e_printable text_f_printable
        printable_def split: prod.split option.split)
qed

lemma escape_rune_printable: "list_all printable (escape_rune r)"
proof -
  have "printable (hex_char n)" if "n < 16" for n
    using that by (auto simp: hex_char_def printable_def of_char_of)
  then have "list_all printable (escape_unit n)" for n
    by (simp add: escape_unit_def hex4_def) (simp add: printable_def)
  then show ?thesis
    by (auto simp: escape_rune_def) (simp_all add: printable_def of_char_of)
qed

lemma join_printable: "\<forall>t \<in> set ts. list_all printable t \<Longrightarrow> list_all printable (join '', '' ts)"
  by (induction ts) (auto simp: join_Cons printable_def)

lemma encode_string_printable: "encode_string s = Inr t \<Longrightarrow> list_all printable t"
  using escape_rune_printable
  by (auto simp: encode_string_def list_all_iff printable_def split: option.splits)

lemma encode_printable_all:
  "\<And>t. encode_value d v = Inr t \<Longrightarrow> list_all printable t"
  "\<And>ts. encode_elems e vs = Inr ts \<Longrightarrow> \<forall>t \<in> set ts. list_all printable t"
  "\<And>ts. encode_members f m = Inr ts \<Longrightarrow> \<forall>t \<in> set ts. list_all printable t"
proof (induction d v and e vs and f m rule: encode_value_encode_elems_encode_members.induct)
  case (1 d v)
  then have d: "\<not> 512 < d" by (auto simp: encode_value.simps)
  have punct: "printable CHR ''{''" "printable CHR ''}''" "printable CHR ''[''" "printable CHR '']''"
    by (simp_all add: printable_def)
  show ?case
  proof (cases v)
    case (JArr vs)
    with "1.prems" "1.IH"(1) [OF d JArr] punct show ?thesis
      by (auto simp: encode_value.simps d result_simps join_printable)
  next
    case (JObj m)
    with "1.prems" "1.IH"(2) [OF d JObj] punct show ?thesis
      by (auto simp: encode_value.simps d result_simps join_printable)
  next
    case (JNum n)
    with "1.prems" FloatText_printable show ?thesis
      by (auto simp: encode_value.simps d encode_number_def split: if_splits option.splits)
  next
    case (JFloat x)
    with "1.prems" FloatText_printable show ?thesis
      by (auto simp: encode_value.simps d split: if_splits)
  qed (use "1.prems" in \<open>auto simp: encode_value.simps d encode_string_printable,
       auto simp: printable_def split: if_splits\<close>)
next
  case (3 e v vs)
  then show ?case by (auto simp: result_simps)
next
  case (5 f kv m)
  then show ?case
    by (auto simp: result_simps encode_string_printable) (simp_all add: printable_def)
qed simp_all

section \<open>Properties\<close>

lemma short_integer_small: "\<bar>i\<bar> < 10 ^ 9 \<Longrightarrow> short_integer i"
  using length_nat_str [of "nat \<bar>i\<bar>" 9] by (auto simp: short_integer_def zless_nat_conj nat_less_iff)

text \<open>C1: A plain value (integers, strings of whole runes, unique keys, nesting at most 512) is always
  encoded, and decoding the text gives the same value back with keys sorted and integers in
  canonical spelling; the strict decoder agrees.\<close>

theorem json_roundtrip:
  assumes "jplain v" and "jdepth v \<le> 512"
  shows "\<exists>t. EncodePython v = Inr t \<and> Decode t = Inr (jnorm v) \<and> DecodeUnique t = Inr (jnorm v)"
proof -
  obtain t where t: "EncodePython v = Inr t"
    using encode_total(1) [of 0 v] assms by (auto simp: EncodePython_def)
  have "jvalue u 0 (t @ []) = Inr (jnorm v, [])" for u
    using encode_decode(1) [of 0 v t "[]" u] t assms by (simp add: EncodePython_def jfits_def ends_number_def)
  then have "decode_json u t = Inr (jnorm v)" for u
    by (simp add: decode_json_def skip_space_def)
  with t show ?thesis by (simp add: Decode_def DecodeUnique_def)
qed

lemma json_roundtrip_witness:
  "\<exists>t. EncodePython (JObj [(''b'', JArr [JInt 7, JNull]), (''a'', JNum ''-05'')]) = Inr t
     \<and> Decode t = Inr (jnorm (JObj [(''b'', JArr [JInt 7, JNull]), (''a'', JNum ''-05'')]))
     \<and> DecodeUnique t = Inr (jnorm (JObj [(''b'', JArr [JInt 7, JNull]), (''a'', JNum ''-05'')]))"
proof (rule json_roundtrip)
  have "canonical_string ''a''" "canonical_string ''b''"
    by (simp_all add: canonical_string_def canon_runes.simps decode_rune_def rune_error_def)
  moreover have "parse_int ''-05'' = Some (- 5)"
    by (simp add: parse_int_def sign_split_def digits_val_def is_digit_def digit_val_def)
  ultimately show "jplain (JObj [(''b'', JArr [JInt 7, JNull]), (''a'', JNum ''-05'')])"
    by (simp add: short_integer_small contains_any_def)
qed simp

text \<open>C32: Every value the decoder accepts has distinct keys in every object and nests at most 512
  containers, whatever the input bytes are.\<close>

theorem decode_shaped:
  assumes "Decode s = Inr v \<or> DecodeUnique s = Inr v"
  shows "jwf v \<and> jdepth v \<le> 512"
proof -
  from assms obtain u r where "jvalue u 0 s = Inr (v, r)"
    by (auto simp: Decode_def DecodeUnique_def decode_json_def result_simps split: if_splits)
  then show ?thesis using jparse_shaped(1) [of u 0 s v r] by (simp add: shaped_def)
qed

lemma decode_shaped_witness:
  "jwf (JObj [(''a'', JArr [JNum ''1'', JBool True])]) \<and> jdepth (JObj [(''a'', JArr [JNum ''1'', JBool True])]) \<le> 512"
  by (rule decode_shaped [of "''{'' @ [quote_char] @ ''a'' @ [quote_char] @ '': [1, true]}''"]) code_simp

text \<open>C34: Both decoders read the JSON syntax of \<open>Json_Grammar\<close>, which keeps repeated members, and nothing
  else.  \<open>Decode\<close> succeeds on exactly its texts, and the last value of a repeated key wins.  \<open>DecodeUnique\<close>
  succeeds on exactly those in which no object, at any depth, repeats a key, and gives what \<open>Decode\<close> gives.\<close>

theorem decode_unique_refines:
  "(Decode s = Inr v \<longleftrightarrow> (\<exists>w. json_text s w \<and> v = collapse w)) \<and>
   (DecodeUnique s = Inr v \<longleftrightarrow> Decode s = Inr v \<and> json_text s v \<and> unique_keys v)"
  using decode_json_iff [of False s v] decode_json_iff [of True s v] collapse_unique [of v]
  by (auto simp: Decode_def DecodeUnique_def allowed_def kept_def)

text \<open>For instance, a repeated key is refused by \<open>DecodeUnique\<close> alone.\<close>

lemma repeated_key:
  "Decode (''{'' @ [quote_char] @ ''a'' @ [quote_char] @ '':1,'' @ [quote_char] @ ''a'' @ [quote_char] @ '':2}'') =
     Inr (JObj [(''a'', JNum ''2'')])"
  "DecodeUnique (''{'' @ [quote_char] @ ''a'' @ [quote_char] @ '':1,'' @ [quote_char] @ ''a'' @ [quote_char] @ '':2}'') =
     Inl SyntaxError"
  by code_simp+

text \<open>C33: The text the encoder produces is printable ASCII, so one encoded value is one line of a
  JSON Lines ledger.\<close>

theorem encode_printable:
  "EncodePython v = Inr t \<Longrightarrow> \<forall>c \<in> set t. 32 \<le> ord c \<and> ord c < 127"
  using encode_printable_all(1) [of 0 v t] by (simp add: EncodePython_def list_all_iff printable_def)

lemma encode_printable_witness: "list_all (\<lambda>c. 32 \<le> ord c \<and> ord c < 127) ''[null, true]''"
proof -
  have "EncodePython (JArr [JNull, JBool True]) = Inr ''[null, true]''" by code_simp
  from encode_printable [OF this] show ?thesis by (simp only: list_all_iff)
qed

text \<open>The encoded text of an object depends on its members only, not on their order: objects with
  the same unique members encode to the same bytes, which is what makes hashes of them comparable.\<close>

theorem encode_key_order:
  assumes "mset m = mset m'" and "distinct (keys m)"
  shows "EncodePython (JObj m) = EncodePython (JObj m')"
  using sort_key_perm [OF assms] by (simp add: EncodePython_def encode_value.simps)

lemma encode_key_order_witness:
  "EncodePython (JObj [(''b'', JNull), (''a'', JInt 1)]) = EncodePython (JObj [(''a'', JInt 1), (''b'', JNull)])"
  by (rule encode_key_order) simp_all

end
