(* ===== verification/Usage.thy ===== *)
theory Usage
  imports Json_Value Json_Numbers
begin

text \<open>
  Usage accounting of native event streams (\<open>internal/usage\<close>): Python equality of decoded values
  (\<open>equality.go\<close>), admission of counters and costs (\<open>numbers.go\<close>), the codex, claude and opencode
  normalisers (\<open>normalize.go\<close>, \<open>opencode.go\<close>), the stream splitter (\<open>stream.go\<close>) and the answer
  selection (\<open>response.go\<close>).  A counter map is an association list over the admitted keys, and
  \<open>None\<close> is the nil map.  A reader is \<open>None\<close> when it fails and the bytes it gives otherwise.  The
  context is not cancelled during a run.  The decoder of \<open>encoding/json\<close> that only \<open>Normalize\<close> uses
  is not modelled: \<open>normalizeEvents\<close> starts from the decoded events.
\<close>

section \<open>Numbers\<close>

definition integerSyntax :: "string \<Rightarrow> bool" where
  "integerSyntax n \<longleftrightarrow> n \<noteq> ''NaN'' \<and> n \<noteq> ''Infinity'' \<and> n \<noteq> ''-Infinity'' \<and> \<not> contains_any n ''.eE''"

definition integer :: "string \<Rightarrow> int option" where
  "integer n =
     (if \<not> integerSyntax n \<or> length (trim_prefix ''-'' n) > 309 then None else parse_int n)"

type_synonym counters = "(string \<times> int) list"

definition object :: "jval \<Rightarrow> (string \<times> jval) list option" where
  "object v = (case v of JObj m \<Rightarrow> Some m | _ \<Rightarrow> None)"

definition text_of :: "jval \<Rightarrow> string" where
  "text_of v = (case v of JStr s \<Rightarrow> s | _ \<Rightarrow> [])"

text \<open>Reading a field of a map that may be nil.\<close>

definition field :: "(string \<times> jval) list option \<Rightarrow> string \<Rightarrow> jval" where
  "field m k = (case m of None \<Rightarrow> JNull | Some fs \<Rightarrow> jat fs k)"

definition counter :: "jval \<Rightarrow> int option" where
  "counter v = (case v of
       JNum n \<Rightarrow> (case integer n of
           None \<Rightarrow> None
         | Some i \<Rightarrow> if i < 0 \<or> \<not> f64_finite (f64_of_int i) then None else Some i)
     | _ \<Rightarrow> None)"

fun count_fields :: "(string \<times> jval) list \<Rightarrow> string list \<Rightarrow> counters \<Rightarrow> counters option" where
  "count_fields fields [] acc = Some acc"
| "count_fields fields (k # ks) acc =
     (case counter (jat fields k) of
        None \<Rightarrow> None
      | Some i \<Rightarrow> count_fields fields ks (AList.update k i acc))"

definition tokens :: "jval \<Rightarrow> string list \<Rightarrow> string list \<Rightarrow> counters option" where
  "tokens v required optional =
     (case object v of
        None \<Rightarrow> None
      | Some fields \<Rightarrow>
          count_fields fields (required @ filter (\<lambda>k. k \<in> set (keys fields)) optional) [])"

definition floatNumber :: "f64 \<Rightarrow> string" where
  "floatNumber x = format_g x"

definition finiteNumber :: "jval \<Rightarrow> (string \<times> f64) option" where
  "finiteNumber v = (case v of
       JNum n \<Rightarrow>
         if integerSyntax n
         then (case integer n of
             None \<Rightarrow> None
           | Some i \<Rightarrow>
               if i < 0 then None
               else if f64_finite (f64_of_int i) then Some (int_str i, f64_of_int i) else None)
         else (case parse_float n of
             None \<Rightarrow> None
           | Some (x, overflow) \<Rightarrow>
               if overflow \<or> \<not> f64_finite x \<or> f64_less x f64_zero then None
               else Some (floatNumber x, x))
     | _ \<Rightarrow> None)"

section \<open>Equality\<close>

definition equalityNumber :: "jval \<Rightarrow> string option" where
  "equalityNumber v = (case v of
       JNum n \<Rightarrow> Some n | JBool b \<Rightarrow> Some (if b then ''1'' else ''0'') | _ \<Rightarrow> None)"

definition zero_sign :: "string \<Rightarrow> string" where
  "zero_sign n = (if n = ''-0'' then ''0'' else n)"

definition mixed_equal :: "string \<Rightarrow> string \<Rightarrow> bool" where
  "mixed_equal whole fraction =
     (case (integer whole, parse_float fraction) of
        (Some i, Some (x, overflow)) \<Rightarrow> \<not> overflow \<and> f64_finite x \<and> of_int i = f64_val x
      | _ \<Rightarrow> False)"

definition equalNumber :: "string \<Rightarrow> string \<Rightarrow> bool" where
  "equalNumber a b =
     (if a = ''NaN'' \<and> b = ''NaN'' then True
      else if integerSyntax a \<and> integerSyntax b then zero_sign a = zero_sign b
      else if \<not> integerSyntax a \<and> \<not> integerSyntax b
      then (case (parse_float a, parse_float b) of
          (Some (x, _), Some (y, _)) \<Rightarrow> f64_eq x y
        | _ \<Rightarrow> False)
      else if integerSyntax a then mixed_equal a b
      else mixed_equal b a)"

function equalValue :: "jval \<Rightarrow> jval \<Rightarrow> bool" where
  "equalValue a b =
     (case equalityNumber a of
        Some x \<Rightarrow> (case equalityNumber b of Some y \<Rightarrow> equalNumber x y | None \<Rightarrow> False)
      | None \<Rightarrow>
          (case a of
             JNull \<Rightarrow> b = JNull
           | JStr s \<Rightarrow> b = JStr s
           | JArr xs \<Rightarrow> (case b of
                 JArr ys \<Rightarrow> length xs = length ys \<and> (\<forall>p \<in> set (zip xs ys). equalValue (fst p) (snd p))
               | _ \<Rightarrow> False)
           | JObj m \<Rightarrow> (case b of
                 JObj m' \<Rightarrow> length m = length m' \<and>
                   (\<forall>kv \<in> set m. case map_of m' (fst kv) of
                      None \<Rightarrow> False | Some w \<Rightarrow> equalValue (snd kv) w)
               | _ \<Rightarrow> False)
           | _ \<Rightarrow> False))"
  by pat_completeness auto
termination
proof (relation "measure (size \<circ> fst)", goal_cases)
  case (2 a b xs ys p)
  then have "fst p \<in> set xs" by (cases p) (auto dest: set_zip_leftD)
  then have "size (fst p) < size (JArr xs)" by (auto dest: size_list_estimation' [of _ _ _ size])
  with 2 show ?case by simp
next
  case (3 a b m m' kv w)
  then have "size (snd kv) < size (JObj m)"
    by (cases kv) (auto dest!: size_list_estimation' [of _ _ "size_prod (\<lambda>_. 0) size (fst kv, snd kv)" "size_prod (\<lambda>_. 0) size"])
  with 3 show ?case by simp
qed simp

declare equalValue.simps [simp del]

definition equalTokens :: "counters option \<Rightarrow> counters option \<Rightarrow> bool" where
  "equalTokens a b = (case (a, b) of
       (None, None) \<Rightarrow> True
     | (Some m, Some m') \<Rightarrow> length m = length m' \<and> list_all (\<lambda>kv. map_of m' (fst kv) = Some (snd kv)) m
     | _ \<Rightarrow> False)"

section \<open>Normalisers\<close>

record Metadata =
  Tokens :: "counters option"
  EstimatedUSD :: "string option"
  Complete :: bool
  Failed :: bool
  Source :: string

definition Supported :: "string \<Rightarrow> bool" where
  "Supported h \<longleftrightarrow> h = ''codex'' \<or> h = ''claude'' \<or> h = ''opencode''"

definition codex_source :: string where
  "codex_source = ''codex.turn.completed.usage; cost unavailable''"

definition claude_source :: string where
  "claude_source = ''claude.result.usage (main agent); total_cost_usd (client estimate)''"

definition opencode_source :: string where
  "opencode_source = ''opencode.step_finish.part (deduplicated incremental client estimate)''"

text \<open>The scan the codex and claude loops share: failure event types, the type whose last row is
  kept.  The result is (failed, malformed, final row).\<close>

type_synonym scan = "bool \<times> bool \<times> (string \<times> jval) list option"

definition scan_event :: "string list \<Rightarrow> string \<Rightarrow> jval \<Rightarrow> scan \<Rightarrow> scan" where
  "scan_event failures kept event = (\<lambda>(failed, malformed, final).
     case object event of
       None \<Rightarrow> (failed, True, final)
     | Some row \<Rightarrow>
         if text_of (jat row ''type'') \<in> set failures then (True, malformed, final)
         else if text_of (jat row ''type'') = kept then (failed, malformed, Some row)
         else (failed, malformed, final))"

definition codex :: "jval list \<Rightarrow> Metadata" where
  "codex events =
     (let (failed, malformed, final) =
        fold (scan_event [''turn.failed'', ''error''] ''turn.completed'') events (False, False, None)
      in case final of
          None \<Rightarrow> \<lparr>Tokens = None, EstimatedUSD = None, Complete = False, Failed = failed, Source = codex_source\<rparr>
        | Some row \<Rightarrow>
            let ts = tokens (jat row ''usage'')
                  [''input_tokens'', ''cached_input_tokens'', ''output_tokens''] [''reasoning_output_tokens'']
            in \<lparr>Tokens = ts, EstimatedUSD = None, Complete = ts \<noteq> None \<and> \<not> failed \<and> \<not> malformed,
                Failed = failed, Source = codex_source\<rparr>)"

definition claude :: "jval list \<Rightarrow> Metadata" where
  "claude events =
     (let (failed, malformed, final) = fold (scan_event [''error''] ''result'') events (False, False, None)
      in case final of
          None \<Rightarrow> \<lparr>Tokens = None, EstimatedUSD = None, Complete = False, Failed = failed, Source = claude_source\<rparr>
        | Some row \<Rightarrow>
            let subtype = text_of (jat row ''subtype'');
                isError = (jat row ''is_error'' = JBool True);
                ts = tokens (jat row ''usage'')
                  [''input_tokens'', ''output_tokens'', ''cache_creation_input_tokens'', ''cache_read_input_tokens''] [];
                usd = (case finiteNumber (jat row ''total_cost_usd'') of
                    None \<Rightarrow> None
                  | Some (cost, _) \<Rightarrow>
                      if subtype \<noteq> ''error_during_execution'' \<and> \<not> malformed then Some cost else None)
            in \<lparr>Tokens = ts, EstimatedUSD = usd, Complete = ts \<noteq> None \<and> usd \<noteq> None,
                Failed = failed \<or> subtype \<noteq> ''success'' \<or> isError, Source = claude_source\<rparr>)"

section \<open>opencode: deduplicated step totals\<close>

type_synonym identity = "string \<times> string \<times> string"

record stepSignature =
  sig_tokens :: "counters option"
  sig_cache :: "counters option"
  sig_cost :: jval
  sig_reason :: jval

record totals =
  input_tokens :: int
  output_tokens :: int
  reasoning_output_tokens :: int
  cache_read_input_tokens :: int
  cache_creation_input_tokens :: int

record opencode_state =
  oc_failed :: bool
  oc_valid :: bool
  oc_seen :: "(identity \<times> stepSignature) list"
  oc_totals :: totals
  oc_cost :: f64
  oc_reason :: jval

definition opencode_init :: opencode_state where
  "opencode_init = \<lparr>oc_failed = False, oc_valid = True, oc_seen = [],
     oc_totals = \<lparr>input_tokens = 0, output_tokens = 0, reasoning_output_tokens = 0,
       cache_read_input_tokens = 0, cache_creation_input_tokens = 0\<rparr>,
     oc_cost = f64_zero, oc_reason = JNull\<rparr>"

definition step_signature :: "(string \<times> jval) list \<Rightarrow> stepSignature" where
  "step_signature part =
     (let values = object (jat part ''tokens'')
      in \<lparr>sig_tokens = (case values of None \<Rightarrow> None
            | Some fs \<Rightarrow> tokens (JObj fs) [''input'', ''output'', ''reasoning''] [''total'']),
          sig_cache = tokens (field values ''cache'') [''read'', ''write''] [],
          sig_cost = jat part ''cost'', sig_reason = jat part ''reason''\<rparr>)"

definition equalSignature :: "stepSignature \<Rightarrow> stepSignature \<Rightarrow> bool" where
  "equalSignature p s \<longleftrightarrow> equalTokens (sig_tokens p) (sig_tokens s) \<and> equalTokens (sig_cache p) (sig_cache s) \<and>
     equalValue (sig_cost p) (sig_cost s) \<and> equalValue (sig_reason p) (sig_reason s)"

definition count_of :: "counters \<Rightarrow> string \<Rightarrow> int" where
  "count_of m k = (case map_of m k of Some i \<Rightarrow> i | None \<Rightarrow> 0)"

definition add_totals :: "counters \<Rightarrow> counters \<Rightarrow> totals \<Rightarrow> totals" where
  "add_totals ts cache t =
     \<lparr>input_tokens = input_tokens t + count_of ts ''input'',
      output_tokens = output_tokens t + count_of ts ''output'',
      reasoning_output_tokens = reasoning_output_tokens t + count_of ts ''reasoning'',
      cache_read_input_tokens = cache_read_input_tokens t + count_of cache ''read'',
      cache_creation_input_tokens = cache_creation_input_tokens t + count_of cache ''write''\<rparr>"

definition opencode_finish :: "(string \<times> jval) list option \<Rightarrow> opencode_state \<Rightarrow> opencode_state" where
  "opencode_finish part st =
     (let identity = (text_of (field part ''sessionID''), text_of (field part ''messageID''),
                      text_of (field part ''id''))
      in case part of
          None \<Rightarrow> st\<lparr>oc_valid := False\<rparr>
        | Some fs \<Rightarrow>
            if fst identity = [] \<or> fst (snd identity) = [] \<or> snd (snd identity) = []
            then st\<lparr>oc_valid := False\<rparr>
            else let signature = step_signature fs
              in case map_of (oc_seen st) identity of
                  Some previous \<Rightarrow>
                    (if equalSignature previous signature then st else st\<lparr>oc_valid := False\<rparr>)
                | None \<Rightarrow>
                    let st' = st\<lparr>oc_seen := oc_seen st @ [(identity, signature)],
                                 oc_reason := sig_reason signature\<rparr>
                    in (case (sig_tokens signature, sig_cache signature, finiteNumber (sig_cost signature)) of
                          (Some ts, Some cache, Some (_, cost)) \<Rightarrow>
                            st'\<lparr>oc_totals := add_totals ts cache (oc_totals st'),
                                oc_cost := f64_add (oc_cost st') cost\<rparr>
                        | _ \<Rightarrow> st'\<lparr>oc_valid := False\<rparr>))"

definition opencode_event :: "jval \<Rightarrow> opencode_state \<Rightarrow> opencode_state" where
  "opencode_event event st =
     (case object event of
        None \<Rightarrow> st\<lparr>oc_valid := False\<rparr>
      | Some row \<Rightarrow>
          let kind = text_of (jat row ''type'')
          in if kind = ''error'' \<or> kind = ''session.error'' then st\<lparr>oc_failed := True\<rparr>
             else if kind \<noteq> ''step_finish'' then st
             else opencode_finish (object (jat row ''part'')) st)"

definition totals_map :: "totals \<Rightarrow> counters" where
  "totals_map t =
     [(''input_tokens'', input_tokens t), (''output_tokens'', output_tokens t),
      (''reasoning_output_tokens'', reasoning_output_tokens t),
      (''cache_read_input_tokens'', cache_read_input_tokens t),
      (''cache_creation_input_tokens'', cache_creation_input_tokens t)]"

definition opencode :: "jval list \<Rightarrow> Metadata" where
  "opencode events =
     (let st = fold opencode_event events opencode_init
      in if oc_seen st \<noteq> [] \<and> oc_valid st \<and> \<not> oc_failed st \<and> text_of (oc_reason st) = ''stop'' \<and>
            f64_finite (oc_cost st)
         then \<lparr>Tokens = Some (totals_map (oc_totals st)), EstimatedUSD = Some (floatNumber (oc_cost st)),
               Complete = True, Failed = False, Source = opencode_source\<rparr>
         else \<lparr>Tokens = None, EstimatedUSD = None, Complete = False, Failed = oc_failed st,
               Source = opencode_source\<rparr>)"

definition normalizeEvents :: "string \<Rightarrow> jval list \<Rightarrow> Metadata" where
  "normalizeEvents harness events =
     (if harness = ''codex'' then codex events
      else if harness = ''claude'' then claude events
      else if harness = ''opencode'' then opencode events
      else \<lparr>Tokens = None, EstimatedUSD = None, Complete = False, Failed = False, Source = []\<rparr>)"

section \<open>Streams\<close>

datatype usage_error = UnsupportedHarness | InvalidStream | InvalidResponse

definition pythonLineBreak :: "nat \<Rightarrow> bool" where
  "pythonLineBreak r \<longleftrightarrow> r \<in> {10, 13, 11, 12, 28, 29, 30, 133, 8232, 8233}"

text \<open>Python's \<open>splitlines\<close> on the runes of the data; a carriage return eats the newline after it.
  The last line is dropped when empty, as \<open>start < len(data)\<close> does.\<close>

fun split_lines :: "(nat \<times> string) list \<Rightarrow> string \<Rightarrow> string list" where
  "split_lines [] line = (if line = [] then [] else [line])"
| "split_lines (p # ps) line =
     (if \<not> pythonLineBreak (fst p) then split_lines ps (line @ snd p)
      else line # (case ps of
          q # qs \<Rightarrow> if fst p = 13 \<and> fst q = 10 then split_lines qs [] else split_lines ps []
        | [] \<Rightarrow> []))"

definition blank_line :: "string \<Rightarrow> bool" where
  "blank_line line \<longleftrightarrow> trim_runes python_space line = []"

fun line_events :: "string list \<Rightarrow> json_error + jval list" where
  "line_events [] = Inr []"
| "line_events (l # ls) =
     (if blank_line l then line_events ls
      else case Decode l of
          Inl DepthError \<Rightarrow> Inl DepthError
        | Inl SyntaxError \<Rightarrow> bindE (line_events ls) (\<lambda>vs. Inr (JNull # vs))
        | Inr v \<Rightarrow> bindE (line_events ls) (\<lambda>vs. Inr (v # vs)))"

definition streamEvents :: "string \<Rightarrow> json_error + jval list" where
  "streamEvents data =
     (if \<not> utf8_valid data then Inr [JNull]
      else case Decode data of
          Inr whole \<Rightarrow> Inr (if object whole \<noteq> None then [whole] else [JNull])
        | Inl DepthError \<Rightarrow> Inl DepthError
        | Inl SyntaxError \<Rightarrow>
            bindE (line_events (split_lines (runes data) []))
              (\<lambda>events. Inr (if events = [] then [JNull] else events)))"

definition readStreamEvents :: "string option \<Rightarrow> usage_error + jval list" where
  "readStreamEvents input =
     (case input of
        None \<Rightarrow> Inl InvalidStream
      | Some data \<Rightarrow>
          if length data > 16 * 2 ^ 20 then Inl InvalidStream
          else mapErr (\<lambda>_. InvalidStream) (streamEvents data))"

definition Parse :: "string \<Rightarrow> string option \<Rightarrow> usage_error + Metadata" where
  "Parse harness input =
     (if \<not> Supported harness then Inl UnsupportedHarness
      else bindE (readStreamEvents input) (\<lambda>events. Inr (normalizeEvents harness events)))"

section \<open>The answer text\<close>

record response_state =
  rs_answer :: string
  rs_parts :: "string list"
  rs_seen :: "identity list"

definition string_of :: "jval \<Rightarrow> string option" where
  "string_of v = (case v of JStr s \<Rightarrow> Some s | _ \<Rightarrow> None)"

definition part_identity :: "(string \<times> jval) list option \<Rightarrow> identity option" where
  "part_identity part =
     (case (string_of (field part ''sessionID''), string_of (field part ''messageID''),
            string_of (field part ''id'')) of
        (Some s, Some m, Some i) \<Rightarrow> Some (s, m, i) | _ \<Rightarrow> None)"

definition response_event :: "string \<Rightarrow> jval \<Rightarrow> response_state \<Rightarrow> response_state" where
  "response_event harness event st =
     (case object event of
        None \<Rightarrow> st
      | Some row \<Rightarrow>
          if harness = ''codex'' then
            (let item = object (jat row ''item'')
             in if jat row ''type'' = JStr ''item.completed'' \<and> field item ''type'' = JStr ''agent_message''
                then (case string_of (field item ''text'') of
                        Some value \<Rightarrow> st\<lparr>rs_answer := value\<rparr> | None \<Rightarrow> st)
                else st)
          else if harness = ''claude'' then
            (if jat row ''type'' = JStr ''result'' \<and> jat row ''subtype'' = JStr ''success'' \<and>
                jat row ''is_error'' \<noteq> JBool True
             then (case string_of (jat row ''result'') of
                     Some value \<Rightarrow> st\<lparr>rs_answer := value\<rparr> | None \<Rightarrow> st)
             else st)
          else if harness = ''opencode'' then
            (if jat row ''type'' \<noteq> JStr ''text'' then st
             else let part = object (jat row ''part'')
               in case string_of (field part ''text'') of
                   None \<Rightarrow> st
                 | Some value \<Rightarrow>
                     (case part_identity part of
                        None \<Rightarrow> st
                      | Some ident \<Rightarrow>
                          if ident \<in> set (rs_seen st) then st
                          else st\<lparr>rs_seen := ident # rs_seen st, rs_parts := rs_parts st @ [value]\<rparr>))
          else st)"

definition Response :: "string \<Rightarrow> string option \<Rightarrow> usage_error + string" where
  "Response harness input =
     (if \<not> Supported harness then Inl UnsupportedHarness
      else bindE (readStreamEvents input) (\<lambda>events.
        let st = fold (response_event harness) events \<lparr>rs_answer = [], rs_parts = [], rs_seen = []\<rparr>;
            answer = (if harness = ''opencode'' then join [chr 10] (rs_parts st) else rs_answer st)
        in if utf8_valid answer then Inr answer else Inl InvalidResponse))"


end
