(* ===== verification/Usage_Props.thy ===== *)
theory Usage_Props
  imports Usage Json_Roundtrip
begin

text \<open>
  Correctness of the usage accounting: Python equality is reflexive and symmetric on decoded
  values, admitted counters are non-negative, opencode totals are the sums over distinct steps and
  do not change when an event is delivered again.
\<close>

section \<open>Number texts parse\<close>

lemma parse_exponent_ok:
  assumes "c = CHR ''e'' \<or> c = CHR ''E''" and "json_exponent_ok (c # t)"
  shows "\<exists>e. parse_exponent t = Some e"
proof (cases t)
  case Nil
  with assms(2) show ?thesis by (simp add: json_exponent_ok_def)
next
  case (Cons d u)
  with assms(2) have "(if d = CHR ''+'' \<or> d = CHR ''-'' then u else t) \<noteq> [] \<and>
      list_all is_digit (if d = CHR ''+'' \<or> d = CHR ''-'' then u else t)"
    by (auto simp: json_exponent_ok_def Let_def split: if_splits)
  with Cons show ?thesis
    by (cases "d = CHR ''-''"; cases "d = CHR ''+''") (simp_all add: parse_exponent_def sign_split_def)
qed

lemma parse_unsigned_ok:
  assumes "takeWhile is_digit u \<noteq> []" and "json_fraction_ok (dropWhile is_digit u)"
  shows "\<exists>q. parse_unsigned u = Some q"
proof (cases "dropWhile is_digit u")
  case Nil
  show ?thesis using assms(1) by (unfold parse_unsigned_def Let_def Nil) simp
next
  case (Cons c t)
  note d = Cons
  show ?thesis
  proof (cases "c = CHR ''.''")
    case False
    with assms(2) d have "json_exponent_ok (c # t)" "c = CHR ''e'' \<or> c = CHR ''E''"
      by (auto simp: json_fraction_ok_def json_exponent_ok_def)
    with parse_exponent_ok obtain e where "parse_exponent t = Some e" by blast
    with assms(1) False \<open>c = _ \<or> _\<close> show ?thesis
      by (unfold parse_unsigned_def Let_def d) auto
  next
    case True
    with assms(2) d have ok: "json_exponent_ok (dropWhile is_digit t)" by (simp add: json_fraction_ok_def)
    show ?thesis
    proof (cases "dropWhile is_digit t")
      case Nil
      show ?thesis using assms(1) True by (unfold parse_unsigned_def Let_def d) (simp, unfold Nil, simp)
    next
      case (Cons c' t')
      with ok have "c' = CHR ''e'' \<or> c' = CHR ''E''" by (simp add: json_exponent_ok_def)
      with ok Cons obtain e where "parse_exponent t' = Some e" using parse_exponent_ok by fastforce
      with assms(1) True Cons \<open>c' = _ \<or> _\<close> show ?thesis
        by (unfold parse_unsigned_def Let_def d) auto
    qed
  qed
qed

lemma f64_neg_NaN: "f64_neg x = F_NaN \<longleftrightarrow> x = F_NaN"
  by (cases x) (simp_all)

lemma json_number_parses:
  assumes "json_number_ok n"
  shows "\<exists>x r. parse_float n = Some (x, r) \<and> x \<noteq> F_NaN"
proof -
  let ?u = "trim_prefix ''-'' n"
  have u: "takeWhile is_digit ?u \<noteq> []" "json_fraction_ok (dropWhile is_digit ?u)"
    using assms by (simp_all add: json_number_ok_def Let_def)
  obtain q where q: "parse_unsigned ?u = Some q" using parse_unsigned_ok [OF u] by blast
  obtain c t where c: "?u = c # t" "is_digit c"
    using u(1) by (cases ?u) (auto split: if_splits)
  have n: "n = c # t \<or> n = CHR ''-'' # c # t"
    using c(1) by (cases n) (auto simp: trim_prefix_def split: if_splits)
  have sign: "sign_split n = (n \<noteq> c # t, c # t)"
    using n c(2) by (auto simp: sign_split_def is_digit_def)
  have low: "c \<noteq> CHR ''i''" "c \<noteq> CHR ''n''" "\<not> (65 \<le> ord c \<and> ord c \<le> 90)"
    using c(2) by (auto simp: is_digit_def)
  show ?thesis
    using n q low round64_not_NaN
    by (auto simp: parse_float_def sign Let_def c(1) f64_neg_NaN)
qed

lemma parse_infinity:
  "parse_float ''Infinity'' = Some (F_Inf False, False)" "parse_float ''-Infinity'' = Some (F_Inf True, False)"
  by code_simp+

lemma number_spelling_parses:
  assumes "number_spelling n" and "n \<noteq> ''NaN''"
  shows "\<exists>x r. parse_float n = Some (x, r) \<and> x \<noteq> F_NaN"
proof (cases "json_number_ok n")
  case False
  with assms show ?thesis by (auto simp: number_spelling_def parse_infinity)
qed (rule json_number_parses)

lemma f64_eq_refl': "x \<noteq> F_NaN \<Longrightarrow> f64_eq x x"
  by (cases x) (auto simp: f64_eq_def)

section \<open>Python equality\<close>

lemma equalNumber_refl: "number_spelling n \<Longrightarrow> equalNumber n n"
  using number_spelling_parses [of n] f64_eq_refl' by (auto simp: equalNumber_def)

lemma equalNumber_sym: "equalNumber a b = equalNumber b a"
  using f64_eq_sym by (auto simp: equalNumber_def split: option.splits)

lemma number_bool_spelling: "number_spelling ''1''" "number_spelling ''0''"
  by (simp_all add: number_spelling_def json_number_ok_def Let_def trim_prefix_def is_digit_def
      json_fraction_ok_def)

lemma equalValue_JObj:
  "equalValue (JObj m) (JObj m') \<longleftrightarrow> length m = length m' \<and>
     (\<forall>kv \<in> set m. \<exists>w. map_of m' (fst kv) = Some w \<and> equalValue (snd kv) w)"
  by (subst equalValue.simps) (auto simp: equalityNumber_def split: option.splits)

lemma equalValue_JArr:
  "equalValue (JArr xs) (JArr ys) \<longleftrightarrow> length xs = length ys \<and>
     (\<forall>p \<in> set (zip xs ys). equalValue (fst p) (snd p))"
  by (subst equalValue.simps) (simp add: equalityNumber_def)

lemma equalValue_refl_decoded: "jwf v \<Longrightarrow> equalValue v v"
proof (induction v)
  case (JArr vs)
  then show ?case by (auto simp: equalValue_JArr set_zip list_all_iff)
next
  case (JObj m)
  have "map_of m (fst kv) = Some (snd kv) \<and> equalValue (snd kv) (snd kv)" if "kv \<in> set m" for kv
    using JObj.IH [of kv "snd kv"] JObj.prems that by (cases kv) (auto simp: list_all_iff)
  then show ?case by (simp add: equalValue_JObj)
next
  case (JNum n)
  then show ?case by (simp add: equalValue.simps equalityNumber_def equalNumber_refl)
next
  case (JBool b)
  then show ?case by (simp add: equalValue.simps equalityNumber_def equalNumber_refl number_bool_spelling)
qed (simp_all add: equalValue.simps equalityNumber_def)

lemma equalValue_containers:
  "equalValue (JArr xs) b \<Longrightarrow> \<exists>ys. b = JArr ys"
  "equalValue (JObj m) b \<Longrightarrow> \<exists>m'. b = JObj m'"
  by (cases b; simp add: equalValue.simps equalityNumber_def)+

lemma equalValue_sym_imp: "jwf a \<Longrightarrow> jwf b \<Longrightarrow> equalValue a b \<Longrightarrow> equalValue b a"
proof (induction a arbitrary: b)
  case (JArr xs)
  then obtain ys where b: "b = JArr ys" using equalValue_containers(1) by blast
  have len: "length xs = length ys" and zip: "\<And>p. p \<in> set (zip xs ys) \<Longrightarrow> equalValue (fst p) (snd p)"
    using JArr.prems(3) by (auto simp: b equalValue_JArr)
  have all: "equalValue (xs ! i) (ys ! i)" if "i < length xs" for i
    using zip [of "(xs ! i, ys ! i)"] that len by (auto simp: set_zip)
  have "equalValue (ys ! i) (xs ! i)" if "i < length ys" for i
    using that len all JArr.IH [of "xs ! i" "ys ! i"] JArr.prems(1,2) by (simp add: b list_all_length)
  with len show ?case by (auto simp: b equalValue_JArr set_zip)
next
  case (JObj m)
  then obtain m' where b: "b = JObj m'" using equalValue_containers(2) by blast
  have len: "length m = length m'"
    and all: "\<And>kv. kv \<in> set m \<Longrightarrow> \<exists>w. map_of m' (fst kv) = Some w \<and> equalValue (snd kv) w"
    using JObj.prems(3) by (auto simp: b equalValue_JObj)
  have d: "distinct (keys m)" "distinct (keys m')" and wf: "\<And>kv. kv \<in> set m' \<Longrightarrow> jwf (snd kv)"
    using JObj.prems by (auto simp: b list_all_iff)
  have "set (keys m) \<subseteq> set (keys m')"
    using all by (auto simp: map_of_eq_None_iff dest!: all map_of_SomeD intro: rev_image_eqI)
  moreover have "card (set (keys m)) = card (set (keys m'))"
    using d len by (simp add: distinct_card del: set_map)
  ultimately have sub: "set (keys m) = set (keys m')"
    by (simp add: card_subset_eq del: set_map)
  have "\<exists>w. map_of m (fst kv) = Some w \<and> equalValue (snd kv) w" if kv: "kv \<in> set m'" for kv
  proof -
    have "fst kv \<in> set (keys m)" using sub kv by force
    then obtain w where w: "(fst kv, w) \<in> set m" by auto
    with d(1) have "map_of m (fst kv) = Some w" by simp
    moreover have "map_of m' (fst kv) = Some (snd kv)" using d(2) kv by (cases kv) simp
    with all [OF w] have "equalValue w (snd kv)" by simp
    then have "equalValue (snd kv) w"
      using JObj.IH [of "(fst kv, w)" w "snd kv"] w wf [OF kv] JObj.prems(1) by (auto simp: list_all_iff)
    ultimately show ?thesis by blast
  qed
  with len show ?case by (simp add: b equalValue_JObj)
next
  case (JNum n)
  then show ?case
    by (cases b) (auto simp: equalValue.simps equalityNumber_def equalNumber_sym)
next
  case (JBool x)
  then show ?case
    by (cases b) (auto simp: equalValue.simps equalityNumber_def equalNumber_sym)
qed (auto simp: equalValue.simps equalityNumber_def split: option.splits)

section \<open>Counters\<close>

lemma count_fields_nonneg:
  "count_fields fs ks acc = Some r \<Longrightarrow> \<forall>kv \<in> set acc. 0 \<le> snd kv \<Longrightarrow> \<forall>kv \<in> set r. 0 \<le> snd kv"
proof (induction ks arbitrary: acc)
  case (Cons k ks)
  then obtain i where i: "counter (jat fs k) = Some i" "count_fields fs ks (AList.update k i acc) = Some r"
    by (auto split: option.splits)
  then have "0 \<le> i" by (auto simp: counter_def split: jval.splits option.splits if_splits)
  with Cons.prems(2) have "\<forall>kv \<in> set (AList.update k i acc). 0 \<le> snd kv"
    using set_update_subset [of k i acc] by fastforce
  with Cons.IH i(2) show ?case by blast
qed simp

lemma tokens_nonneg: "tokens v req opt = Some r \<Longrightarrow> \<forall>kv \<in> set r. 0 \<le> snd kv"
  by (auto simp: tokens_def split: option.splits dest!: count_fields_nonneg)

lemma count_of_nonneg: "\<forall>kv \<in> set m. 0 \<le> snd kv \<Longrightarrow> 0 \<le> count_of m k"
  by (auto simp: count_of_def split: option.splits dest!: map_of_SomeD)

lemma count_fields_keys:
  "count_fields fs ks acc = Some r \<Longrightarrow> set (keys r) = set (keys acc) \<union> set ks"
  by (induction ks arbitrary: acc) (auto simp: set_keys_update split: option.splits simp del: set_map)

section \<open>opencode steps\<close>

text \<open>The accounting contract: the admissible \<open>step_finish\<close> parts in order, the first one of each
  identity, and the sums over them.\<close>

definition step_part :: "jval \<Rightarrow> (identity \<times> stepSignature) option" where
  "step_part event =
     (case object event of
        None \<Rightarrow> None
      | Some row \<Rightarrow>
          if text_of (jat row ''type'') \<noteq> ''step_finish'' then None
          else (case object (jat row ''part'') of
              None \<Rightarrow> None
            | Some fs \<Rightarrow>
                let s = text_of (jat fs ''sessionID''); m = text_of (jat fs ''messageID''); i = text_of (jat fs ''id'')
                in if s = [] \<or> m = [] \<or> i = [] then None else Some ((s, m, i), step_signature fs)))"

definition first_step :: "jval \<Rightarrow> (identity \<times> stepSignature) list \<Rightarrow> (identity \<times> stepSignature) list" where
  "first_step event acc =
     (case step_part event of
        None \<Rightarrow> acc
      | Some (ident, signature) \<Rightarrow> if ident \<in> set (keys acc) then acc else acc @ [(ident, signature)])"

definition first_steps :: "jval list \<Rightarrow> (identity \<times> stepSignature) list" where
  "first_steps events = fold first_step events []"

definition step_sum :: "(stepSignature \<Rightarrow> counters option) \<Rightarrow> string \<Rightarrow> (identity \<times> stepSignature) list \<Rightarrow> int" where
  "step_sum part k steps = sum_list (map (\<lambda>p. count_of (the (part (snd p))) k) steps)"

definition step_totals :: "(identity \<times> stepSignature) list \<Rightarrow> totals" where
  "step_totals steps =
     \<lparr>input_tokens = step_sum sig_tokens ''input'' steps,
      output_tokens = step_sum sig_tokens ''output'' steps,
      reasoning_output_tokens = step_sum sig_tokens ''reasoning'' steps,
      cache_read_input_tokens = step_sum sig_cache ''read'' steps,
      cache_creation_input_tokens = step_sum sig_cache ''write'' steps\<rparr>"

definition step_admitted :: "stepSignature \<Rightarrow> bool" where
  "step_admitted s \<longleftrightarrow> sig_tokens s \<noteq> None \<and> sig_cache s \<noteq> None \<and> finiteNumber (sig_cost s) \<noteq> None"

definition step_cost :: "(identity \<times> stepSignature) list \<Rightarrow> f64" where
  "step_cost steps = fold (\<lambda>p c. f64_add c (snd (the (finiteNumber (sig_cost (snd p)))))) steps f64_zero"

definition oc_invariant :: "opencode_state \<Rightarrow> bool" where
  "oc_invariant st \<longleftrightarrow>
     (oc_valid st \<longrightarrow> (\<forall>p \<in> set (oc_seen st). step_admitted (snd p)) \<and>
        oc_totals st = step_totals (oc_seen st) \<and> oc_cost st = step_cost (oc_seen st))"

lemma step_totals_snoc:
  "sig_tokens s = Some ts \<Longrightarrow> sig_cache s = Some cache \<Longrightarrow>
     step_totals (steps @ [(i, s)]) = add_totals ts cache (step_totals steps)"
  by (simp add: step_totals_def add_totals_def step_sum_def)

lemma step_cost_snoc:
  "finiteNumber (sig_cost s) = Some (t, c) \<Longrightarrow> step_cost (steps @ [(i, s)]) = f64_add (step_cost steps) c"
  by (simp add: step_cost_def)

text \<open>One event, by its kind.\<close>

lemma opencode_event_cases:
  obtains (malformed) "\<And>st'. opencode_event e st' = st'\<lparr>oc_valid := False\<rparr>" "step_part e = None"
  | (failed) "\<And>st'. opencode_event e st' = st'\<lparr>oc_failed := True\<rparr>" "step_part e = None"
  | (ignored) "\<And>st'. opencode_event e st' = st'" "step_part e = None"
  | (step) ident signature where "step_part e = Some (ident, signature)"
    "\<And>st'. opencode_event e st' =
       (case map_of (oc_seen st') ident of
          Some previous \<Rightarrow> (if equalSignature previous signature then st' else st'\<lparr>oc_valid := False\<rparr>)
        | None \<Rightarrow>
            let st'' = st'\<lparr>oc_seen := oc_seen st' @ [(ident, signature)], oc_reason := sig_reason signature\<rparr>
            in (case (sig_tokens signature, sig_cache signature, finiteNumber (sig_cost signature)) of
                  (Some ts, Some cache, Some (_, cost)) \<Rightarrow>
                    st''\<lparr>oc_totals := add_totals ts cache (oc_totals st''),
                        oc_cost := f64_add (oc_cost st'') cost\<rparr>
                | _ \<Rightarrow> st''\<lparr>oc_valid := False\<rparr>))"
proof (cases "object e")
  case None
  with malformed show ?thesis by (simp add: opencode_event_def step_part_def)
next
  case (Some row)
  let ?k = "text_of (jat row ''type'')"
  consider "?k = ''error'' \<or> ?k = ''session.error''"
    | "?k \<noteq> ''error''" "?k \<noteq> ''session.error''" "?k \<noteq> ''step_finish''"
    | "?k = ''step_finish''" by blast
  then show ?thesis
  proof cases
    case 1
    with Some failed show ?thesis by (auto simp: opencode_event_def step_part_def)
  next
    case 2
    with Some ignored show ?thesis by (simp add: opencode_event_def step_part_def)
  next
    case 3
    show ?thesis
    proof (cases "object (jat row ''part'')")
      case None
      with Some 3 malformed show ?thesis
        by (simp add: opencode_event_def step_part_def opencode_finish_def)
    next
      case (Some fs)
      let ?bad = "text_of (jat fs ''sessionID'') = [] \<or> text_of (jat fs ''messageID'') = [] \<or> text_of (jat fs ''id'') = []"
      show ?thesis
      proof (cases ?bad)
        case True
        with Some \<open>object e = _\<close> 3 malformed show ?thesis
          by (simp add: opencode_event_def step_part_def opencode_finish_def field_def)
      next
        case False
        with Some \<open>object e = _\<close> 3 show ?thesis
          by (intro step) (simp_all add: opencode_event_def step_part_def opencode_finish_def field_def Let_def)
      qed
    qed
  qed
qed


lemma oc_invariant_event:
  assumes "oc_invariant st"
  shows "oc_invariant (opencode_event e st)"
proof (cases rule: opencode_event_cases [where e = e])
  case (step ident signature)
  show ?thesis
  proof (cases "map_of (oc_seen st) ident")
    case (Some previous)
    with assms show ?thesis by (simp add: step(2) oc_invariant_def)
  next
    case None
    with assms show ?thesis
      by (cases "sig_tokens signature"; cases "sig_cache signature"; cases "finiteNumber (sig_cost signature)")
        (auto simp: step(2) oc_invariant_def step_admitted_def [of signature] step_totals_snoc step_cost_snoc)
  qed
qed (use assms in \<open>simp_all add: oc_invariant_def\<close>)

lemma oc_seen_event: "oc_seen (opencode_event e st) = first_step e (oc_seen st)"
proof (cases rule: opencode_event_cases [where e = e])
  case (step ident signature)
  show ?thesis
  proof (cases "map_of (oc_seen st) ident")
    case (Some previous)
    then have "ident \<in> set (keys (oc_seen st))" by (simp add: in_keys_iff del: set_map)
    with Some show ?thesis by (simp add: step first_step_def del: set_map)
  next
    case None
    then have "ident \<notin> set (keys (oc_seen st))" by (simp add: in_keys_iff del: set_map)
    with None show ?thesis
      by (cases "sig_tokens signature"; cases "sig_cache signature"; cases "finiteNumber (sig_cost signature)")
        (auto simp: step first_step_def simp del: set_map)
  qed
qed (simp_all add: first_step_def)

lemma opencode_fold:
  "oc_invariant st \<Longrightarrow> oc_invariant (fold opencode_event events st)"
  "oc_seen (fold opencode_event events st) = fold first_step events (oc_seen st)"
  by (induction events arbitrary: st) (simp_all add: oc_invariant_event oc_seen_event)

lemma oc_invariant_init: "oc_invariant opencode_init"
  by (simp add: oc_invariant_def opencode_init_def step_totals_def step_sum_def step_cost_def)

lemma opencode_states:
  "oc_invariant (fold opencode_event events opencode_init)"
  "oc_seen (fold opencode_event events opencode_init) = first_steps events"
  using opencode_fold(1) [OF oc_invariant_init] opencode_fold(2) [of events opencode_init]
  by (simp_all add: first_steps_def opencode_init_def)

section \<open>Delivering an event again\<close>

definition absorbed :: "jval \<Rightarrow> opencode_state \<Rightarrow> bool" where
  "absorbed e st \<longleftrightarrow> opencode_event e st = st"

definition grows :: "opencode_state \<Rightarrow> opencode_state \<Rightarrow> bool" where
  "grows st st' \<longleftrightarrow> (oc_failed st \<longrightarrow> oc_failed st') \<and> (\<not> oc_valid st \<longrightarrow> \<not> oc_valid st') \<and>
     (\<forall>i s. map_of (oc_seen st) i = Some s \<longrightarrow> map_of (oc_seen st') i = Some s)"

lemma growsD:
  "grows a b \<Longrightarrow> map_of (oc_seen a) i = Some s \<Longrightarrow> map_of (oc_seen b) i = Some s"
  "grows a b \<Longrightarrow> \<not> oc_valid a \<Longrightarrow> \<not> oc_valid b"
  unfolding grows_def by blast+

lemma grows_event: "grows st (opencode_event e st)"
proof (cases rule: opencode_event_cases [where e = e])
  case (step ident signature)
  then show ?thesis
    by (auto simp: grows_def Let_def map_add_def split: option.splits)
qed (simp_all add: grows_def)

lemma grows_trans: "grows a b \<Longrightarrow> grows b c \<Longrightarrow> grows a c"
  by (simp add: grows_def)

lemma grows_fold: "grows st (fold opencode_event events st)"
proof (induction events arbitrary: st)
  case (Cons e events)
  show ?case using grows_trans [OF grows_event [of st e] Cons.IH [of "opencode_event e st"]] by simp
qed (simp add: grows_def)

lemma valid_false_id [simp]: "\<not> oc_valid st \<Longrightarrow> st\<lparr>oc_valid := False\<rparr> = st"
  by (cases st) simp

lemma failed_true_id [simp]: "oc_failed st \<Longrightarrow> st\<lparr>oc_failed := True\<rparr> = st"
  by (cases st) simp

definition signature_refl :: "jval \<Rightarrow> bool" where
  "signature_refl e \<longleftrightarrow> (\<forall>i s. step_part e = Some (i, s) \<longrightarrow> equalSignature s s)"

lemma absorbed_after:
  assumes "signature_refl e" and "grows (opencode_event e st) st'"
  shows "opencode_event e st' = st'"
proof (cases rule: opencode_event_cases [where e = e])
  case (step ident signature)
  have refl: "equalSignature signature signature"
    using assms(1) step(1) unfolding signature_refl_def by blast
  show ?thesis
  proof (cases "map_of (oc_seen st) ident")
    case (Some previous)
    then have "map_of (oc_seen (opencode_event e st)) ident = Some previous"
      "equalSignature previous signature \<or> \<not> oc_valid (opencode_event e st)"
      by (simp_all add: step(2))
    with growsD [OF assms(2)] have "map_of (oc_seen st') ident = Some previous"
      "equalSignature previous signature \<or> \<not> oc_valid st'"
      by blast+
    then show ?thesis by (auto simp: step(2))
  next
    case None
    then have "map_of (oc_seen (opencode_event e st)) ident = Some signature"
      by (auto simp: step(2) Let_def map_add_def split: option.splits)
    with growsD [OF assms(2)] have "map_of (oc_seen st') ident = Some signature" by blast
    with refl show ?thesis by (simp add: step(2))
  qed
qed (use assms(2) in \<open>simp_all add: grows_def\<close>)

lemma replay_absorbed:
  assumes "e \<in> set events" and "signature_refl e"
  shows "opencode_event e (fold opencode_event events st) = fold opencode_event events st"
proof -
  from assms(1) obtain xs ys where "events = xs @ e # ys" by (auto simp: in_set_conv_decomp)
  then show ?thesis
    using absorbed_after [OF assms(2) grows_fold [of "opencode_event e (fold opencode_event xs st)" ys]]
    by simp
qed

lemma jwf_jat: "jwf (JObj m) \<Longrightarrow> jwf (jat m k)"
  by (auto simp: jat_def list_all_iff split: option.splits dest!: map_of_SomeD)

lemma jwf_object: "jwf v \<Longrightarrow> object v = Some m \<Longrightarrow> jwf (JObj m)"
  by (simp add: object_def split: jval.splits)

lemma distinct_count_fields: "count_fields fs ks acc = Some r \<Longrightarrow> distinct (keys acc) \<Longrightarrow> distinct (keys r)"
  by (induction ks arbitrary: acc) (auto simp: distinct_keys_update split: option.splits)

lemma equalTokens_refl: "a = tokens v req opt \<Longrightarrow> equalTokens a a"
  by (cases a) (auto simp: equalTokens_def list_all_iff tokens_def split: option.splits
      dest!: distinct_count_fields)

lemma signature_refl_decoded: "jwf e \<Longrightarrow> signature_refl e"
proof -
  assume wf: "jwf e"
  have "equalSignature s s" if step: "step_part e = Some (i, s)" for i s
  proof -
    from step obtain row fs where r: "object e = Some row" "object (jat row ''part'') = Some fs"
      and s: "s = step_signature fs"
      by (auto simp: step_part_def Let_def split: option.splits if_splits)
    have "jwf (JObj fs)" using jwf_object [OF jwf_jat r(2)] jwf_object [OF wf r(1)] by blast
    then have "equalValue (sig_cost s) (sig_cost s)" "equalValue (sig_reason s) (sig_reason s)"
      by (simp_all only: s step_signature_def stepSignature.simps Let_def equalValue_refl_decoded jwf_jat)
    moreover have "equalTokens (sig_tokens s) (sig_tokens s)"
      by (cases "object (jat fs ''tokens'')")
        (auto simp: s step_signature_def Let_def equalTokens_def [of None] intro: equalTokens_refl)
    moreover have "equalTokens (sig_cache s) (sig_cache s)"
      by (auto simp: s step_signature_def Let_def intro: equalTokens_refl)
    ultimately show ?thesis by (simp add: equalSignature_def)
  qed
  then show ?thesis by (auto simp: signature_refl_def)
qed


section \<open>Streams\<close>

lemma streamEvents_nonempty: "streamEvents data = Inr events \<Longrightarrow> events \<noteq> []"
  by (auto simp: streamEvents_def result_simps split: if_splits sum.splits json_error.splits)

lemma Decode_jwf: "Decode s = Inr v \<Longrightarrow> jwf v"
proof -
  assume "Decode s = Inr v"
  then obtain r where "jvalue False 0 s = Inr (v, r)"
    by (auto simp: Decode_def decode_json_def result_simps split: if_splits)
  then show ?thesis using jparse_shaped(1) [of False 0 s v r] by (simp add: shaped_def)
qed

lemma line_events_jwf: "line_events ls = Inr vs \<Longrightarrow> list_all jwf vs"
  by (induction ls arbitrary: vs)
    (auto simp: result_simps Decode_jwf split: if_splits sum.splits json_error.splits)

lemma streamEvents_jwf: "streamEvents data = Inr events \<Longrightarrow> list_all jwf events"
  by (auto simp: streamEvents_def result_simps Decode_jwf line_events_jwf
      split: if_splits sum.splits json_error.splits)

section \<open>Non-negative totals\<close>

lemma step_sum_nonneg:
  assumes "\<forall>p \<in> set steps. \<exists>m. part (snd p) = Some m \<and> (\<forall>kv \<in> set m. 0 \<le> snd kv)"
  shows "0 \<le> step_sum part k steps"
  unfolding step_sum_def
proof (rule sum_list_nonneg)
  fix x assume "x \<in> set (map (\<lambda>p. count_of (the (part (snd p))) k) steps)"
  then obtain p where "p \<in> set steps" "x = count_of (the (part (snd p))) k" by auto
  with assms show "0 \<le> x" using count_of_nonneg by fastforce
qed

lemma step_signature_nonneg:
  "sig_tokens (step_signature fs) = Some m \<Longrightarrow> \<forall>kv \<in> set m. 0 \<le> snd kv"
  "sig_cache (step_signature fs) = Some m \<Longrightarrow> \<forall>kv \<in> set m. 0 \<le> snd kv"
  by (auto simp: step_signature_def Let_def split: option.splits dest!: tokens_nonneg)

definition from_part :: "identity \<times> stepSignature \<Rightarrow> bool" where
  "from_part p \<longleftrightarrow> (\<exists>fs. snd p = step_signature fs)"

lemma from_part_step: "step_part e = Some p \<Longrightarrow> from_part p"
  by (auto simp: step_part_def from_part_def Let_def split: option.splits if_splits)

lemma from_part_first_step: "list_all from_part acc \<Longrightarrow> list_all from_part (first_step e acc)"
  by (auto simp: first_step_def from_part_step split: option.splits)

lemma first_steps_signature: "list_all from_part (first_steps events)"
proof -
  have "list_all from_part acc \<Longrightarrow> list_all from_part (fold first_step events acc)" for acc
    by (induction events arbitrary: acc) (simp_all add: from_part_first_step)
  then show ?thesis by (simp add: first_steps_def)
qed

lemma step_totals_nonneg:
  assumes "\<forall>p \<in> set steps. step_admitted (snd p)" and "list_all from_part steps"
  shows "\<forall>kv \<in> set (totals_map (step_totals steps)). 0 \<le> snd kv"
proof -
  have "\<exists>m. part (snd p) = Some m \<and> (\<forall>kv \<in> set m. 0 \<le> snd kv)"
    if "p \<in> set steps" "part = sig_tokens \<or> part = sig_cache" for p part
    using assms that step_signature_nonneg by (fastforce simp: step_admitted_def from_part_def list_all_iff)
  then show ?thesis by (simp add: totals_map_def step_totals_def step_sum_nonneg)
qed

lemma opencode_nonneg:
  assumes "Complete (opencode events)"
  shows "\<exists>ts. Tokens (opencode events) = Some ts \<and> (\<forall>kv \<in> set ts. 0 \<le> snd kv)"
proof -
  let ?st = "fold opencode_event events opencode_init"
  from assms have "oc_valid ?st" "Tokens (opencode events) = Some (totals_map (oc_totals ?st))"
    by (auto simp: opencode_def Let_def split: if_splits)
  with opencode_states [of events] show ?thesis
    using step_totals_nonneg [of "first_steps events"] first_steps_signature
    by (auto simp: oc_invariant_def)
qed

section \<open>A sample stream\<close>

lemma parse_digit: "is_digit c \<Longrightarrow> parse_int [c] = Some (int (digit_val c))"
  by (auto simp: parse_int_def sign_split_def digits_val_def is_digit_def)

lemma digit_facts:
  assumes "is_digit c"
  shows "integer [c] = Some (int (digit_val c))" "f64_of_int (int (digit_val c)) = F_Fin (of_nat (digit_val c))"
    "integerSyntax [c]"
proof -
  have "integerSyntax [c]" using assms by (auto simp: integerSyntax_def contains_any_def is_digit_def)
  then show "integerSyntax [c]" "integer [c] = Some (int (digit_val c))"
    using parse_digit [OF assms] by (simp_all add: integer_def trim_prefix_def)
  have "digit_val c < 10" using assms by (auto simp: digit_val_def is_digit_def)
  then show "f64_of_int (int (digit_val c)) = F_Fin (of_nat (digit_val c))"
    using round64_of_nat [of "digit_val c"] by (simp add: f64_of_int_def)
qed

lemma counter_digit: "is_digit c \<Longrightarrow> counter (JNum [c]) = Some (int (digit_val c))"
  by (simp add: counter_def digit_facts)

lemma finiteNumber_digit:
  "is_digit c \<Longrightarrow> finiteNumber (JNum [c]) = Some (int_str (int (digit_val c)), F_Fin (of_nat (digit_val c)))"
  by (simp add: finiteNumber_def digit_facts)

definition sample_step :: jval where
  "sample_step = JObj [(''type'', JStr ''step_finish''), (''part'', JObj [
     (''sessionID'', JStr ''s''), (''messageID'', JStr ''m''), (''id'', JStr ''p''), (''reason'', JStr ''stop''),
     (''cost'', JNum ''2''),
     (''tokens'', JObj [(''input'', JNum ''7''), (''output'', JNum ''3''), (''reasoning'', JNum ''0''),
        (''cache'', JObj [(''read'', JNum ''1''), (''write'', JNum ''0'')])])])]"

lemma digit_spelling: "is_digit c \<Longrightarrow> number_spelling [c]"
  by (auto simp: number_spelling_def json_number_ok_def Let_def trim_prefix_def is_digit_def json_fraction_ok_def)

lemma sample_jwf: "jwf sample_step"
  by (simp add: sample_step_def digit_spelling is_digit_def)

lemma sample_complete: "Complete (opencode [sample_step])"
  by (simp add: opencode_def sample_step_def opencode_event_def opencode_finish_def opencode_init_def object_def
      text_of_def field_def step_signature_def tokens_def counter_digit finiteNumber_digit is_digit_def
      Let_def digit_val_def f64_zero_def round64_numeral)

section \<open>Properties\<close>

text \<open>Python equality, which decides whether a repeated step is a duplicate, is reflexive and
  symmetric on decoded values.\<close>

theorem equalValue_equivalence:
  assumes "jwf a" and "jwf b"
  shows "equalValue a a \<and> (equalValue a b \<longleftrightarrow> equalValue b a)"
  using equalValue_refl_decoded [OF assms(1)] equalValue_sym_imp [OF assms]
    equalValue_sym_imp [OF assms(2,1)] by blast

lemma equalValue_equivalence_witness:
  "equalValue (JArr [JBool True]) (JArr [JBool True]) \<and>
     (equalValue (JArr [JBool True]) (JArr [JNum ''1'']) \<longleftrightarrow> equalValue (JArr [JNum ''1'']) (JArr [JBool True]))"
  by (rule equalValue_equivalence) (simp_all add: number_bool_spelling)

text \<open>C23: When opencode accounting is complete, the run did not fail and every total is the sum of that
  counter over the distinct step identities, each counted once, with the first signature seen.\<close>

theorem opencode_totals:
  assumes "Complete (opencode events)"
  shows "\<not> Failed (opencode events) \<and> first_steps events \<noteq> [] \<and>
    Tokens (opencode events) = Some (totals_map (step_totals (first_steps events))) \<and>
    EstimatedUSD (opencode events) = Some (floatNumber (step_cost (first_steps events)))"
  using assms opencode_states [of events]
  by (auto simp: opencode_def Let_def oc_invariant_def split: if_splits)

lemma opencode_totals_witness:
  "\<not> Failed (opencode [sample_step]) \<and> first_steps [sample_step] \<noteq> [] \<and>
   Tokens (opencode [sample_step]) = Some (totals_map (step_totals (first_steps [sample_step]))) \<and>
   EstimatedUSD (opencode [sample_step]) = Some (floatNumber (step_cost (first_steps [sample_step])))"
  by (rule opencode_totals) (rule sample_complete)

text \<open>C26: Delivering any decoded event a second time never changes what opencode accounting reports.\<close>

theorem opencode_replay:
  assumes "e \<in> set events" and "jwf e"
  shows "opencode (events @ [e]) = opencode events"
  using replay_absorbed [OF assms(1) signature_refl_decoded [OF assms(2)], of opencode_init]
  by (simp add: opencode_def)

lemma opencode_replay_witness:
  "opencode ([sample_step] @ [sample_step]) = opencode [sample_step]"
  by (rule opencode_replay) (simp_all add: sample_jwf)

text \<open>Whatever the native stream holds, completed accounting has a token map, and no counter in it
  is negative.\<close>

theorem usage_nonneg:
  assumes "Complete (normalizeEvents harness events)"
  shows "\<exists>ts. Tokens (normalizeEvents harness events) = Some ts \<and> (\<forall>kv \<in> set ts. 0 \<le> snd kv)"
proof -
  have "\<exists>ts. Tokens (codex events) = Some ts \<and> (\<forall>kv \<in> set ts. 0 \<le> snd kv)" if "Complete (codex events)"
    using that by (auto simp: codex_def Let_def split: option.splits prod.splits dest: tokens_nonneg)
  moreover have "\<exists>ts. Tokens (claude events) = Some ts \<and> (\<forall>kv \<in> set ts. 0 \<le> snd kv)" if "Complete (claude events)"
    using that by (auto simp: claude_def Let_def split: option.splits prod.splits dest: tokens_nonneg)
  ultimately show ?thesis
    using assms opencode_nonneg by (simp add: normalizeEvents_def split: if_splits)
qed

lemma usage_nonneg_witness:
  "\<exists>ts. Tokens (normalizeEvents ''opencode'' [sample_step]) = Some ts \<and> list_all (\<lambda>kv. 0 \<le> snd kv) ts"
proof -
  have "Complete (normalizeEvents ''opencode'' [sample_step])" by (simp add: normalizeEvents_def sample_complete)
  from usage_nonneg [OF this] show ?thesis by (simp only: list_all_iff)
qed

end
