(* ===== verification/Budget_Numbers.thy ===== *)
theory Budget_Numbers
  imports Json_Value Json_Numbers
begin

text \<open>
  Numbers and configuration of the budget ledger (\<open>internal/budget/numbers.go\<close>, \<open>config.go\<close> and the
  types of \<open>budget.go\<close>).  Big integers are \<open>int\<close>, a nil limit in a configuration is 0, which every
  validation refuses with the same error.  Floats are the binary64 values of \<open>Go_Float\<close>.
\<close>

datatype budget_error =
    BadFeatureFlag | BadAction | BadInteger | BadNumber | BadLimits | BadSeconds | BadCostThreshold
  | BadRequest | BadSchema | MalformedRuns | MalformedRun | MalformedRecord | DuplicateRun
  | MalformedHistory | NonScalar | Nonfinite | BadAggregate | AggregateOverflow
  | OwnerRange | OwnerStatus | BadReportSession
  | BadIdentity | NotOwner | Disappeared | BadPid | BadRecordedPid | ConflictingPid
  | PreSpawnExit | NoOwnership | BadCompletion | ExitWithoutCode | BadTokenMetadata | BadCostMetadata
  | HistoryLimit | Storage | Publication bool | Entropy | BadPublication
  | Observer | BadDuration | UnrepresentableDuration | Expired | BadPrompt | Preflight | Prepare | Guard

section \<open>Integers and floats in records\<close>

definition integerSyntax_b :: "string \<Rightarrow> bool" where
  "integerSyntax_b n \<longleftrightarrow> \<not> contains_any n ''.eE'' \<and> n \<noteq> ''NaN'' \<and> n \<noteq> ''Infinity'' \<and> n \<noteq> ''-Infinity''"

definition exactInteger :: "jval \<Rightarrow> int option" where
  "exactInteger v = (case v of
       JNum n \<Rightarrow> if integerSyntax_b n then parse_int n else None
     | _ \<Rightarrow> None)"

definition checkedInteger :: "jval \<Rightarrow> bool \<Rightarrow> int option" where
  "checkedInteger v zero = (case exactInteger v of
       None \<Rightarrow> None
     | Some n \<Rightarrow> if n < 0 \<or> (\<not> zero \<and> n = 0) \<or> \<not> f64_finite (f64_of_int n) then None else Some n)"

definition numericFloat :: "jval \<Rightarrow> f64 option" where
  "numericFloat v = (case v of
       JNum n \<Rightarrow> (case parse_float n of
           None \<Rightarrow> None
         | Some (x, overflow) \<Rightarrow> if overflow \<or> \<not> f64_finite x then None else Some x)
     | _ \<Rightarrow> None)"

definition floatNumber_b :: "f64 \<Rightarrow> jval" where
  "floatNumber_b x =
     (let s = format_g x in JNum (if contains_any s ''.eE'' then s else s @ ''.0''))"

definition integerNumber :: "int \<Rightarrow> jval" where
  "integerNumber i = JNum (int_str i)"

definition is_int64 :: "int \<Rightarrow> bool" where
  "is_int64 i \<longleftrightarrow> - (2 ^ 63) \<le> i \<and> i < 2 ^ 63"

definition pythonFloat :: "string \<Rightarrow> budget_error + f64" where
  "pythonFloat raw = mapErr (\<lambda>_. BadNumber) (PositiveFloat raw)"

section \<open>CPython sums\<close>

record numberSum =
  ns_integer :: int
  ns_floating :: bool
  ns_fast :: bool
  ns_total :: f64
  ns_correction :: f64

definition newSum :: numberSum where
  "newSum = \<lparr>ns_integer = 0, ns_floating = False, ns_fast = True, ns_total = f64_zero, ns_correction = f64_zero\<rparr>"

definition corrects :: "f64 \<Rightarrow> bool" where
  "corrects c \<longleftrightarrow> \<not> f64_eq c f64_zero \<and> f64_finite c"

definition finishCompensation :: "numberSum \<Rightarrow> numberSum" where
  "finishCompensation s =
     s\<lparr>ns_total := (if corrects (ns_correction s) then f64_add (ns_total s) (ns_correction s) else ns_total s),
       ns_correction := f64_zero\<rparr>"

definition sum_integer :: "numberSum \<Rightarrow> int \<Rightarrow> budget_error + numberSum" where
  "sum_integer s i =
     (if \<not> ns_floating s then
        (let total = ns_integer s + i
         in Inr (s\<lparr>ns_integer := total, ns_fast := ns_fast s \<and> is_int64 i \<and> is_int64 total\<rparr>))
      else let x = f64_of_int i in
        if \<not> f64_finite x then Inl AggregateOverflow
        else let s' = (if ns_fast s \<and> \<not> is_int64 i then (finishCompensation s)\<lparr>ns_fast := False\<rparr> else s);
                 total = f64_add (ns_total s') x
          in if f64_finite total then Inr (s'\<lparr>ns_total := total\<rparr>) else Inl AggregateOverflow)"

definition compensate :: "numberSum \<Rightarrow> f64 \<Rightarrow> numberSum" where
  "compensate s x =
     (let t = f64_add (ns_total s) x;
          lost = (if f64_le (f64_abs x) (f64_abs (ns_total s))
                  then f64_add (f64_sub (ns_total s) t) x
                  else f64_add (f64_sub x t) (ns_total s))
      in s\<lparr>ns_total := t, ns_correction := f64_add (ns_correction s) lost\<rparr>)"

definition sum_float :: "numberSum \<Rightarrow> f64 \<Rightarrow> budget_error + numberSum" where
  "sum_float s x =
     (if \<not> ns_floating s then
        (let base = f64_of_int (ns_integer s); total = f64_add base x
         in if \<not> f64_finite base \<or> \<not> f64_finite total then Inl AggregateOverflow
            else Inr (s\<lparr>ns_total := total, ns_floating := True\<rparr>))
      else let s' = (if ns_fast s then compensate s x else s\<lparr>ns_total := f64_add (ns_total s) x\<rparr>)
        in if f64_finite (ns_total s') then Inr s' else Inl AggregateOverflow)"

definition sum_add :: "numberSum \<Rightarrow> jval \<Rightarrow> budget_error + numberSum" where
  "sum_add s v = (case v of
       JNum n \<Rightarrow>
         (case exactInteger v of
            Some i \<Rightarrow> sum_integer s i
          | None \<Rightarrow> (case numericFloat v of None \<Rightarrow> Inl BadAggregate | Some x \<Rightarrow> sum_float s x))
     | _ \<Rightarrow> Inl BadAggregate)"

definition sum_number :: "numberSum \<Rightarrow> budget_error + jval" where
  "sum_number s =
     (if \<not> ns_floating s then Inr (integerNumber (ns_integer s))
      else let v = (if corrects (ns_correction s) then f64_add (ns_total s) (ns_correction s) else ns_total s)
        in if \<not> f64_finite v then Inl AggregateOverflow else Inr (floatNumber_b v))"

definition sum_float_value :: "numberSum \<Rightarrow> budget_error + f64" where
  "sum_float_value s = bindE (sum_number s)
     (\<lambda>n. case numericFloat n of None \<Rightarrow> Inl AggregateOverflow | Some x \<Rightarrow> Inr x)"

definition atLeast_sum :: "numberSum \<Rightarrow> f64 \<Rightarrow> budget_error + bool" where
  "atLeast_sum s threshold =
     (if \<not> ns_floating s then Inr (f64_val threshold \<le> of_int (ns_integer s))
      else bindE (sum_float_value s) (\<lambda>x. Inr (f64_le threshold x)))"

section \<open>Configuration\<close>

record Config =
  cEnabled :: bool
  cAction :: string
  cMaxAttempts :: int
  cMaxSessionRuns :: int
  cMaxConcurrent :: int
  cTimeoutSeconds :: f64
  cSessionSeconds :: f64
  cEstimatedUSD :: "f64 option"

definition env_get :: "(string \<Rightarrow> string option) \<Rightarrow> string \<Rightarrow> string \<Rightarrow> string" where
  "env_get environment key fallback =
     (case environment (''FACTORY_BUDGET_'' @ key) of Some v \<Rightarrow> v | None \<Rightarrow> fallback)"

definition config_integer :: "string \<Rightarrow> budget_error + int" where
  "config_integer raw = mapErr (\<lambda>_. BadInteger) (PositiveInteger raw)"

definition Configuration :: "(string \<Rightarrow> string option) \<Rightarrow> budget_error + Config" where
  "Configuration environment =
     (let get = env_get environment;
          enabled = get ''ENABLED'' ''false''; action = get ''ACTION'' ''stop''
      in if enabled \<noteq> ''true'' \<and> enabled \<noteq> ''false'' then Inl BadFeatureFlag
         else if action \<noteq> ''stop'' \<and> action \<noteq> ''warn'' then Inl BadAction
         else bindE (config_integer (get ''MAX_ATTEMPTS'' ''1'')) (\<lambda>attempts.
           bindE (config_integer (get ''MAX_SESSION_RUNS'' ''5'')) (\<lambda>runs.
           bindE (config_integer (get ''MAX_CONCURRENT'' ''1'')) (\<lambda>concurrent.
           bindE (pythonFloat (get ''TIMEOUT_SECONDS'' ''300'')) (\<lambda>timeout.
           bindE (pythonFloat (get ''SESSION_SECONDS'' ''900'')) (\<lambda>session.
           bindE (if get ''ESTIMATED_USD'' [] = [] then Inr None
                  else bindE (pythonFloat (get ''ESTIMATED_USD'' [])) (\<lambda>v. Inr (Some v))) (\<lambda>usd.
             Inr \<lparr>cEnabled = (enabled = ''true''), cAction = action, cMaxAttempts = attempts,
                  cMaxSessionRuns = runs, cMaxConcurrent = concurrent, cTimeoutSeconds = timeout,
                  cSessionSeconds = session, cEstimatedUSD = usd\<rparr>)))))))"

definition limit_ok :: "int \<Rightarrow> bool" where
  "limit_ok i \<longleftrightarrow> 0 < i \<and> f64_finite (f64_of_int i)"

definition seconds_ok :: "f64 \<Rightarrow> bool" where
  "seconds_ok f \<longleftrightarrow> f64_finite f \<and> \<not> f64_le f f64_zero"

definition validateConfig :: "Config \<Rightarrow> budget_error + Config" where
  "validateConfig c =
     (if cAction c \<noteq> ''stop'' \<and> cAction c \<noteq> ''warn'' then Inl BadAction
      else if \<not> (limit_ok (cMaxAttempts c) \<and> limit_ok (cMaxSessionRuns c) \<and> limit_ok (cMaxConcurrent c))
      then Inl BadLimits
      else if \<not> (seconds_ok (cTimeoutSeconds c) \<and> seconds_ok (cSessionSeconds c)) then Inl BadSeconds
      else if (case cEstimatedUSD c of None \<Rightarrow> False | Some f \<Rightarrow> \<not> seconds_ok f) then Inl BadCostThreshold
      else Inr c)"

definition id_alnum :: "char \<Rightarrow> bool" where
  "id_alnum c \<longleftrightarrow> (97 \<le> ord c \<and> ord c \<le> 122) \<or> (65 \<le> ord c \<and> ord c \<le> 90) \<or> (48 \<le> ord c \<and> ord c \<le> 57)"

definition validID :: "string \<Rightarrow> bool" where
  "validID s \<longleftrightarrow> 1 \<le> length s \<and> length s \<le> 64 \<and> id_alnum (hd s) \<and>
     list_all (\<lambda>c. id_alnum c \<or> c = CHR ''_'' \<or> c = CHR ''-'') (tl s)"

definition harnessValues :: "string list" where
  "harnessValues = [''codex'', ''claude'', ''opencode'']"

definition roleValues :: "string list" where
  "roleValues = [''spec-writer'', ''implementer'', ''refactorer'', ''reviewer'', ''wiki-maintainer'']"

definition harness_ok :: "string \<Rightarrow> bool" where
  "harness_ok v \<longleftrightarrow> v \<in> set harnessValues"

definition role_ok :: "string \<Rightarrow> bool" where
  "role_ok v \<longleftrightarrow> v \<in> set roleValues"

record Request =
  rSession :: string
  rTask :: string
  rHarness :: string
  rRole :: string
  rModel :: string
  rMaxCostUSD :: "string option"

definition validateRequest :: "Request \<Rightarrow> budget_error + unit" where
  "validateRequest r =
     (if \<not> validID (rSession r) \<or> \<not> validID (rTask r) \<or> \<not> harness_ok (rHarness r) \<or> \<not> role_ok (rRole r) \<or>
         \<not> utf8_valid (rModel r)
      then Inl BadRequest
      else case rMaxCostUSD r of
          None \<Rightarrow> Inr ()
        | Some raw \<Rightarrow> bindE (pythonFloat raw) (\<lambda>_. Inr ()))"

section \<open>What validation gives\<close>

lemma validateConfig_Inr:
  "validateConfig c = Inr c' \<longleftrightarrow> c' = c \<and> (cAction c = ''stop'' \<or> cAction c = ''warn'') \<and>
     limit_ok (cMaxAttempts c) \<and> limit_ok (cMaxSessionRuns c) \<and> limit_ok (cMaxConcurrent c) \<and>
     seconds_ok (cTimeoutSeconds c) \<and> seconds_ok (cSessionSeconds c) \<and>
     (\<forall>f. cEstimatedUSD c = Some f \<longrightarrow> seconds_ok f)"
  by (auto simp: validateConfig_def split: option.splits)

lemma seconds_ok_less: "seconds_ok f \<longleftrightarrow> f64_finite f \<and> f64_less f64_zero f"
  by (cases f) (auto simp: seconds_ok_def f64_zero_def)

lemma config_integer_ok: "config_integer raw = Inr i \<Longrightarrow> limit_ok i"
  by (auto simp: config_integer_def limit_ok_def dest: PositiveInteger_pos PositiveInteger_finite
      split: sum.splits simp: mapErr_def)

lemma pythonFloat_ok: "pythonFloat raw = Inr f \<Longrightarrow> seconds_ok f"
  by (auto simp: pythonFloat_def seconds_ok_less mapErr_def dest: PositiveFloat_pos split: sum.splits)

lemma Configuration_valid: "Configuration environment = Inr c \<Longrightarrow> validateConfig c = Inr c"
  by (auto simp: Configuration_def Let_def validateConfig_Inr result_simps
      dest: config_integer_ok pythonFloat_ok split: if_splits)

end
