(* ===== verification/Budget_History.thy ===== *)
theory Budget_History
  imports Budget_Numbers
begin

text \<open>
  The ledger history of \<open>internal/budget/history.go\<close> and the observations of \<open>observation.go\<close>: the schema of a run
  record, admission of a stored history, and the queries other packages ask.  A history is the
  association list of its JSON object; \<open>rows\<close> reads its run objects in order.
\<close>

type_synonym row = "(string \<times> jval) list"
type_synonym history = "(string \<times> jval) list"

section \<open>Scalar values\<close>

fun strictValue :: "jval \<Rightarrow> budget_error option" where
  "strictValue (JStr s) = (if utf8_valid s then None else Some NonScalar)"
| "strictValue (JNum n) =
     (if \<not> integerSyntax_b n \<and> numericFloat (JNum n) = None then Some Nonfinite else None)"
| "strictValue (JArr vs) =
     fold (\<lambda>v e. case e of None \<Rightarrow> strictValue v | Some x \<Rightarrow> Some x) vs None"
| "strictValue (JObj m) =
     fold (\<lambda>kv e. case e of
         None \<Rightarrow> (if utf8_valid (fst kv) then strictValue (snd kv) else Some NonScalar)
       | Some x \<Rightarrow> Some x) m None"
| "strictValue _ = None"

section \<open>Records\<close>

definition str_field :: "row \<Rightarrow> string \<Rightarrow> string" where
  "str_field r k = (case jat r k of JStr s \<Rightarrow> s | _ \<Rightarrow> [])"

definition is_str :: "jval \<Rightarrow> bool" where
  "is_str v = (case v of JStr _ \<Rightarrow> True | _ \<Rightarrow> False)"

definition is_bool :: "jval \<Rightarrow> bool" where
  "is_bool v = (case v of JBool _ \<Rightarrow> True | _ \<Rightarrow> False)"

definition validOutcome :: "string \<Rightarrow> bool \<Rightarrow> bool" where
  "validOutcome s running \<longleftrightarrow>
     (if s = ''running'' then running
      else s \<in> set [''completed'', ''failed'', ''timeout'', ''interrupted'', ''output_limit'', ''launch_error''])"

definition nonneg_float :: "jval \<Rightarrow> bool" where
  "nonneg_float v = (case numericFloat v of None \<Rightarrow> False | Some f \<Rightarrow> \<not> f64_less f f64_zero)"

definition string_list_ok :: "jval \<Rightarrow> bool" where
  "string_list_ok v = (case v of JArr ws \<Rightarrow> list_all is_str ws | _ \<Rightarrow> False)"

definition tokens_ok :: "jval \<Rightarrow> bool" where
  "tokens_ok v = (case v of
       JNull \<Rightarrow> True
     | JObj m \<Rightarrow> list_all (\<lambda>kv. checkedInteger (snd kv) True \<noteq> None) m
     | _ \<Rightarrow> False)"

text \<open>The checks of \<open>validateRecord\<close> that do not depend on the status, then those that do.\<close>

definition record_fields_ok :: "row \<Rightarrow> bool" where
  "record_fields_ok r \<longleftrightarrow>
     list_all (\<lambda>k. is_str (jat r k) \<and> validID (str_field r k)) [''id'', ''session'', ''task''] \<and>
     harness_ok (str_field r ''harness'') \<and> role_ok (str_field r ''role'') \<and>
     (str_field r ''status'' = ''active'' \<or> str_field r ''status'' = ''completed'') \<and>
     validOutcome (str_field r ''outcome'') True \<and>
     nonneg_float (jat r ''elapsed_seconds'') \<and> nonneg_float (jat r ''reserved_seconds'') \<and>
     checkedInteger (jat r ''attempt'') False \<noteq> None \<and> checkedInteger (jat r ''owner_pid'') False \<noteq> None \<and>
     is_bool (jat r ''complete'') \<and>
     (jat r ''estimated_usd'' = JNull \<or> nonneg_float (jat r ''estimated_usd'')) \<and>
     string_list_ok (jat r ''warnings'') \<and> tokens_ok (jat r ''tokens'') \<and>
     (jat r ''process_pid'' = JNull \<or> checkedInteger (jat r ''process_pid'') False \<noteq> None) \<and>
     (jat r ''exit_code'' = JNull \<or> exactInteger (jat r ''exit_code'') \<noteq> None) \<and>
     list_all (\<lambda>k. is_str (jat r k)) [''model'', ''started_at'', ''source'']"

definition record_status_ok :: "row \<Rightarrow> bool" where
  "record_status_ok r =
     (let outcome = str_field r ''outcome''
      in if str_field r ''status'' = ''active'' then
           (outcome = ''running'' \<or> outcome = ''timeout'' \<or> outcome = ''launch_error'') \<and>
           jat r ''ended_at'' = JNull \<and>
           (outcome \<noteq> ''running'' \<longrightarrow>
              ''estimated_usd'' \<in> set (keys r) \<and> ''tokens'' \<in> set (keys r) \<and>
              jat r ''process_pid'' \<noteq> JNull \<and> jat r ''exit_code'' = JNull \<and>
              jat r ''complete'' = JBool False \<and> jat r ''estimated_usd'' = JNull \<and> jat r ''tokens'' = JNull)
         else is_str (jat r ''ended_at'') \<and> outcome \<noteq> ''running'')"

definition validateRecord :: "row \<Rightarrow> budget_error + unit" where
  "validateRecord r =
     (if record_fields_ok r \<and> record_status_ok r then Inr () else Inl MalformedRecord)"

section \<open>Histories\<close>

definition row_of :: "jval \<Rightarrow> row" where
  "row_of v = (case v of JObj m \<Rightarrow> m | _ \<Rightarrow> [])"

definition rows :: "history \<Rightarrow> row list" where
  "rows h = (case jat h ''runs'' of JArr vs \<Rightarrow> map row_of vs | _ \<Rightarrow> [])"

fun validateRuns :: "jval list \<Rightarrow> string list \<Rightarrow> budget_error + unit" where
  "validateRuns [] seen = Inr ()"
| "validateRuns (v # vs) seen =
     (case v of
        JObj r \<Rightarrow> bindE (validateRecord r) (\<lambda>_.
          if str_field r ''id'' \<in> set seen then Inl DuplicateRun
          else validateRuns vs (str_field r ''id'' # seen))
      | _ \<Rightarrow> Inl MalformedRun)"

definition validateHistory :: "history \<Rightarrow> budget_error + unit" where
  "validateHistory h =
     (case exactInteger (jat h ''schema'') of
        None \<Rightarrow> Inl BadSchema
      | Some i \<Rightarrow>
          if i \<noteq> 1 then Inl BadSchema
          else case jat h ''runs'' of
              JArr vs \<Rightarrow> validateRuns vs []
            | _ \<Rightarrow> Inl MalformedRuns)"

definition historyLimit :: nat where
  "historyLimit = 32 * 2 ^ 20"

definition ParseHistory :: "string option \<Rightarrow> budget_error + history" where
  "ParseHistory input =
     (case input of
        None \<Rightarrow> Inl MalformedHistory
      | Some data \<Rightarrow>
          if length data > historyLimit \<or> \<not> utf8_valid data then Inl MalformedHistory
          else case Decode data of
              Inl _ \<Rightarrow> Inl MalformedHistory
            | Inr value \<Rightarrow>
                (case strictValue value of
                   Some e \<Rightarrow> Inl e
                 | None \<Rightarrow> (case value of
                       JObj h \<Rightarrow> bindE (validateHistory h) (\<lambda>_. Inr h)
                     | _ \<Rightarrow> Inl MalformedHistory)))"

definition emptyHistory :: history where
  "emptyHistory = [(''schema'', JNum ''1''), (''runs'', JArr [])]"

definition HasActive :: "history \<Rightarrow> budget_error + bool" where
  "HasActive h = bindE (validateHistory h)
     (\<lambda>_. Inr (list_ex (\<lambda>r. jat r ''status'' = JStr ''active'') (rows h)))"

definition HasUnresolved :: "history \<Rightarrow> budget_error + bool" where
  "HasUnresolved h = bindE (validateHistory h)
     (\<lambda>_. Inr (list_ex (\<lambda>r. jat r ''status'' = JStr ''active'' \<or>
        jat r ''process_pid'' \<noteq> JNull \<and> jat r ''exit_code'' = JNull) (rows h)))"

section \<open>Observations\<close>

record Invocation =
  iID :: string
  iSession :: string
  iTask :: string
  iHarness :: string
  iRole :: string
  iStatus :: string
  iOutcome :: string
  iElapsedSeconds :: jval
  iProcessPID :: "int option"

definition Observe :: "row \<Rightarrow> budget_error + Invocation" where
  "Observe r = bindE (validateRecord r) (\<lambda>_.
     Inr \<lparr>iID = str_field r ''id'', iSession = str_field r ''session'', iTask = str_field r ''task'',
          iHarness = str_field r ''harness'', iRole = str_field r ''role'', iStatus = str_field r ''status'',
          iOutcome = str_field r ''outcome'', iElapsedSeconds = jat r ''elapsed_seconds'',
          iProcessPID = (if jat r ''process_pid'' = JNull then None else exactInteger (jat r ''process_pid''))\<rparr>)"

fun observe_all :: "row list \<Rightarrow> budget_error + Invocation list" where
  "observe_all [] = Inr []"
| "observe_all (r # rs) = bindE (Observe r) (\<lambda>i. bindE (observe_all rs) (\<lambda>is. Inr (i # is)))"

definition MatchingActive :: "history \<Rightarrow> string \<Rightarrow> string \<Rightarrow> budget_error + Invocation list" where
  "MatchingActive h session task = bindE (validateHistory h) (\<lambda>_.
     observe_all (filter (\<lambda>r. jat r ''status'' = JStr ''active'' \<and> jat r ''session'' = JStr session \<and>
        jat r ''task'' = JStr task) (rows h)))"

section \<open>Valid histories\<close>

text \<open>The contract of a history other packages rely on: every run object satisfies the schema and run
  identities are unique.\<close>

definition run_id :: "row \<Rightarrow> string" where
  "run_id r = str_field r ''id''"

definition runs_ok :: "row list \<Rightarrow> bool" where
  "runs_ok rs \<longleftrightarrow> list_all (\<lambda>r. validateRecord r = Inr ()) rs \<and> distinct (map run_id rs)"

lemma validateRuns_objects: "validateRuns vs seen = Inr () \<Longrightarrow> \<exists>rs. vs = map JObj rs"
proof (induction vs arbitrary: seen)
  case (Cons v vs)
  then obtain r where v: "v = JObj r" by (cases v) auto
  with Cons.prems obtain seen' where "validateRuns vs seen' = Inr ()"
    by (auto simp: result_simps split: if_splits)
  with Cons.IH obtain rs where "vs = map JObj rs" by blast
  with v have "v # vs = map JObj (r # rs)" by simp
  then show ?case by (rule exI)
qed simp

lemma validateRuns_map:
  "validateRuns (map JObj rs) seen = Inr () \<longleftrightarrow>
     list_all (\<lambda>r. validateRecord r = Inr ()) rs \<and> distinct (map run_id rs) \<and> set (map run_id rs) \<inter> set seen = {}"
  by (induction rs arbitrary: seen) (auto simp: result_simps run_id_def)

lemma rows_runs: "jat h ''runs'' = JArr (map JObj rs) \<Longrightarrow> rows h = rs"
  by (simp add: rows_def row_of_def comp_def)

lemma validateHistory_iff:
  "validateHistory h = Inr () \<longleftrightarrow>
     exactInteger (jat h ''schema'') = Some 1 \<and> jat h ''runs'' = JArr (map JObj (rows h)) \<and> runs_ok (rows h)"
  (is "?l \<longleftrightarrow> ?r")
proof
  assume ?l
  then obtain vs where vs: "jat h ''runs'' = JArr vs" "validateRuns vs [] = Inr ()"
      "exactInteger (jat h ''schema'') = Some 1"
    by (auto simp: validateHistory_def split: option.splits if_splits jval.splits)
  then obtain rs where "vs = map JObj rs" "runs_ok rs"
    using validateRuns_objects [OF vs(2)] by (auto simp: validateRuns_map runs_ok_def)
  with vs show ?r using rows_runs by auto
next
  assume ?r
  moreover then have "validateRuns (map JObj (rows h)) [] = Inr ()"
    unfolding validateRuns_map by (auto simp: runs_ok_def)
  ultimately show ?l by (simp add: validateHistory_def)
qed

lemma validateHistory_unit: "validateHistory h = Inr u \<longleftrightarrow> validateHistory h = Inr ()"
  by simp

definition set_runs :: "row list \<Rightarrow> history \<Rightarrow> history" where
  "set_runs rs h = jset ''runs'' (JArr (map JObj rs)) h"

lemma set_runs_simps [simp]:
  "rows (set_runs rs h) = rs"
  "jat (set_runs rs h) ''schema'' = jat h ''schema''"
  "jat (set_runs rs h) ''runs'' = JArr (map JObj rs)"
  by (simp_all add: set_runs_def rows_def row_of_def comp_def)

lemma validateHistory_set_runs:
  "validateHistory h = Inr () \<Longrightarrow> validateHistory (set_runs rs h) = Inr () \<longleftrightarrow> runs_ok rs"
  by (simp add: validateHistory_iff)

lemma emptyHistory_valid: "validateHistory emptyHistory = Inr () \<and> rows emptyHistory = []"
proof -
  have "parse_int ''1'' = Some 1"
    by (simp add: parse_int_def sign_split_def digits_val_def is_digit_def digit_val_def)
  then have "exactInteger (jat emptyHistory ''schema'') = Some 1"
    by (simp add: emptyHistory_def exactInteger_def integerSyntax_b_def contains_any_def)
  moreover have "rows emptyHistory = []" by (simp add: emptyHistory_def rows_def)
  ultimately show ?thesis by (simp add: validateHistory_iff runs_ok_def emptyHistory_def)
qed

lemma ParseHistory_valid: "ParseHistory input = Inr h \<Longrightarrow> validateHistory h = Inr ()"
  by (auto simp: ParseHistory_def result_simps split: option.splits if_splits sum.splits jval.splits)

end
