(* ===== verification/Budget_Plan.thy ===== *)
theory Budget_Plan
  imports Budget_History
begin

text \<open>
  Planning and reporting of the budget ledger (\<open>internal/budget/plan.go\<close>).  \<open>MakePlan\<close> is a function
  of the request, the configuration, the history and the answers of \<open>kill(pid, 0)\<close> for the owners of
  active runs, which is its only look at the operating system.  The blockers and warnings keep the
  text of the source, since callers and the ledger rows carry it.
\<close>

datatype kill_result = KillOk | KillESRCH | KillEPERM | KillOther

section \<open>Scanning the history\<close>

definition remaining :: "int \<Rightarrow> nat \<Rightarrow> int" where
  "remaining limit n = (let r = limit - int n in if r < 0 then 0 else r)"

definition ownerAlive :: "(int \<Rightarrow> kill_result) \<Rightarrow> jval \<Rightarrow> budget_error + bool" where
  "ownerAlive kill v =
     (case exactInteger v of
        None \<Rightarrow> Inl OwnerRange
      | Some pid \<Rightarrow>
          if pid \<le> 0 \<or> pid > 2147483647 then Inl OwnerRange
          else case kill pid of
              KillESRCH \<Rightarrow> Inr False
            | KillOther \<Rightarrow> Inl OwnerStatus
            | _ \<Rightarrow> Inr True)"

record plan_scan =
  sc_session :: "row list"
  sc_task :: "row list"
  sc_active :: "row list"
  sc_charge :: numberSum
  sc_cost :: numberSum

definition is_active :: "row \<Rightarrow> bool" where
  "is_active r \<longleftrightarrow> jat r ''status'' = JStr ''active''"

definition plan_row :: "Request \<Rightarrow> Config \<Rightarrow> row \<Rightarrow> plan_scan \<Rightarrow> budget_error + plan_scan" where
  "plan_row r c row s =
     (let s = (if is_active row then s\<lparr>sc_active := sc_active s @ [row]\<rparr> else s)
      in if jat row ''session'' \<noteq> JStr (rSession r) then Inr s
         else let s = s\<lparr>sc_session := sc_session s @ [row]\<rparr>;
                  s = (if jat row ''task'' = JStr (rTask r) then s\<lparr>sc_task := sc_task s @ [row]\<rparr> else s);
                  amount = (if is_active row then jat row ''reserved_seconds'' else jat row ''elapsed_seconds'')
           in bindE (sum_add (sc_charge s) amount) (\<lambda>charge.
                if cEstimatedUSD c \<noteq> None \<and> jat row ''estimated_usd'' \<noteq> JNull
                then bindE (sum_add (sc_cost s) (jat row ''estimated_usd''))
                       (\<lambda>cost. Inr (s\<lparr>sc_charge := charge, sc_cost := cost\<rparr>))
                else Inr (s\<lparr>sc_charge := charge\<rparr>)))"

fun plan_rows :: "Request \<Rightarrow> Config \<Rightarrow> row list \<Rightarrow> plan_scan \<Rightarrow> budget_error + plan_scan" where
  "plan_rows r c [] s = Inr s"
| "plan_rows r c (row # rs) s = bindE (plan_row r c row s) (plan_rows r c rs)"

definition plan_scan_init :: plan_scan where
  "plan_scan_init = \<lparr>sc_session = [], sc_task = [], sc_active = [], sc_charge = newSum, sc_cost = newSum\<rparr>"

section \<open>Blockers and warnings\<close>

definition stale_text :: "string \<Rightarrow> string" where
  "stale_text run = ''stale active run '' @ run @ '': confirm its process group is stopped, then recover its metadata using docs/BUDGETS.md; do not delete the attempt''"

definition unconfirmed_text :: "string \<Rightarrow> string" where
  "unconfirmed_text run = ''unconfirmed process exit for run '' @ run @ '': confirm its process group is stopped, then recover its metadata using docs/BUDGETS.md''"

fun active_blockers :: "(int \<Rightarrow> kill_result) \<Rightarrow> row list \<Rightarrow> budget_error + string list" where
  "active_blockers kill [] = Inr []"
| "active_blockers kill (row # rs) =
     (if jat row ''outcome'' \<noteq> JStr ''running''
      then bindE (active_blockers kill rs) (\<lambda>bs. Inr (unconfirmed_text (run_id row) # bs))
      else bindE (ownerAlive kill (jat row ''owner_pid'')) (\<lambda>alive.
        bindE (active_blockers kill rs) (\<lambda>bs.
          Inr (if alive then bs else stale_text (run_id row) # bs))))"

definition threshold_text :: "f64 \<Rightarrow> f64 \<Rightarrow> string" where
  "threshold_text known limit =
     ''session estimated USD threshold reached ('' @ format_fixed 6 known @ '' >= '' @ format_fixed 6 limit @ '')''"

definition cost_concerns :: "Request \<Rightarrow> f64 \<Rightarrow> plan_scan \<Rightarrow> budget_error + string list" where
  "cost_concerns r limit s =
     (let codex = (if rHarness r = ''codex'' then [''Codex does not report a usable USD estimate''] else []);
          pending = (if list_ex is_active (sc_session s)
                     then [''another session invocation has not reported its cost''] else []);
          unknown = (if list_ex (\<lambda>row. \<not> is_active row \<and> jat row ''estimated_usd'' = JNull) (sc_session s)
                     then [''previous session cost is unknown''] else [])
      in bindE (atLeast_sum (sc_cost s) limit) (\<lambda>reached.
           if reached
           then bindE (sum_float_value (sc_cost s)) (\<lambda>known.
                  Inr (codex @ pending @ unknown @ [threshold_text known limit]))
           else Inr (codex @ pending @ unknown)))"

record Plan =
  pConfiguration :: Config
  pSession :: string
  pTask :: string
  pHarness :: string
  pRole :: string
  pModel :: string
  pModelSource :: string
  pServices :: "(string \<times> string) list"
  pCostReporting :: string
  pRemainingAttempts :: int
  pRemainingSessionRuns :: int
  pRemainingSessionSeconds :: f64
  pActiveRuns :: nat
  pBlockers :: "string list"
  pWarnings :: "string list"

definition services :: "(string \<times> string) list" where
  "services = [(''model_provider'', ''inherited; usage may incur provider charges''),
     (''tools'', ''unknown; inherited from harness/project configuration'')]"

definition plan_base :: "Request \<Rightarrow> Config \<Rightarrow> plan_scan \<Rightarrow> f64 \<Rightarrow> Plan" where
  "plan_base r c s charged =
     \<lparr>pConfiguration = c, pSession = rSession r, pTask = rTask r, pHarness = rHarness r, pRole = rRole r,
      pModel = rModel r, pModelSource = (if rModel r \<noteq> [] then ''selected'' else ''inherited''),
      pServices = services,
      pCostReporting = (if rHarness r = ''codex'' then ''unknown'' else ''client-reported estimate, not billing''),
      pRemainingAttempts = remaining (cMaxAttempts c) (length (sc_task s)),
      pRemainingSessionRuns = remaining (cMaxSessionRuns c) (length (sc_session s)),
      pRemainingSessionSeconds = f64_max0 (f64_sub (cSessionSeconds c) charged),
      pActiveRuns = length (sc_active s), pBlockers = [], pWarnings = []\<rparr>"

definition disabled_text :: string where
  "disabled_text = ''budget feature is disabled; set budget_enabled: true to permit explicit runs''"

definition ceiling_text :: string where
  "ceiling_text = ''strict USD ceilings are unsupported for all harnesses; estimates are not billing limits''"

definition hard_blockers :: "Request \<Rightarrow> Config \<Rightarrow> plan_scan \<Rightarrow> Plan \<Rightarrow> string list \<Rightarrow> string list" where
  "hard_blockers r c s p owners =
     (if \<not> cEnabled c then [disabled_text] else []) @
     (if rMaxCostUSD r \<noteq> None then [ceiling_text] else []) @
     owners @
     (if pRemainingAttempts p = 0 then [''task attempt limit reached''] else []) @
     (if pRemainingSessionRuns p = 0 then [''session run limit reached''] else []) @
     (if f64_le (pRemainingSessionSeconds p) f64_zero then [''session time limit reached''] else []) @
     (if int (length (sc_active s)) \<ge> cMaxConcurrent c then [''checkout concurrency limit reached''] else [])"

definition MakePlan :: "(int \<Rightarrow> kill_result) \<Rightarrow> Request \<Rightarrow> Config \<Rightarrow> history \<Rightarrow> budget_error + Plan" where
  "MakePlan kill r c h =
     bindE (validateRequest r) (\<lambda>_.
     bindE (validateConfig c) (\<lambda>c.
     bindE (validateHistory h) (\<lambda>_.
     bindE (plan_rows r c (rows h) plan_scan_init) (\<lambda>s.
     bindE (sum_float_value (sc_charge s)) (\<lambda>charged.
     bindE (active_blockers kill (sc_active s)) (\<lambda>owners.
       let p = plan_base r c s charged; blockers = hard_blockers r c s p owners
       in case cEstimatedUSD c of
            None \<Rightarrow> Inr (p\<lparr>pBlockers := blockers\<rparr>)
          | Some limit \<Rightarrow>
              bindE (cost_concerns r limit s) (\<lambda>concerns.
                Inr (if cAction c = ''stop'' then p\<lparr>pBlockers := blockers @ concerns\<rparr>
                     else p\<lparr>pBlockers := blockers, pWarnings := concerns\<rparr>))))))))"

section \<open>Report\<close>

record report_scan =
  rp_runs :: "row list"
  rp_active :: nat
  rp_unknown :: nat
  rp_elapsed :: numberSum
  rp_reserved :: numberSum
  rp_cost :: numberSum

definition report_row :: "row \<Rightarrow> report_scan \<Rightarrow> budget_error + report_scan" where
  "report_row row s =
     bindE (sum_add (rp_elapsed s) (jat row ''elapsed_seconds'')) (\<lambda>elapsed.
     bindE (if is_active row
            then bindE (sum_add (rp_reserved s) (jat row ''reserved_seconds'')) (\<lambda>t. Inr (Suc (rp_active s), t))
            else Inr (rp_active s, rp_reserved s)) (\<lambda>(active, reserved).
     bindE (if jat row ''estimated_usd'' = JNull then Inr (Suc (rp_unknown s), rp_cost s)
            else bindE (sum_add (rp_cost s) (jat row ''estimated_usd'')) (\<lambda>t. Inr (rp_unknown s, t)))
       (\<lambda>(unknown, cost).
       Inr \<lparr>rp_runs = rp_runs s @ [row], rp_active = active, rp_unknown = unknown, rp_elapsed = elapsed,
            rp_reserved = reserved, rp_cost = cost\<rparr>)))"

fun report_rows :: "string \<Rightarrow> row list \<Rightarrow> report_scan \<Rightarrow> budget_error + report_scan" where
  "report_rows session [] s = Inr s"
| "report_rows session (row # rs) s =
     (if session \<noteq> [] \<and> jat row ''session'' \<noteq> JStr session then report_rows session rs s
      else bindE (report_row row s) (report_rows session rs))"

record ReportData =
  rep_Schema :: int
  rep_Runs :: "row list"
  rep_Totals :: "(string \<times> jval) list"

definition Report :: "history \<Rightarrow> string \<Rightarrow> budget_error + ReportData" where
  "Report h session =
     (if session \<noteq> [] \<and> \<not> validID session then Inl BadReportSession
      else bindE (validateHistory h) (\<lambda>_.
        bindE (report_rows session (rows h) \<lparr>rp_runs = [], rp_active = 0, rp_unknown = 0,
            rp_elapsed = newSum, rp_reserved = newSum, rp_cost = newSum\<rparr>) (\<lambda>s.
        bindE (sum_number (rp_elapsed s)) (\<lambda>e.
        bindE (sum_number (rp_reserved s)) (\<lambda>r.
        bindE (sum_number (rp_cost s)) (\<lambda>c.
          Inr \<lparr>rep_Schema = 1, rep_Runs = rp_runs s,
            rep_Totals = [(''runs'', JInt (int (length (rp_runs s)))), (''active'', JInt (int (rp_active s))),
              (''elapsed_seconds'', e), (''reserved_seconds'', r), (''known_estimated_usd'', c),
              (''unknown_cost_runs'', JInt (int (rp_unknown s))), (''cost_complete'', JBool (rp_unknown s = 0))]\<rparr>))))))"

section \<open>What a plan says about the history\<close>

definition session_rows :: "string \<Rightarrow> history \<Rightarrow> row list" where
  "session_rows session h = filter (\<lambda>row. jat row ''session'' = JStr session) (rows h)"

definition task_rows :: "string \<Rightarrow> string \<Rightarrow> history \<Rightarrow> row list" where
  "task_rows session task h = filter (\<lambda>row. jat row ''task'' = JStr task) (session_rows session h)"

definition active_rows :: "history \<Rightarrow> row list" where
  "active_rows h = filter is_active (rows h)"

lemma plan_row_groups:
  assumes "plan_row r c row s = Inr s'"
  shows "sc_active s' = sc_active s @ (if is_active row then [row] else []) \<and>
    sc_session s' = sc_session s @ (if jat row ''session'' = JStr (rSession r) then [row] else []) \<and>
    sc_task s' = sc_task s @
      (if jat row ''session'' = JStr (rSession r) \<and> jat row ''task'' = JStr (rTask r) then [row] else [])"
  using assms by (auto simp: plan_row_def Let_def result_simps split: if_splits)

lemma plan_rows_groups:
  "plan_rows r c rs s = Inr s' \<Longrightarrow>
     sc_active s' = sc_active s @ filter is_active rs \<and>
     sc_session s' = sc_session s @ filter (\<lambda>row. jat row ''session'' = JStr (rSession r)) rs \<and>
     sc_task s' = sc_task s @ filter (\<lambda>row. jat row ''task'' = JStr (rTask r))
       (filter (\<lambda>row. jat row ''session'' = JStr (rSession r)) rs)"
proof (induction rs arbitrary: s)
  case (Cons row rs)
  then obtain t where t: "plan_row r c row s = Inr t" "plan_rows r c rs t = Inr s'"
    by (auto simp: result_simps)
  show ?case using Cons.IH [OF t(2)] plan_row_groups [OF t(1)] by auto
qed simp

lemma remaining_zero: "remaining limit n = 0 \<longleftrightarrow> limit \<le> int n"
  by (auto simp: remaining_def Let_def)

lemma remaining_pos: "0 < remaining limit n \<Longrightarrow> remaining limit n = limit - int n"
  by (auto simp: remaining_def Let_def split: if_splits)

lemma remaining_pos_iff: "0 < remaining limit n \<longleftrightarrow> int n < limit"
  by (auto simp: remaining_def Let_def)

lemma remaining_nonneg: "0 \<le> remaining limit n"
  by (simp add: remaining_def Let_def)

text \<open>The parts of a plan, in terms of the history.\<close>

lemma MakePlan_InrE:
  assumes "MakePlan kill r c h = Inr p"
  obtains s charged owners where
    "validateRequest r = Inr ()" "validateConfig c = Inr c" "validateHistory h = Inr ()"
    "sc_active s = active_rows h" "sc_session s = session_rows (rSession r) h"
    "sc_task s = task_rows (rSession r) (rTask r) h"
    "plan_rows r c (rows h) plan_scan_init = Inr s"
    "sum_float_value (sc_charge s) = Inr charged" "active_blockers kill (active_rows h) = Inr owners"
    "pConfiguration p = c" "pRemainingAttempts p = remaining (cMaxAttempts c) (length (sc_task s))"
    "pRemainingSessionRuns p = remaining (cMaxSessionRuns c) (length (sc_session s))"
    "pRemainingSessionSeconds p = f64_max0 (f64_sub (cSessionSeconds c) charged)"
    "pActiveRuns p = length (active_rows h)"
    "set (hard_blockers r c s (plan_base r c s charged) owners) \<subseteq> set (pBlockers p)"
    "cEstimatedUSD c = None \<and> pWarnings p = [] \<or> (\<exists>limit concerns. cEstimatedUSD c = Some limit \<and>
        cost_concerns r limit s = Inr concerns \<and>
        (if cAction c = ''stop'' then set concerns \<subseteq> set (pBlockers p) \<and> pWarnings p = [] else pWarnings p = concerns))"
proof -
  from assms obtain s charged owners where
    v: "validateRequest r = Inr ()" "validateConfig c = Inr c" "validateHistory h = Inr ()" and
    s: "plan_rows r c (rows h) plan_scan_init = Inr s" and
    o: "sum_float_value (sc_charge s) = Inr charged" "active_blockers kill (sc_active s) = Inr owners"
    by (auto simp: MakePlan_def result_simps validateConfig_Inr)
  have g: "sc_active s = active_rows h" "sc_session s = session_rows (rSession r) h"
    "sc_task s = task_rows (rSession r) (rTask r) h"
    using plan_rows_groups [OF s]
    by (simp_all add: plan_scan_init_def active_rows_def session_rows_def task_rows_def)
  note unf = MakePlan_def v s o
  show thesis
  proof (cases "cEstimatedUSD c")
    case None
    with assms have p: "p = (plan_base r c s charged)\<lparr>pBlockers := hard_blockers r c s (plan_base r c s charged) owners\<rparr>"
      by (simp add: unf Let_def)
    show thesis
      by (rule that [OF v g s o(1) o(2) [unfolded g]]) (simp_all add: p plan_base_def g None)
  next
    case (Some limit)
    with assms obtain concerns where cc: "cost_concerns r limit s = Inr concerns"
      by (auto simp: unf Let_def result_simps)
    with assms Some have p: "p = (if cAction c = ''stop''
        then (plan_base r c s charged)\<lparr>pBlockers := hard_blockers r c s (plan_base r c s charged) owners @ concerns\<rparr>
        else (plan_base r c s charged)\<lparr>pBlockers := hard_blockers r c s (plan_base r c s charged) owners, pWarnings := concerns\<rparr>)"
      by (simp add: unf Let_def)
    show thesis
      by (rule that [OF v g s o(1) o(2) [unfolded g]]) (simp_all add: p plan_base_def g Some cc)
  qed
qed

end
