(* ===== verification/Budget_Lifecycle.thy ===== *)
theory Budget_Lifecycle
  imports Budget_Plan
begin

text \<open>
  The locked operations of the ledger (\<open>internal/budget/lifecycle.go\<close>, \<open>storage.go\<close>, \<open>observer.go\<close>): admission of one
  reservation, publication of a process identity and finalisation.  Each operation takes what it
  reads from outside as explicit inputs: the histories given by the unlocked and the locked read,
  the answers of \<open>kill\<close>, the random bytes, the time stamp, its own process id, and whether the encoded
  history fits and how its publication ends.  It returns its result and the history whose
  publication may have replaced the stored one (\<open>None\<close>: nothing was replaced).  The stored file is
  represented by the history value it encodes.
\<close>

section \<open>Storage\<close>

datatype publish_result = Published | NotPublished | Uncertain | UnsafeStore

record ledger_env =
  le_lock :: "budget_error option"
  le_fresh :: "budget_error + history"
  le_kill :: "int \<Rightarrow> kill_result"
  le_timestamp :: string
  le_pid :: int
  le_encodable :: "history \<Rightarrow> bool"
  le_publish :: publish_result

definition write_history :: "ledger_env \<Rightarrow> history \<Rightarrow> (budget_error + unit) \<times> history option" where
  "write_history env h =
     (case validateHistory h of
        Inl e \<Rightarrow> (Inl e, None)
      | Inr _ \<Rightarrow>
          if \<not> le_encodable env h then (Inl HistoryLimit, None)
          else case le_publish env of
              Published \<Rightarrow> (Inr (), Some h)
            | NotPublished \<Rightarrow> (Inl (Publication False), None)
            | Uncertain \<Rightarrow> (Inl (Publication True), Some h)
            | UnsafeStore \<Rightarrow> (Inl Storage, None))"

text \<open>\<open>locked\<close> followed by \<open>read\<close>.\<close>

definition locked_read :: "ledger_env \<Rightarrow> budget_error + history" where
  "locked_read env = (case le_lock env of Some e \<Rightarrow> Inl e | None \<Rightarrow> le_fresh env)"

section \<open>Admission\<close>

definition observePlan :: "(Plan \<Rightarrow> budget_error option) option \<Rightarrow> Plan \<Rightarrow> budget_error + unit" where
  "observePlan observer p =
     (case observer of
        None \<Rightarrow> Inr ()
      | Some f \<Rightarrow> bindE (validateConfig (pConfiguration p)) (\<lambda>c.
          case f (p\<lparr>pConfiguration := c\<rparr>) of None \<Rightarrow> Inr () | Some e \<Rightarrow> Inl e))"

definition hex_byte :: "nat \<Rightarrow> string" where
  "hex_byte n = [hex_char (n div 16 mod 16), hex_char (n mod 16)]"

definition run_identity :: "nat list \<Rightarrow> string" where
  "run_identity bytes =
     (let bytes = bytes[6 := (bytes ! 6) mod 16 + 64];
          bytes = bytes[8 := (bytes ! 8) mod 64 + 128]
      in concat (map hex_byte bytes))"

type_synonym admissionPolicy = "Config \<Rightarrow> f64 \<Rightarrow> budget_error + Config"

record Admission =
  adPlan :: Plan
  adRecord :: "row option"

definition admitted_row :: "ledger_env \<Rightarrow> Request \<Rightarrow> Config \<Rightarrow> Plan \<Rightarrow> string \<Rightarrow> row" where
  "admitted_row env r c p ident =
     [(''id'', JStr ident), (''session'', JStr (rSession r)), (''task'', JStr (rTask r)),
      (''harness'', JStr (rHarness r)), (''role'', JStr (rRole r)), (''model'', JStr (rModel r)),
      (''started_at'', JStr (le_timestamp env)), (''ended_at'', JNull), (''elapsed_seconds'', JNum ''0.0''),
      (''reserved_seconds'', floatNumber_b (f64_min (cTimeoutSeconds c) (pRemainingSessionSeconds p))),
      (''attempt'', integerNumber (cMaxAttempts c - pRemainingAttempts p + 1)),
      (''owner_pid'', integerNumber (le_pid env)), (''process_pid'', JNull), (''status'', JStr ''active''),
      (''outcome'', JStr ''running''), (''exit_code'', JNull), (''tokens'', JNull), (''estimated_usd'', JNull),
      (''complete'', JBool False), (''source'', JStr ''not yet reported''),
      (''warnings'', JArr (map JStr (pWarnings p)))]"

definition admit_write :: "ledger_env \<Rightarrow> nat list option \<Rightarrow> Request \<Rightarrow> Config \<Rightarrow> history \<Rightarrow> Plan \<Rightarrow>
    (budget_error + Admission) \<times> history option" where
  "admit_write env random r c h p =
     (case random of
        None \<Rightarrow> (Inl Entropy, None)
      | Some bytes \<Rightarrow>
          let row = admitted_row env r c p (run_identity bytes);
              (written, store) = write_history env (set_runs (rows h @ [row]) h)
          in case written of
              Inl e \<Rightarrow> (Inl e, store)
            | Inr _ \<Rightarrow> (Inr \<lparr>adPlan = p, adRecord = Some row\<rparr>, store))"

definition admit_locked :: "ledger_env \<Rightarrow> nat list option \<Rightarrow> admissionPolicy option \<Rightarrow>
    (Plan \<Rightarrow> budget_error option) option \<Rightarrow> Request \<Rightarrow> Config \<Rightarrow>
    (budget_error + Admission) \<times> history option" where
  "admit_locked env random policy observer r c =
     (case bindE (locked_read env) (\<lambda>h. bindE (MakePlan (le_kill env) r c h) (\<lambda>p. Inr (h, p))) of
        Inl e \<Rightarrow> (Inl e, None)
      | Inr (h, p) \<Rightarrow>
          if pBlockers p \<noteq> [] then
            (bindE (observePlan observer p) (\<lambda>_. Inr \<lparr>adPlan = p, adRecord = None\<rparr>), None)
          else case (case policy of None \<Rightarrow> Inr (c, p)
                     | Some f \<Rightarrow> bindE (f c (pRemainingSessionSeconds p))
                         (\<lambda>c'. Inr (c', p\<lparr>pConfiguration := c'\<rparr>))) of
              Inl e \<Rightarrow> (Inl e, None)
            | Inr (c', p') \<Rightarrow>
                (case observePlan observer p' of
                   Inl e \<Rightarrow> (Inl e, None)
                 | Inr _ \<Rightarrow> admit_write env random r c' h p'))"

text \<open>\<open>initial\<close> is the unlocked read and its view of the owners; \<open>None\<close> when the caller has prepared
  the plan already.\<close>

definition admitObserved :: "ledger_env \<Rightarrow> nat list option \<Rightarrow> admissionPolicy option \<Rightarrow>
    (Plan \<Rightarrow> budget_error option) option \<Rightarrow>
    ((budget_error + history) \<times> (int \<Rightarrow> kill_result)) option \<Rightarrow> Request \<Rightarrow> Config \<Rightarrow>
    (budget_error + Admission) \<times> history option" where
  "admitObserved env random policy observer initial r c =
     (case bindE (validateRequest r) (\<lambda>_. bindE (validateConfig c) (\<lambda>c.
            case initial of
              None \<Rightarrow> Inr (c, None)
            | Some (unlocked, kill) \<Rightarrow>
                bindE unlocked (\<lambda>h. bindE (MakePlan kill r c h) (\<lambda>p. Inr (c, Some p))))) of
        Inl e \<Rightarrow> (Inl e, None)
      | Inr (c, first) \<Rightarrow>
          (case first of
             Some p \<Rightarrow> if pBlockers p \<noteq> [] then (Inr \<lparr>adPlan = p, adRecord = None\<rparr>, None)
                       else admit_locked env random policy observer r c
           | None \<Rightarrow> admit_locked env random policy observer r c))"

definition Admit :: "ledger_env \<Rightarrow> nat list option \<Rightarrow> (budget_error + history) \<times> (int \<Rightarrow> kill_result) \<Rightarrow>
    Request \<Rightarrow> Config \<Rightarrow> (budget_error + Admission) \<times> history option" where
  "Admit env random initial r c = admitObserved env random None None (Some initial) r c"

section \<open>Ownership\<close>

definition ownerRecord :: "ledger_env \<Rightarrow> history \<Rightarrow> string \<Rightarrow> budget_error + row" where
  "ownerRecord env h ident =
     (if \<not> validID ident then Inl BadIdentity
      else case find (\<lambda>row. jat row ''id'' = JStr ident) (rows h) of
          None \<Rightarrow> Inl Disappeared
        | Some row \<Rightarrow>
            if exactInteger (jat row ''owner_pid'') = Some (le_pid env) \<and> is_active row then Inr row
            else Inl NotOwner)"

definition pid_ok :: "int \<Rightarrow> bool" where
  "pid_ok pid \<longleftrightarrow> 0 < pid \<and> pid \<le> 2147483647"

definition reconcilePID :: "row \<Rightarrow> int option \<Rightarrow> budget_error + int option" where
  "reconcilePID row input =
     (if (case input of None \<Rightarrow> False | Some pid \<Rightarrow> \<not> pid_ok pid) then Inl BadPid
      else if jat row ''process_pid'' \<noteq> JNull then
        (case exactInteger (jat row ''process_pid'') of
           None \<Rightarrow> Inl BadRecordedPid
         | Some stored \<Rightarrow>
             if \<not> pid_ok stored then Inl BadRecordedPid
             else if input \<noteq> None \<and> input \<noteq> Some stored then Inl ConflictingPid
             else Inr (Some stored))
      else Inr input)"

text \<open>The mutation of the row inside the history: the first run with the identity is replaced.\<close>

fun replace_row :: "string \<Rightarrow> row \<Rightarrow> row list \<Rightarrow> row list" where
  "replace_row ident new [] = []"
| "replace_row ident new (row # rs) =
     (if jat row ''id'' = JStr ident then new # rs else row # replace_row ident new rs)"

definition update_run :: "string \<Rightarrow> row \<Rightarrow> history \<Rightarrow> history" where
  "update_run ident new h = set_runs (replace_row ident new (rows h)) h"

definition PublishPID :: "ledger_env \<Rightarrow> string \<Rightarrow> int \<Rightarrow> (budget_error + row) \<times> history option" where
  "PublishPID env ident pid =
     (if \<not> validID ident \<or> \<not> pid_ok pid then (Inl BadPublication, None)
      else case bindE (locked_read env) (\<lambda>h. bindE (ownerRecord env h ident) (\<lambda>row.
            bindE (reconcilePID row (Some pid)) (\<lambda>effective. Inr (h, row, effective)))) of
          Inl e \<Rightarrow> (Inl e, None)
        | Inr (h, row, effective) \<Rightarrow>
            if jat row ''process_pid'' \<noteq> JNull then (Inr row, None)
            else let new = jset ''process_pid'' (integerNumber (the effective)) row;
                     (written, store) = write_history env (update_run ident new h)
              in (bindE written (\<lambda>_. Inr new), store))"

section \<open>Finalisation\<close>

record Completion =
  dOutcome :: string
  dExitCode :: "int option"
  dElapsedSeconds :: f64
  dProcessPID :: "int option"
  dExitConfirmed :: bool
  dOwnershipUnconfirmed :: bool
  dTokens :: "(string \<times> int) list option"
  dEstimatedUSD :: "string option"
  dComplete :: bool
  dFailed :: bool
  dSource :: string

definition token_ok :: "string \<times> int \<Rightarrow> bool" where
  "token_ok kv \<longleftrightarrow> utf8_valid (fst kv) \<and> 0 \<le> snd kv \<and> f64_finite (f64_of_int (snd kv))"

text \<open>A cost must be valid JSON and a finite float; the only texts that pass both checks are JSON
  numbers, and both failures are the same error.\<close>

definition validateCompletion :: "Completion \<Rightarrow> budget_error + unit" where
  "validateCompletion c =
     (if \<not> validOutcome (dOutcome c) False \<or> \<not> f64_finite (dElapsedSeconds c) \<or>
         f64_less (dElapsedSeconds c) f64_zero \<or> \<not> utf8_valid (dSource c)
      then Inl BadCompletion
      else if dExitConfirmed c \<and> dExitCode c = None then Inl ExitWithoutCode
      else if (case dTokens c of None \<Rightarrow> False | Some ts \<Rightarrow> \<not> list_all token_ok ts) then Inl BadTokenMetadata
      else case dEstimatedUSD c of
          None \<Rightarrow> Inr ()
        | Some n \<Rightarrow>
            if \<not> json_number_ok n then Inl BadCostMetadata
            else (case numericFloat (JNum n) of
                None \<Rightarrow> Inl BadCostMetadata
              | Some f \<Rightarrow> if f64_less f f64_zero then Inl BadCostMetadata else Inr ()))"

definition unconfirmed_warning :: string where
  "unconfirmed_warning = ''process exit is unconfirmed; reservation retained; confirm the process group has stopped before recovery in docs/BUDGETS.md''"

definition uncertain_completion :: "Completion \<Rightarrow> int option \<Rightarrow> bool" where
  "uncertain_completion d pid \<longleftrightarrow>
     dOwnershipUnconfirmed d \<or> pid \<noteq> None \<and> (\<not> dExitConfirmed d \<or> dExitCode d = None)"

definition final_outcome :: "Completion \<Rightarrow> string" where
  "final_outcome d =
     (if dOutcome d = ''completed'' \<and> (dFailed d \<or> \<not> dComplete d) then ''failed'' else dOutcome d)"

definition warning_list :: "row \<Rightarrow> jval list" where
  "warning_list row = (case jat row ''warnings'' of JArr ws \<Rightarrow> ws | _ \<Rightarrow> [])"

text \<open>The reported metadata, and the metadata that is withheld.\<close>

definition reported_row :: "Completion \<Rightarrow> int option \<Rightarrow> row \<Rightarrow> row" where
  "reported_row d pid row =
     (let row = (case pid of None \<Rightarrow> row | Some p \<Rightarrow> jset ''process_pid'' (integerNumber p) row);
          row = jset ''outcome'' (JStr (final_outcome d)) row;
          row = jset ''elapsed_seconds'' (floatNumber_b (dElapsedSeconds d)) row;
          row = jset ''complete'' (JBool (dComplete d)) row;
          row = jset ''source'' (JStr (dSource d)) row;
          row = jset ''exit_code'' (case dExitCode d of None \<Rightarrow> JNull | Some i \<Rightarrow> integerNumber i) row;
          row = jset ''tokens'' (case dTokens d of None \<Rightarrow> JNull
                  | Some ts \<Rightarrow> JObj (map (\<lambda>kv. (fst kv, integerNumber (snd kv))) ts)) row
      in jset ''estimated_usd'' (case dEstimatedUSD d of None \<Rightarrow> JNull | Some n \<Rightarrow> JNum n) row)"

definition withheld :: "Completion \<Rightarrow> bool \<Rightarrow> bool" where
  "withheld d uncertain \<longleftrightarrow>
     final_outcome d \<in> set [''timeout'', ''interrupted'', ''output_limit'', ''launch_error''] \<or>
     \<not> dComplete d \<or> uncertain"

definition withhold_row :: "row \<Rightarrow> row" where
  "withhold_row row = jset ''complete'' (JBool False) (jset ''estimated_usd'' JNull (jset ''tokens'' JNull row))"

definition cost_warning :: "Completion \<Rightarrow> row \<Rightarrow> jval list" where
  "cost_warning d row =
     (if final_outcome d = ''launch_error''
      then [JStr ''invocation or metadata processing failed; cost is unknown'']
      else if jat row ''estimated_usd'' = JNull
      then [JStr ''cost is unknown; no complete session cost total can be claimed'']
      else [])"

definition retained_row :: "Completion \<Rightarrow> row \<Rightarrow> row" where
  "retained_row d row =
     (let row = (if final_outcome d \<noteq> ''timeout'' then jset ''outcome'' (JStr ''launch_error'') row else row)
      in jset ''status'' (JStr ''active'') (jset ''ended_at'' JNull (jset ''exit_code'' JNull row)))"

definition completed_row :: "ledger_env \<Rightarrow> row \<Rightarrow> row" where
  "completed_row env row = jset ''ended_at'' (JStr (le_timestamp env)) (jset ''status'' (JStr ''completed'') row)"

definition final_row :: "ledger_env \<Rightarrow> Completion \<Rightarrow> int option \<Rightarrow> row \<Rightarrow> row" where
  "final_row env d pid row =
     (let uncertain = uncertain_completion d pid;
          row = reported_row d pid row;
          warnings = warning_list row;
          row = (if withheld d uncertain then withhold_row row else row);
          warnings = warnings @ cost_warning d row;
          row = (if uncertain then retained_row d row else completed_row env row);
          warnings = warnings @ (if uncertain then [JStr unconfirmed_warning] else [])
      in jset ''warnings'' (JArr warnings) row)"

definition row_request :: "row \<Rightarrow> Request" where
  "row_request row =
     \<lparr>rSession = str_field row ''session'', rTask = str_field row ''task'', rHarness = str_field row ''harness'',
      rRole = str_field row ''role'', rModel = str_field row ''model'', rMaxCostUSD = None\<rparr>"

definition cost_related :: "string \<Rightarrow> bool" where
  "cost_related w \<longleftrightarrow> contains_sub ''cost'' w \<or> contains_sub ''USD'' w"

definition post_warnings :: "Plan \<Rightarrow> jval list" where
  "post_warnings p = map JStr (filter cost_related (pWarnings p @ pBlockers p))"

definition finalize_row :: "ledger_env \<Rightarrow> Config \<Rightarrow> Completion \<Rightarrow> string \<Rightarrow> int option \<Rightarrow> row \<Rightarrow> history \<Rightarrow>
    budget_error + row" where
  "finalize_row env c d ident pid row h =
     (let new = final_row env d pid row
      in if cEstimatedUSD c = None then Inr new
         else bindE (MakePlan (le_kill env) (row_request new) c (update_run ident new h))
           (\<lambda>p. Inr (jset ''warnings'' (JArr (warning_list new @ post_warnings p)) new)))"

definition Finalize :: "ledger_env \<Rightarrow> string \<Rightarrow> Completion \<Rightarrow> Config \<Rightarrow>
    (budget_error + row) \<times> history option" where
  "Finalize env ident d c =
     (if \<not> validID ident then (Inl BadIdentity, None)
      else case bindE (validateConfig c) (\<lambda>c. bindE (validateCompletion d) (\<lambda>_.
            bindE (locked_read env) (\<lambda>h. bindE (ownerRecord env h ident) (\<lambda>row.
            bindE (reconcilePID row (dProcessPID d)) (\<lambda>pid.
              if pid = None \<and> (dExitCode d \<noteq> None \<or> dExitConfirmed d) then Inl PreSpawnExit
              else if pid = None \<and> (uncertain_completion d pid \<or> dOutcome d \<noteq> ''launch_error'') then Inl NoOwnership
              else bindE (finalize_row env c d ident pid row h) (\<lambda>new. Inr (h, new))))))) of
          Inl e \<Rightarrow> (Inl e, None)
        | Inr (h, new) \<Rightarrow>
            (let (written, store) = write_history env (update_run ident new h)
             in (bindE written (\<lambda>_. Inr new), store)))"

end
