(* ===== verification/Capped_Log.thy ===== *)
theory Capped_Log
  imports Prelude
begin

text \<open>
  The contract of an append-only log with quotas, which the budget ledger meets for the runs of a task
  and of a session: a step keeps the identities of all entries in order and adds at most one, and an
  entry of a quota group is only added while the group is below its limit.
\<close>

locale capped_log =
  fixes step :: "'s \<Rightarrow> 's \<Rightarrow> bool"
    and idents :: "'s \<Rightarrow> 'k list"
    and member :: "'k \<Rightarrow> bool"
    and limit :: nat
  assumes step_log: "step s s' \<Longrightarrow> idents s' = idents s \<or>
    (\<exists>k. idents s' = idents s @ [k] \<and> (member k \<longrightarrow> length (filter member (idents s)) < limit))"
begin

lemma reach_prefix: "step\<^sup>*\<^sup>* s s' \<Longrightarrow> \<exists>ks. idents s' = idents s @ ks"
proof (induction rule: rtranclp_induct)
  case (step t u)
  then obtain ks where "idents t = idents s @ ks" by blast
  with step_log [OF step.hyps(2)] show ?case by auto
qed simp

lemma reach_quota:
  "step\<^sup>*\<^sup>* s s' \<Longrightarrow> length (filter member (idents s')) \<le> max limit (length (filter member (idents s)))"
proof (induction rule: rtranclp_induct)
  case (step t u)
  with step_log [OF step.hyps(2)] show ?case by auto
qed simp

end

end
