(* ===== verification/Budget_Props.thy ===== *)
theory Budget_Props
  imports Budget_Lifecycle Capped_Log Json_Numbers
begin

text \<open>
  Correctness of the budget ledger: what an unblocked plan guarantees, what each locked operation
  does to the stored history, and that no sequence of admissions, publications and finalisations
  from any processes exceeds the limits or corrupts the history.
\<close>

section \<open>Integers in records\<close>

lemma exactInteger_integerNumber: "exactInteger (integerNumber i) = Some i"
proof -
  have no: "\<not> is_digit c \<and> c \<noteq> CHR ''-'' \<Longrightarrow> c \<notin> set (int_str i)" for c
    using integer_chars [of i] by blast
  have "CHR ''.'' \<notin> set (int_str i)" "CHR ''e'' \<notin> set (int_str i)" "CHR ''E'' \<notin> set (int_str i)"
    "CHR ''N'' \<notin> set (int_str i)" "CHR ''I'' \<notin> set (int_str i)"
    by (rule no, simp add: is_digit_def)+
  then have "integerSyntax_b (int_str i)"
    by (auto simp: integerSyntax_b_def contains_any_def list_ex_iff)
  then show ?thesis by (simp add: exactInteger_def integerNumber_def parse_int_int_str)
qed

section \<open>Unblocked plans\<close>

lemma active_blockers_Nil:
  "active_blockers kill rs = Inr [] \<longleftrightarrow>
     (\<forall>row \<in> set rs. jat row ''outcome'' = JStr ''running'' \<and> ownerAlive kill (jat row ''owner_pid'') = Inr True)"
proof (induction rs)
  case (Cons row rs)
  then show ?case
    by (cases "ownerAlive kill (jat row ''owner_pid'')"; cases "active_blockers kill rs") auto
qed simp

lemma unblocked_hard:
  assumes "MakePlan kill r c h = Inr p" and "pBlockers p = []"
  obtains charged s where
    "validateConfig c = Inr c" "validateRequest r = Inr ()" "validateHistory h = Inr ()"
    "cEnabled c" "rMaxCostUSD r = None"
    "pConfiguration p = c"
    "int (length (task_rows (rSession r) (rTask r) h)) < cMaxAttempts c"
    "int (length (session_rows (rSession r) h)) < cMaxSessionRuns c"
    "int (length (active_rows h)) < cMaxConcurrent c"
    "pRemainingAttempts p = cMaxAttempts c - int (length (task_rows (rSession r) (rTask r) h))"
    "plan_rows r c (rows h) plan_scan_init = Inr s"
    "sum_float_value (sc_charge s) = Inr charged"
    "pRemainingSessionSeconds p = f64_max0 (f64_sub (cSessionSeconds c) charged)"
    "\<not> f64_le (f64_max0 (f64_sub (cSessionSeconds c) charged)) f64_zero"
    "\<forall>row \<in> set (active_rows h). jat row ''outcome'' = JStr ''running'' \<and>
       ownerAlive kill (jat row ''owner_pid'') = Inr True"
    "cAction c = ''stop'' \<Longrightarrow> (case cEstimatedUSD c of None \<Rightarrow> True
       | Some limit \<Rightarrow> cost_concerns r limit s = Inr [])"
  using assms(1)
proof (cases rule: MakePlan_InrE)
  case (1 s charged owners)
  note hard = 1(15) [unfolded assms(2)]
  have zero: "pRemainingAttempts p > 0" "pRemainingSessionRuns p > 0"
    using hard 1(11,12) remaining_nonneg [of "cMaxAttempts c" "length (sc_task s)"]
      remaining_nonneg [of "cMaxSessionRuns c" "length (sc_session s)"]
    by (auto simp: hard_blockers_def plan_base_def less_le split: if_splits)
  from hard 1(4) have other: "cEnabled c" "rMaxCostUSD r = None" "owners = []"
    "int (length (active_rows h)) < cMaxConcurrent c"
    "\<not> f64_le (f64_max0 (f64_sub (cSessionSeconds c) charged)) f64_zero"
    by (auto simp: hard_blockers_def plan_base_def split: if_splits)
  show thesis
  proof (rule that [OF 1(2,1,3) other(1,2) 1(10) _ _ other(4) _ 1(7,8,13) other(5)])
    show "int (length (task_rows (rSession r) (rTask r) h)) < cMaxAttempts c"
      "int (length (session_rows (rSession r) h)) < cMaxSessionRuns c"
      "pRemainingAttempts p = cMaxAttempts c - int (length (task_rows (rSession r) (rTask r) h))"
      using zero remaining_pos [OF zero(1) [unfolded 1(11)]] 1(5,6,11,12) by (simp_all add: remaining_pos_iff)
    show "\<forall>row \<in> set (active_rows h). jat row ''outcome'' = JStr ''running'' \<and>
       ownerAlive kill (jat row ''owner_pid'') = Inr True"
      using 1(9) other(3) by (simp add: active_blockers_Nil)
    show "case cEstimatedUSD c of None \<Rightarrow> True | Some limit \<Rightarrow> cost_concerns r limit s = Inr []"
      if "cAction c = ''stop''"
      using that 1(16) assms(2) by (auto split: option.splits)
  qed
qed

section \<open>Publication of a new history\<close>

lemma write_history_store:
  "write_history env h = (res, Some h') \<Longrightarrow> h' = h \<and> validateHistory h = Inr ()"
  by (auto simp: write_history_def split: sum.splits if_splits publish_result.splits)

lemma admit_locked_store:
  assumes "admit_locked env random policy observer r c = (res, Some h')"
  obtains h p c' p' bytes where "le_lock env = None" "le_fresh env = Inr h" "MakePlan (le_kill env) r c h = Inr p"
    "pBlockers p = []" "random = Some bytes"
    "c' = c \<and> p' = p \<or> (\<exists>f. policy = Some f \<and> f c (pRemainingSessionSeconds p) = Inr c' \<and> p' = p\<lparr>pConfiguration := c'\<rparr>)"
    "h' = set_runs (rows h @ [admitted_row env r c' p' (run_identity bytes)]) h" "validateHistory h' = Inr ()"
    "\<forall>a. res = Inr a \<longrightarrow> a = \<lparr>adPlan = p', adRecord = Some (admitted_row env r c' p' (run_identity bytes))\<rparr>"
proof -
  from assms obtain h p where hp: "locked_read env = Inr h" "MakePlan (le_kill env) r c h = Inr p"
    by (auto simp: admit_locked_def result_simps split: sum.splits if_splits)
  then have fresh: "le_lock env = None" "le_fresh env = Inr h"
    by (auto simp: locked_read_def split: option.splits)
  note unf = admit_locked_def hp
  from assms have block: "pBlockers p = []" by (auto simp: unf split: if_splits)
  from assms block obtain c' p' where c': "c' = c \<and> p' = p \<or>
        (\<exists>f. policy = Some f \<and> f c (pRemainingSessionSeconds p) = Inr c' \<and> p' = p\<lparr>pConfiguration := c'\<rparr>)"
      and w: "admit_write env random r c' h p' = (res, Some h')"
  proof (cases policy)
    case None
    with assms block that [of c p] show ?thesis by (auto simp: unf split: sum.splits)
  next
    case (Some f)
    with assms block obtain c' where "f c (pRemainingSessionSeconds p) = Inr c'"
        "admit_write env random r c' h (p\<lparr>pConfiguration := c'\<rparr>) = (res, Some h')"
      by (auto simp: unf result_simps split: sum.splits)
    with Some that show ?thesis by blast
  qed
  from w obtain bytes where b: "random = Some bytes" by (auto simp: admit_write_def split: option.splits)
  from w have "write_history env (set_runs (rows h @ [admitted_row env r c' p' (run_identity bytes)]) h) =
      (fst (write_history env (set_runs (rows h @ [admitted_row env r c' p' (run_identity bytes)]) h)), Some h')"
    by (auto simp: admit_write_def b Let_def split: prod.splits sum.splits)
  moreover have "\<forall>a. res = Inr a \<longrightarrow> a = \<lparr>adPlan = p', adRecord = Some (admitted_row env r c' p' (run_identity bytes))\<rparr>"
    using w by (auto simp: admit_write_def b Let_def split: prod.splits sum.splits)
  ultimately show thesis
    using that [OF fresh hp(2) block b c'] write_history_store by blast
qed

lemma admitObserved_store:
  assumes "admitObserved env random policy observer initial r c = (res, Some h')"
  shows "admit_locked env random policy observer r c = (res, Some h')"
  using assms by (auto simp: admitObserved_def result_simps validateConfig_Inr split: sum.splits option.splits if_splits)

lemma find_replace:
  assumes "find (\<lambda>row. jat row ''id'' = JStr ident) rs = Some row"
  shows "\<exists>xs ys. rs = xs @ row # ys \<and> jat row ''id'' = JStr ident \<and> replace_row ident new rs = xs @ new # ys"
  using assms
proof (induction rs)
  case (Cons a rs)
  show ?case
  proof (cases "jat a ''id'' = JStr ident")
    case True
    with Cons.prems have "a # rs = [] @ row # rs \<and> jat row ''id'' = JStr ident \<and> replace_row ident new (a # rs) = [] @ new # rs"
      by simp
    then show ?thesis by blast
  next
    case False
    with Cons obtain xs ys where "rs = xs @ row # ys" "jat row ''id'' = JStr ident" "replace_row ident new rs = xs @ new # ys"
      by auto
    with False have "a # rs = (a # xs) @ row # ys \<and> jat row ''id'' = JStr ident \<and>
        replace_row ident new (a # rs) = (a # xs) @ new # ys" by simp
    then show ?thesis by blast
  qed
qed simp

text \<open>The fields of a run that no later operation may change.\<close>

definition frozen :: "string list" where
  "frozen = [''id'', ''session'', ''task'', ''harness'', ''role'', ''model'', ''started_at'', ''reserved_seconds'',
     ''attempt'', ''owner_pid'']"

definition same_run :: "row \<Rightarrow> row \<Rightarrow> bool" where
  "same_run row new \<longleftrightarrow> (\<forall>k \<in> set frozen. jat new k = jat row k)"

text \<open>A recorded process identity stays.\<close>

definition keeps_pid :: "row \<Rightarrow> row \<Rightarrow> bool" where
  "keeps_pid row new \<longleftrightarrow> (\<forall>p. exactInteger (jat row ''process_pid'') = Some p \<longrightarrow>
     exactInteger (jat new ''process_pid'') = Some p)"

text \<open>One run replaced in place.\<close>

definition patched :: "ledger_env \<Rightarrow> history \<Rightarrow> history \<Rightarrow> bool" where
  "patched env h h' \<longleftrightarrow> (\<exists>xs row new ys. rows h = xs @ row # ys \<and> rows h' = xs @ new # ys \<and> same_run row new \<and> keeps_pid row new \<and>
     is_active row \<and> exactInteger (jat row ''owner_pid'') = Some (le_pid env))"

lemma update_run_patched:
  assumes "ownerRecord env h ident = Inr row" and "same_run row new" and "keeps_pid row new"
  shows "patched env h (update_run ident new h)"
proof -
  from assms(1) have f: "find (\<lambda>row. jat row ''id'' = JStr ident) (rows h) = Some row"
    and o: "exactInteger (jat row ''owner_pid'') = Some (le_pid env)" "is_active row"
    by (auto simp: ownerRecord_def split: if_splits option.splits)
  from find_replace [OF f, of new] assms(2,3) o show ?thesis
    unfolding patched_def update_run_def by auto
qed

lemma same_run_jset: "k \<notin> set frozen \<Longrightarrow> same_run row (jset k v row') = same_run row row'"
  by (auto simp: same_run_def)

lemma same_run_refl: "same_run row row"
  by (simp add: same_run_def)

lemma same_run_final: "same_run row (final_row env d pid row)"
proof -
  have rep: "same_run row (reported_row d pid row)"
    by (cases pid) (simp_all add: reported_row_def Let_def same_run_jset same_run_refl frozen_def)
  then have wh: "same_run row (withhold_row (reported_row d pid row))"
    by (simp add: withhold_row_def same_run_jset frozen_def)
  have "same_run row (retained_row d r) = same_run row r" "same_run row (completed_row env r) = same_run row r" for r
    by (simp_all add: retained_row_def completed_row_def Let_def same_run_jset frozen_def)
  with rep wh show ?thesis
    by (simp only: final_row_def Let_def split: if_split) (simp add: same_run_jset frozen_def)
qed

lemma same_run_finalize: "finalize_row env c d ident pid row h = Inr new \<Longrightarrow> same_run row new"
  using same_run_final [of row env d pid]
  by (auto simp: finalize_row_def Let_def result_simps same_run_jset frozen_def split: if_splits)

lemma final_row_pid:
  "jat (final_row env d pid row) ''process_pid'' = (case pid of None \<Rightarrow> jat row ''process_pid'' | Some p \<Rightarrow> integerNumber p)"
  by (simp add: final_row_def reported_row_def withhold_row_def retained_row_def completed_row_def Let_def split: option.split)

lemma keeps_pid_finalize:
  assumes "reconcilePID row (dProcessPID d) = Inr pid" and "finalize_row env c d ident pid row h = Inr new"
  shows "keeps_pid row new"
proof -
  have "jat new ''process_pid'' = jat (final_row env d pid row) ''process_pid''"
    using assms(2) by (auto simp: finalize_row_def Let_def result_simps split: if_splits)
  moreover have "exactInteger (jat row ''process_pid'') = Some p \<Longrightarrow> pid = Some p" for p
    using assms(1) by (auto simp: reconcilePID_def exactInteger_def split: if_splits option.splits)
  ultimately show ?thesis by (auto simp: keeps_pid_def final_row_pid exactInteger_integerNumber)
qed

lemma PublishPID_store:
  assumes "PublishPID env ident pid = (res, Some h')"
  obtains h where "le_lock env = None" "le_fresh env = Inr h" "validateHistory h' = Inr ()" "patched env h h'"
proof -
  from assms obtain h row eff where h: "locked_read env = Inr h" "ownerRecord env h ident = Inr row"
      "reconcilePID row (Some pid) = Inr eff"
    by (auto simp: PublishPID_def result_simps split: sum.splits if_splits)
  note unf = PublishPID_def h
  let ?new = "jset ''process_pid'' (integerNumber (the eff)) row"
  from assms have "write_history env (update_run ident ?new h) = (fst (write_history env (update_run ident ?new h)), Some h')"
    and "jat row ''process_pid'' = JNull"
    by (auto simp: unf Let_def split: if_splits prod.splits)
  moreover from this(2) have "keeps_pid row ?new" by (simp add: keeps_pid_def exactInteger_def)
  ultimately show thesis
    using write_history_store update_run_patched [OF h(2), of ?new] h(1) that
    by (fastforce simp: same_run_jset same_run_refl frozen_def locked_read_def split: option.splits)
qed

lemma Finalize_store:
  assumes "Finalize env ident d c = (res, Some h')"
  obtains h where "le_lock env = None" "le_fresh env = Inr h" "validateHistory h' = Inr ()" "patched env h h'"
proof -
  from assms obtain h row pid new where h: "locked_read env = Inr h" "ownerRecord env h ident = Inr row"
      "finalize_row env c d ident pid row h = Inr new" "reconcilePID row (dProcessPID d) = Inr pid"
      and w: "write_history env (update_run ident new h) = (fst (write_history env (update_run ident new h)), Some h')"
    by (auto simp: Finalize_def Let_def result_simps validateConfig_Inr split: sum.splits if_splits prod.splits)
  from write_history_store [OF w] update_run_patched [OF h(2) same_run_finalize [OF h(3)] keeps_pid_finalize [OF h(4,3)]] h(1) that show thesis
    by (auto simp: locked_read_def split: option.splits)
qed

section \<open>Sequences of locked operations\<close>

text \<open>A policy may only shorten execution time, which is what the controller's policy does.\<close>

definition keeps_limits :: "admissionPolicy \<Rightarrow> bool" where
  "keeps_limits f \<longleftrightarrow> (\<forall>c x c'. f c x = Inr c' \<longrightarrow>
     cMaxAttempts c' = cMaxAttempts c \<and> cMaxSessionRuns c' = cMaxSessionRuns c \<and>
     cMaxConcurrent c' = cMaxConcurrent c)"

text \<open>One locked operation of any process that replaces the stored history.  The lock gives it the
  stored history as its fresh read; \<open>cfg\<close> restricts the configurations in use.\<close>

inductive ledger_step :: "(Config \<Rightarrow> bool) \<Rightarrow> history \<Rightarrow> history \<Rightarrow> bool" for cfg where
  step_admit: "le_fresh env = Inr h \<Longrightarrow> cfg c \<Longrightarrow> (\<forall>f. policy = Some f \<longrightarrow> keeps_limits f) \<Longrightarrow>
     admitObserved env random policy observer initial r c = (res, Some h') \<Longrightarrow> ledger_step cfg h h'"
| step_publish: "le_fresh env = Inr h \<Longrightarrow> PublishPID env ident pid = (res', Some h') \<Longrightarrow> ledger_step cfg h h'"
| step_finalize: "le_fresh env = Inr h \<Longrightarrow> Finalize env ident d c = (res', Some h') \<Longrightarrow> ledger_step cfg h h'"

inductive_cases ledger_stepE: "ledger_step cfg h h'"

text \<open>Every step either appends the row of an unblocked plan or patches one active row in place.\<close>

lemma ledger_step_shape:
  assumes "ledger_step cfg h h'"
  obtains (append) env r c c' p p' bytes where "cfg c" "MakePlan (le_kill env) r c h = Inr p" "pBlockers p = []"
      "cMaxAttempts c' = cMaxAttempts c" "pRemainingAttempts p' = pRemainingAttempts p"
      "rows h' = rows h @ [admitted_row env r c' p' (run_identity bytes)]" "validateHistory h' = Inr ()"
    | (patch) env where "patched env h h'" "validateHistory h' = Inr ()"
  using assms
proof (cases rule: ledger_step.cases)
  case (step_admit env c policy random observer initial r res)
  from admitObserved_store [OF step_admit(4)] obtain h0 p c' p' bytes where
    s: "le_fresh env = Inr h0" "MakePlan (le_kill env) r c h0 = Inr p" "pBlockers p = []"
      "c' = c \<and> p' = p \<or> (\<exists>f. policy = Some f \<and> f c (pRemainingSessionSeconds p) = Inr c' \<and> p' = p\<lparr>pConfiguration := c'\<rparr>)"
      "h' = set_runs (rows h0 @ [admitted_row env r c' p' (run_identity bytes)]) h0" "validateHistory h' = Inr ()"
    by (rule admit_locked_store) blast
  have "cMaxAttempts c' = cMaxAttempts c \<and> pRemainingAttempts p' = pRemainingAttempts p"
    using s(4) step_admit(3) by (auto simp: keeps_limits_def)
  with s step_admit(1,2) show thesis by (intro append [of c env r p c' p' bytes]) auto
next
  case (step_publish env ident pid res')
  from PublishPID_store [OF step_publish(2)] step_publish(1) patch show thesis by auto
next
  case (step_finalize env ident d c res')
  from Finalize_store [OF step_finalize(2)] step_finalize(1) patch show thesis by auto
qed

definition run_key :: "row \<Rightarrow> jval \<times> jval \<times> jval" where
  "run_key row = (jat row ''session'', jat row ''task'', jat row ''id'')"

definition ledger_keys :: "history \<Rightarrow> (jval \<times> jval \<times> jval) list" where
  "ledger_keys h = map run_key (rows h)"

definition in_session :: "string \<Rightarrow> jval \<times> jval \<times> jval \<Rightarrow> bool" where
  "in_session session k \<longleftrightarrow> fst k = JStr session"

definition in_task :: "string \<Rightarrow> string \<Rightarrow> jval \<times> jval \<times> jval \<Rightarrow> bool" where
  "in_task session task k \<longleftrightarrow> fst k = JStr session \<and> fst (snd k) = JStr task"

lemma session_keys: "length (filter (in_session session) (ledger_keys h)) = length (session_rows session h)"
  by (simp add: ledger_keys_def session_rows_def filter_map comp_def in_session_def run_key_def)

lemma task_keys: "length (filter (in_task session task) (ledger_keys h)) = length (task_rows session task h)"
  by (simp add: ledger_keys_def task_rows_def session_rows_def filter_map comp_def in_task_def run_key_def
      conj_commute)

lemma patched_keys: "patched env h h' \<Longrightarrow> ledger_keys h' = ledger_keys h"
  by (auto simp: patched_def ledger_keys_def run_key_def same_run_def frozen_def)

lemma admitted_row_fields:
  "jat (admitted_row env r c p i) ''id'' = JStr i" "jat (admitted_row env r c p i) ''session'' = JStr (rSession r)"
  "jat (admitted_row env r c p i) ''task'' = JStr (rTask r)"
  "jat (admitted_row env r c p i) ''attempt'' = integerNumber (cMaxAttempts c - pRemainingAttempts p + 1)"
  "is_active (admitted_row env r c p i)" "jat (admitted_row env r c p i) ''outcome'' = JStr ''running''"
  by (simp_all add: admitted_row_def is_active_def)

lemma step_quota:
  assumes "ledger_step cfg h h'"
  shows "ledger_keys h' = ledger_keys h \<or> (\<exists>k c. ledger_keys h' = ledger_keys h @ [k] \<and> cfg c \<and>
      (in_task session task k \<longrightarrow> int (length (filter (in_task session task) (ledger_keys h))) < cMaxAttempts c) \<and>
      (in_session session k \<longrightarrow> int (length (filter (in_session session) (ledger_keys h))) < cMaxSessionRuns c))"
  using assms
proof (cases rule: ledger_step_shape)
  case (append env r c c' p p' bytes)
  from unblocked_hard [OF append(2,3)] have
    "int (length (task_rows (rSession r) (rTask r) h)) < cMaxAttempts c"
    "int (length (session_rows (rSession r) h)) < cMaxSessionRuns c" by blast+
  with append(1,6) show ?thesis
    unfolding session_keys task_keys
    by (intro disjI2 exI [of _ "run_key (admitted_row env r c' p' (run_identity bytes))"] exI [of _ c])
      (auto simp: ledger_keys_def run_key_def in_task_def in_session_def admitted_row_fields)
next
  case (patch env)
  then show ?thesis by (simp add: patched_keys)
qed

interpretation task_quota: capped_log
  "ledger_step (\<lambda>c. cMaxAttempts c \<le> int n)" ledger_keys "in_task session task" n
  for n session task
  by unfold_locales (drule step_quota [of _ _ _ session task], force)

interpretation session_quota: capped_log
  "ledger_step (\<lambda>c. cMaxSessionRuns c \<le> int n)" ledger_keys "in_session session" n
  for n session
  by unfold_locales (drule step_quota [of _ _ _ session], force)

section \<open>Concurrency, numbering and validity\<close>

lemma patched_active: "patched env h h' \<Longrightarrow> length (active_rows h') \<le> length (active_rows h)"
  by (auto simp: patched_def active_rows_def)

lemma step_concurrency:
  assumes "ledger_step cfg h h'" and "\<And>c. cfg c \<Longrightarrow> cMaxConcurrent c \<le> int n"
  shows "length (active_rows h') \<le> max n (length (active_rows h))"
  using assms(1)
proof (cases rule: ledger_step_shape)
  case (append env r c c' p p' bytes)
  have "int (length (active_rows h)) < cMaxConcurrent c" using unblocked_hard [OF append(2,3)] by blast
  moreover have "length (active_rows h') = Suc (length (active_rows h))"
    by (simp add: active_rows_def append(6) admitted_row_fields)
  ultimately show ?thesis using append(1) assms(2) by fastforce
next
  case (patch env)
  with patched_active [OF patch(1)] show ?thesis by simp
qed

lemma reach_concurrency:
  "(ledger_step cfg)\<^sup>*\<^sup>* h h' \<Longrightarrow> (\<And>c. cfg c \<Longrightarrow> cMaxConcurrent c \<le> int n) \<Longrightarrow>
     length (active_rows h') \<le> max n (length (active_rows h))"
proof (induction rule: rtranclp_induct)
  case (step h1 h2)
  with step_concurrency [OF step.hyps(2), of n] show ?case by fastforce
qed simp

lemma step_valid: "ledger_step cfg h h' \<Longrightarrow> validateHistory h' = Inr ()"
  by (erule ledger_step_shape) auto

lemma reach_valid:
  "(ledger_step cfg)\<^sup>*\<^sup>* h h' \<Longrightarrow> validateHistory h = Inr () \<Longrightarrow> validateHistory h' = Inr ()"
  by (induction rule: rtranclp_induct) (auto dest: step_valid)

text \<open>Attempt numbers of a task count from one, in ledger order.\<close>

definition attempts_numbered :: "history \<Rightarrow> bool" where
  "attempts_numbered h \<longleftrightarrow> (\<forall>session task.
     map (\<lambda>row. jat row ''attempt'') (task_rows session task h) =
     map (\<lambda>i. integerNumber (int i)) [1..<Suc (length (task_rows session task h))])"

lemma patched_attempts:
  assumes "patched env h h'"
  shows "map (\<lambda>row. jat row ''attempt'') (task_rows s t h') = map (\<lambda>row. jat row ''attempt'') (task_rows s t h)"
proof -
  from assms obtain xs row new ys where "rows h = xs @ row # ys" "rows h' = xs @ new # ys" "same_run row new"
    by (auto simp: patched_def)
  then show ?thesis by (auto simp: task_rows_def session_rows_def same_run_def frozen_def)
qed

lemma step_numbered:
  assumes "ledger_step cfg h h'" and "attempts_numbered h"
  shows "attempts_numbered h'"
  using assms(1)
proof (cases rule: ledger_step_shape)
  case (append env r c c' p p' bytes)
  let ?row = "admitted_row env r c' p' (run_identity bytes)"
  have "pRemainingAttempts p = cMaxAttempts c - int (length (task_rows (rSession r) (rTask r) h))"
    using unblocked_hard [OF append(2,3)] by blast
  then have num: "jat ?row ''attempt'' = integerNumber (int (Suc (length (task_rows (rSession r) (rTask r) h))))"
    by (simp add: admitted_row_fields append(4,5) add.commute)
  show ?thesis
    unfolding attempts_numbered_def
  proof (intro allI)
    fix s t
    have new: "task_rows s t h' = task_rows s t h @ (if s = rSession r \<and> t = rTask r then [?row] else [])"
      by (auto simp: task_rows_def session_rows_def append(6) admitted_row_fields)
    show "map (\<lambda>row. jat row ''attempt'') (task_rows s t h') =
        map (\<lambda>i. integerNumber (int i)) [1..<Suc (length (task_rows s t h'))]"
      using assms(2) num by (simp add: new attempts_numbered_def add.commute)
  qed
next
  case (patch env)
  have len: "length (task_rows s t h') = length (task_rows s t h)" for s t
    using patched_attempts [OF patch(1), of s t] by (metis length_map)
  with assms(2) show ?thesis
    by (simp add: attempts_numbered_def patched_attempts [OF patch(1)])
qed

text \<open>A recorded process identity is never changed, whatever operations follow.\<close>

lemma step_pid:
  assumes "ledger_step cfg h h'" and "i < length (rows h)" and "exactInteger (jat (rows h ! i) ''process_pid'') = Some p"
  shows "i < length (rows h') \<and> exactInteger (jat (rows h' ! i) ''process_pid'') = Some p"
  using assms(1)
proof (cases rule: ledger_step_shape)
  case (append env r c c' q q' bytes)
  then show ?thesis using assms(2,3) by (simp add: nth_append)
next
  case (patch env)
  then obtain xs row new ys where "rows h = xs @ row # ys" "rows h' = xs @ new # ys" "keeps_pid row new"
    by (auto simp: patched_def)
  then show ?thesis using assms(2,3) by (auto simp: nth_append nth_Cons keeps_pid_def split: nat.splits if_splits)
qed

lemma reach_pid:
  "(ledger_step cfg)\<^sup>*\<^sup>* h h' \<Longrightarrow> i < length (rows h) \<Longrightarrow> exactInteger (jat (rows h ! i) ''process_pid'') = Some p \<Longrightarrow>
   i < length (rows h') \<and> exactInteger (jat (rows h' ! i) ''process_pid'') = Some p"
  by (induction rule: rtranclp_induct) (auto dest: step_pid)

lemma reach_numbered:
  "(ledger_step cfg)\<^sup>*\<^sup>* h h' \<Longrightarrow> attempts_numbered h \<Longrightarrow> attempts_numbered h'"
  by (induction rule: rtranclp_induct) (auto dest: step_numbered)

section \<open>Retained reservations\<close>

lemma final_row_uncertain:
  assumes "uncertain_completion d pid"
  shows "is_active (final_row env d pid row) \<and> jat (final_row env d pid row) ''ended_at'' = JNull \<and>
    jat (final_row env d pid row) ''exit_code'' = JNull \<and> jat (final_row env d pid row) ''estimated_usd'' = JNull \<and>
    jat (final_row env d pid row) ''tokens'' = JNull \<and> jat (final_row env d pid row) ''complete'' = JBool False \<and>
    jat (final_row env d pid row) ''outcome'' \<in> {JStr ''timeout'', JStr ''launch_error''}"
proof -
  have "withheld d True" by (simp add: withheld_def)
  with assms show ?thesis
    by (auto simp: final_row_def Let_def retained_row_def withhold_row_def is_active_def reported_row_def)
qed

lemma finalize_row_fields:
  assumes "finalize_row env c d ident pid row h = Inr new" and "k \<noteq> ''warnings''"
  shows "jat new k = jat (final_row env d pid row) k"
  using assms by (auto simp: finalize_row_def Let_def result_simps split: if_splits)

lemma final_row_certain:
  assumes "\<not> uncertain_completion d pid"
  shows "jat (final_row env d pid row) ''status'' = JStr ''completed'' \<and>
    jat (final_row env d pid row) ''ended_at'' = JStr (le_timestamp env) \<and>
    jat (final_row env d pid row) ''outcome'' = JStr (final_outcome d)"
  using assms by (simp add: final_row_def Let_def completed_row_def withhold_row_def reported_row_def)


end
