(* ===== verification/Budget_Sample.thy ===== *)
theory Budget_Sample
  imports Budget_Props
begin

text \<open>
  A concrete ledger run for the witnesses of the budget properties: a valid configuration and
  request, the plan they give on the empty history, and the admission that follows.
\<close>

definition sample_config :: Config where
  "sample_config = \<lparr>cEnabled = True, cAction = ''stop'', cMaxAttempts = 2, cMaxSessionRuns = 3, cMaxConcurrent = 2,
     cTimeoutSeconds = F_Fin 1, cSessionSeconds = F_Fin 2, cEstimatedUSD = None\<rparr>"

definition sample_request :: Request where
  "sample_request = \<lparr>rSession = ''s'', rTask = ''t'', rHarness = ''claude'', rRole = ''reviewer'', rModel = [],
     rMaxCostUSD = None\<rparr>"

definition sample_env :: "history \<Rightarrow> ledger_env" where
  "sample_env h = \<lparr>le_lock = None, le_fresh = Inr h, le_kill = (\<lambda>_. KillOk), le_timestamp = ''now'', le_pid = 7,
     le_encodable = (\<lambda>_. True), le_publish = Published\<rparr>"

lemma ints: "f64_of_int 2 = F_Fin 2" "f64_of_int 3 = F_Fin 3" "f64_of_int 1 = F_Fin 1"  "f64_of_int 7 = F_Fin 7"
  by (simp_all add: f64_of_int_def round64_numeral)

lemma sample_config_valid: "validateConfig sample_config = Inr sample_config"
  by (simp add: validateConfig_Inr sample_config_def limit_ok_def ints seconds_ok_def f64_zero_def)

lemma sample_ids: "validID ''s''" "validID ''t''" "validID (replicate 32 CHR ''a'')"
  by (simp_all add: validID_def id_alnum_def numeral_eq_Suc)

lemma sample_request_valid: "validateRequest sample_request = Inr ()"
  by (simp add: validateRequest_def sample_request_def sample_ids harness_ok_def harnessValues_def role_ok_def
     roleValues_def utf8_valid_def runes.simps)

lemma digit_chars: "digit_char 0 = CHR ''0''" "digit_char (Suc 0) = CHR ''1''" "digit_char 7 = CHR ''7''"
  by code_simp+

lemma sum_new: "sum_float_value newSum = Inr (F_Fin 0)"
proof -
  have "parse_unsigned ''0'' = Some 0"
    by (simp add: parse_unsigned_def Let_def is_digit_def digits_val_def digit_val_def)
  then have "parse_float ''0'' = Some (F_Fin 0, False)"
    by (simp add: parse_float_def sign_split_def Let_def)
  then show ?thesis
    by (simp add: sum_float_value_def sum_number_def newSum_def integerNumber_def numericFloat_def int_str_def nat_str.simps [of 0] digit_chars)
qed

lemma sample_base:
  "plan_base sample_request sample_config plan_scan_init (F_Fin 0) = p \<Longrightarrow>
   pRemainingSessionSeconds p = F_Fin 2 \<and> pRemainingAttempts p = 2 \<and> pRemainingSessionRuns p = 3 \<and> pWarnings p = []"
  by (auto simp: plan_base_def sample_config_def sample_request_def remaining_def f64_sub_def round64_numeral
     f64_max0_def f64_zero_def plan_scan_init_def)

lemma sample_plan: "\<exists>p. MakePlan kill sample_request sample_config emptyHistory = Inr p \<and> pBlockers p = [] \<and>
   pRemainingSessionSeconds p = F_Fin 2 \<and> pRemainingAttempts p = 2 \<and> pWarnings p = []"
proof -
  obtain p where p: "plan_base sample_request sample_config plan_scan_init (F_Fin 0) = p" by blast
  note b = sample_base [OF p]
  have hard: "hard_blockers sample_request sample_config plan_scan_init p [] = []"
    using b by (simp add: hard_blockers_def) (simp add: sample_request_def sample_config_def plan_scan_init_def f64_zero_def)
  have "sc_charge plan_scan_init = newSum" "sc_active plan_scan_init = []" "cEstimatedUSD sample_config = None"
    by (simp_all add: plan_scan_init_def sample_config_def)
  then have "MakePlan kill sample_request sample_config emptyHistory = Inr (p\<lparr>pBlockers := []\<rparr>)"
    using emptyHistory_valid p hard
    by (simp add: MakePlan_def sample_request_valid sample_config_valid sum_new Let_def)
  with b show ?thesis by simp
qed

lemma format_g_1: "format_g (F_Fin 1) = ''1''"
proof -
  have d: "dec_exponent 1 = 0" by (simp add: dec_exponent_def nat_str.simps)
  have "decimal_at 1 1 = Some 1"
    by (simp add: decimal_at_def d pow_int_def Let_def round64_numeral round_half_even_def)
  then have "shortest_from 1 [1..<18] = (1, 1)" by (simp add: upt_rec [of "Suc 0" 18])
  then have "shortest_digits 1 = (''1'', 1)"
    by (simp add: shortest_digits_def d trim_left_def nat_str.simps digit_chars)
  then show ?thesis
    by (simp add: format_g_def format_with_def text_f_def)
qed

lemma numeric_simple: "numericFloat (JNum ''1.0'') = Some (F_Fin 1)" "numericFloat (JNum ''0.0'') = Some (F_Fin 0)"
proof -
  have "parse_unsigned ''1.0'' = Some 1" "parse_unsigned ''0.0'' = Some 0"
    by (simp_all add: parse_unsigned_def Let_def is_digit_def digits_val_def digit_val_def pow_int_def)
  then have "parse_float ''1.0'' = Some (F_Fin 1, False)" "parse_float ''0.0'' = Some (F_Fin 0, False)"
    by (simp_all add: parse_float_def sign_split_def Let_def)
  then show "numericFloat (JNum ''1.0'') = Some (F_Fin 1)" "numericFloat (JNum ''0.0'') = Some (F_Fin 0)"
    by (simp_all add: numericFloat_def)
qed

lemma sample_reserved: "floatNumber_b (F_Fin 1) = JNum ''1.0''"
  by (simp add: floatNumber_b_def format_g_1 contains_any_def)

lemma exact_int: "exactInteger (integerNumber 1) = Some 1" "exactInteger (integerNumber 7) = Some 7"
   by (simp_all add: exactInteger_def integerNumber_def int_str_def nat_str.simps digit_chars integerSyntax_b_def contains_any_def
     parse_int_def sign_split_def digits_val_def is_digit_def digit_val_def)

lemma sample_identity: "validID (run_identity (replicate 16 170))"
  by code_simp

lemma sample_env_fields [simp]: "le_lock (sample_env h) = None" "le_fresh (sample_env h) = Inr h"
  "le_kill (sample_env h) = (\<lambda>_. KillOk)" "le_encodable (sample_env h) = (\<lambda>_. True)" "le_publish (sample_env h) = Published"
  by (simp_all add: sample_env_def)

definition sample_bytes :: "nat list" where
  "sample_bytes = replicate 16 170"

lemma sample_identity': "validID (run_identity sample_bytes)"
  by (simp add: sample_bytes_def sample_identity)

definition sample_row :: row where
  "sample_row =
     [(''id'', JStr (run_identity sample_bytes)), (''session'', JStr ''s''), (''task'', JStr ''t''),
      (''harness'', JStr ''claude''), (''role'', JStr ''reviewer''), (''model'', JStr []),
      (''started_at'', JStr ''now''), (''ended_at'', JNull), (''elapsed_seconds'', JNum ''0.0''),
      (''reserved_seconds'', JNum ''1.0''), (''attempt'', integerNumber 1), (''owner_pid'', integerNumber 7),
      (''process_pid'', JNull), (''status'', JStr ''active''), (''outcome'', JStr ''running''),
      (''exit_code'', JNull), (''tokens'', JNull), (''estimated_usd'', JNull), (''complete'', JBool False),
      (''source'', JStr ''not yet reported''), (''warnings'', JArr [])]"

lemma sample_row_eq:
  assumes "pRemainingSessionSeconds p = F_Fin 2" "pRemainingAttempts p = 2" "pWarnings p = []"
  shows "admitted_row (sample_env h) sample_request sample_config p (run_identity sample_bytes) = sample_row"
  using assms by (simp add: admitted_row_def sample_request_def sample_env_def sample_config_def sample_row_def
      f64_min_def f64_is_zero_def sample_reserved)

lemma sample_checks: "nonneg_float (JNum ''0.0'')" "nonneg_float (JNum ''1.0'')"
  "checkedInteger (integerNumber 1) False = Some 1" "checkedInteger (integerNumber 7) False = Some 7"
  by (simp_all add: nonneg_float_def numeric_simple checkedInteger_def exact_int ints f64_zero_def)

lemmas record_simps = validateRecord_def record_fields_ok_def record_status_ok_def Let_def is_str_def
  str_field_def is_bool_def harness_ok_def harnessValues_def role_ok_def roleValues_def validOutcome_def
  string_list_ok_def tokens_ok_def

lemma sample_row_valid: "validateRecord sample_row = Inr ()"
  by (simp add: record_simps sample_row_def sample_checks sample_ids sample_identity')

definition sample_ledger :: history where
  "sample_ledger = (case snd (admitObserved (sample_env emptyHistory) (Some sample_bytes) None None None
     sample_request sample_config) of Some h \<Rightarrow> h | None \<Rightarrow> [])"

lemma sample_admission:
  "\<exists>a. admitObserved (sample_env emptyHistory) (Some sample_bytes) None None None sample_request sample_config
     = (Inr a, Some sample_ledger) \<and> adRecord a = Some sample_row \<and>
     sample_ledger = set_runs [sample_row] emptyHistory"
proof -
  obtain p where p: "MakePlan (le_kill (sample_env emptyHistory)) sample_request sample_config emptyHistory = Inr p"
     "pBlockers p = []" "pRemainingSessionSeconds p = F_Fin 2" "pRemainingAttempts p = 2" "pWarnings p = []"
    using sample_plan by blast
  note row = sample_row_eq [OF p(3-5), of emptyHistory]
  have "runs_ok [sample_row]" using sample_row_valid by (simp add: runs_ok_def)
  then have "validateHistory (set_runs [sample_row] emptyHistory) = Inr ()"
    using emptyHistory_valid by (simp add: validateHistory_set_runs)
  then have "write_history (sample_env emptyHistory) (set_runs [sample_row] emptyHistory) =
      (Inr (), Some (set_runs [sample_row] emptyHistory))"
    by (simp add: write_history_def)
  then have "admitObserved (sample_env emptyHistory) (Some sample_bytes) None None None sample_request sample_config
     = (Inr \<lparr>adPlan = p, adRecord = Some sample_row\<rparr>, Some (set_runs [sample_row] emptyHistory))"
    using p emptyHistory_valid row
    by (simp add: admitObserved_def sample_request_valid sample_config_valid admit_locked_def observePlan_def
        admit_write_def Let_def locked_read_def)
  then show ?thesis by (simp add: sample_ledger_def)
qed

lemma sample_step: "cfg sample_config \<Longrightarrow> ledger_step cfg emptyHistory sample_ledger"
proof -
  assume "cfg sample_config"
  moreover obtain a where "admitObserved (sample_env emptyHistory) (Some sample_bytes) None None None
      sample_request sample_config = (Inr a, Some sample_ledger)"
    using sample_admission by blast
  ultimately show ?thesis by (intro step_admit) simp_all
qed

lemma sample_ledger_valid: "validateHistory sample_ledger = Inr () \<and> rows sample_ledger = [sample_row]"
proof
  show "validateHistory sample_ledger = Inr ()" using step_valid [OF sample_step [of "\<lambda>_. True"]] by simp
  have "sample_ledger = set_runs [sample_row] emptyHistory" using sample_admission by blast
  then show "rows sample_ledger = [sample_row]" by (rule ssubst) simp
qed

section \<open>Publication and finalisation of the sample run\<close>

definition sample_ident :: string where
  "sample_ident = run_identity sample_bytes"

lemma sample_write:
  assumes "validateRecord new = Inr ()"
  shows "write_history (sample_env sample_ledger) (update_run sample_ident new sample_ledger) =
    (Inr (), Some (update_run sample_ident new sample_ledger))"
proof -
  have "rows (update_run sample_ident new sample_ledger) = [new]"
    using sample_ledger_valid by (simp add: update_run_def sample_row_def sample_ident_def)
  then have "validateHistory (update_run sample_ident new sample_ledger) = Inr ()"
    using assms sample_ledger_valid
    by (simp add: update_run_def validateHistory_set_runs runs_ok_def)
  then show ?thesis by (simp add: write_history_def)
qed

lemma sample_owned: "ownerRecord (sample_env sample_ledger) sample_ledger sample_ident = Inr sample_row"
  using sample_ledger_valid
  by (simp add: ownerRecord_def sample_ident_def sample_identity' sample_row_def is_active_def exact_int sample_env_def)

lemma sample_publish:
  "PublishPID (sample_env sample_ledger) sample_ident 7 =
     (Inr (jset ''process_pid'' (integerNumber 7) sample_row),
      Some (update_run sample_ident (jset ''process_pid'' (integerNumber 7) sample_row) sample_ledger))"
proof -
  have "validateRecord (jset ''process_pid'' (integerNumber 7) sample_row) = Inr ()"
    by (simp add: record_simps sample_row_def sample_checks sample_ids sample_identity')
  moreover have "jat sample_row ''process_pid'' = JNull" "validID sample_ident"
    by (simp_all add: sample_row_def sample_ident_def sample_identity')
  ultimately show ?thesis using sample_write
    by (simp add: PublishPID_def locked_read_def sample_owned reconcilePID_def pid_ok_def Let_def)
qed

definition sample_completion :: "bool \<Rightarrow> Completion" where
  "sample_completion confirmed =
     \<lparr>dOutcome = ''timeout'', dExitCode = (if confirmed then Some 1 else None), dElapsedSeconds = F_Fin 1,
      dProcessPID = Some 7, dExitConfirmed = confirmed, dOwnershipUnconfirmed = False, dTokens = None,
      dEstimatedUSD = None, dComplete = False, dFailed = False, dSource = []\<rparr>"

lemma keys_jset: "fst ` set (jset k v m) = insert k (fst ` set m)"
  using set_keys_update [of k v m] by (simp add: jset_def)

lemma integerNumber_not_null: "integerNumber i \<noteq> JNull"
  by (simp add: integerNumber_def)

lemma sample_final_valid:
  "validateRecord (final_row (sample_env sample_ledger) (sample_completion b) (Some 7) sample_row) = Inr ()"
  by (cases b)
    (simp_all add: record_simps sample_row_def sample_checks sample_ids sample_identity' final_row_def
      sample_completion_def uncertain_completion_def withheld_def final_outcome_def reported_row_def
      withhold_row_def cost_warning_def retained_row_def completed_row_def warning_list_def sample_reserved exact_int
      sample_env_def unconfirmed_warning_def keys_jset integerNumber_not_null)

lemma sample_finalize:
  "\<exists>row store. Finalize (sample_env sample_ledger) sample_ident (sample_completion b) sample_config = (Inr row, store)"
proof -
  let ?d = "sample_completion b"
  have c: "validateCompletion ?d = Inr ()"
    by (simp add: validateCompletion_def sample_completion_def validOutcome_def f64_zero_def utf8_valid_def runes.simps)
  have r: "reconcilePID sample_row (dProcessPID ?d) = Inr (Some 7)"
    by (simp add: reconcilePID_def sample_completion_def pid_ok_def) (simp add: sample_row_def)
  have f: "finalize_row (sample_env sample_ledger) sample_config ?d sample_ident (Some 7) sample_row sample_ledger =
      Inr (final_row (sample_env sample_ledger) ?d (Some 7) sample_row)"
    by (simp add: finalize_row_def Let_def) (simp add: sample_config_def)
  have "validID sample_ident" by (simp add: sample_ident_def sample_identity')
  with c r f sample_write [OF sample_final_valid [of b]] show ?thesis
    by (simp add: Finalize_def sample_config_valid locked_read_def sample_owned)
qed

end
