(* ===== verification/Budget_Claims.thy ===== *)
theory Budget_Claims
  imports Budget_Sample
begin

text \<open>
  The properties of the budget ledger (\<open>internal/budget\<close>), over the lemmas of \<open>Budget_Props\<close> and the
  quota contracts interpreted there.
\<close>

section \<open>Remaining time\<close>

lemma f64_sub_not_NaN: "f64_finite x \<Longrightarrow> f64_finite y \<Longrightarrow> f64_sub x y \<noteq> F_NaN"
  by (cases x; cases y) (auto simp: f64_sub_def)

lemma f64_max0_positive: "x \<noteq> F_NaN \<Longrightarrow> \<not> f64_le (f64_max0 x) f64_zero \<Longrightarrow> f64_less f64_zero (f64_max0 x)"
  by (auto simp: f64_max0_def f64_zero_def split: if_splits)

section \<open>Admission\<close>

text \<open>C27: A plan without blockers means the feature is enabled, no strict ceiling was asked for, every limit
  (attempts of the task, runs of the session, concurrent runs, session time) still has room, and
  every active run is running under a live owner.\<close>

theorem unblocked_plan:
  assumes "MakePlan kill r c h = Inr p" and "pBlockers p = []"
  shows "cEnabled c \<and> rMaxCostUSD r = None \<and> validateHistory h = Inr () \<and>
    int (length (task_rows (rSession r) (rTask r) h)) < cMaxAttempts c \<and>
    int (length (session_rows (rSession r) h)) < cMaxSessionRuns c \<and>
    int (length (active_rows h)) < cMaxConcurrent c \<and>
    f64_less f64_zero (pRemainingSessionSeconds p) \<and>
    (\<forall>row \<in> set (active_rows h). jat row ''outcome'' = JStr ''running'' \<and>
       ownerAlive kill (jat row ''owner_pid'') = Inr True)"
  using assms
proof (rule unblocked_hard)
  fix charged s
  assume h: "cEnabled c" "rMaxCostUSD r = None" "validateHistory h = Inr ()"
    "int (length (task_rows (rSession r) (rTask r) h)) < cMaxAttempts c"
    "int (length (session_rows (rSession r) h)) < cMaxSessionRuns c"
    "int (length (active_rows h)) < cMaxConcurrent c"
    "\<forall>row \<in> set (active_rows h). jat row ''outcome'' = JStr ''running'' \<and> ownerAlive kill (jat row ''owner_pid'') = Inr True"
    and t: "pRemainingSessionSeconds p = f64_max0 (f64_sub (cSessionSeconds c) charged)"
      "\<not> f64_le (f64_max0 (f64_sub (cSessionSeconds c) charged)) f64_zero"
      "validateConfig c = Inr c" "sum_float_value (sc_charge s) = Inr charged"
  have fin: "f64_finite (cSessionSeconds c)" "f64_finite charged"
    using t(3,4) by (auto simp: validateConfig_Inr seconds_ok_def sum_float_value_def numericFloat_def result_simps
        split: option.splits jval.splits if_splits)
  have "f64_less f64_zero (pRemainingSessionSeconds p)"
    using t(1,2) f64_max0_positive [OF f64_sub_not_NaN [OF fin]] by simp
  with h show ?thesis by blast
qed

lemma unblocked_plan_witness:
  "\<exists>p. MakePlan (\<lambda>_. KillOk) sample_request sample_config emptyHistory = Inr p \<and>
     f64_less f64_zero (pRemainingSessionSeconds p) \<and>
     int (length (active_rows emptyHistory)) < cMaxConcurrent sample_config"
proof -
  obtain p where p: "MakePlan (\<lambda>_. KillOk) sample_request sample_config emptyHistory = Inr p" "pBlockers p = []"
    using sample_plan by blast
  from unblocked_plan [OF p] p(1) show ?thesis by blast
qed

text \<open>C28: Admission is all or nothing: a refused request leaves the ledger as it is, and an admitted one
  stores exactly the history read under the lock with one new active row at its end.\<close>

theorem admission_effect:
  assumes "admitObserved env random policy observer initial r c = (Inr a, store)"
  shows "case adRecord a of
      None \<Rightarrow> store = None \<and> pBlockers (adPlan a) \<noteq> []
    | Some row \<Rightarrow> \<exists>h. le_fresh env = Inr h \<and> store = Some (set_runs (rows h @ [row]) h) \<and> is_active row \<and>
        validateHistory (set_runs (rows h @ [row]) h) = Inr () \<and> pBlockers (adPlan a) = []"
proof (cases store)
  case None
  have "write_history env h \<noteq> (Inr u, None)" for h u
    by (auto simp: write_history_def split: sum.splits publish_result.splits)
  with assms None show ?thesis
    by (auto simp: admitObserved_def admit_locked_def admit_write_def Let_def result_simps
        split: sum.splits option.splits if_splits prod.splits)
next
  case (Some h')
  note lock = admitObserved_store [OF assms [unfolded Some]]
  obtain h p c' p' bytes where
    h: "le_lock env = None" "le_fresh env = Inr h" "MakePlan (le_kill env) r c h = Inr p" "pBlockers p = []" "random = Some bytes"
    "c' = c \<and> p' = p \<or> (\<exists>f. policy = Some f \<and> f c (pRemainingSessionSeconds p) = Inr c' \<and> p' = p\<lparr>pConfiguration := c'\<rparr>)"
    "h' = set_runs (rows h @ [admitted_row env r c' p' (run_identity bytes)]) h" "validateHistory h' = Inr ()"
    "\<forall>b. Inr a = (Inr b :: budget_error + Admission) \<longrightarrow>
       b = \<lparr>adPlan = p', adRecord = Some (admitted_row env r c' p' (run_identity bytes))\<rparr>"
    by (rule admit_locked_store [OF lock])
  then show ?thesis using Some by (auto simp: admitted_row_fields)
qed

lemma admission_effect_witness:
  "\<exists>row. sample_ledger = set_runs (rows emptyHistory @ [row]) emptyHistory \<and> is_active row"
proof -
  obtain a row where a: "admitObserved (sample_env emptyHistory) (Some sample_bytes) None None None sample_request
      sample_config = (Inr a, Some sample_ledger)" "adRecord a = Some row"
    using sample_admission by blast
  from admission_effect [OF a(1)] a(2) show ?thesis by auto
qed

text \<open>C11: From an empty ledger, whatever sequence of admissions, publications and finalisations any
  processes perform, a task never gets more runs than the attempt limit of the configurations in use.\<close>

theorem ledger_attempt_limit:
  assumes "(ledger_step (\<lambda>c. cMaxAttempts c \<le> int n))\<^sup>*\<^sup>* emptyHistory h"
  shows "length (task_rows session task h) \<le> n"
  using task_quota.reach_quota [OF assms, of session task] emptyHistory_valid
  by (simp add: task_keys) (simp add: task_rows_def session_rows_def)

lemma ledger_attempt_limit_witness: "length (task_rows ''s'' ''t'' sample_ledger) \<le> 2"
  by (rule ledger_attempt_limit [of 2]) (intro r_into_rtranclp sample_step, simp add: sample_config_def)

text \<open>Likewise a session never gets more runs than the session limit, and no more runs are active at
  once than the concurrency limit.\<close>

theorem ledger_session_limit:
  assumes "(ledger_step (\<lambda>c. cMaxSessionRuns c \<le> int n))\<^sup>*\<^sup>* emptyHistory h"
  shows "length (session_rows session h) \<le> n"
  using session_quota.reach_quota [OF assms, of session] emptyHistory_valid
  by (simp add: session_keys) (simp add: session_rows_def)

lemma ledger_session_limit_witness: "length (session_rows ''s'' sample_ledger) \<le> 3"
  by (rule ledger_session_limit [of 3]) (intro r_into_rtranclp sample_step, simp add: sample_config_def)

text \<open>C12: The number of active runs never exceeds the concurrency limit of the configurations in use.\<close>

theorem ledger_concurrency_limit:
  assumes "(ledger_step (\<lambda>c. cMaxConcurrent c \<le> int n))\<^sup>*\<^sup>* emptyHistory h"
  shows "length (active_rows h) \<le> n"
proof -
  have "length (active_rows h) \<le> max n (length (active_rows emptyHistory))"
    by (rule reach_concurrency [OF assms])
  then show ?thesis using emptyHistory_valid by (simp add: active_rows_def)
qed

lemma ledger_concurrency_limit_witness: "length (active_rows sample_ledger) \<le> 2"
  by (rule ledger_concurrency_limit [of 2]) (intro r_into_rtranclp sample_step, simp add: sample_config_def)

text \<open>C29: Every reachable ledger is a valid history: each row satisfies the schema, run identities are
  unique, no earlier run is removed, reordered or moved to another session or task, and the attempts
  of every task are numbered from one.\<close>

theorem ledger_history_valid:
  assumes "(ledger_step cfg)\<^sup>*\<^sup>* h h'" and "validateHistory h = Inr ()" and "attempts_numbered h"
  shows "validateHistory h' = Inr () \<and> distinct (map run_id (rows h')) \<and> attempts_numbered h' \<and>
    (\<exists>new. ledger_keys h' = ledger_keys h @ new)"
proof -
  have v: "validateHistory h' = Inr ()" using reach_valid [OF assms(1,2)] .
  moreover have "\<exists>new. ledger_keys h' = ledger_keys h @ new"
    using assms(1) by (induction rule: rtranclp_induct) (auto dest!: step_quota [of _ _ _ "[]" "[]"])
  ultimately show ?thesis
    using reach_numbered [OF assms(1,3)] by (simp add: validateHistory_iff runs_ok_def)
qed

lemma ledger_history_valid_witness:
  "validateHistory sample_ledger = Inr () \<and> distinct (map run_id (rows sample_ledger)) \<and>
   attempts_numbered sample_ledger \<and> (\<exists>new. ledger_keys sample_ledger = ledger_keys emptyHistory @ new)"
proof (rule ledger_history_valid)
  show "(ledger_step (\<lambda>_. True))\<^sup>*\<^sup>* emptyHistory sample_ledger" by (intro r_into_rtranclp sample_step) simp
  show "attempts_numbered emptyHistory"
    using emptyHistory_valid by (simp add: attempts_numbered_def task_rows_def session_rows_def)
qed (simp add: emptyHistory_valid)


section \<open>Process identity and finalisation\<close>

text \<open>C30: The process identity of a run is write-once.  While the run has none, \<open>PublishPID\<close> can only store the
  ledger with that identity set in the owned row, every other row and every other field of it as they were.  Once it is recorded, nothing is
  written: the same identity returns the row as it is, and any other is an error.  And no later sequence of admissions,
  publications and finalisations changes a recorded identity, of this or of any other row.\<close>

theorem PublishPID_write_once:
  assumes "locked_read env = Inr h" and "ownerRecord env h ident = Inr old" and "pid_ok pid"
  shows "(if jat old ''process_pid'' = JNull
     then (let new = jset ''process_pid'' (integerNumber pid) old; (res, store) = PublishPID env ident pid in
       exactInteger (jat new ''process_pid'') = Some pid \<and> (\<forall>row. res = Inr row \<longrightarrow> row = new \<and> store \<noteq> None) \<and>
       (\<forall>h'. store = Some h' \<longrightarrow> validateHistory h' = Inr () \<and>
          (\<exists>i < length (rows h). rows h ! i = old \<and> rows h' = (rows h)[i := new])))
     else if exactInteger (jat old ''process_pid'') = Some pid then PublishPID env ident pid = (Inr old, None)
     else PublishPID env ident pid \<in> {(Inl ConflictingPid, None), (Inl BadRecordedPid, None)}) \<and>
   (\<forall>cfg h' i p. (ledger_step cfg)\<^sup>*\<^sup>* h h' \<longrightarrow> i < length (rows h) \<longrightarrow>
      exactInteger (jat (rows h ! i) ''process_pid'') = Some p \<longrightarrow>
      i < length (rows h') \<and> exactInteger (jat (rows h' ! i) ''process_pid'') = Some p)"
proof (intro conjI allI impI)
  have "validID ident" using assms(2) by (simp add: ownerRecord_def split: if_splits)
  note unf = PublishPID_def this assms
  let ?new = "jset ''process_pid'' (integerNumber pid) old"
  have "find (\<lambda>row. jat row ''id'' = JStr ident) (rows h) = Some old"
    using assms(2) by (auto simp: ownerRecord_def split: if_splits option.splits)
  from find_replace [OF this, of ?new] obtain xs ys where
    "rows h = xs @ old # ys" "rows (update_run ident ?new h) = xs @ ?new # ys" by (auto simp: update_run_def)
  then have at_row: "\<exists>i < length (rows h). rows h ! i = old \<and> rows (update_run ident ?new h) = (rows h)[i := ?new]"
    by (intro exI [of _ "length xs"]) simp
  show "if jat old ''process_pid'' = JNull
     then (let new = ?new; (res, store) = PublishPID env ident pid in
       exactInteger (jat new ''process_pid'') = Some pid \<and> (\<forall>row. res = Inr row \<longrightarrow> row = new \<and> store \<noteq> None) \<and>
       (\<forall>h'. store = Some h' \<longrightarrow> validateHistory h' = Inr () \<and>
          (\<exists>i < length (rows h). rows h ! i = old \<and> rows h' = (rows h)[i := new])))
     else if exactInteger (jat old ''process_pid'') = Some pid then PublishPID env ident pid = (Inr old, None)
     else PublishPID env ident pid \<in> {(Inl ConflictingPid, None), (Inl BadRecordedPid, None)}"
  proof (cases "jat old ''process_pid'' = JNull")
    case True
    then have run: "PublishPID env ident pid =
        (bindE (fst (write_history env (update_run ident ?new h))) (\<lambda>_. Inr ?new), snd (write_history env (update_run ident ?new h)))"
      by (simp add: unf reconcilePID_def Let_def split_beta)
    obtain written store where w: "write_history env (update_run ident ?new h) = (written, store)" by force
    have "store = Some h' \<Longrightarrow> h' = update_run ident ?new h \<and> validateHistory h' = Inr ()" for h'
      using write_history_store [of env "update_run ident ?new h" written h'] w by simp
    moreover have "written = Inr u \<Longrightarrow> store \<noteq> None" for u
      using w by (auto simp: write_history_def split: sum.splits if_splits publish_result.splits)
    ultimately show ?thesis
      using True at_row by (auto simp: run w exactInteger_integerNumber result_simps)
  next
    case False
    then show ?thesis by (auto simp: unf reconcilePID_def split: option.split)
  qed
next
  fix cfg h' i p
  assume "(ledger_step cfg)\<^sup>*\<^sup>* h h'" "i < length (rows h)" "exactInteger (jat (rows h ! i) ''process_pid'') = Some p"
  from reach_pid [OF this]
  show "i < length (rows h')" "exactInteger (jat (rows h' ! i) ''process_pid'') = Some p" by simp_all
qed

lemma PublishPID_write_once_witness:
  "\<exists>row. exactInteger (jat row ''process_pid'') = Some 7 \<and>
     PublishPID (sample_env sample_ledger) sample_ident 7 = (Inr row, Some (update_run sample_ident row sample_ledger))"
proof -
  have l: "locked_read (sample_env sample_ledger) = Inr sample_ledger" by (simp add: locked_read_def sample_env_def)
  have p: "pid_ok 7" by (simp add: pid_ok_def)
  have "jat sample_row ''process_pid'' = JNull" by (simp add: sample_row_def)
  with PublishPID_write_once [OF l sample_owned p] have
    "exactInteger (jat (jset ''process_pid'' (integerNumber 7) sample_row) ''process_pid'') = Some 7"
    by (simp add: Let_def split: prod.splits)
  then show ?thesis using sample_publish by blast
qed

lemma Finalize_InrE:
  assumes "Finalize env ident d c = (Inr row, store)"
  obtains h old pid where "le_fresh env = Inr h" "ownerRecord env h ident = Inr old"
    "reconcilePID old (dProcessPID d) = Inr pid" "finalize_row env c d ident pid old h = Inr row"
    "store = Some (update_run ident row h)" "row \<in> set (rows (update_run ident row h))"
    "pid = None \<longrightarrow> \<not> uncertain_completion d pid \<and> dOutcome d = ''launch_error''"
proof -
  from assms obtain h old pid where h: "locked_read env = Inr h" "ownerRecord env h ident = Inr old"
      "reconcilePID old (dProcessPID d) = Inr pid" "finalize_row env c d ident pid old h = Inr row"
      "write_history env (update_run ident row h) = (Inr (), store)"
      "pid = None \<longrightarrow> \<not> uncertain_completion d pid \<and> dOutcome d = ''launch_error''"
    by (auto simp: Finalize_def Let_def result_simps validateConfig_Inr split: sum.splits if_splits prod.splits)
  have "find (\<lambda>row. jat row ''id'' = JStr ident) (rows h) = Some old"
    using h(2) by (auto simp: ownerRecord_def split: if_splits option.splits)
  from find_replace [OF this, of row] have "row \<in> set (rows (update_run ident row h))" by (auto simp: update_run_def)
  moreover have "store = Some (update_run ident row h)"
    using h(5) by (auto simp: write_history_def split: sum.splits if_splits publish_result.splits)
  moreover have "le_fresh env = Inr h" using h(1) by (simp add: locked_read_def split: option.splits)
  ultimately show thesis using that h by blast
qed

text \<open>C13: When the exit of the native process is not confirmed, finalisation keeps the reservation: the row
  stays active with its process identity, claims no exit, no tokens and no cost, and from then on
  every plan on the ledger, for any request, is blocked.\<close>

theorem Finalize_retains:
  assumes "Finalize env ident d c = (Inr row, store)"
    and "dOwnershipUnconfirmed d \<or> \<not> dExitConfirmed d \<and> dProcessPID d \<noteq> None"
  shows "is_active row \<and> jat row ''exit_code'' = JNull \<and> jat row ''estimated_usd'' = JNull \<and>
    jat row ''tokens'' = JNull \<and> jat row ''complete'' = JBool False \<and>
    (\<exists>h'. store = Some h' \<and> row \<in> set (rows h') \<and>
       (\<forall>kill r c' p. MakePlan kill r c' h' = Inr p \<longrightarrow> pBlockers p \<noteq> []))"
proof -
  obtain h old pid where f: "reconcilePID old (dProcessPID d) = Inr pid"
      "finalize_row env c d ident pid old h = Inr row" "store = Some (update_run ident row h)"
      "row \<in> set (rows (update_run ident row h))"
      "pid = None \<longrightarrow> \<not> uncertain_completion d pid \<and> dOutcome d = ''launch_error''"
    by (rule Finalize_InrE [OF assms(1)]) blast
  have "pid \<noteq> None" if "dProcessPID d = Some v" for v
    using f(1) [unfolded that] by (auto simp: reconcilePID_def split: if_splits option.splits dest: sym)
  then have u: "uncertain_completion d pid" using assms(2) by (auto simp: uncertain_completion_def)
  note fin = final_row_uncertain [OF u, of env old] finalize_row_fields [OF f(2)]
  then have act: "is_active row" "jat row ''outcome'' \<noteq> JStr ''running''" by (auto simp: is_active_def)
  have "pBlockers p \<noteq> []" if "MakePlan kill r c' (update_run ident row h) = Inr p" for kill r c' p
  proof
    assume "pBlockers p = []"
    from unblocked_hard [OF that this] have
      "\<forall>x \<in> set (active_rows (update_run ident row h)). jat x ''outcome'' = JStr ''running''" by blast
    with act f(4) show False by (auto simp: active_rows_def)
  qed
  with fin act f(3,4) show ?thesis by auto
qed

lemma Finalize_retains_witness:
  "\<exists>row h'. Finalize (sample_env sample_ledger) sample_ident (sample_completion False) sample_config = (Inr row, Some h') \<and>
     is_active row \<and> \<not> (\<exists>p. MakePlan (\<lambda>_. KillOk) sample_request sample_config h' = Inr p \<and> pBlockers p = [])"
proof -
  obtain row store where f: "Finalize (sample_env sample_ledger) sample_ident (sample_completion False) sample_config = (Inr row, store)"
    using sample_finalize by blast
  from Finalize_retains [OF f] f show ?thesis by (auto simp: sample_completion_def)
qed

text \<open>C31: When the exit is confirmed, finalisation completes the row: it is no longer active, carries the
  end time, and its outcome is the reported one, except that a completed run without complete
  metadata, or with a reported failure, is recorded as failed.\<close>

theorem Finalize_completes:
  assumes "Finalize env ident d c = (Inr row, store)"
    and "dExitConfirmed d" and "dExitCode d \<noteq> None" and "\<not> dOwnershipUnconfirmed d"
  shows "jat row ''status'' = JStr ''completed'' \<and> jat row ''ended_at'' = JStr (le_timestamp env) \<and>
    jat row ''outcome'' = JStr (if dOutcome d = ''completed'' \<and> (dFailed d \<or> \<not> dComplete d) then ''failed''
       else dOutcome d)"
proof -
  obtain h old pid where f: "finalize_row env c d ident pid old h = Inr row"
    by (rule Finalize_InrE [OF assms(1)]) blast
  have "\<not> uncertain_completion d pid" using assms(2-4) by (simp add: uncertain_completion_def)
  from final_row_certain [OF this, of env old] finalize_row_fields [OF f] show ?thesis
    by (simp add: final_outcome_def)
qed

lemma Finalize_completes_witness:
  "\<exists>row store. Finalize (sample_env sample_ledger) sample_ident (sample_completion True) sample_config = (Inr row, store) \<and>
     jat row ''outcome'' = JStr ''timeout'' \<and> jat row ''status'' = JStr ''completed''"
proof -
  obtain row store where f: "Finalize (sample_env sample_ledger) sample_ident (sample_completion True) sample_config = (Inr row, store)"
    using sample_finalize by blast
  from Finalize_completes [OF f] f show ?thesis by (auto simp: sample_completion_def)
qed

text \<open>C35: A configuration read from any environment passes the validation every ledger operation makes,
  with positive finite limits.\<close>

theorem Configuration_accepted:
  assumes "Configuration environment = Inr c"
  shows "validateConfig c = Inr c \<and> 0 < cMaxAttempts c \<and> 0 < cMaxSessionRuns c \<and> 0 < cMaxConcurrent c \<and>
    f64_less f64_zero (cTimeoutSeconds c) \<and> f64_less f64_zero (cSessionSeconds c)"
  using Configuration_valid [OF assms] by (auto simp: validateConfig_Inr limit_ok_def seconds_ok_less)


lemma positive_one: "PositiveFloat ''1'' = Inr (F_Fin 1)"
proof -
  have "ascii_digits (runes (trim_runes is_space_rune ''1'')) = Some ''1''" "python_number_ok ''1''" by code_simp+
  moreover have "parse_float ''1'' = Some (F_Fin 1, False)"
    by (simp add: parse_float_def sign_split_def Let_def parse_unsigned_def is_digit_def digits_val_def digit_val_def pow_int_def)
  ultimately show ?thesis by (simp add: PositiveFloat_def f64_zero_def)
qed

lemma positive_digits: "PositiveInteger ''1'' = Inr 1" "PositiveInteger ''5'' = Inr 5"
proof -
  have "trim_cutset ''0123456789'' ''1'' = []" "trim_cutset ''0123456789'' ''5'' = []"
    "length (trim_left ''0'' ''1'') = 1" "length (trim_left ''0'' ''5'') = 1" by code_simp+
  moreover have "parse_int ''1'' = Some 1" "parse_int ''5'' = Some 5"
    by (simp_all add: parse_int_def sign_split_def digits_val_def is_digit_def digit_val_def)
  ultimately show "PositiveInteger ''1'' = Inr 1" "PositiveInteger ''5'' = Inr 5"
    by (simp_all add: PositiveInteger_def f64_of_int_def round64_numeral)
qed

definition sample_environment :: "string \<Rightarrow> string option" where
  "sample_environment k =
     (if k = ''FACTORY_BUDGET_TIMEOUT_SECONDS'' \<or> k = ''FACTORY_BUDGET_SESSION_SECONDS'' then Some ''1'' else None)"

lemma Configuration_accepted_witness:
  "\<exists>c. Configuration sample_environment = Inr c \<and> validateConfig c = Inr c \<and> 0 < cMaxAttempts c"
proof -
  obtain c where c: "Configuration sample_environment = Inr c"
    by (simp add: Configuration_def Let_def env_get_def sample_environment_def config_integer_def positive_digits
        pythonFloat_def positive_one mapErr_def)
  from Configuration_accepted [OF c] c show ?thesis by blast
qed

end
