(* ===== verification/Loop_History.thy ===== *)
theory Loop_History
  imports Budget_History Json_Encode
begin

text \<open>
  The checkpoint history of the loop controller (\<open>internal/loop/history.go\<close>) and its resume
  contract (\<open>resume.go\<close>): admission of stored checkpoints, lookup of the record of one session and
  task, and the pure assessment of a resume request.  A history is the association list of its
  JSON object, as in the budget ledger.
\<close>

datatype loop_error =
    InvalidCheckpoint
  | CheckpointNotFound
  | NoFingerprint
  | ManualRefused
  | Blocked string
  | LoopPublication bool
  | LoopStorage
  | LoopBusy
  | BudgetRefused budget_error
  | TransitionCleanup
  | Interrupted

record Fingerprint =
  fpHead :: string
  fpSource :: string
  fpSafety :: string

definition emptyHistory_l :: history where
  "emptyHistory_l = [(''schema'', JNum ''1''), (''runs'', JArr [])]"

section \<open>Scalars\<close>

definition finite_number :: "string \<Rightarrow> bool" where
  "finite_number n \<longleftrightarrow>
     (if contains_any n ''.eE'' \<or> n = ''NaN'' \<or> contains_sub n ''Infinity''
      then (case parse_float n of None \<Rightarrow> False | Some (x, overflow) \<Rightarrow> \<not> overflow \<and> f64_finite x)
      else True)"

fun finiteValue :: "jval \<Rightarrow> bool" where
  "finiteValue (JNum n) = finite_number n"
| "finiteValue (JArr vs) = list_all finiteValue vs"
| "finiteValue (JObj m) = list_all (\<lambda>kv. finiteValue (snd kv)) m"
| "finiteValue _ = True"

definition integer_l :: "jval \<Rightarrow> int option" where
  "integer_l v = (case v of
       JNum n \<Rightarrow> if contains_any n ''.eE'' then None else parse_int n
     | _ \<Rightarrow> None)"

definition float_of :: "jval \<Rightarrow> f64 option" where
  "float_of v = (case v of
       JNum n \<Rightarrow> (case parse_float n of
           Some (x, overflow) \<Rightarrow> if overflow \<or> \<not> f64_finite x then None else Some x
         | None \<Rightarrow> None)
     | _ \<Rightarrow> None)"

definition nonnegative :: "jval \<Rightarrow> bool \<Rightarrow> bool" where
  "nonnegative v requireInteger \<longleftrightarrow>
     (requireInteger \<longrightarrow> integer_l v \<noteq> None) \<and>
     (case float_of v of None \<Rightarrow> False | Some f \<Rightarrow> f64_le f64_zero f)"

definition fingerprint :: "jval \<Rightarrow> Fingerprint option" where
  "fingerprint v = (case v of
       JObj m \<Rightarrow>
         if length m \<noteq> 3 then None
         else (case (jat m ''head'', jat m ''source'', jat m ''safety'') of
             (JStr h, JStr s, JStr p) \<Rightarrow> Some \<lparr>fpHead = h, fpSource = s, fpSafety = p\<rparr>
           | _ \<Rightarrow> None)
     | _ \<Rightarrow> None)"

text \<open>\<open>f, _ := fingerprint(v)\<close>: the flag is ignored where the row has been validated.\<close>

definition fingerprint_read :: "jval \<Rightarrow> Fingerprint" where
  "fingerprint_read v = (case fingerprint v of Some f \<Rightarrow> f | None \<Rightarrow> \<lparr>fpHead = [], fpSource = [], fpSafety = []\<rparr>)"

definition snapshotValue :: "Fingerprint \<Rightarrow> jval" where
  "snapshotValue f = JObj [(''head'', JStr (fpHead f)), (''source'', JStr (fpSource f)), (''safety'', JStr (fpSafety f))]"

section \<open>Records\<close>

definition is_array :: "jval \<Rightarrow> bool" where
  "is_array v = (case v of JArr _ \<Rightarrow> True | _ \<Rightarrow> False)"

definition positive_integer :: "jval \<Rightarrow> bool" where
  "positive_integer v = (case integer_l v of None \<Rightarrow> False | Some n \<Rightarrow> 0 < n)"

text \<open>The identity of a checkpoint: the pair of its session and its task.\<close>

definition checkpoint_key :: "row \<Rightarrow> (string \<times> string) option" where
  "checkpoint_key r = (case (jat r ''session'', jat r ''task'') of
       (JStr s, JStr t) \<Rightarrow> if validID s \<and> validID t then Some (s, t) else None
     | _ \<Rightarrow> None)"

definition checkpoint_fields_ok :: "row \<Rightarrow> bool" where
  "checkpoint_fields_ok r \<longleftrightarrow>
     harness_ok (str_field r ''harness'') \<and>
     (str_field r ''mode'' = ''manual'' \<or> str_field r ''mode'' = ''bounded'') \<and>
     (str_field r ''status'' = ''active'' \<or> str_field r ''status'' = ''stopped'' \<or>
        str_field r ''status'' = ''completed'') \<and>
     list_all (\<lambda>k. is_array (jat r k)) [''evidence'', ''budget_runs''] \<and>
     list_all (\<lambda>k. nonnegative (jat r k) True) [''attempts'', ''no_progress''] \<and>
     list_all (\<lambda>k. nonnegative (jat r k) False) [''elapsed_seconds'', ''reserved_seconds''] \<and>
     list_all (\<lambda>k. is_str (jat r k))
       [''policy'', ''prompt'', ''started_at'', ''phase'', ''outcome'', ''stop_reason'', ''next_action''] \<and>
     list_all (\<lambda>k. fingerprint (jat r k) \<noteq> None) [''snapshot'', ''baseline''] \<and>
     positive_integer (jat r ''owner_pid'') \<and>
     (jat r ''process_pid'' = JNull \<or> positive_integer (jat r ''process_pid'')) \<and>
     is_bool (jat r ''uncertain'')"

fun validateCheckpoints :: "jval list \<Rightarrow> (string \<times> string) list \<Rightarrow> bool" where
  "validateCheckpoints [] seen = True"
| "validateCheckpoints (v # vs) seen =
     (case v of
        JObj r \<Rightarrow> (case checkpoint_key r of
            None \<Rightarrow> False
          | Some key \<Rightarrow> key \<notin> set seen \<and> checkpoint_fields_ok r \<and> validateCheckpoints vs (key # seen))
      | _ \<Rightarrow> False)"

definition validateHistory_l :: "history \<Rightarrow> loop_error + unit" where
  "validateHistory_l h =
     (if integer_l (jat h ''schema'') = Some 1 \<and>
         (case jat h ''runs'' of JArr vs \<Rightarrow> validateCheckpoints vs [] | _ \<Rightarrow> False) \<and>
         finiteValue (JObj h)
      then Inr () else Inl InvalidCheckpoint)"

section \<open>Reading and writing\<close>

definition readValue :: "string option \<Rightarrow> loop_error + jval" where
  "readValue input =
     (case input of
        None \<Rightarrow> Inl InvalidCheckpoint
      | Some data \<Rightarrow>
          if length data > historyLimit \<or> \<not> utf8_valid data then Inl InvalidCheckpoint
          else case Decode data of
              Inl _ \<Rightarrow> Inl InvalidCheckpoint
            | Inr value \<Rightarrow> if finiteValue value then Inr value else Inl InvalidCheckpoint)"

definition ParseHistory_l :: "string option \<Rightarrow> loop_error + history" where
  "ParseHistory_l input = bindE (readValue input) (\<lambda>value. case value of
       JObj h \<Rightarrow> bindE (validateHistory_l h) (\<lambda>_. Inr h)
     | _ \<Rightarrow> Inl InvalidCheckpoint)"

definition encodeHistory :: "jval \<Rightarrow> loop_error + string" where
  "encodeHistory v = (case EncodePython v of
       Inl _ \<Rightarrow> Inl InvalidCheckpoint
     | Inr t \<Rightarrow> if length t > historyLimit then Inl InvalidCheckpoint else Inr t)"

section \<open>Queries\<close>

definition Lookup :: "history \<Rightarrow> string \<Rightarrow> string \<Rightarrow> loop_error + row" where
  "Lookup h session task =
     (if \<not> validID session \<or> \<not> validID task then Inl InvalidCheckpoint
      else bindE (validateHistory_l h) (\<lambda>_.
        case find (\<lambda>r. jat r ''session'' = JStr session \<and> jat r ''task'' = JStr task) (rows h) of
          None \<Rightarrow> Inl CheckpointNotFound
        | Some r \<Rightarrow> Inr r))"

definition HasUnresolved_l :: "history \<Rightarrow> loop_error + bool" where
  "HasUnresolved_l h = bindE (validateHistory_l h) (\<lambda>_.
     Inr (list_ex (\<lambda>r. jat r ''status'' = JStr ''active'' \<or> jat r ''uncertain'' = JBool True \<or>
        jat r ''process_pid'' \<noteq> JNull) (rows h)))"

definition Selection :: "row \<Rightarrow> loop_error + (string \<times> string)" where
  "Selection r = bindE (validateHistory_l [(''schema'', JNum ''1''), (''runs'', JArr [JObj r])])
     (\<lambda>_. Inr (str_field r ''harness'', str_field r ''mode''))"

section \<open>Resume\<close>

record ResumeRequest =
  rrSession :: string
  rrTask :: string
  rrHarness :: string
  rrMode :: string
  rrSnapshot :: Fingerprint
  rrPolicy :: string
  rrPrompt :: string
  rrTimeoutSeconds :: f64

record ResumeAssessment =
  raEligible :: bool
  raRemainingSeconds :: f64
  raRecord :: row

definition validResumeRequest :: "ResumeRequest \<Rightarrow> bool" where
  "validResumeRequest r \<longleftrightarrow> validID (rrSession r) \<and> validID (rrTask r) \<and> harness_ok (rrHarness r) \<and>
     (rrMode r = ''manual'' \<or> rrMode r = ''bounded'') \<and>
     f64_less f64_zero (rrTimeoutSeconds r) \<and> f64_finite (rrTimeoutSeconds r)"

definition ParseResumeRequest :: "string option \<Rightarrow> string \<Rightarrow> string \<Rightarrow> loop_error + ResumeRequest" where
  "ParseResumeRequest input session task = bindE (readValue input) (\<lambda>value.
     case value of
       JObj m \<Rightarrow>
         if length m \<noteq> 6 then Inl InvalidCheckpoint
         else (case (jat m ''harness'', jat m ''mode'', jat m ''policy'', jat m ''prompt'') of
             (JStr harness, JStr mode, JStr policy, JStr prompt) \<Rightarrow>
               (case fingerprint (jat m ''snapshot'') of
                  None \<Rightarrow> Inl InvalidCheckpoint
                | Some snapshot \<Rightarrow> (case jat m ''timeout_seconds'' of
                      JNum n \<Rightarrow> (case parse_float n of
                          Some (timeout, False) \<Rightarrow>
                            (let r = \<lparr>rrSession = session, rrTask = task, rrHarness = harness, rrMode = mode,
                                      rrSnapshot = snapshot, rrPolicy = policy, rrPrompt = prompt,
                                      rrTimeoutSeconds = timeout\<rparr>
                             in if validResumeRequest r then Inr r else Inl InvalidCheckpoint)
                        | _ \<Rightarrow> Inl InvalidCheckpoint)
                    | _ \<Rightarrow> Inl InvalidCheckpoint))
           | _ \<Rightarrow> Inl InvalidCheckpoint)
     | _ \<Rightarrow> Inl InvalidCheckpoint)"

text \<open>\<open>row["elapsed_seconds"].Float64()\<close>, whose error the code ignores.\<close>

definition float_or_zero :: "jval \<Rightarrow> f64" where
  "float_or_zero v = (case v of
       JNum n \<Rightarrow> (case parse_float n of Some (x, _) \<Rightarrow> x | None \<Rightarrow> f64_zero)
     | _ \<Rightarrow> f64_zero)"

text \<open>An integer is compared exactly as a rational, any other spelling as a float.\<close>

definition time_exhausted :: "jval \<Rightarrow> f64 \<Rightarrow> bool" where
  "time_exhausted elapsed timeout =
     (case integer_l elapsed of
        Some exact \<Rightarrow> f64_val timeout \<le> of_int exact
      | None \<Rightarrow> f64_le timeout (float_or_zero elapsed))"

definition resumable :: "row \<Rightarrow> ResumeRequest \<Rightarrow> bool" where
  "resumable row r \<longleftrightarrow>
     jat row ''harness'' = JStr (rrHarness r) \<and> jat row ''mode'' = JStr (rrMode r) \<and> rrMode r = ''manual'' \<and>
     fingerprint (jat row ''snapshot'') = Some (rrSnapshot r) \<and>
     jat row ''policy'' = JStr (rrPolicy r) \<and> jat row ''prompt'' = JStr (rrPrompt r) \<and>
     (jat row ''outcome'' = JStr ''manual_passed'' \<or> jat row ''outcome'' = JStr ''manual_failed'')"

definition AssessResume :: "history \<Rightarrow> history \<Rightarrow> ResumeRequest \<Rightarrow> loop_error + ResumeAssessment" where
  "AssessResume h b r =
     (if \<not> validResumeRequest r then Inl InvalidCheckpoint
      else bindE (validateHistory_l h) (\<lambda>_.
        case HasActive b of
          Inl _ \<Rightarrow> Inl InvalidCheckpoint
        | Inr active \<Rightarrow>
            if active then Inl InvalidCheckpoint
            else if list_ex (\<lambda>row. jat row ''status'' = JStr ''active'' \<or> jat row ''uncertain'' = JBool True) (rows h)
            then Inl InvalidCheckpoint
            else bindE (Lookup h (rrSession r) (rrTask r)) (\<lambda>row.
              if \<not> resumable row r \<or> time_exhausted (jat row ''elapsed_seconds'') (rrTimeoutSeconds r)
              then Inl InvalidCheckpoint
              else Inr \<lparr>raEligible = True,
                       raRemainingSeconds = f64_sub (rrTimeoutSeconds r) (float_or_zero (jat row ''elapsed_seconds'')),
                       raRecord = row\<rparr>)))"

end
