(* ===== verification/Loop_Plan.thy ===== *)
theory Loop_Plan
  imports Loop_History Budget_Plan
begin

text \<open>
  Configuration, policy identity, admission and request inputs of the loop controller
  (\<open>internal/loop/config.go\<close>, \<open>probe.go\<close>, \<open>manual.go\<close>, \<open>bounded_input.go\<close>).  The answers of
  the \<open>grep\<close> children and the hash of \<open>crypto/sha256\<close> (as hexadecimal text) are parameters; a
  process environment is an association list.
\<close>

section \<open>Configuration\<close>

record Config_l =
  lEnabled :: bool
  lCheckCommand :: string
  lTestPatterns :: "string list"
  lProtectedPaths :: "string list"
  lMaxAttempts :: int
  lTimeoutSeconds :: f64
  lCheckTimeoutSeconds :: f64
  lNoProgressLimit :: int

record Execution =
  xOutcome :: string
  xExitCode :: "int option"
  xProcessPID :: int
  xElapsedSeconds :: f64
  xStdout :: string
  xExitConfirmed :: bool
  xOwnershipUnconfirmed :: bool

definition pythonFields :: "string \<Rightarrow> string list" where
  "pythonFields = fields_func python_space"

text \<open>\<open>probe\<close>: the answer of \<open>native.ExecuteProbe\<close>, \<open>None\<close> when it returned an error.\<close>

definition probe :: "Execution option \<Rightarrow> (string \<times> int) option" where
  "probe answer = (case answer of
       None \<Rightarrow> None
     | Some x \<Rightarrow>
         if \<not> xExitConfirmed x \<or> xOwnershipUnconfirmed x \<or>
            (xOutcome x \<noteq> ''completed'' \<and> xOutcome x \<noteq> ''failed'')
         then None
         else map_option (\<lambda>code. (xStdout x, code)) (xExitCode x))"

definition pattern_ok :: "Execution option \<Rightarrow> bool" where
  "pattern_ok answer = (case probe answer of None \<Rightarrow> False | Some (_, code) \<Rightarrow> code = 0 \<or> code = 1)"

type_synonym environment = "(string \<times> string) list"

definition loop_env :: "environment \<Rightarrow> string \<Rightarrow> string \<Rightarrow> string" where
  "loop_env environment key fallback =
     (case map_of environment (''FACTORY_LOOP_'' @ key) of Some v \<Rightarrow> v | None \<Rightarrow> fallback)"

definition Configuration_l :: "(string \<Rightarrow> Execution option) \<Rightarrow> environment \<Rightarrow> loop_error + Config_l" where
  "Configuration_l grep environment =
     (let get = loop_env environment; enabled = get ''ENABLED'' ''false'';
          fail = (\<lambda>_. NoFingerprint);
          patterns = pythonFields (get ''TEST_PATTERNS'' [])
      in if enabled \<noteq> ''true'' \<and> enabled \<noteq> ''false'' then Inl NoFingerprint
         else bindE (mapErr fail (PositiveInteger (get ''MAX_ATTEMPTS'' ''2''))) (\<lambda>attempts.
           bindE (mapErr fail (PositiveInteger (get ''NO_PROGRESS_LIMIT'' ''1''))) (\<lambda>progress.
           bindE (mapErr fail (PositiveFloat (get ''TIMEOUT_SECONDS'' ''900''))) (\<lambda>timeout.
           bindE (mapErr fail (PositiveFloat (get ''CHECK_TIMEOUT_SECONDS'' ''120''))) (\<lambda>check.
             if \<not> list_all (\<lambda>p. pattern_ok (grep p)) patterns then Inl NoFingerprint
             else Inr \<lparr>lEnabled = (enabled = ''true''), lCheckCommand = get ''CHECK_COMMAND'' [],
                       lTestPatterns = patterns, lProtectedPaths = pythonFields (get ''PROTECTED_PATHS'' []),
                       lMaxAttempts = attempts, lTimeoutSeconds = timeout, lCheckTimeoutSeconds = check,
                       lNoProgressLimit = progress\<rparr>)))))"

section \<open>Policy identity\<close>

definition stringsValue :: "string list \<Rightarrow> jval" where
  "stringsValue values = JArr (map (\<lambda>v. JStr (RawString v)) values)"

definition config_value :: "Config_l \<Rightarrow> jval" where
  "config_value c = JObj
     [(''enabled'', JBool (lEnabled c)), (''check_command'', JStr (RawString (lCheckCommand c))),
      (''test_patterns'', stringsValue (lTestPatterns c)), (''protected_paths'', stringsValue (lProtectedPaths c)),
      (''max_attempts'', JInt (lMaxAttempts c)), (''timeout_seconds'', JFloat (lTimeoutSeconds c)),
      (''check_timeout_seconds'', JFloat (lCheckTimeoutSeconds c)), (''no_progress_limit'', JInt (lNoProgressLimit c))]"

definition digest :: "(string \<Rightarrow> string) \<Rightarrow> jval \<Rightarrow> loop_error + string" where
  "digest sha256 v = (case EncodePython v of Inl _ \<Rightarrow> Inl NoFingerprint | Inr t \<Rightarrow> Inr (sha256 t))"

definition budget_value :: "Config \<Rightarrow> jval" where
  "budget_value b = JObj
     [(''enabled'', JBool (cEnabled b)), (''action'', JStr (cAction b)), (''max_attempts'', JInt (cMaxAttempts b)),
      (''max_session_runs'', JInt (cMaxSessionRuns b)), (''max_concurrent'', JInt (cMaxConcurrent b)),
      (''timeout_seconds'', JFloat (cTimeoutSeconds b)), (''session_seconds'', JFloat (cSessionSeconds b)),
      (''estimated_usd'', (case cEstimatedUSD b of None \<Rightarrow> JNull | Some f \<Rightarrow> JFloat f))]"

definition policy_models :: "environment \<Rightarrow> (string \<times> jval) list" where
  "policy_models environment =
     fold (\<lambda>(key, value) m. jset (RawString key) (JStr (RawString value)) m)
       (filter (\<lambda>(key, _). has_prefix ''FACTORY_LOOP_'' key \<and> has_suffix ''_MODEL'' key) environment) []"

definition env_or_empty :: "environment \<Rightarrow> string \<Rightarrow> string" where
  "env_or_empty environment key = (case map_of environment key of Some v \<Rightarrow> v | None \<Rightarrow> [])"

definition Policy :: "(string \<Rightarrow> string) \<Rightarrow> Config_l \<Rightarrow> Config \<Rightarrow> environment \<Rightarrow> loop_error + string" where
  "Policy sha256 c b environment = digest sha256 (JObj
     [(''loop'', config_value c), (''budget'', budget_value b), (''models'', JObj (policy_models environment)),
      (''config_path'', JStr (RawString (env_or_empty environment ''FACTORY_LOOP_CONFIG_PATH''))),
      (''native_overlay'', JStr (RawString (env_or_empty environment ''OPENCODE_CONFIG_CONTENT'')))])"

section \<open>Requests and prompts\<close>

record Request_l =
  lrMode :: string
  lrPromptFile :: string
  lrHarness :: string
  lrSession :: string
  lrTask :: string
  lrEnvironment :: environment

definition requestMode :: "Request_l \<Rightarrow> string" where
  "requestMode r = (if lrMode r = [] then ''manual'' else lrMode r)"

definition Modes :: "string list" where
  "Modes = [''manual'', ''bounded'']"

definition validManual :: "Request_l \<Rightarrow> bool" where
  "validManual r \<longleftrightarrow> harness_ok (lrHarness r) \<and> validID (lrSession r) \<and> validID (lrTask r) \<and>
     (requestMode r = ''manual'' \<or> requestMode r = ''bounded'')"

definition budgetRequest :: "Request_l \<Rightarrow> string \<Rightarrow> Request" where
  "budgetRequest r role =
     \<lparr>rSession = lrSession r, rTask = lrTask r, rHarness = lrHarness r, rRole = role,
      rModel = env_or_empty (lrEnvironment r)
        (''FACTORY_LOOP_'' @ to_upper (lrHarness r) @ ''_'' @ to_upper role @ ''_MODEL''),
      rMaxCostUSD = None\<rparr>"

text \<open>\<open>loadLoopPrompt\<close>: the content of the prompt file, \<open>None\<close> when it cannot be opened and read as a
  regular file of at most \<open>2 << 20\<close> bytes.\<close>

definition loadLoopPrompt :: "string option \<Rightarrow> string \<Rightarrow> loop_error + string" where
  "loadLoopPrompt content path =
     (if path = [] then Inl ManualRefused
      else case content of
          None \<Rightarrow> Inl ManualRefused
        | Some data \<Rightarrow>
            if length data > 2 * 2 ^ 20 \<or> \<not> utf8_valid data then Inl ManualRefused
            else (let t = replace_all [CHR 0x0D] [CHR 0x0A] (replace_all [CHR 0x0D, CHR 0x0A] [CHR 0x0A] data)
                  in if length t > 2 ^ 20 then Inl ManualRefused else Inr t))"

section \<open>Reviewer verdicts\<close>

record reviewVerdict =
  rvVerdict :: string
  rvFindings :: "string list"

definition surrogate_prefix :: "string \<Rightarrow> bool" where
  "surrogate_prefix s = (case map ord (take 3 s) of
       [a, b, c] \<Rightarrow> a = 237 \<and> 160 \<le> b \<and> b \<le> 191 \<and> 128 \<le> c \<and> c \<le> 191
     | _ \<Rightarrow> False)"

function decodedRuneCount :: "string \<Rightarrow> nat" where
  "decodedRuneCount s =
     (if s = [] then 0
      else let n = snd (decode_rune s); size = (if n = 1 \<and> surrogate_prefix s then 3 else n)
           in Suc (decodedRuneCount (drop size s)))"
  by pat_completeness auto
termination decodedRuneCount
  using decode_rune_width_pos by (relation "measure length") (auto simp: surrogate_prefix_def)

declare decodedRuneCount.simps [simp del]

definition finding_ok :: "jval \<Rightarrow> bool" where
  "finding_ok v = (case v of JStr t \<Rightarrow> pythonFields t \<noteq> [] \<and> decodedRuneCount t \<le> 4000 | _ \<Rightarrow> False)"

definition str_of :: "jval \<Rightarrow> string" where
  "str_of v = (case v of JStr s \<Rightarrow> s | _ \<Rightarrow> [])"

definition parseVerdict :: "string \<Rightarrow> loop_error + reviewVerdict" where
  "parseVerdict response = (case DecodeUnique response of
       Inr (JObj m) \<Rightarrow>
         (case (length m = 2, jat m ''verdict'', jat m ''findings'') of
            (True, JStr verdict, JArr findings) \<Rightarrow>
              if (verdict = ''approve'' \<or> verdict = ''repair'') \<and> length findings \<le> 50 \<and>
                 (verdict = ''approve'') = (findings = []) \<and> list_all finding_ok findings
              then Inr \<lparr>rvVerdict = verdict, rvFindings = map str_of findings\<rparr>
              else Inl ManualRefused
          | _ \<Rightarrow> Inl ManualRefused)
     | _ \<Rightarrow> Inl ManualRefused)"

section \<open>Diagnostics\<close>

definition sequence_length :: "nat \<Rightarrow> nat" where
  "sequence_length b =
     (if 194 \<le> b \<and> b \<le> 223 then 2 else if 224 \<le> b \<and> b \<le> 239 then 3
      else if 240 \<le> b \<and> b \<le> 244 then 4 else 1)"

text \<open>How many continuation bytes of a malformed sequence the decoder consumes after the first byte.\<close>

fun continuation :: "nat \<Rightarrow> nat \<Rightarrow> nat \<Rightarrow> nat list \<Rightarrow> nat" where
  "continuation b0 consumed want bs =
     (case bs of
        [] \<Rightarrow> consumed
      | b # bs' \<Rightarrow>
          if want \<le> consumed then consumed
          else if b < 128 \<or> b > 191 then consumed
          else if consumed = 1 \<and> (b0 = 224 \<and> b < 160 \<or> b0 = 237 \<and> b \<ge> 160 \<or> b0 = 240 \<and> b < 144 \<or>
                                   b0 = 244 \<and> b \<ge> 144)
          then consumed
          else continuation b0 (Suc consumed) want bs')"

declare continuation.simps [simp del]

lemma continuation_ge: "consumed \<le> continuation b0 consumed want bs"
proof (induction bs arbitrary: consumed)
  case Nil
  then show ?case by (subst continuation.simps) simp
next
  case (Cons b bs)
  have "consumed \<le> continuation b0 (Suc consumed) want bs"
    using Cons.IH [of "Suc consumed"] by simp
  then show ?case by (subst continuation.simps) auto
qed

function diagnosticText :: "string \<Rightarrow> string" where
  "diagnosticText data =
     (if data = [] then []
      else let (r, size) = decode_rune data
           in if r \<noteq> rune_error \<or> size \<noteq> 1 then take size data @ diagnosticText (drop size data)
              else let bs = map ord data
                   in encode_rune rune_error @
                      diagnosticText (drop (continuation (hd bs) 1 (sequence_length (hd bs)) (tl bs)) data))"
  by pat_completeness auto
termination diagnosticText
proof (relation "measure length", goal_cases)
  case (2 data x r size)
  then have "size = snd (decode_rune data)" by (metis snd_conv)
  with 2(1) show ?case using decode_rune_width_pos [of data] by simp
next
  case (3 data x r size bs)
  with continuation_ge [of 1 "hd bs" "sequence_length (hd bs)" "tl bs"] show ?case by simp
qed simp

declare diagnosticText.simps [simp del]

section \<open>Admission\<close>

record Plan_l =
  lpSession :: string
  lpTask :: string
  lpHarness :: string
  lpMode :: string
  lpConfiguration :: Config_l
  lpBudget :: "Plan option"
  lpBlockers :: "string list"
  lpMaxImplementerAttempts :: int
  lpReviewerCountsTowardBudgetAttempts :: bool
  lpWarnings :: "string list"

definition active_budget_text :: string where
  "active_budget_text = ''active budget invocation blocks loop execution; confirm owned processes and recover budget metadata first''"

definition no_check_text :: string where
  "no_check_text = ''no loop_check_command or check_command is configured''"

definition unresolved_text :: string where
  "unresolved_text = ''active or uncertain checkpoint requires inspection and explicit recovery''"

definition loop_disabled_text :: string where
  "loop_disabled_text = ''loop feature is disabled; set loop_enabled: true''"

definition loop_warnings :: "string list" where
  "loop_warnings = [''Reviewer invocations consume the same task/session budget; limits are never raised.'',
     ''Native readiness is checked only before an explicit bounded invocation.'']"

definition unresolved_row :: "row \<Rightarrow> bool" where
  "unresolved_row r \<longleftrightarrow> jat r ''status'' = JStr ''active'' \<or> jat r ''uncertain'' = JBool True"

definition manual_blockers :: "Config_l \<Rightarrow> history \<Rightarrow> bool \<Rightarrow> string list" where
  "manual_blockers c h active =
     (if active then [active_budget_text] else []) @
     (if pythonFields (lCheckCommand c) = [] then [no_check_text] else []) @
     (if list_ex unresolved_row (rows h) then [unresolved_text] else [])"

definition makeManualPlan :: "(int \<Rightarrow> kill_result) \<Rightarrow> Request_l \<Rightarrow> Config_l \<Rightarrow> Config \<Rightarrow> history \<Rightarrow> history \<Rightarrow>
    loop_error + Plan_l" where
  "makeManualPlan kill r c bc h b =
     bindE (validateHistory_l h) (\<lambda>_.
     bindE (mapErr BudgetRefused (HasActive b)) (\<lambda>active.
       let p = \<lparr>lpSession = lrSession r, lpTask = lrTask r, lpHarness = lrHarness r, lpMode = requestMode r,
                lpConfiguration = c, lpBudget = None, lpBlockers = manual_blockers c h active,
                lpMaxImplementerAttempts = lMaxAttempts c, lpReviewerCountsTowardBudgetAttempts = True,
                lpWarnings = loop_warnings\<rparr>
       in if requestMode r \<noteq> ''bounded'' then Inr p
          else bindE (mapErr BudgetRefused (MakePlan kill (budgetRequest r ''implementer'') bc b)) (\<lambda>nativePlan.
            Inr (p\<lparr>lpBudget := Some nativePlan,
                   lpBlockers := lpBlockers p @ (if lEnabled c then [] else [loop_disabled_text]) @
                     pBlockers nativePlan\<rparr>))))"

end
