(* ===== verification/Go_State.thy ===== *)
theory Go_State
  imports Prelude
begin

text \<open>
  Effectful Go code: a procedure is a function from a state to its result and the next state.
  \<open>bindS\<close> is sequencing, \<open>tryS\<close> the pattern \<open>x, err := f(); if err != nil { return err }\<close> on the
  error sum of the prelude; the state an early return has reached is kept, as Go keeps the
  assignments made before it.  \<open>wp m Q s\<close> says that \<open>m\<close>, run from \<open>s\<close>, ends in a result and a state
  satisfying \<open>Q\<close>; the collection \<open>wp_simps\<close> computes it through the combinators, so that a triple
  of a composite procedure reduces to the triples of its parts.
\<close>

named_theorems wp_simps \<open>weakest preconditions of the combinators\<close>

type_synonym ('s, 'a) act = "'s \<Rightarrow> 'a \<times> 's"

definition retS :: "'a \<Rightarrow> ('s, 'a) act" where
  "retS x = (\<lambda>s. (x, s))"

definition bindS :: "('s, 'a) act \<Rightarrow> ('a \<Rightarrow> ('s, 'b) act) \<Rightarrow> ('s, 'b) act" where
  "bindS m f = (\<lambda>s. case m s of (x, t) \<Rightarrow> f x t)"

definition tryS :: "('s, 'e + 'a) act \<Rightarrow> ('a \<Rightarrow> ('s, 'e + 'b) act) \<Rightarrow> ('s, 'e + 'b) act" where
  "tryS m f = bindS m (\<lambda>r. case r of Inl e \<Rightarrow> retS (Inl e) | Inr x \<Rightarrow> f x)"

definition getS :: "('s \<Rightarrow> 'a) \<Rightarrow> ('s, 'a) act" where
  "getS f = (\<lambda>s. (f s, s))"

definition modifyS :: "('s \<Rightarrow> 's) \<Rightarrow> ('s, unit) act" where
  "modifyS f = (\<lambda>s. ((), f s))"

definition wp :: "('s, 'a) act \<Rightarrow> ('a \<Rightarrow> 's \<Rightarrow> bool) \<Rightarrow> 's \<Rightarrow> bool" where
  "wp m Q s \<longleftrightarrow> (case m s of (x, t) \<Rightarrow> Q x t)"

lemma wp_retS [wp_simps]: "wp (retS x) Q s \<longleftrightarrow> Q x s"
  by (simp add: wp_def retS_def)

lemma wp_getS [wp_simps]: "wp (getS f) Q s \<longleftrightarrow> Q (f s) s"
  by (simp add: wp_def getS_def)

lemma wp_modifyS [wp_simps]: "wp (modifyS f) Q s \<longleftrightarrow> Q () (f s)"
  by (simp add: wp_def modifyS_def)

lemma wp_bindS [wp_simps]: "wp (bindS m f) Q s \<longleftrightarrow> wp m (\<lambda>x. wp (f x) Q) s"
  by (simp add: wp_def bindS_def split: prod.splits)

lemma wp_tryS [wp_simps]:
  "wp (tryS m f) Q s \<longleftrightarrow> wp m (\<lambda>r t. case r of Inl e \<Rightarrow> Q (Inl e) t | Inr x \<Rightarrow> wp (f x) Q t) s"
  by (auto simp: tryS_def wp_def bindS_def retS_def split: prod.splits sum.splits)

lemma wp_if [wp_simps]: "wp (if b then m else n) Q s \<longleftrightarrow> (if b then wp m Q s else wp n Q s)"
  by simp

lemma wp_mono: "wp m Q s \<Longrightarrow> (\<And>x t. Q x t \<Longrightarrow> R x t) \<Longrightarrow> wp m R s"
  by (auto simp: wp_def)

lemma wp_conj: "wp m (\<lambda>x t. P x t \<and> Q x t) s \<longleftrightarrow> wp m P s \<and> wp m Q s"
  by (simp add: wp_def split: prod.splits)

lemma wpI: "(\<And>x t. m s = (x, t) \<Longrightarrow> Q x t) \<Longrightarrow> wp m Q s"
  by (simp add: wp_def split: prod.splits)

lemma wpD: "wp m Q s \<Longrightarrow> m s = (x, t) \<Longrightarrow> Q x t"
  by (simp add: wp_def)

text \<open>An invariant \<open>keeps R m\<close>: every run of \<open>m\<close> relates its first state to its last by \<open>R\<close>.\<close>

definition keeps :: "('s \<Rightarrow> 's \<Rightarrow> bool) \<Rightarrow> ('s, 'a) act \<Rightarrow> bool" where
  "keeps R m \<longleftrightarrow> (\<forall>s. R s (snd (m s)))"

lemma keepsD: "keeps R m \<Longrightarrow> m s = (x, t) \<Longrightarrow> R s t"
  by (metis keeps_def snd_conv)

lemma keeps_retS: "reflp R \<Longrightarrow> keeps R (retS x)"
  by (simp add: keeps_def retS_def reflpD)

lemma keeps_getS: "reflp R \<Longrightarrow> keeps R (getS f)"
  by (simp add: keeps_def getS_def reflpD)

lemma keeps_modifyS: "(\<And>s. R s (f s)) \<Longrightarrow> keeps R (modifyS f)"
  by (simp add: keeps_def modifyS_def)

lemma keeps_bindS: "transp R \<Longrightarrow> keeps R m \<Longrightarrow> (\<And>x. keeps R (f x)) \<Longrightarrow> keeps R (bindS m f)"
  by (auto simp: keeps_def bindS_def split: prod.splits) (metis snd_conv transpD)

lemma keeps_tryS:
  "reflp R \<Longrightarrow> transp R \<Longrightarrow> keeps R m \<Longrightarrow> (\<And>x. keeps R (f x)) \<Longrightarrow> keeps R (tryS m f)"
  unfolding tryS_def by (rule keeps_bindS) (auto split: sum.splits intro: keeps_retS)

lemma keeps_if: "(b \<Longrightarrow> keeps R m) \<Longrightarrow> (\<not> b \<Longrightarrow> keeps R n) \<Longrightarrow> keeps R (if b then m else n)"
  by simp

end
