(* ===== verification/Loop_Run.thy ===== *)
theory Loop_Run
  imports Loop_Plan Go_State Budget_Lifecycle
begin

text \<open>
  The loop controller (\<open>internal/loop/manual_run.go\<close>, \<open>bounded.go\<close>, \<open>store.go\<close> and
  \<open>Controller.Plan\<close>).  What it observes outside is an environment \<open>loop_world\<close>: one answer stream
  per collaborator, read at the position \<open>ls_tick\<close>, which every observation advances, so a theorem
  for all worlds covers every behaviour of the clock, of cancellation, of the checkout, of the
  ledger, of the check command, of the models and of the disk.  The state carries the checkpoint row
  the invocation mutates, its transaction and the sequence of externally visible events.
\<close>

section \<open>Storage\<close>

datatype store_answer = StoreAbsent | StoreText string | StoreReplaced | StoreFails

datatype save_answer = SaveCancelled | SavePublish publish_result

record Transaction =
  tClosed :: bool
  tFailed :: bool
  tRead :: bool
  tStored :: "string option"

definition newTransaction :: Transaction where
  "newTransaction = \<lparr>tClosed = False, tFailed = False, tRead = False, tStored = None\<rparr>"

definition readHistory :: "store_answer \<Rightarrow> loop_error + history" where
  "readHistory a = (case a of
       StoreAbsent \<Rightarrow> Inr emptyHistory_l
     | StoreText t \<Rightarrow> ParseHistory_l (Some t)
     | _ \<Rightarrow> Inl LoopStorage)"

text \<open>\<open>Store.Read\<close> observes at most eight snapshots, retrying only a proven replacement.\<close>

fun store_read :: "store_answer list \<Rightarrow> loop_error + history" where
  "store_read [] = Inl InvalidCheckpoint"
| "store_read (a # as) = (if a = StoreReplaced then store_read as else readHistory a)"

definition tx_read :: "store_answer \<Rightarrow> Transaction \<Rightarrow> (loop_error + history) \<times> Transaction" where
  "tx_read a t =
     (if tClosed t then (Inl InvalidCheckpoint, t)
      else let r = readHistory a
           in (r, t\<lparr>tRead := (case r of Inl _ \<Rightarrow> False | Inr _ \<Rightarrow> True),
                    tStored := (case a of StoreText s \<Rightarrow> Some s | _ \<Rightarrow> None)\<rparr>))"

definition tx_publish :: "publish_result \<Rightarrow> string \<Rightarrow> Transaction \<Rightarrow> (loop_error + unit) \<times> Transaction" where
  "tx_publish p data t = (case p of
       Published \<Rightarrow> (Inr (), t\<lparr>tStored := Some data\<rparr>)
     | NotPublished \<Rightarrow> (Inl (LoopPublication False), t\<lparr>tFailed := True\<rparr>)
     | Uncertain \<Rightarrow> (Inl (LoopPublication True), t\<lparr>tFailed := True, tStored := Some data\<rparr>)
     | UnsafeStore \<Rightarrow> (Inl LoopStorage, t\<lparr>tFailed := True\<rparr>))"

definition tx_write :: "save_answer \<Rightarrow> history \<Rightarrow> Transaction \<Rightarrow> (loop_error + unit) \<times> Transaction" where
  "tx_write a h t =
     (if tClosed t \<or> tFailed t \<or> \<not> tRead t then (Inl InvalidCheckpoint, t)
      else case a of
          SaveCancelled \<Rightarrow> (Inl Interrupted, t)
        | SavePublish p \<Rightarrow> (case validateHistory_l h of
              Inl e \<Rightarrow> (Inl e, t)
            | Inr _ \<Rightarrow> (case encodeHistory (JObj h) of
                  Inl _ \<Rightarrow> (Inl InvalidCheckpoint, t)
                | Inr data \<Rightarrow>
                    if length data + 1 > historyLimit then (Inl InvalidCheckpoint, t)
                    else tx_publish p (data @ [CHR 0x0A]) t)))"

section \<open>World and state\<close>

datatype invoke_error = NoError | PlainError | OwnershipLost int

record invoke_answer =
  iaRecord :: "row option"
  iaExitCode :: int
  iaResponse :: string
  iaError :: invoke_error

text \<open>\<open>native.ExecuteCheck\<close>: the process it spawned, if any, is announced to the callback; the
  execution it returns, and whether it also returns an error, may depend on the callback's success.\<close>

record check_answer =
  caSpawn :: "int option"
  caResult :: "bool \<Rightarrow> Execution \<times> bool"

record loop_world =
  lw_sha256 :: "string \<Rightarrow> string"
  lw_grep :: "string \<Rightarrow> Execution option"
  lw_kill :: "int \<Rightarrow> kill_result"
  lw_pid :: int
  lw_timestamp :: string
  lw_elapsed :: "nat \<Rightarrow> f64"
  lw_expired :: "nat \<Rightarrow> bool"
  lw_interrupted :: "nat \<Rightarrow> bool"
  lw_cancelled :: "nat \<Rightarrow> bool"
  lw_prompt :: "nat \<Rightarrow> string option"
  lw_snapshot :: "nat \<Rightarrow> Fingerprint option"
  lw_budget :: "nat \<Rightarrow> history option"
  lw_execute :: "nat \<Rightarrow> check_answer"
  lw_invoke :: "nat \<Rightarrow> invoke_answer"
  lw_save :: "nat \<Rightarrow> save_answer"
  lw_store :: "nat \<Rightarrow> store_answer"
  lw_guard :: "nat \<Rightarrow> bool"
  lw_lock :: "nat \<Rightarrow> loop_error option"
  lw_release :: "nat \<Rightarrow> bool"

datatype loop_event =
    EvSaved row
  | EvSaveFailed
  | EvFresh Fingerprint
  | EvLaunch string
  | EvCheck Execution
  | EvInvoke string string invoke_answer

record loop_state =
  ls_tick :: nat
  ls_row :: row
  ls_tx :: Transaction
  ls_trace :: "loop_event list"

definition ask :: "(nat \<Rightarrow> 'a) \<Rightarrow> (loop_state, 'a) act" where
  "ask f = (\<lambda>s. (f (ls_tick s), s\<lparr>ls_tick := Suc (ls_tick s)\<rparr>))"

definition emit :: "loop_event \<Rightarrow> (loop_state, unit) act" where
  "emit e = modifyS (\<lambda>s. s\<lparr>ls_trace := ls_trace s @ [e]\<rparr>)"

definition update_row :: "(row \<Rightarrow> row) \<Rightarrow> (loop_state, unit) act" where
  "update_row f = modifyS (\<lambda>s. s\<lparr>ls_row := f (ls_row s)\<rparr>)"

definition put_field :: "string \<Rightarrow> jval \<Rightarrow> (loop_state, unit) act" where
  "put_field k v = update_row (jset k v)"

record invocation =
  m_request :: Request_l
  m_config :: Config_l
  m_budget :: Config
  m_history :: history
  m_index :: nat
  m_consumed :: f64
  m_prompt :: string

record LoopResult =
  lresPlan :: "Plan_l option"
  lresRecord :: "row option"
  lresExitCode :: int

section \<open>Time and saving\<close>

definition number_l :: "f64 \<Rightarrow> jval" where
  "number_l x = JNum (FloatText x)"

definition int_value :: "int \<Rightarrow> jval" where
  "int_value i = JNum (int_str i)"

text \<open>\<open>duration\<close>: seconds to nanoseconds, saturating at the largest \<open>int64\<close>.\<close>

definition max_int64 :: int where
  "max_int64 = 2 ^ 63 - 1"

definition duration :: "f64 \<Rightarrow> int" where
  "duration seconds =
     (if f64_le seconds f64_zero then 0
      else if f64_le (round64 (2 ^ 63 / 10 ^ 9)) seconds then max_int64
      else \<lfloor>f64_val (round64 (f64_val seconds * 10 ^ 9))\<rfloor>)"

definition elapsed :: "loop_world \<Rightarrow> invocation \<Rightarrow> (loop_state, f64) act" where
  "elapsed w m = bindS (ask (lw_elapsed w)) (\<lambda>t. retS (f64_add (m_consumed m) t))"

definition runs_value :: "history \<Rightarrow> jval list" where
  "runs_value h = (case jat h ''runs'' of JArr vs \<Rightarrow> vs | _ \<Rightarrow> [])"

definition with_row :: "history \<Rightarrow> nat \<Rightarrow> row \<Rightarrow> history" where
  "with_row h i r = jset ''runs'' (JArr ((runs_value h)[i := JObj r])) h"

definition write_checkpoint :: "loop_world \<Rightarrow> invocation \<Rightarrow> (loop_state, loop_error + unit) act" where
  "write_checkpoint w m = bindS (ask (lw_save w)) (\<lambda>a s.
     case tx_write a (with_row (m_history m) (m_index m) (ls_row s)) (ls_tx s) of
       (Inr _, tx) \<Rightarrow> (Inr (), s\<lparr>ls_tx := tx, ls_trace := ls_trace s @ [EvSaved (ls_row s)]\<rparr>)
     | (Inl e, tx) \<Rightarrow>
         (Inl e, s\<lparr>ls_tx := tx, ls_trace := ls_trace s @ (if tFailed tx \<and> \<not> tFailed (ls_tx s) then [EvSaveFailed] else [])\<rparr>))"

definition save :: "loop_world \<Rightarrow> invocation \<Rightarrow> (loop_state, loop_error + unit) act" where
  "save w m = bindS (elapsed w m) (\<lambda>t. bindS (put_field ''elapsed_seconds'' (number_l t)) (\<lambda>_.
     write_checkpoint w m))"

section \<open>Freshness\<close>

definition fresh_prompt :: "loop_world \<Rightarrow> invocation \<Rightarrow> (loop_state, loop_error + unit) act" where
  "fresh_prompt w m =
     (if requestMode (m_request m) = ''bounded''
      then bindS (ask (lw_prompt w)) (\<lambda>content. bindS (getS ls_row) (\<lambda>row.
        retS (bindE (loadLoopPrompt content (lrPromptFile (m_request m))) (\<lambda>prompt.
          case digest (lw_sha256 w) (JStr prompt) of
            Inl _ \<Rightarrow> Inl ManualRefused
          | Inr identity \<Rightarrow> guardE (JStr identity = jat row ''prompt'') ManualRefused))))
      else retS (Inr ()))"

definition policyS :: "loop_world \<Rightarrow> Config_l \<Rightarrow> Config \<Rightarrow> environment \<Rightarrow> (loop_state, loop_error + string) act" where
  "policyS w c b environment = bindS (ask (lw_cancelled w)) (\<lambda>stop.
     retS (if stop then Inl NoFingerprint else Policy (lw_sha256 w) c b environment))"

definition same_baseline :: "row \<Rightarrow> Fingerprint \<Rightarrow> bool" where
  "same_baseline row current \<longleftrightarrow>
     (let baseline = fingerprint_read (jat row ''baseline'')
      in fpHead current = fpHead baseline \<and> fpSafety current = fpSafety baseline)"

definition observe_snapshot :: "loop_world \<Rightarrow> Fingerprint option \<Rightarrow> row \<Rightarrow> (loop_state, loop_error + Fingerprint) act" where
  "observe_snapshot w previous row = bindS (ask (lw_snapshot w)) (\<lambda>snapshot. case snapshot of
       None \<Rightarrow> retS (Inl NoFingerprint)
     | Some current \<Rightarrow>
         if \<not> same_baseline row current \<or> (case previous of None \<Rightarrow> False | Some p \<Rightarrow> current \<noteq> p)
         then retS (Inl ManualRefused)
         else bindS (put_field ''snapshot'' (snapshotValue current)) (\<lambda>_.
           bindS (emit (EvFresh current)) (\<lambda>_. retS (Inr current))))"

definition fresh :: "loop_world \<Rightarrow> invocation \<Rightarrow> Fingerprint option \<Rightarrow> (loop_state, loop_error + Fingerprint) act" where
  "fresh w m previous = tryS (fresh_prompt w m) (\<lambda>_.
     bindS (policyS w (m_config m) (m_budget m) (lrEnvironment (m_request m))) (\<lambda>policy.
     bindS (getS ls_row) (\<lambda>row.
       if (case policy of Inl _ \<Rightarrow> True | Inr p \<Rightarrow> JStr p \<noteq> jat row ''policy'') then retS (Inl ManualRefused)
       else observe_snapshot w previous row)))"

section \<open>Terminal results\<close>

definition manualNextAction :: string where
  "manualNextAction = ''Inspect changes and evidence; hand off to a human. Use a new task only after resolving the stop reason.''"

definition interrupted_text :: string where
  "interrupted_text = ''Controller interrupted; inspect owned processes before recovery''"

definition terminal_row :: "string \<Rightarrow> string \<Rightarrow> row \<Rightarrow> row" where
  "terminal_row outcome reason r =
     jset ''next_action'' (JStr (if outcome = ''approved'' then ''Review the changes and independent CI results.''
                                  else manualNextAction))
     (jset ''stop_reason'' (JStr reason) (jset ''phase'' (JStr ''finished'') (jset ''outcome'' (JStr outcome)
     (jset ''status'' (JStr (if outcome = ''approved'' then ''completed'' else ''stopped'')) r))))"

definition finish :: "loop_world \<Rightarrow> invocation \<Rightarrow> string \<Rightarrow> string \<Rightarrow> (loop_state, loop_error + LoopResult) act" where
  "finish w m outcome reason = bindS (getS (\<lambda>s. tFailed (ls_tx s))) (\<lambda>failed.
     if failed then retS (Inl ManualRefused)
     else bindS (ask (lw_interrupted w)) (\<lambda>stop.
       let outcome = (if stop then ''interrupted'' else outcome);
           reason = (if stop then interrupted_text else reason)
       in bindS (update_row (terminal_row outcome reason)) (\<lambda>_. tryS (save w m) (\<lambda>_. bindS (getS ls_row) (\<lambda>row.
         retS (Inr \<lparr>lresPlan = None, lresRecord = Some row,
                    lresExitCode = (if outcome = ''manual_passed'' \<or> outcome = ''approved'' then 0 else 2)\<rparr>))))))"

end
