(* ===== verification/Loop_Control.thy ===== *)
theory Loop_Control
  imports Loop_Bounded
begin

text \<open>
  \<open>Controller.Plan\<close> and \<open>Controller.Run\<close> of \<open>internal/loop\<close>: admission without side effects, then,
  under the transition guard and the checkpoint lock, a second admission over fresh state, the new or
  resumed row, its publication and the invocation.  \<open>guarded_run\<close> is the part of \<open>Run\<close> between
  acquiring and closing the guard; it also returns the flag passed to \<open>guard.Close\<close>.
\<close>

section \<open>Admission\<close>

definition ask_many :: "nat \<Rightarrow> (nat \<Rightarrow> 'a) \<Rightarrow> (loop_state, 'a list) act" where
  "ask_many n f = (\<lambda>s. (map (\<lambda>i. f (ls_tick s + i)) [0..<n], s\<lparr>ls_tick := ls_tick s + n\<rparr>))"

definition storeRead :: "loop_world \<Rightarrow> (loop_state, loop_error + history) act" where
  "storeRead w = bindS (ask_many 8 (lw_store w)) (\<lambda>answers. retS (store_read answers))"

definition configurations :: "loop_world \<Rightarrow> Request_l \<Rightarrow> loop_error + (Config_l \<times> Config)" where
  "configurations w r =
     (if \<not> validManual r then Inl ManualRefused
      else bindE (Configuration_l (lw_grep w) (lrEnvironment r)) (\<lambda>c.
        bindE (mapErr BudgetRefused (Configuration (map_of (lrEnvironment r)))) (\<lambda>bc. Inr (c, bc))))"

definition readBudget :: "loop_world \<Rightarrow> (loop_state, loop_error + history) act" where
  "readBudget w = bindS (ask (lw_budget w)) (\<lambda>b. retS (case b of None \<Rightarrow> Inl LoopStorage | Some h \<Rightarrow> Inr h))"

definition planFor :: "loop_world \<Rightarrow> Request_l \<Rightarrow> Config_l \<times> Config \<Rightarrow> history \<Rightarrow> (loop_state, loop_error + Plan_l) act" where
  "planFor w r cs h = tryS (readBudget w) (\<lambda>b. retS (makeManualPlan (lw_kill w) r (fst cs) (snd cs) h b))"

definition ControllerPlan :: "loop_world \<Rightarrow> Request_l \<Rightarrow> (loop_state, loop_error + Plan_l) act" where
  "ControllerPlan w r =
     (if \<not> validManual r then retS (Inl ManualRefused)
      else tryS (storeRead w) (\<lambda>h. tryS (retS (configurations w r)) (\<lambda>cs. tryS (planFor w r cs h) (\<lambda>p.
        bindS (ask (lw_snapshot w)) (\<lambda>snapshot. retS (case snapshot of None \<Rightarrow> Inl NoFingerprint | Some _ \<Rightarrow> Inr p))))))"

section \<open>The row of an invocation\<close>

definition starting_text :: string where
  "starting_text = ''Controller is active; do not overlap another run.''"

definition new_row :: "loop_world \<Rightarrow> Request_l \<Rightarrow> Config_l \<Rightarrow> Fingerprint \<Rightarrow> string \<Rightarrow> string \<Rightarrow> row" where
  "new_row w r c current policy prompt =
     [(''session'', JStr (lrSession r)), (''task'', JStr (lrTask r)), (''harness'', JStr (lrHarness r)),
      (''mode'', JStr (requestMode r)), (''status'', JStr ''active''), (''outcome'', JStr ''running''),
      (''phase'', JStr ''starting''), (''owner_pid'', int_value (lw_pid w)), (''process_pid'', JNull),
      (''started_at'', JStr (lw_timestamp w)), (''elapsed_seconds'', number_l f64_zero),
      (''reserved_seconds'', number_l (lTimeoutSeconds c)), (''attempts'', JNum ''0''), (''no_progress'', JNum ''0''),
      (''uncertain'', JBool False), (''baseline'', snapshotValue current), (''snapshot'', snapshotValue current),
      (''policy'', JStr policy), (''prompt'', JStr prompt), (''evidence'', JArr []), (''budget_runs'', JArr []),
      (''stop_reason'', JStr []), (''next_action'', JStr starting_text)]"

definition resumed_row :: "loop_world \<Rightarrow> row \<Rightarrow> row" where
  "resumed_row w row = jset ''owner_pid'' (int_value (lw_pid w)) (jset ''status'' (JStr ''active'') row)"

definition find_row :: "history \<Rightarrow> string \<Rightarrow> string \<Rightarrow> (nat \<times> row) option" where
  "find_row h session task =
     find (\<lambda>(_, r). jat r ''session'' = JStr session \<and> jat r ''task'' = JStr task)
       (List.enumerate 0 (rows h))"

text \<open>The history and row the invocation starts with: the resumed row in place, or a new last row.\<close>

definition start_row :: "loop_world \<Rightarrow> Request_l \<Rightarrow> Config_l \<Rightarrow> bool \<Rightarrow> history \<Rightarrow> history \<Rightarrow> Fingerprint \<Rightarrow>
    string \<Rightarrow> string \<Rightarrow> loop_error + (history \<times> nat \<times> row)" where
  "start_row w r c resume h b current policy prompt =
     (if resume
      then bindE (AssessResume h b \<lparr>rrSession = lrSession r, rrTask = lrTask r, rrHarness = lrHarness r,
               rrMode = requestMode r, rrSnapshot = current, rrPolicy = policy, rrPrompt = prompt,
               rrTimeoutSeconds = lTimeoutSeconds c\<rparr>) (\<lambda>_.
             case find_row h (lrSession r) (lrTask r) of
               None \<Rightarrow> Inl ManualRefused
             | Some (i, row) \<Rightarrow> Inr (h, i, resumed_row w row))
      else case find_row h (lrSession r) (lrTask r) of
          Some _ \<Rightarrow> Inl ManualRefused
        | None \<Rightarrow> (let row = new_row w r c current policy prompt
                   in Inr (jset ''runs'' (JArr (runs_value h @ [JObj row])) h, length (runs_value h), row)))"

section \<open>Run\<close>

definition clean_outcomes :: "string list" where
  "clean_outcomes = [''manual_passed'', ''manual_failed'', ''approved'', ''attempt_limit'', ''no_progress'', ''repeated_failure'']"

definition clean_record :: "row \<Rightarrow> bool" where
  "clean_record row \<longleftrightarrow> jat row ''status'' \<noteq> JStr ''active'' \<and> jat row ''uncertain'' = JBool False \<and>
     jat row ''process_pid'' = JNull \<and> list_ex (\<lambda>out. jat row ''outcome'' = JStr out) clean_outcomes"

definition clean_result :: "(loop_error + LoopResult) option \<Rightarrow> bool" where
  "clean_result r = (case r of
       Some (Inr result) \<Rightarrow> (case lresRecord result of Some row \<Rightarrow> clean_record row | None \<Rightarrow> False)
     | _ \<Rightarrow> False)"

type_synonym loop_outcome = "(loop_error + LoopResult) option"

definition plan_result :: "Plan_l \<Rightarrow> LoopResult" where
  "plan_result p = \<lparr>lresPlan = Some p, lresRecord = None, lresExitCode = 2\<rparr>"

definition refuse :: "loop_error \<Rightarrow> bool \<Rightarrow> (loop_state, loop_outcome \<times> bool) act" where
  "refuse e clean = retS (Some (Inl e), clean)"

definition start_invocation :: "nat \<Rightarrow> loop_world \<Rightarrow> Request_l \<Rightarrow> Config_l \<times> Config \<Rightarrow> string \<Rightarrow>
    history \<times> nat \<times> row \<Rightarrow> (loop_state, loop_outcome \<times> bool) act" where
  "start_invocation fuel w r cs prompt start = (case start of (h, i, row) \<Rightarrow>
     (let m = \<lparr>m_request = r, m_config = fst cs, m_budget = snd cs, m_history = h, m_index = i,
               m_consumed = float_or_zero (jat row ''elapsed_seconds''), m_prompt = prompt\<rparr>
      in bindS (update_row (\<lambda>_. row)) (\<lambda>_. bindS (write_checkpoint w m) (\<lambda>r. case r of
           Inl e \<Rightarrow> refuse e False
         | Inr _ \<Rightarrow> bindS (run_invocation fuel w m) (\<lambda>result. retS (result, clean_result result))))))"

definition prepared_run :: "nat \<Rightarrow> loop_world \<Rightarrow> Request_l \<Rightarrow> bool \<Rightarrow> Config_l \<times> Config \<Rightarrow> string \<Rightarrow> history \<Rightarrow> history \<Rightarrow>
    (loop_state, loop_outcome \<times> bool) act" where
  "prepared_run fuel w r resume cs prompt h b =
     bindS (ask (lw_snapshot w)) (\<lambda>snapshot. case snapshot of
       None \<Rightarrow> refuse NoFingerprint False
     | Some current \<Rightarrow> bindS (emit (EvFresh current)) (\<lambda>_.
     bindS (policyS w (fst cs) (snd cs) (lrEnvironment r)) (\<lambda>policy. case policy of
       Inl e \<Rightarrow> refuse e False
     | Inr policy \<Rightarrow>
     (case digest (lw_sha256 w) (JStr prompt) of
       Inl e \<Rightarrow> refuse e False
     | Inr identity \<Rightarrow> (case start_row w r (fst cs) resume h b current policy identity of
         Inl e \<Rightarrow> refuse e False
       | Inr start \<Rightarrow> start_invocation fuel w r cs prompt start)))))"

definition guarded_run :: "nat \<Rightarrow> loop_world \<Rightarrow> Request_l \<Rightarrow> bool \<Rightarrow> Config_l \<times> Config \<Rightarrow> string \<Rightarrow>
    (loop_state, loop_outcome \<times> bool) act" where
  "guarded_run fuel w r resume cs prompt =
     bindS (ask (lw_lock w)) (\<lambda>lock. case lock of
       Some e \<Rightarrow> refuse e True
     | None \<Rightarrow>
     bindS (ask (lw_store w)) (\<lambda>stored. bindS (\<lambda>s. (case tx_read stored (ls_tx s) of (r, tx) \<Rightarrow> (r, s\<lparr>ls_tx := tx\<rparr>)))
     (\<lambda>h. case h of
       Inl e \<Rightarrow> refuse e True
     | Inr h \<Rightarrow>
     bindS (readBudget w) (\<lambda>b. case b of
       Inl e \<Rightarrow> refuse e True
     | Inr b \<Rightarrow> (case makeManualPlan (lw_kill w) r (fst cs) (snd cs) h b of
         Inl e \<Rightarrow> refuse e True
       | Inr p \<Rightarrow>
           if lpBlockers p \<noteq> [] then retS (Some (Inr (plan_result p)), True)
           else prepared_run fuel w r resume cs prompt h b)))))"

definition closed_run :: "loop_world \<Rightarrow> loop_outcome \<times> bool \<Rightarrow> (loop_state, loop_outcome) act" where
  "closed_run w out = bindS (modifyS (\<lambda>s. s\<lparr>ls_tx := (ls_tx s)\<lparr>tClosed := True\<rparr>\<rparr>)) (\<lambda>_.
     bindS (ask (lw_release w)) (\<lambda>released.
       retS (if released then fst out
             else if fst out = None then None else Some (Inl TransitionCleanup))))"

definition ControllerRun :: "nat \<Rightarrow> loop_world \<Rightarrow> Request_l \<Rightarrow> bool \<Rightarrow> (loop_state, loop_outcome) act" where
  "ControllerRun fuel w r resume =
     (if \<not> validManual r then retS (Some (Inl ManualRefused))
      else bindS (storeRead w) (\<lambda>h. case h of Inl e \<Rightarrow> retS (Some (Inl e)) | Inr h \<Rightarrow>
      (case configurations w r of Inl e \<Rightarrow> retS (Some (Inl e)) | Inr cs \<Rightarrow>
      bindS (planFor w r cs h) (\<lambda>p. case p of Inl e \<Rightarrow> retS (Some (Inl e)) | Inr p \<Rightarrow>
      if lpBlockers p \<noteq> [] then retS (Some (Inr (plan_result p)))
      else bindS (ask (lw_prompt w)) (\<lambda>content.
        case (if requestMode r = ''bounded'' then loadLoopPrompt content (lrPromptFile r) else Inr []) of
          Inl e \<Rightarrow> retS (Some (Inl e))
        | Inr prompt \<Rightarrow> bindS (ask (lw_guard w)) (\<lambda>held.
            if \<not> held then retS (Some (Inl ManualRefused))
            else bindS (guarded_run fuel w r resume cs prompt) (closed_run w)))))))"

definition initial_state :: loop_state where
  "initial_state = \<lparr>ls_tick = 0, ls_row = [], ls_tx = newTransaction, ls_trace = []\<rparr>"

end
