(* ===== verification/Loop_Trace.thy ===== *)
theory Loop_Trace
  imports Loop_Control
begin

text \<open>
  Reasoning about the loop controller through the events it produces.  \<open>trace_ok\<close> is the ordering
  contract of the trace (a model or check starts only right after its intent has been published; a
  failed publication is the last event), \<open>core\<close> drops the store events, and \<open>evolves s es t\<close> says that a
  stage leads from \<open>s\<close> to \<open>t\<close> with core events \<open>es\<close>, keeping the contract and the identity fields of the
  row.  Every stage gets one triple over these notions; the properties compose them.
\<close>

named_theorems stage_simps \<open>definitions the stage triples unfold\<close>

section \<open>The trace contract\<close>

definition is_store :: "loop_event \<Rightarrow> bool" where
  "is_store e = (case e of EvSaved _ \<Rightarrow> True | EvSaveFailed \<Rightarrow> True | _ \<Rightarrow> False)"

definition core :: "loop_event list \<Rightarrow> loop_event list" where
  "core es = filter (\<lambda>e. \<not> is_store e) es"

definition saved_for :: "loop_event option \<Rightarrow> string \<Rightarrow> bool" where
  "saved_for p phase = (case p of
       Some (EvSaved r) \<Rightarrow> jat r ''phase'' = JStr phase \<and> jat r ''status'' = JStr ''active''
     | _ \<Rightarrow> False)"

definition ok_next :: "loop_event option \<Rightarrow> loop_event \<Rightarrow> bool" where
  "ok_next p e \<longleftrightarrow> p \<noteq> Some EvSaveFailed \<and> (case e of
       EvInvoke role _ _ \<Rightarrow> saved_for p role
     | EvLaunch _ \<Rightarrow> saved_for p ''check''
     | _ \<Rightarrow> True)"

definition last_event :: "loop_event list \<Rightarrow> loop_event option" where
  "last_event es = (if es = [] then None else Some (last es))"

fun trace_from :: "loop_event option \<Rightarrow> loop_event list \<Rightarrow> bool" where
  "trace_from p [] = True"
| "trace_from p (e # es) = (ok_next p e \<and> trace_from (Some e) es)"

definition trace_ok :: "loop_event list \<Rightarrow> bool" where
  "trace_ok es = trace_from None es"

lemma core_simps [simp]:
  "core [] = []"
  "core (es @ fs) = core es @ core fs"
  "core (e # es) = (if is_store e then core es else e # core es)"
  by (simp_all add: core_def)

lemma is_store_simps [simp]:
  "is_store (EvSaved r)" "is_store EvSaveFailed" "\<not> is_store (EvFresh f)" "\<not> is_store (EvLaunch c)"
  "\<not> is_store (EvCheck x)" "\<not> is_store (EvInvoke role p a)"
  by (simp_all add: is_store_def)

lemma last_event_simps [simp]:
  "last_event [] = None"
  "last_event (es @ [e]) = Some e"
  by (simp_all add: last_event_def)

lemma trace_from_snoc:
  "trace_from p (es @ [e]) \<longleftrightarrow> trace_from p es \<and> ok_next (if es = [] then p else Some (last es)) e"
  by (induction es arbitrary: p) auto

lemma trace_ok_snoc [simp]: "trace_ok (es @ [e]) \<longleftrightarrow> trace_ok es \<and> ok_next (last_event es) e"
  by (simp add: trace_ok_def trace_from_snoc last_event_def)

lemma trace_ok_Nil [simp]: "trace_ok []"
  by (simp add: trace_ok_def)

lemma ok_next_simps [simp]:
  "ok_next p (EvSaved r) \<longleftrightarrow> p \<noteq> Some EvSaveFailed"
  "ok_next p EvSaveFailed \<longleftrightarrow> p \<noteq> Some EvSaveFailed"
  "ok_next p (EvFresh f) \<longleftrightarrow> p \<noteq> Some EvSaveFailed"
  "ok_next p (EvCheck x) \<longleftrightarrow> p \<noteq> Some EvSaveFailed"
  "ok_next (Some (EvSaved r)) (EvInvoke role q a) \<longleftrightarrow> jat r ''phase'' = JStr role \<and> jat r ''status'' = JStr ''active''"
  "ok_next (Some (EvSaved r)) (EvLaunch c) \<longleftrightarrow> jat r ''phase'' = JStr ''check'' \<and> jat r ''status'' = JStr ''active''"
  by (simp_all add: ok_next_def saved_for_def)

section \<open>Stages\<close>

definition stable_fields :: "string list" where
  "stable_fields = [''session'', ''task'', ''harness'', ''mode'', ''owner_pid'', ''started_at'', ''reserved_seconds'',
     ''baseline'', ''policy'', ''prompt'', ''attempts'', ''status'']"

definition same_fields :: "string list \<Rightarrow> row \<Rightarrow> row \<Rightarrow> bool" where
  "same_fields ks r r' \<longleftrightarrow> list_all (\<lambda>k. jat r' k = jat r k) ks"

definition recorded :: "loop_state \<Rightarrow> bool" where
  "recorded s \<longleftrightarrow> trace_ok (ls_trace s) \<and> (tFailed (ls_tx s) \<longleftrightarrow> last_event (ls_trace s) = Some EvSaveFailed)"

definition live :: "loop_state \<Rightarrow> bool" where
  "live s \<longleftrightarrow> recorded s \<and> \<not> tFailed (ls_tx s) \<and> jat (ls_row s) ''status'' = JStr ''active''"

definition evolves :: "loop_state \<Rightarrow> loop_event list \<Rightarrow> loop_state \<Rightarrow> bool" where
  "evolves s es t \<longleftrightarrow> recorded t \<and> core (ls_trace t) = core (ls_trace s) @ es \<and>
     same_fields stable_fields (ls_row s) (ls_row t)"

lemma same_fields_refl [simp]: "same_fields ks r r"
  by (simp add: same_fields_def list_all_iff)

lemma same_fields_trans: "same_fields ks a b \<Longrightarrow> same_fields ks b c \<Longrightarrow> same_fields ks a c"
  by (simp add: same_fields_def list_all_iff)

lemma same_fields_jset [simp]: "k \<notin> set ks \<Longrightarrow> same_fields ks r (jset k v r') \<longleftrightarrow> same_fields ks r r'"
  by (auto simp: same_fields_def list_all_iff)

lemma not_stable [simp]:
  "''elapsed_seconds'' \<notin> set stable_fields" "''snapshot'' \<notin> set stable_fields" "''phase'' \<notin> set stable_fields"
  "''process_pid'' \<notin> set stable_fields" "''uncertain'' \<notin> set stable_fields" "''evidence'' \<notin> set stable_fields"
  "''budget_runs'' \<notin> set stable_fields" "''no_progress'' \<notin> set stable_fields" "''outcome'' \<notin> set stable_fields"
  "''stop_reason'' \<notin> set stable_fields" "''next_action'' \<notin> set stable_fields"
  by (simp_all add: stable_fields_def)

lemma same_fields_sym: "same_fields ks a b = same_fields ks b a"
  by (auto simp: same_fields_def list_all_iff)

lemma same_fieldsD: "same_fields ks r r' \<Longrightarrow> k \<in> set ks \<Longrightarrow> jat r' k = jat r k"
  by (simp add: same_fields_def list_all_iff)

lemma evolves_status: "evolves s es t \<Longrightarrow> jat (ls_row t) ''status'' = jat (ls_row s) ''status''"
  by (simp add: evolves_def same_fields_def stable_fields_def)

lemma evolves_attempts: "evolves s es t \<Longrightarrow> jat (ls_row t) ''attempts'' = jat (ls_row s) ''attempts''"
  by (simp add: evolves_def same_fields_def stable_fields_def)

lemma evolves_baseline: "evolves s es t \<Longrightarrow> jat (ls_row t) ''baseline'' = jat (ls_row s) ''baseline''"
  by (simp add: evolves_def same_fields_def stable_fields_def)

lemma evolves_refl: "recorded s \<Longrightarrow> evolves s [] s"
  by (simp add: evolves_def)

lemma evolves_trans: "evolves s es t \<Longrightarrow> evolves t fs u \<Longrightarrow> evolves s (es @ fs) u"
  by (auto simp: evolves_def intro: same_fields_trans)

lemma evolves_recorded: "evolves s es t \<Longrightarrow> recorded t"
  by (simp add: evolves_def)

lemma evolves_live: "evolves s es t \<Longrightarrow> live s \<Longrightarrow> \<not> tFailed (ls_tx t) \<Longrightarrow> live t"
  by (simp add: live_def evolves_status evolves_recorded)

lemma recorded_tick [simp]: "recorded (s\<lparr>ls_tick := n\<rparr>) = recorded s"
  by (simp add: recorded_def)

lemma recorded_row [simp]: "recorded (s\<lparr>ls_row := r\<rparr>) = recorded s"
  by (simp add: recorded_def)

lemma evolves_tick [simp]: "evolves s es (t\<lparr>ls_tick := n\<rparr>) = evolves s es t"
  by (simp add: evolves_def)

lemma evolves_from_tick [simp]: "evolves (s\<lparr>ls_tick := n\<rparr>) es t = evolves s es t"
  by (simp add: evolves_def)

lemma live_tick [simp]: "live (s\<lparr>ls_tick := n\<rparr>) = live s"
  by (simp add: live_def)

lemma wp_ask [wp_simps]: "wp (ask f) Q s \<longleftrightarrow> Q (f (ls_tick s)) (s\<lparr>ls_tick := Suc (ls_tick s)\<rparr>)"
  by (simp add: wp_def ask_def)

lemma wp_emit [wp_simps]: "wp (emit e) Q s \<longleftrightarrow> Q () (s\<lparr>ls_trace := ls_trace s @ [e]\<rparr>)"
  by (simp add: emit_def wp_simps)

lemma wp_update_row [wp_simps]: "wp (update_row f) Q s \<longleftrightarrow> Q () (s\<lparr>ls_row := f (ls_row s)\<rparr>)"
  by (simp add: update_row_def wp_simps)

lemma wp_put_field [wp_simps]: "wp (put_field k v) Q s \<longleftrightarrow> Q () (s\<lparr>ls_row := jset k v (ls_row s)\<rparr>)"
  by (simp add: put_field_def wp_simps)

lemma wp_elapsed [wp_simps]:
  "wp (elapsed w m) Q s \<longleftrightarrow>
     Q (f64_add (m_consumed m) (lw_elapsed w (ls_tick s))) (s\<lparr>ls_tick := Suc (ls_tick s)\<rparr>)"
  by (simp add: elapsed_def wp_simps)

text \<open>Setting a field outside the identity of the row is a silent step.\<close>

definition silent :: "(row \<Rightarrow> row) \<Rightarrow> bool" where
  "silent f \<longleftrightarrow> (\<forall>r. same_fields stable_fields r (f r))"

lemma evolves_row:
  assumes "evolves s es t" and "same_fields stable_fields (ls_row t) r"
  shows "evolves s es (t\<lparr>ls_row := r\<rparr>)"
  using assms by (auto simp: evolves_def intro: same_fields_trans)

lemma evolves_emit:
  assumes "evolves s es t" and "\<not> tFailed (ls_tx t)" and "\<not> is_store e" and "ok_next (last_event (ls_trace t)) e"
  shows "evolves s (es @ [e]) (t\<lparr>ls_trace := ls_trace t @ [e]\<rparr>)"
  using assms by (auto simp: evolves_def recorded_def is_store_def)

section \<open>Publication\<close>

lemma tx_write_failed:
  assumes "tx_write a h t = (r, tx)"
  shows "(\<exists>u. r = Inr u) \<Longrightarrow> \<not> tFailed tx \<and> \<not> tFailed t"
    and "tFailed t \<Longrightarrow> tx = t"
  using assms
  by (auto simp: tx_write_def tx_publish_def split: if_splits save_answer.splits sum.splits publish_result.splits)

lemma write_wp:
  assumes "recorded s"
  shows "wp (write_checkpoint w m) (\<lambda>r t. evolves s [] t \<and> ls_row t = ls_row s \<and>
     (\<forall>u. r = Inr u \<longrightarrow> \<not> tFailed (ls_tx t) \<and> last_event (ls_trace t) = Some (EvSaved (ls_row t)))) s"
proof -
  define s1 where "s1 = s\<lparr>ls_tick := Suc (ls_tick s)\<rparr>"
  define h where "h = with_row (m_history m) (m_index m) (ls_row s)"
  obtain r tx where x: "tx_write (lw_save w (ls_tick s)) h (ls_tx s) = (r, tx)" by force
  note f = tx_write_failed [OF x]
  show ?thesis
  proof (cases r)
    case (Inr u)
    with f have "\<not> tFailed tx" "\<not> tFailed (ls_tx s)" by auto
    with Inr x assms show ?thesis
      unfolding write_checkpoint_def wp_bindS wp_ask
      by (simp add: wp_def h_def evolves_def recorded_def)
  next
    case (Inl e)
    with f x assms show ?thesis
      unfolding write_checkpoint_def wp_bindS wp_ask
      by (auto simp: wp_def h_def evolves_def recorded_def)
  qed
qed

lemma evolves_from_row [simp]:
  "same_fields stable_fields (ls_row s) r \<Longrightarrow> evolves (s\<lparr>ls_row := r\<rparr>) es t = evolves s es t"
  by (auto simp: evolves_def intro: same_fields_trans dest: same_fields_sym [THEN iffD1])

lemma save_wp:
  assumes "recorded s"
  shows "wp (save w m) (\<lambda>r t. evolves s [] t \<and>
     (\<exists>v. ls_row t = jset ''elapsed_seconds'' v (ls_row s)) \<and>
     (\<forall>u. r = Inr u \<longrightarrow> \<not> tFailed (ls_tx t) \<and> last_event (ls_trace t) = Some (EvSaved (ls_row t)))) s"
  unfolding save_def wp_bindS wp_elapsed wp_put_field
  by (rule wp_mono [OF write_wp]) (use assms in auto)

section \<open>Freshness and terminal results\<close>

definition freshened :: "loop_state \<Rightarrow> Fingerprint option \<Rightarrow> loop_error + Fingerprint \<Rightarrow> loop_state \<Rightarrow> bool" where
  "freshened s previous r t \<longleftrightarrow> \<not> tFailed (ls_tx t) \<and>
     evolves s (case r of Inl _ \<Rightarrow> [] | Inr f \<Rightarrow> [EvFresh f]) t \<and>
     (\<forall>f. r = Inr f \<longrightarrow> jat (ls_row t) ''snapshot'' = snapshotValue f \<and> same_baseline (ls_row s) f \<and>
        (\<forall>p. previous = Some p \<longrightarrow> f = p))"

lemma freshened_tick [simp]: "freshened (s\<lparr>ls_tick := n\<rparr>) previous r t = freshened s previous r t"
  by (simp add: freshened_def)

lemma freshened_error: "recorded s \<Longrightarrow> \<not> tFailed (ls_tx s) \<Longrightarrow> freshened s previous (Inl e) (s\<lparr>ls_tick := n\<rparr>)"
  by (simp add: freshened_def evolves_refl)

lemma observe_snapshot_wp:
  assumes "recorded s" and "\<not> tFailed (ls_tx s)"
  shows "wp (observe_snapshot w previous (ls_row s)) (freshened s previous) s"
proof (cases "lw_snapshot w (ls_tick s)")
  case None
  with assms show ?thesis by (simp add: observe_snapshot_def wp_simps freshened_error)
next
  case (Some f)
  show ?thesis
  proof (cases "\<not> same_baseline (ls_row s) f \<or> (case previous of None \<Rightarrow> False | Some p \<Rightarrow> f \<noteq> p)")
    case True
    with assms Some show ?thesis by (simp add: observe_snapshot_def wp_simps freshened_error)
  next
    case False
    moreover from False have "\<forall>p. previous = Some p \<longrightarrow> f = p" by (cases previous) auto
    moreover have "last_event (ls_trace s) \<noteq> Some EvSaveFailed" using assms by (simp add: recorded_def)
    ultimately show ?thesis using assms Some
      by (simp add: observe_snapshot_def wp_simps freshened_def evolves_def recorded_def)
  qed
qed

lemma fresh_prompt_wp: "wp (fresh_prompt w m) (\<lambda>r t. \<exists>n. t = s\<lparr>ls_tick := n\<rparr>) s"
  by (cases s) (auto simp: fresh_prompt_def wp_simps)

lemma fresh_wp:
  assumes "recorded s" and "\<not> tFailed (ls_tx s)"
  shows "wp (fresh w m previous) (freshened s previous) s"
  unfolding fresh_def wp_tryS
proof (rule wp_mono [OF fresh_prompt_wp], elim exE)
  fix r t n
  assume t: "t = s\<lparr>ls_tick := n\<rparr>"
  have obs: "wp (observe_snapshot w previous (ls_row s)) (freshened s previous) (s\<lparr>ls_tick := k\<rparr>)" for k
    using observe_snapshot_wp [of "s\<lparr>ls_tick := k\<rparr>" w previous] assms
    by (simp add: freshened_def [abs_def] cong: if_cong)
  have err: "freshened s previous (Inl e) (s\<lparr>ls_tick := k\<rparr>)" for e k
    using assms by (rule freshened_error)
  show "case r of Inl e \<Rightarrow> freshened s previous (Inl e) t
    | Inr x \<Rightarrow> wp (bindS (policyS w (m_config m) (m_budget m) (lrEnvironment (m_request m))) (\<lambda>policy.
         bindS (getS ls_row) (\<lambda>row.
           if (case policy of Inl _ \<Rightarrow> True | Inr p \<Rightarrow> JStr p \<noteq> jat row ''policy'') then retS (Inl ManualRefused)
           else observe_snapshot w previous row))) (freshened s previous) t"
    using obs err t by (simp add: policyS_def wp_simps split: sum.split)
qed

definition ends :: "loop_state \<Rightarrow> loop_event list \<Rightarrow> string list \<Rightarrow> loop_error + LoopResult \<Rightarrow> loop_state \<Rightarrow> bool" where
  "ends s es outcomes r t \<longleftrightarrow> recorded t \<and> core (ls_trace t) = core (ls_trace s) @ es \<and>
     (\<forall>res. r = Inr res \<longrightarrow> (\<exists>row. lresRecord res = Some row \<and> last_event (ls_trace t) = Some (EvSaved row) \<and>
        jat row ''outcome'' \<in> JStr ` set (''interrupted'' # outcomes)))"

lemma ends_refl: "recorded s \<Longrightarrow> ends s [] outcomes (Inl e) s"
  by (simp add: ends_def)

lemma ends_evolves: "evolves s es t \<Longrightarrow> ends t fs outcomes r u \<Longrightarrow> ends s (es @ fs) outcomes r u"
  by (simp add: ends_def evolves_def)

lemma ends_error: "evolves s es t \<Longrightarrow> ends s es outcomes (Inl e) t"
  by (simp add: ends_def evolves_def)

lemma ends_weaken: "ends s es outcomes r t \<Longrightarrow> set outcomes \<subseteq> set outcomes' \<Longrightarrow> ends s es outcomes' r t"
  by (force simp: ends_def)

lemma ends_from [simp]:
  "ends (s\<lparr>ls_row := r'\<rparr>) es outcomes r t = ends s es outcomes r t"
  "ends (s\<lparr>ls_tick := n\<rparr>) es outcomes r t = ends s es outcomes r t"
  by (simp_all add: ends_def)

lemma terminal_row_outcome [simp]:
  "jat (terminal_row outcome reason r) ''outcome'' = JStr outcome"
  by (simp add: terminal_row_def)

lemma finish_wp:
  assumes "recorded s"
  shows "wp (finish w m outcome reason) (ends s [] [outcome]) s"
proof -
  have body: "wp (bindS (update_row (terminal_row out why)) (\<lambda>_. tryS (save w m) (\<lambda>_. bindS (getS ls_row) (\<lambda>row.
         retS (Inr \<lparr>lresPlan = None, lresRecord = Some row, lresExitCode = code\<rparr>))))) (ends s [] [out]) t"
    if "recorded t" "core (ls_trace t) = core (ls_trace s)" for t :: loop_state and out why code
  proof -
    define u where "u = t\<lparr>ls_row := terminal_row out why (ls_row t)\<rparr>"
    have u: "recorded u" "core (ls_trace u) = core (ls_trace s)" "jat (ls_row u) ''outcome'' = JStr out"
      using that by (simp_all add: u_def)
    have "wp (tryS (save w m) (\<lambda>_. bindS (getS ls_row) (\<lambda>row.
         retS (Inr \<lparr>lresPlan = None, lresRecord = Some row, lresExitCode = code\<rparr>)))) (ends s [] [out]) u"
      unfolding wp_tryS
    proof (rule wp_mono [OF save_wp [OF u(1)]], elim conjE exE)
      fix r :: "loop_error + unit" and v t'
      assume e: "evolves u [] t'" and v: "ls_row t' = jset ''elapsed_seconds'' v (ls_row u)"
        and ok: "\<forall>u. r = Inr u \<longrightarrow> \<not> tFailed (ls_tx t') \<and> last_event (ls_trace t') = Some (EvSaved (ls_row t'))"
      have "core (ls_trace t') = core (ls_trace s)" "recorded t'" using e u by (simp_all add: evolves_def)
      moreover have "jat (ls_row t') ''outcome'' = JStr out" using v u(3) by simp
      ultimately show "case r of Inl e \<Rightarrow> ends s [] [out] (Inl e) t'
        | Inr x \<Rightarrow> wp (bindS (getS ls_row) (\<lambda>row.
            retS (Inr \<lparr>lresPlan = None, lresRecord = Some row, lresExitCode = code\<rparr>))) (ends s [] [out]) t'"
        using ok by (cases r) (simp_all add: wp_simps ends_def)
    qed
    then show ?thesis unfolding wp_bindS wp_update_row u_def .
  qed
  show ?thesis
  proof (cases "tFailed (ls_tx s)")
    case True
    with assms show ?thesis by (simp add: finish_def wp_simps ends_refl)
  next
    case False
    have rt: "recorded (s\<lparr>ls_tick := Suc (ls_tick s)\<rparr>)" using assms by simp
    have refl': "core (ls_trace (s\<lparr>ls_tick := Suc (ls_tick s)\<rparr>)) = core (ls_trace s)" by simp
    show ?thesis
    proof (cases "lw_interrupted w (ls_tick s)")
      case True
      have "wp (finish w m outcome reason) (ends s [] [''interrupted'']) s"
        using False True body [OF rt refl'] by (simp add: finish_def wp_getS wp_bindS wp_ask Let_def)
      then show ?thesis by (rule wp_mono) (auto simp: ends_def)
    next
      case nf: False
      with False body [OF rt refl'] show ?thesis by (simp add: finish_def wp_getS wp_bindS wp_ask Let_def)
    qed
  qed
qed

lemma finish_from:
  assumes "evolves s es t"
  shows "wp (finish w m outcome reason) (ends s es [outcome]) t"
  by (rule wp_mono [OF finish_wp [OF evolves_recorded [OF assms]]])
     (use ends_evolves [OF assms, of "[]"] in simp)

section \<open>The check stage\<close>

definition quiet :: "loop_event list \<Rightarrow> bool" where
  "quiet es \<longleftrightarrow> list_all (\<lambda>e. case e of EvInvoke _ _ _ \<Rightarrow> False | _ \<Rightarrow> True) es"

lemma quiet_simps [simp]:
  "quiet []"
  "quiet (es @ fs) \<longleftrightarrow> quiet es \<and> quiet fs"
  "quiet (EvFresh f # es) = quiet es"
  "quiet (EvLaunch c # es) = quiet es"
  "quiet (EvCheck x # es) = quiet es"
  "\<not> quiet (EvInvoke role p a # es)"
  by (simp_all add: quiet_def)

definition check_events :: "invocation \<Rightarrow> Fingerprint \<Rightarrow> Execution \<Rightarrow> loop_event list" where
  "check_events m f x = [EvFresh f, EvLaunch (lCheckCommand (m_config m)), EvCheck x, EvFresh f]"

definition stopped :: "loop_state \<Rightarrow> string list \<Rightarrow> loop_error + LoopResult \<Rightarrow> loop_state \<Rightarrow> bool" where
  "stopped s outcomes r t \<longleftrightarrow> (\<exists>es. quiet es \<and> ends s es outcomes r t)"

definition check_done :: "invocation \<Rightarrow> loop_state \<Rightarrow> checkResult \<Rightarrow> loop_state \<Rightarrow> bool" where
  "check_done m s c t \<longleftrightarrow> (\<exists>f x. evolves s (check_events m f x) t \<and> \<not> tFailed (ls_tx t) \<and>
     jat (ls_row t) ''snapshot'' = snapshotValue f \<and> same_baseline (ls_row s) f \<and> certain_exit x \<and>
     (crPassed c \<longleftrightarrow> xExitCode x = Some 0))"

definition check_post :: "invocation \<Rightarrow> loop_state \<Rightarrow> loop_error + checkResult \<Rightarrow> loop_state \<Rightarrow> bool" where
  "check_post m s r t \<longleftrightarrow> (case r of
       Inl e \<Rightarrow> stopped s [''handoff''] (Inl e) t
     | Inr c \<Rightarrow> (case crTerminal c of
           Some res \<Rightarrow> stopped s [''handoff''] (Inr res) t
         | None \<Rightarrow> check_done m s c t))"

lemma stopCheck_from:
  assumes "evolves s es t" and "quiet es" and "outcome = ''handoff'' \<or> outcome = ''interrupted''"
  shows "wp (stopCheck w m outcome reason) (check_post m s) t"
  unfolding stopCheck_def wp_tryS
proof (rule wp_mono [OF finish_from [OF assms(1)]])
  fix r u
  assume "ends s es [outcome] r u"
  then have "ends s es [''handoff''] r u" using assms(3) by (auto simp: ends_def)
  with assms(2) have "stopped s [''handoff''] r u" by (auto simp: stopped_def)
  then show "case r of Inl e \<Rightarrow> check_post m s (Inl e) u
    | Inr result \<Rightarrow> wp (retS (Inr \<lparr>crPassed = False, crRaw = [], crIdentity = [], crTerminal = Some result\<rparr>))
        (check_post m s) u"
    by (cases r) (simp_all add: check_post_def wp_retS)
qed

lemma error_from: "evolves s es t \<Longrightarrow> quiet es \<Longrightarrow> check_post m s (Inl e) t"
  by (auto simp: check_post_def stopped_def intro: ends_error)

lemma check_verdict_wp:
  assumes e: "evolves s (check_events m f x) t" and "\<not> tFailed (ls_tx t)"
    and "jat (ls_row t) ''snapshot'' = snapshotValue f" and "same_baseline (ls_row s) f"
  shows "wp (check_verdict w m f x) (check_post m s) t"
proof -
  have q: "quiet (check_events m f x)" by (simp add: check_events_def)
  show ?thesis
  proof (cases "certain_exit x \<and> (xOutcome x = ''completed'' \<or> xOutcome x = ''failed'')")
    case False
    with stopCheck_from [OF e q, of "''handoff''" w m] show ?thesis
      by (auto simp: check_verdict_def)
  next
    case True
    show ?thesis
    proof (cases "digest (lw_sha256 w) (JArr [JStr (fpSource f), exit_value x, JStr (lw_sha256 w (xStdout x))])")
      case (Inl err)
      with True error_from [OF e q] show ?thesis by (auto simp: check_verdict_def wp_retS)
    next
      case (Inr ident)
      with True assms show ?thesis
        by (auto simp: check_verdict_def wp_retS check_post_def check_done_def)
    qed
  qed
qed

lemma append_field_stable [simp]:
  "k \<notin> set stable_fields \<Longrightarrow> same_fields stable_fields r (append_field k v r)"
  by (simp add: append_field_def)

lemma same_baseline_cong: "jat r ''baseline'' = jat r' ''baseline'' \<Longrightarrow> same_baseline r f = same_baseline r' f"
  by (simp add: same_baseline_def)

lemma check_record_wp:
  assumes e: "evolves s [EvFresh f, EvLaunch (lCheckCommand (m_config m)), EvCheck x] t"
    and "\<not> tFailed (ls_tx t)" and "same_baseline (ls_row s) f"
  shows "wp (check_record w m f x) (check_post m s) t"
proof -
  let ?es = "[EvFresh f, EvLaunch (lCheckCommand (m_config m)), EvCheck x]"
  have q: "quiet ?es" by simp
  define u where "u = t\<lparr>ls_row := append_field ''evidence'' (check_evidence m f x) (ls_row t), ls_tick := Suc (ls_tick t)\<rparr>"
  have u: "evolves s ?es u" unfolding u_def evolves_tick using e by (rule evolves_row) simp
  have stop: "wp (stopCheck w m out why) (check_post m s) v"
    if "evolves s es v" "quiet es" "out = ''handoff'' \<or> out = ''interrupted''" for v es out why
    using that by (rule stopCheck_from)
  have saved: "wp (tryS (save w m) (\<lambda>_. bindS (fresh w m (Some f)) (\<lambda>r. case r of
         Inl _ \<Rightarrow> stopCheck w m ''handoff'' changed_text
       | Inr _ \<Rightarrow> check_verdict w m f x))) (check_post m s) u"
    unfolding wp_tryS
  proof (rule wp_mono [OF save_wp [OF evolves_recorded [OF u]]], elim conjE exE)
    fix r :: "loop_error + unit" and v t1
    assume "evolves u [] t1" and ok: "\<forall>u. r = Inr u \<longrightarrow> \<not> tFailed (ls_tx t1) \<and> last_event (ls_trace t1) = Some (EvSaved (ls_row t1))"
    from evolves_trans [OF u this(1)] have e1: "evolves s ?es t1" by simp
    show "case r of Inl e \<Rightarrow> check_post m s (Inl e) t1
      | Inr x' \<Rightarrow> wp (bindS (fresh w m (Some f)) (\<lambda>r. case r of
         Inl _ \<Rightarrow> stopCheck w m ''handoff'' changed_text
       | Inr _ \<Rightarrow> check_verdict w m f x)) (check_post m s) t1"
    proof (cases r)
      case (Inl err)
      with error_from [OF e1 q] show ?thesis by simp
    next
      case (Inr i)
      with ok have nf: "\<not> tFailed (ls_tx t1)" by blast
      have "wp (bindS (fresh w m (Some f)) (\<lambda>r. case r of
         Inl _ \<Rightarrow> stopCheck w m ''handoff'' changed_text
       | Inr _ \<Rightarrow> check_verdict w m f x)) (check_post m s) t1"
        unfolding wp_bindS
      proof (rule wp_mono [OF fresh_wp [OF evolves_recorded [OF e1] nf]])
        fix r' t2
        assume fr: "freshened t1 (Some f) r' t2"
        show "wp (case r' of Inl _ \<Rightarrow> stopCheck w m ''handoff'' changed_text
            | Inr _ \<Rightarrow> check_verdict w m f x) (check_post m s) t2"
        proof (cases r')
          case (Inl err)
          with fr have "evolves t1 [] t2" by (simp add: freshened_def)
          from evolves_trans [OF e1 this] have "evolves s ?es t2" by simp
          with stop [OF this q] Inl show ?thesis by simp
        next
          case (Inr g)
          with fr have g: "evolves t1 [EvFresh f] t2" "\<not> tFailed (ls_tx t2)"
              "jat (ls_row t2) ''snapshot'' = snapshotValue f"
            by (auto simp: freshened_def)
          from evolves_trans [OF e1 g(1)] have "evolves s (check_events m f x) t2"
            by (simp add: check_events_def)
          from check_verdict_wp [OF this g(2,3) assms(3)] Inr show ?thesis by simp
        qed
      qed
      with Inr show ?thesis by simp
    qed
  qed
  have u2: "evolves s ?es (u\<lparr>ls_tick := n\<rparr>)" for n using u by simp
  show ?thesis
    unfolding check_record_def wp_bindS wp_update_row wp_ask
    using saved stop [OF u q] stop [OF u2 q] by (simp add: u_def wp_bindS wp_ask)
qed

end
