(* ===== verification/Loop_Stages.thy ===== *)
theory Loop_Stages
  imports Loop_Trace
begin

text \<open>
  The triples of the remaining stages of the loop controller: launching the check, invoking a
  model, one iteration of the bounded loop and the loop itself.
\<close>

section \<open>Launching the check\<close>

lemma settle_process_stable [simp]: "same_fields stable_fields r (settle_process x r)"
  by (simp add: settle_process_def Let_def)

lemma spawned_wp:
  assumes "recorded s"
  shows "wp (spawned w m spawn) (\<lambda>r t. evolves s [] t) s"
proof (cases spawn)
  case None
  with assms show ?thesis by (simp add: spawned_def wp_retS evolves_refl)
next
  case (Some pid)
  show ?thesis
  proof (cases "pid \<le> 0")
    case True
    with Some assms show ?thesis by (simp add: spawned_def wp_retS evolves_refl)
  next
    case False
    define u where "u = s\<lparr>ls_row := jset ''process_pid'' (int_value pid) (ls_row s)\<rparr>"
    have "recorded u" using assms by (simp add: u_def)
    from save_wp [OF this] have "wp (save w m) (\<lambda>r t. evolves s [] t) u"
      by (rule wp_mono) (simp add: u_def)
    with Some False show ?thesis by (simp add: spawned_def wp_bindS wp_put_field u_def)
  qed
qed

lemma check_execute_wp:
  assumes e: "evolves s [EvFresh f] t" and nf: "\<not> tFailed (ls_tx t)" and b: "same_baseline (ls_row s) f"
    and last: "last_event (ls_trace t) = Some (EvSaved r0)" "jat r0 ''phase'' = JStr ''check''"
      "jat r0 ''status'' = JStr ''active''"
  shows "wp (check_execute w m f) (check_post m s) t"
proof -
  let ?cmd = "lCheckCommand (m_config m)"
  define t1 where "t1 = t\<lparr>ls_trace := ls_trace t @ [EvLaunch ?cmd], ls_tick := Suc (ls_tick t)\<rparr>"
  have e1: "evolves s [EvFresh f, EvLaunch ?cmd] t1"
    using evolves_emit [OF e nf, of "EvLaunch ?cmd"] last by (simp add: t1_def)
  define a where "a = lw_execute w (ls_tick t)"
  let ?rest = "\<lambda>published. bindS (getS (\<lambda>s. tFailed (ls_tx s))) (\<lambda>failed.
     if failed then retS (Inl ManualRefused)
     else (case caResult a (published = Inr ()) of (x, error) \<Rightarrow>
       bindS (emit (EvCheck x)) (\<lambda>_. bindS (update_row (settle_process x)) (\<lambda>_.
       if error \<or> xProcessPID x \<le> 0
       then stopCheck w m ''handoff'' ''Cannot confirm deterministic check execution; inspect owned processes''
       else check_record w m f x))))"
  have rest: "wp (?rest published) (check_post m s) t2" if "evolves t1 [] t2" for published t2
  proof -
    from evolves_trans [OF e1 that] have e2: "evolves s [EvFresh f, EvLaunch ?cmd] t2" by simp
    show ?thesis
    proof (cases "tFailed (ls_tx t2)")
      case True
      with error_from [OF e2] show ?thesis by (simp add: wp_bindS wp_getS wp_retS)
    next
      case False
      obtain x err where x: "caResult a (published = Inr ()) = (x, err)" by force
      define t3 where "t3 = t2\<lparr>ls_trace := ls_trace t2 @ [EvCheck x], ls_row := settle_process x (ls_row t2)\<rparr>"
      have "last_event (ls_trace t2) \<noteq> Some EvSaveFailed"
        using False evolves_recorded [OF e2] by (simp add: recorded_def)
      with evolves_emit [OF e2 False, of "EvCheck x"]
      have "evolves s [EvFresh f, EvLaunch ?cmd, EvCheck x] (t2\<lparr>ls_trace := ls_trace t2 @ [EvCheck x]\<rparr>)" by simp
      then have e3: "evolves s [EvFresh f, EvLaunch ?cmd, EvCheck x] t3"
        unfolding t3_def by (rule evolves_row) simp
      have nf3: "\<not> tFailed (ls_tx t3)" using False by (simp add: t3_def)
      note rec = check_record_wp [OF e3 nf3 b, of w]
      have stop: "wp (stopCheck w m ''handoff'' why) (check_post m s) t3" for why
        by (rule stopCheck_from [OF e3]) simp_all
      show ?thesis
        using False x rec stop
        by (simp add: wp_bindS wp_getS wp_emit wp_update_row wp_if t3_def)
    qed
  qed
  have "recorded t1" using e1 by (rule evolves_recorded)
  from spawned_wp [OF this] have "wp (spawned w m (caSpawn a)) (\<lambda>r. wp (?rest r) (check_post m s)) t1"
    by (rule wp_mono) (rule rest)
  then show ?thesis
    unfolding check_execute_def wp_bindS wp_emit wp_ask
    by (simp add: t1_def a_def wp_bindS cong: if_cong)
qed

lemma check_launch_wp:
  assumes e: "evolves s [EvFresh f] t" and l: "live s" and nf: "\<not> tFailed (ls_tx t)" and b: "same_baseline (ls_row s) f"
  shows "wp (check_launch w m f) (check_post m s) t"
proof -
  have al: "wp (allowance w m) Q v \<longleftrightarrow> Q (duration (f64_min (lCheckTimeoutSeconds (m_config m))
      (f64_sub (lTimeoutSeconds (m_config m)) (f64_add (m_consumed m) (lw_elapsed w (ls_tick v))))))
      (v\<lparr>ls_tick := Suc (ls_tick v)\<rparr>)" for Q and v :: loop_state
    by (simp add: allowance_def wp_simps)
  have stop: "wp (stopCheck w m ''handoff'' why) (check_post m s) v" if "evolves s [EvFresh f] v" for v why
    by (rule stopCheck_from [OF that]) simp_all
  define u where "u = t\<lparr>ls_tick := Suc (ls_tick t), ls_row := jset ''phase'' (JStr ''check'') (ls_row t)\<rparr>"
  let ?rest = "\<lambda>r :: loop_error + unit. case r of
         Inl e \<Rightarrow> bindS (ask (lw_expired w)) (\<lambda>late. bindS (getS (\<lambda>s. tFailed (ls_tx s))) (\<lambda>failed.
           if late \<and> \<not> failed then stopCheck w m ''handoff'' time_limit_text else retS (Inl e)))
       | Inr _ \<Rightarrow> bindS (allowance w m) (\<lambda>remaining. bindS (ask (lw_expired w)) (\<lambda>late.
           if late \<or> remaining \<le> 0 then stopCheck w m ''handoff'' time_limit_text
           else check_execute w m f))"
  have ru: "recorded u" and eu: "evolves s [EvFresh f] u"
    using e by (auto simp: u_def evolves_def)
  have sv: "wp (save w m) (\<lambda>r. wp (?rest r) (check_post m s)) u"
  proof (rule wp_mono [OF save_wp [OF ru]], elim conjE exE)
    fix r :: "loop_error + unit" and v t1
    assume e1: "evolves u [] t1" and v: "ls_row t1 = jset ''elapsed_seconds'' v (ls_row u)"
      and ok: "\<forall>u. r = Inr u \<longrightarrow> \<not> tFailed (ls_tx t1) \<and> last_event (ls_trace t1) = Some (EvSaved (ls_row t1))"
    from evolves_trans [OF eu e1] have e2: "evolves s [EvFresh f] t1" by simp
    show "wp (?rest r) (check_post m s) t1"
    proof (cases r)
      case (Inl err)
      have "check_post m s (Inl err) t1" by (rule error_from [OF e2]) simp
      then have ce: "check_post m s (Inl err) (t1\<lparr>ls_tick := n\<rparr>)" for n
        by (simp add: check_post_def stopped_def ends_def)
      have st: "wp (stopCheck w m ''handoff'' time_limit_text) (check_post m s) (t1\<lparr>ls_tick := n\<rparr>)" for n
        by (rule stop) (use e2 in simp)
      from Inl ce st show ?thesis
        by (simp add: wp_bindS wp_ask wp_getS wp_if wp_retS)
    next
      case (Inr i)
      with ok have nf1: "\<not> tFailed (ls_tx t1)" and la: "last_event (ls_trace t1) = Some (EvSaved (ls_row t1))" by blast+
      have ph: "jat (ls_row t1) ''phase'' = JStr ''check''" using v by (simp add: u_def)
      have st: "jat (ls_row t1) ''status'' = JStr ''active''"
        using evolves_status [OF e2] l by (simp add: live_def)
      have ex: "wp (check_execute w m f) (check_post m s) (t1\<lparr>ls_tick := n\<rparr>)" for n
        by (rule check_execute_wp [OF _ _ b _ ph st]) (use e2 nf1 la in simp_all)
      have sp: "wp (stopCheck w m ''handoff'' time_limit_text) (check_post m s) (t1\<lparr>ls_tick := n\<rparr>)" for n
        by (rule stop) (use e2 in simp)
      from Inr ex sp show ?thesis by (simp add: wp_bindS al wp_ask wp_if)
    qed
  qed
  have "evolves s [EvFresh f] (t\<lparr>ls_tick := Suc (ls_tick t)\<rparr>)" using e by simp
  from stop [OF this] sv show ?thesis
    unfolding check_launch_def wp_bindS al by (simp add: wp_bindS wp_put_field u_def)
qed

lemma checkStage_wp:
  assumes l: "live s"
  shows "wp (checkStage w m) (check_post m s) s"
proof -
  have r: "recorded s" and nf: "\<not> tFailed (ls_tx s)" using l by (simp_all add: live_def)
  define t where "t = s\<lparr>ls_tick := Suc (Suc (ls_tick s))\<rparr>"
  have et: "evolves s [] t" using evolves_refl [OF r] by (simp add: t_def)
  have stop: "wp (stopCheck w m ''handoff'' why) (check_post m s) t" for why
    by (rule stopCheck_from [OF et]) simp_all
  have unc: "wp (stopCheck w m ''handoff'' why) (check_post m s) (t\<lparr>ls_row := jset ''uncertain'' v (ls_row t)\<rparr>)" for why v
    by (rule stopCheck_from [OF evolves_row [OF et]]) simp_all
  have fr: "wp (bindS (fresh w m None) (\<lambda>r. case r of
               Inl _ \<Rightarrow> stopCheck w m ''handoff'' changed_text
             | Inr before \<Rightarrow> check_launch w m before)) (check_post m s) t"
    unfolding wp_bindS
  proof (rule wp_mono [OF fresh_wp])
    show "recorded t" "\<not> tFailed (ls_tx t)" using r nf by (simp_all add: t_def)
    fix r t2
    assume f: "freshened t None r t2"
    show "wp (case r of Inl _ \<Rightarrow> stopCheck w m ''handoff'' changed_text | Inr before \<Rightarrow> check_launch w m before) (check_post m s) t2"
    proof (cases r)
      case (Inl e)
      with f have "evolves t [] t2" by (simp add: freshened_def)
      from evolves_trans [OF et this] have e2: "evolves s [] t2" by simp
      have "wp (stopCheck w m ''handoff'' changed_text) (check_post m s) t2"
        by (rule stopCheck_from [OF e2]) simp_all
      with Inl show ?thesis by simp
    next
      case (Inr g)
      with f have "evolves t [EvFresh g] t2" and n2: "\<not> tFailed (ls_tx t2)" and "same_baseline (ls_row t) g"
        by (auto simp: freshened_def)
      moreover from evolves_trans [OF et this(1)] have "evolves s [EvFresh g] t2" by simp
      ultimately show ?thesis using check_launch_wp [OF _ l n2] Inr by (simp add: t_def)
    qed
  qed
  show ?thesis
  proof (cases "lw_expired w (Suc (ls_tick s))")
    case True
    with stop show ?thesis by (simp add: checkStage_def wp_bindS wp_ask t_def)
  next
    case False
    with unc fr show ?thesis
      by (simp add: checkStage_def wp_bindS wp_ask wp_if wp_put_field t_def split: option.split)
  qed
qed

section \<open>Model invocations\<close>

definition invocations :: "string \<Rightarrow> loop_event list \<Rightarrow> nat" where
  "invocations role es = length (filter (\<lambda>e. case e of EvInvoke r _ _ \<Rightarrow> r = role | _ \<Rightarrow> False) es)"

lemma invocations_simps [simp]:
  "invocations role [] = 0"
  "invocations role (es @ fs) = invocations role es + invocations role fs"
  "invocations role (EvFresh f # es) = invocations role es"
  "invocations role (EvLaunch c # es) = invocations role es"
  "invocations role (EvCheck x # es) = invocations role es"
  "invocations role (EvInvoke r p a # es) = (if r = role then Suc (invocations role es) else invocations role es)"
  by (simp_all add: invocations_def)

lemma invocations_quiet: "quiet es \<Longrightarrow> invocations role es = 0"
  by (induction es) (auto simp: quiet_def invocations_def split: loop_event.splits)

lemma invocations_check [simp]: "invocations role (check_events m f x) = 0"
  by (simp add: check_events_def)

definition invoked :: "string \<Rightarrow> string \<Rightarrow> loop_state \<Rightarrow> loop_error + string \<Rightarrow> loop_state \<Rightarrow> bool" where
  "invoked role prompt s r t \<longleftrightarrow> (case r of
       Inl _ \<Rightarrow> evolves s [] t \<or> (\<exists>a. evolves s [EvInvoke role prompt a] t)
     | Inr response \<Rightarrow> \<not> tFailed (ls_tx t) \<and> (\<exists>a. evolves s [EvInvoke role prompt a] t \<and> iaError a = NoError \<and>
         iaExitCode a = 0 \<and> response = iaResponse a))"

lemma addBudgetRun_stable [simp]: "same_fields stable_fields r (fst (addBudgetRun ident r))"
  by (simp add: addBudgetRun_def)

lemma same_fields_append [simp]:
  "k \<notin> set stable_fields \<Longrightarrow> same_fields stable_fields r (append_field k v r') = same_fields stable_fields r r'"
  by (simp add: append_field_def)

lemma observe_row_stable: "same_fields stable_fields r (observe_row m role i r)"
  by (cases "iProcessPID i") (auto simp: observe_row_def addBudgetRun_def Let_def)

lemma reconcile_start_stable [simp]: "same_fields stable_fields r (reconcile_start cause r)"
  by (auto simp: reconcile_start_def Let_def split: option.split)

lemma reconcile_row_stable: "same_fields stable_fields r (reconcile_row cause i r)"
  by (auto simp: reconcile_row_def addBudgetRun_def Let_def split: option.split)

lemma reconcile_rows_stable: "same_fields stable_fields r (fold (reconcile_row cause) is r)"
proof (induction "is" arbitrary: r)
  case (Cons i "is")
  from same_fields_trans [OF reconcile_row_stable Cons.IH] show ?case by simp
qed simp

lemma reconcile_wp:
  assumes "evolves s es t"
  shows "wp (reconcile w m cause) (\<lambda>_ u. evolves s es u) t"
proof -
  define t1 where "t1 = t\<lparr>ls_row := reconcile_start cause (ls_row t), ls_tick := Suc (ls_tick t)\<rparr>"
  have e1: "evolves s es t1"
    unfolding t1_def evolves_tick using assms by (rule evolves_row) simp
  have row: "evolves s es (t1\<lparr>ls_row := r\<rparr>)" if "same_fields stable_fields (ls_row t1) r" for r
    using evolves_row [OF e1 that] .
  show ?thesis
  proof (cases "lw_budget w (ls_tick t)")
    case None
    with row show ?thesis by (simp add: reconcile_def wp_bindS wp_update_row wp_ask wp_put_field t1_def)
  next
    case (Some h)
    show ?thesis
    proof (cases "MatchingActive h (lrSession (m_request m)) (lrTask (m_request m))")
      case (Inl e)
      with Some row show ?thesis by (simp add: reconcile_def wp_bindS wp_update_row wp_ask wp_put_field t1_def)
    next
      case (Inr runs)
      with Some row [OF reconcile_rows_stable] show ?thesis
        by (simp add: reconcile_def wp_bindS wp_update_row wp_ask t1_def)
    qed
  qed
qed

lemma observe_answer_stable:
  "observe_answer m role a = (error, f) \<Longrightarrow> same_fields stable_fields r (f r)"
  by (auto simp: observe_answer_def observe_row_stable split: option.splits sum.splits if_splits)

lemma observe_answer_NoError: "observe_answer m role a = (NoError, f) \<Longrightarrow> iaError a = NoError"
  by (auto simp: observe_answer_def split: option.splits sum.splits if_splits)

lemma invoke_tail_wp:
  assumes e: "evolves s [EvInvoke role prompt a] t" and nf: "\<not> tFailed (ls_tx t)"
  shows "wp (invoke_tail w m role a) (invoked role prompt s) t"
proof -
  obtain err f where f: "observe_answer m role a = (err, f)" by force
  define t1 where "t1 = t\<lparr>ls_row := f (ls_row t)\<rparr>"
  have e1: "evolves s [EvInvoke role prompt a] t1"
    unfolding t1_def using e observe_answer_stable [OF f] by (rule evolves_row)
  have fail: "invoked role prompt s (Inl x) u" if "evolves s [EvInvoke role prompt a] u" for x u
    using that by (auto simp: invoked_def)
  consider "err \<noteq> NoError" | "err = NoError" "iaRecord a = None" | "err = NoError" "iaRecord a \<noteq> None" by blast
  then show ?thesis
  proof cases
    case 1
    have "wp (bindS (reconcile w m err) (\<lambda>_. retS (Inl ManualRefused))) (invoked role prompt s) t1"
      unfolding wp_bindS wp_retS by (rule wp_mono [OF reconcile_wp [OF e1]]) (rule fail)
    with 1 f show ?thesis by (simp add: invoke_tail_def wp_bindS wp_update_row t1_def)
  next
    case 2
    with f fail [OF e1] show ?thesis by (simp add: invoke_tail_def wp_bindS wp_update_row wp_retS t1_def)
  next
    case 3
    with f have ne: "iaError a = NoError" by (auto dest: observe_answer_NoError)
    have "wp (tryS (save w m) (\<lambda>_. bindS (ask (lw_expired w)) (\<lambda>late. bindS (getS ls_row) (\<lambda>row.
           if iaExitCode a \<noteq> 0 \<or> late \<or> jat row ''uncertain'' = JBool True
           then retS (Inl ManualRefused) else retS (Inr (iaResponse a)))))) (invoked role prompt s) t1"
      unfolding wp_tryS
    proof (rule wp_mono [OF save_wp [OF evolves_recorded [OF e1]]], elim conjE exE)
      fix r :: "loop_error + unit" and v t2
      assume "evolves t1 [] t2" and ok: "\<forall>u. r = Inr u \<longrightarrow> \<not> tFailed (ls_tx t2) \<and> last_event (ls_trace t2) = Some (EvSaved (ls_row t2))"
      from evolves_trans [OF e1 this(1)] have e2: "evolves s [EvInvoke role prompt a] t2" by simp
      have e3: "evolves s [EvInvoke role prompt a] (t2\<lparr>ls_tick := n\<rparr>)" for n using e2 by simp
      show "case r of Inl e \<Rightarrow> invoked role prompt s (Inl e) t2
        | Inr x \<Rightarrow> wp (bindS (ask (lw_expired w)) (\<lambda>late. bindS (getS ls_row) (\<lambda>row.
           if iaExitCode a \<noteq> 0 \<or> late \<or> jat row ''uncertain'' = JBool True
           then retS (Inl ManualRefused) else retS (Inr (iaResponse a))))) (invoked role prompt s) t2"
      proof (cases r)
        case (Inl err)
        with fail [OF e2] show ?thesis by simp
      next
        case (Inr i)
        with ok have nf2: "\<not> tFailed (ls_tx t2)" by blast
        have "iaExitCode a = 0 \<Longrightarrow> invoked role prompt s (Inr (iaResponse a)) (t2\<lparr>ls_tick := n\<rparr>)" for n
          using e3 [of n] nf2 ne by (auto simp: invoked_def)
        with Inr fail [OF e3] show ?thesis by (simp add: wp_simps)
      qed
    qed
    moreover from 3 obtain rr where "iaRecord a = Some rr" by auto
    ultimately show ?thesis using 3 f by (simp add: invoke_tail_def wp_bindS wp_update_row t1_def)
  qed
qed

lemma invoke_wp:
  assumes l: "live s"
  shows "wp (invoke w m role prompt) (invoked role prompt s) s"
proof -
  have r: "recorded s" and st: "jat (ls_row s) ''status'' = JStr ''active''" using l by (simp_all add: live_def)
  define t where "t = s\<lparr>ls_tick := Suc (Suc (ls_tick s)), ls_row := jset ''phase'' (JStr role) (ls_row s)\<rparr>"
  have et: "evolves s [] t" and rt: "recorded t"
    using r by (simp_all add: t_def evolves_def)
  have ref: "invoked role prompt s (Inl ManualRefused) (s\<lparr>ls_tick := n\<rparr>)" for n
    using evolves_refl [OF r] by (simp add: invoked_def)
  have body: "wp (tryS (save w m) (\<lambda>_. bindS (ask (lw_invoke w)) (\<lambda>a. bindS (emit (EvInvoke role prompt a)) (\<lambda>_.
       invoke_tail w m role a)))) (invoked role prompt s) t"
    unfolding wp_tryS
  proof (rule wp_mono [OF save_wp [OF rt]], elim conjE exE)
    fix r :: "loop_error + unit" and v t1
    assume "evolves t [] t1" and v: "ls_row t1 = jset ''elapsed_seconds'' v (ls_row t)"
      and ok: "\<forall>u. r = Inr u \<longrightarrow> \<not> tFailed (ls_tx t1) \<and> last_event (ls_trace t1) = Some (EvSaved (ls_row t1))"
    from evolves_trans [OF et this(1)] have e1: "evolves s [] t1" by simp
    show "case r of Inl e \<Rightarrow> invoked role prompt s (Inl e) t1
      | Inr x \<Rightarrow> wp (bindS (ask (lw_invoke w)) (\<lambda>a. bindS (emit (EvInvoke role prompt a)) (\<lambda>_.
         invoke_tail w m role a))) (invoked role prompt s) t1"
    proof (cases r)
      case (Inl err)
      with e1 show ?thesis by (simp add: invoked_def)
    next
      case (Inr i)
      with ok have nf: "\<not> tFailed (ls_tx t1)" and la: "last_event (ls_trace t1) = Some (EvSaved (ls_row t1))" by blast+
      define a where "a = lw_invoke w (ls_tick t1)"
      define t2 where "t2 = t1\<lparr>ls_tick := Suc (ls_tick t1), ls_trace := ls_trace t1 @ [EvInvoke role prompt a]\<rparr>"
      have "jat (ls_row t1) ''phase'' = JStr role" using v by (simp add: t_def)
      moreover have "jat (ls_row t1) ''status'' = JStr ''active''" using evolves_status [OF e1] st by simp
      ultimately have "evolves s [EvInvoke role prompt a] t2"
        using e1 nf la by (simp add: t2_def evolves_def recorded_def)
      moreover have "\<not> tFailed (ls_tx t2)" using nf by (simp add: t2_def)
      ultimately have "wp (invoke_tail w m role a) (invoked role prompt s) t2" by (rule invoke_tail_wp)
      with Inr show ?thesis by (simp add: wp_bindS wp_ask wp_emit t2_def a_def)
    qed
  qed
  show ?thesis
    unfolding invoke_def wp_bindS wp_ask wp_elapsed
    using body ref by (simp add: wp_if wp_retS wp_bindS wp_put_field t_def)
qed

section \<open>Review and acceptance\<close>

lemma fingerprint_snapshotValue [simp]: "fingerprint (snapshotValue f) = Some f"
  by (simp add: fingerprint_def snapshotValue_def)

lemma fingerprint_read_snapshotValue [simp]: "fingerprint_read (snapshotValue f) = f"
  by (simp add: fingerprint_read_def)

lemma parseVerdict_findings: "parseVerdict response = Inr v \<Longrightarrow> rvVerdict v = ''approve'' \<longleftrightarrow> rvFindings v = []"
  by (auto simp: parseVerdict_def split: sum.splits jval.splits prod.splits bool.splits if_splits)

definition review_events :: "invocation \<Rightarrow> Fingerprint \<Rightarrow> Execution \<Rightarrow> string \<Rightarrow> invoke_answer \<Rightarrow> loop_event list" where
  "review_events m f x prompt a = check_events m f x @ [EvInvoke ''reviewer'' prompt a, EvFresh f]"

text \<open>The evidence behind an approval: the last core events are a passing check of one snapshot, the
  reviewer's approval without findings, and the same snapshot again; head and safety digests are those
  of the baseline.\<close>

definition approved_by :: "invocation \<Rightarrow> loop_event list \<Rightarrow> row \<Rightarrow> bool" where
  "approved_by m es r \<longleftrightarrow> (\<exists>pre f x prompt a. es = pre @ review_events m f x prompt a \<and>
     certain_exit x \<and> xExitCode x = Some 0 \<and> iaError a = NoError \<and> iaExitCode a = 0 \<and>
     parseVerdict (iaResponse a) = Inr \<lparr>rvVerdict = ''approve'', rvFindings = []\<rparr> \<and> same_baseline r f)"

definition open_outcomes :: "string list" where
  "open_outcomes = [''handoff'', ''attempt_limit'', ''repeated_failure'', ''no_progress'']"

definition concluded :: "invocation \<Rightarrow> loop_state \<Rightarrow> loop_event list \<Rightarrow> loop_error + LoopResult \<Rightarrow> loop_state \<Rightarrow> bool" where
  "concluded m s es r t \<longleftrightarrow> ends s es open_outcomes r t \<or>
     ends s es [''approved''] r t \<and> approved_by m es (ls_row s)"

definition stepped :: "invocation \<Rightarrow> loop_state \<Rightarrow> nat \<Rightarrow> nat \<Rightarrow> loop_step \<Rightarrow> loop_state \<Rightarrow> bool" where
  "stepped m s i k step t \<longleftrightarrow> (\<exists>es. invocations ''implementer'' es \<le> i \<and> invocations ''reviewer'' es \<le> k \<and> (case step of
       Stop r \<Rightarrow> concluded m s es r t
     | Again _ _ \<Rightarrow> evolves s es t \<and> \<not> tFailed (ls_tx t)))"

lemma stop_with_wp:
  assumes "evolves s es t" and "outcome \<in> set open_outcomes"
    and "invocations ''implementer'' es \<le> i" and "invocations ''reviewer'' es \<le> k"
  shows "wp (stop_with (finish w m outcome reason)) (stepped m s i k) t"
  unfolding stop_with_def wp_bindS wp_retS
proof (rule wp_mono [OF finish_from [OF assms(1)]])
  fix r u
  assume "ends s es [outcome] r u"
  then have "ends s es open_outcomes r u" by (rule ends_weaken) (use assms(2) in simp)
  with assms(3,4) show "stepped m s i k (Stop r) u" by (auto simp: stepped_def concluded_def)
qed

lemma stop_invoke_wp:
  assumes "evolves s es t" and "invocations ''implementer'' es \<le> i" and "invocations ''reviewer'' es \<le> k"
  shows "wp (stop_invoke w m e role) (stepped m s i k) t"
proof (cases "tFailed (ls_tx t)")
  case True
  have "ends s es open_outcomes (Inl e) t" using assms(1) by (rule ends_error)
  with assms(2,3) True show ?thesis
    by (auto simp: stop_invoke_def wp_bindS wp_getS wp_retS stepped_def concluded_def)
next
  case False
  with stop_with_wp [OF assms(1) _ assms(2,3), of "''handoff''"] show ?thesis
    by (simp add: stop_invoke_def wp_bindS wp_getS open_outcomes_def)
qed

lemma review_accept_wp:
  assumes e: "evolves s es t" and "invocations ''implementer'' es \<le> i" and "invocations ''reviewer'' es \<le> k"
    and app: "rvVerdict v = ''approve'' \<Longrightarrow> approved_by m es (ls_row s)"
  shows "wp (review_accept w m failures v) (stepped m s i k) t"
  unfolding review_accept_def wp_bindS
proof (rule wp_mono [OF save_wp [OF evolves_recorded [OF e]]], elim conjE exE)
  fix r :: "loop_error + unit" and val t1
  assume "evolves t [] t1" and ok: "\<forall>u. r = Inr u \<longrightarrow> \<not> tFailed (ls_tx t1) \<and> last_event (ls_trace t1) = Some (EvSaved (ls_row t1))"
  from evolves_trans [OF e this(1)] have e1: "evolves s es t1" by simp
  define t2 where "t2 = t1\<lparr>ls_tick := Suc (Suc (ls_tick t1))\<rparr>"
  have e2: "evolves s es t2" using e1 by (simp add: t2_def)
  have stop: "wp (stop_with (finish w m ''handoff'' why)) (stepped m s i k) t2" for why
    by (rule stop_with_wp [OF e2 _ assms(2,3)]) (simp add: open_outcomes_def)
  have app_stop: "wp (stop_with (finish w m ''approved'' why)) (stepped m s i k) t2" if "rvVerdict v = ''approve''" for why
    unfolding stop_with_def wp_bindS wp_retS
    by (rule wp_mono [OF finish_from [OF e2]])
      (use app [OF that] assms(2,3) in \<open>auto simp: stepped_def concluded_def\<close>)
  show "wp (case r of Inl e \<Rightarrow> retS (Stop (Inl e)) | Inr _ \<Rightarrow>
     bindS (ask (lw_expired w)) (\<lambda>late. bindS (elapsed w m) (\<lambda>t.
     if late \<or> f64_le (lTimeoutSeconds (m_config m)) t
     then stop_with (finish w m ''handoff'' ''loop time limit reached before accepting review'')
     else if rvVerdict v = ''approve''
     then stop_with (finish w m ''approved''
       ''Implemented, deterministic checks passed and separate reviewer approved this snapshot.'')
     else (case encodeHistory (JArr (map JStr (rvFindings v))) of
         Inl _ \<Rightarrow> stop_with (finish w m ''handoff'' ''cannot encode reviewer repair findings'')
       | Inr encoded \<Rightarrow> retS (Again (repair_review_text encoded) failures))))) (stepped m s i k) t1"
  proof (cases r)
    case (Inl err)
    have "ends s es open_outcomes (Inl err) t1" using e1 by (rule ends_error)
    with Inl assms(2,3) show ?thesis by (auto simp: wp_retS stepped_def concluded_def)
  next
    case (Inr u)
    with ok have nf: "\<not> tFailed (ls_tx t2)" by (simp add: t2_def)
    have again: "stepped m s i k (Again rep fl) t2" for rep fl
      using e2 nf assms(2,3) by (auto simp: stepped_def)
    from Inr stop app_stop again show ?thesis
      by (simp add: wp_bindS wp_ask wp_elapsed wp_if t2_def wp_retS split: sum.split)
  qed
qed

lemma review_judge_wp:
  assumes e: "evolves s es t" and nf: "\<not> tFailed (ls_tx t)"
    and c: "invocations ''implementer'' es \<le> i" "invocations ''reviewer'' es \<le> k"
    and app: "\<And>v. parseVerdict response = Inr v \<Longrightarrow> rvVerdict v = ''approve'' \<Longrightarrow> approved_by m (es @ [EvFresh f]) (ls_row s)"
  shows "wp (review_judge w m failures f response) (stepped m s i k) t"
  unfolding review_judge_def wp_bindS
proof (rule wp_mono [OF fresh_wp [OF evolves_recorded [OF e] nf]])
  fix same u
  assume fr: "freshened t (Some f) same u"
  show "wp (case same of
       Inl _ \<Rightarrow> stop_with (finish w m ''handoff'' ''Source changed during verification or review; evidence is stale'')
     | Inr _ \<Rightarrow> (case parseVerdict response of
         Inl _ \<Rightarrow> stop_with (finish w m ''handoff'' ''reviewer verdict/findings contract is invalid'')
       | Inr v \<Rightarrow> bindS (update_row (append_field ''evidence'' (review_evidence m v f))) (\<lambda>_.
           review_accept w m failures v))) (stepped m s i k) u"
  proof (cases same)
    case (Inl err)
    with fr have "evolves t [] u" by (simp add: freshened_def)
    from evolves_trans [OF e this] have "evolves s es u" by simp
    from stop_with_wp [OF this _ c] Inl show ?thesis by (simp add: open_outcomes_def)
  next
    case (Inr g)
    with fr have "evolves t [EvFresh f] u" by (auto simp: freshened_def)
    from evolves_trans [OF e this] have e2: "evolves s (es @ [EvFresh f]) u" .
    have c2: "invocations ''implementer'' (es @ [EvFresh f]) \<le> i" "invocations ''reviewer'' (es @ [EvFresh f]) \<le> k"
      using c by simp_all
    show ?thesis
    proof (cases "parseVerdict response")
      case (Inl err)
      with Inr stop_with_wp [OF e2 _ c2] show ?thesis by (simp add: open_outcomes_def)
    next
      case v: (Inr v)
      have "evolves s (es @ [EvFresh f]) (u\<lparr>ls_row := append_field ''evidence'' (review_evidence m v f) (ls_row u)\<rparr>)"
        using e2 by (rule evolves_row) simp
      from review_accept_wp [OF this c2 app [OF v]] Inr v show ?thesis
        by (simp add: wp_bindS wp_update_row)
    qed
  qed
qed

lemma review_stage_wp:
  assumes e: "evolves s (pre @ check_events m f x) t" and l: "live t"
    and snap: "jat (ls_row t) ''snapshot'' = snapshotValue f" and b: "same_baseline (ls_row s) f"
    and x: "certain_exit x" "xExitCode x = Some 0"
    and i: "invocations ''implementer'' pre \<le> i" and k: "invocations ''reviewer'' pre < k"
  shows "wp (review_stage w m failures) (stepped m s i k) t"
proof -
  let ?p = "m_prompt m @ verdict_text"
  let ?es = "\<lambda>a. (pre @ check_events m f x) @ [EvInvoke ''reviewer'' ?p a]"
  have c: "invocations ''implementer'' (?es a) \<le> i" "invocations ''reviewer'' (?es a) \<le> k" for a
    using i k by simp_all
  have "wp (invoke w m ''reviewer'' ?p) (\<lambda>response. wp (case response of
       Inl e \<Rightarrow> stop_invoke w m e ''reviewer''
     | Inr response \<Rightarrow> review_judge w m failures f response) (stepped m s i k)) t"
  proof (rule wp_mono [OF invoke_wp [OF l]])
    fix response u
    assume inv: "invoked ''reviewer'' ?p t response u"
    show "wp (case response of
       Inl e \<Rightarrow> stop_invoke w m e ''reviewer''
     | Inr response \<Rightarrow> review_judge w m failures f response) (stepped m s i k) u"
    proof (cases response)
      case (Inl err)
      with inv consider "evolves t [] u" | a where "evolves t [EvInvoke ''reviewer'' ?p a] u"
        by (auto simp: invoked_def)
      then show ?thesis
      proof cases
        case 1
        from evolves_trans [OF e this] have "evolves s (pre @ check_events m f x) u" by simp
        from stop_invoke_wp [OF this, of i k] i k Inl show ?thesis by simp
      next
        case 2
        from stop_invoke_wp [OF evolves_trans [OF e 2] c] Inl show ?thesis by simp
      qed
    next
      case (Inr resp)
      with inv obtain a where nf: "\<not> tFailed (ls_tx u)" and ea: "evolves t [EvInvoke ''reviewer'' ?p a] u"
        and a: "iaError a = NoError" "iaExitCode a = 0" "resp = iaResponse a"
        by (auto simp: invoked_def)
      have "approved_by m (?es a @ [EvFresh f]) (ls_row s)"
        if v: "parseVerdict resp = Inr v" and "rvVerdict v = ''approve''" for v
      proof -
        from parseVerdict_findings [OF v] that have "v = \<lparr>rvVerdict = ''approve'', rvFindings = []\<rparr>" by simp
        with v a x b show ?thesis unfolding approved_by_def review_events_def by auto
      qed
      from review_judge_wp [OF evolves_trans [OF e ea] nf c this] Inr show ?thesis by simp
    qed
  qed
  moreover have eq: "fingerprint_read (jat (ls_row t) ''snapshot'') = f" by (simp add: snap)
  ultimately show ?thesis unfolding review_stage_def wp_bindS wp_getS eq by simp
qed

section \<open>One iteration\<close>

lemma stopped_concluded:
  assumes e: "evolves s es t" and st: "stopped t [''handoff''] r u"
    and c: "invocations ''implementer'' es \<le> i" "invocations ''reviewer'' es \<le> k"
  shows "stepped m s i k (Stop r) u"
proof -
  from st obtain fs where q: "quiet fs" and "ends t fs [''handoff''] r u" by (auto simp: stopped_def)
  from ends_weaken [OF ends_evolves [OF e this(2)], of open_outcomes]
  have "ends s (es @ fs) open_outcomes r u" by (simp add: open_outcomes_def)
  with c invocations_quiet [OF q] show ?thesis
    unfolding stepped_def by (intro exI [of _ "es @ fs"]) (simp add: concluded_def)
qed

lemma check_or_review_wp:
  assumes e: "evolves s es t" and l: "live t"
    and i: "invocations ''implementer'' es \<le> i" and k: "invocations ''reviewer'' es < k"
  shows "wp (check_or_review w m failures) (stepped m s i k) t"
  unfolding check_or_review_def wp_bindS
proof (rule wp_mono [OF checkStage_wp [OF l]])
  fix r u
  assume p: "check_post m t r u"
  have c: "invocations ''implementer'' es \<le> i" "invocations ''reviewer'' es \<le> k" using i k by simp_all
  show "wp (case r of
       Inl e \<Rightarrow> retS (Stop (Inl e))
     | Inr checked \<Rightarrow> (case crTerminal checked of
         Some result \<Rightarrow> retS (Stop (Inr result))
       | None \<Rightarrow>
           if crPassed checked then review_stage w m failures
           else if crIdentity checked \<in> set failures
           then stop_with (finish w m ''repeated_failure'' ''Identical failed check and source state repeated'')
           else retS (Again (repair_check_text (crRaw checked)) (crIdentity checked # failures)))) (stepped m s i k) u"
  proof (cases r)
    case (Inl err)
    with p stopped_concluded [OF e _ c] show ?thesis by (simp add: check_post_def wp_retS)
  next
    case (Inr checked)
    show ?thesis
    proof (cases "crTerminal checked")
      case (Some res)
      with Inr p stopped_concluded [OF e _ c] show ?thesis by (simp add: check_post_def wp_retS)
    next
      case None
      with Inr p obtain f x where ev: "evolves t (check_events m f x) u" and nf: "\<not> tFailed (ls_tx u)"
        and snap: "jat (ls_row u) ''snapshot'' = snapshotValue f" and b: "same_baseline (ls_row t) f"
        and x: "certain_exit x" "crPassed checked \<longleftrightarrow> xExitCode x = Some 0"
        by (auto simp: check_post_def check_done_def)
      from evolves_trans [OF e ev] have e2: "evolves s (es @ check_events m f x) u" .
      have lu: "live u" using evolves_live [OF ev l nf] .
      have bs: "same_baseline (ls_row s) f"
        using b same_baseline_cong [OF evolves_baseline [OF e]] by simp
      have rev: "wp (review_stage w m failures) (stepped m s i k) u" if "crPassed checked"
        using review_stage_wp [OF e2 lu snap bs x(1) _ i k] x(2) that by simp
      have rep: "wp (stop_with (finish w m ''repeated_failure'' why)) (stepped m s i k) u" for why
        by (rule stop_with_wp [OF e2]) (use c in \<open>simp_all add: open_outcomes_def\<close>)
      have again: "stepped m s i k (Again rp fl) u" for rp fl
        using e2 nf c unfolding stepped_def by (intro exI [of _ "es @ check_events m f x"]) simp
      from Inr None rev rep again show ?thesis by (simp add: wp_if wp_retS)
    qed
  qed
qed

lemma after_implementer_wp:
  assumes e: "evolves s es t" and l: "live t"
    and i: "invocations ''implementer'' es \<le> i" and k: "invocations ''reviewer'' es < k"
  shows "wp (after_implementer w m failures attempts before) (stepped m s i k) t"
  unfolding after_implementer_def wp_bindS
proof (rule wp_mono [OF fresh_wp])
  show "recorded t" and nft: "\<not> tFailed (ls_tx t)" using l by (simp_all add: live_def)
  fix r u
  assume fr: "freshened t None r u"
  show "wp (case r of
       Inl _ \<Rightarrow> stop_with (finish w m ''handoff'' changed_text)
     | Inr after \<Rightarrow>
         if attempts \<le> 1 then check_or_review w m failures
         else bindS (update_row (progress_row (fpSource before = fpSource after))) (\<lambda>_. bindS (getS ls_row) (\<lambda>row.
           if lNoProgressLimit (m_config m) \<le> int_field row ''no_progress''
           then stop_with (finish w m ''no_progress'' ''Repair made no source progress; handoff required'')
           else check_or_review w m failures))) (stepped m s i k) u"
  proof (cases r)
    case (Inl err)
    with fr have "evolves t [] u" by (simp add: freshened_def)
    from evolves_trans [OF e this] have "evolves s es u" by simp
    from stop_with_wp [OF this _ i, of "''handoff''" k] k Inl show ?thesis by (simp add: open_outcomes_def)
  next
    case (Inr f)
    with fr have ev: "evolves t [EvFresh f] u" and nf: "\<not> tFailed (ls_tx u)" by (auto simp: freshened_def)
    define u' where "u' = u\<lparr>ls_row := progress_row (fpSource before = fpSource f) (ls_row u)\<rparr>"
    have e1: "evolves s (es @ [EvFresh f]) u" by (rule evolves_trans [OF e ev])
    have ev': "evolves t [EvFresh f] u'"
      unfolding u'_def using ev by (rule evolves_row) (simp add: progress_row_def)
    have e2: "evolves s (es @ [EvFresh f]) u'" by (rule evolves_trans [OF e ev'])
    have c: "invocations ''implementer'' (es @ [EvFresh f]) \<le> i" "invocations ''reviewer'' (es @ [EvFresh f]) < k"
      using i k by simp_all
    have lu: "live u" and lu': "live u'"
      using evolves_live [OF ev l nf] evolves_live [OF ev' l] nf by (simp_all add: u'_def)
    have stop: "wp (stop_with (finish w m ''no_progress'' why)) (stepped m s i k) u'" for why
      by (rule stop_with_wp [OF e2 _ c(1)]) (use c(2) in \<open>simp_all add: open_outcomes_def\<close>)
    from Inr check_or_review_wp [OF e1 lu c] check_or_review_wp [OF e2 lu' c] stop show ?thesis
      by (simp add: wp_if wp_bindS wp_update_row wp_getS u'_def)
  qed
qed

lemma integer_int_value [simp]: "integer_l (int_value n) = Some n"
  by (simp add: integer_l_def int_value_def parse_int_int_str)

lemma int_field_jset [simp]:
  "int_field (jset k (int_value n) r) k = n"
  "k \<noteq> k' \<Longrightarrow> int_field (jset k v r) k' = int_field r k'"
  by (simp_all add: int_field_def)

text \<open>An iteration either ends the loop, or leaves a live state with one more recorded attempt.\<close>

definition iterated :: "invocation \<Rightarrow> loop_state \<Rightarrow> loop_step \<Rightarrow> loop_state \<Rightarrow> bool" where
  "iterated m s step t \<longleftrightarrow> (\<exists>es. invocations ''implementer'' es \<le> 1 \<and> invocations ''reviewer'' es \<le> 1 \<and> (case step of
       Stop r \<Rightarrow> concluded m s es r t \<and> (lMaxAttempts (m_config m) \<le> int_field (ls_row s) ''attempts'' \<longrightarrow> quiet es)
     | Again _ _ \<Rightarrow> live t \<and> core (ls_trace t) = core (ls_trace s) @ es \<and>
         jat (ls_row t) ''baseline'' = jat (ls_row s) ''baseline'' \<and>
         int_field (ls_row t) ''attempts'' = int_field (ls_row s) ''attempts'' + 1 \<and>
         int_field (ls_row s) ''attempts'' < lMaxAttempts (m_config m)))"

lemma concluded_from:
  assumes "concluded m t es r u" and "core (ls_trace t) = core (ls_trace s) @ fs"
    and "jat (ls_row t) ''baseline'' = jat (ls_row s) ''baseline''"
  shows "concluded m s (fs @ es) r u"
proof -
  have "ends t es outcomes r u \<Longrightarrow> ends s (fs @ es) outcomes r u" for outcomes
    using assms(2) by (simp add: ends_def)
  moreover have "approved_by m es (ls_row t) \<Longrightarrow> approved_by m (fs @ es) (ls_row s)"
    using same_baseline_cong [OF assms(3)] unfolding approved_by_def by (metis append.assoc)
  ultimately show ?thesis using assms(1) by (auto simp: concluded_def)
qed

lemma attempt_stage_wp:
  assumes l: "live s"
  shows "wp (attempt_stage w m repair failures attempts before) (stepped m s 1 1) s"
  unfolding attempt_stage_def wp_bindS
proof (rule wp_mono [OF save_wp], goal_cases)
  case 1
  with l show ?case by (simp add: live_def)
next
  case (2 r t)
  then have e: "evolves s [] t" by blast
  let ?p = "m_prompt m @ [CHR 0x0A, CHR 0x0A] @ repair"
  show ?case
  proof (cases r)
    case (Inl err)
    with ends_error [OF e] show ?thesis by (auto simp: wp_retS stepped_def concluded_def intro!: exI [of _ "[]"])
  next
    case (Inr i)
    with 2 have "\<not> tFailed (ls_tx t)" by blast
    with evolves_live [OF e l] have lt: "live t" by simp
    have "wp (invoke w m ''implementer'' ?p) (\<lambda>response. wp (case response of
           Inl e \<Rightarrow> stop_invoke w m e ''implementer''
         | Inr _ \<Rightarrow> after_implementer w m failures attempts before) (stepped m s 1 1)) t"
    proof (rule wp_mono [OF invoke_wp [OF lt]])
      fix response u
      assume inv: "invoked ''implementer'' ?p t response u"
      have c: "invocations ''implementer'' [EvInvoke ''implementer'' ?p a] \<le> 1"
        "invocations ''reviewer'' [EvInvoke ''implementer'' ?p a] < 1" for a
        by simp_all
      show "wp (case response of
           Inl e \<Rightarrow> stop_invoke w m e ''implementer''
         | Inr _ \<Rightarrow> after_implementer w m failures attempts before) (stepped m s 1 1) u"
      proof (cases response)
        case (Inl err)
        with inv consider "evolves t [] u" | a where "evolves t [EvInvoke ''implementer'' ?p a] u"
          by (auto simp: invoked_def)
        then show ?thesis
        proof cases
          case 1
          from stop_invoke_wp [OF evolves_trans [OF e 1], of 1 1] Inl show ?thesis by simp
        next
          case 2
          from stop_invoke_wp [OF evolves_trans [OF e 2], of 1 1] Inl show ?thesis by simp
        qed
      next
        case (Inr resp)
        with inv obtain a where nf: "\<not> tFailed (ls_tx u)" and ea: "evolves t [EvInvoke ''implementer'' ?p a] u"
          by (auto simp: invoked_def)
        from evolves_trans [OF e ea] have "evolves s [EvInvoke ''implementer'' ?p a] u" by simp
        from after_implementer_wp [OF this evolves_live [OF ea lt nf] c] Inr show ?thesis by simp
      qed
    qed
    with Inr show ?thesis by (simp add: wp_bindS)
  qed
qed

lemma attempt_recorded_wp:
  assumes l: "live s" and eu: "evolves s [EvFresh f] u" and nu: "\<not> tFailed (ls_tx u)"
    and k: "k = int_field (ls_row s) ''attempts''" "k < lMaxAttempts (m_config m)"
  shows "wp (attempt_stage w m repair failures (k + 1) f) (iterated m s)
     (u\<lparr>ls_row := jset ''phase'' (JStr ''implementer'') (jset ''attempts'' (int_value (k + 1)) (ls_row u))\<rparr>)"
    (is "wp _ _ ?v")
proof -
  define v where "v = ?v"
  have "live u" by (rule evolves_live [OF eu l nu])
  then have lv: "live v" by (simp add: v_def live_def)
  have cv: "core (ls_trace v) = core (ls_trace s) @ [EvFresh f]"
    and bv: "jat (ls_row v) ''baseline'' = jat (ls_row s) ''baseline''"
    and kv: "int_field (ls_row v) ''attempts'' = k + 1"
    using eu evolves_baseline [OF eu] by (simp_all add: v_def evolves_def)
  have "wp (attempt_stage w m repair failures (k + 1) f) (iterated m s) v"
  proof (rule wp_mono [OF attempt_stage_wp [OF lv]])
    fix step z
    assume "stepped m v 1 1 step z"
    then obtain es where c: "invocations ''implementer'' es \<le> 1" "invocations ''reviewer'' es \<le> 1"
      and st: "case step of Stop r \<Rightarrow> concluded m v es r z | Again _ _ \<Rightarrow> evolves v es z \<and> \<not> tFailed (ls_tx z)"
      unfolding stepped_def by blast
    have "case step of
       Stop r \<Rightarrow> concluded m s (EvFresh f # es) r z
     | Again _ _ \<Rightarrow> live z \<and> core (ls_trace z) = core (ls_trace s) @ (EvFresh f # es) \<and>
         jat (ls_row z) ''baseline'' = jat (ls_row s) ''baseline'' \<and>
         int_field (ls_row z) ''attempts'' = k + 1"
    proof (cases step)
      case (Stop r)
      with st concluded_from [OF _ cv bv] show ?thesis by auto
    next
      case (Again a b)
      with st have ez: "evolves v es z" "\<not> tFailed (ls_tx z)" by auto
      moreover have "int_field (ls_row z) ''attempts'' = k + 1"
        using kv evolves_attempts [OF ez(1)] by (simp add: int_field_def)
      moreover have "core (ls_trace z) = core (ls_trace v) @ es" using ez(1) by (simp add: evolves_def)
      ultimately show ?thesis using Again evolves_live [OF ez(1) lv] cv bv evolves_baseline [OF ez(1)] by simp
    qed
    with c k show "iterated m s step z"
      unfolding iterated_def by (intro exI [of _ "EvFresh f # es"]) (simp split: loop_step.splits)
  qed
  then show ?thesis by (simp only: v_def)
qed

lemma iteration_stop_wp:
  assumes "evolves s [] t" and "out \<in> set open_outcomes"
  shows "wp (stop_with (finish w m out why)) (iterated m s) t"
  unfolding stop_with_def wp_bindS wp_retS
proof (rule wp_mono [OF finish_from [OF assms(1)]])
  fix res u
  assume "ends s [] [out] res u"
  with assms(2) have "ends s [] open_outcomes res u" by (auto intro: ends_weaken)
  then show "iterated m s (Stop res) u"
    unfolding iterated_def by (intro exI [of _ "[]"]) (simp add: concluded_def)
qed

lemma iteration_wp:
  assumes l: "live s"
  shows "wp (iteration w m repair failures) (iterated m s) s"
proof -
  let ?k = "int_field (ls_row s) ''attempts''"
  have r: "recorded s" and nf: "\<not> tFailed (ls_tx s)" using l by (simp_all add: live_def)
  define t where "t = s\<lparr>ls_tick := Suc (ls_tick s)\<rparr>"
  have et: "evolves s [] t" using evolves_refl [OF r] by (simp add: t_def)
  consider "lMaxAttempts (m_config m) \<le> ?k"
    | "\<not> lMaxAttempts (m_config m) \<le> ?k" "lw_expired w (ls_tick s)"
    | "\<not> lMaxAttempts (m_config m) \<le> ?k" "\<not> lw_expired w (ls_tick s)" by blast
  then show ?thesis
  proof cases
    case 1
    with iteration_stop_wp [OF evolves_refl [OF r]] show ?thesis
      by (simp add: iteration_def wp_bindS wp_getS open_outcomes_def)
  next
    case 2
    with iteration_stop_wp [OF et] show ?thesis
      by (simp add: iteration_def wp_bindS wp_getS wp_ask open_outcomes_def t_def)
  next
    case 3
    let ?rest = "\<lambda>g. case g of
       Inl _ \<Rightarrow> stop_with (finish w m ''handoff'' changed_text)
     | Inr before \<Rightarrow>
         bindS (put_field ''attempts'' (int_value (?k + 1))) (\<lambda>_.
         bindS (put_field ''phase'' (JStr ''implementer'')) (\<lambda>_.
         attempt_stage w m repair failures (?k + 1) before))"
    have "wp (?rest g) (iterated m s) u" if fr: "freshened t None g u" for g u
    proof (cases g)
      case (Inl err)
      with fr have "evolves t [] u" by (simp add: freshened_def)
      from iteration_stop_wp [OF evolves_trans [OF et this, simplified]] Inl show ?thesis
        by (simp add: open_outcomes_def)
    next
      case (Inr f)
      with fr have ef: "evolves t [EvFresh f] u" and nu: "\<not> tFailed (ls_tx u)" by (auto simp: freshened_def)
      from evolves_trans [OF et ef] have "evolves s [EvFresh f] u" by simp
      from attempt_recorded_wp [OF l this nu refl] 3 Inr show ?thesis
        by (simp only: sum.case wp_bindS wp_put_field) simp
    qed
    moreover have "recorded t" "\<not> tFailed (ls_tx t)" using r nf by (simp_all add: t_def)
    ultimately have "wp (fresh w m None) (\<lambda>g. wp (?rest g) (iterated m s)) t"
      by (intro wp_mono [OF fresh_wp [of t w m None]])
    with 3 show ?thesis by (simp add: iteration_def wp_bindS wp_getS wp_ask t_def)
  qed
qed

end
