(* ===== verification/Loop_Props.thy ===== *)
theory Loop_Props
  imports Loop_Stages
begin

text \<open>
  The bounded loop, whole invocations and \<open>Controller.Run\<close>: triples over the event trace, and the
  facts about checkpoint admission the properties of the loop controller use.
\<close>

section \<open>The loop\<close>

definition bounded_done :: "invocation \<Rightarrow> loop_state \<Rightarrow> int \<Rightarrow> (loop_error + LoopResult) option \<Rightarrow> loop_state \<Rightarrow> bool" where
  "bounded_done m s n res t \<longleftrightarrow> (\<exists>r es. res = Some r \<and> concluded m s es r t \<and>
     int (invocations ''implementer'' es) \<le> max 0 n \<and> int (invocations ''reviewer'' es) \<le> max 0 n)"

lemma bounded_doneI:
  assumes "concluded m s es r t" and "int (invocations ''implementer'' es) \<le> max 0 n"
    and "int (invocations ''reviewer'' es) \<le> max 0 n"
  shows "bounded_done m s n (Some r) t"
  using assms by (auto simp: bounded_done_def)

lemma bounded_done_step:
  assumes "bounded_done m t n res u" and "core (ls_trace t) = core (ls_trace s) @ es"
    and "jat (ls_row t) ''baseline'' = jat (ls_row s) ''baseline''"
    and "invocations ''implementer'' es \<le> 1" and "invocations ''reviewer'' es \<le> 1" and "0 \<le> n"
  shows "bounded_done m s (n + 1) res u"
proof -
  obtain r fs where r: "res = Some r" "concluded m t fs r u"
    "int (invocations ''implementer'' fs) \<le> n" "int (invocations ''reviewer'' fs) \<le> n"
    using assms(1,6) by (auto simp: bounded_done_def)
  show ?thesis unfolding r(1)
    by (rule bounded_doneI [OF concluded_from [OF r(2) assms(2,3)]]) (use r(3,4) assms(4,5) in simp_all)
qed

lemma bounded_wp:
  assumes "live s" and "max 0 (lMaxAttempts (m_config m) - int_field (ls_row s) ''attempts'') < int fuel"
  shows "wp (bounded fuel w m repair failures)
     (bounded_done m s (lMaxAttempts (m_config m) - int_field (ls_row s) ''attempts'')) s"
  using assms
proof (induction fuel arbitrary: s repair failures)
  case (Suc n)
  let ?left = "lMaxAttempts (m_config m) - int_field (ls_row s) ''attempts''"
  show ?case
    unfolding bounded.simps wp_bindS
  proof (rule wp_mono [OF iteration_wp [OF Suc.prems(1)]])
    fix step t
    assume it: "iterated m s step t"
    then obtain es where c: "invocations ''implementer'' es \<le> 1" "invocations ''reviewer'' es \<le> 1"
      and st: "case step of
       Stop r \<Rightarrow> concluded m s es r t \<and> (lMaxAttempts (m_config m) \<le> int_field (ls_row s) ''attempts'' \<longrightarrow> quiet es)
     | Again _ _ \<Rightarrow> live t \<and> core (ls_trace t) = core (ls_trace s) @ es \<and>
         jat (ls_row t) ''baseline'' = jat (ls_row s) ''baseline'' \<and>
         int_field (ls_row t) ''attempts'' = int_field (ls_row s) ''attempts'' + 1 \<and>
         int_field (ls_row s) ''attempts'' < lMaxAttempts (m_config m)"
      unfolding iterated_def by blast
    show "wp (case step of Stop r \<Rightarrow> retS (Some r) | Again repair failures \<Rightarrow> bounded n w m repair failures)
        (bounded_done m s ?left) t"
    proof (cases step)
      case (Stop r)
      with st have cr: "concluded m s es r t" and q: "?left \<le> 0 \<longrightarrow> quiet es" by auto
      have "int (invocations role es) \<le> max 0 ?left" if "invocations role es \<le> 1" for role
        using that q invocations_quiet [of es role] by (cases "?left \<le> 0") auto
      with bounded_doneI [OF cr] c Stop show ?thesis by (simp add: wp_retS)
    next
      case (Again rep fl)
      with st have t: "live t" "core (ls_trace t) = core (ls_trace s) @ es"
        "jat (ls_row t) ''baseline'' = jat (ls_row s) ''baseline''"
        "int_field (ls_row t) ''attempts'' = int_field (ls_row s) ''attempts'' + 1"
        "int_field (ls_row s) ''attempts'' < lMaxAttempts (m_config m)" by auto
      have "max 0 (lMaxAttempts (m_config m) - int_field (ls_row t) ''attempts'') < int n"
        using Suc.prems(2) t(4,5) by simp
      from Suc.IH [OF t(1) this] have "wp (bounded n w m rep fl) (bounded_done m t (?left - 1)) t"
        using t(4) by (simp add: algebra_simps)
      then have "wp (bounded n w m rep fl) (bounded_done m s ?left) t"
      proof (rule wp_mono)
        fix res u
        assume "bounded_done m t (?left - 1) res u"
        from bounded_done_step [OF this t(2,3) c] t(5) show "bounded_done m s ?left res u" by simp
      qed
      with Again show ?thesis by simp
    qed
  qed
qed simp

section \<open>Whole invocations\<close>

definition manual_outcomes :: "string list" where
  "manual_outcomes = [''handoff'', ''manual_passed'', ''manual_failed'']"

definition manual_done :: "invocation \<Rightarrow> loop_state \<Rightarrow> loop_error + LoopResult \<Rightarrow> loop_state \<Rightarrow> bool" where
  "manual_done m s r t \<longleftrightarrow> (\<exists>es. quiet es \<and> (ends s es [''handoff'', ''manual_failed''] r t \<or>
     ends s es [''manual_passed''] r t \<and>
       (\<exists>f x. es = check_events m f x \<and> certain_exit x \<and> xExitCode x = Some 0 \<and> same_baseline (ls_row s) f)))"

lemma manual_run_wp:
  assumes l: "live s"
  shows "wp (manual_run w m) (manual_done m s) s"
  unfolding manual_run_def wp_tryS
proof (rule wp_mono [OF checkStage_wp [OF l]])
  fix r t
  assume p: "check_post m s r t"
  have stop: "manual_done m s res t" if "stopped s [''handoff''] res t" for res
  proof -
    from that obtain es where "quiet es" "ends s es [''handoff''] res t" by (auto simp: stopped_def)
    moreover have "ends s es [''handoff'', ''manual_failed''] res t"
      using calculation(2) by (rule ends_weaken) simp
    ultimately show ?thesis by (auto simp: manual_done_def)
  qed
  show "case r of Inl e \<Rightarrow> manual_done m s (Inl e) t
    | Inr c \<Rightarrow> wp (case crTerminal c of
       Some result \<Rightarrow> retS (Inr result)
     | None \<Rightarrow>
         if crPassed c
         then finish w m ''manual_passed'' ''Manual check passed; implementation and review were not performed.''
         else finish w m ''manual_failed'' ''Manual check failed; no model was invoked.'') (manual_done m s) t"
  proof (cases r)
    case (Inl e)
    with p stop show ?thesis by (simp add: check_post_def)
  next
    case (Inr c)
    show ?thesis
    proof (cases "crTerminal c")
      case (Some res)
      with Inr p stop show ?thesis by (simp add: check_post_def wp_retS)
    next
      case None
      with Inr p obtain f x where ev: "evolves s (check_events m f x) t"
        and b: "same_baseline (ls_row s) f" "certain_exit x" "crPassed c \<longleftrightarrow> xExitCode x = Some 0"
        by (auto simp: check_post_def check_done_def)
      have q: "quiet (check_events m f x)" by (simp add: check_events_def)
      have "wp (finish w m ''manual_passed'' why) (manual_done m s) t" if "xExitCode x = Some 0" for why
        by (rule wp_mono [OF finish_from [OF ev]]) (use q b that in \<open>auto simp: manual_done_def\<close>)
      moreover have "wp (finish w m ''manual_failed'' why) (manual_done m s) t" for why
        by (rule wp_mono [OF finish_from [OF ev]])
          (use q ends_weaken [of s _ "[''manual_failed'']" _ _ "[''handoff'', ''manual_failed'']"] in
            \<open>auto simp: manual_done_def\<close>)
      ultimately show ?thesis using Inr None b(3) by simp
    qed
  qed
qed

text \<open>What one invocation guarantees, in either mode.\<close>

definition invocation_done :: "invocation \<Rightarrow> loop_state \<Rightarrow> (loop_error + LoopResult) option \<Rightarrow> loop_state \<Rightarrow> bool" where
  "invocation_done m s res t \<longleftrightarrow> (\<exists>r es. res = Some r \<and> recorded t \<and> core (ls_trace t) = core (ls_trace s) @ es \<and>
     int (invocations ''implementer'' es) \<le> max 0 (lMaxAttempts (m_config m) - int_field (ls_row s) ''attempts'') \<and>
     int (invocations ''reviewer'' es) \<le> max 0 (lMaxAttempts (m_config m) - int_field (ls_row s) ''attempts'') \<and>
     (requestMode (m_request m) \<noteq> ''bounded'' \<longrightarrow> quiet es) \<and>
     (\<forall>result. r = Inr result \<longrightarrow> (\<exists>row. lresRecord result = Some row \<and> last_event (ls_trace t) = Some (EvSaved row) \<and>
        (jat row ''outcome'' = JStr ''approved'' \<longrightarrow> approved_by m es (ls_row s)))))"

lemma ends_invocation:
  assumes "ends s es outcomes r t" and "Q \<Longrightarrow> ''approved'' \<in> set outcomes \<Longrightarrow> approved_by m es (ls_row s)" and Q
  shows "recorded t \<and> core (ls_trace t) = core (ls_trace s) @ es \<and>
    (\<forall>result. r = Inr result \<longrightarrow> (\<exists>row. lresRecord result = Some row \<and> last_event (ls_trace t) = Some (EvSaved row) \<and>
        (jat row ''outcome'' = JStr ''approved'' \<longrightarrow> approved_by m es (ls_row s))))"
  using assms by (auto simp: ends_def)

lemma bounded_invocation:
  assumes "bounded_done m s n res t" and "requestMode (m_request m) = ''bounded''"
    and "n = lMaxAttempts (m_config m) - int_field (ls_row s) ''attempts''"
  shows "invocation_done m s res t"
proof -
  obtain r es where r: "res = Some r" "concluded m s es r t"
    "int (invocations ''implementer'' es) \<le> max 0 n" "int (invocations ''reviewer'' es) \<le> max 0 n"
    using assms(1) unfolding bounded_done_def by blast
  have "recorded t \<and> core (ls_trace t) = core (ls_trace s) @ es \<and>
    (\<forall>result. r = Inr result \<longrightarrow> (\<exists>row. lresRecord result = Some row \<and> last_event (ls_trace t) = Some (EvSaved row) \<and>
        (jat row ''outcome'' = JStr ''approved'' \<longrightarrow> approved_by m es (ls_row s))))"
    using r(2) ends_invocation [of s es open_outcomes r t True m] ends_invocation [of s es "[''approved'']" r t "approved_by m es (ls_row s)" m]
    by (auto simp: concluded_def open_outcomes_def)
  with r assms(2,3) show ?thesis unfolding invocation_done_def by (intro exI [of _ r] exI [of _ es]) auto
qed

lemma manual_invocation:
  assumes "ends s es outcomes r t" and "quiet es" and "''approved'' \<notin> set outcomes"
  shows "invocation_done m s (Some r) t"
  using ends_invocation [of s es outcomes r t True m] assms invocations_quiet [OF assms(2)]
  unfolding invocation_done_def by (intro exI [of _ r] exI [of _ es]) auto

lemma run_invocation_wp:
  assumes l: "live s"
    and "requestMode (m_request m) = ''bounded'' \<Longrightarrow>
      max 0 (lMaxAttempts (m_config m) - int_field (ls_row s) ''attempts'') < int fuel"
  shows "wp (run_invocation fuel w m) (invocation_done m s) s"
proof -
  define t where "t = s\<lparr>ls_tick := Suc (ls_tick s)\<rparr>"
  have lt: "live t" using l by (simp add: t_def)
  have inv: "invocation_done m t = invocation_done m s"
    by (intro ext) (simp add: invocation_done_def t_def)
  have late: "wp (bindS (finish w m ''handoff'' time_limit_text) (\<lambda>r. retS (Some r))) (invocation_done m s) t"
    unfolding wp_bindS wp_retS
  proof (rule wp_mono [OF finish_wp])
    show "recorded t" using lt by (simp add: live_def)
    fix r u
    assume "ends t [] [''handoff''] r u"
    from manual_invocation [OF this, of m] show "invocation_done m s (Some r) u" by (simp add: inv)
  qed
  have bd: "wp (bounded fuel w m [] []) (invocation_done m s) t" if "requestMode (m_request m) = ''bounded''"
    by (rule wp_mono [OF bounded_wp [OF lt]])
      (use assms(2) [OF that] bounded_invocation [OF _ that refl, of t] inv in \<open>simp_all add: t_def\<close>)
  have mn: "wp (bindS (manual_run w m) (\<lambda>r. retS (Some r))) (invocation_done m s) t"
    unfolding wp_bindS wp_retS
  proof (rule wp_mono [OF manual_run_wp [OF lt]])
    fix r u
    assume "manual_done m t r u"
    then obtain es where "quiet es" "ends t es [''handoff'', ''manual_failed''] r u \<or> ends t es [''manual_passed''] r u"
      unfolding manual_done_def by blast
    with manual_invocation [of t es _ r u m] show "invocation_done m s (Some r) u" by (auto simp: inv)
  qed
  from late bd mn show ?thesis by (simp add: run_invocation_def wp_bindS wp_ask t_def)
qed

section \<open>Controller.Run\<close>

definition observing :: "loop_event list \<Rightarrow> bool" where
  "observing es \<longleftrightarrow> list_all (\<lambda>e. case e of EvFresh _ \<Rightarrow> True | _ \<Rightarrow> False) es"

definition approved_trace :: "loop_event list \<Rightarrow> bool" where
  "approved_trace es \<longleftrightarrow> (\<exists>f0 pre f c x prompt a. core es = EvFresh f0 # pre @
       [EvFresh f, EvLaunch c, EvCheck x, EvFresh f, EvInvoke ''reviewer'' prompt a, EvFresh f] \<and>
     xExitConfirmed x \<and> \<not> xOwnershipUnconfirmed x \<and> xExitCode x = Some 0 \<and>
     iaExitCode a = 0 \<and> parseVerdict (iaResponse a) = Inr \<lparr>rvVerdict = ''approve'', rvFindings = []\<rparr> \<and>
     fpHead f = fpHead f0 \<and> fpSafety f = fpSafety f0)"

text \<open>
  Observations are numbered: \<open>k\<close> is the one that acquires the transition guard, the next three take the
  checkpoint lock, read the checkpoint store through the locked transaction and read the budget ledger.
\<close>

definition admitted :: "loop_world \<Rightarrow> Request_l \<Rightarrow> Config_l \<times> Config \<Rightarrow> nat \<Rightarrow> history \<Rightarrow> history \<Rightarrow> bool" where
  "admitted w r cs k h b \<longleftrightarrow> lw_guard w k \<and> lw_lock w (k + 1) = None \<and> readHistory (lw_store w (k + 2)) = Inr h \<and>
     lw_budget w (k + 3) = Some b \<and> (\<exists>p. makeManualPlan (lw_kill w) r (fst cs) (snd cs) h b = Inr p \<and> lpBlockers p = [])"

definition started :: "Request_l \<Rightarrow> bool \<Rightarrow> history \<Rightarrow> bool" where
  "started r resume h \<longleftrightarrow> (if resume then requestMode r = ''manual'' \<and> find_row h (lrSession r) (lrTask r) \<noteq> None
     else find_row h (lrSession r) (lrTask r) = None)"

definition entitled :: "loop_world \<Rightarrow> Request_l \<Rightarrow> bool \<Rightarrow> Config_l \<times> Config \<Rightarrow> nat \<Rightarrow> loop_event list \<Rightarrow> bool" where
  "entitled w r resume cs k es \<longleftrightarrow> es = [] \<or>
     (\<exists>h b. admitted w r cs k h b \<and> (observing es \<or> started r resume h))"

definition guarded_done :: "loop_world \<Rightarrow> Request_l \<Rightarrow> bool \<Rightarrow> Config_l \<times> Config \<Rightarrow> nat \<Rightarrow> loop_outcome \<Rightarrow> loop_state \<Rightarrow> bool" where
  "guarded_done w r resume cs k res t \<longleftrightarrow> (\<exists>x. res = Some x \<and> trace_ok (ls_trace t) \<and>
     entitled w r resume cs k (ls_trace t) \<and>
     int (invocations ''implementer'' (ls_trace t)) \<le> max 0 (lMaxAttempts (fst cs)) \<and>
     int (invocations ''reviewer'' (ls_trace t)) \<le> max 0 (lMaxAttempts (fst cs)) \<and>
     (requestMode r \<noteq> ''bounded'' \<longrightarrow> quiet (ls_trace t)) \<and>
     (\<forall>result. x = Inr result \<longrightarrow> lresRecord result = None \<longrightarrow> ls_trace t = []) \<and>
     (\<forall>result row. x = Inr result \<longrightarrow> lresRecord result = Some row \<longrightarrow>
        last_event (ls_trace t) = Some (EvSaved row) \<and>
        (jat row ''outcome'' = JStr ''approved'' \<longrightarrow> approved_trace (ls_trace t))))"

lemma invocations_core: "invocations role (core es) = invocations role es"
  by (induction es) (auto simp: invocations_def core_def is_store_def split: loop_event.splits)

lemma quiet_core: "quiet (core es) = quiet es"
  by (induction es) (auto simp: quiet_def core_def is_store_def split: loop_event.splits)

lemma observing_quiet: "observing es \<Longrightarrow> quiet es"
  by (auto simp: observing_def quiet_def list_all_iff split: loop_event.splits)

lemma observed_done:
  assumes "observing (ls_trace t)" and "trace_ok (ls_trace t)" and "entitled w r resume cs k (ls_trace t)"
    and "\<And>result. x = Inr result \<Longrightarrow> lresRecord result = None \<and> ls_trace t = []"
  shows "guarded_done w r resume cs k (Some x) t"
  using assms observing_quiet [OF assms(1)] invocations_quiet [of "ls_trace t"]
  by (auto simp: guarded_done_def)

lemma entitled_Nil [simp]: "entitled w r resume cs k []"
  by (simp add: entitled_def)

lemma makeManualPlan_mode:
  "AssessResume h b rr = Inr a \<Longrightarrow> rrMode rr = ''manual''"
  by (auto simp: AssessResume_def resumable_def result_simps split: if_splits sum.splits)

text \<open>The facts about the row an invocation starts with.\<close>

definition startable :: "Request_l \<Rightarrow> Fingerprint \<Rightarrow> row \<Rightarrow> bool" where
  "startable r current row \<longleftrightarrow> jat row ''status'' = JStr ''active'' \<and>
     (requestMode r = ''bounded'' \<longrightarrow> int_field row ''attempts'' = 0 \<and> jat row ''baseline'' = snapshotValue current)"

lemma zero_text: "parse_int ''0'' = Some 0"
  by (simp add: parse_int_def sign_split_def digits_val_def is_digit_def digit_val_def)

lemma start_row_startable:
  assumes "start_row w r c resume h b current policy prompt = Inr (h', i, row)"
  shows "startable r current row \<and> started r resume h"
proof (cases resume)
  case True
  with assms obtain a where "AssessResume h b \<lparr>rrSession = lrSession r, rrTask = lrTask r, rrHarness = lrHarness r,
               rrMode = requestMode r, rrSnapshot = current, rrPolicy = policy, rrPrompt = prompt,
               rrTimeoutSeconds = lTimeoutSeconds c\<rparr> = Inr a"
    by (auto simp: start_row_def result_simps)
  from makeManualPlan_mode [OF this] have "requestMode r = ''manual''" by simp
  with True assms show ?thesis
    by (auto simp: start_row_def result_simps startable_def resumed_row_def started_def split: option.splits)
next
  case False
  with assms show ?thesis
    by (auto simp: start_row_def startable_def new_row_def int_field_def integer_l_def contains_any_def zero_text
        started_def Let_def split: option.splits)
qed

lemma approved_from_start:
  assumes "approved_by m es row" and "core tr = EvFresh current # es" and "jat row ''baseline'' = snapshotValue current"
  shows "approved_trace tr"
proof -
  from assms(1) obtain pre f x prompt a where "es = pre @ review_events m f x prompt a" "certain_exit x" "xExitCode x = Some 0"
    "iaExitCode a = 0" "parseVerdict (iaResponse a) = Inr \<lparr>rvVerdict = ''approve'', rvFindings = []\<rparr>" "same_baseline row f"
    unfolding approved_by_def by blast
  with assms(2,3) show ?thesis
    unfolding approved_trace_def review_events_def check_events_def certain_exit_def same_baseline_def
    by (intro exI [of _ current] exI [of _ pre] exI [of _ f] exI [of _ "lCheckCommand (m_config m)"]
        exI [of _ x] exI [of _ prompt] exI [of _ a]) simp
qed

lemma wp_retS_fun: "wp (retS x) Q = Q x"
  by (simp add: fun_eq_iff wp_retS)

lemma start_invocation_wp:
  assumes s: "ls_trace s = [EvFresh current]" "\<not> tFailed (ls_tx s)"
    and st: "startable r current row" and adm: "admitted w r cs k h0 b" "started r resume h0"
    and fuel: "max 0 (lMaxAttempts (fst cs)) < int fuel"
  shows "wp (start_invocation fuel w r cs prompt (h, i, row)) (\<lambda>out t. guarded_done w r resume cs k (fst out) t) s"
proof -
  have adm: "entitled w r resume cs k es" for es using adm by (auto simp: entitled_def)
  define m where "m = \<lparr>m_request = r, m_config = fst cs, m_budget = snd cs, m_history = h, m_index = i,
     m_consumed = float_or_zero (jat row ''elapsed_seconds''), m_prompt = prompt\<rparr>"
  define s1 where "s1 = s\<lparr>ls_row := row\<rparr>"
  have rs: "recorded s1" using s by (simp add: s1_def recorded_def trace_ok_def ok_next_def last_event_def)
  have cs1: "core (ls_trace s1) = [EvFresh current]" using s by (simp add: s1_def)
  have "wp (write_checkpoint w m) (\<lambda>x. wp (case x of
           Inl e \<Rightarrow> refuse e False
         | Inr _ \<Rightarrow> bindS (run_invocation fuel w m) (\<lambda>result. retS (result, clean_result result)))
         (\<lambda>out t. guarded_done w r resume cs k (fst out) t)) s1"
  proof (rule wp_mono [OF write_wp [OF rs]], elim conjE)
    fix x :: "loop_error + unit" and t
    assume e: "evolves s1 [] t" and row: "ls_row t = ls_row s1"
      and ok: "\<forall>u. x = Inr u \<longrightarrow> \<not> tFailed (ls_tx t) \<and> last_event (ls_trace t) = Some (EvSaved (ls_row t))"
    have ct: "core (ls_trace t) = [EvFresh current]" and rt: "recorded t" using e cs1 by (simp_all add: evolves_def)
    show "wp (case x of Inl e \<Rightarrow> refuse e False
         | Inr _ \<Rightarrow> bindS (run_invocation fuel w m) (\<lambda>result. retS (result, clean_result result)))
         (\<lambda>out t. guarded_done w r resume cs k (fst out) t) t"
    proof (cases x)
      case (Inl err)
      have q: "quiet (ls_trace t)" using quiet_core [of "ls_trace t"] ct by simp
      with Inl rt adm invocations_quiet [OF q] show ?thesis
        by (simp add: refuse_def wp_retS guarded_done_def recorded_def)
    next
      case (Inr i)
      with ok have nf: "\<not> tFailed (ls_tx t)" by blast
      have lt: "live t" using rt nf row st by (simp add: live_def s1_def startable_def)
      have left: "requestMode (m_request m) = ''bounded'' \<Longrightarrow>
          max 0 (lMaxAttempts (m_config m) - int_field (ls_row t) ''attempts'') < int fuel"
        using fuel st row by (simp add: m_def s1_def startable_def)
      have "wp (run_invocation fuel w m) (\<lambda>res u. guarded_done w r resume cs k res u) t"
      proof (rule wp_mono [OF run_invocation_wp [OF lt left]])
        fix res u
        assume "invocation_done m t res u"
        then obtain y es where y: "res = Some y" "recorded u" "core (ls_trace u) = EvFresh current # es"
          and c: "int (invocations ''implementer'' es) \<le> max 0 (lMaxAttempts (fst cs) - int_field row ''attempts'')"
            "int (invocations ''reviewer'' es) \<le> max 0 (lMaxAttempts (fst cs) - int_field row ''attempts'')"
          and q: "requestMode r \<noteq> ''bounded'' \<longrightarrow> quiet es"
          and fin: "\<forall>result. y = Inr result \<longrightarrow> (\<exists>row'. lresRecord result = Some row' \<and> last_event (ls_trace u) = Some (EvSaved row') \<and>
            (jat row' ''outcome'' = JStr ''approved'' \<longrightarrow> approved_by m es row))"
          using ct row unfolding invocation_done_def by (auto simp: m_def s1_def)
        have inv: "invocations role (ls_trace u) = invocations role es" for role
          using invocations_core [of role "ls_trace u"] y(3) by simp
        have qt: "quiet (ls_trace u) = quiet es" using quiet_core [of "ls_trace u"] y(3) by simp
        have "int (invocations role es) \<le> max 0 (lMaxAttempts (fst cs))"
          if "int (invocations role es) \<le> max 0 (lMaxAttempts (fst cs) - int_field row ''attempts'')" for role
          using that st q invocations_quiet [of es role] by (cases "requestMode r = ''bounded''") (auto simp: startable_def)
        moreover have "approved_trace (ls_trace u)" if a: "approved_by m es row"
        proof (cases "requestMode r = ''bounded''")
          case True
          with st approved_from_start [OF a y(3)] show ?thesis by (simp add: startable_def)
        next
          case False
          with q a show ?thesis by (auto simp: approved_by_def review_events_def)
        qed
        ultimately show "guarded_done w r resume cs k res u"
          using y c fin q adm unfolding guarded_done_def inv qt
          by (intro exI [of _ y]) (auto simp: recorded_def)
      qed
      with Inr show ?thesis by (simp add: wp_bindS wp_retS_fun)
    qed
  qed
  then show ?thesis
    unfolding start_invocation_def Let_def prod.case wp_bindS wp_update_row m_def s1_def .
qed

lemma refuse_wp:
  assumes "observing (ls_trace t)" and "trace_ok (ls_trace t)" and "entitled w r resume cs k (ls_trace t)"
  shows "wp (refuse e clean) (\<lambda>out u. guarded_done w r resume cs k (fst out) u) t"
  using observed_done [OF assms, of "Inl e"] by (simp add: refuse_def wp_retS)

lemma prepared_run_wp:
  assumes s: "ls_trace s = []" "\<not> tFailed (ls_tx s)"
    and adm: "admitted w r cs k h b"
    and fuel: "max 0 (lMaxAttempts (fst cs)) < int fuel"
  shows "wp (prepared_run fuel w r resume cs prompt h b) (\<lambda>out t. guarded_done w r resume cs k (fst out) t) s"
proof (cases "lw_snapshot w (ls_tick s)")
  case None
  have "wp (refuse NoFingerprint False) (\<lambda>out t. guarded_done w r resume cs k (fst out) t) (s\<lparr>ls_tick := Suc (ls_tick s)\<rparr>)"
    by (rule refuse_wp) (use s in \<open>simp_all add: observing_def\<close>)
  with None show ?thesis by (simp add: prepared_run_def wp_bindS wp_ask)
next
  case (Some current)
  define t where "t = s\<lparr>ls_trace := [EvFresh current], ls_tick := Suc (Suc (ls_tick s))\<rparr>"
  have ref: "wp (refuse e False) (\<lambda>out t. guarded_done w r resume cs k (fst out) t) t" for e
    by (rule refuse_wp) (use adm in \<open>auto simp: t_def observing_def trace_ok_def ok_next_def entitled_def\<close>)
  have start: "wp (start_invocation fuel w r cs prompt start) (\<lambda>out t. guarded_done w r resume cs k (fst out) t) t"
    if st: "start_row w r (fst cs) resume h b current policy ident = Inr start" for policy ident start
  proof -
    obtain h' i row where start: "start = (h', i, row)" by (cases start)
    from start_row_startable [OF st [unfolded start]]
    have "startable r current row" "started r resume h" by auto
    from start_invocation_wp [OF _ _ this(1) adm this(2) fuel] s show ?thesis by (simp add: start t_def)
  qed
  have pol: "wp (policyS w c b e) Q u \<longleftrightarrow>
      Q (if lw_cancelled w (ls_tick u) then Inl NoFingerprint else Policy (lw_sha256 w) c b e)
        (u\<lparr>ls_tick := Suc (ls_tick u)\<rparr>)" for c b e Q and u :: loop_state
    by (simp add: policyS_def wp_simps)
  show ?thesis
    using Some ref start s
    by (simp add: prepared_run_def wp_bindS wp_ask wp_emit pol t_def split: sum.split)
qed

lemma guarded_run_wp:
  assumes s: "ls_trace s = []" "\<not> tFailed (ls_tx s)" "ls_tick s = k + 1" "lw_guard w k" and fuel: "max 0 (lMaxAttempts (fst cs)) < int fuel"
  shows "wp (guarded_run fuel w r resume cs prompt) (\<lambda>out t. guarded_done w r resume cs k (fst out) t) s"
proof -
  let ?Q = "\<lambda>out t. guarded_done w r resume cs k (fst out) t"
  have ref: "wp (refuse e clean) ?Q t" if "ls_trace t = []" for e clean t
    by (rule refuse_wp) (use that in \<open>simp_all add: observing_def\<close>)
  have pln: "wp (retS (Some (Inr (plan_result p)), True)) ?Q t" if "ls_trace t = []" for p t
    unfolding wp_retS fst_conv
    by (rule observed_done) (use that in \<open>simp_all add: observing_def plan_result_def\<close>)
  show ?thesis
  proof (cases "lw_lock w (ls_tick s)")
    case (Some e)
    with ref s show ?thesis by (simp add: guarded_run_def wp_bindS wp_ask)
  next
    case None
    let ?stored = "lw_store w (Suc (ls_tick s))"
    obtain h0 tx where tx: "tx_read ?stored (ls_tx s) = (h0, tx)" by force
    have nf: "\<not> tFailed tx" using tx s(2) by (auto simp: tx_read_def Let_def split: if_splits)
    define t where "t = s\<lparr>ls_tick := Suc (Suc (ls_tick s)), ls_tx := tx\<rparr>"
    have ts: "ls_trace t = []" "\<not> tFailed (ls_tx t)" using s nf by (simp_all add: t_def)
    have body: "wp (case h0 of
       Inl e \<Rightarrow> refuse e True
     | Inr h \<Rightarrow>
     bindS (readBudget w) (\<lambda>b. case b of
       Inl e \<Rightarrow> refuse e True
     | Inr b \<Rightarrow> (case makeManualPlan (lw_kill w) r (fst cs) (snd cs) h b of
         Inl e \<Rightarrow> refuse e True
       | Inr p \<Rightarrow>
           if lpBlockers p \<noteq> [] then retS (Some (Inr (plan_result p)), True)
           else prepared_run fuel w r resume cs prompt h b))) ?Q t"
    proof (cases h0)
      case (Inl e)
      with ref ts show ?thesis by simp
    next
      case (Inr h)
      define u where "u = t\<lparr>ls_tick := Suc (ls_tick t)\<rparr>"
      have us: "ls_trace u = []" "\<not> tFailed (ls_tx u)" using ts by (simp_all add: u_def)
      have rb: "wp (readBudget w) Q t \<longleftrightarrow> Q (case lw_budget w (ls_tick t) of None \<Rightarrow> Inl LoopStorage | Some b \<Rightarrow> Inr b) u" for Q
        by (simp add: readBudget_def wp_simps u_def)
      show ?thesis
      proof (cases "lw_budget w (ls_tick t)")
        case None
        with Inr rb ref [OF us(1)] show ?thesis by (simp add: wp_bindS)
      next
        case (Some b)
        show ?thesis
        proof (cases "makeManualPlan (lw_kill w) r (fst cs) (snd cs) h b")
          case (Inl e)
          with Inr Some rb ref [OF us(1)] show ?thesis by (simp add: wp_bindS)
        next
          case p: (Inr p)
          have "readHistory ?stored = Inr h" using tx Inr by (auto simp: tx_read_def Let_def split: if_splits)
          then have "lpBlockers p = [] \<Longrightarrow> admitted w r cs k h b"
            using None Some p s(3,4) by (auto simp: admitted_def t_def eval_nat_numeral)
          from prepared_run_wp [OF us this fuel] pln [OF us(1)] Inr Some rb p show ?thesis
            by (simp add: wp_bindS wp_if)
        qed
      qed
    qed
    have upd: "wp (\<lambda>s. case tx_read a (ls_tx s) of (r, tx) \<Rightarrow> (r, s\<lparr>ls_tx := tx\<rparr>)) Q v \<longleftrightarrow>
        (case tx_read a (ls_tx v) of (r, tx) \<Rightarrow> Q r (v\<lparr>ls_tx := tx\<rparr>))" for a Q and v :: loop_state
      by (simp add: wp_def split: prod.split)
    show ?thesis
      using None body by (simp add: guarded_run_def wp_bindS wp_ask upd tx t_def)
  qed
qed

text \<open>The guarantee of \<open>Controller.Run\<close> once its configuration is known.\<close>

lemma guarded_done_state:
  "guarded_done w r resume cs k res (t\<lparr>ls_tx := tx\<rparr>) = guarded_done w r resume cs k res t"
  "guarded_done w r resume cs k res (t\<lparr>ls_tick := n\<rparr>) = guarded_done w r resume cs k res t"
  by (simp_all add: guarded_done_def)

lemma closed_run_wp:
  assumes "guarded_done w r resume cs k (fst out) t"
  shows "wp (closed_run w out) (\<lambda>res u. guarded_done w r resume cs k res u) t"
proof -
  obtain x where "fst out = Some x" using assms by (auto simp: guarded_done_def)
  moreover have "guarded_done w r resume cs k (Some (Inl TransitionCleanup)) t"
    using assms by (auto simp: guarded_done_def)
  ultimately show ?thesis
    using assms by (simp add: closed_run_def wp_simps guarded_done_state)
qed

lemma ControllerRun_wp:
  assumes cs: "configurations w r = Inr cs" and fuel: "max 0 (lMaxAttempts (fst cs)) < int fuel"
    and s: "ls_trace s = []" "\<not> tFailed (ls_tx s)"
  shows "wp (ControllerRun fuel w r resume) (guarded_done w r resume cs (ls_tick s + 10)) s"
proof -
  define k where "k = ls_tick s + 10"
  have none: "guarded_done w r resume cs k (Some x) t"
    if "ls_trace t = []" "\<And>result. x = Inr result \<Longrightarrow> lresRecord result = None" for x t
    by (rule observed_done) (use that in \<open>simp_all add: observing_def\<close>)
  define t where "t = s\<lparr>ls_tick := ls_tick s + 8\<rparr>"
  have sr: "wp (storeRead w) Q s \<longleftrightarrow> Q (store_read (map (\<lambda>i. lw_store w (ls_tick s + i)) [0..<8])) t" for Q
    by (simp add: storeRead_def wp_def bindS_def ask_many_def t_def retS_def)
  show ?thesis
  proof (cases "validManual r")
    case False
    then have "configurations w r = Inl ManualRefused" by (simp add: configurations_def)
    with cs show ?thesis by simp
  next
    case True
    let ?rest = "\<lambda>p. case p of Inl e \<Rightarrow> retS (Some (Inl e)) | Inr p \<Rightarrow>
      if lpBlockers p \<noteq> [] then retS (Some (Inr (plan_result p)))
      else bindS (ask (lw_prompt w)) (\<lambda>content.
        case (if requestMode r = ''bounded'' then loadLoopPrompt content (lrPromptFile r) else Inr []) of
          Inl e \<Rightarrow> retS (Some (Inl e))
        | Inr prompt \<Rightarrow> bindS (ask (lw_guard w)) (\<lambda>held.
            if \<not> held then retS (Some (Inl ManualRefused))
            else bindS (guarded_run fuel w r resume cs prompt) (closed_run w)))"
    have rest: "wp (?rest p) (guarded_done w r resume cs k) u"
      if u: "ls_trace u = []" "\<not> tFailed (ls_tx u)" "k = Suc (ls_tick u)" for p u
    proof -
      have g: "wp (guarded_run fuel w r resume cs prompt) (\<lambda>out. wp (closed_run w out) (guarded_done w r resume cs k))
          (u\<lparr>ls_tick := Suc (Suc (ls_tick u))\<rparr>)" if "lw_guard w (Suc (ls_tick u))" for prompt
        by (rule wp_mono [OF guarded_run_wp [OF _ _ _ _ fuel, of _ k]]) (use u that closed_run_wp in simp_all)
      have n: "guarded_done w r resume cs k (Some (Inl e)) (u\<lparr>ls_tick := i\<rparr>)" for e i
        using none [of "u\<lparr>ls_tick := i\<rparr>" "Inl e"] u by simp
      have refused: "guarded_done w r resume cs k (Some (Inl e)) u" for e
        using none [of u "Inl e"] u by simp
      have planned: "guarded_done w r resume cs k (Some (Inr (plan_result q))) u" for q
        using none [of u "Inr (plan_result q)"] u by (simp add: plan_result_def)
      show ?thesis
      proof (cases p)
        case (Inl e)
        with refused show ?thesis by (simp add: wp_retS)
      next
        case (Inr q)
        let ?text = "if requestMode r = ''bounded'' then loadLoopPrompt (lw_prompt w (ls_tick u)) (lrPromptFile r) else Inr []"
        show ?thesis
        proof (cases ?text)
          case (Inl e)
          with Inr n planned show ?thesis by (simp only: sum.case wp_if wp_bindS wp_ask wp_retS) simp
        next
          case loaded: (Inr prompt)
          with Inr n g planned show ?thesis by (simp only: sum.case wp_if wp_bindS wp_ask wp_retS) (simp add: wp_retS)
        qed
      qed
    qed
    have pf: "wp (planFor w r cs h) (\<lambda>p. wp (?rest p) (guarded_done w r resume cs k)) t" for h
      using rest [of "t\<lparr>ls_tick := Suc (ls_tick t)\<rparr>"] s
      by (simp add: k_def planFor_def readBudget_def wp_tryS wp_bindS wp_ask wp_retS t_def del: sum.case split: sum.split option.split)
    show ?thesis
    proof (cases "store_read (map (\<lambda>i. lw_store w (ls_tick s + i)) [0..<8])")
      case (Inl e)
      have "guarded_done w r resume cs k (Some (Inl e)) t"
        using none [of t "Inl e"] s by (simp add: t_def)
      with True Inl show ?thesis by (simp add: ControllerRun_def wp_bindS sr wp_retS k_def)
    next
      case (Inr h)
      with True cs pf [of h] show ?thesis by (simp add: ControllerRun_def wp_bindS sr k_def)
    qed
  qed
qed

end
