(* ===== verification/Loop_Sample.thy ===== *)
theory Loop_Sample
  imports Loop_Props Budget_Claims Json_Props
begin

text \<open>
  A concrete bounded run for the witnesses of the loop properties: one attempt whose check passes and
  whose reviewer approves.  \<open>cost\<close> bounds the length of the canonical text of simple values, so that
  the publications of the run are known to fit without computing their text.
\<close>

section \<open>The size of encoded values\<close>

definition ascii_text :: "string \<Rightarrow> bool" where
  "ascii_text s \<longleftrightarrow> list_all (\<lambda>c. ord c < 128) s"

definition simple_number :: "string \<Rightarrow> bool" where
  "simple_number n \<longleftrightarrow> n = ''0.0'' \<or> n = ''1.0'' \<or> (case n of [c] \<Rightarrow> is_digit c | _ \<Rightarrow> False)"

fun simple :: "jval \<Rightarrow> bool" where
  "simple (JStr s) = ascii_text s"
| "simple (JNum n) = simple_number n"
| "simple (JArr vs) = list_all simple vs"
| "simple (JObj m) = list_all (\<lambda>kv. ascii_text (fst kv) \<and> simple (snd kv)) m"
| "simple (JFloat f) = f64_finite f"
| "simple (JInt i) = True"
| "simple _ = True"

fun cost :: "jval \<Rightarrow> nat" where
  "cost JNull = 4"
| "cost (JBool b) = 5"
| "cost (JStr s) = 12 * length s + 2"
| "cost (JNum n) = 3"
| "cost (JArr vs) = 2 + sum_list (map (\<lambda>v. cost v + 2) vs)"
| "cost (JObj m) = 2 + sum_list (map (\<lambda>kv. 12 * length (fst kv) + 4 + cost (snd kv) + 2) m)"
| "cost (JInt i) = length (int_str i)"
| "cost (JFloat f) = length (FloatText f)"

lemma canon_runes_ascii: "ascii_text s \<Longrightarrow> canon_runes s = Some (map ord s)"
proof (induction s)
  case (Cons c s)
  then have "decode_rune (c # s) = (ord c, 1)" by (simp add: ascii_text_def decode_rune_def)
  moreover have "ord c \<noteq> rune_error" using Cons.prems by (simp add: ascii_text_def rune_error_def)
  ultimately show ?case using Cons by (subst canon_runes.simps) (simp add: ascii_text_def)
qed (simp add: canon_runes.simps)

lemma length_escape_rune: "length (escape_rune r) \<le> 12"
  by (simp add: escape_rune_def escape_unit_def hex4_def)

lemma encode_string_ascii:
  assumes "ascii_text s"
  shows "\<exists>t. encode_string s = Inr t \<and> length t \<le> 12 * length s + 2"
proof -
  have "length (concat (map escape_rune rs)) \<le> 12 * length rs" for rs
    by (induction rs) (use length_escape_rune in \<open>auto intro: add_mono\<close>)
  from this [of "map ord s"] canon_runes_ascii [OF assms] show ?thesis by (simp add: encode_string_def)
qed

lemma FloatText_0: "FloatText (F_Fin 0) = ''0.0''"
proof -
  have sd: "shortest_digits 0 = (''0'', 1)" by (simp add: shortest_digits_def)
  have e: "format_e (F_Fin 0) = ''0e+00''"
    by (simp add: format_e_def format_with_def sd text_e_def exponent_text_def nat_str.simps [of 0] digit_chars)
  have "cut_at ''e'' ''0e+00'' = Some (''0'', ''+00'')" by (simp add: has_prefix_def)
  moreover have "parse_int ''+00'' = Some 0"
    by (simp add: parse_int_def sign_split_def digits_val_def is_digit_def digit_val_def)
  moreover have "format_f (F_Fin 0) = ''0''" by (simp add: format_f_def format_with_def sd)
  ultimately show ?thesis by (simp add: FloatText_def e contains_any_def)
qed

lemma parse_zero: "parse_float ''0.0'' = Some (F_Fin 0, False)"
proof -
  have "parse_unsigned ''0.0'' = Some 0"
    by (simp add: parse_unsigned_def Let_def is_digit_def digits_val_def digit_val_def pow_int_def)
  then show ?thesis by (simp add: parse_float_def sign_split_def Let_def)
qed

lemma parse_one: "parse_float ''1.0'' = Some (F_Fin 1, False)"
proof -
  have "parse_unsigned ''1.0'' = Some 1"
    by (simp add: parse_unsigned_def Let_def is_digit_def digits_val_def digit_val_def pow_int_def)
  then show ?thesis by (simp add: parse_float_def sign_split_def Let_def)
qed

lemma FloatText_1: "FloatText (F_Fin 1) = ''1.0''"
proof -
  have d: "dec_exponent 1 = 0" by (simp add: dec_exponent_def nat_str.simps)
  have "decimal_at 1 1 = Some 1"
    by (simp add: decimal_at_def d pow_int_def Let_def round64_numeral round_half_even_def)
  then have "shortest_from 1 [1..<18] = (1, 1)" by (simp add: upt_rec [of "Suc 0" 18])
  then have sd: "shortest_digits 1 = (''1'', 1)"
    by (simp add: shortest_digits_def d trim_left_def nat_str.simps digit_chars)
  have e: "format_e (F_Fin 1) = ''1e+00''"
    by (simp add: format_e_def format_with_def sd text_e_def exponent_text_def nat_str.simps [of 0] digit_chars)
  have "cut_at ''e'' ''1e+00'' = Some (''1'', ''+00'')" by (simp add: has_prefix_def)
  moreover have "parse_int ''+00'' = Some 0"
    by (simp add: parse_int_def sign_split_def digits_val_def is_digit_def digit_val_def)
  moreover have "format_f (F_Fin 1) = ''1''" by (simp add: format_f_def format_with_def sd text_f_def)
  ultimately show ?thesis by (simp add: FloatText_def e contains_any_def)
qed

lemma parse_one_digit: "is_digit c \<Longrightarrow> parse_int [c] = Some (int (digit_val c))"
  by (auto simp: parse_int_def sign_split_def digits_val_def is_digit_def)

lemma encode_number_simple:
  assumes "simple_number n"
  shows "\<exists>t. encode_number n = Inr t \<and> length t \<le> 3"
proof (cases "n = ''0.0'' \<or> n = ''1.0''")
  case True
  then show ?thesis by (auto simp: encode_number_def contains_any_def parse_zero FloatText_0 parse_one FloatText_1)
next
  case False
  with assms obtain c where n: "n = [c]" "is_digit c" by (auto simp: simple_number_def split: list.splits)
  then have "c \<notin> set ''.eE''" by (auto simp: is_digit_def)
  moreover have "nat_str (digit_val c) = [c]"
    using n(2) by (subst nat_str.simps) simp
  ultimately show ?thesis using n
    by (simp add: encode_number_def contains_any_def parse_one_digit int_str_def)
qed

lemma length_join: "length (join '', '' ts) + 2 \<le> sum_list (map (\<lambda>t. length t + 2) ts) + 2"
  by (induction "'', ''" ts rule: join.induct) auto

lemma sum_list_sort_key: "sum_list (map f (sort_key fst m)) = (sum_list (map f m) :: nat)"
  by (metis mset_map mset_sort sum_mset_sum_list)

lemma encode_cost:
  "d + jdepth v \<le> 512 \<Longrightarrow> simple v \<Longrightarrow> \<exists>t. encode_value d v = Inr t \<and> length t \<le> cost v"
  "list_all (\<lambda>v. simple v \<and> e + jdepth v \<le> 512) vs \<Longrightarrow>
     \<exists>ts. encode_elems e vs = Inr ts \<and> sum_list (map (\<lambda>t. length t + 2) ts) \<le> sum_list (map (\<lambda>v. cost v + 2) vs)"
  "list_all (\<lambda>kv. ascii_text (fst kv) \<and> simple (snd kv) \<and> f + jdepth (snd kv) \<le> 512) m \<Longrightarrow>
     \<exists>ts. encode_members f m = Inr ts \<and> sum_list (map (\<lambda>t. length t + 2) ts)
       \<le> sum_list (map (\<lambda>kv. 12 * length (fst kv) + 4 + cost (snd kv) + 2) m)"
proof (induction d v and e vs and f m rule: encode_value_encode_elems_encode_members.induct)
  case (1 d v)
  then have d: "\<not> 512 < d" by simp
  show ?case
  proof (cases v)
    case (JArr vs)
    have "d \<le> 511" using "1.prems"(1) JArr by simp
    with "1.prems" JArr have "list_all (\<lambda>v. simple v \<and> Suc d + jdepth v \<le> 512) vs"
      using jdepth_le_iff(1) [of vs "511 - d"] by (auto simp: list_all_iff le_diff_conv2 add.commute simp del: jdepth.simps)
    with "1.IH"(1) [OF d JArr] obtain ts where "encode_elems (Suc d) vs = Inr ts"
      "sum_list (map (\<lambda>t. length t + 2) ts) \<le> sum_list (map (\<lambda>v. cost v + 2) vs)" by blast
    with length_join [of ts] show ?thesis by (simp add: encode_value.simps d JArr)
  next
    case (JObj m)
    have "d \<le> 511" using "1.prems"(1) JObj by simp
    with "1.prems" JObj have "list_all (\<lambda>kv. ascii_text (fst kv) \<and> simple (snd kv) \<and> Suc d + jdepth (snd kv) \<le> 512) (sort_key fst m)"
      using jdepth_le_iff(2) [of m "511 - d"] by (auto simp: list_all_iff le_diff_conv2 add.commute simp del: jdepth.simps)
    with "1.IH"(2) [OF d JObj] obtain ts where "encode_members (Suc d) (sort_key fst m) = Inr ts"
      "sum_list (map (\<lambda>t. length t + 2) ts) \<le> sum_list (map (\<lambda>kv. 12 * length (fst kv) + 4 + cost (snd kv) + 2) m)"
      unfolding sum_list_sort_key by blast
    with length_join [of ts] show ?thesis by (simp add: encode_value.simps d JObj)
  next
    case (JStr s)
    with "1.prems"(2) show ?thesis
      using encode_string_ascii [of s] by (simp add: encode_value.simps d)
  next
    case (JNum n)
    with "1.prems"(2) show ?thesis
      using encode_number_simple [of n] by (simp add: encode_value.simps d)
  qed (use "1.prems"(2) in \<open>simp_all add: encode_value.simps d\<close>)
next
  case (3 e v vs)
  from "3.prems" "3.IH"(1) obtain t where t: "encode_value e v = Inr t" "length t \<le> cost v" by auto
  with "3.prems" "3.IH"(2) [OF t(1)] obtain ts where "encode_elems e vs = Inr ts"
    "sum_list (map (\<lambda>t. length t + 2) ts) \<le> sum_list (map (\<lambda>v. cost v + 2) vs)" by auto
  with t show ?case by simp
next
  case (5 f kv m)
  from "5.prems" obtain k where k: "encode_string (fst kv) = Inr k" "length k \<le> 12 * length (fst kv) + 2"
    using encode_string_ascii [of "fst kv"] by auto
  from "5.prems" "5.IH"(1) [OF k(1)] obtain t where t: "encode_value f (snd kv) = Inr t" "length t \<le> cost (snd kv)" by auto
  with "5.prems" "5.IH"(2) [OF k(1) t(1)] obtain ts where "encode_members f m = Inr ts"
    "sum_list (map (\<lambda>t. length t + 2) ts) \<le> sum_list (map (\<lambda>kv. 12 * length (fst kv) + 4 + cost (snd kv) + 2) m)" by auto
  with k t show ?case by simp
qed simp_all

section \<open>The rows of the run\<close>

definition sample_fp :: Fingerprint where
  "sample_fp = \<lparr>fpHead = ''h'', fpSource = ''s'', fpSafety = ''p''\<rparr>"

definition lrow :: "string \<Rightarrow> string \<Rightarrow> string \<Rightarrow> jval \<Rightarrow> string \<Rightarrow> jval list \<Rightarrow> jval list \<Rightarrow> string \<Rightarrow> string \<Rightarrow> row" where
  "lrow status outcome phase pid attempts evidence runs reason next_action =
     [(''session'', JStr ''s''), (''task'', JStr ''t''), (''harness'', JStr ''claude''),
      (''mode'', JStr ''bounded''), (''status'', JStr status), (''outcome'', JStr outcome),
      (''phase'', JStr phase), (''owner_pid'', JNum ''7''), (''process_pid'', pid),
      (''started_at'', JStr ''now''), (''elapsed_seconds'', JNum ''0.0''),
      (''reserved_seconds'', JNum ''1.0''), (''attempts'', JNum attempts), (''no_progress'', JNum ''0''),
      (''uncertain'', JBool False), (''baseline'', snapshotValue sample_fp), (''snapshot'', snapshotValue sample_fp),
      (''policy'', JStr ''d''), (''prompt'', JStr ''d''), (''evidence'', JArr evidence), (''budget_runs'', JArr runs),
      (''stop_reason'', JStr reason), (''next_action'', JStr next_action)]"

definition short_text :: "string \<Rightarrow> bool" where
  "short_text s \<longleftrightarrow> ascii_text s \<and> length s \<le> 200"

definition short_values :: "jval list \<Rightarrow> bool" where
  "short_values vs \<longleftrightarrow> list_all (\<lambda>v. finiteValue v \<and> simple v \<and> jdepth v \<le> 100) vs \<and>
     sum_list (map (\<lambda>v. cost v + 2) vs) \<le> 100000"

definition fine_row :: "row \<Rightarrow> bool" where
  "fine_row r \<longleftrightarrow> checkpoint_key r = Some (''s'', ''t'') \<and> checkpoint_fields_ok r \<and> finiteValue (JObj r) \<and>
     simple (JObj r) \<and> jdepth (JObj r) \<le> 500 \<and> cost (JObj r) \<le> 1000000"

lemma numbers_fine:
  "nonnegative (JNum ''0.0'') False" "finite_number ''0.0''" "nonnegative (JNum ''1.0'') False" "finite_number ''1.0''"
  "is_digit c \<Longrightarrow> nonnegative (JNum [c]) b" "is_digit c \<Longrightarrow> finite_number [c]"
proof -
  show "nonnegative (JNum ''0.0'') False" "finite_number ''0.0''" "nonnegative (JNum ''1.0'') False" "finite_number ''1.0''"
    by (simp_all add: nonnegative_def float_of_def finite_number_def parse_zero parse_one f64_zero_def contains_any_def contains_sub.simps)
  assume c: "is_digit c"
  have no: "\<not> contains_any [c] ''.eE''" "[c] \<noteq> ''NaN''" "\<not> contains_sub [c] ''Infinity''"
    using c by (auto simp: contains_any_def has_prefix_def is_digit_def)
  then show "finite_number [c]" by (simp add: finite_number_def)
  have s: "sign_split [c] = (False, [c])" using c by (auto simp: sign_split_def is_digit_def)
  have d: "digit_val c < 10" using c by simp
  have "parse_unsigned [c] = Some (of_nat (digit_val c))"
    using c by (simp add: parse_unsigned_def Let_def digits_val_def pow_int_def)
  moreover have "round64 (of_nat (digit_val c)) = F_Fin (of_nat (digit_val c))"
    using d by (intro round64_of_nat) simp
  moreover have "map (\<lambda>c. if 65 \<le> ord c \<and> ord c \<le> 90 then chr (ord c + 32) else c) [c] = [c]"
    using c by (auto simp: is_digit_def)
  ultimately have "parse_float [c] = Some (F_Fin (of_nat (digit_val c)), False)"
    using s c by (auto simp: parse_float_def Let_def)
  then show "nonnegative (JNum [c]) b"
    using no c by (simp add: nonnegative_def integer_l_def parse_one_digit float_of_def f64_zero_def)
qed

lemma jdepth_JArr: "list_all (\<lambda>v. jdepth v \<le> n) vs \<Longrightarrow> jdepth (JArr vs) \<le> Suc n"
  by (simp add: jdepth_le_iff(1) list_all_iff del: jdepth.simps)

lemma lrow_fine:
  assumes "status = ''active'' \<or> status = ''stopped'' \<or> status = ''completed''"
    and "short_text outcome" "short_text phase" "short_text reason" "short_text next_action" "short_text status"
    and "is_digit a" and "pid = JNull \<or> pid = JNum ''5''"
    and "short_values evidence" "short_values runs"
  shows "fine_row (lrow status outcome phase pid [a] evidence runs reason next_action)"
proof -
  let ?r = "lrow status outcome phase pid [a] evidence runs reason next_action"
  have dig: "is_digit CHR ''0''" "is_digit CHR ''7''" "is_digit CHR ''5''" by (simp_all add: is_digit_def)
  have key: "checkpoint_key ?r = Some (''s'', ''t'')" by (simp add: checkpoint_key_def lrow_def sample_ids)
  have pid: "jat ?r ''process_pid'' = pid" by (simp add: lrow_def)
  have pos: "positive_integer (JNum ''7'')" "positive_integer (JNum ''5'')"
    using dig by (simp_all add: positive_integer_def integer_l_def parse_one_digit contains_any_def digit_val_def)
  have fields: "checkpoint_fields_ok ?r"
    using assms(1,7,8) dig pos
    by (auto simp: checkpoint_fields_ok_def lrow_def str_field_def harness_ok_def harnessValues_def is_array_def
        numbers_fine is_str_def is_bool_def snapshotValue_def fingerprint_def sample_fp_def)
  have fin: "finiteValue (JObj ?r)"
    using assms(7-10) dig
    by (auto simp: lrow_def numbers_fine snapshotValue_def short_values_def list_all_iff)
  have simp: "simple (JObj ?r)"
    using assms dig
    by (auto simp: lrow_def snapshotValue_def short_values_def short_text_def sample_fp_def ascii_text_def list_all_iff
        simple_number_def)
  have "jdepth (JArr evidence) \<le> 101" "jdepth (JArr runs) \<le> 101"
    using assms(9,10) jdepth_JArr [of 100] by (auto simp: short_values_def list_all_iff simp del: jdepth.simps)
  then have depth: "jdepth (JObj ?r) \<le> Suc 200"
    unfolding jdepth_le_iff(2) using assms(8)
    by (auto simp: lrow_def snapshotValue_def sample_fp_def simp del: jdepth.simps(1))
  have "cost pid \<le> 4" using assms(8) by auto
  then have "cost (JObj ?r) \<le> 1000000"
    using assms(2-6,9,10) by (simp add: lrow_def snapshotValue_def sample_fp_def short_text_def short_values_def)
  with key fields fin simp depth show ?thesis by (simp add: fine_row_def)
qed

section \<open>Publication in the run\<close>

definition lhist :: "row \<Rightarrow> history" where
  "lhist r = [(''schema'', JNum ''1''), (''runs'', JArr [JObj r])]"

definition stored_text :: "row \<Rightarrow> string" where
  "stored_text r = (case encodeHistory (JObj (lhist r)) of Inr x \<Rightarrow> x @ [CHR 0x0A] | Inl _ \<Rightarrow> [])"

lemma lhist_valid:
  assumes "fine_row r"
  shows "validateHistory_l (lhist r) = Inr ()"
proof -
  have one: "is_digit CHR ''1''" by (simp add: is_digit_def)
  then have "integer_l (JNum ''1'') = Some 1"
    by (simp add: integer_l_def contains_any_def parse_one_digit digit_val_def)
  with assms one show ?thesis
    by (simp add: validateHistory_l_def lhist_def fine_row_def numbers_fine)
qed

lemma lhist_fits:
  assumes "fine_row r"
  shows "\<exists>x. encodeHistory (JObj (lhist r)) = Inr x \<and> length x \<le> 1001000"
proof -
  have one: "is_digit CHR ''1''" by (simp add: is_digit_def)
  have d: "jdepth (JObj r) \<le> 500" and c: "cost (JObj r) \<le> 1000000" and s: "simple (JObj r)"
    using assms by (simp_all add: fine_row_def)
  have "jdepth (JArr [JObj r]) \<le> Suc 500" unfolding jdepth_le_iff(1) using d by simp
  then have "jdepth (JObj (lhist r)) \<le> Suc (Suc 500)"
    unfolding jdepth_le_iff(2) by (simp add: lhist_def del: jdepth.simps(1,2))
  moreover have "simple (JObj (lhist r))" using s one by (simp add: lhist_def ascii_text_def simple_number_def)
  ultimately obtain x where "encode_value 0 (JObj (lhist r)) = Inr x" "length x \<le> cost (JObj (lhist r))"
    using encode_cost(1) [of 0 "JObj (lhist r)"] by auto
  moreover have "cost (JObj (lhist r)) \<le> 1001000" using c by (simp add: lhist_def)
  ultimately show ?thesis by (auto simp: encodeHistory_def EncodePython_def historyLimit_def)
qed

lemma tx_write_fine:
  assumes "fine_row r" and "\<not> tClosed t" "\<not> tFailed t" "tRead t"
  shows "tx_write (SavePublish Published) (lhist r) t = (Inr (), t\<lparr>tStored := Some (stored_text r)\<rparr>)"
proof -
  from lhist_fits [OF assms(1)] obtain x where "encodeHistory (JObj (lhist r)) = Inr x" "length x \<le> 1001000" by blast
  with lhist_valid [OF assms(1)] assms(2-4) show ?thesis
    by (simp add: tx_write_def tx_publish_def stored_text_def historyLimit_def)
qed

definition ready :: "loop_state \<Rightarrow> bool" where
  "ready s \<longleftrightarrow> \<not> tClosed (ls_tx s) \<and> \<not> tFailed (ls_tx s) \<and> tRead (ls_tx s)"

section \<open>The world of the run\<close>

definition sample_environ :: environment where
  "sample_environ = [(''FACTORY_LOOP_ENABLED'', ''true''), (''FACTORY_LOOP_CHECK_COMMAND'', ''c''),
     (''FACTORY_LOOP_MAX_ATTEMPTS'', ''1''), (''FACTORY_LOOP_TIMEOUT_SECONDS'', ''1''),
     (''FACTORY_LOOP_CHECK_TIMEOUT_SECONDS'', ''1''), (''FACTORY_BUDGET_ENABLED'', ''true''),
     (''FACTORY_BUDGET_TIMEOUT_SECONDS'', ''1''), (''FACTORY_BUDGET_SESSION_SECONDS'', ''1'')]"

definition sample_loop :: Request_l where
  "sample_loop = \<lparr>lrMode = ''bounded'', lrPromptFile = ''p'', lrHarness = ''claude'', lrSession = ''s'', lrTask = ''t'',
     lrEnvironment = sample_environ\<rparr>"

definition loop_config :: Config_l where
  "loop_config = \<lparr>lEnabled = True, lCheckCommand = ''c'', lTestPatterns = [], lProtectedPaths = [], lMaxAttempts = 1,
     lTimeoutSeconds = F_Fin 1, lCheckTimeoutSeconds = F_Fin 1, lNoProgressLimit = 1\<rparr>"

definition loop_budget :: Config where
  "loop_budget = \<lparr>cEnabled = True, cAction = ''stop'', cMaxAttempts = 1, cMaxSessionRuns = 5, cMaxConcurrent = 1,
     cTimeoutSeconds = F_Fin 1, cSessionSeconds = F_Fin 1, cEstimatedUSD = None\<rparr>"

definition sample_invoke :: "string \<Rightarrow> string \<Rightarrow> string \<Rightarrow> invoke_answer" where
  "sample_invoke ident role response =
     \<lparr>iaRecord = Some [(''id'', JStr ident), (''session'', JStr ''s''), (''task'', JStr ''t''),
      (''harness'', JStr ''claude''), (''role'', JStr role), (''model'', JStr []),
      (''started_at'', JStr ''now''), (''ended_at'', JStr ''now''), (''elapsed_seconds'', JNum ''0.0''),
      (''reserved_seconds'', JNum ''1.0''), (''attempt'', integerNumber 1), (''owner_pid'', integerNumber 7),
      (''process_pid'', JNull), (''status'', JStr ''completed''), (''outcome'', JStr ''completed''),
      (''exit_code'', JNull), (''tokens'', JNull), (''estimated_usd'', JNull), (''complete'', JBool True),
      (''source'', JStr ''x''), (''warnings'', JArr [])],
     iaExitCode = 0, iaResponse = response, iaError = NoError\<rparr>"

definition approve_text :: string where
  "approve_text = ''{'' @ [quote_char] @ ''verdict'' @ [quote_char] @ '':'' @ [quote_char] @ ''approve'' @ [quote_char] @
     '','' @ [quote_char] @ ''findings'' @ [quote_char] @ '':[]}''"

definition sample_check :: Execution where
  "sample_check = \<lparr>xOutcome = ''completed'', xExitCode = Some 0, xProcessPID = 5, xElapsedSeconds = F_Fin 0, xStdout = [],
     xExitConfirmed = True, xOwnershipUnconfirmed = False\<rparr>"

definition sample_world :: "save_answer \<Rightarrow> loop_world" where
  "sample_world saving = \<lparr>lw_sha256 = (\<lambda>_. ''d''), lw_grep = (\<lambda>_. None), lw_kill = (\<lambda>_. KillOk), lw_pid = 7,
     lw_timestamp = ''now'', lw_elapsed = (\<lambda>_. F_Fin 0), lw_expired = (\<lambda>_. False), lw_interrupted = (\<lambda>_. False),
     lw_cancelled = (\<lambda>_. False), lw_prompt = (\<lambda>_. Some ''p''), lw_snapshot = (\<lambda>_. Some sample_fp),
     lw_budget = (\<lambda>_. Some emptyHistory),
     lw_execute = (\<lambda>_. \<lparr>caSpawn = Some 5, caResult = (\<lambda>_. (sample_check, False))\<rparr>),
     lw_invoke = (\<lambda>n. if n < 35 then sample_invoke ''a'' ''implementer'' [] else sample_invoke ''b'' ''reviewer'' approve_text),
     lw_save = (\<lambda>_. saving), lw_store = (\<lambda>_. StoreAbsent), lw_guard = (\<lambda>_. True), lw_lock = (\<lambda>_. None),
     lw_release = (\<lambda>_. True)\<rparr>"

lemma sample_world_simps [simp]:
  "lw_sha256 (sample_world sv) = (\<lambda>_. ''d'')" "lw_kill (sample_world sv) = (\<lambda>_. KillOk)" "lw_pid (sample_world sv) = 7"
  "lw_timestamp (sample_world sv) = ''now''" "lw_elapsed (sample_world sv) = (\<lambda>_. F_Fin 0)"
  "lw_expired (sample_world sv) = (\<lambda>_. False)" "lw_interrupted (sample_world sv) = (\<lambda>_. False)"
  "lw_cancelled (sample_world sv) = (\<lambda>_. False)" "lw_prompt (sample_world sv) = (\<lambda>_. Some ''p'')"
  "lw_snapshot (sample_world sv) = (\<lambda>_. Some sample_fp)" "lw_budget (sample_world sv) = (\<lambda>_. Some emptyHistory)"
  "lw_execute (sample_world sv) = (\<lambda>_. \<lparr>caSpawn = Some 5, caResult = (\<lambda>_. (sample_check, False))\<rparr>)"
  "lw_save (sample_world sv) = (\<lambda>_. sv)" "lw_store (sample_world sv) = (\<lambda>_. StoreAbsent)"
  "lw_guard (sample_world sv) = (\<lambda>_. True)" "lw_lock (sample_world sv) = (\<lambda>_. None)" "lw_release (sample_world sv) = (\<lambda>_. True)"
  "lw_invoke (sample_world sv) n = (if n < 35 then sample_invoke ''a'' ''implementer'' [] else sample_invoke ''b'' ''reviewer'' approve_text)"
  by (simp_all add: sample_world_def)

lemma sample_configurations: "configurations (sample_world sv) sample_loop = Inr (loop_config, loop_budget)"
proof -
  have f: "pythonFields [] = []" by (simp add: pythonFields_def fields_func_def runes.simps push_field_def)
  have "validManual sample_loop"
    by (simp add: validManual_def sample_loop_def harness_ok_def harnessValues_def sample_ids requestMode_def)
  moreover have "Configuration_l (lw_grep (sample_world sv)) sample_environ = Inr loop_config"
    by (simp add: Configuration_l_def Let_def loop_env_def sample_environ_def positive_digits positive_one f loop_config_def)
  moreover have "Configuration (map_of sample_environ) = Inr loop_budget"
    by (simp add: Configuration_def Let_def env_get_def sample_environ_def config_integer_def positive_digits
        pythonFloat_def positive_one mapErr_def loop_budget_def)
  ultimately show ?thesis by (simp add: configurations_def sample_loop_def)
qed

lemma sample_verdict: "parseVerdict approve_text = Inr \<lparr>rvVerdict = ''approve'', rvFindings = []\<rparr>"
proof -
  have "DecodeUnique approve_text = Inr (JObj [(''verdict'', JStr ''approve''), (''findings'', JArr [])])"
    by code_simp
  then show ?thesis by (simp add: parseVerdict_def)
qed

section \<open>Admission in the run\<close>

definition loop_budget_request :: Request where
  "loop_budget_request = budgetRequest sample_loop ''implementer''"

lemma loop_budget_request_eq:
  "loop_budget_request = \<lparr>rSession = ''s'', rTask = ''t'', rHarness = ''claude'', rRole = ''implementer'', rModel = [], rMaxCostUSD = None\<rparr>"
  by (simp add: loop_budget_request_def budgetRequest_def sample_loop_def env_or_empty_def sample_environ_def to_upper_def)

lemma loop_budget_valid: "validateConfig loop_budget = Inr loop_budget"
  by (simp add: validateConfig_Inr loop_budget_def limit_ok_def f64_of_int_def round64_numeral seconds_ok_def f64_zero_def)

lemma loop_budget_request_valid: "validateRequest loop_budget_request = Inr ()"
  by (simp add: validateRequest_def loop_budget_request_eq sample_ids harness_ok_def harnessValues_def role_ok_def
     roleValues_def utf8_valid_def runes.simps)

lemma loop_budget_plan: "\<exists>p. MakePlan kill loop_budget_request loop_budget emptyHistory = Inr p \<and> pBlockers p = []"
proof -
  obtain p where p: "plan_base loop_budget_request loop_budget plan_scan_init (F_Fin 0) = p" by blast
  then have b: "pRemainingSessionSeconds p = F_Fin 1 \<and> pRemainingAttempts p = 1 \<and> pRemainingSessionRuns p = 5"
    by (auto simp: plan_base_def loop_budget_def loop_budget_request_eq remaining_def f64_sub_def
        f64_max0_def f64_zero_def plan_scan_init_def)
  have hard: "hard_blockers loop_budget_request loop_budget plan_scan_init p [] = []"
    using b by (simp add: hard_blockers_def)
      (simp add: loop_budget_request_eq loop_budget_def plan_scan_init_def f64_zero_def)
  have "sc_charge plan_scan_init = newSum" "sc_active plan_scan_init = []" "cEstimatedUSD loop_budget = None"
    by (simp_all add: plan_scan_init_def loop_budget_def)
  then have "MakePlan kill loop_budget_request loop_budget emptyHistory = Inr (p\<lparr>pBlockers := []\<rparr>)"
    using emptyHistory_valid p hard
    by (simp add: MakePlan_def loop_budget_request_valid loop_budget_valid sum_new Let_def)
  then show ?thesis by simp
qed

lemma empty_lhist: "validateHistory_l emptyHistory_l = Inr ()" "rows emptyHistory_l = []"
proof -
  have one: "is_digit CHR ''1''" by (simp add: is_digit_def)
  then have "integer_l (JNum ''1'') = Some 1"
    by (simp add: integer_l_def contains_any_def parse_one_digit digit_val_def)
  with one show "validateHistory_l emptyHistory_l = Inr ()"
    by (simp add: validateHistory_l_def emptyHistory_l_def numbers_fine)
  show "rows emptyHistory_l = []" by (simp add: rows_def emptyHistory_l_def)
qed

lemma sample_mode [simp]: "requestMode sample_loop = ''bounded''"
  by (simp add: requestMode_def sample_loop_def)

lemma sample_loop_admission:
  "\<exists>p. makeManualPlan kill sample_loop loop_config loop_budget emptyHistory_l emptyHistory = Inr p \<and> lpBlockers p = []"
proof -
  obtain q where q: "MakePlan kill (budgetRequest sample_loop ''implementer'') loop_budget emptyHistory = Inr q" "pBlockers q = []"
    using loop_budget_plan unfolding loop_budget_request_def by blast
  have "pythonFields ''c'' = [''c'']" by code_simp
  moreover have "HasActive emptyHistory = Inr False"
    using emptyHistory_valid by (simp add: HasActive_def)
  ultimately show ?thesis
    using q by (simp add: makeManualPlan_def empty_lhist Let_def manual_blockers_def loop_config_def)
qed

lemma simple_digest: "simple v \<Longrightarrow> jdepth v \<le> 512 \<Longrightarrow> digest (\<lambda>_. ''d'') v = Inr ''d''"
  using encode_cost(1) [of 0 v] by (auto simp: digest_def EncodePython_def)

lemma sample_policy: "Policy (\<lambda>_. ''d'') loop_config loop_budget sample_environ = Inr ''d''"
  unfolding Policy_def
proof (rule simple_digest)
  have m: "policy_models sample_environ = []"
    by (simp add: policy_models_def sample_environ_def has_prefix_def has_suffix_def)
  have r: "RawString ''c'' = ''c''" "RawString [] = []"
    by (simp_all add: RawString_def runes.simps decode_rune_def raw_rune_def invalid_rune_def rune_error_def)
  show "simple (JObj [(''loop'', config_value loop_config), (''budget'', budget_value loop_budget),
      (''models'', JObj (policy_models sample_environ)),
      (''config_path'', JStr (RawString (env_or_empty sample_environ ''FACTORY_LOOP_CONFIG_PATH''))),
      (''native_overlay'', JStr (RawString (env_or_empty sample_environ ''OPENCODE_CONFIG_CONTENT'')))])"
    unfolding m by (simp add: config_value_def budget_value_def loop_config_def loop_budget_def stringsValue_def env_or_empty_def
        sample_environ_def ascii_text_def r)
  show "jdepth (JObj [(''loop'', config_value loop_config), (''budget'', budget_value loop_budget),
      (''models'', JObj (policy_models sample_environ)),
      (''config_path'', JStr (RawString (env_or_empty sample_environ ''FACTORY_LOOP_CONFIG_PATH''))),
      (''native_overlay'', JStr (RawString (env_or_empty sample_environ ''OPENCODE_CONFIG_CONTENT'')))]) \<le> 512"
    unfolding m by (simp add: config_value_def budget_value_def loop_config_def loop_budget_def stringsValue_def)
qed

lemma sample_prompt: "loadLoopPrompt (Some ''p'') ''p'' = Inr ''p''" "digest (\<lambda>_. ''d'') (JStr ''p'') = Inr ''d''"
proof -
  have "utf8_valid ''p''" by (simp add: utf8_valid_def runes.simps decode_rune_def invalid_rune_def rune_error_def)
  then show "loadLoopPrompt (Some ''p'') ''p'' = Inr ''p''"
    by (simp add: loadLoopPrompt_def has_prefix_def)
  show "digest (\<lambda>_. ''d'') (JStr ''p'') = Inr ''d''"
    by (rule simple_digest) (simp_all add: ascii_text_def)
qed

section \<open>The run\<close>

definition sample_m :: "row \<Rightarrow> invocation" where
  "sample_m r0 = \<lparr>m_request = sample_loop, m_config = loop_config, m_budget = loop_budget, m_history = lhist r0,
     m_index = 0, m_consumed = F_Fin 0, m_prompt = ''p''\<rparr>"

lemma sample_m_simps [simp]:
  "m_request (sample_m r0) = sample_loop" "m_config (sample_m r0) = loop_config" "m_budget (sample_m r0) = loop_budget"
  "m_consumed (sample_m r0) = F_Fin 0" "m_prompt (sample_m r0) = ''p''"
  "with_row (m_history (sample_m r0)) (m_index (sample_m r0)) r = lhist r"
  by (simp_all add: sample_m_def with_row_def lhist_def runs_value_def jset_def)

lemma elapsed_zero [simp]: "f64_add (F_Fin 0) (F_Fin 0) = F_Fin 0" "number_l (F_Fin 0) = JNum ''0.0''"
  by (simp_all add: number_l_def FloatText_0)

abbreviation W :: loop_world where
  "W \<equiv> sample_world (SavePublish Published)"

definition saved_tx :: "row \<Rightarrow> Transaction \<Rightarrow> Transaction" where
  "saved_tx r t = t\<lparr>tStored := Some (stored_text r)\<rparr>"

definition ready_tx :: "Transaction \<Rightarrow> bool" where
  "ready_tx t \<longleftrightarrow> \<not> tClosed t \<and> \<not> tFailed t \<and> tRead t"

lemma saved_tx_simps [simp]: "tFailed (saved_tx r t) = tFailed t" "ready_tx (saved_tx r t) = ready_tx t"
  by (simp_all add: saved_tx_def ready_tx_def)

lemma ready_failed [simp]: "ready_tx t \<Longrightarrow> \<not> tFailed t"
  by (simp add: ready_tx_def)

abbreviation loop_at :: "nat \<Rightarrow> row \<Rightarrow> Transaction \<Rightarrow> loop_event list \<Rightarrow> loop_state" where
  "loop_at n r tx tr \<equiv> \<lparr>ls_tick = n, ls_row = r, ls_tx = tx, ls_trace = tr\<rparr>"

lemma write_sample:
  assumes "fine_row r" and "ready_tx tx"
  shows "wp (write_checkpoint W (sample_m r0)) Q (loop_at n r tx tr) \<longleftrightarrow>
     Q (Inr ()) (loop_at (Suc n) r (saved_tx r tx) (tr @ [EvSaved r]))"
proof -
  have "tx_write (SavePublish Published) (lhist r) tx = (Inr (), saved_tx r tx)"
    unfolding saved_tx_def by (rule tx_write_fine [OF assms(1)]) (use assms(2) in \<open>simp_all add: ready_tx_def\<close>)
  then show ?thesis by (simp add: write_checkpoint_def wp_bindS wp_ask) (simp add: wp_def)
qed

lemma lrow_jset [simp]:
  "jset ''elapsed_seconds'' (JNum ''0.0'') (lrow st out ph pid a ev rs why nx) = lrow st out ph pid a ev rs why nx"
  "jset ''status'' (JStr x) (lrow st out ph pid a ev rs why nx) = lrow x out ph pid a ev rs why nx"
  "jset ''outcome'' (JStr x) (lrow st out ph pid a ev rs why nx) = lrow st x ph pid a ev rs why nx"
  "jset ''phase'' (JStr x) (lrow st out ph pid a ev rs why nx) = lrow st out x pid a ev rs why nx"
  "jset ''process_pid'' v (lrow st out ph pid a ev rs why nx) = lrow st out ph v a ev rs why nx"
  "jset ''attempts'' (JNum b) (lrow st out ph pid a ev rs why nx) = lrow st out ph pid b ev rs why nx"
  "jset ''evidence'' (JArr vs) (lrow st out ph pid a ev rs why nx) = lrow st out ph pid a vs rs why nx"
  "jset ''budget_runs'' (JArr vs) (lrow st out ph pid a ev rs why nx) = lrow st out ph pid a ev vs why nx"
  "jset ''stop_reason'' (JStr x) (lrow st out ph pid a ev rs why nx) = lrow st out ph pid a ev rs x nx"
  "jset ''next_action'' (JStr x) (lrow st out ph pid a ev rs why nx) = lrow st out ph pid a ev rs why x"
  "jset ''uncertain'' (JBool False) (lrow st out ph pid a ev rs why nx) = lrow st out ph pid a ev rs why nx"
  "jset ''snapshot'' (snapshotValue sample_fp) (lrow st out ph pid a ev rs why nx) = lrow st out ph pid a ev rs why nx"
  by (simp_all add: lrow_def jset_def)

lemma lrow_jat [simp]:
  "jat (lrow st out ph pid a ev rs why nx) ''elapsed_seconds'' = JNum ''0.0''"
  "jat (lrow st out ph pid a ev rs why nx) ''process_pid'' = pid"
  "jat (lrow st out ph pid a ev rs why nx) ''attempts'' = JNum a"
  "jat (lrow st out ph pid a ev rs why nx) ''evidence'' = JArr ev"
  "jat (lrow st out ph pid a ev rs why nx) ''budget_runs'' = JArr rs"
  "jat (lrow st out ph pid a ev rs why nx) ''uncertain'' = JBool False"
  "jat (lrow st out ph pid a ev rs why nx) ''policy'' = JStr ''d''"
  "jat (lrow st out ph pid a ev rs why nx) ''prompt'' = JStr ''d''"
  "jat (lrow st out ph pid a ev rs why nx) ''outcome'' = JStr out"
  "jat (lrow st out ph pid a ev rs why nx) ''baseline'' = snapshotValue sample_fp"
  "jat (lrow st out ph pid a ev rs why nx) ''snapshot'' = snapshotValue sample_fp"
  by (simp_all add: lrow_def)

lemma save_sample:
  assumes "fine_row (lrow st out ph pid a ev rs why nx)" and "ready_tx tx"
  shows "wp (save W (sample_m r0)) Q (loop_at n (lrow st out ph pid a ev rs why nx) tx tr) \<longleftrightarrow>
     Q (Inr ()) (loop_at (n + 2) (lrow st out ph pid a ev rs why nx) (saved_tx (lrow st out ph pid a ev rs why nx) tx)
       (tr @ [EvSaved (lrow st out ph pid a ev rs why nx)]))"
  using write_sample [OF assms, of r0 Q "Suc n" tr]
  by (simp add: save_def wp_bindS wp_elapsed wp_put_field)

lemma fresh_sample:
  assumes "previous = None \<or> previous = Some sample_fp"
  shows "wp (fresh W (sample_m r0) previous) Q (loop_at n (lrow st out ph pid a ev rs why nx) tx tr) \<longleftrightarrow>
     Q (Inr sample_fp) (loop_at (n + 3) (lrow st out ph pid a ev rs why nx) tx (tr @ [EvFresh sample_fp]))"
proof -
  have p: "lrPromptFile sample_loop = ''p''" "lrEnvironment sample_loop = sample_environ" by (simp_all add: sample_loop_def)
  have b: "same_baseline (lrow st out ph pid a ev rs why nx) sample_fp" by (simp add: same_baseline_def)
  show ?thesis
    using assms b
    by (auto simp: fresh_def fresh_prompt_def policyS_def observe_snapshot_def wp_simps sample_prompt sample_policy p
        numeral_3_eq_3)
qed

lemma fine_text [simp]:
  "short_text ''active''" "short_text ''stopped''" "short_text ''completed''" "short_text ''running''" "short_text ''approved''"
  "short_text ''starting''" "short_text ''implementer''" "short_text ''check''" "short_text ''reviewer''" "short_text ''finished''"
  "short_text []" "short_text starting_text" "short_text ''Review the changes and independent CI results.''"
  "short_text ''Implemented, deterministic checks passed and separate reviewer approved this snapshot.''"
  by (simp_all add: short_text_def ascii_text_def starting_text_def)

lemma fine_digit [simp]: "is_digit CHR ''0''" "is_digit CHR ''1''"
  by (simp_all add: is_digit_def)

lemma int_values [simp]: "int_value 0 = JNum ''0''" "int_value 1 = JNum ''1''" "int_value 5 = JNum ''5''" "int_value 7 = JNum ''7''"
proof -
  have "digit_char 5 = CHR ''5''" by code_simp
  then show "int_value 0 = JNum ''0''" "int_value 1 = JNum ''1''" "int_value 5 = JNum ''5''" "int_value 7 = JNum ''7''"
    by (simp_all add: int_value_def int_str_def nat_str.simps digit_chars)
qed

definition ev_run :: "string \<Rightarrow> string \<Rightarrow> jval" where
  "ev_run role ident = JObj [(''kind'', JStr ''invocation''), (''role'', JStr role), (''harness'', JStr ''claude''),
     (''budget_run'', JStr ident), (''outcome'', JStr ''completed''), (''duration_seconds'', JNum ''0.0'')]"

definition ev_check :: jval where
  "ev_check = JObj [(''kind'', JStr ''check''), (''command'', JStr ''c''),
      (''exit_code'', JNum ''0''), (''outcome'', JStr ''completed''),
      (''duration_seconds'', JNum ''0.0''), (''snapshot'', snapshotValue sample_fp),
      (''harness'', JStr ''claude''), (''role'', JStr ''deterministic'')]"

definition ev_review :: jval where
  "ev_review = JObj [(''kind'', JStr ''review''), (''verdict'', JStr ''approve''),
      (''findings_count'', JNum ''0''), (''snapshot'', snapshotValue sample_fp),
      (''role'', JStr ''reviewer''), (''harness'', JStr ''claude'')]"

lemma fine_values [simp]:
  "short_values []" "short_values [JStr ''a'']" "short_values [JStr ''a'', JStr ''b'']"
  "short_values [ev_run ''implementer'' ''a'']" "short_values [ev_run ''implementer'' ''a'', ev_check]"
  "short_values [ev_run ''implementer'' ''a'', ev_check, ev_run ''reviewer'' ''b'']"
  "short_values [ev_run ''implementer'' ''a'', ev_check, ev_run ''reviewer'' ''b'', ev_review]"
  by (simp_all add: short_values_def ev_run_def ev_check_def ev_review_def snapshotValue_def sample_fp_def ascii_text_def
      simple_number_def numbers_fine)

lemmas sample_steps = wp_simps save_sample fresh_sample lrow_fine

lemma sample_evidence:
  "check_evidence (sample_m r0) sample_fp sample_check = ev_check"
  "review_evidence (sample_m r0) \<lparr>rvVerdict = ''approve'', rvFindings = []\<rparr> sample_fp = ev_review"
proof -
  have r: "RawString ''c'' = ''c''"
    by (simp_all add: RawString_def runes.simps decode_rune_def raw_rune_def invalid_rune_def rune_error_def)
  show "check_evidence (sample_m r0) sample_fp sample_check = ev_check"
    "review_evidence (sample_m r0) \<lparr>rvVerdict = ''approve'', rvFindings = []\<rparr> sample_fp = ev_review"
    by (simp_all add: check_evidence_def ev_check_def review_evidence_def ev_review_def sample_check_def exit_value_def
        loop_config_def r sample_loop_def)
qed

lemma finish_sample:
  assumes "ready_tx tx" and "fine_row (lrow ''completed'' ''approved'' ''finished'' pid a ev rs reason
      ''Review the changes and independent CI results.'')" (is "fine_row ?r")
  shows "wp (finish W (sample_m r0) ''approved'' reason) Q (loop_at n (lrow st out ph pid a ev rs why nx) tx tr) \<longleftrightarrow>
    Q (Inr \<lparr>lresPlan = None, lresRecord = Some ?r, lresExitCode = 0\<rparr>) (loop_at (n + 3) ?r (saved_tx ?r tx) (tr @ [EvSaved ?r]))"
  using assms by (simp add: finish_def wp_simps terminal_row_def save_sample numeral_3_eq_3)

lemma invoke_sample:
  assumes "ready_tx tx" and "role = ''implementer'' \<and> n < 30 \<and> ident = ''a'' \<and> a0 = sample_invoke ''a'' ''implementer'' [] \<or>
      role = ''reviewer'' \<and> 35 \<le> n \<and> ident = ''b'' \<and> a0 = sample_invoke ''b'' ''reviewer'' approve_text"
    and "JStr ident \<notin> set rs"
    and "fine_row (lrow ''active'' out role pid a ev rs why nx)"
    and "fine_row (lrow ''active'' out role pid a (ev @ [ev_run role ident]) (rs @ [JStr ident]) why nx)"
  shows "wp (invoke W (sample_m r0) role prompt) Q (loop_at n (lrow ''active'' out ph pid a ev rs why nx) tx tr) \<longleftrightarrow>
    Q (Inr (iaResponse a0)) (loop_at (n + 8) (lrow ''active'' out role pid a (ev @ [ev_run role ident]) (rs @ [JStr ident]) why nx)
      (saved_tx (lrow ''active'' out role pid a (ev @ [ev_run role ident]) (rs @ [JStr ident]) why nx)
        (saved_tx (lrow ''active'' out role pid a ev rs why nx) tx))
      (tr @ [EvSaved (lrow ''active'' out role pid a ev rs why nx), EvInvoke role prompt a0,
        EvSaved (lrow ''active'' out role pid a (ev @ [ev_run role ident]) (rs @ [JStr ident]) why nx)]))"
proof -
  have late: "\<not> f64_le (lTimeoutSeconds loop_config) (F_Fin 0)" by (simp add: loop_config_def)
  obtain r where r: "iaRecord a0 = Some r" "iaExitCode a0 = 0" "iaError a0 = NoError"
    and ob: "Observe r = Inr \<lparr>iID = ident, iSession = ''s'', iTask = ''t'', iHarness = ''claude'', iRole = role,
      iStatus = ''completed'', iOutcome = ''completed'', iElapsedSeconds = JNum ''0.0'', iProcessPID = None\<rparr>"
  proof -
    have "validID ''a''" "validID ''b''" by (simp_all add: validID_def id_alnum_def)
    then show ?thesis
      using assms(2) that
      by (auto simp: sample_invoke_def Observe_def record_simps sample_checks sample_ids)
  qed
  have ans: "lw_invoke W (n + 4) = a0" using assms(2) by auto
  have same: "same_invocation (sample_m r0) role \<lparr>iID = ident, iSession = ''s'', iTask = ''t'', iHarness = ''claude'', iRole = role,
      iStatus = ''completed'', iOutcome = ''completed'', iElapsedSeconds = JNum ''0.0'', iProcessPID = None\<rparr>"
    by (simp add: same_invocation_def sample_loop_def)
  have eight: "n + 8 = Suc (Suc (Suc (Suc (Suc (Suc (Suc (Suc n)))))))" by simp
  show ?thesis
    unfolding eight using assms(1,3-5) late r ob same ans
    by (simp add: invoke_def wp_simps save_sample invoke_tail_def observe_answer_def observe_row_def addBudgetRun_def
        append_field_def elements_def invocation_evidence_def ev_run_def sample_loop_def)
qed

lemma allowance_sample:
  "wp (allowance W (sample_m r0)) Q (loop_at n r tx tr) \<longleftrightarrow>
     Q (duration (f64_min (F_Fin 1) (f64_sub (F_Fin 1) (F_Fin 0)))) (loop_at (Suc n) r tx tr)"
  by (simp add: allowance_def wp_simps loop_config_def)

lemma allowance_positive: "\<not> duration (f64_min (F_Fin 1) (f64_sub (F_Fin 1) (F_Fin 0))) \<le> 0"
proof -
  have "f64_min (F_Fin 1) (f64_sub (F_Fin 1) (F_Fin 0)) = F_Fin 1"
    by (simp add: f64_sub_def f64_min_def f64_is_zero_def)
  moreover have "duration (F_Fin 1) = 1000000000 \<or> duration (F_Fin 1) = max_int64"
  proof -
    have "round64 (1000000000 :: rat) = F_Fin 1000000000" by (rule round64_numeral) simp
    then show ?thesis by (simp add: duration_def f64_zero_def)
  qed
  ultimately show ?thesis by (auto simp: max_int64_def)
qed

lemma check_sample:
  assumes "ready_tx tx" and "short_values ev" "short_values (ev @ [ev_check])" "short_values rs"
  shows "wp (checkStage W (sample_m r0)) Q (loop_at n (lrow ''active'' ''running'' ph JNull ''1'' ev rs [] starting_text) tx tr) \<longleftrightarrow>
    (let r1 = lrow ''active'' ''running'' ''check'' JNull ''1'' ev rs [] starting_text;
         r2 = lrow ''active'' ''running'' ''check'' (JNum ''5'') ''1'' ev rs [] starting_text;
         r3 = lrow ''active'' ''running'' ''check'' JNull ''1'' (ev @ [ev_check]) rs [] starting_text
     in Q (Inr \<lparr>crPassed = True, crRaw = [], crIdentity = ''d'', crTerminal = None\<rparr>)
       (loop_at (19 + n) r3 (saved_tx r3 (saved_tx r2 (saved_tx r1 tx)))
         (tr @ [EvFresh sample_fp, EvSaved r1, EvLaunch ''c'', EvSaved r2, EvCheck sample_check, EvSaved r3, EvFresh sample_fp])))"
proof -
  have act: "HasActive emptyHistory = Inr False"
    using emptyHistory_valid by (simp add: HasActive_def)
  have settle: "settle_process sample_check (lrow st out ph (JNum ''5'') a ev rs why nx) = lrow st out ph JNull a ev rs why nx"
    for st out ph a ev rs why nx
    by (simp add: settle_process_def sample_check_def certain_exit_def)
  have dig: "digest (\<lambda>_. ''d'') (JArr [JStr (fpSource sample_fp), exit_value sample_check, JStr ''d'']) = Inr ''d''"
    by (rule simple_digest) (simp_all add: sample_fp_def exit_value_def sample_check_def ascii_text_def simple_number_def)
  have x: "xProcessPID sample_check = 5" "certain_exit sample_check" "xOutcome sample_check = ''completed''"
    "xExitCode sample_check = Some 0" "xStdout sample_check = []" "lCheckCommand loop_config = ''c''"
    by (simp_all add: sample_check_def certain_exit_def loop_config_def)
  show ?thesis
    using assms
    by (simp add: checkStage_def wp_simps act fresh_sample check_launch_def allowance_sample allowance_positive save_sample
        lrow_fine check_execute_def spawned_def settle check_record_def append_field_def elements_def sample_evidence
        check_verdict_def dig x Let_def)
qed

text \<open>The whole bounded invocation, from the published first row to the approval.\<close>

definition first_row :: row where
  "first_row = lrow ''active'' ''running'' ''starting'' JNull ''0'' [] [] [] starting_text"

definition approved_row :: row where
  "approved_row = lrow ''completed'' ''approved'' ''finished'' JNull ''1''
     [ev_run ''implementer'' ''a'', ev_check, ev_run ''reviewer'' ''b'', ev_review] [JStr ''a'', JStr ''b'']
     ''Implemented, deterministic checks passed and separate reviewer approved this snapshot.''
     ''Review the changes and independent CI results.''"

definition approved_result :: "loop_outcome \<Rightarrow> loop_state \<Rightarrow> bool" where
  "approved_result res t \<longleftrightarrow> res = Some (Inr \<lparr>lresPlan = None, lresRecord = Some approved_row, lresExitCode = 0\<rparr>)"

lemma run_sample:
  assumes "ready_tx tx" and "n \<le> 17"
  shows "wp (run_invocation 2 W (sample_m r0)) (\<lambda>res t. approved_result res t) (loop_at n first_row tx tr)"
proof -
  have late: "\<not> f64_le (lTimeoutSeconds loop_config) (F_Fin 0)" "lMaxAttempts loop_config = 1"
    by (simp_all add: loop_config_def)
  have at0: "int_field (lrow st out ph pid ''0'' ev rs why nx) ''attempts'' = 0" for st out ph pid ev rs why nx
    by (simp add: int_field_def integer_l_def contains_any_def zero_text)
  have resp: "iaResponse (sample_invoke ident role response) = response" for ident role response
    by (simp add: sample_invoke_def)
  show ?thesis
    unfolding first_row_def
    using assms sample_evidence late at0
    by (simp add: run_invocation_def numeral_2_eq_2 wp_simps iteration_def fresh_sample attempt_stage_def save_sample lrow_fine
        invoke_sample [where ident = "''a''" and ?a0.0 = "sample_invoke ''a'' ''implementer'' []"]
        after_implementer_def check_or_review_def check_sample Let_def review_stage_def
        invoke_sample [where ident = "''b''" and ?a0.0 = "sample_invoke ''b'' ''reviewer'' approve_text"]
        review_judge_def resp sample_verdict append_field_def elements_def review_accept_def stop_with_def finish_sample
        approved_result_def approved_row_def)
qed

section \<open>The whole command\<close>

lemma sample_new_row: "new_row (sample_world sv) sample_loop loop_config sample_fp ''d'' ''d'' = first_row"
  by (simp add: new_row_def first_row_def lrow_def sample_loop_def requestMode_def loop_config_def f64_zero_def
      number_l_def FloatText_0 FloatText_1)

lemma sample_start:
  "start_row (sample_world sv) sample_loop loop_config False emptyHistory_l emptyHistory sample_fp ''d'' ''d'' = Inr (lhist first_row, 0, first_row)"
  by (simp add: start_row_def find_row_def empty_lhist sample_new_row Let_def)
    (simp add: runs_value_def emptyHistory_l_def lhist_def jset_def)

lemma sample_invocation:
  "\<lparr>m_request = sample_loop, m_config = loop_config, m_budget = loop_budget, m_history = lhist first_row, m_index = 0,
    m_consumed = float_or_zero (jat first_row ''elapsed_seconds''), m_prompt = ''p''\<rparr> = sample_m first_row"
  by (simp add: sample_m_def first_row_def float_or_zero_def parse_zero)

definition locked_tx :: Transaction where
  "locked_tx = \<lparr>tClosed = False, tFailed = False, tRead = True, tStored = None\<rparr>"

lemma start_sample:
  "wp (start_invocation 2 W sample_loop (loop_config, loop_budget) ''p'' (lhist first_row, 0, first_row))
     (\<lambda>out t. approved_result (fst out) t) (loop_at 16 [] locked_tx [EvFresh sample_fp])"
proof -
  have fine: "fine_row first_row" unfolding first_row_def by (rule lrow_fine) simp_all
  have "ready_tx locked_tx" by (simp add: ready_tx_def locked_tx_def)
  then have "wp (run_invocation 2 W (sample_m first_row)) (\<lambda>res t. approved_result res t)
      (loop_at 17 first_row (saved_tx first_row locked_tx) ([EvFresh sample_fp] @ [EvSaved first_row]))"
    by (intro run_sample) simp_all
  then show ?thesis
    using write_sample [OF fine, of locked_tx first_row] \<open>ready_tx locked_tx\<close>
    by (simp add: start_invocation_def Let_def sample_invocation wp_bindS wp_update_row wp_retS_fun)
qed

lemma ControllerRun_start:
  "wp (ControllerRun fuel (sample_world sv) sample_loop False) Q initial_state \<longleftrightarrow>
     wp (start_invocation fuel (sample_world sv) sample_loop (loop_config, loop_budget) ''p'' (lhist first_row, 0, first_row))
       (\<lambda>out. wp (closed_run (sample_world sv) out) Q) (loop_at 16 [] locked_tx [EvFresh sample_fp])"
proof -
  obtain p where p: "makeManualPlan (\<lambda>_. KillOk) sample_loop loop_config loop_budget emptyHistory_l emptyHistory = Inr p"
    "lpBlockers p = []"
    using sample_loop_admission by blast
  have v: "validManual sample_loop"
    by (simp add: validManual_def sample_loop_def harness_ok_def harnessValues_def sample_ids requestMode_def)
  have sr: "wp (storeRead (sample_world sv)) Q (loop_at 0 r tx tr) \<longleftrightarrow> Q (Inr emptyHistory_l) (loop_at 8 r tx tr)" for Q r tx tr
    by (simp add: storeRead_def wp_def bindS_def ask_many_def retS_def upt_rec [of 0] readHistory_def)
  have rd: "tx_read StoreAbsent newTransaction = (Inr emptyHistory_l, locked_tx)"
    by (simp add: tx_read_def newTransaction_def readHistory_def locked_tx_def)
  have f: "lrPromptFile sample_loop = ''p''" "lrEnvironment sample_loop = sample_environ" by (simp_all add: sample_loop_def)
  have upd: "wp (\<lambda>s. case tx_read a (ls_tx s) of (r, tx) \<Rightarrow> (r, s\<lparr>ls_tx := tx\<rparr>)) Q v \<longleftrightarrow>
        (case tx_read a (ls_tx v) of (r, tx) \<Rightarrow> Q r (v\<lparr>ls_tx := tx\<rparr>))" for a Q and v :: loop_state
    by (simp add: wp_def split: prod.split)
  show ?thesis
    using p v sample_start [of sv]
    by (simp add: ControllerRun_def initial_state_def wp_simps sr sample_configurations planFor_def readBudget_def
        f sample_prompt guarded_run_def upd rd prepared_run_def policyS_def sample_policy)
qed

lemma ControllerRun_sample:
  "\<exists>t. ControllerRun 2 W sample_loop False initial_state =
     (Some (Inr \<lparr>lresPlan = None, lresRecord = Some approved_row, lresExitCode = 0\<rparr>), t)"
proof -
  have cl: "wp (closed_run W out) approved_result = approved_result (fst out)" for out
    by (intro ext) (auto simp: closed_run_def wp_simps approved_result_def)
  have "wp (ControllerRun 2 W sample_loop False) approved_result initial_state"
    using start_sample by (simp add: ControllerRun_start cl)
  then show ?thesis
    by (cases "ControllerRun 2 W sample_loop False initial_state") (simp add: wp_def approved_result_def)
qed

text \<open>The same command on a disk that refuses the first publication.\<close>

abbreviation W_failing :: loop_world where
  "W_failing \<equiv> sample_world (SavePublish NotPublished)"

lemma ControllerRun_failing:
  "\<exists>res t. ControllerRun 2 W_failing sample_loop False initial_state = (res, t) \<and>
     ls_trace t = [EvFresh sample_fp, EvSaveFailed]"
proof -
  have fine: "fine_row first_row" unfolding first_row_def by (rule lrow_fine) simp_all
  obtain x where "encodeHistory (JObj (lhist first_row)) = Inr x" "length x \<le> 1001000"
    using lhist_fits [OF fine] by blast
  then have tx: "tx_write (SavePublish NotPublished) (lhist first_row) locked_tx = (Inl (LoopPublication False), locked_tx\<lparr>tFailed := True\<rparr>)"
    using lhist_valid [OF fine] by (simp add: tx_write_def tx_publish_def locked_tx_def historyLimit_def)
  have wr: "wp (write_checkpoint W_failing (sample_m first_row)) Q (loop_at n first_row locked_tx tr) \<longleftrightarrow>
      Q (Inl (LoopPublication False)) (loop_at (Suc n) first_row (locked_tx\<lparr>tFailed := True\<rparr>) (tr @ [EvSaveFailed]))" for Q n tr
    using tx by (simp add: write_checkpoint_def wp_bindS wp_ask) (simp add: wp_def locked_tx_def)
  have "wp (ControllerRun 2 W_failing sample_loop False) (\<lambda>res t. ls_trace t = [EvFresh sample_fp, EvSaveFailed]) initial_state"
    by (simp add: ControllerRun_start start_invocation_def Let_def sample_invocation wp_simps wr refuse_def closed_run_def)
  then show ?thesis
    by (cases "ControllerRun 2 W_failing sample_loop False initial_state") (simp add: wp_def)
qed

end
