(* ===== verification/Loop_Claims.thy ===== *)
theory Loop_Claims
  imports Loop_Sample
begin

text \<open>
  The properties of the loop controller (\<open>internal/loop\<close>): they hold for every world, that is, for
  every behaviour of the clock, of cancellation, of the checkout, of the ledger, of the check command,
  of the models and of the disk.
\<close>

lemma configurations_attempts: "configurations w r = Inr cs \<Longrightarrow> 0 < lMaxAttempts (fst cs)"
  by (auto simp: configurations_def Configuration_l_def Let_def result_simps dest!: PositiveInteger_pos split: if_splits)

lemma ControllerRun_done:
  assumes "configurations w r = Inr cs" and "lMaxAttempts (fst cs) < int fuel"
    and "ControllerRun fuel w r resume initial_state = (res, t)"
  shows "guarded_done w r resume cs 10 res t"
proof -
  have "max 0 (lMaxAttempts (fst cs)) < int fuel" using configurations_attempts [OF assms(1)] assms(2) by simp
  from ControllerRun_wp [OF assms(1) this, of initial_state resume] assms(3) show ?thesis
    by (simp add: initial_state_def newTransaction_def wp_def)
qed

lemma sample_fuel: "lMaxAttempts (fst (loop_config, loop_budget)) < int 2"
  by (simp add: loop_config_def)

text \<open>C3: A loop command always returns, with fuel above the configured attempt limit, and in every
  world it invokes the implementer at most as often as \<open>loop_max_attempts\<close> allows and the reviewer at
  most as often, and in manual mode none of them; no clock, crash, model answer or disk fault can make
  it spend more.\<close>

theorem loop_bounded_invocations:
  assumes "configurations w r = Inr cs" and "lMaxAttempts (fst cs) < int fuel"
  shows "\<exists>res t. ControllerRun fuel w r resume initial_state = (Some res, t) \<and>
    int (invocations ''implementer'' (ls_trace t)) \<le> (if requestMode r = ''bounded'' then lMaxAttempts (fst cs) else 0) \<and>
    int (invocations ''reviewer'' (ls_trace t)) \<le> (if requestMode r = ''bounded'' then lMaxAttempts (fst cs) else 0)"
proof -
  obtain out t where o1: "ControllerRun fuel w r resume initial_state = (out, t)" by force
  from ControllerRun_done [OF assms o1] configurations_attempts [OF assms(1)] o1 invocations_quiet [of "ls_trace t"]
  show ?thesis by (auto simp: guarded_done_def)
qed

lemma loop_bounded_invocations_witness:
  "\<exists>res t. ControllerRun 2 W sample_loop False initial_state = (Some res, t) \<and>
     int (invocations ''implementer'' (ls_trace t)) \<le> 1 \<and> int (invocations ''reviewer'' (ls_trace t)) \<le> 1"
  using loop_bounded_invocations [OF sample_configurations sample_fuel, of "SavePublish Published" False]
  by (simp add: loop_config_def)

text \<open>C2: A run that ends \<open>approved\<close> rests on fresh evidence: after the last source observation the
  configured check ran and exited 0 with a confirmed exit, the source was unchanged, the reviewer's
  answer was a well-formed approval without findings, the source was still unchanged, and its head
  and safety digests are those of the first observation.  The record is durably published.\<close>

theorem loop_approved_evidence:
  assumes "configurations w r = Inr cs" and "lMaxAttempts (fst cs) < int fuel"
    and "ControllerRun fuel w r resume initial_state = (Some (Inr result), t)"
    and "lresRecord result = Some row" and "jat row ''outcome'' = JStr ''approved''"
  shows "\<exists>f0 pre f c x prompt a. core (ls_trace t) = EvFresh f0 # pre @
       [EvFresh f, EvLaunch c, EvCheck x, EvFresh f, EvInvoke ''reviewer'' prompt a, EvFresh f] \<and>
     xExitConfirmed x \<and> \<not> xOwnershipUnconfirmed x \<and> xExitCode x = Some 0 \<and>
     iaExitCode a = 0 \<and> parseVerdict (iaResponse a) = Inr \<lparr>rvVerdict = ''approve'', rvFindings = []\<rparr> \<and>
     fpHead f = fpHead f0 \<and> fpSafety f = fpSafety f0 \<and> last_event (ls_trace t) = Some (EvSaved row)"
  using ControllerRun_done [OF assms(1-3)] assms(4,5)
  unfolding guarded_done_def approved_trace_def by auto

lemma loop_approved_evidence_witness:
  "\<exists>t f0 pre f c x prompt a. ControllerRun 2 W sample_loop False initial_state =
      (Some (Inr \<lparr>lresPlan = None, lresRecord = Some approved_row, lresExitCode = 0\<rparr>), t) \<and>
     core (ls_trace t) = EvFresh f0 # pre @
       [EvFresh f, EvLaunch c, EvCheck x, EvFresh f, EvInvoke ''reviewer'' prompt a, EvFresh f] \<and>
     xExitCode x = Some 0 \<and> last_event (ls_trace t) = Some (EvSaved approved_row)"
proof -
  obtain t where t: "ControllerRun 2 W sample_loop False initial_state =
      (Some (Inr \<lparr>lresPlan = None, lresRecord = Some approved_row, lresExitCode = 0\<rparr>), t)"
    using ControllerRun_sample by blast
  have "jat approved_row ''outcome'' = JStr ''approved''" by (simp add: approved_row_def)
  from loop_approved_evidence [OF sample_configurations sample_fuel t LoopResult.select_convs(2) this] t show ?thesis
    by blast
qed

text \<open>The split form of the trace contract.\<close>

lemma trace_ok_split:
  assumes "trace_ok (pre @ e # post)"
  shows "ok_next (last_event pre) e \<and> (e = EvSaveFailed \<longrightarrow> post = [])"
proof -
  have "trace_from p (pre @ e # post) \<Longrightarrow> ok_next (if pre = [] then p else Some (last pre)) e \<and>
      trace_from (Some e) post" for p
    by (induction pre arbitrary: p) auto
  from this [OF assms [unfolded trace_ok_def]]
  have "ok_next (last_event pre) e" "trace_from (Some e) post" by (simp_all add: last_event_def)
  moreover have "trace_from (Some EvSaveFailed) post \<Longrightarrow> post = []" by (cases post) (auto simp: ok_next_def)
  ultimately show ?thesis by auto
qed

text \<open>C9: Every paid model invocation and every check command starts only right after a checkpoint
  that announces it, with its phase and status \<open>active\<close>, has been published, so an interrupted run
  is always found in its record.\<close>

theorem loop_write_ahead:
  assumes "configurations w r = Inr cs" and "lMaxAttempts (fst cs) < int fuel"
    and "ControllerRun fuel w r resume initial_state = (res, t)"
    and "ls_trace t = pre @ e # post" and "e = EvInvoke phase prompt a \<or> e = EvLaunch command \<and> phase = ''check''"
  shows "\<exists>pre' row. pre = pre' @ [EvSaved row] \<and> jat row ''phase'' = JStr phase \<and> jat row ''status'' = JStr ''active''"
proof -
  have "trace_ok (pre @ e # post)" using ControllerRun_done [OF assms(1-3)] assms(4) by (auto simp: guarded_done_def)
  then have "ok_next (last_event pre) e" using trace_ok_split by blast
  with assms(5) have "saved_for (last_event pre) phase" by (auto simp: ok_next_def)
  then obtain row where "last_event pre = Some (EvSaved row)" "jat row ''phase'' = JStr phase" "jat row ''status'' = JStr ''active''"
    by (auto simp: saved_for_def split: option.splits loop_event.splits)
  moreover from calculation(1) have "pre = butlast pre @ [EvSaved row]"
    by (metis append_butlast_last_id last_event_def option.distinct(1) option.inject)
  ultimately show ?thesis by blast
qed

lemma loop_write_ahead_witness:
  "\<exists>res t pre row prompt a post. ControllerRun 2 W sample_loop False initial_state = (res, t) \<and>
     ls_trace t = pre @ [EvSaved row] @ EvInvoke ''reviewer'' prompt a # post \<and> jat row ''phase'' = JStr ''reviewer''"
proof -
  obtain t where t: "ControllerRun 2 W sample_loop False initial_state =
      (Some (Inr \<lparr>lresPlan = None, lresRecord = Some approved_row, lresExitCode = 0\<rparr>), t)"
    using ControllerRun_sample by blast
  from ControllerRun_done [OF sample_configurations sample_fuel t]
  have "approved_trace (ls_trace t)" by (auto simp: guarded_done_def approved_row_def)
  then obtain f0 pre0 f c x prompt a where "core (ls_trace t) = EvFresh f0 # pre0 @
       [EvFresh f, EvLaunch c, EvCheck x, EvFresh f, EvInvoke ''reviewer'' prompt a, EvFresh f]"
    unfolding approved_trace_def by blast
  then have "EvInvoke ''reviewer'' prompt a \<in> set (core (ls_trace t))" by simp
  then have "EvInvoke ''reviewer'' prompt a \<in> set (ls_trace t)" by (simp add: core_def)
  then obtain pre post where tr: "ls_trace t = pre @ EvInvoke ''reviewer'' prompt a # post" by (meson split_list)
  from loop_write_ahead [OF sample_configurations sample_fuel t tr] tr t show ?thesis by fastforce
qed

text \<open>C36: Nothing happens after a checkpoint publication has failed: no model invocation, no check,
  no observation of the checkout and no further publication, in any world; and the run returns an error,
  never a result.\<close>

theorem loop_stops_after_failed_publication:
  assumes "configurations w r = Inr cs" and "lMaxAttempts (fst cs) < int fuel"
    and "ControllerRun fuel w r resume initial_state = (res, t)"
    and "ls_trace t = pre @ EvSaveFailed # post"
  shows "post = [] \<and> (\<exists>e. res = Some (Inl e))"
proof -
  note done_run = ControllerRun_done [OF assms(1-3), unfolded guarded_done_def]
  then have post: "post = []" using trace_ok_split assms(4) by metis
  from done_run obtain x where x: "res = Some x"
    "\<And>result. x = Inr result \<Longrightarrow> lresRecord result \<noteq> None"
    "\<And>result row. x = Inr result \<Longrightarrow> lresRecord result = Some row \<Longrightarrow> last_event (ls_trace t) = Some (EvSaved row)"
    using assms(4) by auto
  have "last_event (ls_trace t) = Some EvSaveFailed" using assms(4) post by simp
  with x(2,3) have "\<nexists>result. x = Inr result" by fastforce
  with x(1) post show ?thesis by (cases x) auto
qed

lemma loop_stops_after_failed_publication_witness:
  "\<exists>e t pre. ControllerRun 2 W_failing sample_loop False initial_state = (Some (Inl e), t) \<and>
     ls_trace t = pre @ [EvSaveFailed]"
proof -
  obtain res t where t: "ControllerRun 2 W_failing sample_loop False initial_state = (res, t)"
    "ls_trace t = [EvFresh sample_fp] @ EvSaveFailed # []"
    using ControllerRun_failing by auto
  from loop_stops_after_failed_publication [OF sample_configurations sample_fuel t] t show ?thesis by auto
qed

text \<open>C37: A run that makes its first snapshot, and so anything it does, rests on an admission over what it read under
  the transition guard and the checkpoint lock: observation 10 acquired the guard, observation 11 the lock, observation
  12 read the checkpoint history through the locked transaction and observation 13 the budget ledger.  In these very
  histories no budget run is active and no checkpoint is active or uncertain, and for a bounded run the feature
  is enabled and the budget plan of an implementer is unblocked; a check command is configured.  Anything but snapshots
  also needs the checkpoint of the task: a resumed run is manual and has one there, a new run has none.\<close>

theorem loop_admission:
  assumes "configurations w r = Inr cs" and "lMaxAttempts (fst cs) < int fuel"
    and "ControllerRun fuel w r resume initial_state = (res, t)"
    and "ls_trace t \<noteq> []"
  shows "\<exists>h b. lw_guard w 10 \<and> lw_lock w 11 = None \<and> readHistory (lw_store w 12) = Inr h \<and> lw_budget w 13 = Some b \<and>
    validateHistory_l h = Inr () \<and> HasActive b = Inr False \<and> \<not> list_ex unresolved_row (rows h) \<and>
    pythonFields (lCheckCommand (fst cs)) \<noteq> [] \<and>
    (requestMode r = ''bounded'' \<longrightarrow> lEnabled (fst cs) \<and>
      (\<exists>p. MakePlan (lw_kill w) (budgetRequest r ''implementer'') (snd cs) b = Inr p \<and> pBlockers p = [])) \<and>
    (observing (ls_trace t) \<or> (if resume
       then requestMode r = ''manual'' \<and> find_row h (lrSession r) (lrTask r) \<noteq> None
       else find_row h (lrSession r) (lrTask r) = None))"
proof -
  from ControllerRun_done [OF assms(1-3)] assms(4) obtain h b where adm: "admitted w r cs 10 h b"
    and st: "observing (ls_trace t) \<or> started r resume h"
    by (auto simp: guarded_done_def entitled_def)
  then obtain p where p: "makeManualPlan (lw_kill w) r (fst cs) (snd cs) h b = Inr p" "lpBlockers p = []"
    unfolding admitted_def by blast
  from p(1) obtain active where v: "validateHistory_l h = Inr ()" and act: "HasActive b = Inr active"
    unfolding makeManualPlan_def result_simps by auto
  have no: "manual_blockers (fst cs) h active = []"
    using p v act by (auto simp: makeManualPlan_def Let_def result_simps split: if_splits)
  have bd: "lEnabled (fst cs) \<and> (\<exists>p. MakePlan (lw_kill w) (budgetRequest r ''implementer'') (snd cs) b = Inr p \<and> pBlockers p = [])"
    if "requestMode r = ''bounded''"
    using p v act that by (auto simp: makeManualPlan_def Let_def result_simps split: if_splits)
  from no have "\<not> active" "pythonFields (lCheckCommand (fst cs)) \<noteq> []" "\<not> list_ex unresolved_row (rows h)"
    by (auto simp: manual_blockers_def split: if_splits)
  moreover from this(1) act have "HasActive b = Inr False" by simp
  moreover have "lw_guard w 10 \<and> lw_lock w 11 = None \<and> readHistory (lw_store w 12) = Inr h \<and> lw_budget w 13 = Some b"
    using adm by (simp add: admitted_def)
  ultimately show ?thesis
    using v bd st [unfolded started_def] by (intro exI [of _ h] exI [of _ b]) blast
qed

lemma loop_admission_witness:
  "\<exists>res t h b. ControllerRun 2 W sample_loop False initial_state = (res, t) \<and> ls_trace t \<noteq> [] \<and>
     readHistory (lw_store W 12) = Inr h \<and> lw_budget W 13 = Some b \<and> HasActive b = Inr False \<and>
     \<not> list_ex unresolved_row (rows h)"
proof -
  obtain t where t: "ControllerRun 2 W sample_loop False initial_state =
      (Some (Inr \<lparr>lresPlan = None, lresRecord = Some approved_row, lresExitCode = 0\<rparr>), t)"
    using ControllerRun_sample by blast
  from ControllerRun_done [OF sample_configurations sample_fuel t]
  have "last_event (ls_trace t) = Some (EvSaved approved_row)" by (auto simp: guarded_done_def)
  then have "ls_trace t \<noteq> []" by auto
  from loop_admission [OF sample_configurations sample_fuel t this] t this show ?thesis by blast
qed

end
