(* ===== verification/Loop_Glob.thy ===== *)
theory Loop_Glob
  imports Loop_Plan
begin

text \<open>
  Path classification of the loop fingerprint (\<open>internal/loop/snapshot.go\<close>): the runes of a raw path,
  the \<open>fnmatchcase\<close> matcher with its single restart point, character classes, and the rule that decides
  which paths govern the loop.  The Go loops walk two indices over \<open>text\<close> and \<open>msk\<close>; here an index is
  the suffix it points at, so \<open>x\<close> is \<open>drop x text\<close>, and \<open>star\<close> with \<open>restart\<close> is the pair of the msk
  after the star and the text at the restart.
\<close>

section \<open>Raw runes\<close>

definition raw_rune_value :: "nat \<times> string \<Rightarrow> nat" where
  "raw_rune_value p = (if invalid_rune p then 0xdc00 + ord (hd (snd p)) else fst p)"

definition rawRunes :: "string \<Rightarrow> nat list" where
  "rawRunes value = map raw_rune_value (runes value)"

section \<open>Character classes\<close>

text \<open>A member is a rune and whether it is a range separator.\<close>

type_synonym member = "nat \<times> bool"

fun mark_separators :: "member list \<Rightarrow> member list" where
  "mark_separators (m # n # rest) =
     (if fst m = 45 then (fst m, True) # n # (case rest of [] \<Rightarrow> [] | k # rest' \<Rightarrow> k # mark_separators rest')
      else m # mark_separators (n # rest))"
| "mark_separators ms = ms"

fun drop_reversed :: "nat \<Rightarrow> member list \<Rightarrow> member list" where
  "drop_reversed 0 ms = ms"
| "drop_reversed (Suc i) ms =
     (if snd (ms ! Suc i) \<and> fst (ms ! i) > fst (ms ! (i + 2))
      then drop_reversed (i - 1) (take i ms @ drop (i + 3) ms)
      else drop_reversed i ms)"

fun members_match :: "nat \<Rightarrow> member list \<Rightarrow> bool" where
  "members_match r (a # b # c # rest) =
     (if snd b then (fst a \<le> r \<and> r \<le> fst c) \<or> members_match r rest
      else r = fst a \<or> members_match r (b # c # rest))"
| "members_match r (a # rest) = (r = fst a \<or> members_match r rest)"
| "members_match r [] = False"

definition characterClass :: "nat \<Rightarrow> nat list \<Rightarrow> bool" where
  "characterClass r pattern =
     (let members = map (\<lambda>v. (v, False)) pattern;
          first = (if pattern \<noteq> [] \<and> hd pattern = 33 then 2 else 1);
          members = take first members @ mark_separators (drop first members);
          members = drop_reversed (length members - 2) members;
          negate = (members \<noteq> [] \<and> fst (hd members) = 33);
          members = (if negate then tl members else members)
      in members_match r members \<noteq> negate)"

section \<open>The matcher\<close>

text \<open>\<open>class_split\<close>: the body of a class and what follows its closing bracket; \<open>None\<close> when it is never
  closed.\<close>

definition skip_char :: "nat \<Rightarrow> nat \<Rightarrow> nat list \<Rightarrow> nat" where
  "skip_char c i msk = (if i < length msk \<and> msk ! i = c then i + 1 else i)"

definition class_split :: "nat list \<Rightarrow> (nat list \<times> nat list) option" where
  "class_split msk =
     (let b = skip_char 93 (skip_char 33 0 msk) msk
      in case dropWhile (\<lambda>c. c \<noteq> 93) (drop b msk) of
           [] \<Rightarrow> None
         | _ # rest \<Rightarrow> Some (take b msk @ takeWhile (\<lambda>c. c \<noteq> 93) (drop b msk), rest))"

definition unit_matches :: "nat \<Rightarrow> nat list \<Rightarrow> bool" where
  "unit_matches r msk = (case msk of
       [] \<Rightarrow> False
     | c # rest \<Rightarrow>
         if c = 63 then True
         else if c = 91 then (case class_split rest of None \<Rightarrow> r = 91 | Some (body, _) \<Rightarrow> characterClass r body)
         else r = c)"

definition unit_next :: "nat list \<Rightarrow> nat list" where
  "unit_next msk = (case msk of
       [] \<Rightarrow> []
     | c # rest \<Rightarrow> if c = 91 then (case class_split rest of None \<Rightarrow> rest | Some (_, after) \<Rightarrow> after) else rest)"

lemma class_split_shorter:
  assumes "class_split msk = Some (body, rest)"
  shows "length rest < length msk"
proof -
  obtain b c where d: "dropWhile (\<lambda>c. c \<noteq> 93) (drop b msk) = c # rest"
    using assms by (auto simp: class_split_def Let_def split: list.splits)
  have "length (c # rest) \<le> length (drop b msk)"
    unfolding d [symmetric] by (rule length_dropWhile_le)
  then show ?thesis by simp
qed

lemma unit_next_shorter: "msk \<noteq> [] \<Longrightarrow> length (unit_next msk) < length msk"
proof (cases msk)
  case (Cons c rest)
  show ?thesis
  proof (cases "class_split rest")
    case None
    with Cons show ?thesis by (simp add: unit_next_def)
  next
    case (Some p)
    then have "length (snd p) < length rest" using class_split_shorter [of rest "fst p" "snd p"] by simp
    with Cons Some show ?thesis by (cases p) (simp add: unit_next_def)
  qed
qed simp

lemma unit_next_le: "length (unit_next msk) \<le> length msk"
  using unit_next_shorter [of msk] by (cases "msk = []") (auto simp: unit_next_def)

function glob_loop :: "nat list \<Rightarrow> nat list \<Rightarrow> (nat list \<times> nat list) option \<Rightarrow> bool" where
  "glob_loop [] msk star = (dropWhile (\<lambda>c. c = 42) msk = [])"
| "glob_loop (r # text) msk star =
     (if msk \<noteq> [] \<and> hd msk = 42 then glob_loop (r # text) (tl msk) (Some (tl msk, r # text))
      else if unit_matches r msk then glob_loop text (unit_next msk) star
      else (case star of
          None \<Rightarrow> False
        | Some (after, restart) \<Rightarrow> glob_loop (tl restart) after (Some (after, tl restart))))"
  by pat_completeness auto
termination
proof (relation "measures [\<lambda>(text, msk, star). max (length msk) (case star of None \<Rightarrow> 0 | Some (after, _) \<Rightarrow> length after),
    \<lambda>(text, msk, star). (case star of None \<Rightarrow> 0 | Some (_, restart) \<Rightarrow> length restart), \<lambda>(text, msk, star). length text]",
    goal_cases)
  case (2 r xs msk star)
  then show ?case by (cases msk) (auto split: option.splits)
next
  case (3 r xs msk star)
  then have "msk \<noteq> []" by (auto simp: unit_matches_def)
  with unit_next_shorter [of msk] show ?case by (auto split: option.splits)
next
  case (4 r xs msk star x after restart)
  then show ?case by (cases restart) (auto)
qed simp

declare glob_loop.simps(2) [simp del]

definition glob :: "string \<Rightarrow> string \<Rightarrow> bool" where
  "glob name pattern = glob_loop (rawRunes name) (rawRunes pattern) None"

section \<open>Governing paths\<close>

definition governing_fixed :: "string list" where
  "governing_fixed = [''AGENTS.md'', ''CLAUDE.md'', ''factory.yaml'', ''factory.config'', ''opencode.json'', ''.opencode'',
     ''.claude'', ''.codex'', ''.github'', ''.gitignore'']"

definition trim_right :: "char \<Rightarrow> string \<Rightarrow> string" where
  "trim_right c s = rev (dropWhile (\<lambda>d. d = c) (rev s))"

definition governing_pattern :: "string \<Rightarrow> string \<Rightarrow> bool" where
  "governing_pattern name pattern =
     (let prefix = trim_right (CHR ''/'') pattern
      in name = prefix \<or> has_prefix (prefix @ ''/'') name \<or> glob name pattern)"

definition governing :: "string \<Rightarrow> string list \<Rightarrow> string list \<Rightarrow> bool" where
  "governing name protected tests \<longleftrightarrow>
     name \<in> set tests \<or> list_ex (governing_pattern name) (governing_fixed @ protected)"

text \<open>\<open>testNames\<close>: the lines of the \<open>grep\<close> answer, cut at every line boundary of Python.\<close>

definition line_boundary :: "nat \<Rightarrow> bool" where
  "line_boundary r \<longleftrightarrow> r \<in> {10, 13, 11, 12, 0x1c, 0x1d, 0x1e, 0x85, 0x2028, 0x2029}"

definition testNames :: "(string list \<Rightarrow> string \<Rightarrow> Execution option) \<Rightarrow> string list \<Rightarrow> string list \<Rightarrow> loop_error + string list" where
  "testNames grep names patterns =
     (if patterns = [] \<or> names = [] then Inr []
      else case probe (grep patterns (concat (map (\<lambda>n. n @ [CHR 0x0A]) names))) of
          None \<Rightarrow> Inl NoFingerprint
        | Some (out, code) \<Rightarrow>
            if code \<noteq> 0 \<and> code \<noteq> 1 then Inl NoFingerprint else Inr (fields_func line_boundary out))"

end
