(* ===== verification/Go_Runes.thy ===== *)
theory Go_Runes
  imports Json_Roundtrip Loop_Glob
begin

text \<open>
  Facts about runes that several components share: decoding reads no further than the rune it returns,
  and a text built from whole runes decodes into them.
\<close>

section \<open>Runes are decoded locally\<close>

lemma decode_one: "ord a < 128 \<Longrightarrow> decode_rune (a # t) = (ord a, 1)"
  by (simp add: decode_rune_def)

lemma decode_two:
  "194 \<le> ord a \<Longrightarrow> ord a \<le> 223 \<Longrightarrow> cont (ord b) \<Longrightarrow>
   decode_rune (a # b # t) = ((ord a mod 32) * 64 + ord b mod 64, 2)"
  by (simp add: decode_rune_def)

lemma decode_three:
  "224 \<le> ord a \<Longrightarrow> ord a \<le> 239 \<Longrightarrow> cont (ord b) \<and> cont (ord c) \<and> (ord a = 224 \<longrightarrow> 160 \<le> ord b) \<and> (ord a = 237 \<longrightarrow> ord b < 160) \<Longrightarrow>
   decode_rune (a # b # c # t) = ((ord a mod 16) * 4096 + (ord b mod 64) * 64 + ord c mod 64, 3)"
  by (simp add: decode_rune_def)

lemma decode_four:
  "240 \<le> ord a \<Longrightarrow> ord a \<le> 244 \<Longrightarrow>
   cont (ord b) \<and> cont (ord c) \<and> cont (ord d) \<and> (ord a = 240 \<longrightarrow> 144 \<le> ord b) \<and> (ord a = 244 \<longrightarrow> ord b < 144) \<Longrightarrow>
   decode_rune (a # b # c # d # t) =
     ((ord a mod 8) * 262144 + (ord b mod 64) * 4096 + (ord c mod 64) * 64 + ord d mod 64, 4)"
  by (simp add: decode_rune_def)

lemma decode_valid_cases:
  assumes "decode_rune (a # t) = (r, n)" and "\<not> (r = rune_error \<and> n = 1)"
  obtains "ord a < 128"
  | b t' where "t = b # t'" "194 \<le> ord a" "ord a \<le> 223" "cont (ord b)"
  | b c t' where "t = b # c # t'" "224 \<le> ord a" "ord a \<le> 239"
      "cont (ord b) \<and> cont (ord c) \<and> (ord a = 224 \<longrightarrow> 160 \<le> ord b) \<and> (ord a = 237 \<longrightarrow> ord b < 160)"
  | b c d t' where "t = b # c # d # t'" "240 \<le> ord a" "ord a \<le> 244"
      "cont (ord b) \<and> cont (ord c) \<and> cont (ord d) \<and> (ord a = 240 \<longrightarrow> 144 \<le> ord b) \<and> (ord a = 244 \<longrightarrow> ord b < 144)"
proof -
  consider "ord a < 128" | "194 \<le> ord a" "ord a \<le> 223" | "224 \<le> ord a" "ord a \<le> 239"
    | "240 \<le> ord a" "ord a \<le> 244"
    | "\<not> ord a < 128" "\<not> (194 \<le> ord a \<and> ord a \<le> 223)" "\<not> (224 \<le> ord a \<and> ord a \<le> 239)"
      "\<not> (240 \<le> ord a \<and> ord a \<le> 244)" by linarith
  then show thesis
  proof cases
    case 1 then show ?thesis by (rule that(1))
  next
    case 2
    with assms that(2) show ?thesis
      by (cases t) (auto simp: decode_rune_def split: if_splits)
  next
    case 3
    show ?thesis
    proof (cases t)
      case Nil with 3 assms show ?thesis by (simp add: decode_rune_def)
    next
      case (Cons b u)
      with 3 assms that(3) show ?thesis by (cases u) (auto simp: decode_rune_def split: if_splits)
    qed
  next
    case 4
    show ?thesis
    proof (cases t)
      case Nil with 4 assms show ?thesis by (simp add: decode_rune_def)
    next
      case t: (Cons b u)
      show ?thesis
      proof (cases u)
        case Nil with 4 t assms show ?thesis by (simp add: decode_rune_def)
      next
        case (Cons c v)
        with 4 t assms that(4) show ?thesis by (cases v) (auto simp: decode_rune_def split: if_splits)
      qed
    qed
  next
    case 5 with assms show ?thesis by (simp add: decode_rune_def)
  qed
qed

lemma decode_rune_local:
  assumes "decode_rune s = (r, n)" and "\<not> (r = rune_error \<and> n = 1)" and "s \<noteq> []"
  shows "decode_rune (take n s @ rest) = (r, n)"
proof -
  from assms(3) obtain a t where s: "s = a # t" by (cases s) auto
  from assms(1) s have d: "decode_rune (a # t) = (r, n)" by simp
  from d assms(2) show ?thesis
  proof (cases rule: decode_valid_cases)
    case 1
    with d have "n = 1" "r = ord a" by (simp_all add: decode_one)
    with 1 s show ?thesis by (simp add: decode_one)
  next
    case (2 b t')
    with d have "n = 2" "r = (ord a mod 32) * 64 + ord b mod 64" by (simp_all add: decode_two)
    with 2 s show ?thesis by (simp add: decode_two)
  next
    case (3 b c t')
    from decode_three [OF 3(2-4), of t'] d 3(1)
    have "n = 3" "r = (ord a mod 16) * 4096 + (ord b mod 64) * 64 + ord c mod 64" by simp_all
    with 3 s decode_three [OF 3(2-4), of rest] show ?thesis by simp
  next
    case (4 b c d' t')
    from decode_four [OF 4(2-4), of t'] d 4(1) have "n = 4" "r = (ord a mod 8) * 262144 + (ord b mod 64) * 4096 + (ord c mod 64) * 64 + ord d' mod 64" by simp_all
    with 4 s decode_four [OF 4(2-4), of rest] show ?thesis by simp
  qed
qed

lemma runes_rune:
  assumes "decode_rune s = (r, n)" and "\<not> (r = rune_error \<and> n = 1)" and "s \<noteq> []"
  shows "runes (take n s @ rest) = (r, take n s) # runes rest" and "\<not> invalid_rune (r, take n s)"
proof -
  have n: "n \<le> length s" "0 < n"
    using assms(1,3) decode_rune_width_le [of s] decode_rune_width_pos [of s] by simp_all
  then have "take n s @ rest \<noteq> []" using assms(3) by simp
  with decode_rune_local [OF assms, of rest] n show "runes (take n s @ rest) = (r, take n s) # runes rest"
    by (subst runes.simps) simp
  show "\<not> invalid_rune (r, take n s)" using assms(2) n by (simp add: invalid_rune_def)
qed

lemma runes_replacement: "runes (encode_rune rune_error @ rest) = (rune_error, encode_rune rune_error) # runes rest"
proof -
  have "decode_rune (encode_rune rune_error @ rest) = (rune_error, 3)"
    by (simp add: encode_rune_def rune_error_def decode_rune_def cont_def)
  moreover have "length (encode_rune rune_error) = 3" by (simp add: encode_rune_def rune_error_def)
  moreover have "encode_rune rune_error @ rest \<noteq> []" by (simp add: encode_rune_def rune_error_def)
  ultimately show ?thesis by (subst runes.simps) simp
qed

section \<open>Surrogateescape\<close>

lemma decode_not_surrogate:
  assumes "decode_rune s = (r, n)" and "\<not> (r = rune_error \<and> n = 1)" and "s \<noteq> []"
  shows "\<not> is_surrogate r"
proof -
  from assms(3) obtain a t where s: "s = a # t" by (cases s) auto
  from assms(1) s have d: "decode_rune (a # t) = (r, n)" by simp
  from d assms(2) show ?thesis
  proof (cases rule: decode_valid_cases)
    case 1
    with d show ?thesis by (simp add: decode_one is_surrogate_def)
  next
    case (2 b t')
    with d have r: "r = (ord a mod 32) * 64 + ord b mod 64" by (simp add: decode_two)
    have "ord a mod 32 \<le> 31" "ord b mod 64 \<le> 63" by simp_all
    then have "r \<le> 31 * 64 + 63" unfolding r by (intro add_mono mult_le_mono1)
    then show ?thesis by (simp add: is_surrogate_def)
  next
    case (3 b c t')
    from decode_three [OF 3(2-4), of t'] d 3(1)
    have r: "r = (ord a mod 16) * 4096 + (ord b mod 64) * 64 + ord c mod 64" by simp
    obtain x where x: "ord a = 224 + x" "x < 16" using 3(2,3) by (intro that [of "ord a - 224"]) auto
    obtain y where y: "ord b = 128 + y" "y < 64" using 3(4) by (intro that [of "ord b - 128"]) (auto simp: cont_def)
    obtain z where z: "ord c = 128 + z" "z < 64" using 3(4) by (intro that [of "ord c - 128"]) (auto simp: cont_def)
    have m: "ord a mod 16 = x" "ord b mod 64 = y" "ord c mod 64 = z" using x y z by (simp_all only: shift_mod)
    have "x = 13 \<longrightarrow> y < 32" using 3(4) x y by auto
    with x y z show ?thesis unfolding r m is_surrogate_def by (cases "x = 13"; linarith)
  next
    case (4 b c d' t')
    from decode_four [OF 4(2-4), of t'] d 4(1)
    have r: "r = (ord a mod 8) * 262144 + (ord b mod 64) * 4096 + (ord c mod 64) * 64 + ord d' mod 64" by simp
    obtain x where x: "ord a = 240 + x" "x < 5" using 4(2,3) by (intro that [of "ord a - 240"]) auto
    obtain y where y: "ord b = 128 + y" "y < 64" using 4(4) by (intro that [of "ord b - 128"]) (auto simp: cont_def)
    have m: "ord a mod 8 = x" "ord b mod 64 = y" using x y by (simp_all only: shift_mod)
    have "x = 0 \<longrightarrow> 16 \<le> y" using 4(4) x y by auto
    with x y have "65536 \<le> r" unfolding r m by (cases "x = 0") auto
    then show ?thesis by (simp add: is_surrogate_def)
  qed
qed

text \<open>The two kinds of runes of a text, by the first of them.\<close>

lemma raw_cases:
  assumes "s \<noteq> []"
  obtains (rune) r n where "decode_rune s = (r, n)" "\<not> (r = rune_error \<and> n = 1)" "0 < n"
      "rawRunes s = r # rawRunes (drop n s)" "RawString s = take n s @ RawString (drop n s)"
  | (byte) c t where "s = c # t" "128 \<le> ord c" "decode_rune s = (rune_error, 1)"
      "rawRunes s = (0xdc00 + ord c) # rawRunes t"
      "RawString s = [chr 237, chr (176 + ord c div 64), chr (128 + ord c mod 64)] @ RawString t"
proof -
  obtain r n where d: "decode_rune s = (r, n)" by force
  have n: "n \<le> length s" "0 < n" using assms d decode_rune_width_le [of s] decode_rune_width_pos [of s] by simp_all
  have rs: "runes s = (r, take n s) # runes (drop n s)" using assms d by (subst runes.simps) simp
  show thesis
  proof (cases "r = rune_error \<and> n = 1")
    case False
    then have "\<not> invalid_rune (r, take n s)" using n by (auto simp: invalid_rune_def)
    with False d n rs rune show ?thesis by (simp add: rawRunes_def RawString_def raw_rune_value_def raw_rune_def)
  next
    case True
    from assms obtain c t where s: "s = c # t" by (cases s) auto
    have "128 \<le> ord c"
    proof (rule ccontr)
      assume "\<not> 128 \<le> ord c"
      then show False using d s True by (simp add: decode_one rune_error_def)
    qed
    moreover have "invalid_rune (r, take n s)" using True s by (simp add: invalid_rune_def)
    ultimately show ?thesis
      using True d s rs byte by (simp add: rawRunes_def RawString_def raw_rune_value_def raw_rune_def)
  qed
qed

lemma rawRunes_Nil [simp]: "rawRunes [] = []" "RawString [] = []"
  by (simp_all add: rawRunes_def RawString_def runes.simps)

lemma canon_runes_RawString: "canon_runes (RawString s) = Some (rawRunes s)"
proof (induction "length s" arbitrary: s rule: less_induct)
  case less
  show ?case
  proof (cases "s = []")
    case False
    then show ?thesis
    proof (cases rule: raw_cases)
      case (rune r n)
      from less [of "drop n s"] rune(3) False have IH: "canon_runes (RawString (drop n s)) = Some (rawRunes (drop n s))" by simp
      have "n \<le> length s" using decode_rune_width_le [of s] rune(1) by simp
      with rune False decode_rune_local [OF rune(1,2) False] IH show ?thesis
        unfolding rune(4,5) by (subst canon_runes.simps) auto
    next
      case (byte c t)
      let ?b = "ord c"
      from less [of t] byte(1) have IH: "canon_runes (RawString t) = Some (rawRunes t)" by simp
      have b: "?b < 256" by simp
      have q: "2 \<le> ?b div 64" "?b div 64 < 4" "?b mod 64 < 64"
        using byte(2) b less_mult_imp_div_less [of ?b 4 64] by linarith+
      then have o: "ord (chr (176 + ?b div 64)) = 176 + ?b div 64" "ord (chr (128 + ?b mod 64)) = 128 + ?b mod 64"
        "ord (chr 237) = 237"
        by (auto intro!: ord_chr)
      let ?s = "[chr 237, chr (176 + ?b div 64), chr (128 + ?b mod 64)] @ RawString t"
      have "decode_rune ?s = (rune_error, 1)" using o q by (simp add: decode_rune_def)
      moreover have "wtf8_surrogate_at ?s = Some (0xdc00 + ?b)"
      proof -
        have "(176 + ?b div 64) mod 64 = 48 + ?b div 64" using q by (simp add: mod_if)
        moreover have "(128 + ?b mod 64) mod 64 = ?b mod 64" using q(3) by (simp only: shift_mod)
        moreover have "?b div 64 * 64 + ?b mod 64 = ?b" by simp
        ultimately show ?thesis using o q by (simp add: wtf8_surrogate_at_def)
      qed
      ultimately show ?thesis unfolding byte(4,5) using IH by (subst canon_runes.simps) simp
    qed
  qed (simp add: canon_runes.simps)
qed

lemma rawRunes_inject: "rawRunes s = rawRunes t \<Longrightarrow> s = t"
proof (induction "length s" arbitrary: s t rule: less_induct)
  case less
  show ?case
  proof (cases "s = [] \<or> t = []")
    case True
    have "rawRunes u = [] \<Longrightarrow> u = []" for u by (cases "u = []") (auto elim: raw_cases [of u])
    with True less.prems show ?thesis by (metis rawRunes_Nil(1))
  next
    case False
    then have ne: "s \<noteq> []" "t \<noteq> []" by simp_all
    from ne(1) show ?thesis
    proof (cases rule: raw_cases)
      case (rune r n)
      from ne(2) show ?thesis
      proof (cases rule: raw_cases)
        case t: (rune r' n')
        from less.prems rune(4) t(4) have eq: "r = r'" "rawRunes (drop n s) = rawRunes (drop n' t)" by simp_all
        from less.hyps [OF _ eq(2)] rune(3) ne(1) have "drop n s = drop n' t" by simp
        moreover have "take n s = take n' t"
          using decode_rune_wtf8 [OF rune(1) ne(1) rune(2)] decode_rune_wtf8 [OF t(1) ne(2) t(2)] eq(1) by simp
        ultimately show ?thesis by (metis append_take_drop_id)
      next
        case t: (byte c u)
        with less.prems rune(4) have "r = 0xdc00 + ord c" by simp
        moreover have "ord c < 256" by (rule ord_less)
        ultimately have "is_surrogate r" unfolding is_surrogate_def using t(2) by linarith
        with decode_not_surrogate [OF rune(1,2) ne(1)] show ?thesis by simp
      qed
    next
      case (byte c u)
      from ne(2) show ?thesis
      proof (cases rule: raw_cases)
        case t: (rune r' n')
        with less.prems byte(4) have "r' = 0xdc00 + ord c" by simp
        moreover have "ord c < 256" by (rule ord_less)
        ultimately have "is_surrogate r'" unfolding is_surrogate_def using byte(2) by linarith
        with decode_not_surrogate [OF t(1,2) ne(2)] show ?thesis by simp
      next
        case t: (byte c' u')
        from less.prems byte(4) t(4) have "c = c'" "rawRunes u = rawRunes u'" by simp_all
        with less.hyps [of u u'] byte(1) t(1) show ?thesis by simp
      qed
    qed
  qed
qed

lemma RawString_inject [simp]: "RawString s = RawString t \<longleftrightarrow> s = t"
  using canon_runes_RawString [of s] canon_runes_RawString [of t] rawRunes_inject by (metis option.inject)

lemma rawRunes_no_high: "list_all (\<lambda>r. \<not> is_high_surrogate r) (rawRunes s)"
proof (induction "length s" arbitrary: s rule: less_induct)
  case less
  show ?case
  proof (cases "s = []")
    case False
    then show ?thesis
    proof (cases rule: raw_cases)
      case (rune r n)
      with less [of "drop n s"] False decode_not_surrogate [OF rune(1,2) False] show ?thesis
        by (auto simp: is_high_surrogate_def is_surrogate_def)
    next
      case (byte c t)
      with less [of t] show ?thesis by (simp add: is_high_surrogate_def)
    qed
  qed simp
qed

lemma unpaired_no_high: "list_all (\<lambda>r. \<not> is_high_surrogate r) rs \<Longrightarrow> unpaired rs"
  by (induction rs rule: unpaired.induct) auto

lemma canonical_RawString: "canonical_string (RawString s)"
  using rawRunes_no_high by (simp add: canonical_string_def canon_runes_RawString unpaired_no_high)

end
