(* ===== verification/Loop_Inputs.thy ===== *)
theory Loop_Inputs
  imports Loop_Sample Go_Runes
begin

text \<open>
  Properties of the pure inputs of the loop controller: diagnostic output is repaired into valid UTF-8
  before it reaches a prompt, a stored checkpoint is always found under its own key, and a resume
  assessment is confined to a finished manual run over the unchanged checkout.
\<close>

section \<open>Diagnostics\<close>

lemma diagnostic_valid: "utf8_valid (diagnosticText data)"
proof (induction "length data" arbitrary: data rule: less_induct)
  case less
  show ?case
  proof (cases "data = []")
    case True then show ?thesis by (simp add: diagnosticText.simps utf8_valid_def runes.simps)
  next
    case False
    obtain r n where d: "decode_rune data = (r, n)" by force
    show ?thesis
    proof (cases "r = rune_error \<and> n = 1")
      case False': False
      have "0 < n" using d False decode_rune_width_pos [of data] by simp
      with less [of "drop n data"] False have IH: "utf8_valid (diagnosticText (drop n data))" by simp
      have "diagnosticText data = take n data @ diagnosticText (drop n data)"
        using d False False' by (subst diagnosticText.simps) auto
      with IH runes_rune(1) [OF d False' False, of "diagnosticText (drop n data)"] runes_rune(2) [OF d False' False] show ?thesis
        by (simp add: utf8_valid_def)
    next
      case True
      let ?bs = "map ord data"
      let ?k = "continuation (hd ?bs) 1 (sequence_length (hd ?bs)) (tl ?bs)"
      have eq: "diagnosticText data = encode_rune rune_error @ diagnosticText (drop ?k data)"
        using d False True by (subst diagnosticText.simps) (simp add: Let_def)
      have "1 \<le> ?k" using continuation_ge [of 1 "hd ?bs" "sequence_length (hd ?bs)" "tl ?bs"] by simp
      with less [of "drop ?k data"] False have IH: "utf8_valid (diagnosticText (drop ?k data))"
        by (metis One_nat_def diff_less length_drop length_greater_0_conv not_less_eq_eq zero_less_iff_neq_zero not_gr0 le_zero_eq)
      have "length (encode_rune rune_error) = 3" by (simp add: encode_rune_def rune_error_def)
      with IH show ?thesis
        unfolding eq by (simp add: utf8_valid_def runes_replacement invalid_rune_def)
    qed
  qed
qed

lemma diagnostic_identity: "utf8_valid data \<Longrightarrow> diagnosticText data = data"
proof (induction "length data" arbitrary: data rule: less_induct)
  case less
  show ?case
  proof (cases "data = []")
    case True then show ?thesis by (simp add: diagnosticText.simps)
  next
    case False
    obtain r n where d: "decode_rune data = (r, n)" by force
    have n: "n \<le> length data" "0 < n"
      using d False decode_rune_width_le [of data] decode_rune_width_pos [of data] by simp_all
    have "runes data = (r, take n data) # runes (drop n data)" using False d by (subst runes.simps) simp
    with less.prems n have ok: "r \<noteq> rune_error \<or> n \<noteq> 1" and v: "utf8_valid (drop n data)"
      by (auto simp: utf8_valid_def invalid_rune_def)
    from False n have "diagnosticText (drop n data) = drop n data" using less.hyps [OF _ v] by simp
    with False d ok show ?thesis by (subst diagnosticText.simps) auto
  qed
qed

text \<open>C38: The text a check or a reviewer reports back is valid UTF-8 whatever bytes the process wrote, so
  it can be stored in a checkpoint and put into a prompt, and output that was valid already is passed on
  unchanged; repairing twice changes nothing.\<close>

theorem diagnosticText_repairs:
  "utf8_valid (diagnosticText data) \<and> (diagnosticText data = data \<longleftrightarrow> utf8_valid data) \<and>
   diagnosticText (diagnosticText data) = diagnosticText data"
  using diagnostic_valid [of data] diagnostic_identity [of data] diagnostic_identity [OF diagnostic_valid, of data]
  by metis

section \<open>Checkpoint histories\<close>

lemma validateCheckpoints_rows:
  assumes "validateCheckpoints vs seen"
  shows "\<exists>rs. vs = map JObj rs \<and> list_all checkpoint_fields_ok rs \<and> list_all (\<lambda>r. checkpoint_key r \<noteq> None) rs \<and>
    distinct (map (\<lambda>r. the (checkpoint_key r)) rs) \<and> the ` checkpoint_key ` set rs \<inter> set seen = {}"
  using assms
proof (induction vs arbitrary: seen)
  case (Cons v vs)
  then obtain r key where v: "v = JObj r" "checkpoint_key r = Some key" "key \<notin> set seen" "checkpoint_fields_ok r"
    "validateCheckpoints vs (key # seen)"
    by (auto split: jval.splits option.splits)
  from Cons.IH [OF v(5)] obtain rs where "vs = map JObj rs" "list_all checkpoint_fields_ok rs"
    "list_all (\<lambda>r. checkpoint_key r \<noteq> None) rs" "distinct (map (\<lambda>r. the (checkpoint_key r)) rs)"
    "the ` checkpoint_key ` set rs \<inter> set (key # seen) = {}" by blast
  with v show ?case by (intro exI [of _ "r # rs"]) (auto simp: image_image)
qed simp

lemma validateHistory_l_rows:
  assumes "validateHistory_l h = Inr ()"
  shows "list_all checkpoint_fields_ok (rows h) \<and> list_all (\<lambda>r. checkpoint_key r \<noteq> None) (rows h) \<and>
    distinct (map (\<lambda>r. the (checkpoint_key r)) (rows h))"
proof -
  from assms obtain vs where vs: "jat h ''runs'' = JArr vs" "validateCheckpoints vs []"
    by (auto simp: validateHistory_l_def split: if_splits jval.splits)
  from validateCheckpoints_rows [OF vs(2)] obtain rs where rs: "vs = map JObj rs" "list_all checkpoint_fields_ok rs"
    "list_all (\<lambda>r. checkpoint_key r \<noteq> None) rs" "distinct (map (\<lambda>r. the (checkpoint_key r)) rs)" by blast
  with vs(1) have "rows h = rs" by (simp add: rows_runs)
  with rs show ?thesis by simp
qed

lemma find_unique:
  assumes "x \<in> set xs" and "P x" and "\<And>y. y \<in> set xs \<Longrightarrow> P y \<Longrightarrow> y = x"
  shows "find P xs = Some x"
  using assms
proof (induction xs)
  case (Cons z zs)
  show ?case
  proof (cases "P z")
    case True
    with Cons.prems(3) [OF _ True] have "z = x" by simp
    with True show ?thesis by simp
  next
    case False
    with Cons.prems(1,2) have "x \<in> set zs" by auto
    have "find P zs = Some x"
      by (rule Cons.IH [OF \<open>x \<in> set zs\<close> Cons.prems(2)]) (rule Cons.prems(3), simp)
    with False show ?thesis by simp
  qed
qed simp

lemma checkpoint_key_Some:
  "checkpoint_key r = Some (s, t) \<longleftrightarrow> jat r ''session'' = JStr s \<and> jat r ''task'' = JStr t \<and> validID s \<and> validID t"
  by (cases "jat r ''session''"; cases "jat r ''task''") (simp_all add: checkpoint_key_def, auto)

lemma find_checkpoint:
  assumes "validateHistory_l h = Inr ()" and "r \<in> set (rows h)" and "checkpoint_key r = Some (s, t)"
  shows "find (\<lambda>r. jat r ''session'' = JStr s \<and> jat r ''task'' = JStr t) (rows h) = Some r"
proof (rule find_unique [OF assms(2)])
  show "jat r ''session'' = JStr s \<and> jat r ''task'' = JStr t" using assms(3) by (simp add: checkpoint_key_Some)
  fix y
  assume y: "y \<in> set (rows h)" "jat y ''session'' = JStr s \<and> jat y ''task'' = JStr t"
  with assms(3) have key: "checkpoint_key y = Some (s, t)" by (simp add: checkpoint_key_Some)
  from validateHistory_l_rows [OF assms(1)] have "inj_on (\<lambda>r. the (checkpoint_key r)) (set (rows h))"
    by (simp add: distinct_map)
  then show "y = r" by (rule inj_onD) (use key assms y(1) in simp_all)
qed

text \<open>Every checkpoint of an accepted history has its own valid (session, task) key and is the one
  \<open>Lookup\<close> returns for that key; the other required fields satisfy the schema.\<close>

theorem checkpoint_found:
  assumes "validateHistory_l h = Inr ()" and "r \<in> set (rows h)"
  shows "\<exists>s t. checkpoint_key r = Some (s, t) \<and> checkpoint_fields_ok r \<and> Lookup h s t = Inr r"
proof -
  from validateHistory_l_rows [OF assms(1)] assms(2)
  obtain s t where k: "checkpoint_key r = Some (s, t)" and f: "checkpoint_fields_ok r"
    by (auto simp: list_all_iff)
  with assms find_checkpoint [OF assms k] show ?thesis by (auto simp: Lookup_def checkpoint_key_Some result_simps)
qed

lemma checkpoint_found_witness:
  "validateHistory_l (lhist first_row) = Inr () \<and>
   (\<exists>s t. checkpoint_key first_row = Some (s, t) \<and> Lookup (lhist first_row) s t = Inr first_row)"
proof -
  have fine: "fine_row first_row" by (simp add: first_row_def lrow_fine)
  have "first_row \<in> set (rows (lhist first_row))" by (simp add: lhist_def rows_def row_of_def)
  from checkpoint_found [OF lhist_valid [OF fine] this] lhist_valid [OF fine] show ?thesis by auto
qed

end
