(* ===== verification/Loop_Glob_Props.thy ===== *)
theory Loop_Glob_Props
  imports Loop_Glob
begin

text \<open>
  The matcher with one restart point decides the declarative relation \<open>fnmatches\<close>, in which a star stands
  for any text; so dropping the earlier restart points loses nothing.
\<close>

section \<open>The reference relation\<close>

inductive fnmatches :: "nat list \<Rightarrow> nat list \<Rightarrow> bool" where
  finished: "fnmatches [] []"
| star: "fnmatches msk ys \<Longrightarrow> fnmatches (42 # msk) (xs @ ys)"
| unit: "msk \<noteq> [] \<Longrightarrow> hd msk \<noteq> 42 \<Longrightarrow> unit_matches r msk \<Longrightarrow> fnmatches (unit_next msk) xs \<Longrightarrow> fnmatches msk (r # xs)"

inductive_cases fnmatches_NilE: "fnmatches [] xs"
inductive_cases fnmatches_ConsE: "fnmatches (c # msk) xs"

lemma fnmatches_Nil [simp]: "fnmatches [] xs \<longleftrightarrow> xs = []"
  by (auto elim: fnmatches_NilE intro: fnmatches.intros)

lemma fnmatches_star: "fnmatches (42 # msk) xs \<longleftrightarrow> (\<exists>k \<le> length xs. fnmatches msk (drop k xs))"
proof
  assume "fnmatches (42 # msk) xs"
  then obtain ys zs where "xs = ys @ zs" "fnmatches msk zs" by (auto elim: fnmatches_ConsE)
  then show "\<exists>k \<le> length xs. fnmatches msk (drop k xs)" by (intro exI [of _ "length ys"]) simp
next
  assume "\<exists>k \<le> length xs. fnmatches msk (drop k xs)"
  then obtain k where "fnmatches msk (drop k xs)" by blast
  from fnmatches.star [OF this, of "take k xs"] show "fnmatches (42 # msk) xs" by simp
qed

lemma fnmatches_unit:
  assumes "msk \<noteq> []" and "hd msk \<noteq> 42"
  shows "fnmatches msk (r # xs) \<longleftrightarrow> unit_matches r msk \<and> fnmatches (unit_next msk) xs"
  using assms by (cases msk) (auto elim: fnmatches_ConsE intro: fnmatches.unit)

lemma fnmatches_absorb:
  assumes "fnmatches (42 # msk) (drop k xs)"
  shows "fnmatches (42 # msk) xs"
proof -
  from assms obtain j where "fnmatches msk (drop j (drop k xs))" unfolding fnmatches_star by blast
  from fnmatches.star [OF this, of "take (j + k) xs"] show ?thesis by simp
qed

lemma fnmatches_empty: "fnmatches msk [] \<longleftrightarrow> dropWhile (\<lambda>c. c = 42) msk = []"
proof (induction msk)
  case (Cons c msk)
  show ?case
  proof (cases "c = 42")
    case True
    with Cons.IH show ?thesis by (simp add: fnmatches_star)
  next
    case False
    then show ?thesis by (auto elim: fnmatches_ConsE)
  qed
qed simp

section \<open>The attempt since the last star\<close>

primrec unit_steps :: "nat \<Rightarrow> nat list \<Rightarrow> nat list \<Rightarrow> bool" where
  "unit_steps 0 after msk = (msk = after)"
| "unit_steps (Suc n) after msk = (after \<noteq> [] \<and> hd after \<noteq> 42 \<and> unit_steps n (unit_next after) msk)"

lemma unit_steps_snoc:
  "unit_steps n after msk \<Longrightarrow> msk \<noteq> [] \<Longrightarrow> hd msk \<noteq> 42 \<Longrightarrow> unit_steps (Suc n) after (unit_next msk)"
proof (induction n arbitrary: after)
  case (Suc n)
  then have "unit_steps (Suc n) (unit_next after) (unit_next msk)" by simp
  with Suc.prems show ?case by simp
qed simp

lemma unit_steps_match: "unit_steps n after msk \<Longrightarrow> fnmatches after zs \<Longrightarrow> n \<le> length zs \<and> fnmatches msk (drop n zs)"
proof (induction n arbitrary: after zs)
  case (Suc n)
  then have a: "after \<noteq> []" "hd after \<noteq> 42" "unit_steps n (unit_next after) msk" by simp_all
  with Suc.prems(2) obtain r ys where "zs = r # ys" by (cases zs; cases after) (auto simp: fnmatches_empty)
  with a Suc.prems(2) Suc.IH [OF a(3), of ys] show ?case by (simp add: fnmatches_unit)
qed simp

definition attempt :: "nat list \<Rightarrow> nat list \<Rightarrow> (nat list \<times> nat list) option \<Rightarrow> bool" where
  "attempt xs msk star = (case star of
       None \<Rightarrow> True
     | Some (after, restart) \<Rightarrow> \<exists>n \<le> length restart. unit_steps n after msk \<and> xs = drop n restart)"

definition later :: "(nat list \<times> nat list) option \<Rightarrow> bool" where
  "later star = (case star of
       None \<Rightarrow> False
     | Some (after, restart) \<Rightarrow> \<exists>k. 0 < k \<and> k \<le> length restart \<and> fnmatches after (drop k restart))"

lemma later_match:
  assumes "attempt xs msk star" and "later star"
  shows "\<exists>k > 0. k \<le> length xs \<and> fnmatches msk (drop k xs)"
proof -
  from assms(2) obtain after restart where star: "star = Some (after, restart)" by (auto simp: later_def split: option.splits)
  from assms(1) obtain n where n: "n \<le> length restart" "unit_steps n after msk" "xs = drop n restart"
    unfolding star attempt_def by auto
  from assms(2) obtain k where k: "0 < k" "k \<le> length restart" "fnmatches after (drop k restart)"
    unfolding star later_def by auto
  from unit_steps_match [OF n(2) k(3)] have "n \<le> length restart - k" "fnmatches msk (drop n (drop k restart))" by simp_all
  moreover have "drop n (drop k restart) = drop k xs" using n by (simp add: add.commute)
  ultimately show ?thesis using n k by (intro exI [of _ k]) auto
qed

lemma later_restart:
  assumes "restart \<noteq> []"
  shows "later (Some (after, restart)) \<longleftrightarrow> fnmatches after (tl restart) \<or> later (Some (after, tl restart))"
proof -
  obtain r rs where r: "restart = r # rs" using assms by (cases restart) auto
  have "(\<exists>k. 0 < k \<and> k \<le> length restart \<and> fnmatches after (drop k restart)) \<longleftrightarrow>
      (\<exists>j \<le> length rs. fnmatches after (drop j rs))"
    unfolding r by (auto simp: gr0_conv_Suc)
  also have "\<dots> \<longleftrightarrow> fnmatches after rs \<or> (\<exists>j. 0 < j \<and> j \<le> length rs \<and> fnmatches after (drop j rs))"
    using drop_0 not_gr_zero by (metis le0)
  finally show ?thesis by (simp add: later_def r)
qed

lemma glob_loop_fnmatches:
  "attempt xs msk star \<Longrightarrow> glob_loop xs msk star \<longleftrightarrow> fnmatches msk xs \<or> later star"
proof (induction xs msk star rule: glob_loop.induct)
  case (1 msk star)
  have "\<not> later star" using later_match [OF "1.prems"] by auto
  then show ?case by (simp add: fnmatches_empty)
next
  case (2 r xs msk star)
  consider (star) ms where "msk = 42 # ms" | (unit) "\<not> (msk \<noteq> [] \<and> hd msk = 42)" "unit_matches r msk"
    | (fail) "\<not> (msk \<noteq> [] \<and> hd msk = 42)" "\<not> unit_matches r msk"
    by (cases msk) auto
  then show ?case
  proof cases
    case star
    have "attempt (r # xs) ms (Some (ms, r # xs))" by (auto simp: attempt_def intro: exI [of _ 0])
    with "2.IH"(1) star have "glob_loop (r # xs) msk star \<longleftrightarrow> fnmatches ms (r # xs) \<or> later (Some (ms, r # xs))"
      by (subst glob_loop.simps) simp
    also have "\<dots> \<longleftrightarrow> (\<exists>k \<le> length (r # xs). fnmatches ms (drop k (r # xs)))"
      by (auto simp: later_def) (metis drop_0 gr0I length_Cons)
    finally have "glob_loop (r # xs) msk star \<longleftrightarrow> fnmatches msk (r # xs)" by (simp only: fnmatches_star star)
    moreover have "later star \<Longrightarrow> fnmatches msk (r # xs)"
      using later_match [OF "2.prems"] fnmatches_absorb star by blast
    ultimately show ?thesis by blast
  next
    case unit
    then have ne: "msk \<noteq> []" "hd msk \<noteq> 42" by (auto simp: unit_matches_def)
    have "attempt xs (unit_next msk) star"
    proof (cases star)
      case (Some p)
      with "2.prems" obtain n where n: "unit_steps n (fst p) msk" "r # xs = drop n (snd p)"
        by (auto simp: attempt_def split: prod.splits)
      from n(2) have "n < length (snd p)" by (metis drop_all leI list.distinct(1))
      moreover from n(2) have "xs = drop (Suc n) (snd p)" by (metis drop_Suc list.sel(3) tl_drop)
      ultimately have "Suc n \<le> length (snd p) \<and> unit_steps (Suc n) (fst p) (unit_next msk) \<and> xs = drop (Suc n) (snd p)"
        using unit_steps_snoc [OF n(1) ne] by simp
      with Some show ?thesis by (auto simp: attempt_def simp del: unit_steps.simps split: prod.splits)
    qed (simp add: attempt_def)
    from "2.IH"(2) [OF unit this] unit show ?thesis
      by (subst glob_loop.simps) (use ne in \<open>simp add: fnmatches_unit [OF ne]\<close>)
  next
    case fail
    then have no: "\<not> fnmatches msk (r # xs)" by (cases "msk = []") (simp_all add: fnmatches_unit)
    show ?thesis
    proof (cases star)
      case None
      with fail no show ?thesis by (subst glob_loop.simps) (auto simp: later_def)
    next
      case (Some p)
      obtain after restart where p: "p = (after, restart)" by force
      from "2.prems" have "restart \<noteq> []" unfolding Some p attempt_def by auto
      moreover have "attempt (tl restart) after (Some (after, tl restart))" by (auto simp: attempt_def intro: exI [of _ 0])
      ultimately show ?thesis
        using "2.IH"(3) [OF fail Some p [symmetric]] fail no later_restart [of restart after]
        unfolding Some p by (subst glob_loop.simps) auto
    qed
  qed
qed

text \<open>C39: The path matcher agrees with the declarative reading of a pattern on every path and pattern: a
  star stands for any text, separators included, every other unit for one rune.  The loop needs only one
  restart point and always ends.\<close>

theorem glob_fnmatches: "glob name pattern \<longleftrightarrow> fnmatches (rawRunes pattern) (rawRunes name)"
  using glob_loop_fnmatches [of "rawRunes name" "rawRunes pattern" None] by (simp add: glob_def attempt_def later_def)

end
