(* ===== verification/Loop_Snapshot.thy ===== *)
theory Loop_Snapshot
  imports Loop_Glob
begin

text \<open>
  The source and safety fingerprint (\<open>internal/loop/files.go\<close>, \<open>snapshot.go\<close>).  A checkout is what
  \<open>Lstat\<close> sees at each path while it is inspected: an entry that cannot be opened or read, or that changes
  identity, size or mode between the observations of it, is \<open>Unreadable\<close>.  The answers of the \<open>git\<close> and
  \<open>grep\<close> children and the hash are parameters.
\<close>

section \<open>Checkouts\<close>

datatype entry =
    Missing
  | Unreadable
  | Link nat string
  | Regular nat string
  | Directory "string list"
  | Special

type_synonym checkout = "string \<Rightarrow> entry"

definition join_path :: "string \<Rightarrow> string \<Rightarrow> string" where
  "join_path base name = base @ ''/'' @ name"

definition mode_bits :: "nat \<Rightarrow> int" where
  "mode_bits m = int (m mod 4096)"

definition sourceFileLimit :: nat where "sourceFileLimit = 67108864"
definition sourceTotalLimit :: nat where "sourceTotalLimit = 536870912"
definition nativeFileLimit :: nat where "nativeFileLimit = 1048576"
definition nativeTotalLimit :: nat where "nativeTotalLimit = 8388608"

text \<open>\<open>hashFile\<close> reads pieces of at most 32 KiB and counts each against both limits before it goes on;
  the answer is the new total.\<close>

function hash_reads :: "nat \<Rightarrow> nat \<Rightarrow> string \<Rightarrow> nat \<Rightarrow> nat \<Rightarrow> loop_error + nat" where
  "hash_reads limit total_limit rest seen used =
     (let n = min 32768 (length rest)
      in if seen + n > limit \<or> used + n > total_limit then Inl NoFingerprint
         else if n = 0 then Inr used
         else hash_reads limit total_limit (drop n rest) (seen + n) (used + n))"
  by pat_completeness auto
termination by (relation "measure (\<lambda>(_, _, rest, _). length rest)") auto

declare hash_reads.simps [simp del]

definition hashFile :: "(string \<Rightarrow> string) \<Rightarrow> nat \<Rightarrow> nat \<Rightarrow> string \<Rightarrow> nat \<Rightarrow> loop_error + (string \<times> nat)" where
  "hashFile sha limit total_limit data used =
     bindE (hash_reads limit total_limit data 0 used) (\<lambda>used'. Inr (sha data, used'))"

definition content :: "(string \<Rightarrow> string) \<Rightarrow> checkout \<Rightarrow> string \<Rightarrow> nat \<Rightarrow> loop_error + (jval \<times> nat)" where
  "content sha tree path used = (case tree path of
       Missing \<Rightarrow> Inr (JNull, used)
     | Link m target \<Rightarrow>
         if used + length target > sourceTotalLimit then Inl NoFingerprint
         else Inr (JArr [JInt (mode_bits m), JStr (sha target)], used + length target)
     | Regular m data \<Rightarrow>
         if length data > sourceFileLimit then Inl NoFingerprint
         else bindE (hashFile sha sourceFileLimit sourceTotalLimit data used) (\<lambda>(hash, used').
                Inr (JArr [JInt (mode_bits m), JStr hash], used'))
     | _ \<Rightarrow> Inl NoFingerprint)"

section \<open>Native policy\<close>

definition is_link :: "entry \<Rightarrow> bool" where
  "is_link e = (case e of Link _ _ \<Rightarrow> True | _ \<Rightarrow> False)"

fun ancestor_checks :: "checkout \<Rightarrow> string \<Rightarrow> string list \<Rightarrow> bool" where
  "ancestor_checks tree current [] = True"
| "ancestor_checks tree current (part # parts) =
     (let next = join_path current part
      in tree next \<noteq> Unreadable \<and> \<not> is_link (tree next) \<and> ancestor_checks tree next parts)"

definition safeAncestors :: "checkout \<Rightarrow> string \<Rightarrow> string \<Rightarrow> loop_error + unit" where
  "safeAncestors tree base name =
     (if ancestor_checks tree base (split_on (CHR ''/'') name) then Inr () else Inl NoFingerprint)"

text \<open>The children of one directory: what is appended to \<open>files\<close> and \<open>dirs\<close>.\<close>

fun sort_children :: "checkout \<Rightarrow> string \<Rightarrow> string \<Rightarrow> string list \<Rightarrow> loop_error + (string list \<times> string list)" where
  "sort_children tree base name [] = Inr ([], [])"
| "sort_children tree base name (child # children) =
     (let child_name = name @ ''/'' @ child
      in case tree (join_path base child_name) of
          Missing \<Rightarrow> Inl NoFingerprint
        | Unreadable \<Rightarrow> Inl NoFingerprint
        | Link _ _ \<Rightarrow> Inl NoFingerprint
        | Directory _ \<Rightarrow> bindE (safeAncestors tree base child_name) (\<lambda>_.
            bindE (sort_children tree base name children) (\<lambda>(files, dirs). Inr (files, child_name # dirs)))
        | _ \<Rightarrow> bindE (sort_children tree base name children) (\<lambda>(files, dirs). Inr (child_name # files, dirs)))"

text \<open>\<open>walk\<close> carries the number of entries seen and the files collected; the fuel bounds the depth, and
  \<open>None\<close> is running out of it.\<close>

type_synonym walked = "(loop_error + (nat \<times> string list)) option"

fun walk_list :: "(string \<Rightarrow> nat \<times> string list \<Rightarrow> walked) \<Rightarrow> string list \<Rightarrow> nat \<times> string list \<Rightarrow> walked" where
  "walk_list step [] st = Some (Inr st)"
| "walk_list step (d # ds) st = (case step d st of
       None \<Rightarrow> None
     | Some (Inl e) \<Rightarrow> Some (Inl e)
     | Some (Inr st') \<Rightarrow> walk_list step ds st')"

definition walk_directory :: "(string \<Rightarrow> nat \<times> string list \<Rightarrow> walked) \<Rightarrow> checkout \<Rightarrow> string \<Rightarrow> string \<Rightarrow> nat \<times> string list \<Rightarrow>
    string list \<Rightarrow> walked" where
  "walk_directory step tree base name st children =
     (if fst st + length children > 512 then Some (Inl NoFingerprint)
      else (case sort_children tree base name children of
          Inl e \<Rightarrow> Some (Inl e)
        | Inr (files, dirs) \<Rightarrow>
            if length (snd st @ files) + length dirs > 512 then Some (Inl NoFingerprint)
            else walk_list step dirs (fst st + length children, snd st @ files)))"

primrec walk :: "nat \<Rightarrow> checkout \<Rightarrow> string \<Rightarrow> string \<Rightarrow> nat \<times> string list \<Rightarrow> walked" where
  "walk 0 tree base name st = None"
| "walk (Suc fuel) tree base name st = (case tree (join_path base name) of
       Directory listing \<Rightarrow> walk_directory (walk fuel tree base) tree base name st (take 513 listing)
     | _ \<Rightarrow> Some (Inl NoFingerprint))"

definition native_files :: "string list" where
  "native_files = [''opencode.json'', ''opencode.jsonc'', ''.opencode/opencode.json'', ''.opencode/opencode.jsonc'',
     ''.claude/settings.json'', ''.claude/settings.local.json'', ''.claude/CLAUDE.md'', ''.codex/config.toml'',
     ''.codex/AGENTS.md'', ''.codex/hooks.json'']"

definition native_trees :: "string list" where
  "native_trees = [''.opencode/agent'', ''.opencode/agents'', ''.opencode/plugin'', ''.opencode/plugins'',
     ''.claude/agents'', ''.claude/rules'', ''.claude/hooks'', ''.codex/agents'', ''.codex/rules'', ''.codex/hooks'']"

text \<open>The inventory of the known trees: whether each exists, and every file below it.\<close>

fun native_inventory :: "nat \<Rightarrow> checkout \<Rightarrow> string \<Rightarrow> string list \<Rightarrow> nat \<times> string list \<Rightarrow> (string \<times> jval) list \<Rightarrow>
    (loop_error + (string list \<times> (string \<times> jval) list)) option" where
  "native_inventory fuel tree base [] st values = Some (Inr (snd st, values))"
| "native_inventory fuel tree base (name # trees) st values = (case safeAncestors tree base name of
       Inl e \<Rightarrow> Some (Inl e)
     | Inr _ \<Rightarrow> (case tree (join_path base name) of
           Missing \<Rightarrow> native_inventory fuel tree base trees st (jset (name @ ''/'') (JBool False) values)
         | Directory _ \<Rightarrow> (case walk fuel tree base name st of
               None \<Rightarrow> None
             | Some (Inl e) \<Rightarrow> Some (Inl e)
             | Some (Inr st') \<Rightarrow> native_inventory fuel tree base trees st' (jset (name @ ''/'') (JBool True) values))
         | _ \<Rightarrow> Some (Inl NoFingerprint)))"

fun native_contents :: "(string \<Rightarrow> string) \<Rightarrow> checkout \<Rightarrow> string \<Rightarrow> string list \<Rightarrow> nat \<Rightarrow> nat \<Rightarrow> (string \<times> jval) list \<Rightarrow>
    loop_error + (string \<times> jval) list" where
  "native_contents sha tree base [] used stat_total values = Inr values"
| "native_contents sha tree base (name # names) used stat_total values =
     bindE (safeAncestors tree base name) (\<lambda>_. case tree (join_path base name) of
       Missing \<Rightarrow> native_contents sha tree base names used stat_total (jset (RawString name) JNull values)
     | Regular m data \<Rightarrow>
         if length data > nativeFileLimit \<or> stat_total + length data > nativeTotalLimit then Inl NoFingerprint
         else bindE (hashFile sha nativeFileLimit nativeTotalLimit data used) (\<lambda>(hash, used').
                native_contents sha tree base names used' (stat_total + length data)
                  (jset (RawString name) (JArr [JInt (mode_bits m), JStr hash]) values))
     | _ \<Rightarrow> Inl NoFingerprint)"

definition walk_fuel :: nat where "walk_fuel = 514"

definition nativePolicy :: "(string \<Rightarrow> string) \<Rightarrow> checkout \<Rightarrow> string \<Rightarrow> (loop_error + (string \<times> jval) list) option" where
  "nativePolicy sha tree base =
     (case native_inventory walk_fuel tree base native_trees (0, native_files) [] of
        None \<Rightarrow> None
      | Some (Inl e) \<Rightarrow> Some (Inl e)
      | Some (Inr (files, values)) \<Rightarrow>
          Some (native_contents sha tree base (sort (remdups files)) 0 0 values))"

section \<open>Snapshots\<close>

record inspection =
  in_base :: string
  in_tree :: checkout
  in_unmerged :: "Execution option"
  in_head :: "Execution option"
  in_stage :: "Execution option"
  in_names :: "Execution option"
  in_grep :: "string list \<Rightarrow> string \<Rightarrow> Execution option"

definition git_output :: "Execution option \<Rightarrow> loop_error + string" where
  "git_output answer = (case probe answer of
       None \<Rightarrow> Inl NoFingerprint
     | Some (out, code) \<Rightarrow> if code \<noteq> 0 then Inl NoFingerprint else Inr out)"

definition head_char :: "char \<Rightarrow> bool" where
  "head_char c \<longleftrightarrow> (48 \<le> ord c \<and> ord c \<le> 57) \<or> (97 \<le> ord c \<and> ord c \<le> 102)"

definition head_ok :: "string \<Rightarrow> bool" where
  "head_ok h \<longleftrightarrow> (length h = 40 \<or> length h = 64) \<and> list_all head_char h"

definition unsafe_name :: "string \<Rightarrow> bool" where
  "unsafe_name name \<longleftrightarrow> list_ex (\<lambda>part. part = ''..'' \<or> part = ''.'' \<or> part = []) (split_on (CHR ''/'') name)"

text \<open>The contents of the listed files, without the controller's own state directory.\<close>

fun source_entries :: "(string \<Rightarrow> string) \<Rightarrow> checkout \<Rightarrow> string \<Rightarrow> string list \<Rightarrow> nat \<Rightarrow> (string \<times> jval) list \<Rightarrow> string list \<Rightarrow>
    loop_error + ((string \<times> jval) list \<times> string list)" where
  "source_entries sha tree base [] used es raw = Inr (es, raw)"
| "source_entries sha tree base (name # names) used es raw =
     (if contains_any name [CHR 0x0A, CHR 0x0D] then Inl NoFingerprint
      else if name = ''.factory'' \<or> has_prefix ''.factory/'' name then source_entries sha tree base names used es raw
      else if unsafe_name name then Inl NoFingerprint
      else bindE (content sha tree (join_path base name) used) (\<lambda>(v, used').
             source_entries sha tree base names used' (jset (RawString name) v es) (raw @ [name])))"

definition critical_files :: "(string \<times> jval) list \<Rightarrow> string list \<Rightarrow> string list \<Rightarrow> string list \<Rightarrow> (string \<times> jval) list" where
  "critical_files es raw protected tests =
     fold (\<lambda>name m. if governing name protected tests then jset (RawString name) (jat es (RawString name)) m else m) raw []"

definition config_path :: "environment \<Rightarrow> string \<Rightarrow> string" where
  "config_path environment base =
     (let p = (case map_of environment ''FACTORY_LOOP_CONFIG_PATH'' of Some v \<Rightarrow> v | None \<Rightarrow> join_path base ''factory.yaml'')
      in if p = [] then ''.'' else p)"

text \<open>The two texts whose hashes are the source and the safety digest.\<close>

definition safety_value :: "(string \<times> jval) list \<Rightarrow> (string \<times> jval) list \<Rightarrow> jval \<Rightarrow> jval" where
  "safety_value critical native effective =
     JObj [(''files'', JObj critical), (''native_policy'', JObj native), (''effective_config'', effective)]"

definition listed_names :: "string \<Rightarrow> string list" where
  "listed_names out = sort (remdups (filter (\<lambda>n. n \<noteq> []) (split_on (CHR 0x00) out)))"

definition snapshot_digests :: "(string \<Rightarrow> string) \<Rightarrow> string \<Rightarrow> (string \<times> jval) list \<Rightarrow> jval \<Rightarrow> loop_error + Fingerprint" where
  "snapshot_digests sha head es safety =
     bindE (digest sha (JObj es)) (\<lambda>source. bindE (digest sha safety) (\<lambda>safety.
       Inr \<lparr>fpHead = head, fpSource = source, fpSafety = safety\<rparr>))"

definition snapshot_files :: "(string \<Rightarrow> string) \<Rightarrow> inspection \<Rightarrow> Config_l \<Rightarrow> environment \<Rightarrow> string \<Rightarrow> string list \<Rightarrow>
    (loop_error + Fingerprint) option" where
  "snapshot_files sha s c environment head names =
     (case source_entries sha (in_tree s) (in_base s) names 0 [] [] of
        Inl e \<Rightarrow> Some (Inl e)
      | Inr (es, raw) \<Rightarrow> (case testNames (in_grep s) raw (lTestPatterns c) of
          Inl e \<Rightarrow> Some (Inl e)
        | Inr tests \<Rightarrow> (case nativePolicy sha (in_tree s) (in_base s) of
            None \<Rightarrow> None
          | Some (Inl e) \<Rightarrow> Some (Inl e)
          | Some (Inr native) \<Rightarrow> (case content sha (in_tree s) (config_path environment (in_base s)) 0 of
              Inl e \<Rightarrow> Some (Inl e)
            | Inr (effective, _) \<Rightarrow>
                Some (snapshot_digests sha head es
                  (safety_value (critical_files es raw (lProtectedPaths c) tests) native effective))))))"

definition snapshot :: "(string \<Rightarrow> string) \<Rightarrow> inspection \<Rightarrow> Config_l \<Rightarrow> environment \<Rightarrow> (loop_error + Fingerprint) option" where
  "snapshot sha s c environment =
     (case bindE (git_output (in_unmerged s)) (\<lambda>unmerged.
          bindE (guardE (unmerged = []) NoFingerprint) (\<lambda>_.
          bindE (git_output (in_head s)) (\<lambda>raw.
          bindE (guardE (head_ok (trim_runes is_space_rune raw)) NoFingerprint) (\<lambda>_.
          bindE (git_output (in_stage s)) (\<lambda>indexed.
          bindE (guardE (\<not> list_ex (has_prefix ''160000 '') (split_on (CHR 0x00) indexed)) NoFingerprint) (\<lambda>_.
          bindE (git_output (in_names s)) (\<lambda>out.
          bindE (guardE (length (listed_names out) \<le> 100000) NoFingerprint) (\<lambda>_.
            Inr (trim_runes is_space_rune raw, listed_names out))))))))) of
        Inl e \<Rightarrow> Some (Inl e)
      | Inr (head, names) \<Rightarrow> snapshot_files sha s c environment head names)"

definition stableSnapshot :: "(string \<Rightarrow> string) \<Rightarrow> inspection \<Rightarrow> inspection \<Rightarrow> Config_l \<Rightarrow> environment \<Rightarrow>
    (loop_error + Fingerprint) option" where
  "stableSnapshot sha s1 s2 c environment = (case snapshot sha s1 c environment of
       None \<Rightarrow> None
     | Some (Inl e) \<Rightarrow> Some (Inl e)
     | Some (Inr first) \<Rightarrow> (case snapshot sha s2 c environment of
         None \<Rightarrow> None
       | Some (Inl e) \<Rightarrow> Some (Inl e)
       | Some (Inr second) \<Rightarrow> Some (if first = second then Inr first else Inl NoFingerprint)))"

end
