(* ===== verification/Loop_Snapshot_Props.thy ===== *)
theory Loop_Snapshot_Props
  imports Loop_Snapshot Go_Runes
begin

text \<open>
  What equal fingerprints prove.  With a collision-free hash, equal source digests mean the same listing with
  the same bytes and permissions in every file, and equal safety digests mean that for every governing path,
  the native policy and the effective configuration.  The inventory of native policy always ends.
\<close>

section \<open>The inventory ends\<close>

lemma walk_list_total:
  assumes "\<And>d st. d \<in> set ds \<Longrightarrow> fst st \<le> 512 \<Longrightarrow> k \<le> fst st \<Longrightarrow>
      step d st \<noteq> None \<and> (\<forall>st'. step d st = Some (Inr st') \<longrightarrow> fst st \<le> fst st' \<and> fst st' \<le> 512)"
    and "fst st \<le> 512" and "k \<le> fst st"
  shows "walk_list step ds st \<noteq> None \<and> (\<forall>st'. walk_list step ds st = Some (Inr st') \<longrightarrow> fst st \<le> fst st' \<and> fst st' \<le> 512)"
  using assms
proof (induction ds arbitrary: st)
  case (Cons d ds)
  have d: "step d st \<noteq> None \<and> (\<forall>st'. step d st = Some (Inr st') \<longrightarrow> fst st \<le> fst st' \<and> fst st' \<le> 512)"
    by (rule Cons.prems(1)) (use Cons.prems(2,3) in simp_all)
  show ?case
  proof (cases "\<exists>st'. step d st = Some (Inr st')")
    case True
    then obtain st' where st': "step d st = Some (Inr st')" by blast
    with d have b: "fst st \<le> fst st'" "fst st' \<le> 512" by auto
    have "walk_list step ds st' \<noteq> None \<and> (\<forall>st''. walk_list step ds st' = Some (Inr st'') \<longrightarrow> fst st' \<le> fst st'' \<and> fst st'' \<le> 512)"
    proof (rule Cons.IH)
      show "step d st \<noteq> None \<and> (\<forall>st'. step d st = Some (Inr st') \<longrightarrow> fst st \<le> fst st' \<and> fst st' \<le> 512)"
        if "d \<in> set ds" "fst st \<le> 512" "k \<le> fst st" for d st
        by (rule Cons.prems(1)) (use that in simp_all)
    qed (use Cons.prems b in simp_all)
    with st' b show ?thesis by fastforce
  next
    case False
    with d obtain e where "step d st = Some (Inl e)" by (metis option.exhaust sum.exhaust)
    then show ?thesis by simp
  qed
qed simp

lemma sort_children_length: "sort_children tree base name children = Inr (files, dirs) \<Longrightarrow> length dirs \<le> length children"
proof (induction children arbitrary: files dirs)
  case (Cons c cs)
  then show ?case
    by (cases "tree (join_path base (name @ ''/'' @ c))") (auto simp: Let_def result_simps le_SucI)
qed simp

lemma walk_total:
  "513 \<le> fuel + fst st \<Longrightarrow> fst st \<le> 512 \<Longrightarrow>
   walk fuel tree base name st \<noteq> None \<and> (\<forall>st'. walk fuel tree base name st = Some (Inr st') \<longrightarrow> fst st \<le> fst st' \<and> fst st' \<le> 512)"
proof (induction fuel arbitrary: name st)
  case (Suc fuel)
  show ?case
  proof (cases "\<exists>listing. tree (join_path base name) = Directory listing")
    case True
    then obtain listing where l: "tree (join_path base name) = Directory listing" by blast
    let ?c = "take 513 listing"
    show ?thesis
    proof (cases "fst st + length ?c > 512")
      case True
      with l show ?thesis by (simp add: walk_directory_def)
    next
      case False
      show ?thesis
      proof (cases "sort_children tree base name ?c")
        case (Inl e)
        with l False show ?thesis by (simp add: walk_directory_def)
      next
        case (Inr p)
        obtain files dirs where p: "p = (files, dirs)" by force
        let ?st = "(fst st + length ?c, snd st @ files)"
        have dirs: "length dirs \<le> length ?c" using sort_children_length Inr p by metis
        have "walk_list (walk fuel tree base) dirs ?st \<noteq> None \<and>
            (\<forall>st'. walk_list (walk fuel tree base) dirs ?st = Some (Inr st') \<longrightarrow> fst ?st \<le> fst st' \<and> fst st' \<le> 512)"
        proof (cases "dirs = []")
          case True
          with False show ?thesis by simp
        next
          case dne: False
          show ?thesis
          proof (rule walk_list_total [where k = "fst st + length ?c"])
            fix d and s :: "nat \<times> string list"
            assume "fst s \<le> 512" "fst st + length ?c \<le> fst s"
            moreover have "1 \<le> length ?c" using dne dirs by (cases dirs) auto
            ultimately show "walk fuel tree base d s \<noteq> None \<and>
                (\<forall>st'. walk fuel tree base d s = Some (Inr st') \<longrightarrow> fst s \<le> fst st' \<and> fst st' \<le> 512)"
              using Suc.prems by (intro Suc.IH) linarith+
          qed (use False in simp_all)
        qed
        with l False Inr p show ?thesis by (auto simp: walk_directory_def)
      qed
    qed
  next
    case False
    then show ?thesis by (cases "tree (join_path base name)") auto
  qed
qed simp

lemma native_inventory_total: "fst st \<le> 512 \<Longrightarrow> native_inventory walk_fuel tree base trees st vals \<noteq> None"
proof (induction trees arbitrary: st vals)
  case (Cons name trees)
  have w: "walk walk_fuel tree base name st \<noteq> None \<and>
      (\<forall>st'. walk walk_fuel tree base name st = Some (Inr st') \<longrightarrow> fst st \<le> fst st' \<and> fst st' \<le> 512)"
    by (rule walk_total) (use Cons.prems in \<open>simp_all add: walk_fuel_def\<close>)
  show ?case
  proof (cases "safeAncestors tree base name")
    case (Inr u)
    show ?thesis
    proof (cases "tree (join_path base name)")
      case (Directory listing)
      from w obtain r where r: "walk walk_fuel tree base name st = Some r" by blast
      show ?thesis
      proof (cases r)
        case (Inl e)
        with r Inr Directory show ?thesis by simp
      next
        case r': (Inr st')
        with w r have "fst st' \<le> 512" by simp
        from Cons.IH [OF this] r r' Inr Directory show ?thesis by simp
      qed
    qed (use Inr Cons.IH [OF Cons.prems] in simp_all)
  qed simp
qed simp

text \<open>C40: Taking a fingerprint always ends: however deep the native policy trees are and whatever they hold,
  the inventory stops at its entry limit.\<close>

theorem snapshot_total: "snapshot sha s c environment \<noteq> None"
proof -
  obtain r where "native_inventory walk_fuel (in_tree s) (in_base s) native_trees (0, native_files) [] = Some r"
    using native_inventory_total [of "(0, native_files)"] by fastforce
  then have "nativePolicy sha (in_tree s) (in_base s) \<noteq> None"
    by (cases r) (auto simp: nativePolicy_def split: prod.split)
  then have "snapshot_files sha s c environment head names \<noteq> None" for head names
    by (auto simp: snapshot_files_def split: sum.splits prod.splits option.splits)
  then show ?thesis by (auto simp: snapshot_def split: sum.splits prod.splits)
qed

section \<open>Digests\<close>

definition ascii :: "string \<Rightarrow> bool" where
  "ascii s \<longleftrightarrow> list_all (\<lambda>c. ord c < 128) s"

lemma RawString_ascii: "ascii s \<Longrightarrow> RawString s = s"
proof (induction s)
  case (Cons c s)
  then have d: "decode_rune (c # s) = (ord c, 1)" by (simp add: ascii_def decode_one)
  have "ord c < 128" using Cons.prems by (simp add: ascii_def)
  then have "ord c \<noteq> rune_error" unfolding rune_error_def by linarith
  then have "\<not> invalid_rune (ord c, [c])" by (simp add: invalid_rune_def)
  moreover have "runes (c # s) = (ord c, [c]) # runes s" using d by (subst runes.simps) simp
  ultimately show ?case using Cons by (simp add: RawString_def raw_rune_def ascii_def)
qed simp

lemma canonical_ascii: "ascii s \<Longrightarrow> canonical_string s"
  using canonical_RawString [of s] by (simp add: RawString_ascii)

lemma digest_jnorm:
  assumes "inj sha" and "digest sha v = Inr d" and "digest sha w = Inr d" and "jfits 0 v" and "jfits 0 w"
  shows "jnorm v = jnorm w"
proof -
  from assms(2,3) obtain t where t: "encode_value 0 v = Inr t" "encode_value 0 w = Inr t"
    using injD [OF assms(1)] by (auto simp: digest_def EncodePython_def split: sum.splits)
  have "ends_number []" by (simp add: ends_number_def)
  from encode_decode(1) [OF t(1) assms(4) this, of False] encode_decode(1) [OF t(2) assms(5) this, of False]
  show ?thesis by simp
qed

lemma map_of_sort_key: "distinct (keys m) \<Longrightarrow> map_of (sort_key fst m) = map_of m"
  by (subst map_of_inject_set) (simp_all add: distinct_keys_sort)

lemma map_of_mapped: "map_of (map (\<lambda>kv. (fst kv, g (snd kv))) m) k = map_option g (map_of m k)"
  by (induction m) auto

lemma jnorm_object:
  assumes "jnorm (JObj m) = jnorm (JObj m')" and "distinct (keys m)" and "distinct (keys m')"
  shows "map_option jnorm (map_of m k) = map_option jnorm (map_of m' k)"
proof -
  let ?f = "map (\<lambda>kv. (fst kv, jnorm (snd kv)))"
  have k: "keys (?f m) = keys m" for m :: "(string \<times> jval) list" by simp
  from assms(1) have "map_of (sort_key fst (?f m)) = map_of (sort_key fst (?f m'))" by simp
  then have "map_of (?f m) = map_of (?f m')" using assms(2,3) by (simp only: map_of_sort_key k)
  then show ?thesis unfolding map_of_mapped [symmetric] by simp
qed

section \<open>Flat values\<close>

text \<open>The values of an inventory: absence, presence, and the permissions and hash of a file.\<close>

definition flat_value :: "jval \<Rightarrow> bool" where
  "flat_value v \<longleftrightarrow> v = JNull \<or> (\<exists>b. v = JBool b) \<or> (\<exists>m h. v = JArr [JInt (mode_bits m), JStr h] \<and> ascii h)"

definition flat_object :: "(string \<times> jval) list \<Rightarrow> bool" where
  "flat_object m \<longleftrightarrow> distinct (keys m) \<and> (\<forall>kv \<in> set m. canonical_string (fst kv) \<and> flat_value (snd kv))"

lemma mode_bits_bounds: "0 \<le> mode_bits m" "mode_bits m < 4096"
  by (simp_all add: mode_bits_def)

lemma short_mode_bits: "short_integer (mode_bits m)"
proof -
  have "nat \<bar>mode_bits m\<bar> < 10 ^ 4" using mode_bits_bounds [of m] by simp
  then have "length (nat_str (nat \<bar>mode_bits m\<bar>)) \<le> 4" using length_nat_str [of "nat \<bar>mode_bits m\<bar>" 4] by simp
  then show ?thesis by (simp add: short_integer_def)
qed

lemma flat_value_fits: "flat_value v \<Longrightarrow> jplain v \<and> jdepth v \<le> 1"
  by (auto simp: flat_value_def canonical_ascii short_mode_bits)

lemma jnorm_flat:
  assumes "flat_value v" and "flat_value w" and "jnorm v = jnorm w"
  shows "v = w"
proof -
  have "int_str (mode_bits m) = int_str (mode_bits n) \<Longrightarrow> mode_bits m = mode_bits n" for m n
    using mode_bits_bounds [of m] mode_bits_bounds [of n] by (auto simp: int_str_def nat_str_inject)
  with assms show ?thesis by (auto simp: flat_value_def)
qed

lemma flat_object_fits: "flat_object m \<Longrightarrow> jplain (JObj m) \<and> jdepth (JObj m) \<le> 2"
proof -
  assume m: "flat_object m"
  then have "\<forall>kv \<in> set m. jplain (snd kv) \<and> jdepth (snd kv) \<le> 1"
    using flat_value_fits by (simp add: flat_object_def)
  with m show ?thesis
    unfolding numeral_2_eq_2 One_nat_def [symmetric] jdepth_le_iff(2) by (simp add: flat_object_def list_all_iff)
qed

lemma flat_object_norm:
  assumes "flat_object m" and "flat_object m'" and "jnorm (JObj m) = jnorm (JObj m')"
  shows "map_of m k = map_of m' k"
proof -
  have eq: "map_option jnorm (map_of m k) = map_option jnorm (map_of m' k)"
    by (rule jnorm_object [OF assms(3)]) (use assms(1,2) in \<open>simp_all only: flat_object_def\<close>)
  have flat: "flat_value v" if "flat_object n" "map_of n k = Some v" for n v
  proof -
    from that(1) have "\<forall>kv \<in> set n. flat_value (snd kv)" unfolding flat_object_def by blast
    from bspec [OF this map_of_SomeD [OF that(2)]] show ?thesis by simp
  qed
  show ?thesis
  proof (cases "map_of m k")
    case None
    with eq show ?thesis by simp
  next
    case (Some v)
    with eq obtain w where w: "map_of m' k = Some w" "jnorm v = jnorm w" by (cases "map_of m' k") simp_all
    with jnorm_flat [OF flat [OF assms(1) Some] flat [OF assms(2) w(1)]] Some show ?thesis by simp
  qed
qed

lemma flat_object_jset: "flat_object m \<Longrightarrow> canonical_string k \<Longrightarrow> flat_value v \<Longrightarrow> flat_object (jset k v m)"
  using set_update_subset [of k v m] by (auto simp: flat_object_def jset_def)

lemma flat_object_Nil [simp]: "flat_object []"
  by (simp add: flat_object_def)

section \<open>Entries\<close>

text \<open>What a fingerprint says of one path.\<close>

definition entry_value :: "(string \<Rightarrow> string) \<Rightarrow> entry \<Rightarrow> jval" where
  "entry_value sha e = (case e of
       Link m t \<Rightarrow> JArr [JInt (mode_bits m), JStr (sha t)]
     | Regular m d \<Rightarrow> JArr [JInt (mode_bits m), JStr (sha d)]
     | _ \<Rightarrow> JNull)"

definition entry_bytes :: "entry \<Rightarrow> (int \<times> string) option" where
  "entry_bytes e = (case e of
       Link m t \<Rightarrow> Some (mode_bits m, t)
     | Regular m d \<Rightarrow> Some (mode_bits m, d)
     | _ \<Rightarrow> None)"

lemma hashFile_sha: "hashFile sha l l2 data used = Inr (h, used') \<Longrightarrow> h = sha data"
  by (auto simp: hashFile_def result_simps)

lemma content_value: "content sha tree path used = Inr (v, used') \<Longrightarrow> v = entry_value sha (tree path)"
  by (auto simp: content_def entry_value_def result_simps split: entry.splits if_splits prod.splits dest: hashFile_sha)

lemma entry_value_flat: "(\<And>x. ascii (sha x)) \<Longrightarrow> flat_value (entry_value sha e)"
  by (auto simp: entry_value_def flat_value_def split: entry.splits)

lemma entry_value_inject:
  assumes "inj sha" and "entry_value sha e = entry_value sha e'"
  shows "entry_bytes e = entry_bytes e'"
  using assms(2) injD [OF assms(1)] by (auto simp: entry_value_def entry_bytes_def split: entry.splits)

section \<open>Inventories of names\<close>

definition enter :: "(string \<Rightarrow> jval) \<Rightarrow> string list \<Rightarrow> (string \<times> jval) list \<Rightarrow> (string \<times> jval) list" where
  "enter V names m = fold (\<lambda>name m. jset (RawString name) (V name) m) names m"

lemma enter_simps [simp]:
  "enter V [] m = m"
  "enter V (n # ns) m = enter V ns (jset (RawString n) (V n) m)"
  by (simp_all add: enter_def)

lemma map_of_enter:
  "map_of (enter V names m) (RawString n) = (if n \<in> set names then Some (V n) else map_of m (RawString n))"
  by (induction names arbitrary: m) (auto simp: jset_def)

lemma flat_enter: "flat_object m \<Longrightarrow> (\<And>n. n \<in> set names \<Longrightarrow> flat_value (V n)) \<Longrightarrow> flat_object (enter V names m)"
  by (induction names arbitrary: m) (auto simp: flat_object_jset canonical_RawString)

lemma map_of_enter_eq:
  assumes "\<And>k. map_of (enter V ns []) k = map_of (enter V' ns' []) k"
  shows "set ns = set ns' \<and> (\<forall>n \<in> set ns. V n = V' n)"
proof -
  have "(if n \<in> set ns then Some (V n) else None) = (if n \<in> set ns' then Some (V' n) else None)" for n
    using assms [of "RawString n"] by (simp only: map_of_enter map_of.simps)
  then show ?thesis by (metis option.distinct(1) option.inject subsetI subset_antisym)
qed

definition controlled :: "string \<Rightarrow> bool" where
  "controlled name \<longleftrightarrow> name = ''.factory'' \<or> has_prefix ''.factory/'' name"

lemma source_entries_enter:
  "source_entries sha tree base names used es raw = Inr (es', raw') \<Longrightarrow>
     raw' = raw @ filter (\<lambda>n. \<not> controlled n) names \<and>
     es' = enter (\<lambda>n. entry_value sha (tree (join_path base n))) (filter (\<lambda>n. \<not> controlled n) names) es"
proof (induction names arbitrary: used es raw)
  case (Cons name names)
  show ?case
  proof (cases "controlled name")
    case True
    with Cons show ?thesis by (auto simp: controlled_def split: if_splits)
  next
    case False
    with Cons.prems obtain v used' where
      c: "content sha tree (join_path base name) used = Inr (v, used')" and
      r: "source_entries sha tree base names used' (jset (RawString name) v es) (raw @ [name]) = Inr (es', raw')"
      by (auto simp: controlled_def result_simps split: if_splits prod.splits)
    from Cons.IH [OF r] content_value [OF c] False show ?thesis by simp
  qed
qed simp

lemma critical_enter:
  "critical_files es raw protected tests =
     enter (\<lambda>n. jat es (RawString n)) (filter (\<lambda>n. governing n protected tests) raw) []"
proof -
  have "fold (\<lambda>name m. if governing name protected tests then jset (RawString name) (jat es (RawString name)) m else m) raw m =
      enter (\<lambda>n. jat es (RawString n)) (filter (\<lambda>n. governing n protected tests) raw) m" for m
    by (induction raw arbitrary: m) simp_all
  then show ?thesis by (simp add: critical_files_def)
qed

section \<open>Native policy\<close>

lemma native_ascii: "list_all ascii native_trees" "list_all ascii native_files"
  by (simp_all add: native_trees_def native_files_def ascii_def)

lemma native_inventory_flat:
  "native_inventory fuel tree base trees st vals = Some (Inr (files, vals')) \<Longrightarrow> flat_object vals \<Longrightarrow> list_all ascii trees \<Longrightarrow>
     flat_object vals'"
proof (induction trees arbitrary: st vals)
  case (Cons name trees)
  have key: "canonical_string (name @ ''/'')" using Cons.prems(3) by (intro canonical_ascii) (simp add: ascii_def)
  have f: "flat_object (jset (name @ ''/'') (JBool b) vals)" for b
    by (rule flat_object_jset [OF Cons.prems(2) key]) (simp add: flat_value_def)
  have "list_all ascii trees" using Cons.prems(3) by simp
  with Cons.IH [OF _ f] Cons.prems(1) show ?case by (auto split: sum.splits entry.splits option.splits)
qed simp

lemma native_contents_flat:
  "native_contents sha tree base names used stat_used vals = Inr vals' \<Longrightarrow> (\<And>x. ascii (sha x)) \<Longrightarrow> flat_object vals \<Longrightarrow>
     flat_object vals'"
proof (induction names arbitrary: used stat_used vals)
  case (Cons name names)
  have f: "flat_value JNull" "flat_value (JArr [JInt (mode_bits m), JStr (sha d)])" for m d
    using Cons.prems(2) by (auto simp: flat_value_def)
  from Cons.prems(1) show ?case
    by (auto simp: result_simps split: entry.splits if_splits prod.splits
        intro: Cons.IH [OF _ Cons.prems(2)] flat_object_jset [OF Cons.prems(3) canonical_RawString] f dest!: hashFile_sha)
qed simp

lemma nativePolicy_flat:
  assumes "nativePolicy sha tree base = Some (Inr vals)" and "\<And>x. ascii (sha x)"
  shows "flat_object vals"
proof -
  from assms(1) obtain files v0 where
    i: "native_inventory walk_fuel tree base native_trees (0, native_files) [] = Some (Inr (files, v0))" and
    c: "native_contents sha tree base (sort (remdups files)) 0 0 v0 = Inr vals"
    by (auto simp: nativePolicy_def split: option.splits sum.splits prod.splits)
  from native_inventory_flat [OF i flat_object_Nil native_ascii(1)] native_contents_flat [OF c assms(2)] show ?thesis by simp
qed


section \<open>What a fingerprint proves\<close>

definition collision_free :: "(string \<Rightarrow> string) \<Rightarrow> bool" where
  "collision_free sha \<longleftrightarrow> inj sha \<and> (\<forall>x. ascii (sha x))"

text \<open>The listed paths of an inspection, and those among them that govern the loop.\<close>

definition observed :: "inspection \<Rightarrow> string list" where
  "observed s = (case git_output (in_names s) of
       Inl _ \<Rightarrow> []
     | Inr out \<Rightarrow> filter (\<lambda>n. \<not> controlled n) (listed_names out))"

definition governed :: "inspection \<Rightarrow> Config_l \<Rightarrow> string list" where
  "governed s c = (case testNames (in_grep s) (observed s) (lTestPatterns c) of
       Inl _ \<Rightarrow> []
     | Inr tests \<Rightarrow> filter (\<lambda>n. governing n (lProtectedPaths c) tests) (observed s))"

definition bytes_at :: "inspection \<Rightarrow> string \<Rightarrow> (int \<times> string) option" where
  "bytes_at s path = entry_bytes (in_tree s path)"

definition file_value :: "(string \<Rightarrow> string) \<Rightarrow> inspection \<Rightarrow> string \<Rightarrow> jval" where
  "file_value sha s n = entry_value sha (in_tree s (join_path (in_base s) n))"

lemma snapshotE:
  assumes "snapshot sha s c environment = Some (Inr f)"
  obtains tests native effective where
    "nativePolicy sha (in_tree s) (in_base s) = Some (Inr native)"
    "effective = entry_value sha (in_tree s (config_path environment (in_base s)))"
    "digest sha (JObj (enter (file_value sha s) (observed s) [])) = Inr (fpSource f)"
    "digest sha (safety_value (enter (file_value sha s) (governed s c) []) native effective) = Inr (fpSafety f)"
proof -
  from assms obtain head out where
    out: "git_output (in_names s) = Inr out" and
    files: "snapshot_files sha s c environment head (listed_names out) = Some (Inr f)"
    by (auto simp: snapshot_def result_simps split: sum.splits prod.splits)
  from files obtain es raw tests native effective u where
    es: "source_entries sha (in_tree s) (in_base s) (listed_names out) 0 [] [] = Inr (es, raw)" and
    tests: "testNames (in_grep s) raw (lTestPatterns c) = Inr tests" and
    native: "nativePolicy sha (in_tree s) (in_base s) = Some (Inr native)" and
    eff: "content sha (in_tree s) (config_path environment (in_base s)) 0 = Inr (effective, u)" and
    d: "snapshot_digests sha head es (safety_value (critical_files es raw (lProtectedPaths c) tests) native effective) = Inr f"
    by (auto simp: snapshot_files_def split: sum.splits prod.splits option.splits)
  from source_entries_enter [OF es] out have
    raw: "raw = observed s" and ese: "es = enter (file_value sha s) (observed s) []"
    by (simp_all add: observed_def file_value_def [abs_def])
  have gov: "filter (\<lambda>n. governing n (lProtectedPaths c) tests) raw = governed s c"
    using tests by (simp add: governed_def raw)
  have "enter (\<lambda>n. jat es (RawString n)) (governed s c) m = enter (file_value sha s) (governed s c) m" for m
  proof -
    have "n \<in> set (governed s c) \<Longrightarrow> jat es (RawString n) = file_value sha s n" for n
      unfolding gov [symmetric] by (simp add: raw ese jat_def map_of_enter)
    then show ?thesis
      by (induction "governed s c" arbitrary: m) (auto simp: enter_def intro!: fold_cong fun_cong [OF refl])
  qed
  then have crit: "critical_files es raw (lProtectedPaths c) tests = enter (file_value sha s) (governed s c) []"
    unfolding critical_enter gov by simp
  from d have "digest sha (JObj es) = Inr (fpSource f)"
    "digest sha (safety_value (enter (file_value sha s) (governed s c) []) native effective) = Inr (fpSafety f)"
    by (auto simp: snapshot_digests_def result_simps crit)
  with native content_value [OF eff] that show thesis by (simp add: ese)
qed

lemma flat_files: "collision_free sha \<Longrightarrow> flat_object (enter (file_value sha s) names [])"
  by (rule flat_enter) (simp_all add: file_value_def entry_value_flat collision_free_def)

lemma file_value_bytes:
  "collision_free sha \<Longrightarrow> file_value sha s n = file_value sha s' n' \<Longrightarrow>
   bytes_at s (join_path (in_base s) n) = bytes_at s' (join_path (in_base s') n')"
  by (auto simp: file_value_def bytes_at_def collision_free_def intro: entry_value_inject)

lemma inventory_bytes:
  assumes "collision_free sha"
    and "jnorm (JObj (enter (file_value sha s) ns [])) = jnorm (JObj (enter (file_value sha s') ns' []))"
  shows "set ns = set ns' \<and>
    (\<forall>n \<in> set ns. bytes_at s (join_path (in_base s) n) = bytes_at s' (join_path (in_base s') n))"
proof -
  have "map_of (enter (file_value sha s) ns []) k = map_of (enter (file_value sha s') ns' []) k" for k
    by (rule flat_object_norm [OF flat_files flat_files]) (use assms in simp_all)
  from map_of_enter_eq [OF this] file_value_bytes [OF assms(1)] show ?thesis by blast
qed

text \<open>With a collision-free hash, two inspections with the same source digest saw the same set of listed
  paths, and the same permissions and bytes at every one of them, whether present or deleted.\<close>

theorem snapshot_source:
  assumes "collision_free sha"
    and "snapshot sha s c environment = Some (Inr f)" and "snapshot sha s' c' environment' = Some (Inr f')"
    and "fpSource f = fpSource f'"
  shows "set (observed s) = set (observed s') \<and>
    (\<forall>n \<in> set (observed s). bytes_at s (join_path (in_base s) n) = bytes_at s' (join_path (in_base s') n))"
proof -
  from snapshotE [OF assms(2)] have d: "digest sha (JObj (enter (file_value sha s) (observed s) [])) = Inr (fpSource f)" by metis
  from snapshotE [OF assms(3)] assms(4)
  have d': "digest sha (JObj (enter (file_value sha s') (observed s') [])) = Inr (fpSource f)" by metis
  have fits: "jfits 0 (JObj (enter (file_value sha t) ns []))" for t ns
    using flat_object_fits [OF flat_files [OF assms(1)], of t ns] by (simp add: jfits_def)
  have "inj sha" using assms(1) by (simp add: collision_free_def)
  from inventory_bytes [OF assms(1) digest_jnorm [OF this d d' fits fits]] show ?thesis .
qed

lemma safety_value_norm:
  assumes "jnorm (safety_value critical native effective) = jnorm (safety_value critical' native' effective')"
  shows "jnorm (JObj critical) = jnorm (JObj critical')" and "jnorm (JObj native) = jnorm (JObj native')"
    and "jnorm effective = jnorm effective'"
  using jnorm_object [OF assms [unfolded safety_value_def], of "''files''"]
    jnorm_object [OF assms [unfolded safety_value_def], of "''native_policy''"]
    jnorm_object [OF assms [unfolded safety_value_def], of "''effective_config''"]
  by (simp_all del: jnorm.simps)

lemma safety_value_fits:
  assumes "flat_object critical" and "flat_object native" and "flat_value effective"
  shows "jfits 0 (safety_value critical native effective)"
proof -
  have c: "canonical_string ''files''" "canonical_string ''native_policy''" "canonical_string ''effective_config''"
    by (rule canonical_ascii, simp add: ascii_def)+
  have "jdepth (safety_value critical native effective) \<le> Suc 2"
    unfolding safety_value_def jdepth_le_iff(2)
    using flat_object_fits [OF assms(1)] flat_object_fits [OF assms(2)] flat_value_fits [OF assms(3)]
    by (auto simp del: jdepth.simps)
  with c flat_object_fits [OF assms(1)] flat_object_fits [OF assms(2)] flat_value_fits [OF assms(3)] show ?thesis
    by (simp add: jfits_def safety_value_def del: jdepth.simps)
qed

text \<open>C10: With a collision-free hash, equal safety digests prove that nothing that governs the loop has
  changed: the same paths govern it with the same permissions and bytes, and the effective configuration and
  the inventory of native policy are the same, whatever the source has become.\<close>

theorem snapshot_safety:
  assumes "collision_free sha"
    and "snapshot sha s c environment = Some (Inr f)" and "snapshot sha s' c environment = Some (Inr f')"
    and "fpSafety f = fpSafety f'"
    and "nativePolicy sha (in_tree s) (in_base s) = Some (Inr native)"
    and "nativePolicy sha (in_tree s') (in_base s') = Some (Inr native')"
  shows "set (governed s c) = set (governed s' c) \<and>
    (\<forall>n \<in> set (governed s c). bytes_at s (join_path (in_base s) n) = bytes_at s' (join_path (in_base s') n)) \<and>
    bytes_at s (config_path environment (in_base s)) = bytes_at s' (config_path environment (in_base s')) \<and>
    map_of native = map_of native'"
proof -
  let ?c = "\<lambda>s. enter (file_value sha s) (governed s c) []"
  let ?e = "\<lambda>s. entry_value sha (in_tree s (config_path environment (in_base s)))"
  from snapshotE [OF assms(2)] assms(5) have d: "digest sha (safety_value (?c s) native (?e s)) = Inr (fpSafety f)"
    by (metis option.inject sum.inject(2))
  from snapshotE [OF assms(3)] assms(4,6) have d': "digest sha (safety_value (?c s') native' (?e s')) = Inr (fpSafety f)"
    by (metis option.inject sum.inject(2))
  have sha: "inj sha" "\<And>x. ascii (sha x)" using assms(1) by (simp_all add: collision_free_def)
  note nf = nativePolicy_flat [OF assms(5) sha(2)] nativePolicy_flat [OF assms(6) sha(2)]
  have fits: "jfits 0 (safety_value (?c s) native (?e s))" "jfits 0 (safety_value (?c s') native' (?e s'))"
    using safety_value_fits flat_files [OF assms(1)] nf entry_value_flat [OF sha(2)] by simp_all
  note norm = safety_value_norm [OF digest_jnorm [OF sha(1) d d' fits]]
  have "?e s = ?e s'" by (rule jnorm_flat [OF _ _ norm(3)]) (simp_all add: entry_value_flat sha(2))
  then have "bytes_at s (config_path environment (in_base s)) = bytes_at s' (config_path environment (in_base s'))"
    unfolding bytes_at_def by (rule entry_value_inject [OF sha(1)])
  moreover have "map_of native = map_of native'" using flat_object_norm [OF nf norm(2)] by blast
  ultimately show ?thesis using inventory_bytes [OF assms(1) norm(1)] by blast
qed


text \<open>The value of a path does not say whether it is a link: a symbolic link and a regular file with the
  permissions of the link and its target as content are the same to the fingerprint.\<close>

lemma link_and_file_agree: "entry_value sha (Link m target) = entry_value sha (Regular m target)"
  by (simp add: entry_value_def)


end
