(* ===== verification/Loop_Snapshot_Sample.thy ===== *)
theory Loop_Snapshot_Sample
  imports Loop_Snapshot_Props Json_Props
begin

text \<open>
  A concrete checkout for the witnesses of the fingerprint properties: two listed files, one of them
  protected, no native policy, and a hash that spells each byte in hexadecimal.
\<close>

section \<open>Digests exist\<close>

lemma digest_fits: "jfits 0 v \<Longrightarrow> \<exists>t. digest sha v = Inr (sha t) \<and> EncodePython v = Inr t"
  using encode_total(1) [of 0 v] by (auto simp: digest_def EncodePython_def jfits_def)

section \<open>A hash without collisions\<close>

definition spell :: "string \<Rightarrow> string" where
  "spell s = concat (map (\<lambda>c. [hex_char (ord c div 16), hex_char (ord c mod 16)]) s)"

lemma ord_hex_char: "n < 16 \<Longrightarrow> ord (hex_char n) < 128"
  by (auto simp: hex_char_def of_char_of)

lemma hex_char_inject: "m < 16 \<Longrightarrow> n < 16 \<Longrightarrow> hex_char m = hex_char n \<Longrightarrow> m = n"
  by (metis hex_val_hex_char option.inject)

lemma div16: "ord c div 16 < 16"
proof -
  have "ord c < 16 * 16" by (rule ord_less [THEN less_le_trans]) simp
  then show ?thesis by (rule less_mult_imp_div_less)
qed

lemma spell_inject: "spell s = spell t \<Longrightarrow> s = t"
proof (induction s arbitrary: t)
  case Nil
  then show ?case by (cases t) (simp_all add: spell_def)
next
  case (Cons c s)
  then obtain d u where t: "t = d # u" by (cases t) (simp_all add: spell_def)
  with Cons.prems have e: "hex_char (ord c div 16) = hex_char (ord d div 16)" "hex_char (ord c mod 16) = hex_char (ord d mod 16)"
    "spell s = spell u" by (simp_all add: spell_def)
  have "ord c div 16 = ord d div 16" by (rule hex_char_inject [OF div16 div16 e(1)])
  moreover have "ord c mod 16 = ord d mod 16" by (rule hex_char_inject [OF _ _ e(2)]) simp_all
  ultimately have "ord c = ord d" by (metis div_mult_mod_eq)
  then have "c = d" by (simp add: of_char_eq_iff)
  with Cons.IH [OF e(3)] t show ?case by simp
qed

lemma spell_collision_free: "collision_free spell"
proof -
  have "ascii (spell s)" for s
    by (induction s) (simp_all add: spell_def ascii_def ord_hex_char div16)
  then show ?thesis using spell_inject by (auto simp: collision_free_def inj_def)
qed

section \<open>A checkout\<close>

definition answered :: "string \<Rightarrow> Execution option" where
  "answered out = Some \<lparr>xOutcome = ''completed'', xExitCode = Some 0, xProcessPID = 5, xElapsedSeconds = F_Fin 0,
     xStdout = out, xExitConfirmed = True, xOwnershipUnconfirmed = False\<rparr>"

definition sample_checkout :: "string \<Rightarrow> checkout" where
  "sample_checkout data path =
     (if path = ''r/a'' then Regular 420 ''x'' else if path = ''r/b'' then Regular 420 data else Missing)"

definition sample_head :: string where
  "sample_head = replicate 40 (CHR ''a'')"

definition sample_inspection :: "string \<Rightarrow> inspection" where
  "sample_inspection data = \<lparr>in_base = ''r'', in_tree = sample_checkout data, in_unmerged = answered [],
     in_head = answered sample_head, in_stage = answered [],
     in_names = answered (''a'' @ [CHR 0x00] @ ''b'' @ [CHR 0x00]), in_grep = (\<lambda>_ _. None)\<rparr>"

definition sample_loop_config :: Config_l where
  "sample_loop_config = \<lparr>lEnabled = True, lCheckCommand = ''c'', lTestPatterns = [], lProtectedPaths = [''a''],
     lMaxAttempts = 1, lTimeoutSeconds = F_Fin 1, lCheckTimeoutSeconds = F_Fin 1, lNoProgressLimit = 1\<rparr>"

lemma git_answered [simp]: "git_output (answered out) = Inr out"
  by (simp add: git_output_def probe_def answered_def)

lemma sample_names: "listed_names (''a'' @ [CHR 0x00] @ ''b'' @ [CHR 0x00]) = [''a'', ''b'']"
  by (simp add: listed_names_def)

lemma sample_observed: "observed (sample_inspection data) = [''a'', ''b'']"
  using sample_names by (simp add: observed_def sample_inspection_def controlled_def has_prefix_def)

lemma rawRunes_ascii: "ascii s \<Longrightarrow> rawRunes s = map ord s"
proof (induction s)
  case (Cons c s)
  then have "decode_rune (c # s) = (ord c, 1)" by (simp add: ascii_def decode_one)
  moreover have "\<not> invalid_rune (ord c, [c])" using Cons.prems by (auto simp: invalid_rune_def ascii_def rune_error_def)
  ultimately show ?case using Cons by (simp add: rawRunes_def runes.simps [of "c # s"] raw_rune_value_def ascii_def)
qed simp

lemma sample_governing: "governing ''a'' [''a''] []" "\<not> governing ''b'' [''a''] []"
  by (simp_all add: governing_def governing_fixed_def governing_pattern_def trim_right_def has_prefix_def glob_def
      rawRunes_ascii ascii_def glob_loop.simps unit_matches_def)

lemma sample_governed: "governed (sample_inspection data) sample_loop_config = [''a'']"
  using sample_governing
  by (simp add: governed_def sample_observed testNames_def sample_loop_config_def)

definition absent :: "(string \<Rightarrow> string) \<Rightarrow> jval \<Rightarrow> string list \<Rightarrow> (string \<times> jval) list \<Rightarrow> (string \<times> jval) list" where
  "absent key v names m = fold (\<lambda>n. jset (key n) v) names m"

definition sample_native_values :: "(string \<times> jval) list" where
  "sample_native_values = absent RawString JNull (sort (remdups native_files))
     (absent (\<lambda>n. n @ ''/'') (JBool False) native_trees [])"

lemma sample_ancestors: "safeAncestors (sample_checkout data) ''r'' name = Inr ()"
proof -
  have "ancestor_checks (sample_checkout data) p parts" for p parts
    by (induction parts arbitrary: p) (simp_all add: sample_checkout_def is_link_def)
  then show ?thesis by (simp add: safeAncestors_def)
qed

lemma sample_missing: "''a'' \<noteq> name \<Longrightarrow> ''b'' \<noteq> name \<Longrightarrow> sample_checkout data (join_path ''r'' name) = Missing"
  by (auto simp: sample_checkout_def join_path_def)

lemma sample_native: "nativePolicy sha (sample_checkout data) ''r'' = Some (Inr sample_native_values)"
proof -
  have i: "native_inventory walk_fuel (sample_checkout data) ''r'' trees st vals =
      Some (Inr (snd st, absent (\<lambda>n. n @ ''/'') (JBool False) trees vals))"
    if "''a'' \<notin> set trees" "''b'' \<notin> set trees" for trees st vals
    using that by (induction trees arbitrary: vals) (simp_all add: sample_ancestors sample_missing absent_def)
  have c: "native_contents sha (sample_checkout data) ''r'' names used used' vals = Inr (absent RawString JNull names vals)"
    if "''a'' \<notin> set names" "''b'' \<notin> set names" for names used used' vals
    using that by (induction names arbitrary: vals) (simp_all add: sample_ancestors sample_missing absent_def)
  have "''a'' \<notin> set native_trees" "''b'' \<notin> set native_trees" "''a'' \<notin> set native_files" "''b'' \<notin> set native_files"
    by (simp_all add: native_trees_def native_files_def)
  then show ?thesis by (simp add: nativePolicy_def i c sample_native_values_def)
qed

lemma sample_content:
  assumes "length data \<le> 100" and "used \<le> 100"
  shows "content sha (sample_checkout d) ''r/a'' used = Inr (entry_value sha (Regular 420 ''x''), used + 1)"
    and "content sha (sample_checkout data) ''r/b'' used = Inr (entry_value sha (Regular 420 data), used + length data)"
proof -
  have h: "hashFile sha sourceFileLimit sourceTotalLimit d used = Inr (sha d, used + length d)" if "length d \<le> 100" for d
    using assms(2) that
    by (cases "d = []") (simp_all add: hashFile_def hash_reads.simps sourceFileLimit_def sourceTotalLimit_def)
  show "content sha (sample_checkout d) ''r/a'' used = Inr (entry_value sha (Regular 420 ''x''), used + 1)"
    using h [of "''x''"] by (simp add: content_def sample_checkout_def entry_value_def sourceFileLimit_def)
  show "content sha (sample_checkout data) ''r/b'' used = Inr (entry_value sha (Regular 420 data), used + length data)"
    using h [of data] assms(1) by (simp add: content_def sample_checkout_def entry_value_def sourceFileLimit_def)
qed

definition sample_safety :: jval where
  "sample_safety = safety_value (enter (file_value spell (sample_inspection [])) [''a''] []) sample_native_values JNull"

lemma sample_files:
  assumes "length data \<le> 100"
  shows "snapshot_files spell (sample_inspection data) sample_loop_config [] sample_head [''a'', ''b''] =
    Some (snapshot_digests spell sample_head (enter (file_value spell (sample_inspection data)) [''a'', ''b''] []) sample_safety)"
proof -
  let ?s = "sample_inspection data"
  have p: "join_path ''r'' ''a'' = ''r/a''" "join_path ''r'' ''b'' = ''r/b''" "join_path ''r'' ''factory.yaml'' = ''r/factory.yaml''"
    by (simp_all add: join_path_def)
  have src: "source_entries spell (in_tree ?s) (in_base ?s) [''a'', ''b''] 0 [] [] =
      Inr (enter (file_value spell ?s) [''a'', ''b''] [], [''a'', ''b''])"
    using assms
    by (simp add: sample_inspection_def sample_content p contains_any_def has_prefix_def unsafe_name_def file_value_def
        sample_checkout_def)
  have "map_of (enter (file_value spell ?s) [''a'', ''b''] []) (RawString ''a'') = Some (file_value spell ?s ''a'')"
    by (subst map_of_enter) simp
  then have crit: "critical_files (enter (file_value spell ?s) [''a'', ''b''] []) [''a'', ''b''] [''a''] [] =
      enter (file_value spell (sample_inspection [])) [''a''] []"
    using sample_governing
    by (simp add: critical_enter jat_def del: enter_simps) (simp add: file_value_def sample_inspection_def sample_checkout_def p)
  have cfg: "content spell (in_tree ?s) (config_path [] (in_base ?s)) 0 = Inr (JNull, 0)"
    by (simp add: config_path_def sample_inspection_def content_def sample_checkout_def p)
  have native: "nativePolicy spell (in_tree ?s) (in_base ?s) = Some (Inr sample_native_values)"
    by (simp add: sample_inspection_def sample_native)
  have "testNames (in_grep ?s) [''a'', ''b''] (lTestPatterns sample_loop_config) = Inr []"
    by (simp add: testNames_def sample_loop_config_def)
  moreover have "lProtectedPaths sample_loop_config = [''a'']" by (simp add: sample_loop_config_def)
  ultimately show ?thesis by (simp add: snapshot_files_def src crit cfg native sample_safety_def del: enter_simps source_entries.simps)
qed

lemma sample_head_ok: "trim_runes is_space_rune sample_head = sample_head" "head_ok sample_head"
proof -
  have "runes sample_head = map (\<lambda>c. (ord c, [c])) sample_head"
  proof -
    have r: "ascii s \<Longrightarrow> runes s = map (\<lambda>c. (ord c, [c])) s" for s
      by (induction s) (simp_all add: runes.simps [of "_ # _"] decode_one ascii_def runes.simps [of "[]"])
    show ?thesis by (rule r) (simp add: sample_head_def ascii_def list_all_iff)
  qed
  then have R: "runes sample_head = replicate 40 (97, ''a'')" by (simp add: sample_head_def)
  have c: "concat (map snd (runes sample_head)) = sample_head" by (rule concat_runes)
  have d: "dropWhile (\<lambda>q. is_space_rune (fst q)) (replicate 40 (97, ''a'')) = replicate 40 (97, ''a'')"
    by (simp only: dropWhile_eq_self_iff) (simp add: is_space_rune_def)
  show "trim_runes is_space_rune sample_head = sample_head"
    unfolding trim_runes_def R by (simp only: d rev_replicate) (use c R in simp)
  show "head_ok sample_head" by (simp add: head_ok_def sample_head_def head_char_def list_all_iff)
qed

lemma sample_snapshot:
  assumes "length data \<le> 100"
  shows "\<exists>source safety. snapshot spell (sample_inspection data) sample_loop_config [] =
      Some (Inr \<lparr>fpHead = sample_head, fpSource = source, fpSafety = safety\<rparr>) \<and> digest spell sample_safety = Inr safety"
proof -
  let ?es = "enter (file_value spell (sample_inspection data)) [''a'', ''b''] []"
  have sha: "\<And>x. ascii (spell x)" using spell_collision_free by (simp add: collision_free_def)
  have flat: "flat_object sample_native_values" using nativePolicy_flat [OF sample_native sha] .
  have "jfits 0 sample_safety"
    unfolding sample_safety_def
    by (rule safety_value_fits [OF flat_files [OF spell_collision_free] flat]) (simp add: flat_value_def)
  then obtain t where safety: "digest spell sample_safety = Inr (spell t)" using digest_fits by blast
  have "jfits 0 (JObj ?es)"
    using flat_object_fits [OF flat_files [OF spell_collision_free], of "sample_inspection data" "[''a'', ''b'']"]
    by (simp add: jfits_def del: jdepth.simps jplain.simps enter_simps)
  then obtain u where source: "digest spell (JObj ?es) = Inr (spell u)" using digest_fits by blast
  have "snapshot spell (sample_inspection data) sample_loop_config [] =
      snapshot_files spell (sample_inspection data) sample_loop_config [] sample_head [''a'', ''b'']"
    using sample_names sample_head_ok
    by (simp add: snapshot_def sample_inspection_def has_prefix_def)
  then show ?thesis
    using sample_files [OF assms] source safety by (simp add: snapshot_digests_def del: enter_simps)
qed


section \<open>Witnesses\<close>

lemma snapshot_source_witness:
  "\<exists>f. snapshot spell (sample_inspection ''y'') sample_loop_config [] = Some (Inr f) \<and>
     observed (sample_inspection ''y'') = [''a'', ''b''] \<and>
     bytes_at (sample_inspection ''y'') ''r/b'' = Some (420, ''y'') \<and>
     set (observed (sample_inspection ''y'')) = set (observed (sample_inspection ''y''))"
proof -
  obtain f where f: "snapshot spell (sample_inspection ''y'') sample_loop_config [] = Some (Inr f)"
    using sample_snapshot [of "''y''"] by auto
  have "bytes_at (sample_inspection ''y'') ''r/b'' = Some (420, ''y'')"
    by (simp add: bytes_at_def entry_bytes_def sample_inspection_def sample_checkout_def mode_bits_def)
  with snapshot_source [OF spell_collision_free f f refl] f sample_observed show ?thesis by blast
qed

text \<open>The unprotected file differs, the protected one cannot.\<close>

lemma snapshot_safety_witness:
  "\<exists>f f'. snapshot spell (sample_inspection ''y'') sample_loop_config [] = Some (Inr f) \<and>
     snapshot spell (sample_inspection ''z'') sample_loop_config [] = Some (Inr f') \<and> fpSafety f = fpSafety f' \<and>
     set (governed (sample_inspection ''y'') sample_loop_config) = {''a''} \<and>
     bytes_at (sample_inspection ''y'') ''r/b'' \<noteq> bytes_at (sample_inspection ''z'') ''r/b'' \<and>
     bytes_at (sample_inspection ''y'') ''r/a'' = bytes_at (sample_inspection ''z'') ''r/a''"
proof -
  obtain f f' where f: "snapshot spell (sample_inspection ''y'') sample_loop_config [] = Some (Inr f)"
      "snapshot spell (sample_inspection ''z'') sample_loop_config [] = Some (Inr f')" and s: "fpSafety f = fpSafety f'"
    using sample_snapshot [of "''y''"] sample_snapshot [of "''z''"] by fastforce
  have n: "nativePolicy spell (in_tree (sample_inspection d)) (in_base (sample_inspection d)) = Some (Inr sample_native_values)" for d
    by (simp add: sample_inspection_def sample_native)
  have j: "join_path (in_base (sample_inspection d)) ''a'' = ''r/a''" for d by (simp add: join_path_def sample_inspection_def)
  have "bytes_at (sample_inspection ''y'') ''r/b'' \<noteq> bytes_at (sample_inspection ''z'') ''r/b''"
    by (simp add: bytes_at_def entry_bytes_def sample_inspection_def sample_checkout_def)
  with snapshot_safety [OF spell_collision_free f s n n] f s sample_governed j show ?thesis by auto
qed


end
