(* ===== verification/Statefile.thy ===== *)
theory Statefile
  imports Go_State Go_Strings
begin

text \<open>
  Persistent state storage (\<open>internal/statefile/storage.go\<close>).  The state directory maps names to inodes;
  \<open>fs_disk\<close> lists, for each name, the bindings a crash may leave behind, and \<open>n_durable\<close> the content of an
  inode that a crash cannot lose.  Every system call is one step: first the other processes act
  (\<open>w_other\<close>), then the call fails without effect (\<open>w_fault\<close>) or takes effect; \<open>sf_seen\<close> records the file
  system after each step.  The collaborators of \<open>Ops\<close> are the system calls they default to.
\<close>

section \<open>The file system\<close>

datatype kind = KRegular | KDirectory | KLink | KOther

record inode =
  n_kind :: kind
  n_links :: nat
  n_owner :: nat
  n_data :: string
  n_time :: nat
  n_durable :: "string option"

record fsys =
  fs_home :: "nat option"
  fs_names :: "string \<Rightarrow> nat option"
  fs_disk :: "string \<Rightarrow> nat option list"
  fs_inodes :: "nat \<Rightarrow> inode option"
  fs_next :: nat

text \<open>\<open>os.FileInfo\<close>: what one observation of an inode says; \<open>os.SameFile\<close> compares the inode.\<close>

record file_info =
  fi_ino :: nat
  fi_kind :: kind
  fi_links :: nat
  fi_owner :: nat
  fi_size :: nat
  fi_time :: nat

definition info_of :: "nat \<Rightarrow> inode \<Rightarrow> file_info" where
  "info_of i n = \<lparr>fi_ino = i, fi_kind = n_kind n, fi_links = n_links n, fi_owner = n_owner n,
     fi_size = length (n_data n), fi_time = n_time n\<rparr>"

definition same_file :: "file_info \<Rightarrow> file_info \<Rightarrow> bool" where
  "same_file a b \<longleftrightarrow> fi_ino a = fi_ino b"

datatype 'a sys = SysError | NotExist | Exists | Got 'a

section \<open>Handles\<close>

record Names =
  nHistory :: string
  nLock :: string
  nTemporary :: string

datatype sf_error = Unsafe | Busy | Replaced | Cancelled | NoPublication bool | Consumer

record statefile =
  sfDirectory :: "nat option"
  sfHistory :: "file_info option"
  sfLock :: "file_info option"
  sfReady :: bool
  sfHeld :: bool
  sfClosed :: bool

datatype flock = LockGranted | LockContended | LockFails

record sf_world =
  w_names :: Names
  w_uid :: nat
  w_text :: string
  w_other :: "nat \<Rightarrow> fsys \<Rightarrow> fsys"
  w_fault :: "nat \<Rightarrow> bool"
  w_cancelled :: "nat \<Rightarrow> bool"
  w_flock :: "nat \<Rightarrow> flock"

record sf_state =
  sf_tick :: nat
  sf_fs :: fsys
  sf_file :: statefile
  sf_seen :: "fsys list"

type_synonym 'a sf = "(sf_state, 'a) act"

definition statefile_limit :: nat where
  "statefile_limit = 33554432"

section \<open>System calls\<close>

definition sys_call :: "sf_world \<Rightarrow> (fsys \<Rightarrow> 'a sys \<times> fsys) \<Rightarrow> 'a sys sf" where
  "sys_call w f = (\<lambda>s.
     let fs = w_other w (sf_tick s) (sf_fs s);
         (r, fs') = (if w_fault w (sf_tick s) then (SysError, fs) else f fs)
     in (r, s\<lparr>sf_tick := Suc (sf_tick s), sf_fs := fs', sf_seen := sf_seen s @ [fs, fs']\<rparr>))"

definition observe_ino :: "nat option \<Rightarrow> fsys \<Rightarrow> file_info sys" where
  "observe_ino binding fs = (case binding of
       None \<Rightarrow> NotExist
     | Some i \<Rightarrow> (case fs_inodes fs i of None \<Rightarrow> SysError | Some n \<Rightarrow> Got (info_of i n)))"

definition lstat_home :: "sf_world \<Rightarrow> file_info sys sf" where
  "lstat_home w = sys_call w (\<lambda>fs. (observe_ino (fs_home fs) fs, fs))"

definition lstat :: "sf_world \<Rightarrow> string \<Rightarrow> file_info sys sf" where
  "lstat w name = sys_call w (\<lambda>fs. (observe_ino (fs_names fs name) fs, fs))"

definition fstat :: "sf_world \<Rightarrow> nat \<Rightarrow> file_info sys sf" where
  "fstat w i = sys_call w (\<lambda>fs. (observe_ino (Some i) fs, fs))"

text \<open>A call without an answer, such as \<open>Chmod\<close> of permissions the model does not keep, or \<open>Close\<close>.\<close>

definition plain_call :: "sf_world \<Rightarrow> unit sys sf" where
  "plain_call w = sys_call w (\<lambda>fs. (Got (), fs))"

definition bind_name :: "string \<Rightarrow> nat option \<Rightarrow> fsys \<Rightarrow> fsys" where
  "bind_name name b fs = fs\<lparr>fs_names := (fs_names fs)(name := b), fs_disk := (fs_disk fs)(name := b # fs_disk fs name)\<rparr>"

definition new_inode :: "sf_world \<Rightarrow> kind \<Rightarrow> inode" where
  "new_inode w k = \<lparr>n_kind = k, n_links = 1, n_owner = w_uid w, n_data = [], n_time = 0, n_durable = None\<rparr>"

definition create_file :: "sf_world \<Rightarrow> string \<Rightarrow> nat sys sf" where
  "create_file w name = sys_call w (\<lambda>fs.
     if fs_names fs name \<noteq> None then (Exists, fs)
     else (Got (fs_next fs), bind_name name (Some (fs_next fs))
       (fs\<lparr>fs_inodes := (fs_inodes fs)(fs_next fs := Some (new_inode w KRegular)), fs_next := Suc (fs_next fs)\<rparr>)))"

definition open_file :: "sf_world \<Rightarrow> string \<Rightarrow> nat sys sf" where
  "open_file w name = sys_call w (\<lambda>fs. (case fs_names fs name of
       None \<Rightarrow> NotExist
     | Some i \<Rightarrow> (case fs_inodes fs i of
         Some n \<Rightarrow> if n_kind n = KLink then SysError else Got i
       | None \<Rightarrow> SysError), fs))"

definition read_file :: "sf_world \<Rightarrow> nat \<Rightarrow> string sys sf" where
  "read_file w i = sys_call w (\<lambda>fs. (case fs_inodes fs i of Some n \<Rightarrow> Got (n_data n) | None \<Rightarrow> SysError, fs))"

definition change_inode :: "nat \<Rightarrow> (inode \<Rightarrow> inode) \<Rightarrow> fsys \<Rightarrow> fsys" where
  "change_inode i f fs = fs\<lparr>fs_inodes := (fs_inodes fs)(i := map_option f (fs_inodes fs i))\<rparr>"

definition write_file :: "sf_world \<Rightarrow> nat \<Rightarrow> string \<Rightarrow> unit sys sf" where
  "write_file w i data = sys_call w (\<lambda>fs. (Got (), change_inode i (\<lambda>n. n\<lparr>n_data := data, n_durable := None\<rparr>) fs))"

definition sync_file :: "sf_world \<Rightarrow> nat \<Rightarrow> unit sys sf" where
  "sync_file w i = sys_call w (\<lambda>fs. (Got (), change_inode i (\<lambda>n. n\<lparr>n_durable := Some (n_data n)\<rparr>) fs))"

definition drop_link :: "nat option \<Rightarrow> fsys \<Rightarrow> fsys" where
  "drop_link b fs = (case b of None \<Rightarrow> fs | Some i \<Rightarrow> change_inode i (\<lambda>n. n\<lparr>n_links := n_links n - 1\<rparr>) fs)"

definition rename_file :: "sf_world \<Rightarrow> string \<Rightarrow> string \<Rightarrow> unit sys sf" where
  "rename_file w from to = sys_call w (\<lambda>fs. case fs_names fs from of
       None \<Rightarrow> (NotExist, fs)
     | Some i \<Rightarrow>
         if fs_names fs to = Some i then (Got (), fs)
         else (Got (), bind_name from None (bind_name to (Some i) (drop_link (fs_names fs to) fs))))"

definition remove_file :: "sf_world \<Rightarrow> string \<Rightarrow> unit sys sf" where
  "remove_file w name = sys_call w (\<lambda>fs. case fs_names fs name of
       None \<Rightarrow> (NotExist, fs)
     | Some i \<Rightarrow> (Got (), bind_name name None (drop_link (Some i) fs)))"

definition sync_directory :: "sf_world \<Rightarrow> unit sys sf" where
  "sync_directory w = sys_call w (\<lambda>fs. (Got (), fs\<lparr>fs_disk := (\<lambda>name. [fs_names fs name])\<rparr>))"

definition cancelled :: "sf_world \<Rightarrow> bool sf" where
  "cancelled w = (\<lambda>s. (w_cancelled w (sf_tick s), s\<lparr>sf_tick := Suc (sf_tick s)\<rparr>))"

definition done_call :: "'a sys \<Rightarrow> bool" where
  "done_call r = (case r of Got _ \<Rightarrow> True | _ \<Rightarrow> False)"

text \<open>\<open>needs m c e k\<close>: run the call, and give up with \<open>e\<close> unless its answer satisfies \<open>c\<close>.\<close>

definition needs :: "'a sys sf \<Rightarrow> ('a \<Rightarrow> bool) \<Rightarrow> sf_error \<Rightarrow> ('a \<Rightarrow> (sf_error + 'b) sf) \<Rightarrow> (sf_error + 'b) sf" where
  "needs m c e k = bindS m (\<lambda>r. case r of Got x \<Rightarrow> if c x then k x else retS (Inl e) | _ \<Rightarrow> retS (Inl e))"

section \<open>Checks\<close>

definition update_file :: "(statefile \<Rightarrow> statefile) \<Rightarrow> unit sf" where
  "update_file f = modifyS (\<lambda>s. s\<lparr>sf_file := f (sf_file s)\<rparr>)"

definition owned :: "sf_world \<Rightarrow> file_info \<Rightarrow> bool" where
  "owned w i \<longleftrightarrow> fi_owner i = w_uid w"

definition regular :: "file_info \<Rightarrow> bool" where
  "regular i \<longleftrightarrow> fi_kind i = KRegular \<and> fi_links i = 1"

definition snapshotDescriptor :: "file_info \<Rightarrow> bool" where
  "snapshotDescriptor i \<longleftrightarrow> fi_kind i = KRegular \<and> fi_links i \<le> 1"

definition file_close :: "unit sf" where
  "file_close = update_file (\<lambda>f. f\<lparr>sfClosed := True, sfHeld := False, sfReady := False\<rparr>)"

definition check_name :: "sf_world \<Rightarrow> bool \<Rightarrow> string \<Rightarrow> file_info option \<Rightarrow> (sf_error + unit) sf" where
  "check_name w mutate name pinned = bindS (lstat w name) (\<lambda>r. case r of
       NotExist \<Rightarrow> retS (if pinned \<noteq> None then Inl Unsafe else Inr ())
     | Got i \<Rightarrow>
         if \<not> regular i \<or> (mutate \<and> \<not> owned w i) then retS (Inl Unsafe)
         else retS (if pinned = None \<or> same_file i (the pinned) then Inr () else Inl Unsafe)
     | _ \<Rightarrow> retS (Inl Unsafe))"

definition file_check :: "sf_world \<Rightarrow> bool \<Rightarrow> (sf_error + unit) sf" where
  "file_check w mutate = bindS (getS sf_file) (\<lambda>f.
     case (if sfClosed f then None else sfDirectory f) of
       None \<Rightarrow> retS (Inl Unsafe)
     | Some d \<Rightarrow>
         needs (lstat_home w) (\<lambda>i. fi_kind i = KDirectory \<and> fi_ino i = d \<and> (mutate \<longrightarrow> owned w i)) Unsafe (\<lambda>_.
         tryS (check_name w mutate (nHistory (w_names w)) None) (\<lambda>_.
         check_name w mutate (nLock (w_names w)) (sfLock f))))"

section \<open>Open\<close>

definition safe_basename :: "string \<Rightarrow> bool" where
  "safe_basename name \<longleftrightarrow> name \<noteq> [] \<and> name \<noteq> ''.'' \<and> name \<noteq> ''..'' \<and> \<not> contains_any name [CHR ''/'', CHR 0x5C]"

definition make_home :: "sf_world \<Rightarrow> unit sys sf" where
  "make_home w = sys_call w (\<lambda>fs.
     if fs_home fs \<noteq> None then (Exists, fs)
     else (Got (), fs\<lparr>fs_home := Some (fs_next fs), fs_next := Suc (fs_next fs),
       fs_inodes := (fs_inodes fs)(fs_next fs := Some (new_inode w KDirectory))\<rparr>))"

text \<open>\<open>Some False\<close> is the nil handle of absent storage, \<open>Some True\<close> an open one.\<close>

definition open_directory :: "sf_world \<Rightarrow> bool \<Rightarrow> file_info \<Rightarrow> (sf_error + bool) sf" where
  "open_directory w create info =
     (if fi_kind info \<noteq> KDirectory then retS (Inl Unsafe)
      else needs (lstat_home w) (\<lambda>opened. same_file info opened) Unsafe (\<lambda>opened.
        bindS (update_file (\<lambda>f. f\<lparr>sfDirectory := Some (fi_ino info)\<rparr>)) (\<lambda>_.
        tryS (file_check w False) (\<lambda>_.
          if \<not> create then retS (Inr True)
          else if \<not> owned w opened then retS (Inl Unsafe)
          else needs (plain_call w) (\<lambda>_. True) Unsafe (\<lambda>_. needs (plain_call w) (\<lambda>_. True) Unsafe (\<lambda>_.
            retS (Inr True)))))))"

definition open_home :: "sf_world \<Rightarrow> bool \<Rightarrow> (sf_error + bool) sf" where
  "open_home w create = bindS (lstat_home w) (\<lambda>r. case r of
       Got info \<Rightarrow> open_directory w create info
     | NotExist \<Rightarrow>
         if \<not> create then retS (Inr False)
         else bindS (make_home w) (\<lambda>m.
           if m \<noteq> Got () \<and> m \<noteq> Exists then retS (Inl Unsafe)
           else needs (lstat_home w) (\<lambda>_. True) Unsafe (open_directory w create))
     | _ \<Rightarrow> retS (Inl Unsafe))"

definition file_open :: "sf_world \<Rightarrow> bool \<Rightarrow> unit sys \<Rightarrow> (sf_error + bool) sf" where
  "file_open w create project =
     (if \<not> list_all safe_basename [nHistory (w_names w), nLock (w_names w), nTemporary (w_names w)] then retS (Inl Unsafe)
      else bindS (cancelled w) (\<lambda>c.
        if c then retS (Inl Cancelled)
        else case project of
            NotExist \<Rightarrow> retS (if create then Inl Unsafe else Inr False)
          | Got _ \<Rightarrow> bindS (open_home w create) (\<lambda>r. case r of
                Inl e \<Rightarrow> bindS file_close (\<lambda>_. retS (Inl e))
              | Inr b \<Rightarrow> retS (Inr b))
          | _ \<Rightarrow> retS (Inl Unsafe)))"

section \<open>Read\<close>

definition replacedSnapshot :: "sf_world \<Rightarrow> file_info \<Rightarrow> bool sf" where
  "replacedSnapshot w previous = bindS (lstat w (nHistory (w_names w))) (\<lambda>r.
     retS (case r of Got current \<Rightarrow> regular current \<and> \<not> same_file previous current | _ \<Rightarrow> False))"

definition refuse_snapshot :: "sf_world \<Rightarrow> file_info \<Rightarrow> (sf_error + 'a) sf" where
  "refuse_snapshot w previous = bindS (replacedSnapshot w previous) (\<lambda>b. retS (Inl (if b then Replaced else Unsafe)))"

text \<open>After \<open>consume\<close> has parsed the bytes: the descriptor must still be the one that was opened.\<close>

definition finish_read :: "sf_world \<Rightarrow> nat \<Rightarrow> file_info \<Rightarrow> 'a \<Rightarrow> (sf_error + 'a option) sf" where
  "finish_read w i opened v = needs (fstat w i) (\<lambda>after. snapshotDescriptor after \<and> same_file opened after \<and>
       fi_size opened = fi_size after \<and> fi_time opened = fi_time after) Unsafe (\<lambda>after.
     if \<not> regular after then refuse_snapshot w opened
     else bindS (update_file (\<lambda>f. f\<lparr>sfHistory := Some after, sfReady := True\<rparr>)) (\<lambda>_. retS (Inr (Some v))))"

definition read_snapshot :: "sf_world \<Rightarrow> (string \<Rightarrow> sf_error + 'a) \<Rightarrow> file_info \<Rightarrow> nat \<Rightarrow> (sf_error + 'a option) sf" where
  "read_snapshot w consume before i =
     needs (fstat w i) (\<lambda>opened. snapshotDescriptor opened \<and> fi_size opened \<le> statefile_limit) Unsafe (\<lambda>opened.
       if \<not> regular opened \<or> \<not> same_file before opened then refuse_snapshot w before
       else needs (read_file w i) (\<lambda>_. True) Consumer (\<lambda>data.
         case consume data of Inl e \<Rightarrow> retS (Inl e) | Inr v \<Rightarrow> finish_read w i opened v))"

definition file_read :: "sf_world \<Rightarrow> (string \<Rightarrow> sf_error + 'a) \<Rightarrow> (sf_error + 'a option) sf" where
  "file_read w consume = bindS (update_file (\<lambda>f. f\<lparr>sfReady := False\<rparr>)) (\<lambda>_. bindS (cancelled w) (\<lambda>c.
     if c then retS (Inl Cancelled)
     else tryS (file_check w False) (\<lambda>_. bindS (lstat w (nHistory (w_names w))) (\<lambda>r. case r of
         NotExist \<Rightarrow> bindS (update_file (\<lambda>f. f\<lparr>sfHistory := None, sfReady := True\<rparr>)) (\<lambda>_. retS (Inr None))
       | Got before \<Rightarrow>
           if \<not> regular before then retS (Inl Unsafe)
           else needs (open_file w (nHistory (w_names w))) (\<lambda>_. True) Unsafe (read_snapshot w consume before)
       | _ \<Rightarrow> retS (Inl Unsafe)))))"

section \<open>Acquire\<close>

definition failed_acquire :: "sf_error \<Rightarrow> (sf_error + unit) sf" where
  "failed_acquire e = bindS file_close (\<lambda>_. retS (Inl e))"

text \<open>The polling loop over the answers of \<open>flock\<close>; \<open>None\<close> when the fuel runs out.\<close>

fun flock_loop :: "nat \<Rightarrow> nat \<Rightarrow> sf_world \<Rightarrow> bool \<Rightarrow> ((sf_error + unit) option) sf" where
  "flock_loop 0 k w wait = retS None"
| "flock_loop (Suc fuel) k w wait = bindS (cancelled w) (\<lambda>c.
     if c then retS (Some (Inl Cancelled))
     else case w_flock w k of
         LockGranted \<Rightarrow> retS (Some (Inr ()))
       | LockFails \<Rightarrow> retS (Some (Inl Unsafe))
       | LockContended \<Rightarrow>
           if \<not> wait then retS (Some (Inl Busy))
           else bindS (cancelled w) (\<lambda>c. if c then retS (Some (Inl Cancelled)) else flock_loop fuel (Suc k) w wait))"

definition settle_acquire :: "sf_world \<Rightarrow> (sf_error + unit) option \<Rightarrow> ((sf_error + unit) option) sf" where
  "settle_acquire w r = (case r of
       None \<Rightarrow> retS None
     | Some (Inl e) \<Rightarrow> bindS (failed_acquire e) (\<lambda>x. retS (Some x))
     | Some (Inr _) \<Rightarrow> bindS (cancelled w) (\<lambda>c.
         if c then bindS (failed_acquire Cancelled) (\<lambda>x. retS (Some x))
         else bindS (file_check w True) (\<lambda>ok. case ok of
             Inl e \<Rightarrow> bindS (failed_acquire e) (\<lambda>x. retS (Some x))
           | Inr _ \<Rightarrow> bindS (update_file (\<lambda>f. f\<lparr>sfHeld := True\<rparr>)) (\<lambda>_. retS (Some (Inr ()))))))"

definition open_lock :: "sf_world \<Rightarrow> nat sys sf" where
  "open_lock w = bindS (create_file w (nLock (w_names w))) (\<lambda>r. case r of
       Exists \<Rightarrow> open_file w (nLock (w_names w))
     | _ \<Rightarrow> retS r)"

definition pin_lock :: "sf_world \<Rightarrow> (sf_error + unit) sf" where
  "pin_lock w = needs (open_lock w) (\<lambda>_. True) Unsafe (\<lambda>i.
     needs (fstat w i) (\<lambda>info. regular info \<and> owned w info) Unsafe (\<lambda>info.
       bindS (update_file (\<lambda>f. f\<lparr>sfLock := Some info\<rparr>)) (\<lambda>_. tryS (file_check w True) (\<lambda>_.
         needs (plain_call w) (\<lambda>_. True) Unsafe (\<lambda>_. retS (Inr ()))))))"

definition file_acquire :: "nat \<Rightarrow> sf_world \<Rightarrow> bool \<Rightarrow> ((sf_error + unit) option) sf" where
  "file_acquire fuel w wait = bindS (getS sf_file) (\<lambda>f.
     if sfClosed f \<or> sfHeld f \<or> sfDirectory f = None then retS (Some (Inl Unsafe))
     else bindS (cancelled w) (\<lambda>c.
       if c then bindS (failed_acquire Cancelled) (\<lambda>x. retS (Some x))
       else bindS (pin_lock w) (\<lambda>r. case r of
           Inl e \<Rightarrow> bindS (failed_acquire e) (\<lambda>x. retS (Some x))
         | Inr _ \<Rightarrow> bindS (flock_loop fuel 0 w wait) (settle_acquire w))))"

section \<open>Publish\<close>

text \<open>The deferred cleanup: \<open>committed\<close> is what the publication error says.\<close>

definition publish_cleanup :: "sf_world \<Rightarrow> string \<Rightarrow> file_info sys \<Rightarrow> bool \<Rightarrow> sf_error + unit \<Rightarrow> (sf_error + unit) sf" where
  "publish_cleanup w name created committed returned =
     bindS (plain_call w) (\<lambda>_. bindS (lstat w name) (\<lambda>r. case r of
         NotExist \<Rightarrow> retS returned
       | Got current \<Rightarrow> (case created of
             Got info \<Rightarrow>
               if \<not> same_file info current then retS (Inl (NoPublication committed))
               else bindS (remove_file w name) (\<lambda>d. retS (if done_call d then returned else Inl (NoPublication committed)))
           | _ \<Rightarrow> retS (Inl (NoPublication committed)))
       | _ \<Rightarrow> retS (Inl (NoPublication committed))))"

text \<open>The steps between creation and rename; the answer says whether the rename happened.\<close>

definition publish_settled :: "file_info \<Rightarrow> bool \<Rightarrow> (bool \<times> (sf_error + unit)) sf" where
  "publish_settled created good =
     (if \<not> good then retS (True, Inl (NoPublication True))
      else bindS (update_file (\<lambda>f. f\<lparr>sfHistory := Some created, sfReady := True\<rparr>)) (\<lambda>_. retS (True, Inr ())))"

definition publish_renamed :: "sf_world \<Rightarrow> file_info \<Rightarrow> (bool \<times> (sf_error + unit)) sf" where
  "publish_renamed w created = bindS (plain_call w) (\<lambda>d.
     if \<not> done_call d then publish_settled created False
     else bindS (sync_directory w) (\<lambda>y. bindS (plain_call w) (\<lambda>z. bindS (cancelled w) (\<lambda>c.
       publish_settled created (done_call y \<and> done_call z \<and> \<not> c)))))"

definition publish_commit :: "sf_world \<Rightarrow> string \<Rightarrow> file_info \<Rightarrow> (bool \<times> (sf_error + unit)) sf" where
  "publish_commit w name created = bindS (rename_file w name (nHistory (w_names w))) (\<lambda>r.
     if done_call r then publish_renamed w created else retS (False, Inl (NoPublication False)))"

definition same_snapshot :: "file_info option \<Rightarrow> file_info sys \<Rightarrow> bool" where
  "same_snapshot previous r = (case previous of
       None \<Rightarrow> r = NotExist
     | Some p \<Rightarrow> (case r of Got current \<Rightarrow> same_file current p | _ \<Rightarrow> False))"

definition publish_checked :: "sf_world \<Rightarrow> string \<Rightarrow> file_info \<Rightarrow> (bool \<times> (sf_error + unit)) sf" where
  "publish_checked w name created =
     bindS (getS (\<lambda>s. sfHistory (sf_file s))) (\<lambda>previous. bindS (lstat w (nHistory (w_names w))) (\<lambda>r.
       if \<not> same_snapshot previous r then retS (False, Inl (NoPublication False))
       else bindS (lstat w name) (\<lambda>t.
         if (case t of Got temporary \<Rightarrow> regular temporary \<and> same_file created temporary | _ \<Rightarrow> False)
         then publish_commit w name created
         else retS (False, Inl (NoPublication False)))))"

definition publish_written :: "sf_world \<Rightarrow> string \<Rightarrow> nat \<Rightarrow> file_info \<Rightarrow> string \<Rightarrow> (bool \<times> (sf_error + unit)) sf" where
  "publish_written w name i created data =
     bindS (plain_call w) (\<lambda>m. if \<not> done_call m then retS (False, Inl (NoPublication False)) else
     bindS (write_file w i data) (\<lambda>a. if \<not> done_call a then retS (False, Inl (NoPublication False)) else
     bindS (sync_file w i) (\<lambda>b. if \<not> done_call b then retS (False, Inl (NoPublication False)) else
     bindS (plain_call w) (\<lambda>x. if \<not> done_call x then retS (False, Inl (NoPublication False)) else
     bindS (cancelled w) (\<lambda>c. if c then retS (False, Inl (NoPublication False)) else
     bindS (file_check w True) (\<lambda>k. case k of
         Inl _ \<Rightarrow> retS (False, Inl (NoPublication False))
       | Inr _ \<Rightarrow> publish_checked w name created))))))"

definition publish_created :: "sf_world \<Rightarrow> string \<Rightarrow> nat \<Rightarrow> string \<Rightarrow> (sf_error + unit) sf" where
  "publish_created w name i data = bindS (fstat w i) (\<lambda>created.
     bindS (case created of
         Got info \<Rightarrow> if regular info \<and> owned w info then publish_written w name i info data
                     else retS (False, Inl (NoPublication False))
       | _ \<Rightarrow> retS (False, Inl (NoPublication False)))
     (\<lambda>(committed, r). publish_cleanup w name created committed r))"

definition temporary_name :: "sf_world \<Rightarrow> string" where
  "temporary_name w = nTemporary (w_names w) @ w_text w @ ''.tmp''"

definition file_publish :: "sf_world \<Rightarrow> string \<Rightarrow> (sf_error + unit) sf" where
  "file_publish w data = bindS (getS sf_file) (\<lambda>f.
     if sfClosed f \<or> \<not> sfHeld f \<or> \<not> sfReady f \<or> length data > statefile_limit then retS (Inl (NoPublication False))
     else bindS (update_file (\<lambda>f. f\<lparr>sfReady := False\<rparr>)) (\<lambda>_. bindS (cancelled w) (\<lambda>c.
       if c then retS (Inl Cancelled)
       else tryS (file_check w True) (\<lambda>_. bindS (create_file w (temporary_name w)) (\<lambda>r. case r of
           Got i \<Rightarrow> publish_created w (temporary_name w) i data
         | _ \<Rightarrow> retS (Inl (NoPublication False)))))))"

end
