(* ===== verification/Statefile_Props.thy ===== *)
theory Statefile_Props
  imports Statefile Loop_Run
begin

text \<open>
  Crash safety of a publication.  \<open>phase0\<close> to \<open>phase3\<close> are the states of the store while \<open>Publish\<close> runs:
  before the temporary file, with it, with its synchronised content, and after the rename.  A triple carries
  them through the steps and collects that every file system seen on the way is \<open>crash_atomic\<close>.
\<close>

section \<open>Other processes\<close>

definition store_names :: "sf_world \<Rightarrow> string set" where
  "store_names w = {nHistory (w_names w), nLock (w_names w), temporary_name w}"

definition refs :: "sf_world \<Rightarrow> fsys \<Rightarrow> nat set" where
  "refs w fs = {i. \<exists>x \<in> store_names w. fs_names fs x = Some i} \<union> {i. Some i \<in> set (fs_disk fs (nHistory (w_names w)))}"

text \<open>The discipline the advisory lock imposes on the other processes: they leave the names of this store, what
  the disk says of its history, and the inodes behind them alone; anything else may change.\<close>

definition quiet :: "sf_world \<Rightarrow> bool" where
  "quiet w \<longleftrightarrow> (\<forall>t fs. let fs' = w_other w t fs in
     (\<forall>x \<in> store_names w. fs_names fs' x = fs_names fs x) \<and>
     set (fs_disk fs' (nHistory (w_names w))) = set (fs_disk fs (nHistory (w_names w))) \<and>
     (\<forall>i \<in> refs w fs. fs_inodes fs' i = fs_inodes fs i) \<and> fs_next fs \<le> fs_next fs')"

definition apart :: "sf_world \<Rightarrow> bool" where
  "apart w \<longleftrightarrow> nHistory (w_names w) \<noteq> temporary_name w \<and> nLock (w_names w) \<noteq> temporary_name w \<and>
     nLock (w_names w) \<noteq> nHistory (w_names w)"

section \<open>Phases\<close>

definition holds_data :: "fsys \<Rightarrow> nat \<Rightarrow> string \<Rightarrow> bool" where
  "holds_data fs i data \<longleftrightarrow> (\<exists>n. fs_inodes fs i = Some n \<and> n_data n = data \<and> n_durable n = Some data)"

definition old_kept :: "nat option \<Rightarrow> string \<Rightarrow> fsys \<Rightarrow> bool" where
  "old_kept old od fs \<longleftrightarrow> (case old of None \<Rightarrow> True | Some j \<Rightarrow> holds_data fs j od)"

definition phase0 :: "sf_world \<Rightarrow> nat option \<Rightarrow> string \<Rightarrow> fsys \<Rightarrow> bool" where
  "phase0 w old od fs \<longleftrightarrow> fs_names fs (nHistory (w_names w)) = old \<and> set (fs_disk fs (nHistory (w_names w))) = {old} \<and>
     old_kept old od fs \<and> (\<forall>i \<in> refs w fs. i < fs_next fs)"

definition phase1 :: "sf_world \<Rightarrow> nat option \<Rightarrow> string \<Rightarrow> nat \<Rightarrow> fsys \<Rightarrow> bool" where
  "phase1 w old od i fs \<longleftrightarrow> phase0 w old od fs \<and> fs_names fs (temporary_name w) = Some i \<and> old \<noteq> Some i"

definition phase2 :: "sf_world \<Rightarrow> nat option \<Rightarrow> string \<Rightarrow> nat \<Rightarrow> string \<Rightarrow> fsys \<Rightarrow> bool" where
  "phase2 w old od i data fs \<longleftrightarrow> phase1 w old od i fs \<and> holds_data fs i data"

definition phase3 :: "sf_world \<Rightarrow> nat option \<Rightarrow> string \<Rightarrow> nat \<Rightarrow> string \<Rightarrow> bool \<Rightarrow> fsys \<Rightarrow> bool" where
  "phase3 w old od i data durable fs \<longleftrightarrow>
     fs_names fs (nHistory (w_names w)) = Some i \<and> fs_names fs (temporary_name w) = None \<and> holds_data fs i data \<and>
     Some i \<in> set (fs_disk fs (nHistory (w_names w))) \<and>
     set (fs_disk fs (nHistory (w_names w))) \<subseteq> (if durable then {Some i} else {old, Some i}) \<and>
     (old \<in> set (fs_disk fs (nHistory (w_names w))) \<and> old \<noteq> Some i \<longrightarrow> old_kept old od fs)"

text \<open>Whatever a crash leaves behind: the history is the old one, or the complete new one.\<close>

definition crash_atomic :: "sf_world \<Rightarrow> nat option \<Rightarrow> string \<Rightarrow> string \<Rightarrow> fsys \<Rightarrow> bool" where
  "crash_atomic w old od data fs \<longleftrightarrow>
     (\<forall>b \<in> set (fs_disk fs (nHistory (w_names w))). (b = old \<and> old_kept old od fs) \<or> (\<exists>i. b = Some i \<and> holds_data fs i data))"

lemma quietD:
  assumes "quiet w"
  shows "x \<in> store_names w \<Longrightarrow> fs_names (w_other w t fs) x = fs_names fs x"
    and "set (fs_disk (w_other w t fs) (nHistory (w_names w))) = set (fs_disk fs (nHistory (w_names w)))"
    and "i \<in> refs w fs \<Longrightarrow> fs_inodes (w_other w t fs) i = fs_inodes fs i"
    and "fs_next fs \<le> fs_next (w_other w t fs)"
  using assms by (auto simp: quiet_def Let_def)

lemma store_names_in [simp]:
  "nHistory (w_names w) \<in> store_names w" "nLock (w_names w) \<in> store_names w" "temporary_name w \<in> store_names w"
  by (simp_all add: store_names_def)

lemma refs_other: "quiet w \<Longrightarrow> refs w (w_other w t fs) = refs w fs"
  using quietD(1,2) by (auto simp: refs_def)

lemma refsI:
  "x \<in> store_names w \<Longrightarrow> fs_names fs x = Some i \<Longrightarrow> i \<in> refs w fs"
  "Some i \<in> set (fs_disk fs (nHistory (w_names w))) \<Longrightarrow> i \<in> refs w fs"
  by (auto simp: refs_def)

lemma holds_other: "quiet w \<Longrightarrow> i \<in> refs w fs \<Longrightarrow> holds_data (w_other w t fs) i data = holds_data fs i data"
  by (simp add: holds_data_def quietD(3))

lemma phase0_other: "quiet w \<Longrightarrow> phase0 w old od fs \<Longrightarrow> phase0 w old od (w_other w t fs)"
proof -
  assume q: "quiet w" and p: "phase0 w old od fs"
  have "old_kept old od (w_other w t fs)"
  proof (cases old)
    case (Some j)
    with p have "j \<in> refs w fs" by (auto simp: phase0_def intro: refsI)
    with p Some q show ?thesis by (simp add: phase0_def old_kept_def holds_other)
  qed (simp add: old_kept_def)
  with p q show ?thesis
    using quietD(4) [OF q, of fs t] by (auto simp: phase0_def refs_other quietD intro: less_le_trans)
qed

lemma phase1_other: "quiet w \<Longrightarrow> phase1 w old od i fs \<Longrightarrow> phase1 w old od i (w_other w t fs)"
  by (simp add: phase1_def phase0_other quietD)

lemma phase2_other: "quiet w \<Longrightarrow> phase2 w old od i data fs \<Longrightarrow> phase2 w old od i data (w_other w t fs)"
proof -
  assume q: "quiet w" and p: "phase2 w old od i data fs"
  then have "i \<in> refs w fs" using refsI(1) [OF store_names_in(3)] by (simp add: phase2_def phase1_def)
  with p q show ?thesis by (simp add: phase2_def phase1_other holds_other)
qed

lemma phase3_other: "quiet w \<Longrightarrow> phase3 w old od i data b fs \<Longrightarrow> phase3 w old od i data b (w_other w t fs)"
proof -
  assume q: "quiet w" and p: "phase3 w old od i data b fs"
  then have "i \<in> refs w fs" using refsI(1) [OF store_names_in(1)] by (simp add: phase3_def)
  moreover have "old_kept old od (w_other w t fs)"
    if "old \<in> set (fs_disk fs (nHistory (w_names w)))" "old_kept old od fs"
  proof (cases old)
    case (Some j)
    with that(1) have "j \<in> refs w fs" by (simp add: refsI(2))
    with that(2) q Some show ?thesis by (simp add: old_kept_def holds_other)
  qed (simp add: old_kept_def)
  ultimately show ?thesis using p q by (auto simp: phase3_def holds_other quietD)
qed

lemma phase_atomic:
  "phase0 w old od fs \<Longrightarrow> crash_atomic w old od data fs"
  "phase1 w old od i fs \<Longrightarrow> crash_atomic w old od data fs"
  "phase2 w old od i data fs \<Longrightarrow> crash_atomic w old od data fs"
  "phase3 w old od i data b fs \<Longrightarrow> crash_atomic w old od data fs"
  by (auto simp: phase0_def phase1_def phase2_def phase3_def crash_atomic_def split: if_splits)

section \<open>Triples\<close>

definition triple :: "(fsys \<Rightarrow> bool) \<Rightarrow> (fsys \<Rightarrow> statefile \<Rightarrow> bool) \<Rightarrow> 'a sf \<Rightarrow> ('a \<Rightarrow> fsys \<Rightarrow> statefile \<Rightarrow> bool) \<Rightarrow> bool" where
  "triple A P m Q \<longleftrightarrow> (\<forall>s. P (sf_fs s) (sf_file s) \<and> list_all A (sf_seen s) \<longrightarrow>
     wp m (\<lambda>r t. Q r (sf_fs t) (sf_file t) \<and> list_all A (sf_seen t)) s)"

lemma triple_bind:
  assumes "triple A P m R" and "\<And>x. triple A (R x) (f x) Q"
  shows "triple A P (bindS m f) Q"
  using assms by (auto simp: triple_def wp_bindS elim!: wp_mono)

lemma triple_ret: "(\<And>fs f. P fs f \<Longrightarrow> Q x fs f) \<Longrightarrow> triple A P (retS x) Q"
  by (simp add: triple_def wp_retS)

lemma triple_weaken:
  assumes "triple A P m Q" and "\<And>fs f. P' fs f \<Longrightarrow> P fs f" and "\<And>x fs f. Q x fs f \<Longrightarrow> Q' x fs f"
  shows "triple A P' m Q'"
  unfolding triple_def
proof (intro allI impI)
  fix s :: sf_state
  assume "P' (sf_fs s) (sf_file s) \<and> list_all A (sf_seen s)"
  with assms(1,2) have "wp m (\<lambda>r t. Q r (sf_fs t) (sf_file t) \<and> list_all A (sf_seen t)) s" by (simp add: triple_def)
  then show "wp m (\<lambda>r t. Q' r (sf_fs t) (sf_file t) \<and> list_all A (sf_seen t)) s" by (rule wp_mono) (use assms(3) in auto)
qed

lemma triple_if: "(b \<Longrightarrow> triple A P m Q) \<Longrightarrow> (\<not> b \<Longrightarrow> triple A P n Q) \<Longrightarrow> triple A P (if b then m else n) Q"
  by simp

lemma triple_fact: "(b \<Longrightarrow> triple A P m Q) \<Longrightarrow> triple A (\<lambda>fs f. P fs f \<and> b) m Q"
  by (cases b) (simp_all add: triple_def)

lemma triple_get: "(\<And>fs f. P fs f \<Longrightarrow> Q (g f) fs f) \<Longrightarrow> triple A P (getS (\<lambda>s. g (sf_file s))) Q"
  by (simp add: triple_def wp_getS)

lemma triple_update: "(\<And>fs f. P fs f \<Longrightarrow> Q () fs (g f)) \<Longrightarrow> triple A P (update_file g) Q"
  by (simp add: triple_def update_file_def wp_modifyS)

lemma triple_cancelled: "(\<And>fs f b. P fs f \<Longrightarrow> Q b fs f) \<Longrightarrow> triple A P (cancelled w) Q"
  by (simp add: triple_def cancelled_def wp_def)

lemma triple_sys:
  assumes "\<And>t fs f. P fs f \<Longrightarrow> P (w_other w t fs) f" and "\<And>fs f. P fs f \<Longrightarrow> A fs"
    and "\<And>fs f. P fs f \<Longrightarrow> Q SysError fs f"
    and "\<And>fs f r fs'. P fs f \<Longrightarrow> g fs = (r, fs') \<Longrightarrow> Q r fs' f \<and> A fs'"
  shows "triple A P (sys_call w g) Q"
proof -
  have "wp (sys_call w g) (\<lambda>r t. Q r (sf_fs t) (sf_file t) \<and> list_all A (sf_seen t)) s"
    if "P (sf_fs s) (sf_file s)" "list_all A (sf_seen s)" for s
  proof -
    let ?fs = "w_other w (sf_tick s) (sf_fs s)"
    have p: "P ?fs (sf_file s)" by (rule assms(1) [OF that(1)])
    obtain r fs' where g: "g ?fs = (r, fs')" by force
    from assms(2,3) [OF p] assms(4) [OF p g] g that(2) show ?thesis
      by (cases "w_fault w (sf_tick s)") (auto simp: wp_def sys_call_def Let_def)
  qed
  then show ?thesis by (simp add: triple_def)
qed

text \<open>A call that only observes.\<close>

lemma triple_observe:
  assumes "\<And>t fs f. P fs f \<Longrightarrow> P (w_other w t fs) f" and "\<And>fs f. P fs f \<Longrightarrow> A fs"
    and "\<And>fs f. P fs f \<Longrightarrow> Q SysError fs f" and "\<And>fs f. P fs f \<Longrightarrow> Q (g fs) fs f"
  shows "triple A P (sys_call w (\<lambda>fs. (g fs, fs))) Q"
  by (rule triple_sys) (use assms in auto)

text \<open>A condition that the other processes keep and that gives the invariant holds across an observation.\<close>

definition stable :: "sf_world \<Rightarrow> (fsys \<Rightarrow> bool) \<Rightarrow> (fsys \<Rightarrow> statefile \<Rightarrow> bool) \<Rightarrow> bool" where
  "stable w A P \<longleftrightarrow> (\<forall>fs f. P fs f \<longrightarrow> A fs \<and> (\<forall>t. P (w_other w t fs) f))"

lemma triple_keep:
  assumes "stable w A P"
  shows "triple A P (lstat w x) (\<lambda>_. P)" and "triple A P (lstat_home w) (\<lambda>_. P)"
    and "triple A P (fstat w i) (\<lambda>_. P)" and "triple A P (plain_call w) (\<lambda>_. P)"
    and "triple A P (cancelled w) (\<lambda>_. P)"
  unfolding lstat_def lstat_home_def fstat_def plain_call_def
  by (rule triple_observe triple_cancelled; use assms in \<open>simp add: stable_def\<close>)+

section \<open>Publish\<close>

text \<open>What each result of a publication means for the store; \<open>prev\<close> is the snapshot that was read.\<close>

definition store_result :: "sf_world \<Rightarrow> nat option \<Rightarrow> string \<Rightarrow> string \<Rightarrow> file_info option \<Rightarrow> sf_error + unit \<Rightarrow> fsys \<Rightarrow> bool" where
  "store_result w old od data prev r fs \<longleftrightarrow> (case r of
       Inr _ \<Rightarrow> old = map_option fi_ino prev \<and> (\<exists>i. phase3 w old od i data True fs)
     | Inl e \<Rightarrow>
         if e = NoPublication True then old = map_option fi_ino prev \<and> (\<exists>i. phase3 w old od i data False fs)
         else phase0 w old od fs)"

definition commit_result :: "sf_world \<Rightarrow> nat option \<Rightarrow> string \<Rightarrow> nat \<Rightarrow> string \<Rightarrow> file_info option \<Rightarrow>
    bool \<times> (sf_error + unit) \<Rightarrow> fsys \<Rightarrow> bool" where
  "commit_result w old od i data prev cr fs \<longleftrightarrow>
     (if fst cr then old = map_option fi_ino prev \<and>
        (case snd cr of Inr _ \<Rightarrow> phase3 w old od i data True fs
         | Inl e \<Rightarrow> e = NoPublication True \<and> phase3 w old od i data False fs)
      else snd cr = Inl (NoPublication False) \<and> phase1 w old od i fs)"

lemma phase3_weaken: "phase3 w old od i data True fs \<Longrightarrow> phase3 w old od i data b fs"
  by (auto simp: phase3_def split: if_splits)

lemma change_inode_simps [simp]:
  "fs_names (change_inode i f fs) = fs_names fs" "fs_disk (change_inode i f fs) = fs_disk fs"
  "fs_next (change_inode i f fs) = fs_next fs" "fs_home (change_inode i f fs) = fs_home fs"
  "refs w (change_inode i f fs) = refs w fs"
  by (simp_all add: change_inode_def refs_def)

lemma drop_link_simps [simp]:
  "fs_names (drop_link b fs) = fs_names fs" "fs_disk (drop_link b fs) = fs_disk fs" "fs_next (drop_link b fs) = fs_next fs"
  "holds_data (drop_link b fs) i data = holds_data fs i data"
  by (auto simp: drop_link_def holds_data_def change_inode_def split: option.splits)

lemma holds_change_other: "i \<noteq> j \<Longrightarrow> holds_data (change_inode i f fs) j data = holds_data fs j data"
  by (simp add: holds_data_def change_inode_def)

lemma holds_bind [simp]: "holds_data (bind_name x c fs) j e = holds_data fs j e"
  by (simp add: holds_data_def bind_name_def)

lemma old_kept_simps [simp]:
  "old_kept old od (bind_name x c fs) = old_kept old od fs" "old_kept old od (drop_link b fs) = old_kept old od fs"
  by (simp_all add: old_kept_def split: option.split)

lemma old_kept_change: "old \<noteq> Some i \<Longrightarrow> old_kept old od (change_inode i f fs) = old_kept old od fs"
  by (cases old) (simp_all add: old_kept_def holds_change_other)

lemma create_phase:
  assumes "apart w" and "phase0 w old od fs" and "fs_names fs (temporary_name w) = None"
  shows "phase1 w old od (fs_next fs) (bind_name (temporary_name w) (Some (fs_next fs))
     (fs\<lparr>fs_inodes := (fs_inodes fs)(fs_next fs := Some (new_inode w KRegular)), fs_next := Suc (fs_next fs)\<rparr>))"
proof -
  have ne: "nHistory (w_names w) \<noteq> temporary_name w" "nLock (w_names w) \<noteq> temporary_name w"
    using assms(1) by (simp_all add: apart_def)
  have old: "old \<noteq> Some (fs_next fs)"
  proof
    assume "old = Some (fs_next fs)"
    then have "fs_next fs \<in> refs w fs" using assms(2) refsI(1) [OF store_names_in(1)] by (simp add: phase0_def)
    then show False using assms(2) by (auto simp: phase0_def)
  qed
  let ?fs = "bind_name (temporary_name w) (Some (fs_next fs))
     (fs\<lparr>fs_inodes := (fs_inodes fs)(fs_next fs := Some (new_inode w KRegular)), fs_next := Suc (fs_next fs)\<rparr>)"
  have "refs w ?fs \<subseteq> insert (fs_next fs) (refs w fs)"
    using ne by (auto simp: refs_def bind_name_def split: if_splits)
  then have "\<forall>i \<in> refs w ?fs. i < fs_next ?fs"
    using assms(2) by (fastforce simp: phase0_def bind_name_def)
  moreover have "old_kept old od ?fs"
    using assms(2) old by (auto simp: phase0_def old_kept_def holds_data_def bind_name_def split: option.splits)
  ultimately show ?thesis
    using assms(2) old ne by (simp add: phase1_def phase0_def bind_name_def)
qed

lemma change_phase:
  "phase1 w old od i fs \<Longrightarrow> phase1 w old od i (change_inode i f fs)"
  by (simp add: phase1_def phase0_def old_kept_change)

lemma rename_phase:
  assumes "apart w" and "phase2 w old od i data fs"
  shows "phase3 w old od i data False (bind_name (temporary_name w) None (bind_name (nHistory (w_names w)) (Some i) (drop_link b fs)))"
proof -
  have "nHistory (w_names w) \<noteq> temporary_name w" using assms(1) by (simp add: apart_def)
  moreover from assms(2) have d: "set (fs_disk fs (nHistory (w_names w))) = {old}" "old \<noteq> Some i" "holds_data fs i data"
    "old_kept old od fs" by (simp_all add: phase2_def phase1_def phase0_def)
  ultimately show ?thesis
    by (simp add: phase3_def) (simp add: bind_name_def d)
qed

lemma sync_phase: "phase3 w old od i data b fs \<Longrightarrow> phase3 w old od i data True (fs\<lparr>fs_disk := (\<lambda>name. [fs_names fs name])\<rparr>)"
  by (auto simp: phase3_def holds_data_def)

lemma remove_phase:
  assumes "apart w" and "phase1 w old od i fs"
  shows "phase0 w old od (bind_name (temporary_name w) None (drop_link b fs))"
proof -
  have ne: "nHistory (w_names w) \<noteq> temporary_name w" using assms(1) by (simp add: apart_def)
  have "refs w (bind_name (temporary_name w) None (drop_link b fs)) \<subseteq> refs w fs"
    using ne by (auto simp: refs_def bind_name_def split: if_splits)
  moreover from assms(2) have "phase0 w old od fs" by (simp add: phase1_def)
  ultimately show ?thesis
    using ne by (auto simp: phase0_def) (auto simp: bind_name_def)
qed


lemma triple_needs:
  assumes "triple A P m R" and "\<And>x. c x \<Longrightarrow> triple A (R (Got x)) (k x) Q" and "\<And>r fs f. R r fs f \<Longrightarrow> Q (Inl e) fs f"
  shows "triple A P (needs m c e k) Q"
  unfolding needs_def
proof (rule triple_bind [OF assms(1)])
  fix r
  show "triple A (R r) (case r of Got x \<Rightarrow> if c x then k x else retS (Inl e) | _ \<Rightarrow> retS (Inl e)) Q"
    using assms(2,3) by (cases r) (auto intro: triple_ret)
qed

lemma triple_try:
  assumes "triple A P m R" and "\<And>x. triple A (R (Inr x)) (k x) Q" and "\<And>e fs f. R (Inl e) fs f \<Longrightarrow> Q (Inl e) fs f"
  shows "triple A P (tryS m k) Q"
  unfolding tryS_def
proof (rule triple_bind [OF assms(1)])
  fix r
  show "triple A (R r) (case r of Inl e \<Rightarrow> retS (Inl e) | Inr x \<Rightarrow> k x) Q"
    using assms(2,3) by (cases r) (auto intro: triple_ret)
qed

lemma check_result:
  assumes "stable w A P"
  shows "triple A P (file_check w b) (\<lambda>r fs f. P fs f \<and> (r = Inr () \<or> r = Inl Unsafe))"
proof -
  note keep = triple_keep [OF assms]
  let ?Q = "\<lambda>r fs f. P fs f \<and> (r = Inr () \<or> r = Inl Unsafe)"
  have name: "triple A P (check_name w b x p) ?Q" for x p
    unfolding check_name_def
  proof (rule triple_bind [OF keep(1)])
    fix r
    show "triple A P (case r of NotExist \<Rightarrow> retS (if p \<noteq> None then Inl Unsafe else Inr ())
       | Got i \<Rightarrow> if \<not> regular i \<or> (b \<and> \<not> owned w i) then retS (Inl Unsafe)
            else retS (if p = None \<or> same_file i (the p) then Inr () else Inl Unsafe)
       | _ \<Rightarrow> retS (Inl Unsafe)) ?Q"
      by (cases r) (auto intro: triple_ret)
  qed
  have names: "triple A P (tryS (check_name w b x p) (\<lambda>_. check_name w b y q)) ?Q" for x y p q
    by (rule triple_try [OF name]) (auto intro: triple_weaken [OF name])
  show ?thesis
    unfolding file_check_def
  proof (rule triple_bind [OF triple_get [where g = "\<lambda>f. f" and Q = "\<lambda>_. P"]])
    fix f
    show "triple A P (case if sfClosed f then None else sfDirectory f of None \<Rightarrow> retS (Inl Unsafe)
        | Some d \<Rightarrow> needs (lstat_home w) (\<lambda>i. fi_kind i = KDirectory \<and> fi_ino i = d \<and> (b \<longrightarrow> owned w i)) Unsafe (\<lambda>_.
            tryS (check_name w b (nHistory (w_names w)) None) (\<lambda>_. check_name w b (nLock (w_names w)) (sfLock f)))) ?Q"
      by (auto split: option.split intro!: triple_ret triple_needs [OF keep(2)] names)
  qed simp
qed

lemma check_keep: "stable w A P \<Longrightarrow> triple A P (file_check w b) (\<lambda>_. P)"
  by (rule triple_weaken [OF check_result [where P = P]]) simp_all

definition in_phase :: "(fsys \<Rightarrow> bool) \<Rightarrow> file_info option \<Rightarrow> fsys \<Rightarrow> statefile \<Rightarrow> bool" where
  "in_phase P prev fs f \<longleftrightarrow> P fs \<and> sfHistory f = prev"

lemma stable_phase:
  assumes "quiet w"
  shows "stable w (crash_atomic w old od data) (in_phase (phase0 w old od) prev)"
    and "stable w (crash_atomic w old od data) (in_phase (phase1 w old od i) prev)"
    and "stable w (crash_atomic w old od data) (in_phase (phase2 w old od i data) prev)"
    and "stable w (crash_atomic w old od data) (in_phase (phase3 w old od i data b) prev)"
  using assms by (auto simp: stable_def in_phase_def intro: phase0_other phase1_other phase2_other phase3_other phase_atomic)

lemma commit_triple:
  assumes "quiet w" and "apart w" and "old = map_option fi_ino prev"
  shows "triple (crash_atomic w old od data) (in_phase (phase2 w old od i data) prev) (publish_commit w (temporary_name w) created)
    (\<lambda>cr fs f. commit_result w old od i data prev cr fs)"
proof -
  let ?A = "crash_atomic w old od data"
  let ?h = "nHistory (w_names w)"
  let ?P2 = "in_phase (phase2 w old od i data) prev"
  let ?P3 = "\<lambda>b. in_phase (phase3 w old od i data b) prev"
  have rename: "triple ?A ?P2 (rename_file w (temporary_name w) ?h)
      (\<lambda>r fs f. if done_call r then ?P3 False fs f else ?P2 fs f)"
    unfolding rename_file_def
  proof (rule triple_sys)
    fix fs :: fsys and f and r :: "unit sys" and fs'
    assume p: "?P2 fs f"
      and g: "(case fs_names fs (temporary_name w) of None \<Rightarrow> (NotExist, fs)
        | Some i \<Rightarrow> if fs_names fs ?h = Some i then (Got (), fs)
            else (Got (), bind_name (temporary_name w) None (bind_name ?h (Some i) (drop_link (fs_names fs ?h) fs)))) = (r, fs')"
    from p have ph: "phase2 w old od i data fs" by (simp add: in_phase_def)
    then have "fs_names fs (temporary_name w) = Some i" "fs_names fs ?h \<noteq> Some i"
      by (simp_all add: phase2_def phase1_def phase0_def)
    with g rename_phase [OF assms(2) ph, of "fs_names fs ?h"] p phase_atomic(4)
    show "(if done_call r then ?P3 False fs' f else ?P2 fs' f) \<and> ?A fs'"
      by (auto simp: in_phase_def done_call_def)
  qed (use assms(1) phase2_other phase_atomic(3) in \<open>auto simp: in_phase_def done_call_def\<close>)
  have sync: "triple ?A (?P3 False) (sync_directory w) (\<lambda>r. ?P3 (done_call r))"
    unfolding sync_directory_def
    by (rule triple_sys) (use assms(1) phase3_other phase_atomic(4) phase_atomic(4) [OF sync_phase] sync_phase in \<open>auto simp: in_phase_def done_call_def\<close>)
  have settled: "triple ?A (?P3 b) (publish_settled created g) (\<lambda>cr fs f. commit_result w old od i data prev cr fs)"
    if "g \<longrightarrow> b" for b g
  proof (cases g)
    case True
    with that have b by simp
    with True show ?thesis
      unfolding publish_settled_def
      by (auto simp: in_phase_def commit_result_def assms(3)
          intro!: triple_bind [OF triple_update [where Q = "\<lambda>_ fs f. phase3 w old od i data True fs"]] triple_ret)
  next
    case False
    then show ?thesis
      using assms(3) phase3_weaken [of w old od i data _ False]
      unfolding publish_settled_def by (cases b) (auto simp: commit_result_def in_phase_def intro: triple_ret)
  qed
  note keep = triple_keep [OF stable_phase(4) [OF assms(1)]]
  have renamed: "triple ?A (?P3 False) (publish_renamed w created) (\<lambda>cr fs f. commit_result w old od i data prev cr fs)"
    unfolding publish_renamed_def
    by (rule triple_bind [OF keep(4)], rule triple_if, rule settled, simp, rule triple_bind [OF sync],
        rule triple_bind [OF keep(4)], rule triple_bind [OF keep(5)], rule settled, simp)
  show ?thesis
    unfolding publish_commit_def
    by (rule triple_bind [OF rename], rule triple_if, simp add: renamed)
      (rule triple_ret, simp add: commit_result_def in_phase_def phase2_def)
qed

lemma same_snapshot_old:
  assumes "r = SysError \<or> r = observe_ino old fs" and "same_snapshot prev r"
  shows "old = map_option fi_ino prev"
  using assms by (auto simp: same_snapshot_def same_file_def observe_ino_def info_of_def split: option.splits)

lemma checked_triple:
  assumes "quiet w" and "apart w"
  shows "triple (crash_atomic w old od data) (in_phase (phase2 w old od i data) prev) (publish_checked w (temporary_name w) created)
    (\<lambda>cr fs f. commit_result w old od i data prev cr fs)"
proof -
  let ?A = "crash_atomic w old od data"
  let ?P = "in_phase (phase2 w old od i data) prev"
  have stop: "?P fs f \<Longrightarrow> commit_result w old od i data prev (False, Inl (NoPublication False)) fs" for fs f
    by (simp add: commit_result_def in_phase_def phase2_def)
  have look: "triple ?A ?P (lstat w (nHistory (w_names w)))
      (\<lambda>r fs f. ?P fs f \<and> (same_snapshot prev r \<longrightarrow> old = map_option fi_ino prev))"
    unfolding lstat_def
  proof (rule triple_observe)
    fix fs f
    assume p: "?P fs f"
    then have "fs_names fs (nHistory (w_names w)) = old" by (simp add: in_phase_def phase2_def phase1_def phase0_def)
    with p same_snapshot_old [of "observe_ino old fs" old fs prev]
    show "?P fs f \<and> (same_snapshot prev (observe_ino (fs_names fs (nHistory (w_names w))) fs) \<longrightarrow> old = map_option fi_ino prev)"
      by simp
  qed (use stable_phase(3) [OF assms(1)] in \<open>auto simp: stable_def same_snapshot_def split: option.splits\<close>)
  have temp: "triple ?A ?P (bindS (lstat w (temporary_name w)) (\<lambda>t.
         if (case t of Got temporary \<Rightarrow> regular temporary \<and> same_file created temporary | _ \<Rightarrow> False)
         then publish_commit w (temporary_name w) created
         else retS (False, Inl (NoPublication False)))) (\<lambda>cr fs f. commit_result w old od i data prev cr fs)"
    if "old = map_option fi_ino prev"
    by (rule triple_bind [OF triple_keep(1) [OF stable_phase(3) [OF assms(1)]]], rule triple_if)
      (auto intro: commit_triple [OF assms that] triple_ret stop)
  have rest: "triple ?A ?P (bindS (lstat w (nHistory (w_names w))) (\<lambda>r.
       if \<not> same_snapshot prev r then retS (False, Inl (NoPublication False))
       else bindS (lstat w (temporary_name w)) (\<lambda>t.
         if (case t of Got temporary \<Rightarrow> regular temporary \<and> same_file created temporary | _ \<Rightarrow> False)
         then publish_commit w (temporary_name w) created
         else retS (False, Inl (NoPublication False))))) (\<lambda>cr fs f. commit_result w old od i data prev cr fs)"
    by (rule triple_bind [OF look], rule triple_fact, rule triple_if, rule triple_ret, erule stop, rule temp, simp)
  show ?thesis
    unfolding publish_checked_def
    by (rule triple_bind [OF triple_get [where g = sfHistory and Q = "\<lambda>r fs f. ?P fs f \<and> r = prev"]])
      (simp add: in_phase_def, rule triple_fact, simp only: rest)
qed

lemma write_phase: "phase1 w old od i fs \<Longrightarrow> crash_atomic w old od data (change_inode i f fs)"
  by (rule phase_atomic(2) [OF change_phase])

definition made :: "sf_world \<Rightarrow> nat option \<Rightarrow> string \<Rightarrow> nat \<Rightarrow> fsys \<Rightarrow> bool" where
  "made w old od i fs \<longleftrightarrow> phase1 w old od i fs \<and> fs_inodes fs i \<noteq> None"

lemma written_triple:
  assumes "quiet w" and "apart w"
  shows "triple (crash_atomic w old od data)
    (in_phase (made w old od i) prev) (publish_written w (temporary_name w) i created data)
    (\<lambda>cr fs f. commit_result w old od i data prev cr fs)"
proof -
  let ?A = "crash_atomic w old od data"
  let ?E = "made w old od i"
  let ?W = "\<lambda>fs. phase1 w old od i fs \<and> (\<exists>n. fs_inodes fs i = Some n \<and> n_data n = data)"
  have mine: "fs_inodes (w_other w t fs) i = fs_inodes fs i" if "phase1 w old od i fs" for t fs
    using that assms(1) refsI(1) [OF store_names_in(3)] by (simp add: phase1_def quietD(3))
  have stable: "stable w ?A (in_phase ?E prev)" "stable w ?A (in_phase ?W prev)"
    using assms(1) by (auto simp: stable_def in_phase_def made_def mine phase1_other phase_atomic(2))
  note keep = triple_keep [OF stable(1)]
  have stop: "phase1 w old od i fs \<Longrightarrow> commit_result w old od i data prev (False, Inl (NoPublication False)) fs" for fs
    by (simp add: commit_result_def)
  have wrote: "triple ?A (in_phase ?E prev) (write_file w i data)
      (\<lambda>r fs f. if done_call r then in_phase ?W prev fs f else in_phase ?E prev fs f)"
    unfolding write_file_def
  proof (rule triple_sys)
    fix fs f and r :: "unit sys" and fs'
    assume "in_phase ?E prev fs f" and "(Got (), change_inode i (\<lambda>n. n\<lparr>n_data := data, n_durable := None\<rparr>) fs) = (r, fs')"
    then show "(if done_call r then in_phase ?W prev fs' f else in_phase ?E prev fs' f) \<and> ?A fs'"
      by (auto simp: in_phase_def made_def change_phase write_phase done_call_def) (auto simp: change_inode_def)
  qed (use stable(1) in \<open>auto simp: stable_def done_call_def\<close>)
  have sync: "triple ?A (in_phase ?W prev) (sync_file w i)
      (\<lambda>r fs f. if done_call r then in_phase (phase2 w old od i data) prev fs f else in_phase ?W prev fs f)"
    unfolding sync_file_def
  proof (rule triple_sys)
    fix fs f and r :: "unit sys" and fs'
    assume "in_phase ?W prev fs f" and "(Got (), change_inode i (\<lambda>n. n\<lparr>n_durable := Some (n_data n)\<rparr>) fs) = (r, fs')"
    then show "(if done_call r then in_phase (phase2 w old od i data) prev fs' f else in_phase ?W prev fs' f) \<and> ?A fs'"
      by (auto simp: in_phase_def phase2_def change_phase write_phase done_call_def holds_data_def) (auto simp: change_inode_def)
  qed (use stable(2) in \<open>auto simp: stable_def done_call_def\<close>)
  note keep2 = triple_keep [OF stable_phase(3) [OF assms(1)]]
  have stop2: "in_phase (phase2 w old od i data) prev fs f \<Longrightarrow> commit_result w old od i data prev (False, Inl (NoPublication False)) fs"
    for fs f by (simp add: in_phase_def phase2_def stop)
  have check: "triple ?A (in_phase (phase2 w old od i data) prev) (bindS (file_check w True) (\<lambda>k. case k of
         Inl _ \<Rightarrow> retS (False, Inl (NoPublication False))
       | Inr _ \<Rightarrow> publish_checked w (temporary_name w) created)) (\<lambda>cr fs f. commit_result w old od i data prev cr fs)"
  proof (rule triple_bind [OF check_keep [OF stable_phase(3) [OF assms(1)]]])
    fix k :: "sf_error + unit"
    show "triple ?A (in_phase (phase2 w old od i data) prev) (case k of Inl _ \<Rightarrow> retS (False, Inl (NoPublication False))
        | Inr _ \<Rightarrow> publish_checked w (temporary_name w) created) (\<lambda>cr fs f. commit_result w old od i data prev cr fs)"
      using checked_triple [OF assms] by (cases k) (auto intro: triple_ret stop2)
  qed
  have fail: "triple ?A P (retS (False, Inl (NoPublication False))) (\<lambda>cr fs f. commit_result w old od i data prev cr fs)"
    if "\<And>fs f. P fs f \<Longrightarrow> phase1 w old od i fs" for P :: "fsys \<Rightarrow> statefile \<Rightarrow> bool"
    by (rule triple_ret) (rule stop [OF that])
  show ?thesis
    unfolding publish_written_def
    apply (rule triple_bind [OF keep(4)], rule triple_if, rule fail, simp add: in_phase_def made_def)
    apply (rule triple_bind [OF wrote], rule triple_if, rule fail, simp add: in_phase_def made_def, simp)
    apply (rule triple_bind [OF sync], rule triple_if, rule fail, simp add: in_phase_def made_def, simp)
    apply (rule triple_bind [OF keep2(4)], rule triple_if, rule fail, simp add: in_phase_def phase2_def)
    apply (rule triple_bind [OF keep2(5)], rule triple_if, rule fail, simp add: in_phase_def phase2_def)
    apply (rule check)
    done
qed

lemma cleanup_triple:
  assumes "quiet w" and "apart w"
  shows "triple (crash_atomic w old od data) (\<lambda>fs f. commit_result w old od i data prev (committed, returned) fs)
    (publish_cleanup w (temporary_name w) created committed returned) (\<lambda>r fs f. store_result w old od data prev r fs)"
proof -
  let ?A = "crash_atomic w old od data"
  let ?C = "\<lambda>fs (f :: statefile). commit_result w old od i data prev (committed, returned) fs"
  have phases: "?C fs f \<Longrightarrow> (if committed then \<exists>b. phase3 w old od i data b fs else phase1 w old od i fs)" for fs f
    by (auto simp: commit_result_def split: sum.splits if_splits)
  have stable: "stable w ?A ?C"
    using assms(1) phase3_other [of w old od i data _ _] phase1_other [of w old od i _] phases
    by (auto simp: stable_def commit_result_def split: sum.splits if_splits intro: phase_atomic(2,4))
  have kept: "?C fs f \<Longrightarrow> store_result w old od data prev returned fs"
    and fail: "?C fs f \<Longrightarrow> store_result w old od data prev (Inl (NoPublication committed)) fs" for fs f
    using phase3_weaken [of w old od i data fs False]
    by (auto simp: commit_result_def store_result_def phase1_def split: sum.splits if_splits)
  have look: "triple ?A ?C (lstat w (temporary_name w)) (\<lambda>r fs f. ?C fs f \<and> (\<forall>x. r = Got x \<longrightarrow> \<not> committed))"
    unfolding lstat_def
    by (rule triple_observe) (use stable phases in \<open>auto simp: stable_def observe_ino_def phase3_def split: option.splits if_splits\<close>)
  have drop: "triple ?A ?C (remove_file w (temporary_name w)) (\<lambda>d fs f. store_result w old od data prev returned fs \<and>
      store_result w old od data prev (Inl (NoPublication committed)) fs)" if "\<not> committed"
    unfolding remove_file_def
  proof (rule triple_sys)
    fix fs f and r :: "unit sys" and fs'
    assume c: "?C fs f" and g: "(case fs_names fs (temporary_name w) of None \<Rightarrow> (NotExist, fs)
       | Some i \<Rightarrow> (Got (), bind_name (temporary_name w) None (drop_link (Some i) fs))) = (r, fs')"
    from c that have p: "phase1 w old od i fs" and ret: "returned = Inl (NoPublication False)"
      by (simp_all add: commit_result_def)
    from p g have "fs' = bind_name (temporary_name w) None (drop_link (Some i) fs)" by (simp add: phase1_def)
    with remove_phase [OF assms(2) p] phase_atomic(1) that ret
    show "(store_result w old od data prev returned fs' \<and> store_result w old od data prev (Inl (NoPublication committed)) fs') \<and> ?A fs'"
      by (simp add: store_result_def)
  qed (use stable kept fail in \<open>auto simp: stable_def\<close>)
  have ended: "triple ?A ?C (retS returned) (\<lambda>r fs f. store_result w old od data prev r fs)"
    and failed: "triple ?A ?C (retS (Inl (NoPublication committed))) (\<lambda>r fs f. store_result w old od data prev r fs)"
    by (auto intro: triple_ret kept fail)
  show ?thesis
    unfolding publish_cleanup_def
  proof (rule triple_bind [OF triple_keep(4) [OF stable]], rule triple_bind [OF look])
    fix r
    have remove: "triple ?A ?C (bindS (remove_file w (temporary_name w))
        (\<lambda>d. retS (if done_call d then returned else Inl (NoPublication committed))))
        (\<lambda>r fs f. store_result w old od data prev r fs)" if "\<not> committed"
      by (rule triple_bind [OF drop [OF that]]) (auto intro: triple_ret)
    show "triple ?A (\<lambda>fs f. ?C fs f \<and> (\<forall>x. r = Got x \<longrightarrow> \<not> committed)) (case r of NotExist \<Rightarrow> retS returned
       | Got current \<Rightarrow> (case created of
             Got info \<Rightarrow>
               if \<not> same_file info current then retS (Inl (NoPublication committed))
               else bindS (remove_file w (temporary_name w)) (\<lambda>d. retS (if done_call d then returned else Inl (NoPublication committed)))
           | _ \<Rightarrow> retS (Inl (NoPublication committed)))
       | _ \<Rightarrow> retS (Inl (NoPublication committed))) (\<lambda>r fs f. store_result w old od data prev r fs)"
    proof (rule triple_fact)
      assume "\<forall>x. r = Got x \<longrightarrow> \<not> committed"
      then show "triple ?A ?C (case r of NotExist \<Rightarrow> retS returned
         | Got current \<Rightarrow> (case created of
               Got info \<Rightarrow>
                 if \<not> same_file info current then retS (Inl (NoPublication committed))
                 else bindS (remove_file w (temporary_name w)) (\<lambda>d. retS (if done_call d then returned else Inl (NoPublication committed)))
             | _ \<Rightarrow> retS (Inl (NoPublication committed)))
         | _ \<Rightarrow> retS (Inl (NoPublication committed))) (\<lambda>r fs f. store_result w old od data prev r fs)"
        using ended failed remove by (cases r; cases created) simp_all
    qed
  qed
qed

lemma created_triple:
  assumes "quiet w" and "apart w"
  shows "triple (crash_atomic w old od data) (in_phase (made w old od i) prev)
    (publish_created w (temporary_name w) i data) (\<lambda>r fs f. store_result w old od data prev r fs)"
proof -
  let ?A = "crash_atomic w old od data"
  let ?E = "in_phase (made w old od i) prev"
  have "fs_inodes (w_other w t fs) i = fs_inodes fs i" if "phase1 w old od i fs" for t fs
    using that assms(1) refsI(1) [OF store_names_in(3)] by (simp add: phase1_def quietD(3))
  then have stable: "stable w ?A ?E"
    using assms(1) by (auto simp: stable_def in_phase_def made_def phase1_other phase_atomic(2))
  have stop: "triple ?A ?E (retS (False, Inl (NoPublication False))) (\<lambda>cr fs f. commit_result w old od i data prev cr fs)"
    by (rule triple_ret) (simp add: in_phase_def made_def commit_result_def)
  have body: "triple ?A ?E (case created of
         Got info \<Rightarrow> if regular info \<and> owned w info then publish_written w (temporary_name w) i info data
                     else retS (False, Inl (NoPublication False))
       | _ \<Rightarrow> retS (False, Inl (NoPublication False))) (\<lambda>cr fs f. commit_result w old od i data prev cr fs)" for created
    by (cases created) (auto intro: stop written_triple [OF assms])
  show ?thesis
    unfolding publish_created_def
  proof (rule triple_bind [OF triple_keep(3) [OF stable]], rule triple_bind [OF body])
    fix created :: "file_info sys" and cr :: "bool \<times> (sf_error + unit)"
    show "triple ?A (\<lambda>fs f. commit_result w old od i data prev cr fs)
       (case cr of (committed, r) \<Rightarrow> publish_cleanup w (temporary_name w) created committed r)
       (\<lambda>r fs f. store_result w old od data prev r fs)"
      by (cases cr) (simp add: cleanup_triple [OF assms])
  qed
qed

lemma publish_triple:
  assumes "quiet w" and "apart w"
  shows "triple (crash_atomic w old od data) (in_phase (phase0 w old od) prev) (file_publish w data)
    (\<lambda>r fs f. store_result w old od data prev r fs)"
proof -
  let ?A = "crash_atomic w old od data"
  let ?P = "in_phase (phase0 w old od) prev"
  have stop: "triple ?A ?P (retS (Inl e)) (\<lambda>r fs f. store_result w old od data prev r fs)" if "e \<noteq> NoPublication True" for e
    by (rule triple_ret) (simp add: in_phase_def store_result_def that)
  have create: "triple ?A ?P (create_file w (temporary_name w)) (\<lambda>r. case r of
      Got i \<Rightarrow> in_phase (made w old od i) prev | _ \<Rightarrow> ?P)"
    unfolding create_file_def
  proof (rule triple_sys)
    fix fs f r fs'
    assume p: "?P fs f" and g: "(if fs_names fs (temporary_name w) \<noteq> None then (Exists, fs)
     else (Got (fs_next fs), bind_name (temporary_name w) (Some (fs_next fs))
       (fs\<lparr>fs_inodes := (fs_inodes fs)(fs_next fs := Some (new_inode w KRegular)), fs_next := Suc (fs_next fs)\<rparr>))) = (r, fs')"
    then show "(case r of Got i \<Rightarrow> in_phase (made w old od i) prev | _ \<Rightarrow> ?P) fs' f \<and> ?A fs'"
      using create_phase [OF assms(2), of old od fs] phase_atomic(2) [OF create_phase [OF assms(2), of old od fs]] phase_atomic(1)
      by (auto simp: in_phase_def made_def split: if_splits) (auto simp: bind_name_def)
  qed (use stable_phase(1) [OF assms(1)] in \<open>auto simp: stable_def\<close>)
  have body: "triple ?A ?P (bindS (create_file w (temporary_name w)) (\<lambda>r. case r of
           Got i \<Rightarrow> publish_created w (temporary_name w) i data
         | _ \<Rightarrow> retS (Inl (NoPublication False)))) (\<lambda>r fs f. store_result w old od data prev r fs)"
  proof (rule triple_bind [OF create])
    fix r
    show "triple ?A (case r of Got i \<Rightarrow> in_phase (made w old od i) prev | _ \<Rightarrow> ?P)
      (case r of Got i \<Rightarrow> publish_created w (temporary_name w) i data | _ \<Rightarrow> retS (Inl (NoPublication False)))
      (\<lambda>r fs f. store_result w old od data prev r fs)"
      by (cases r) (auto intro: stop created_triple [OF assms])
  qed
  have checked: "triple ?A ?P (tryS (file_check w True) (\<lambda>_. bindS (create_file w (temporary_name w)) (\<lambda>r. case r of
           Got i \<Rightarrow> publish_created w (temporary_name w) i data
         | _ \<Rightarrow> retS (Inl (NoPublication False))))) (\<lambda>r fs f. store_result w old od data prev r fs)"
    by (rule triple_try [OF check_result [OF stable_phase(1) [OF assms(1)]]], rule triple_weaken [OF body])
      (auto simp: in_phase_def store_result_def)
  have unready: "triple ?A ?P (update_file (\<lambda>f. f\<lparr>sfReady := False\<rparr>)) (\<lambda>_. ?P)"
    by (rule triple_update) (simp add: in_phase_def)
  show ?thesis
    unfolding file_publish_def
    by (rule triple_bind [OF triple_get [where g = "\<lambda>f. f" and Q = "\<lambda>_. ?P"]], assumption, rule triple_if, rule stop, simp,
        rule triple_bind [OF unready], rule triple_bind [OF triple_keep(5) [OF stable_phase(1) [OF assms(1)]]],
        rule triple_if, rule stop, simp, rule checked)
qed

end
