(* ===== verification/Atomic_Store.thy ===== *)
theory Atomic_Store
  imports Loop_Run
begin

text \<open>
  The contract of the durable store under the ledger and the checkpoints: what a publication answers tells what is
  stored after it.  Its clients are the transaction of the loop store and the history write of the ledger.
\<close>

definition replaced :: "publish_result \<Rightarrow> bool" where
  "replaced p \<longleftrightarrow> p = Published \<or> p = Uncertain"

locale atomic_store =
  fixes publish :: "string \<Rightarrow> 's \<Rightarrow> publish_result \<times> 's"
    and stored :: "'s \<Rightarrow> string option"
    and ready :: "'s \<Rightarrow> bool"
  assumes publish_law: "ready s \<Longrightarrow> stored (snd (publish d s)) = (if replaced (fst (publish d s)) then Some d else stored s)"
begin

lemma transaction_agrees:
  assumes "ready s" and "tStored t = stored s"
  shows "tStored (snd (tx_publish (fst (publish d s)) d t)) = stored (snd (publish d s))"
  using publish_law [OF assms(1), of d] assms(2)
  by (cases "fst (publish d s)") (simp_all add: tx_publish_def replaced_def)

text \<open>The history the ledger says it may have replaced is the one whose text is stored.\<close>

lemma ledger_agrees:
  assumes "ready s" and "le_publish env = fst (publish d s)" and "validateHistory h = Inr x" and "le_encodable env h"
  shows "stored (snd (publish d s)) = (if snd (write_history env h) = None then stored s else Some d)"
  using publish_law [OF assms(1), of d] assms(2-4)
  by (cases "fst (publish d s)") (simp_all add: write_history_def replaced_def)

end

end
