(* ===== verification/Statefile_Claims.thy ===== *)
theory Statefile_Claims
  imports Statefile_Props Atomic_Store
begin

text \<open>
  What the state storage promises: a publication is atomic under crashes at every point, its error says exactly
  whether the file may have been replaced, what it published is what is read back, the abstract transaction of the
  loop store is refined, and a waiting \<open>Acquire\<close> obtains the lock once it is free.
\<close>

section \<open>A sample store\<close>

definition sample_names :: Names where
  "sample_names = \<lparr>nHistory = ''h'', nLock = ''l'', nTemporary = ''t''\<rparr>"

definition idle_world :: "(nat \<Rightarrow> bool) \<Rightarrow> (nat \<Rightarrow> flock) \<Rightarrow> sf_world" where
  "idle_world faults locks = \<lparr>w_names = sample_names, w_uid = 7, w_text = ''ab'', w_other = (\<lambda>_ fs. fs), w_fault = faults,
     w_cancelled = (\<lambda>_. False), w_flock = locks\<rparr>"

definition sample_inode :: "kind \<Rightarrow> string \<Rightarrow> inode" where
  "sample_inode k data = \<lparr>n_kind = k, n_links = 1, n_owner = 7, n_data = data, n_time = 5, n_durable = Some data\<rparr>"

definition store :: "nat option \<Rightarrow> nat option \<Rightarrow> nat option list \<Rightarrow> nat option list \<Rightarrow> inode \<Rightarrow> inode option \<Rightarrow> nat \<Rightarrow> fsys" where
  "store h t dh dt n1 n3 k = \<lparr>fs_home = Some 0,
     fs_names = (\<lambda>x. if x = ''h'' then h else if x = ''l'' then Some 2 else if x = ''tab.tmp'' then t else None),
     fs_disk = (\<lambda>x. if x = ''h'' then dh else if x = ''l'' then [Some 2] else if x = ''tab.tmp'' then dt else [None]),
     fs_inodes = (\<lambda>i. if i = 0 then Some (sample_inode KDirectory []) else if i = 1 then Some n1
       else if i = 2 then Some (sample_inode KRegular []) else if i = 3 then n3 else None),
     fs_next = k\<rparr>"

definition sample_fs :: fsys where
  "sample_fs = store (Some 1) None [Some 1] [None] (sample_inode KRegular ''old'') None 3"

definition sample_file :: "bool \<Rightarrow> statefile" where
  "sample_file held = \<lparr>sfDirectory = Some 0, sfHistory = (if held then Some (info_of 1 (sample_inode KRegular ''old'')) else None),
     sfLock = (if held then Some (info_of 2 (sample_inode KRegular [])) else None), sfReady = held, sfHeld = held, sfClosed = False\<rparr>"

definition sample_state :: "bool \<Rightarrow> sf_state" where
  "sample_state held = \<lparr>sf_tick = 0, sf_fs = sample_fs, sf_file = sample_file held, sf_seen = []\<rparr>"

abbreviation calm :: sf_world where
  "calm \<equiv> idle_world (\<lambda>_. False) (\<lambda>k. if k < 2 then LockContended else LockGranted)"

text \<open>The synchronisation of the directory fails.\<close>

abbreviation faulty :: sf_world where
  "faulty \<equiv> idle_world (\<lambda>t. t = 18) (\<lambda>_. LockGranted)"

lemma sample_seen [simp]: "sf_seen (sample_state b) = []"
  by (simp add: sample_state_def)

lemma idle_quiet: "quiet (idle_world faults locks)"
  by (simp add: quiet_def idle_world_def)

lemma idle_apart: "apart (idle_world faults locks)"
  by (simp add: apart_def idle_world_def sample_names_def temporary_name_def)

lemma sample_phase: "phase0 (idle_world faults locks) (Some 1) ''old'' (sf_fs (sample_state b))"
  by (auto simp: phase0_def idle_world_def sample_names_def sample_state_def sample_fs_def store_def old_kept_def holds_data_def
      sample_inode_def refs_def store_names_def temporary_name_def split: if_splits)

text \<open>The operations on a store of this form give a store of this form.\<close>

lemma store_simps [simp]:
  "fs_home (store h t dh dt n1 n3 k) = Some 0" "fs_next (store h t dh dt n1 n3 k) = k"
  "fs_names (store h t dh dt n1 n3 k) ''h'' = h" "fs_names (store h t dh dt n1 n3 k) ''l'' = Some 2"
  "fs_names (store h t dh dt n1 n3 k) ''tab.tmp'' = t"
  "fs_inodes (store h t dh dt n1 n3 k) 0 = Some (sample_inode KDirectory [])" "fs_inodes (store h t dh dt n1 n3 k) (Suc 0) = Some n1"
  "fs_inodes (store h t dh dt n1 n3 k) 2 = Some (sample_inode KRegular [])" "fs_inodes (store h t dh dt n1 n3 k) 3 = n3"
  by (simp_all add: store_def)

lemma store_steps [simp]:
  "bind_name ''h'' b (store h t dh dt n1 n3 k) = store b t (b # dh) dt n1 n3 k"
  "bind_name ''tab.tmp'' b (store h t dh dt n1 n3 k) = store h b dh (b # dt) n1 n3 k"
  "store h t dh dt n1 n3 k\<lparr>fs_inodes := (fs_inodes (store h t dh dt n1 n3 k))(3 := Some n), fs_next := k'\<rparr> =
     store h t dh dt n1 (Some n) k'"
  "change_inode (Suc 0) f (store h t dh dt n1 n3 k) = store h t dh dt (f n1) n3 k"
  "change_inode 3 f (store h t dh dt n1 n3 k) = store h t dh dt n1 (map_option f n3) k"
  "(store h t dh dt n1 n3 k)\<lparr>fs_disk := (\<lambda>name. [fs_names (store h t dh dt n1 n3 k) name])\<rparr> = store h t [h] [t] n1 n3 k"
  by (auto simp: store_def bind_name_def change_inode_def fun_eq_iff)

lemma idle_simps [simp]:
  "w_names (idle_world faults locks) = sample_names" "w_uid (idle_world faults locks) = 7" "w_text (idle_world faults locks) = ''ab''"
  "w_flock (idle_world faults locks) = locks"
  "temporary_name (idle_world faults locks) = ''tab.tmp''" "nHistory sample_names = ''h''" "nLock sample_names = ''l''"
  by (simp_all add: idle_world_def sample_names_def temporary_name_def)

lemma idle_steps [simp]:
  "sys_call (idle_world faults locks) f \<lparr>sf_tick = k, sf_fs = fs, sf_file = fl, sf_seen = sn\<rparr> =
     (if faults k then (SysError, \<lparr>sf_tick = Suc k, sf_fs = fs, sf_file = fl, sf_seen = sn @ [fs, fs]\<rparr>)
      else (fst (f fs), \<lparr>sf_tick = Suc k, sf_fs = snd (f fs), sf_file = fl, sf_seen = sn @ [fs, snd (f fs)]\<rparr>))"
  "cancelled (idle_world faults locks) \<lparr>sf_tick = k, sf_fs = fs, sf_file = fl, sf_seen = sn\<rparr> =
     (False, \<lparr>sf_tick = Suc k, sf_fs = fs, sf_file = fl, sf_seen = sn\<rparr>)"
  by (simp_all add: sys_call_def idle_world_def cancelled_def split: prod.split)

lemmas sf_eval = file_publish_def sample_state_def sample_file_def sample_fs_def
  info_of_def file_check_def check_name_def needs_def lstat_def lstat_home_def observe_ino_def update_file_def
  create_file_def publish_created_def publish_written_def publish_checked_def publish_commit_def publish_renamed_def
  publish_settled_def publish_cleanup_def fstat_def plain_call_def write_file_def sync_file_def rename_file_def drop_link_def
  new_inode_def sync_directory_def done_call_def same_snapshot_def same_file_def sample_inode_def
  regular_def owned_def statefile_limit_def bindS_def getS_def retS_def tryS_def modifyS_def remove_file_def

lemma sample_published: "fst (file_publish calm ''new'' (sample_state True)) = Inr ()"
  by (simp add: sf_eval del: drop_link_simps)

lemma sample_uncertain:
  "fst (file_publish faulty ''new'' (sample_state True)) = Inl (NoPublication True)"
  by (simp add: sf_eval del: drop_link_simps)

section \<open>Publication\<close>

lemma publish_run:
  assumes "quiet w" "apart w" "phase0 w old od (sf_fs s)" "sf_seen s = []" "file_publish w data s = (r, t)"
  shows "store_result w old od data (sfHistory (sf_file s)) r (sf_fs t)" and "list_all (crash_atomic w old od data) (sf_seen t)"
  using publish_triple [OF assms(1,2), where old = old and od = od and data = data and prev = "sfHistory (sf_file s)"] assms(3-5)
  by (auto simp: triple_def wp_def in_phase_def)

text \<open>C4: However a publication goes (faults, cancellation, and other processes that respect the lock, between any two
  system calls), a crash at any moment leaves a history that is the old one, intact, or the complete new one.\<close>

theorem publish_crash_safe:
  assumes "quiet w" and "apart w" and "phase0 w old od (sf_fs s)" and "sf_seen s = []" and "file_publish w data s = (r, t)"
  shows "list_all (crash_atomic w old od data) (sf_seen t)"
  by (rule publish_run(2) [OF assms])

theorem publish_crash_safe_witness:
  "list_all (crash_atomic faulty (Some 1) ''old'' ''new'')
     (sf_seen (snd (file_publish faulty ''new'' (sample_state True))))"
  by (rule publish_crash_safe [OF idle_quiet idle_apart sample_phase [where b = True] _ surjective_pairing])
    simp

text \<open>The answer the loop's transaction acts on, and what a reader of the store sees.\<close>

definition publish_answer :: "sf_error + unit \<Rightarrow> publish_result" where
  "publish_answer r = (case r of
       Inr _ \<Rightarrow> Published
     | Inl (NoPublication b) \<Rightarrow> if b then Uncertain else NotPublished
     | Inl _ \<Rightarrow> UnsafeStore)"

definition stored_text :: "sf_world \<Rightarrow> fsys \<Rightarrow> string option" where
  "stored_text w fs = Option.bind (fs_names fs (nHistory (w_names w))) (\<lambda>i. map_option n_data (fs_inodes fs i))"

lemma stored_phase:
  "phase0 w old od fs \<Longrightarrow> stored_text w fs = map_option (\<lambda>_. od) old"
  "phase3 w old od i data b fs \<Longrightarrow> stored_text w fs = Some data"
  by (auto simp: stored_text_def phase0_def phase3_def old_kept_def holds_data_def split: option.splits)

text \<open>\<open>Publish\<close> keeps the contract of the store while the other processes respect the lock.\<close>

definition store_publish :: "sf_world \<Rightarrow> string \<Rightarrow> sf_state \<Rightarrow> publish_result \<times> sf_state" where
  "store_publish w data s = (publish_answer (fst (file_publish w data s)), snd (file_publish w data s))"

definition store_ready :: "sf_world \<Rightarrow> sf_state \<Rightarrow> bool" where
  "store_ready w s \<longleftrightarrow> quiet w \<and> apart w \<and> (\<exists>old od. phase0 w old od (sf_fs s)) \<and> sf_seen s = []"

interpretation durable: atomic_store "store_publish w" "\<lambda>s. stored_text w (sf_fs s)" "store_ready w" for w
proof
  fix s data
  assume "store_ready w s"
  then obtain old od where w: "quiet w" "apart w" and p: "phase0 w old od (sf_fs s)" "sf_seen s = []"
    by (auto simp: store_ready_def)
  have "file_publish w data s = (fst (file_publish w data s), snd (file_publish w data s))" by simp
  from publish_run(1) [OF w p this] stored_phase [of w old od] p(1)
  show "stored_text w (sf_fs (snd (store_publish w data s))) =
      (if replaced (fst (store_publish w data s)) then Some data else stored_text w (sf_fs s))"
    by (auto simp: store_publish_def store_result_def publish_answer_def replaced_def split: sum.splits sf_error.splits if_splits)
qed

text \<open>C20: A publication refines the abstract write of the loop's transaction: the error it reports, including
  \<open>MayHaveCommitted\<close>, tells exactly which text the store now holds.\<close>

theorem publish_refines_transaction:
  assumes "quiet w" and "apart w" and "phase0 w old od (sf_fs s)" and "sf_seen s = []" and "file_publish w data s = (r, u)"
    and "tStored t = stored_text w (sf_fs s)"
  shows "tStored (snd (tx_publish (publish_answer r) data t)) = stored_text w (sf_fs u)"
proof -
  have "store_ready w s" using assms(1-4) by (auto simp: store_ready_def)
  from durable.transaction_agrees [OF this assms(6), of data] assms(5) show ?thesis by (simp add: store_publish_def)
qed

theorem publish_refines_transaction_witness:
  "tStored (snd (tx_publish Uncertain ''new'' (newTransaction\<lparr>tStored := Some ''old''\<rparr>))) =
     stored_text faulty
       (sf_fs (snd (file_publish faulty ''new'' (sample_state True))))"
proof -
  have "tStored (newTransaction\<lparr>tStored := Some ''old''\<rparr>) = stored_text faulty (sf_fs (sample_state True))"
    using stored_phase(1) [OF sample_phase] by simp
  from publish_refines_transaction [OF idle_quiet idle_apart sample_phase [where b = True] sample_seen surjective_pairing this, of "''new''"]
  show ?thesis by (simp add: sample_uncertain publish_answer_def)
qed

section \<open>Reading back\<close>

definition holding :: "sf_world \<Rightarrow> nat \<Rightarrow> string \<Rightarrow> fsys \<Rightarrow> statefile \<Rightarrow> bool" where
  "holding w i data fs f \<longleftrightarrow> fs_names fs (nHistory (w_names w)) = Some i \<and> holds_data fs i data"

text \<open>What a successful read says: the text, and the snapshot the next publication must replace.\<close>

definition read_result :: "sf_world \<Rightarrow> (string \<Rightarrow> sf_error + 'a) \<Rightarrow> nat \<Rightarrow> string \<Rightarrow> sf_error + 'a option \<Rightarrow> fsys \<Rightarrow> statefile \<Rightarrow> bool" where
  "read_result w consume i data r fs f \<longleftrightarrow> (case r of
       Inl _ \<Rightarrow> True
     | Inr x \<Rightarrow> holding w i data fs f \<and> (case x of None \<Rightarrow> False | Some v \<Rightarrow> consume data = Inr v) \<and> sfReady f \<and>
         map_option fi_ino (sfHistory f) = Some i)"

lemma holding_stable: "quiet w \<Longrightarrow> stable w (\<lambda>_. True) (holding w i data)"
  using refsI(1) [OF store_names_in(1)] by (auto simp: stable_def holding_def quietD holds_other)

lemma refuse_triple: "quiet w \<Longrightarrow> triple (\<lambda>_. True) (holding w i data) (refuse_snapshot w p) (\<lambda>r fs f. read_result w consume i data r fs f)"
  unfolding refuse_snapshot_def replacedSnapshot_def
  by (rule triple_bind [OF triple_bind [OF triple_keep(1) [OF holding_stable]]], assumption, rule triple_ret, assumption,
      rule triple_ret, simp add: read_result_def)

lemma finish_triple:
  assumes "quiet w" and "consume data = Inr v"
  shows "triple (\<lambda>_. True) (holding w i data) (finish_read w i opened v) (\<lambda>r fs f. read_result w consume i data r fs f)"
proof -
  have stat: "triple (\<lambda>_. True) (holding w i data) (fstat w i) (\<lambda>r fs f. holding w i data fs f \<and> (\<forall>x. r = Got x \<longrightarrow> fi_ino x = i))"
    unfolding fstat_def
    by (rule triple_observe)
      (use holding_stable [OF assms(1)] in \<open>auto simp: stable_def observe_ino_def info_of_def split: option.splits\<close>)
  have "triple (\<lambda>_. True) (\<lambda>fs f. holding w i data fs f \<and> fi_ino after = i)
      (bindS (update_file (\<lambda>f. f\<lparr>sfHistory := Some after, sfReady := True\<rparr>)) (\<lambda>_. retS (Inr (Some v))))
      (\<lambda>r fs f. read_result w consume i data r fs f)" for after
    by (rule triple_bind [OF triple_update [where Q = "\<lambda>_ fs f. holding w i data fs f \<and> sfReady f \<and> map_option fi_ino (sfHistory f) = Some i"]])
      (auto simp: holding_def read_result_def assms(2) intro: triple_ret)
  moreover have "triple (\<lambda>_. True) (\<lambda>fs f. holding w i data fs f \<and> fi_ino after = i) (refuse_snapshot w opened)
      (\<lambda>r fs f. read_result w consume i data r fs f)" for after
    by (rule triple_weaken [OF refuse_triple [OF assms(1)]]) simp_all
  ultimately show ?thesis
    unfolding finish_read_def
    by (auto intro!: triple_needs [OF stat] simp: read_result_def)
qed

lemma snapshot_triple:
  assumes "quiet w"
  shows "triple (\<lambda>_. True) (holding w i data) (read_snapshot w consume before i) (\<lambda>r fs f. read_result w consume i data r fs f)"
proof -
  note stable = holding_stable [OF assms]
  have content: "triple (\<lambda>_. True) (holding w i data) (read_file w i) (\<lambda>r fs f. holding w i data fs f \<and> (\<forall>x. r = Got x \<longrightarrow> x = data))"
    unfolding read_file_def
    by (rule triple_observe) (use stable in \<open>auto simp: stable_def holding_def holds_data_def\<close>)
  have consumed: "triple (\<lambda>_. True) (\<lambda>fs f. holding w i data fs f \<and> x = data)
      (case consume x of Inl e \<Rightarrow> retS (Inl e) | Inr v \<Rightarrow> finish_read w i opened v)
      (\<lambda>r fs f. read_result w consume i data r fs f)" for x opened
  proof (rule triple_fact)
    assume "x = data"
    then show "triple (\<lambda>_. True) (holding w i data) (case consume x of Inl e \<Rightarrow> retS (Inl e) | Inr v \<Rightarrow> finish_read w i opened v)
      (\<lambda>r fs f. read_result w consume i data r fs f)"
    proof (cases "consume x")
      case (Inl e)
      then show ?thesis by (simp, intro triple_ret) (simp add: read_result_def)
    qed (simp add: finish_triple [OF assms])
  qed
  show ?thesis
    unfolding read_snapshot_def
    by (rule triple_needs [OF triple_keep(3) [OF stable]], rule triple_if, rule refuse_triple [OF assms], rule triple_needs [OF content],
        simp only: simp_thms sys.inject, rule triple_weaken [OF consumed], simp, assumption)
      (simp_all add: read_result_def)
qed

lemma read_triple:
  assumes "quiet w"
  shows "triple (\<lambda>_. True) (holding w i data) (file_read w consume) (\<lambda>r fs f. read_result w consume i data r fs f)"
proof -
  let ?h = "nHistory (w_names w)"
  let ?P = "holding w i data"
  let ?Q = "\<lambda>r fs f. read_result w consume i data r fs f"
  note stable = holding_stable [OF assms]
  have stop: "triple (\<lambda>_. True) P (retS (Inl e)) ?Q" for P e
    by (rule triple_ret) (simp add: read_result_def)
  have look: "triple (\<lambda>_. True) ?P (lstat w ?h) (\<lambda>r fs f. ?P fs f \<and> r \<noteq> NotExist)"
    unfolding lstat_def
    by (rule triple_observe) (use stable in \<open>auto simp: stable_def holding_def observe_ino_def split: option.splits\<close>)
  have opened: "triple (\<lambda>_. True) ?P (open_file w ?h) (\<lambda>r fs f. ?P fs f \<and> (\<forall>j. r = Got j \<longrightarrow> j = i))"
    unfolding open_file_def
    by (rule triple_observe) (use stable in \<open>auto simp: stable_def holding_def split: option.splits\<close>)
  have body: "triple (\<lambda>_. True) ?P (needs (open_file w ?h) (\<lambda>_. True) Unsafe (read_snapshot w consume before)) ?Q" for before
  proof (rule triple_needs [OF opened])
    fix j
    show "triple (\<lambda>_. True) (\<lambda>fs f. ?P fs f \<and> (\<forall>k. Got j = Got k \<longrightarrow> k = i)) (read_snapshot w consume before j) ?Q"
      by (rule triple_fact) (simp add: snapshot_triple [OF assms])
  qed (simp add: read_result_def)
  have arm: "triple (\<lambda>_. True) (\<lambda>fs f. ?P fs f \<and> r \<noteq> NotExist) (case r of
         NotExist \<Rightarrow> bindS (update_file (\<lambda>f. f\<lparr>sfHistory := None, sfReady := True\<rparr>)) (\<lambda>_. retS (Inr None))
       | Got before \<Rightarrow>
           if \<not> regular before then retS (Inl Unsafe)
           else needs (open_file w ?h) (\<lambda>_. True) Unsafe (read_snapshot w consume before)
       | _ \<Rightarrow> retS (Inl Unsafe)) ?Q" for r
    by (rule triple_fact) (cases r; simp add: stop body)
  have rest: "triple (\<lambda>_. True) ?P (tryS (file_check w False) (\<lambda>_. bindS (lstat w ?h) (\<lambda>r. case r of
         NotExist \<Rightarrow> bindS (update_file (\<lambda>f. f\<lparr>sfHistory := None, sfReady := True\<rparr>)) (\<lambda>_. retS (Inr None))
       | Got before \<Rightarrow>
           if \<not> regular before then retS (Inl Unsafe)
           else needs (open_file w ?h) (\<lambda>_. True) Unsafe (read_snapshot w consume before)
       | _ \<Rightarrow> retS (Inl Unsafe)))) ?Q"
    by (rule triple_try [OF check_keep [OF stable]], rule triple_bind [OF look], rule arm) (simp add: read_result_def)
  show ?thesis
    unfolding file_read_def
    by (rule triple_bind [OF triple_update [where Q = "\<lambda>_. ?P"]], simp add: holding_def,
        rule triple_bind [OF triple_keep(5) [OF stable]], rule triple_if, rule stop, rule rest)
qed

lemma read_run:
  assumes "quiet w" and "holding w i data (sf_fs s) (sf_file s)" and "file_read w consume s = (Inr x, u)"
  shows "read_result w consume i data (Inr x) (sf_fs u) (sf_file u)"
proof -
  have "wp (file_read w consume) (\<lambda>r t. read_result w consume i data r (sf_fs t) (sf_file t) \<and> list_all (\<lambda>_. True) (sf_seen t)) s"
    using read_triple [OF assms(1), of i data consume] assms(2) by (simp add: triple_def list_all_iff)
  with assms(3) show ?thesis by (simp add: wp_def)
qed

text \<open>C22: What a successful publication stored is what a later read, through this handle or another, hands to its
  consumer; and the read leaves its handle ready to replace exactly that file.\<close>

theorem publish_then_read:
  assumes "quiet w" and "apart w" and "phase0 w old od (sf_fs s)" and "sf_seen s = []" and "file_publish w data s = (Inr (), t)"
    and "file_read w consume (t\<lparr>sf_file := f\<rparr>) = (Inr x, u)"
  shows "(case x of None \<Rightarrow> False | Some v \<Rightarrow> consume data = Inr v) \<and> sfReady (sf_file u) \<and>
    map_option fi_ino (sfHistory (sf_file u)) = fs_names (sf_fs u) (nHistory (w_names w))"
proof -
  from publish_run(1) [OF assms(1-5)] obtain i where "phase3 w old od i data True (sf_fs t)"
    by (auto simp: store_result_def)
  then have "holding w i data (sf_fs (t\<lparr>sf_file := f\<rparr>)) (sf_file (t\<lparr>sf_file := f\<rparr>))" by (simp add: holding_def phase3_def)
  from read_run [OF assms(1) this assms(6)] show ?thesis by (simp add: read_result_def holding_def)
qed

lemma sample_read:
  "fst (file_read calm Inr ((snd (file_publish calm ''new'' (sample_state True)))\<lparr>sf_file := sample_file False\<rparr>)) = Inr (Some ''new'')"
  by (simp add: sf_eval file_read_def read_snapshot_def finish_read_def open_file_def read_file_def snapshotDescriptor_def
      del: drop_link_simps)

theorem publish_then_read_witness:
  "sfReady (sf_file (snd (file_read calm Inr ((snd (file_publish calm ''new'' (sample_state True)))\<lparr>sf_file := sample_file False\<rparr>))))"
proof -
  let ?t = "snd (file_publish calm ''new'' (sample_state True))"
  have p: "file_publish calm ''new'' (sample_state True) = (Inr (), ?t)" using sample_published by (simp add: prod_eq_iff)
  have "file_read calm Inr (?t\<lparr>sf_file := sample_file False\<rparr>) =
      (Inr (Some ''new''), snd (file_read calm Inr (?t\<lparr>sf_file := sample_file False\<rparr>)))"
    using sample_read by (simp add: prod_eq_iff)
  from publish_then_read [OF idle_quiet idle_apart sample_phase [where b = True] sample_seen p this] show ?thesis by simp
qed

section \<open>Acquiring the lock\<close>

text \<open>An owned directory \<open>d\<close> with an owned lock file \<open>l\<close>, and a history that is absent or regular and owned.\<close>

definition owned_file :: "sf_world \<Rightarrow> fsys \<Rightarrow> kind \<Rightarrow> nat \<Rightarrow> bool" where
  "owned_file w fs k i \<longleftrightarrow> (case fs_inodes fs i of None \<Rightarrow> False
     | Some n \<Rightarrow> n_kind n = k \<and> n_owner n = w_uid w \<and> (k = KRegular \<longrightarrow> n_links n = 1))"

definition healthy :: "sf_world \<Rightarrow> nat \<Rightarrow> nat \<Rightarrow> fsys \<Rightarrow> bool" where
  "healthy w d l fs \<longleftrightarrow> fs_home fs = Some d \<and> owned_file w fs KDirectory d \<and>
     fs_names fs (nLock (w_names w)) = Some l \<and> owned_file w fs KRegular l \<and>
     (case fs_names fs (nHistory (w_names w)) of None \<Rightarrow> True | Some h \<Rightarrow> owned_file w fs KRegular h)"

text \<open>No call fails, nobody cancels, and the other processes keep the store healthy.\<close>

definition obliging :: "sf_world \<Rightarrow> nat \<Rightarrow> nat \<Rightarrow> bool" where
  "obliging w d l \<longleftrightarrow> (\<forall>t. \<not> w_fault w t \<and> \<not> w_cancelled w t) \<and> (\<forall>t fs. healthy w d l fs \<longrightarrow> healthy w d l (w_other w t fs))"

definition well :: "sf_world \<Rightarrow> nat \<Rightarrow> nat \<Rightarrow> (statefile \<Rightarrow> bool) \<Rightarrow> sf_state \<Rightarrow> bool" where
  "well w d l F s \<longleftrightarrow> healthy w d l (sf_fs s) \<and> F (sf_file s)"

lemma obliging_call:
  assumes "obliging w d l" and "well w d l F s"
    and "\<And>fs. healthy w d l fs \<Longrightarrow> R (fst (f fs)) \<and> healthy w d l (snd (f fs))"
  shows "wp (sys_call w f) (\<lambda>r t. R r \<and> well w d l F t) s"
proof -
  have "healthy w d l (w_other w (sf_tick s) (sf_fs s))" using assms(1,2) by (simp add: obliging_def well_def)
  from assms(3) [OF this] assms(1,2) show ?thesis
    by (auto simp: wp_def sys_call_def obliging_def well_def Let_def split: prod.split)
qed

definition good_info :: "sf_world \<Rightarrow> kind \<Rightarrow> nat \<Rightarrow> file_info sys \<Rightarrow> bool" where
  "good_info w k i r \<longleftrightarrow> (case r of Got x \<Rightarrow> fi_kind x = k \<and> owned w x \<and> fi_ino x = i \<and> (k = KRegular \<longrightarrow> regular x) | _ \<Rightarrow> False)"

lemma good_observed: "owned_file w fs k i \<Longrightarrow> good_info w k i (observe_ino (Some i) fs)"
  by (auto simp: owned_file_def good_info_def observe_ino_def info_of_def owned_def regular_def split: option.splits)

lemma healthyD:
  assumes "healthy w d l fs"
  shows "good_info w KDirectory d (observe_ino (fs_home fs) fs)"
    and "good_info w KRegular l (observe_ino (fs_names fs (nLock (w_names w))) fs)"
    and "good_info w KRegular l (observe_ino (Some l) fs)"
    and "observe_ino (fs_names fs (nHistory (w_names w))) fs = NotExist \<or>
      (\<exists>h. good_info w KRegular h (observe_ino (fs_names fs (nHistory (w_names w))) fs))"
    and "fs_names fs (nLock (w_names w)) = Some l" and "\<exists>n. fs_inodes fs l = Some n \<and> n_kind n \<noteq> KLink"
proof -
  show "observe_ino (fs_names fs (nHistory (w_names w))) fs = NotExist \<or>
      (\<exists>h. good_info w KRegular h (observe_ino (fs_names fs (nHistory (w_names w))) fs))"
    using assms good_observed [of w fs KRegular]
    by (cases "fs_names fs (nHistory (w_names w))") (auto simp: healthy_def observe_ino_def)
qed (use assms good_observed in \<open>auto simp: healthy_def\<close>, simp add: owned_file_def split: option.splits)

lemma obliging_calls:
  assumes "obliging w d l" and "well w d l F s"
  shows "wp (lstat_home w) (\<lambda>r t. good_info w KDirectory d r \<and> well w d l F t) s"
    and "wp (lstat w (nLock (w_names w))) (\<lambda>r t. good_info w KRegular l r \<and> well w d l F t) s"
    and "wp (lstat w (nHistory (w_names w))) (\<lambda>r t. (r = NotExist \<or> (\<exists>h. good_info w KRegular h r)) \<and> well w d l F t) s"
    and "wp (fstat w l) (\<lambda>r t. good_info w KRegular l r \<and> well w d l F t) s"
    and "wp (create_file w (nLock (w_names w))) (\<lambda>r t. r = Exists \<and> well w d l F t) s"
    and "wp (open_file w (nLock (w_names w))) (\<lambda>r t. r = Got l \<and> well w d l F t) s"
    and "wp (plain_call w) (\<lambda>r t. r = Got () \<and> well w d l F t) s"
  unfolding lstat_home_def lstat_def fstat_def create_file_def open_file_def plain_call_def
  apply (rule obliging_call [OF assms], simp add: healthyD(1))
  apply (rule obliging_call [OF assms], simp add: healthyD(2))
  apply (rule obliging_call [OF assms], simp add: healthyD(4))
  apply (rule obliging_call [OF assms], simp add: healthyD(3))
  apply (rule obliging_call [OF assms], simp add: healthyD(5))
  apply (rule obliging_call [OF assms], use healthyD(5,6) in \<open>fastforce\<close>)
  apply (rule obliging_call [OF assms], simp)
  done

lemma obliging_cancelled: "obliging w d l \<Longrightarrow> well w d l F s \<Longrightarrow> wp (cancelled w) (\<lambda>r t. \<not> r \<and> well w d l F t) s"
  by (simp add: wp_def cancelled_def obliging_def well_def)

definition usable :: "nat \<Rightarrow> nat option \<Rightarrow> statefile \<Rightarrow> bool" where
  "usable d l f \<longleftrightarrow> \<not> sfClosed f \<and> \<not> sfHeld f \<and> sfDirectory f = Some d \<and> map_option fi_ino (sfLock f) = l"

lemma check_name_good:
  assumes "obliging w d l" and "well w d l F s"
  shows "wp (check_name w True (nHistory (w_names w)) None) (\<lambda>r t. r = Inr () \<and> well w d l F t) s"
    and "map_option fi_ino p = Some l \<Longrightarrow> wp (check_name w True (nLock (w_names w)) p) (\<lambda>r t. r = Inr () \<and> well w d l F t) s"
  unfolding check_name_def wp_bindS
   apply (rule wp_mono [OF obliging_calls(3) [OF assms]])
   apply (auto simp: wp_retS good_info_def split: sys.splits)[1]
  apply (rule wp_mono [OF obliging_calls(2) [OF assms]])
  apply (auto simp: wp_retS good_info_def same_file_def split: sys.splits)
  done

lemma check_good:
  assumes "obliging w d l" and "well w d l (usable d (Some l)) s"
  shows "wp (file_check w True) (\<lambda>r t. r = Inr () \<and> well w d l (usable d (Some l)) t) s"
proof -
  let ?F = "usable d (Some l)"
  have f: "\<not> sfClosed (sf_file s)" "sfDirectory (sf_file s) = Some d" "map_option fi_ino (sfLock (sf_file s)) = Some l"
    using assms(2) by (simp_all add: well_def usable_def)
  have "wp (tryS (check_name w True (nHistory (w_names w)) None) (\<lambda>_. check_name w True (nLock (w_names w)) (sfLock (sf_file s))))
      (\<lambda>r t. r = Inr () \<and> well w d l ?F t) t" if "well w d l ?F t" for t
    unfolding wp_tryS by (rule wp_mono [OF check_name_good(1) [OF assms(1) that]]) (simp add: check_name_good(2) [OF assms(1) _ f(3)])
  with f show ?thesis
    by (simp add: file_check_def needs_def wp_bindS wp_getS)
      (rule wp_mono [OF obliging_calls(1) [OF assms]], auto simp: good_info_def split: sys.splits)
qed

definition startable :: "nat \<Rightarrow> statefile \<Rightarrow> bool" where
  "startable d f \<longleftrightarrow> \<not> sfClosed f \<and> \<not> sfHeld f \<and> sfDirectory f = Some d"

lemma open_lock_good:
  assumes "obliging w d l" and "well w d l F s"
  shows "wp (open_lock w) (\<lambda>r t. r = Got l \<and> well w d l F t) s"
  unfolding open_lock_def wp_bindS
  by (rule wp_mono [OF obliging_calls(5) [OF assms]]) (use obliging_calls(6) [OF assms(1)] in simp)

lemma pin_good:
  assumes "obliging w d l" and "well w d l (startable d) s"
  shows "wp (pin_lock w) (\<lambda>r t. r = Inr () \<and> well w d l (usable d (Some l)) t) s"
proof -
  let ?Q = "\<lambda>r t. r = Inr () \<and> well w d l (usable d (Some l)) t"
  have final: "wp (needs (plain_call w) (\<lambda>_. True) Unsafe (\<lambda>_. retS (Inr ()))) ?Q t" if "well w d l (usable d (Some l)) t" for t
    unfolding needs_def wp_bindS by (rule wp_mono [OF obliging_calls(7) [OF assms(1) that]]) (simp add: wp_retS)
  have checked: "wp (tryS (file_check w True) (\<lambda>_. needs (plain_call w) (\<lambda>_. True) Unsafe (\<lambda>_. retS (Inr ())))) ?Q t"
    if "well w d l (usable d (Some l)) t" for t
    unfolding wp_tryS by (rule wp_mono [OF check_good [OF assms(1) that]]) (simp add: final)
  have pinned: "wp (bindS (update_file (\<lambda>f. f\<lparr>sfLock := Some info\<rparr>)) (\<lambda>_. tryS (file_check w True) (\<lambda>_.
      needs (plain_call w) (\<lambda>_. True) Unsafe (\<lambda>_. retS (Inr ()))))) ?Q t"
    if "well w d l (startable d) t" "fi_ino info = l" for info t
    unfolding update_file_def wp_bindS wp_modifyS
    by (rule checked) (use that in \<open>simp add: well_def startable_def usable_def\<close>)
  have stated: "wp (needs (fstat w l) (\<lambda>info. regular info \<and> owned w info) Unsafe (\<lambda>info.
      bindS (update_file (\<lambda>f. f\<lparr>sfLock := Some info\<rparr>)) (\<lambda>_. tryS (file_check w True) (\<lambda>_.
        needs (plain_call w) (\<lambda>_. True) Unsafe (\<lambda>_. retS (Inr ())))))) ?Q t" if "well w d l (startable d) t" for t
  proof -
    have "wp (case r of Got info \<Rightarrow> if regular info \<and> owned w info then
        bindS (update_file (\<lambda>f. f\<lparr>sfLock := Some info\<rparr>)) (\<lambda>_. tryS (file_check w True) (\<lambda>_.
          needs (plain_call w) (\<lambda>_. True) Unsafe (\<lambda>_. retS (Inr ())))) else retS (Inl Unsafe) | _ \<Rightarrow> retS (Inl Unsafe)) ?Q u"
      if "good_info w KRegular l r \<and> well w d l (startable d) u" for r u
      using that by (cases r) (simp_all add: good_info_def pinned)
    then show ?thesis
      unfolding needs_def wp_bindS by (rule wp_mono [OF obliging_calls(4) [OF assms(1) \<open>well w d l (startable d) t\<close>]])
  qed
  show ?thesis
    unfolding pin_lock_def needs_def [of "open_lock w"] wp_bindS
    by (rule wp_mono [OF open_lock_good [OF assms]]) (simp add: stated)
qed

lemma flock_good:
  assumes "obliging w d l" and "\<And>j. j < k + n \<Longrightarrow> k \<le> j \<Longrightarrow> w_flock w j = LockContended" and "w_flock w (k + n) = LockGranted"
    and "n < fuel" and "well w d l F s"
  shows "wp (flock_loop fuel k w True) (\<lambda>r t. r = Some (Inr ()) \<and> well w d l F t) s"
  using assms(2-5)
proof (induction fuel arbitrary: k n s)
  case (Suc fuel)
  have again: "wp (flock_loop fuel (Suc k) w True) (\<lambda>r t. r = Some (Inr ()) \<and> well w d l F t) t"
    if "n = Suc m" "well w d l F t" for m t
    by (rule Suc.IH [where n = m]) (use Suc.prems that in simp_all)
  show ?case
  proof (cases n)
    case 0
    with Suc.prems show ?thesis
      by (simp add: wp_bindS) (rule wp_mono [OF obliging_cancelled [OF assms(1)]], assumption, simp add: wp_retS)
  next
    case (Suc m)
    have "w_flock w k = LockContended" by (rule Suc.prems(1)) (simp_all add: Suc)
    moreover have "wp (cancelled w) (\<lambda>c. wp (if c then retS (Some (Inl Cancelled)) else flock_loop fuel (Suc k) w True)
        (\<lambda>r t. r = Some (Inr ()) \<and> well w d l F t)) t" if "well w d l F t" for t
      by (rule wp_mono [OF obliging_cancelled [OF assms(1) that]]) (simp add: again [OF Suc])
    ultimately show ?thesis
      by (simp add: wp_bindS) (rule wp_mono [OF obliging_cancelled [OF assms(1) Suc.prems(4)]], simp add: wp_bindS)
  qed
qed simp

lemma settle_good:
  assumes "obliging w d l" and "well w d l (usable d (Some l)) s"
  shows "wp (settle_acquire w (Some (Inr ()))) (\<lambda>r t. r = Some (Inr ()) \<and> sfHeld (sf_file t)) s"
proof -
  have "wp (bindS (file_check w True) (\<lambda>ok. case ok of
             Inl e \<Rightarrow> bindS (failed_acquire e) (\<lambda>x. retS (Some x))
           | Inr _ \<Rightarrow> bindS (update_file (\<lambda>f. f\<lparr>sfHeld := True\<rparr>)) (\<lambda>_. retS (Some (Inr ())))))
      (\<lambda>r t. r = Some (Inr ()) \<and> sfHeld (sf_file t)) t" if "well w d l (usable d (Some l)) t" for t
    unfolding wp_bindS by (rule wp_mono [OF check_good [OF assms(1) that]]) (simp add: wp_simps update_file_def)
  then show ?thesis
    by (simp add: settle_acquire_def wp_bindS) (rule wp_mono [OF obliging_cancelled [OF assms]], simp add: wp_bindS)
qed

text \<open>C21: A waiting acquisition obtains the lock: when the holder releases it after \<open>n\<close> polls, nothing fails and the
  store stays healthy, \<open>Acquire\<close> returns success within \<open>n + 1\<close> polls, and the handle holds the lock.\<close>

theorem acquire_succeeds:
  assumes "obliging w d l" and "well w d l (startable d) s"
    and "\<And>j. j < n \<Longrightarrow> w_flock w j = LockContended" and "w_flock w n = LockGranted" and "n < fuel"
  shows "fst (file_acquire fuel w True s) = Some (Inr ()) \<and> sfHeld (sf_file (snd (file_acquire fuel w True s)))"
proof -
  let ?Q = "\<lambda>r t. r = Some (Inr ()) \<and> sfHeld (sf_file t)"
  have loop: "wp (bindS (flock_loop fuel 0 w True) (settle_acquire w)) ?Q t" if "well w d l (usable d (Some l)) t" for t
    unfolding wp_bindS
    by (rule wp_mono [OF flock_good [OF assms(1) _ _ assms(5) that]]) (use assms(3,4) settle_good [OF assms(1)] in auto)
  have pin: "wp (bindS (pin_lock w) (\<lambda>r. case r of
           Inl e \<Rightarrow> bindS (failed_acquire e) (\<lambda>x. retS (Some x))
         | Inr _ \<Rightarrow> bindS (flock_loop fuel 0 w True) (settle_acquire w))) ?Q t" if "well w d l (startable d) t" for t
    unfolding wp_bindS by (rule wp_mono [OF pin_good [OF assms(1) that]]) (use loop in \<open>simp add: wp_bindS\<close>)
  have "wp (file_acquire fuel w True) ?Q s"
    using assms(2) by (simp add: file_acquire_def wp_bindS wp_getS well_def startable_def)
      (rule wp_mono [OF obliging_cancelled [OF assms(1,2)]], use pin in \<open>simp add: wp_bindS\<close>)
  then show ?thesis by (auto simp: wp_def)
qed

lemma sample_obliging: "obliging calm 0 2" and sample_well: "well calm 0 2 (startable 0) (sample_state False)"
  by (simp_all add: obliging_def well_def idle_world_def healthy_def owned_file_def sample_state_def sample_fs_def store_def
      sample_inode_def sample_file_def sample_names_def startable_def)

theorem acquire_succeeds_witness:
  "fst (file_acquire 3 calm True (sample_state False)) = Some (Inr ())"
  using acquire_succeeds [OF sample_obliging sample_well, of 2 3] by simp

end
