(* ===== verification/Go_Text.thy ===== *)
theory Go_Text
  imports Go_Strings
begin

text \<open>
  Go's \<open>path.Clean\<close>, \<open>path.Base\<close> and \<open>path.Ext\<close>, and \<open>strconv.Quote\<close> and \<open>strconv.Unquote\<close> for
  double-quoted text.  Which runes above 127 count as printable is a table of the \<open>unicode\<close> package and a
  parameter of \<open>go_quote\<close>.
\<close>

section \<open>Paths\<close>

definition clean_step :: "bool \<Rightarrow> string \<Rightarrow> string list \<Rightarrow> string list" where
  "clean_step rooted c out =
     (if c = [] \<or> c = ''.'' then out
      else if c = ''..'' then
        (if out \<noteq> [] \<and> last out \<noteq> ''..'' then butlast out else if rooted then out else out @ [''..''])
      else out @ [c])"

definition path_clean :: "string \<Rightarrow> string" where
  "path_clean p = (let rooted = has_prefix ''/'' p; out = fold (clean_step rooted) (split_on CHR ''/'' p) [] in
     if rooted then ''/'' @ join ''/'' out else if out = [] then ''.'' else join ''/'' out)"

definition after_slash :: "string \<Rightarrow> string" where
  "after_slash p = last (split_on CHR ''/'' p)"

definition path_base :: "string \<Rightarrow> string" where
  "path_base p = (if p = [] then ''.''
     else let q = rev (dropWhile (\<lambda>c. c = CHR ''/'') (rev p)) in
       if q = [] then ''/'' else after_slash q)"

definition path_ext :: "string \<Rightarrow> string" where
  "path_ext p = (let b = after_slash p in
     if CHR ''.'' \<in> set b then ''.'' @ rev (takeWhile (\<lambda>c. c \<noteq> CHR ''.'') (rev b)) else [])"

section \<open>Quoted text\<close>

definition hex2 :: "nat \<Rightarrow> string" where
  "hex2 n = [hex_char (n div 16 mod 16), hex_char (n mod 16)]"

definition control_escape :: "nat \<Rightarrow> string option" where
  "control_escape r = map_of [(7, ''a''), (8, ''b''), (12, ''f''), (10, ''n''), (13, ''r''), (9, ''t''), (11, ''v'')] r"

definition quote_rune :: "(nat \<Rightarrow> bool) \<Rightarrow> nat \<times> string \<Rightarrow> string" where
  "quote_rune printable p = (case p of (r, bytes) \<Rightarrow>
     if invalid_rune p then [CHR 0x5C] @ ''x'' @ hex2 (ord (hd bytes))
     else if r = 34 \<or> r = 92 then CHR 0x5C # bytes
     else if (32 \<le> r \<and> r < 127) \<or> (128 \<le> r \<and> printable r) then bytes
     else case control_escape r of
         Some e \<Rightarrow> CHR 0x5C # e
       | None \<Rightarrow>
           if r < 32 \<or> r = 127 then [CHR 0x5C] @ ''x'' @ hex2 r
           else if r < 65536 then [CHR 0x5C] @ ''u'' @ hex4 r
           else [CHR 0x5C] @ ''U'' @ hex4 (r div 65536) @ hex4 (r mod 65536))"

definition go_quote :: "(nat \<Rightarrow> bool) \<Rightarrow> string \<Rightarrow> string" where
  "go_quote printable s = [CHR 0x22] @ concat (map (quote_rune printable) (runes s)) @ [CHR 0x22]"

definition hex_digit :: "char \<Rightarrow> nat option" where
  "hex_digit c = (if is_digit c then Some (ord c - 48)
     else if 97 \<le> ord c \<and> ord c \<le> 102 then Some (ord c - 87)
     else if 65 \<le> ord c \<and> ord c \<le> 70 then Some (ord c - 55) else None)"

fun hex_number :: "nat \<Rightarrow> string \<Rightarrow> nat option" where
  "hex_number n [] = Some n"
| "hex_number n (c # s) = (case hex_digit c of None \<Rightarrow> None | Some d \<Rightarrow> hex_number (16 * n + d) s)"

definition octal_digit :: "char \<Rightarrow> bool" where
  "octal_digit c \<longleftrightarrow> 48 \<le> ord c \<and> ord c \<le> 55"

definition valid_rune :: "nat \<Rightarrow> bool" where
  "valid_rune r \<longleftrightarrow> r < 55296 \<or> (57343 < r \<and> r \<le> 1114111)"

text \<open>The escape after a backslash: what it stands for, and how many bytes it has.\<close>

definition unquote_escape :: "string \<Rightarrow> (string \<times> nat) option" where
  "unquote_escape s = (case s of
       [] \<Rightarrow> None
     | c # t \<Rightarrow>
         if c = CHR ''x'' then
           (if length t < 2 then None else map_option (\<lambda>n. ([chr n], 3)) (hex_number 0 (take 2 t)))
         else if c = CHR ''u'' \<or> c = CHR ''U'' then
           (let k = (if c = CHR ''u'' then 4 else 8) in
            if length t < k then None
            else case hex_number 0 (take k t) of
                None \<Rightarrow> None
              | Some r \<Rightarrow> if valid_rune r then Some (encode_rune r, Suc k) else None)
         else if octal_digit c then
           (if length t < 2 \<or> \<not> list_all octal_digit (take 2 t) then None
            else let n = foldl (\<lambda>n d. 8 * n + (ord d - 48)) (ord c - 48) (take 2 t) in
              if n > 255 then None else Some ([chr n], 3))
         else if c = CHR 0x5C \<or> c = CHR 0x22 then Some ([c], 1)
         else map_option (\<lambda>n. ([chr n], 1))
           (map_of [(CHR ''a'', 7), (CHR ''b'', 8), (CHR ''f'', 12), (CHR ''n'', 10), (CHR ''r'', 13), (CHR ''t'', 9), (CHR ''v'', 11)] c))"

text \<open>The body of a double-quoted text up to its closing quote, which must be the last byte.\<close>

function unquote_from :: "string \<Rightarrow> string option" where
  "unquote_from [] = None"
| "unquote_from (c # s) =
     (if c = CHR 0x22 then (if s = [] then Some [] else None)
      else if c = CHR 0x0A then None
      else if c = CHR 0x5C then (case unquote_escape s of
          None \<Rightarrow> None
        | Some (b, k) \<Rightarrow> map_option ((@) b) (unquote_from (drop k s)))
      else if ord c < 128 then map_option (Cons c) (unquote_from s)
      else map_option ((@) (encode_rune (fst (decode_rune (c # s)))))
        (unquote_from (drop (snd (decode_rune (c # s)) - 1) s)))"
  by pat_completeness auto
termination by (relation "measure length") auto

definition go_unquote :: "string \<Rightarrow> string option" where
  "go_unquote s = (case s of [] \<Rightarrow> None | c # t \<Rightarrow> if c = CHR 0x22 then unquote_from t else None)"

end
