(* ===== verification/Review_Diff.thy ===== *)
theory Review_Diff
  imports Go_Text
begin

text \<open>
  The diff reader of the batched review (\<open>internal/reviewbatch/diff.go\<close>): hunk headers, the metadata of a file
  section, its hunks, type changes, and the agreement of the diff with the manifest.  Lines are byte strings.
  A dereference or an index that would panic is the error \<open>Panics\<close>.
\<close>

section \<open>Data\<close>

datatype review_error = Refused string | Stopped | Panics

record changedFile =
  cfFilename :: string
  cfPrevious :: string
  cfStatus :: string
  cfAdditions :: "int option"
  cfDeletions :: "int option"

record hunk =
  hHeader :: string
  hOldStart :: nat
  hNewStart :: nat
  hOld :: nat
  hNew :: nat
  hLines :: "string list"

datatype fileDiff = FileDiff (fdFile: changedFile) (fdHeader: string) (fdHunks: "hunk list") (fdUncovered: string)
  (fdAdded: nat) (fdRemoved: nat) (fdParts: "fileDiff list")

definition inputLimit :: nat where
  "inputLimit = 8388608"

definition no_newline :: string where
  "no_newline = CHR 0x5C # '' No newline at end of file''"

definition hunk_start :: "string \<Rightarrow> bool" where
  "hunk_start line \<longleftrightarrow> has_prefix ''@@ '' line"

section \<open>Hunk headers\<close>

text \<open>\<open>([0-9]+)(?:,([0-9]+))?\<close>: the two texts, a missing count as \<open>1\<close>, and what follows.\<close>

definition range_texts :: "string \<Rightarrow> (string \<times> string \<times> string) option" where
  "range_texts s = (let a = takeWhile is_digit s; t = dropWhile is_digit s in
     if a = [] then None
     else case t of
         [] \<Rightarrow> Some (a, ''1'', t)
       | c # u \<Rightarrow>
           if c \<noteq> CHR '','' then Some (a, ''1'', t)
           else if takeWhile is_digit u = [] then None
           else Some (a, takeWhile is_digit u, dropWhile is_digit u))"

definition hunk_texts :: "string \<Rightarrow> (string \<times> string \<times> string \<times> string) option" where
  "hunk_texts line =
     (if \<not> has_prefix ''@@ -'' line then None
      else case range_texts (drop 4 line) of
          None \<Rightarrow> None
        | Some (a, b, s) \<Rightarrow>
            if \<not> has_prefix '' +'' s then None
            else case range_texts (drop 2 s) of
                None \<Rightarrow> None
              | Some (c, d, t) \<Rightarrow>
                  if has_prefix '' @@'' t \<and> CHR 0x0A \<notin> set t then Some (a, b, c, d) else None)"

definition coordinate :: "string \<Rightarrow> review_error + nat" where
  "coordinate s = (if digits_val s > 1099511627776 then Inl (Refused ''invalid hunk coordinate'') else Inr (digits_val s))"

definition parseHunkHeader :: "string \<Rightarrow> review_error + hunk" where
  "parseHunkHeader line = (case hunk_texts line of
       None \<Rightarrow> Inl (Refused ''invalid hunk header'')
     | Some (a, b, c, d) \<Rightarrow>
         bindE (coordinate a) (\<lambda>oldStart. bindE (coordinate b) (\<lambda>old.
         bindE (coordinate c) (\<lambda>newStart. bindE (coordinate d) (\<lambda>new.
           if (old > 0 \<and> oldStart = 0) \<or> (new > 0 \<and> newStart = 0) then Inl (Refused ''invalid positive hunk range'')
           else Inr \<lparr>hHeader = line, hOldStart = oldStart, hNewStart = newStart, hOld = old, hNew = new, hLines = []\<rparr>)))))"

section \<open>Paths\<close>

definition decodePath :: "string \<Rightarrow> string" where
  "decodePath value = (if has_prefix [CHR 0x22] value
     then (case go_unquote value of None \<Rightarrow> [] | Some decoded \<Rightarrow> decoded) else value)"

definition safePath :: "string \<Rightarrow> bool" where
  "safePath value \<longleftrightarrow> \<not> (value = [] \<or> \<not> utf8_valid value \<or> has_prefix ''/'' value \<or> path_clean value \<noteq> value \<or>
       value = ''.'' \<or> value = ''..'' \<or> has_prefix ''../'' value) \<and>
     list_all (\<lambda>p. \<not> (fst p < 32 \<or> fst p = 127)) (runes value)"

text \<open>\<open>quotedToken\<close>: the first quote that no backslash escapes, from index 1 on.\<close>

fun closing_quote :: "bool \<Rightarrow> nat \<Rightarrow> string \<Rightarrow> nat option" where
  "closing_quote escaped i [] = None"
| "closing_quote escaped i (c # s) =
     (if c = CHR 0x22 \<and> \<not> escaped then Some i
      else closing_quote (if c = CHR 0x5C then \<not> escaped else False) (Suc i) s)"

definition quotedToken :: "string \<Rightarrow> string \<times> string \<times> bool" where
  "quotedToken value = (case closing_quote False 1 (drop 1 value) of
       None \<Rightarrow> ([], [], False)
     | Some i \<Rightarrow> (case go_unquote (take (Suc i) value) of
           None \<Rightarrow> ([], drop (Suc i) value, False)
         | Some decoded \<Rightarrow> (decoded, drop (Suc i) value, True)))"

text \<open>The right name of a header whose left name was quoted; git quotes each name on its own.\<close>

definition quoted_right :: "bool \<Rightarrow> string \<Rightarrow> string \<Rightarrow> bool" where
  "quoted_right left right current =
     (if has_prefix [CHR 0x22] right
      then (case quotedToken right of (decoded, remaining, valid) \<Rightarrow> valid \<and> remaining = [] \<and> left \<and> decoded = current)
      else left \<and> right = current)"

definition quoted_only_right :: "string \<Rightarrow> string \<Rightarrow> string \<Rightarrow> bool" where
  "quoted_only_right rest old current =
     (has_prefix (old @ '' '' @ [CHR 0x22]) rest \<and>
      (case quotedToken (drop (length old + 1) rest) of (right, remaining, valid) \<Rightarrow> valid \<and> remaining = [] \<and> right = current))"

definition matchGitHeader :: "(nat \<Rightarrow> bool) \<Rightarrow> string \<Rightarrow> string \<Rightarrow> string \<Rightarrow> bool" where
  "matchGitHeader printable line old current =
     (let rest = trim_prefix ''diff --git '' line; a = ''a/'' @ old; b = ''b/'' @ current;
          names = [(x, y). x \<leftarrow> [a, go_quote printable a], y \<leftarrow> [b, go_quote printable b]] in
      if list_ex (\<lambda>(x, y). rest = x @ '' '' @ y) names then True
      else if has_prefix [CHR 0x22] rest \<and> snd (snd (quotedToken rest)) then
        quoted_right (fst (quotedToken rest) = a) (trim_prefix '' '' (fst (snd (quotedToken rest)))) b
      else quoted_only_right rest a b)"

section \<open>The metadata of a section\<close>

record section_meta =
  smOldName :: string
  smNewName :: string
  smFrom :: string
  smTo :: string
  smNewFile :: bool
  smDeleted :: bool
  smSeen :: "string list"
  smUncovered :: string

definition directives :: "string list" where
  "directives = [''--- '', ''+++ '', ''rename from '', ''rename to '', ''copy from '', ''copy to '', ''new file mode '',
     ''deleted file mode '', ''old mode '', ''new mode '', ''index '', ''similarity index '', ''dissimilarity index '']"

definition empty_meta :: section_meta where
  "empty_meta = \<lparr>smOldName = [], smNewName = [], smFrom = [], smTo = [], smNewFile = False, smDeleted = False,
     smSeen = [], smUncovered = []\<rparr>"

definition mode_ok :: "string \<Rightarrow> bool" where
  "mode_ok s \<longleftrightarrow> length s = 6 \<and> list_all octal_digit s"

definition lower_hex :: "char \<Rightarrow> bool" where
  "lower_hex c \<longleftrightarrow> is_digit c \<or> (97 \<le> ord c \<and> ord c \<le> 102)"

definition hash_run :: "string \<Rightarrow> bool" where
  "hash_run s \<longleftrightarrow> 4 \<le> length s \<and> length s \<le> 64"

definition index_ok :: "string \<Rightarrow> bool" where
  "index_ok line = (let s = drop 6 line; a = takeWhile lower_hex s; t = dropWhile lower_hex s;
       u = drop 2 t; b = takeWhile lower_hex u; v = dropWhile lower_hex u in
     has_prefix ''index '' line \<and> hash_run a \<and> has_prefix ''..'' t \<and> hash_run b \<and>
     (v = [] \<or> (has_prefix '' '' v \<and> mode_ok (drop 1 v))))"

definition similarity_ok :: "string \<Rightarrow> bool" where
  "similarity_ok line = (let s = trim_prefix ''dis'' line; d = takeWhile is_digit (drop 17 s) in
     has_prefix ''similarity index '' s \<and> dropWhile is_digit (drop 17 s) = ''%'' \<and>
     (length d = 1 \<or> (length d = 2 \<and> hd d \<noteq> CHR ''0'') \<or> d = ''100''))"

text \<open>No directive may appear twice.\<close>

definition note_directives :: "string \<Rightarrow> section_meta \<Rightarrow> review_error + section_meta" where
  "note_directives line m = forE (\<lambda>d m.
     if \<not> has_prefix d line then Inr m
     else if d \<in> set (smSeen m) then Inl (Refused ''duplicate diff metadata directive'')
     else Inr (m\<lparr>smSeen := smSeen m @ [d]\<rparr>)) directives m"

definition after_word :: "string \<Rightarrow> string \<Rightarrow> string" where
  "after_word word line = (case cut_at word line of None \<Rightarrow> [] | Some (_, name) \<Rightarrow> name)"

definition named_path :: "string \<Rightarrow> string \<Rightarrow> string" where
  "named_path prefix line = decodePath (trim_suffix [CHR 0x09] (trim_prefix prefix line))"

definition mode_line :: "string \<Rightarrow> string \<Rightarrow> string \<Rightarrow> section_meta \<Rightarrow> review_error + section_meta" where
  "mode_line prefix message line m =
     (if mode_ok (trim_prefix prefix line) then Inr m else Inl (Refused message))"

definition meta_line :: "string \<Rightarrow> section_meta \<Rightarrow> review_error + section_meta" where
  "meta_line line m =
     (if has_prefix ''--- '' line then Inr (m\<lparr>smOldName := named_path ''--- '' line\<rparr>)
      else if has_prefix ''+++ '' line then Inr (m\<lparr>smNewName := named_path ''+++ '' line\<rparr>)
      else if has_prefix ''rename from '' line \<or> has_prefix ''copy from '' line then
        Inr (m\<lparr>smFrom := decodePath (after_word '' from '' line)\<rparr>)
      else if has_prefix ''rename to '' line \<or> has_prefix ''copy to '' line then
        Inr (m\<lparr>smTo := decodePath (after_word '' to '' line)\<rparr>)
      else if has_prefix ''new file mode '' line then
        mode_line ''new file mode '' ''invalid new file mode'' line (m\<lparr>smNewFile := True\<rparr>)
      else if has_prefix ''deleted file mode '' line then
        mode_line ''deleted file mode '' ''invalid deleted file mode'' line (m\<lparr>smDeleted := True\<rparr>)
      else if has_prefix ''old mode '' line \<or> has_prefix ''new mode '' line then
        (if mode_ok (drop 9 line) then Inr m else Inl (Refused ''invalid changed file mode''))
      else if has_prefix ''index '' line then
        (if index_ok line then Inr m else Inl (Refused ''invalid diff index''))
      else if has_prefix ''similarity index '' line \<or> has_prefix ''dissimilarity index '' line then
        (if similarity_ok line then Inr m else Inl (Refused ''invalid diff similarity''))
      else if has_prefix ''Binary files '' line \<or> line = ''GIT binary patch'' then
        Inr (m\<lparr>smUncovered := ''nontext change cannot receive text review''\<rparr>)
      else if smUncovered m = [] then Inl (Refused ''invalid diff metadata'') else Inr m)"

definition read_meta :: "string list \<Rightarrow> review_error + section_meta" where
  "read_meta lines = forE (\<lambda>line m. bindE (note_directives line m) (meta_line line)) lines empty_meta"

definition seen_dir :: "section_meta \<Rightarrow> string \<Rightarrow> bool" where
  "seen_dir m d \<longleftrightarrow> d \<in> set (smSeen m)"

definition pairs_ok :: "section_meta \<Rightarrow> bool" where
  "pairs_ok m \<longleftrightarrow> seen_dir m ''old mode '' = seen_dir m ''new mode '' \<and>
     \<not> ((smNewFile m \<or> smDeleted m) \<and> seen_dir m ''old mode '') \<and> seen_dir m ''--- '' = seen_dir m ''+++ '' \<and>
     seen_dir m ''rename from '' = seen_dir m ''rename to '' \<and> seen_dir m ''copy from '' = seen_dir m ''copy to '' \<and>
     \<not> (seen_dir m ''rename from '' \<and> seen_dir m ''copy from '')"

text \<open>The checks between the metadata and the hunks; \<open>body\<close> says whether hunks follow.\<close>

definition check_meta :: "changedFile \<Rightarrow> bool \<Rightarrow> section_meta \<Rightarrow> review_error + unit" where
  "check_meta file body m =
     (let old = (if smNewFile m then ''/dev/null''
                 else if cfPrevious file \<noteq> [] then ''a/'' @ cfPrevious file else ''a/'' @ cfFilename file);
          new = (if smDeleted m then ''/dev/null'' else ''b/'' @ cfFilename file) in
      if \<not> pairs_ok m then Inl (Refused ''incomplete or contradictory diff metadata pair'')
      else if (cfStatus file = ''added'') \<noteq> smNewFile m \<or> (cfStatus file = ''removed'') \<noteq> smDeleted m then
        Inl (Refused ''diff and manifest status disagree'')
      else if cfPrevious file \<noteq> [] \<and> (smFrom m \<noteq> cfPrevious file \<or> smTo m \<noteq> cfFilename file) then
        Inl (Refused ''diff and manifest rename disagree'')
      else if (cfStatus file = ''renamed'' \<and> \<not> seen_dir m ''rename from '') \<or> (cfStatus file = ''copied'' \<and> \<not> seen_dir m ''copy from '') then
        Inl (Refused ''diff and manifest rename kind disagree'')
      else if cfPrevious file = [] \<and> (smFrom m \<noteq> [] \<or> smTo m \<noteq> []) then Inl (Refused ''undeclared rename metadata'')
      else if (body \<or> seen_dir m ''--- '') \<and> (smOldName m \<noteq> old \<or> smNewName m \<noteq> new \<or> smUncovered m \<noteq> []) then
        Inl (Refused ''invalid unified diff paths'')
      else Inr ())"

section \<open>The hunks of a section\<close>

record hunk_count =
  hcOld :: nat
  hcNew :: nat
  hcAdded :: nat
  hcRemoved :: nat
  hcContent :: bool

definition no_count :: hunk_count where
  "no_count = \<lparr>hcOld = 0, hcNew = 0, hcAdded = 0, hcRemoved = 0, hcContent = False\<rparr>"

definition hunk_line :: "string \<Rightarrow> hunk_count \<Rightarrow> review_error + hunk_count" where
  "hunk_line line c =
     (if line = no_newline then
        (if \<not> hcContent c then Inl (Refused ''misplaced no-newline marker'') else Inr (c\<lparr>hcContent := False\<rparr>))
      else case line of
          [] \<Rightarrow> Inl (Refused ''missing hunk line prefix'')
        | p # _ \<Rightarrow>
            if p = CHR '' '' then Inr (c\<lparr>hcOld := hcOld c + 1, hcNew := hcNew c + 1, hcContent := True\<rparr>)
            else if p = CHR ''+'' then Inr (c\<lparr>hcNew := hcNew c + 1, hcAdded := hcAdded c + 1, hcContent := True\<rparr>)
            else if p = CHR ''-'' then Inr (c\<lparr>hcOld := hcOld c + 1, hcRemoved := hcRemoved c + 1, hcContent := True\<rparr>)
            else Inl (Refused ''invalid hunk line''))"

record section_state =
  ssHunks :: "hunk list"
  ssAdded :: nat
  ssRemoved :: nat
  ssOld :: nat
  ssNew :: nat

definition no_hunks :: section_state where
  "no_hunks = \<lparr>ssHunks = [], ssAdded = 0, ssRemoved = 0, ssOld = 0, ssNew = 0\<rparr>"

text \<open>One hunk: its header, its lines up to the next header, and the checks on its ranges.\<close>

definition section_hunk :: "section_meta \<Rightarrow> string \<Rightarrow> string list \<Rightarrow> section_state \<Rightarrow> review_error + section_state" where
  "section_hunk m header body st =
     (case parseHunkHeader header of
        Inl _ \<Rightarrow> Inl (Refused ''invalid or overlapping diff hunk'')
      | Inr h \<Rightarrow>
          if hOldStart h < ssOld st \<or> hNewStart h < ssNew st then Inl (Refused ''invalid or overlapping diff hunk'')
          else bindE (forE hunk_line body no_count) (\<lambda>c.
            if hcOld c \<noteq> hOld h \<or> hcNew c \<noteq> hNew h then Inl (Refused ''truncated or contradictory hunk counts'')
            else if (smNewFile m \<and> hcOld c \<noteq> 0) \<or> (smDeleted m \<and> hcNew c \<noteq> 0) \<or> hcOld c + hcNew c = 0 then
              Inl (Refused ''hunk ranges contradict file lifecycle'')
            else Inr \<lparr>ssHunks = ssHunks st @ [h\<lparr>hLines := body\<rparr>], ssAdded = ssAdded st + hcAdded c,
              ssRemoved = ssRemoved st + hcRemoved c, ssOld = hOldStart h + hOld h, ssNew = hNewStart h + hNew h\<rparr>))"

function section_hunks :: "section_meta \<Rightarrow> string list \<Rightarrow> section_state \<Rightarrow> review_error + section_state" where
  "section_hunks m [] st = Inr st"
| "section_hunks m (line # lines) st =
     bindE (section_hunk m line (takeWhile (\<lambda>l. \<not> hunk_start l) lines) st)
       (section_hunks m (dropWhile (\<lambda>l. \<not> hunk_start l) lines))"
  by pat_completeness auto
termination by (relation "measure (\<lambda>(m, lines, st). length lines)") (simp_all add: le_imp_less_Suc length_dropWhile_le)

definition statistic_ok :: "nat \<Rightarrow> int option \<Rightarrow> review_error + bool" where
  "statistic_ok n stat = (case stat of None \<Rightarrow> Inl Panics | Some k \<Rightarrow> Inr (int n = k))"

definition check_statistics :: "changedFile \<Rightarrow> nat \<Rightarrow> nat \<Rightarrow> string \<Rightarrow> review_error + unit" where
  "check_statistics file added removed message =
     bindE (statistic_ok added (cfAdditions file)) (\<lambda>a.
       if \<not> a then Inl (Refused message)
       else bindE (statistic_ok removed (cfDeletions file)) (\<lambda>r. if \<not> r then Inl (Refused message) else Inr ()))"

definition parseSection :: "string list \<Rightarrow> changedFile \<Rightarrow> bool \<Rightarrow> review_error + fileDiff" where
  "parseSection lines file checkStatistics = (case lines of
       [] \<Rightarrow> Inl Panics
     | title # rest \<Rightarrow>
         let metadata = takeWhile (\<lambda>l. \<not> hunk_start l) rest;
             body = dropWhile (\<lambda>l. \<not> hunk_start l) rest;
             header = join [CHR 0x0A] (title # metadata) @ [CHR 0x0A] in
         bindE (read_meta metadata) (\<lambda>m. bindE (check_meta file (body \<noteq> []) m) (\<lambda>_.
         bindE (section_hunks m body no_hunks) (\<lambda>st.
         bindE (if checkStatistics
                then check_statistics file (ssAdded st) (ssRemoved st) ''diff statistics disagree with manifest''
                else Inr ()) (\<lambda>_.
           if rest = [] \<or> (ssHunks st = [] \<and> smUncovered m = [] \<and> \<not> smNewFile m \<and> \<not> smDeleted m \<and>
                cfPrevious file = [] \<and> \<not> contains_sub header ''old mode '')
           then Inl (Refused ''missing change content'')
           else Inr (FileDiff file header (ssHunks st) (smUncovered m) (ssAdded st) (ssRemoved st) []))))))"

section \<open>Type changes\<close>

text \<open>\<open>strconv.ParseUint\<close> in base 8 with 32 bits.\<close>

definition parse_octal :: "string \<Rightarrow> nat option" where
  "parse_octal s = (let n = foldl (\<lambda>n c. 8 * n + (ord c - 48)) 0 s in
     if s = [] \<or> \<not> list_all octal_digit s \<or> n \<ge> 2 ^ 32 then None else Some n)"

definition type_mode :: "string list \<Rightarrow> string \<Rightarrow> review_error + nat" where
  "type_mode lines prefix =
     (if length lines < 2 \<or> \<not> has_prefix prefix (lines ! 1) then
        Inl (Refused ''type change requires deletion followed by creation'')
      else case parse_octal (trim_prefix prefix (lines ! 1)) of
          None \<Rightarrow> Inl (Refused ''invalid type change mode'')
        | Some n \<Rightarrow> Inr n)"

definition type_bits :: "nat \<Rightarrow> nat" where
  "type_bits mode = mode div 4096 mod 16"

definition parseTypeChange :: "string list \<Rightarrow> string list \<Rightarrow> changedFile \<Rightarrow> review_error + fileDiff" where
  "parseTypeChange deletion creation file =
     (if (cfStatus file \<noteq> ''changed'' \<and> cfStatus file \<noteq> ''modified'') \<or> cfPrevious file \<noteq> [] then
        Inl (Refused ''repeated diff section is not a type change'')
      else bindE (type_mode deletion ''deleted file mode '') (\<lambda>a. bindE (type_mode creation ''new file mode '') (\<lambda>b.
        if type_bits a = type_bits b then Inl (Refused ''repeated sections do not change file type'')
        else bindE (parseSection deletion (file\<lparr>cfStatus := ''removed''\<rparr>) False) (\<lambda>p.
          bindE (parseSection creation (file\<lparr>cfStatus := ''added''\<rparr>) False) (\<lambda>q.
          bindE (check_statistics file (fdAdded p + fdAdded q) (fdRemoved p + fdRemoved q)
              ''type change statistics disagree with manifest'') (\<lambda>_.
            Inr (FileDiff file [] (fdHunks p @ fdHunks q) (if fdUncovered q \<noteq> [] then fdUncovered q else fdUncovered p)
              (fdAdded p + fdAdded q) (fdRemoved p + fdRemoved q) [p, q])))))))"

section \<open>Reading the inputs\<close>

text \<open>What \<open>encoding/json\<close> makes of the manifest: refused, or a list (\<open>None\<close> for \<open>null\<close>) and whether data follow.\<close>

datatype manifest_answer = NotDecoded | Decoded "changedFile list option" bool

definition manifest_file :: "changedFile \<Rightarrow> string list \<Rightarrow> review_error + string list" where
  "manifest_file file seen =
     (let bad = (\<lambda>n. case n of None \<Rightarrow> True | Some k \<Rightarrow> k < 0) in
      if \<not> safePath (cfFilename file) \<or> (cfPrevious file \<noteq> [] \<and> \<not> safePath (cfPrevious file)) \<or>
         cfFilename file \<in> set seen \<or> bad (cfAdditions file) \<or> bad (cfDeletions file) then
        Inl (Refused ''invalid or duplicate manifest file'')
      else if cfStatus file \<in> {''added'', ''removed'', ''modified'', ''changed''} then
        (if cfPrevious file \<noteq> [] then Inl (Refused ''unexpected previous filename'') else Inr (seen @ [cfFilename file]))
      else if cfStatus file = ''renamed'' \<or> cfStatus file = ''copied'' then
        (if cfPrevious file = [] then Inl (Refused ''missing previous filename'') else Inr (seen @ [cfFilename file]))
      else Inl (Refused ''invalid manifest status''))"

text \<open>The sections of a diff: a line that starts one, and the lines up to the next.\<close>

definition section_start :: "string \<Rightarrow> bool" where
  "section_start line \<longleftrightarrow> has_prefix ''diff --git '' line"

function diff_sections :: "string list \<Rightarrow> string list list" where
  "diff_sections [] = []"
| "diff_sections (line # lines) =
     (line # takeWhile (\<lambda>l. \<not> section_start l) lines) # diff_sections (dropWhile (\<lambda>l. \<not> section_start l) lines)"
  by pat_completeness auto
termination by (relation "measure length") (simp_all add: le_imp_less_Suc length_dropWhile_le)

definition old_name :: "changedFile \<Rightarrow> string" where
  "old_name file = (if cfPrevious file \<noteq> [] then cfPrevious file else cfFilename file)"

definition match_section :: "(nat \<Rightarrow> bool) \<Rightarrow> (nat \<Rightarrow> bool) \<Rightarrow> changedFile list \<Rightarrow> nat \<times> string list \<Rightarrow>
    (string \<times> string list) list \<Rightarrow> review_error + (string \<times> string list) list" where
  "match_section printable cancel files = (\<lambda>(k, lines) grouped.
     if cancel k then Inl Stopped
     else case filter (\<lambda>file. matchGitHeader printable (hd lines) (old_name file) (cfFilename file)) files of
         [file] \<Rightarrow> Inr (grouped @ [(cfFilename file, lines)])
       | _ \<Rightarrow> Inl (Refused ''diff and manifest filenames disagree''))"

definition parse_file :: "(string \<times> string list) list \<Rightarrow> changedFile \<Rightarrow> fileDiff list \<Rightarrow> review_error + fileDiff list" where
  "parse_file grouped file result = bindE (case map snd (filter (\<lambda>g. fst g = cfFilename file) grouped) of
       [lines] \<Rightarrow> parseSection lines file True
     | [deletion, creation] \<Rightarrow> parseTypeChange deletion creation file
     | _ \<Rightarrow> Inl (Refused ''missing or repeated diff file section'')) (\<lambda>parsed. Inr (result @ [parsed]))"

definition read_manifest :: "(string \<Rightarrow> manifest_answer) \<Rightarrow> string option \<Rightarrow> review_error + changedFile list" where
  "read_manifest decode raw = (case raw of
       None \<Rightarrow> Inl (Refused ''cannot read bounded files manifest'')
     | Some data \<Rightarrow>
         if \<not> utf8_valid data then Inl (Refused ''cannot read bounded files manifest'')
         else case decode data of
             Decoded (Some files) extra \<Rightarrow>
               if length files > 3000 then Inl (Refused ''invalid or oversized files manifest'')
               else if extra then Inl (Refused ''trailing manifest data'')
               else bindE (forE manifest_file files []) (\<lambda>_. Inr files)
           | _ \<Rightarrow> Inl (Refused ''invalid or oversized files manifest''))"

definition read_diff :: "nat \<Rightarrow> string option \<Rightarrow> review_error + string" where
  "read_diff manifestBytes raw = (case raw of
       None \<Rightarrow> Inl (Refused ''cannot read bounded UTF-8 diff'')
     | Some data \<Rightarrow>
         if length data + manifestBytes > inputLimit \<or> \<not> utf8_valid data \<or> CHR 0x00 \<in> set data then
           Inl (Refused ''cannot read bounded UTF-8 diff'')
         else Inr data)"

definition readInputs :: "(nat \<Rightarrow> bool) \<Rightarrow> (string \<Rightarrow> manifest_answer) \<Rightarrow> (nat \<Rightarrow> bool) \<Rightarrow> string option \<Rightarrow> string option \<Rightarrow>
    review_error + fileDiff list" where
  "readInputs printable decode cancel manifest diff =
     bindE (read_manifest decode manifest) (\<lambda>files.
     bindE (read_diff (length (the manifest)) diff) (\<lambda>raw.
       if raw = [] \<and> files = [] then Inr []
       else if \<not> section_start raw \<or> \<not> has_suffix [CHR 0x0A] raw then Inl (Refused ''missing or incomplete Git diff'')
       else let sections = diff_sections (split_on CHR 0x0A (trim_suffix [CHR 0x0A] raw)) in
         bindE (forE (match_section printable cancel files) (enumerate 0 sections) []) (\<lambda>grouped.
         bindE (forE (parse_file grouped) files []) (\<lambda>result.
           if length result \<noteq> length files then Inl (Refused ''diff does not cover every manifest file'')
           else Inr (sort_key (\<lambda>d. cfFilename (fdFile d)) result)))))"

end
