(* ===== verification/Review_Settings.thy ===== *)
theory Review_Settings
  imports Review_Diff Go_Float
begin

text \<open>
  The policy of the batched review (\<open>internal/reviewbatch/settings.go\<close>): options, bounded integers, provider routing
  and the assembly of the policy from the environment.  The export plan of the configuration file is an answer:
  the actions, each a key, a value and whether it is export-only, or \<open>None\<close> when loading fails.
\<close>

section \<open>Options\<close>

record review_options =
  oDiff :: string
  oFiles :: string
  oBase :: string
  oHead :: string
  oRepository :: string
  oOutput :: string
  oCache :: string
  oPlan :: bool

definition revision_ok :: "string \<Rightarrow> bool" where
  "revision_ok s \<longleftrightarrow> (length s = 40 \<or> length s = 64) \<and> list_all lower_hex s"

definition repository_char :: "char \<Rightarrow> bool" where
  "repository_char c \<longleftrightarrow> is_digit c \<or> (65 \<le> ord c \<and> ord c \<le> 90) \<or> (97 \<le> ord c \<and> ord c \<le> 122) \<or> c \<in> set ''_.-''"

definition repository_ok :: "string \<Rightarrow> bool" where
  "repository_ok s = (case split_on CHR ''/'' s of
       [owner, name] \<Rightarrow> owner \<noteq> [] \<and> name \<noteq> [] \<and> list_all repository_char owner \<and> list_all repository_char name
     | _ \<Rightarrow> False)"

text \<open>The checks after flag parsing; \<open>extra\<close> counts the remaining arguments.\<close>

definition check_options :: "nat \<Rightarrow> review_options \<Rightarrow> review_error + review_options" where
  "check_options extra opts =
     (if extra \<noteq> 0 \<or> oDiff opts = [] \<or> oFiles opts = [] \<or> oOutput opts = [] \<or> \<not> revision_ok (oBase opts) \<or>
         \<not> revision_ok (oHead opts) \<or> \<not> repository_ok (oRepository opts)
      then Inl (Refused ''review-batch requires diff, files, repository, exact base/head and a new output directory'')
      else Inr opts)"

section \<open>Numbers and providers\<close>

definition integer_setting :: "string \<Rightarrow> nat \<Rightarrow> nat \<Rightarrow> nat \<Rightarrow> review_error + nat" where
  "integer_setting s fallback lower upper =
     (if s = [] then Inr fallback
      else if trim_cutset ''0123456789'' s \<noteq> [] then Inl (Refused ''invalid integer'')
      else let n = digits_val s in
        if n > 9223372036854775807 \<or> n < lower \<or> n > upper then Inl (Refused ''integer out of range'') else Inr n)"

text \<open>\<open>^[a-z0-9]+([-/][a-z0-9]+)*$\<close>\<close>

definition slug_char :: "char \<Rightarrow> bool" where
  "slug_char c \<longleftrightarrow> is_digit c \<or> (97 \<le> ord c \<and> ord c \<le> 122)"

definition provider_ok :: "string \<Rightarrow> bool" where
  "provider_ok s \<longleftrightarrow> list_all (\<lambda>part. part \<noteq> [] \<and> list_all slug_char part)
     (split_on CHR ''-'' (map (\<lambda>c. if c = CHR ''/'' then CHR ''-'' else c) s))"

text \<open>\<open>^[0-9]+(\.[0-9]+)?$\<close>\<close>

definition price_syntax :: "string \<Rightarrow> bool" where
  "price_syntax s = (case split_on CHR ''.'' s of
       [a] \<Rightarrow> a \<noteq> [] \<and> list_all is_digit a
     | [a, b] \<Rightarrow> a \<noteq> [] \<and> b \<noteq> [] \<and> list_all is_digit a \<and> list_all is_digit b
     | _ \<Rightarrow> False)"

definition price_ok :: "string \<Rightarrow> bool" where
  "price_ok s = (case parse_float s of
       Some (v, False) \<Rightarrow> price_syntax s \<and> f64_less f64_zero v \<and> f64_finite v
     | _ \<Rightarrow> False)"

record route =
  rtOrder :: "string list"
  rtFallbacks :: bool
  rtPrices :: "(string \<times> string) option"

type_synonym settings = "(string \<times> string) list"

definition setting :: "settings \<Rightarrow> string \<Rightarrow> string" where
  "setting e key = (case map_of e key of None \<Rightarrow> [] | Some v \<Rightarrow> v)"

definition routing :: "settings \<Rightarrow> review_error + route option" where
  "routing e =
     (let primary = setting e ''REVIEW_OPENROUTER_PROVIDER''; fallback = setting e ''REVIEW_FALLBACK_PROVIDERS'';
          prompt = setting e ''REVIEW_MAX_PROMPT_PRICE''; completion = setting e ''REVIEW_MAX_COMPLETION_PRICE'';
          order = primary # (if fallback \<noteq> [] then split_on CHR '','' fallback else []) in
      if primary = [] \<and> fallback = [] \<and> prompt = [] \<and> completion = [] then Inr None
      else if \<not> list_all provider_ok order \<or> \<not> distinct order then Inl (Refused ''invalid review provider allowlist'')
      else if length order > 4 then Inl (Refused ''review provider allowlist exceeds four providers'')
      else if length order > 1 \<or> prompt \<noteq> [] \<or> completion \<noteq> [] then
        (if price_ok prompt \<and> price_ok completion
         then Inr (Some \<lparr>rtOrder = order, rtFallbacks = length order > 1, rtPrices = Some (prompt, completion)\<rparr>)
         else Inl (Refused ''provider fallback requires positive prompt and completion price ceilings''))
      else Inr (Some \<lparr>rtOrder = order, rtFallbacks = False, rtPrices = None\<rparr>))"

section \<open>The policy\<close>

record policy =
  pModel :: string
  pReasoning :: string
  pProvider :: "route option"
  pMaxTokens :: nat
  pBatchBytes :: nat
  pMaxBatches :: nat
  pMaxRequests :: nat
  pTotalTokens :: nat
  pTotalInput :: nat
  pTimeoutSeconds :: nat
  pParallelism :: nat
  pBatchTimeout :: nat
  pHTTPRetries :: nat

definition read_setting :: "settings \<Rightarrow> string \<Rightarrow> nat \<Rightarrow> nat \<Rightarrow> nat \<Rightarrow> review_error + nat" where
  "read_setting e key fallback lower upper = (case integer_setting (setting e key) fallback lower upper of
       Inl _ \<Rightarrow> Inl (Refused (''invalid '' @ key))
     | Inr n \<Rightarrow> Inr n)"

definition review_model :: "settings \<Rightarrow> review_error + string" where
  "review_model e =
     (let model = (if setting e ''REVIEW_MODEL'' = [] then trim_prefix ''openrouter/'' (setting e ''OPENCODE_FRONTIER_MODEL'')
                   else setting e ''REVIEW_MODEL'') in
      if trim_runes is_space_rune model = [] \<or> length model > 256 \<or> contains_any model [CHR 0x0D, CHR 0x0A, CHR 0x00] then
        Inl (Refused ''missing or invalid review model'')
      else Inr model)"

definition reasoning_ok :: "string \<Rightarrow> bool" where
  "reasoning_ok s \<longleftrightarrow> s \<in> {[], ''none'', ''minimal'', ''low'', ''medium'', ''high'', ''xhigh'', ''max''}"

definition effective_settings :: "settings \<Rightarrow> (string \<times> string \<times> bool) list \<Rightarrow> settings" where
  "effective_settings e actions = foldl (\<lambda>e (key, v, exportOnly). if exportOnly then e else AList.update key v e) e actions"

definition readPolicy :: "settings \<Rightarrow> (string \<times> string \<times> bool) list option \<Rightarrow> review_error + (policy \<times> string)" where
  "readPolicy environment plan = (case plan of
       None \<Rightarrow> Inl (Refused ''cannot load review configuration'')
     | Some actions \<Rightarrow>
         let e = effective_settings environment actions; provider = setting e ''MODEL_PROVIDER'' in
         if provider \<noteq> [] \<and> provider \<noteq> ''openrouter'' then Inl (Refused ''batched review requires the OpenRouter provider'')
         else
           bindE (review_model e) (\<lambda>model.
           bindE (read_setting e ''REVIEW_MAX_TOKENS'' 8192 1024 32768) (\<lambda>maxTokens.
           bindE (read_setting e ''REVIEW_BATCH_BYTES'' 60000 4096 100000) (\<lambda>batchBytes.
           bindE (read_setting e ''REVIEW_MAX_BATCHES'' 16 1 64) (\<lambda>maxBatches.
           bindE (read_setting e ''REVIEW_MAX_REQUESTS'' 16 1 64) (\<lambda>maxRequests.
           bindE (read_setting e ''REVIEW_TOTAL_MAX_TOKENS'' 524288 1024 2097152) (\<lambda>totalTokens.
           bindE (read_setting e ''REVIEW_TOTAL_INPUT_BYTES'' 2097152 4096 16777216) (\<lambda>totalInput.
           bindE (read_setting e ''REVIEW_TIMEOUT_SECONDS'' 1200 1 1200) (\<lambda>timeoutSeconds.
           bindE (read_setting e ''REVIEW_PARALLELISM'' 1 1 4) (\<lambda>parallelism.
           bindE (read_setting e ''REVIEW_BATCH_TIMEOUT_SECONDS'' 1200 1 1200) (\<lambda>batchTimeout.
           bindE (read_setting e ''REVIEW_HTTP_RETRIES'' 0 0 1) (\<lambda>retries.
             if \<not> reasoning_ok (setting e ''REVIEW_REASONING_EFFORT'') then Inl (Refused ''invalid review reasoning effort'')
             else bindE (routing e) (\<lambda>route.
               Inr (\<lparr>pModel = model, pReasoning = setting e ''REVIEW_REASONING_EFFORT'', pProvider = route,
                  pMaxTokens = maxTokens, pBatchBytes = batchBytes, pMaxBatches = maxBatches, pMaxRequests = maxRequests,
                  pTotalTokens = totalTokens, pTotalInput = totalInput, pTimeoutSeconds = timeoutSeconds,
                  pParallelism = parallelism, pBatchTimeout = batchTimeout, pHTTPRetries = retries\<rparr>,
                 setting e ''REVIEW_API_KEY''))))))))))))))"

end
