(* ===== verification/Review_Plan.thy ===== *)
theory Review_Plan
  imports Review_Settings
begin

text \<open>
  Planning of the batched review (\<open>internal/reviewbatch/plan.go\<close>): splitting a file into fragments, grouping
  fragments into batches, and the coverage of a report.  SHA-256 and the JSON texts of \<open>encoding/json\<close>
  that only identify or transport are the fields of \<open>codec\<close>.
\<close>

section \<open>Data\<close>

record fragment =
  frID :: string
  frPath :: string
  frIndex :: nat
  frOldStart :: nat
  frOldLines :: nat
  frNewStart :: nat
  frNewLines :: nat
  frPatch :: string

text \<open>Reported usage: the known counters of a reply; a usage that is not known is \<open>None\<close>.\<close>

type_synonym usage = "(string \<times> f64) list"

record batch =
  bID :: string
  bFiles :: "string list"
  bFragments :: "string list"
  bStatus :: string
  bCached :: bool
  bFindings :: string
  bError :: string
  bUsage :: "usage option"
  bPatch :: string

record fileCoverage =
  fcPath :: string
  fcStatus :: string
  fcFragments :: "string list"
  fcError :: string

record review_counts =
  rcFilesTotal :: nat
  rcFilesReviewed :: nat
  rcFragmentsTotal :: nat
  rcFragmentsReviewed :: nat
  rcBatchesPlanned :: nat
  rcBatchesCompleted :: nat
  rcBatchesCached :: nat

record review_budget =
  rbRequestsUsed :: nat
  rbMaxRequests :: nat
  rbTokensReserved :: nat
  rbMaxTokens :: nat
  rbInputReserved :: nat
  rbMaxInput :: nat

record report =
  rpStatus :: string
  rpRepository :: string
  rpBase :: string
  rpHead :: string
  rpContextDigest :: string
  rpPolicyDigest :: string
  rpCounts :: review_counts
  rpBudget :: review_budget
  rpUsage :: "usage option"
  rpBatches :: "batch list"
  rpFiles :: "fileCoverage list"
  rpFragments :: "fragment list"
  rpError :: string

record codec =
  cdDigest :: "string \<Rightarrow> string"
  cdPolicy :: "policy \<Rightarrow> string"
  cdShared :: "changedFile list \<Rightarrow> (string \<times> string list) list \<Rightarrow> string"
  cdStrings :: "string list \<Rightarrow> string"

section \<open>Splitting a file\<close>

definition hunk_patch :: "string \<Rightarrow> nat \<Rightarrow> nat \<Rightarrow> nat \<Rightarrow> nat \<Rightarrow> string list \<Rightarrow> string" where
  "hunk_patch header oldStart old newStart new lines =
     header @ ''@@ -'' @ nat_str oldStart @ '','' @ nat_str old @ '' +'' @ nat_str newStart @ '','' @ nat_str new @ '' @@'' @ [CHR 0x0A] @
     join [CHR 0x0A] lines @ [CHR 0x0A]"

definition marked :: "string list \<Rightarrow> bool" where
  "marked lines = (case lines of [] \<Rightarrow> False | l # _ \<Rightarrow> l = no_newline)"

text \<open>The inner loop: how many lines fit from here on, with the old and new lines among them; \<open>None\<close> is a panic.\<close>

record chunk =
  ckLast :: nat
  ckOld :: nat
  ckNew :: nat

function take_chunk :: "nat \<Rightarrow> string list \<Rightarrow> nat \<Rightarrow> chunk \<Rightarrow> chunk option" where
  "take_chunk limit [] used c = Some c"
| "take_chunk limit (line # lines) used c =
     (let needed = length line + 1 + (if marked lines then length no_newline + 1 else 0) in
      if used + needed > limit then Some c
      else case line of
          [] \<Rightarrow> None
        | p # _ \<Rightarrow>
            take_chunk limit (if marked lines then drop 1 lines else lines) (used + needed)
              \<lparr>ckLast = ckLast c + (if marked lines then 2 else 1),
               ckOld = ckOld c + (if p = CHR '' '' \<or> p = CHR ''-'' then 1 else 0),
               ckNew = ckNew c + (if p = CHR '' '' \<or> p = CHR ''+'' then 1 else 0)\<rparr>)"
  by pat_completeness auto
termination by (relation "measure (\<lambda>(limit, lines, used, c). length lines)") auto

definition oversized_line :: string where
  "oversized_line = ''a single diff line exceeds the batch patch limit''"

text \<open>The loop over one hunk; \<open>n\<close> counts the fragments made so far.\<close>

function split_hunk :: "(string \<Rightarrow> string) \<Rightarrow> string \<Rightarrow> string \<Rightarrow> nat \<Rightarrow> nat \<Rightarrow> nat \<Rightarrow> nat \<Rightarrow> string list \<Rightarrow> review_error + fragment list" where
  "split_hunk dg path header limit n oldPosition newPosition lines =
     (if lines = [] then Inr []
      else case take_chunk limit lines (length header + 128) \<lparr>ckLast = 0, ckOld = 0, ckNew = 0\<rparr> of
          None \<Rightarrow> Inl Panics
        | Some c \<Rightarrow>
            if ckLast c = 0 then Inl (Refused oversized_line)
            else let patch = hunk_patch header oldPosition (ckOld c) newPosition (ckNew c) (take (ckLast c) lines) in
              bindE (split_hunk dg path header limit (Suc n) (oldPosition + ckOld c) (newPosition + ckNew c) (drop (ckLast c) lines))
                (\<lambda>rest. Inr (\<lparr>frID = dg patch, frPath = path, frIndex = Suc n, frOldStart = oldPosition, frOldLines = ckOld c,
                   frNewStart = newPosition, frNewLines = ckNew c, frPatch = patch\<rparr> # rest)))"
  by pat_completeness auto
termination
  by (relation "measure (\<lambda>(dg, path, header, limit, n, oldPosition, newPosition, lines). length lines)") auto

declare split_hunk.simps [simp del]

fun split_hunks :: "(string \<Rightarrow> string) \<Rightarrow> string \<Rightarrow> string \<Rightarrow> nat \<Rightarrow> nat \<Rightarrow> hunk list \<Rightarrow> review_error + fragment list" where
  "split_hunks dg path header limit n [] = Inr []"
| "split_hunks dg path header limit n (h # hs) =
     bindE (split_hunk dg path header limit n (hOldStart h) (hNewStart h) (hLines h)) (\<lambda>a.
       bindE (split_hunks dg path header limit (n + length a) hs) (\<lambda>b. Inr (a @ b)))"

definition split_whole :: "(string \<Rightarrow> string) \<Rightarrow> nat \<Rightarrow> fileDiff \<Rightarrow> review_error + fragment list" where
  "split_whole dg limit d =
     (if length (fdHeader d) + 128 > limit then Inl (Refused ''file metadata exceeds the batch patch limit'')
      else if fdHunks d = [] then
        Inr [\<lparr>frID = dg (fdHeader d), frPath = cfFilename (fdFile d), frIndex = 1, frOldStart = 0, frOldLines = 0,
          frNewStart = 0, frNewLines = 0, frPatch = fdHeader d\<rparr>]
      else split_hunks dg (cfFilename (fdFile d)) (fdHeader d) limit 0 (fdHunks d))"

text \<open>\<open>append\<close> with the running index.\<close>

definition reindex :: "nat \<Rightarrow> fragment list \<Rightarrow> fragment list" where
  "reindex n fs = map (\<lambda>(k, f). f\<lparr>frIndex := k\<rparr>) (enumerate (Suc n) fs)"

function splitFile :: "(string \<Rightarrow> string) \<Rightarrow> nat \<Rightarrow> fileDiff \<Rightarrow> review_error + fragment list" where
  "splitFile dg limit d =
     (if fdUncovered d \<noteq> [] then Inl (Refused (fdUncovered d))
      else if fdParts d \<noteq> [] then
        forE (\<lambda>part acc. bindE (splitFile dg limit part) (\<lambda>items. Inr (acc @ reindex (length acc) items))) (fdParts d) []
      else split_whole dg limit d)"
  by pat_completeness auto
termination
proof (relation "measure (\<lambda>(dg, limit, d). size d)")
  fix dg :: "string \<Rightarrow> string" and limit d part
  assume "part \<in> set (fdParts d)"
  then show "((dg, limit, part), (dg, limit, d)) \<in> measure (\<lambda>(dg, limit, d). size d)"
    by (cases d) (auto simp: less_Suc_eq_le dest: size_list_estimation' [of _ _ _ size])
qed simp

declare splitFile.simps [simp del]

section \<open>Batches\<close>

definition relatedKey :: "string \<Rightarrow> string" where
  "relatedKey filename = trim_prefix ''test_''
     (foldl (\<lambda>base suffix. trim_suffix suffix base) (trim_suffix (path_ext filename) (path_base filename))
       [''_test'', ''.test'', ''.spec'', ''_spec''])"

record pending =
  pdBatches :: "batch list"
  pdPending :: "fragment list"
  pdBytes :: nat

definition patch_bytes :: "fragment list \<Rightarrow> nat" where
  "patch_bytes fs = sum_list (map (\<lambda>f. length (frPatch f)) fs)"

definition first_seen :: "string list \<Rightarrow> string list" where
  "first_seen xs = foldl (\<lambda>seen x. if x \<in> set seen then seen else seen @ [x]) [] xs"

definition make_batch :: "(string \<Rightarrow> string) \<Rightarrow> fragment list \<Rightarrow> batch" where
  "make_batch name fs = (let patch = concat (map frPatch fs) in
     \<lparr>bID = name patch, bFiles = first_seen (map frPath fs), bFragments = map frID fs, bStatus = ''planned'', bCached = False,
      bFindings = [], bError = [], bUsage = None, bPatch = patch\<rparr>)"

text \<open>\<open>flush\<close>, with the reset of the byte count that follows it.\<close>

definition flush_pending :: "(string \<Rightarrow> string) \<Rightarrow> pending \<Rightarrow> pending" where
  "flush_pending name st =
     \<lparr>pdBatches = (if pdPending st = [] then pdBatches st else pdBatches st @ [make_batch name (pdPending st)]),
      pdPending = [], pdBytes = 0\<rparr>"

definition add_fragment :: "(string \<Rightarrow> string) \<Rightarrow> nat \<Rightarrow> fragment \<Rightarrow> pending \<Rightarrow> pending" where
  "add_fragment name limit f st =
     (let st = (if pdBytes st + length (frPatch f) > limit then flush_pending name st else st) in
      st\<lparr>pdPending := pdPending st @ [f], pdBytes := pdBytes st + length (frPatch f)\<rparr>)"

definition add_group :: "(string \<Rightarrow> string) \<Rightarrow> nat \<Rightarrow> fragment list \<Rightarrow> pending \<Rightarrow> pending" where
  "add_group name limit fs st =
     (let size = patch_bytes fs;
          st = (if size \<le> limit \<and> pdBytes st + size > limit then flush_pending name st else st) in
      fold (add_fragment name limit) fs st)"

definition group_keys :: "fragment list \<Rightarrow> string list" where
  "group_keys fs = sort (remdups (map (\<lambda>f. relatedKey (frPath f)) fs))"

definition related_group :: "fragment list \<Rightarrow> string \<Rightarrow> fragment list" where
  "related_group fs key = filter (\<lambda>f. relatedKey (frPath f) = key) fs"

definition plan_batches :: "(string \<Rightarrow> string) \<Rightarrow> nat \<Rightarrow> fragment list \<Rightarrow> batch list" where
  "plan_batches name limit fs =
     pdBatches (flush_pending name (fold (\<lambda>key. add_group name limit (related_group fs key)) (group_keys fs)
       \<lparr>pdBatches = [], pdPending = [], pdBytes = 0\<rparr>))"

section \<open>Plans\<close>

text \<open>The coverage entry of a file and its fragments; the reason of an unreviewable file is recorded.\<close>

definition cover_file :: "(string \<Rightarrow> string) \<Rightarrow> nat \<Rightarrow> fileDiff \<Rightarrow> fileCoverage list \<times> fragment list \<Rightarrow>
    review_error + (fileCoverage list \<times> fragment list)" where
  "cover_file dg limit d = (\<lambda>(files, fragments). case splitFile dg limit d of
       Inl (Refused reason) \<Rightarrow>
         Inr (files @ [\<lparr>fcPath = cfFilename (fdFile d), fcStatus = ''unreviewable'', fcFragments = [], fcError = reason\<rparr>], fragments)
     | Inl e \<Rightarrow> Inl e
     | Inr fs \<Rightarrow>
         Inr (files @ [\<lparr>fcPath = cfFilename (fdFile d), fcStatus = ''unreviewed'', fcFragments = map frID fs, fcError = []\<rparr>],
           fragments @ fs))"

definition shared_context :: "codec \<Rightarrow> fileDiff list \<Rightarrow> string" where
  "shared_context cd changes = ''Changed-file manifest and original hunk index (context only):'' @ [CHR 0x0A] @
     cdShared cd (map fdFile changes) (map (\<lambda>d. (cfFilename (fdFile d), map hHeader (fdHunks d))) changes)"

definition makePlan_r :: "codec \<Rightarrow> review_options \<Rightarrow> policy \<Rightarrow> fileDiff list \<Rightarrow> review_error + (report \<times> string)" where
  "makePlan_r cd opts p changes =
     bindE (forE (cover_file (cdDigest cd) (pBatchBytes p)) changes ([], [])) (\<lambda>(files, fragments).
       let shared = shared_context cd changes; policyDigest = cdDigest cd (cdPolicy cd p); contextDigest = cdDigest cd shared;
           name = (\<lambda>patch. cdDigest cd (cdStrings cd [oRepository opts, oBase opts, policyDigest, contextDigest, patch]));
           batches = plan_batches name (pBatchBytes p) fragments in
       Inr (\<lparr>rpStatus = ''planned'', rpRepository = oRepository opts, rpBase = oBase opts, rpHead = oHead opts,
          rpContextDigest = contextDigest, rpPolicyDigest = policyDigest,
          rpCounts = \<lparr>rcFilesTotal = length files, rcFilesReviewed = 0, rcFragmentsTotal = length fragments,
            rcFragmentsReviewed = 0, rcBatchesPlanned = length batches, rcBatchesCompleted = 0, rcBatchesCached = 0\<rparr>,
          rpBudget = \<lparr>rbRequestsUsed = 0, rbMaxRequests = pMaxRequests p, rbTokensReserved = 0, rbMaxTokens = pTotalTokens p,
            rbInputReserved = 0, rbMaxInput = pTotalInput p\<rparr>,
          rpUsage = None, rpBatches = batches, rpFiles = files, rpFragments = fragments, rpError = []\<rparr>, shared))"

section \<open>Coverage\<close>

definition complete_batches :: "report \<Rightarrow> batch list" where
  "complete_batches r = filter (\<lambda>b. bStatus b = ''complete'') (rpBatches r)"

definition reviewed_ids :: "report \<Rightarrow> string list" where
  "reviewed_ids r = remdups (concat (map bFragments (complete_batches r)))"

definition cover_status :: "string list \<Rightarrow> fileCoverage \<Rightarrow> fileCoverage" where
  "cover_status done_ids f =
     (if fcStatus f = ''unreviewable'' then f
      else let complete = length (filter (\<lambda>i. i \<in> set done_ids) (fcFragments f)) in
        f\<lparr>fcStatus := (if complete = length (fcFragments f) \<and> complete > 0 then ''complete''
          else if complete > 0 then ''partial'' else ''unreviewed'')\<rparr>)"

definition updateCoverage :: "report \<Rightarrow> report" where
  "updateCoverage r = (let ids = reviewed_ids r; files = map (cover_status ids) (rpFiles r) in
     r\<lparr>rpFiles := files,
       rpCounts := (rpCounts r)\<lparr>rcBatchesCompleted := length (complete_batches r),
         rcBatchesCached := length (filter bCached (complete_batches r)), rcFragmentsReviewed := length ids,
         rcFilesReviewed := length (filter (\<lambda>f. fcStatus f = ''complete'') files)\<rparr>\<rparr>)"

end
