(* ===== verification/Review_Run.thy ===== *)
theory Review_Run
  imports Review_Plan
begin

text \<open>
  Execution of the batched review (\<open>internal/reviewbatch/execute.go\<close>, the usage accounting of \<open>artifacts.go\<close>, and
  \<open>Run\<close> and \<open>execute\<close> of \<open>command.go\<close>).  The coordinator and the workers interleave: an event is one atomic
  step of one of them, and \<open>run_event\<close> is \<open>None\<close> where the event cannot happen.  What the provider client,
  the cache and the clock answer are the data of the events.
\<close>

section \<open>Usage\<close>

definition usage_keys :: "string list" where
  "usage_keys = [''prompt_tokens'', ''completion_tokens'', ''total_tokens'', ''cost'']"

definition usable_count :: "f64 \<Rightarrow> bool" where
  "usable_count v \<longleftrightarrow> f64_le f64_zero v \<and> f64_finite v"

text \<open>\<open>decoded\<close>: the numbers that decode; \<open>None\<close> when the reply is not an object.  No usage is \<open>None\<close>.\<close>

definition reportedUsage :: "(string \<Rightarrow> f64 option) option \<Rightarrow> usage option" where
  "reportedUsage decoded = (case decoded of
       None \<Rightarrow> None
     | Some get \<Rightarrow>
         let clean = List.map_filter (\<lambda>k. case get k of None \<Rightarrow> None
             | Some v \<Rightarrow> if usable_count v then Some (k, v) else None) usage_keys in
         if clean = [] then None else Some clean)"

text \<open>A sum that overflows has no JSON text, so the whole usage becomes unknown.\<close>

definition addUsage :: "usage option \<Rightarrow> usage option \<Rightarrow> usage option" where
  "addUsage sofar new = (case new of
       None \<Rightarrow> None
     | Some addition \<Rightarrow> (case sofar of
           None \<Rightarrow> Some addition
         | Some known \<Rightarrow>
             let added = List.map_filter (\<lambda>(k, v). map_option (\<lambda>i. (k, f64_add v i)) (map_of addition k)) known in
             if added = [] \<or> \<not> list_all (\<lambda>p. f64_finite (snd p)) added then None else Some added))"

section \<open>Admission\<close>

datatype denial = BudgetExhausted | AdmissionStopped | ContextEnded

text \<open>\<open>reserve\<close> under the lock: the answer, the budget and the stop flag after it.\<close>

definition reserve :: "bool \<Rightarrow> nat \<Rightarrow> nat \<Rightarrow> review_budget \<Rightarrow> bool \<Rightarrow> denial option \<times> review_budget \<times> bool" where
  "reserve cancel inputBytes maxTokens b stopped =
     (if cancel then (Some ContextEnded, b, stopped)
      else if stopped then (Some AdmissionStopped, b, stopped)
      else if rbRequestsUsed b \<ge> rbMaxRequests b \<or> int maxTokens > int (rbMaxTokens b) - int (rbTokensReserved b) \<or>
              int inputBytes > int (rbMaxInput b) - int (rbInputReserved b) then (Some BudgetExhausted, b, True)
      else (None, b\<lparr>rbRequestsUsed := rbRequestsUsed b + 1, rbTokensReserved := rbTokensReserved b + maxTokens,
              rbInputReserved := rbInputReserved b + inputBytes\<rparr>, stopped))"

section \<open>Workers\<close>

record worker =
  wkIndex :: nat
  wkAttempts :: nat
  wkDenied :: "denial option"

record batchOutcome =
  boIndex :: nat
  boAttempts :: nat
  boStatus :: string
  boFailure :: string
  boFindings :: string
  boUsage :: "usage option"

text \<open>How \<open>review.RunWithOptions\<close> ended: an error or not, the findings written, the last usage, the context.\<close>

record review_answer =
  raError :: bool
  raFindings :: string
  raUsage :: "usage option"
  raCancelled :: bool

definition findings_limit :: nat where
  "findings_limit = 2097152"

definition failure_of :: "denial option \<Rightarrow> bool \<Rightarrow> string \<times> string" where
  "failure_of denied cancel = (case denied of
       Some BudgetExhausted \<Rightarrow> (''skipped'', ''run-wide review budget exhausted'')
     | Some AdmissionStopped \<Rightarrow> (''skipped'', ''review admission stopped after an incomplete batch'')
     | _ \<Rightarrow> (''failed'', if cancel then ''review canceled or batch deadline exceeded''
                        else ''review request failed without complete findings''))"

text \<open>The end of \<open>runBatch\<close>: its outcome, and whether it stops admission.\<close>

definition finish_worker :: "string \<Rightarrow> worker \<Rightarrow> review_answer \<Rightarrow> batchOutcome \<times> bool" where
  "finish_worker key w a =
     (if raError a \<or> length (raFindings a) > findings_limit then
        (\<lparr>boIndex = wkIndex w, boAttempts = wkAttempts w, boStatus = fst (failure_of (wkDenied w) (raCancelled a)),
          boFailure = snd (failure_of (wkDenied w) (raCancelled a)), boFindings = [], boUsage = raUsage a\<rparr>, True)
      else (\<lparr>boIndex = wkIndex w, boAttempts = wkAttempts w, boStatus = ''complete'', boFailure = [],
          boFindings = replace_all key ''[REDACTED]'' (raFindings a), boUsage = raUsage a\<rparr>, False))"

section \<open>The coordinator\<close>

record run_state =
  rsReport :: report
  rsStopped :: bool
  rsPending :: "nat list"
  rsActive :: "worker list"
  rsQueue :: "batchOutcome list"
  rsOutcomes :: "batchOutcome list"
  rsDone :: bool

definition requestLimit :: nat where
  "requestLimit = 1048576"

definition update_batch :: "nat \<Rightarrow> (batch \<Rightarrow> batch) \<Rightarrow> report \<Rightarrow> report" where
  "update_batch i f r = r\<lparr>rpBatches := (rpBatches r)[i := f (rpBatches r ! i)]\<rparr>"

text \<open>A saved result replaces the request; the batches without one are pending, in plan order.\<close>

definition load_batch :: "(string \<Rightarrow> (string \<times> usage option) option) \<Rightarrow> nat \<times> batch \<Rightarrow> batch" where
  "load_batch cache = (\<lambda>(k, b). case cache (bID b) of
       None \<Rightarrow> b
     | Some (findings, saved) \<Rightarrow> b\<lparr>bStatus := ''complete'', bCached := True, bFindings := findings, bUsage := saved\<rparr>)"

definition start_run :: "(string \<Rightarrow> (string \<times> usage option) option) \<Rightarrow> report \<Rightarrow> run_state" where
  "start_run cache r =
     \<lparr>rsReport = r\<lparr>rpBatches := map (load_batch cache) (enumerate 0 (rpBatches r))\<rparr>, rsStopped = False,
      rsPending = map fst (filter (\<lambda>(k, b). cache (bID b) = None) (enumerate 0 (rpBatches r))), rsActive = [], rsQueue = [],
      rsOutcomes = [], rsDone = False\<rparr>"

text \<open>The inner loop of the coordinator: start the next worker, unless its request is too large.\<close>

definition start_worker :: "(batch \<Rightarrow> nat) \<Rightarrow> run_state \<Rightarrow> run_state" where
  "start_worker request_bytes s = (case rsPending s of
       [] \<Rightarrow> s
     | i # rest \<Rightarrow>
         if request_bytes (rpBatches (rsReport s) ! i) > requestLimit then
           s\<lparr>rsPending := rest, rsStopped := True, rsReport := update_batch i (\<lambda>b. b\<lparr>bStatus := ''failed'',
             bError := ''shared context and batch exceed the request limit''\<rparr>) (rsReport s)\<rparr>
         else s\<lparr>rsPending := rest, rsActive := rsActive s @ [\<lparr>wkIndex = i, wkAttempts = 0, wkDenied = None\<rparr>]\<rparr>)"

text \<open>Receiving a result from the channel; a failing cache publication changes nothing.\<close>

definition receive_outcome :: "batchOutcome \<Rightarrow> batchOutcome list \<Rightarrow> run_state \<Rightarrow> run_state" where
  "receive_outcome x rest s = s\<lparr>rsQueue := rest, rsOutcomes := rsOutcomes s @ [x],
     rsReport := update_batch (boIndex x) (\<lambda>b. b\<lparr>bStatus := boStatus x, bError := boFailure x, bFindings := boFindings x,
       bUsage := (if boStatus x = ''complete'' then boUsage x else bUsage b)\<rparr>) (rsReport s)\<rparr>"

definition may_start :: "nat \<Rightarrow> bool \<Rightarrow> run_state \<Rightarrow> bool" where
  "may_start parallelism cancel s \<longleftrightarrow>
     length (rsActive s) + length (rsQueue s) < parallelism \<and> rsPending s \<noteq> [] \<and> \<not> cancel \<and> \<not> rsStopped s"

text \<open>One step of the coordinator; \<open>cancel\<close> is what \<open>ctx.Err\<close> says now.\<close>

definition coordinator :: "nat \<Rightarrow> (batch \<Rightarrow> nat) \<Rightarrow> bool \<Rightarrow> run_state \<Rightarrow> run_state option" where
  "coordinator parallelism request_bytes cancel s =
     (if rsDone s then None
      else if may_start parallelism cancel s then Some (start_worker request_bytes s)
      else if rsActive s = [] \<and> rsQueue s = [] then Some (s\<lparr>rsDone := True\<rparr>)
      else case rsQueue s of [] \<Rightarrow> None | x # rest \<Rightarrow> Some (receive_outcome x rest s))"

datatype run_event =
    Coordinate bool
  | Reserve nat bool nat nat
  | Finish nat review_answer

definition set_budget :: "review_budget \<Rightarrow> report \<Rightarrow> report" where
  "set_budget b r = r\<lparr>rpBudget := b\<rparr>"

definition run_event :: "nat \<Rightarrow> string \<Rightarrow> (batch \<Rightarrow> nat) \<Rightarrow> run_event \<Rightarrow> run_state \<Rightarrow> run_state option" where
  "run_event parallelism key request_bytes e s = (case e of
       Coordinate cancel \<Rightarrow> coordinator parallelism request_bytes cancel s
     | Reserve k cancel inputBytes maxTokens \<Rightarrow>
         if k \<ge> length (rsActive s) then None
         else (case reserve cancel inputBytes maxTokens (rpBudget (rsReport s)) (rsStopped s) of
             (denied, b, stopped) \<Rightarrow>
               Some (s\<lparr>rsReport := set_budget b (rsReport s), rsStopped := stopped,
                 rsActive := (rsActive s)[k := (rsActive s ! k)\<lparr>wkDenied := denied,
                   wkAttempts := wkAttempts (rsActive s ! k) + (if denied = None then 1 else 0)\<rparr>]\<rparr>))
     | Finish k a \<Rightarrow>
         if k \<ge> length (rsActive s) then None
         else (case finish_worker key (rsActive s ! k) a of
             (x, stop) \<Rightarrow> Some (s\<lparr>rsActive := take k (rsActive s) @ drop (Suc k) (rsActive s), rsQueue := rsQueue s @ [x],
               rsStopped := (rsStopped s \<or> stop)\<rparr>)))"

fun run_events :: "nat \<Rightarrow> string \<Rightarrow> (batch \<Rightarrow> nat) \<Rightarrow> run_event list \<Rightarrow> run_state \<Rightarrow> run_state option" where
  "run_events parallelism key request_bytes [] s = Some s"
| "run_events parallelism key request_bytes (e # es) s =
     Option.bind (run_event parallelism key request_bytes e s) (run_events parallelism key request_bytes es)"

section \<open>The end of a run\<close>

record run_totals =
  rtUnknown :: bool
  rtUsage :: "usage option"
  rtError :: string

definition first_error :: "string \<Rightarrow> string \<Rightarrow> string" where
  "first_error e sofar = (if e \<noteq> [] \<and> sofar = [] then e else sofar)"

text \<open>The outcome of a batch that had attempts, in plan order.\<close>

definition settle_outcome :: "batchOutcome list \<Rightarrow> nat \<times> batch \<Rightarrow> run_totals \<Rightarrow> run_totals" where
  "settle_outcome outcomes = (\<lambda>(k, b) t. case find (\<lambda>x. boIndex x = k) outcomes of
       None \<Rightarrow> t
     | Some x \<Rightarrow>
         if boAttempts x = 0 then t
         else (let t = (if boStatus x \<noteq> ''complete'' \<or> boUsage x = None then t\<lparr>rtUnknown := True, rtUsage := None\<rparr>
                 else if rtUnknown t then t
                 else t\<lparr>rtUsage := addUsage (rtUsage t) (boUsage x), rtUnknown := addUsage (rtUsage t) (boUsage x) = None\<rparr>)
               in t\<lparr>rtError := first_error (bError b) (rtError t)\<rparr>))"

definition settle_run :: "bool \<Rightarrow> run_state \<Rightarrow> report" where
  "settle_run cancel s =
     (let r = rsReport s;
          t = fold (settle_outcome (rsOutcomes s)) (enumerate 0 (rpBatches r))
            \<lparr>rtUnknown = False, rtUsage = rpUsage r, rtError = rpError r\<rparr>;
          e = fold (\<lambda>b. first_error (bError b)) (rpBatches r) (rtError t) in
      r\<lparr>rpUsage := rtUsage t, rpError := (if cancel then ''review canceled or total deadline exceeded'' else e)\<rparr>)"

text \<open>\<open>runBatches\<close> under one schedule; \<open>None\<close> where the schedule is not one of the program's.\<close>

record run_world =
  rwCache :: "string \<Rightarrow> (string \<times> usage option) option"
  rwKey :: string
  rwBytes :: "batch \<Rightarrow> nat"
  rwEvents :: "run_event list"
  rwCancelled :: bool
  rwCancelledLater :: bool

definition runBatches :: "run_world \<Rightarrow> policy \<Rightarrow> report \<Rightarrow> report option" where
  "runBatches w p r =
     (case run_events (pParallelism p) (rwKey w) (rwBytes w) (rwEvents w) (start_run (rwCache w) r) of
        None \<Rightarrow> None
      | Some s \<Rightarrow> if rsDone s then Some (settle_run (rwCancelled w) s) else None)"

definition skip_planned :: "batch \<Rightarrow> batch" where
  "skip_planned b = (if bStatus b = ''planned''
     then b\<lparr>bStatus := ''skipped'', bError := ''not attempted after an incomplete batch''\<rparr> else b)"

definition all_reviewed :: "report \<Rightarrow> bool" where
  "all_reviewed r \<longleftrightarrow> (let c = rpCounts r in
     rcFilesReviewed c = rcFilesTotal c \<and> rcFilesTotal c > 0 \<and> rcBatchesCompleted c = rcBatchesPlanned c)"

definition conclude :: "bool \<Rightarrow> report \<Rightarrow> report" where
  "conclude cancel r =
     (let r = (if cancel \<and> all_reviewed r then r\<lparr>rpStatus := ''failed'', rpError := ''review canceled or total deadline exceeded''\<rparr>
               else if all_reviewed r then r\<lparr>rpStatus := ''complete''\<rparr>
               else if rcBatchesCompleted (rpCounts r) > 0 then r\<lparr>rpStatus := ''partial''\<rparr>
               else r\<lparr>rpStatus := ''failed''\<rparr>) in
      r\<lparr>rpBatches := map skip_planned (rpBatches r)\<rparr>)"

definition execute :: "run_world \<Rightarrow> policy \<Rightarrow> report \<Rightarrow> report option" where
  "execute w p r =
     (if rpBatches r = [] then
        Some (r\<lparr>rpStatus := ''skipped'', rpError := ''no text-reviewable changes; uncovered items are listed''\<rparr>)
      else if length (rpBatches r) > pMaxBatches p then
        Some (r\<lparr>rpStatus := ''skipped'', rpError := ''planned batches exceed REVIEW_MAX_BATCHES; increase the explicit allowance or review a smaller change''\<rparr>)
      else if trim_runes is_space_rune (rwKey w) = [] then
        Some (r\<lparr>rpStatus := ''failed'', rpError := ''missing review API key''\<rparr>)
      else map_option (\<lambda>r. conclude (rwCancelledLater w) (updateCoverage r)) (runBatches w p r))"

text \<open>\<open>Run\<close> from the parsed inputs on: the exit code and the report; \<open>publishes\<close> says whether the artifacts are written.\<close>

definition review_batch :: "run_world \<Rightarrow> codec \<Rightarrow> review_options \<Rightarrow> policy \<Rightarrow> fileDiff list \<Rightarrow> bool \<Rightarrow> (nat \<times> report) option" where
  "review_batch w cd opts p changes publishes = (case makePlan_r cd opts p changes of
       Inl _ \<Rightarrow> None
     | Inr (r, _) \<Rightarrow>
         map_option (\<lambda>r. let r = updateCoverage r in
             (if \<not> publishes then 2 else if oPlan opts \<or> rpStatus r = ''complete'' then 0 else 1, r))
           (if oPlan opts then Some r else execute w p r))"

end
