(* ===== verification/Review_Diff_Props.thy ===== *)
theory Review_Diff_Props
  imports Review_Diff
begin

text \<open>
  What an accepted section says of its text: nothing is dropped, every hunk has exactly the lines its header
  declares, the hunks do not overlap, and the statistics are those of the lines.
\<close>

section \<open>Lines of a hunk\<close>

definition signed :: "string \<Rightarrow> string \<Rightarrow> bool" where
  "signed signs line \<longleftrightarrow> (case line of [] \<Rightarrow> False | c # _ \<Rightarrow> c \<in> set signs)"

definition line_count :: "string \<Rightarrow> string list \<Rightarrow> nat" where
  "line_count signs lines = length (filter (signed signs) lines)"

text \<open>Well-formed lines: a sign on each, and the newline marker only after a line.\<close>

fun lines_ok :: "bool \<Rightarrow> string list \<Rightarrow> bool" where
  "lines_ok content [] = True"
| "lines_ok content (l # ls) =
     (if l = no_newline then content \<and> lines_ok False ls else signed '' +-'' l \<and> lines_ok True ls)"

lemma line_count_simps [simp]:
  "line_count signs [] = 0" "line_count signs (l # ls) = (if signed signs l then 1 else 0) + line_count signs ls"
  "line_count signs (ls @ ms) = line_count signs ls + line_count signs ms"
  by (simp_all add: line_count_def)

lemma signed_simps [simp]: "\<not> signed signs []" "signed signs (c # s) \<longleftrightarrow> c \<in> set signs"
  by (simp_all add: signed_def)

lemma marker_unsigned [simp]: "signed signs no_newline \<longleftrightarrow> CHR 0x5C \<in> set signs"
  by (simp add: no_newline_def)

lemma hunk_lines_counted:
  assumes "forE hunk_line lines c = Inr c'"
  shows "lines_ok (hcContent c) lines \<and> hcOld c' = hcOld c + line_count '' -'' lines \<and>
    hcNew c' = hcNew c + line_count '' +'' lines \<and> hcAdded c' = hcAdded c + line_count ''+'' lines \<and>
    hcRemoved c' = hcRemoved c + line_count ''-'' lines"
  using assms
proof (induction lines arbitrary: c)
  case (Cons l ls)
  then obtain c1 where step: "hunk_line l c = Inr c1" and rest: "forE hunk_line ls c1 = Inr c'"
    by (auto simp: result_simps)
  show ?case
  proof (cases "l = no_newline")
    case True
    with step have "c1 = c\<lparr>hcContent := False\<rparr>" "hcContent c" by (auto simp: hunk_line_def split: if_splits)
    with Cons.IH [OF rest] True show ?thesis by simp
  next
    case False
    with step obtain p t where "l = p # t" by (cases l) (auto simp: hunk_line_def)
    with step False Cons.IH [OF rest] show ?thesis by (auto simp: hunk_line_def split: if_splits)
  qed
qed simp

section \<open>Hunks\<close>

definition hunk_ok :: "hunk \<Rightarrow> bool" where
  "hunk_ok h \<longleftrightarrow> parseHunkHeader (hHeader h) = Inr (h\<lparr>hLines := []\<rparr>) \<and> lines_ok False (hLines h) \<and>
     hOld h = line_count '' -'' (hLines h) \<and> hNew h = line_count '' +'' (hLines h) \<and> hLines h \<noteq> [] \<and>
     list_all (\<lambda>l. \<not> hunk_start l) (hLines h)"

fun hunks_ordered :: "nat \<Rightarrow> nat \<Rightarrow> hunk list \<Rightarrow> bool" where
  "hunks_ordered old new [] = True"
| "hunks_ordered old new (h # hs) =
     (old \<le> hOldStart h \<and> new \<le> hNewStart h \<and> hunks_ordered (hOldStart h + hOld h) (hNewStart h + hNew h) hs)"

definition hunk_source :: "hunk \<Rightarrow> string list" where
  "hunk_source h = hHeader h # hLines h"

definition changed_lines :: "string \<Rightarrow> hunk list \<Rightarrow> nat" where
  "changed_lines sign hs = sum_list (map (\<lambda>h. line_count sign (hLines h)) hs)"

lemma parseHunkHeader_lines: "parseHunkHeader line = Inr h \<Longrightarrow> hHeader h = line \<and> hLines h = []"
  by (auto simp: parseHunkHeader_def result_simps split: option.splits if_splits)

lemma section_hunk_ok:
  assumes "section_hunk m header body st = Inr st'" and "list_all (\<lambda>l. \<not> hunk_start l) body"
  shows "\<exists>h. ssHunks st' = ssHunks st @ [h] \<and> hunk_ok h \<and> hunk_source h = header # body \<and>
    ssOld st \<le> hOldStart h \<and> ssNew st \<le> hNewStart h \<and> ssOld st' = hOldStart h + hOld h \<and> ssNew st' = hNewStart h + hNew h \<and>
    ssAdded st' = ssAdded st + line_count ''+'' (hLines h) \<and> ssRemoved st' = ssRemoved st + line_count ''-'' (hLines h)"
proof -
  from assms(1) obtain h c where h: "parseHunkHeader header = Inr h" "ssOld st \<le> hOldStart h" "ssNew st \<le> hNewStart h"
    and c: "forE hunk_line body no_count = Inr c" "hcOld c = hOld h" "hcNew c = hNew h" "hcOld c + hcNew c \<noteq> 0"
    and st': "st' = \<lparr>ssHunks = ssHunks st @ [h\<lparr>hLines := body\<rparr>], ssAdded = ssAdded st + hcAdded c,
      ssRemoved = ssRemoved st + hcRemoved c, ssOld = hOldStart h + hOld h, ssNew = hNewStart h + hNew h\<rparr>"
    by (auto simp: section_hunk_def result_simps split: sum.splits if_splits)
  note counted = hunk_lines_counted [OF c(1)]
  have "body \<noteq> []" using counted c(4) by (auto simp: no_count_def)
  with counted c h(1) parseHunkHeader_lines [OF h(1)] assms(2)
  have "hunk_ok (h\<lparr>hLines := body\<rparr>)" by (simp add: hunk_ok_def no_count_def)
  with st' h counted parseHunkHeader_lines [OF h(1)] show ?thesis by (auto simp: no_count_def hunk_source_def)
qed

lemma section_hunks_ok:
  assumes "section_hunks m lines st = Inr st'"
  shows "\<exists>hs. ssHunks st' = ssHunks st @ hs \<and> list_all hunk_ok hs \<and> concat (map hunk_source hs) = lines \<and>
    hunks_ordered (ssOld st) (ssNew st) hs \<and> ssAdded st' = ssAdded st + changed_lines ''+'' hs \<and>
    ssRemoved st' = ssRemoved st + changed_lines ''-'' hs"
  using assms
proof (induction m lines st rule: section_hunks.induct)
  case (2 m line lines st)
  let ?p = "\<lambda>l. \<not> hunk_start l"
  from 2(2) obtain st1 where first: "section_hunk m line (takeWhile ?p lines) st = Inr st1"
    and rest: "section_hunks m (dropWhile ?p lines) st1 = Inr st'" by (auto simp: result_simps)
  have "list_all ?p (takeWhile ?p lines)" by (auto simp: list_all_iff dest: set_takeWhileD)
  from section_hunk_ok [OF first this] obtain h where h: "ssHunks st1 = ssHunks st @ [h]" "hunk_ok h"
    "hunk_source h = line # takeWhile ?p lines" "ssOld st \<le> hOldStart h" "ssNew st \<le> hNewStart h"
    "ssOld st1 = hOldStart h + hOld h" "ssNew st1 = hNewStart h + hNew h"
    "ssAdded st1 = ssAdded st + line_count ''+'' (hLines h)" "ssRemoved st1 = ssRemoved st + line_count ''-'' (hLines h)"
    by auto
  from 2(1) [OF first rest] obtain hs where hs: "ssHunks st' = ssHunks st1 @ hs" "list_all hunk_ok hs"
    "concat (map hunk_source hs) = dropWhile ?p lines" "hunks_ordered (ssOld st1) (ssNew st1) hs"
    "ssAdded st' = ssAdded st1 + changed_lines ''+'' hs" "ssRemoved st' = ssRemoved st1 + changed_lines ''-'' hs" by auto
  show ?case
    by (rule exI [of _ "h # hs"]) (use h hs in \<open>simp add: changed_lines_def\<close>)
qed (auto simp: changed_lines_def)

lemma join_lines: "ls \<noteq> [] \<Longrightarrow> join [c] ls @ [c] = concat (map (\<lambda>l. l @ [c]) ls)"
  by (induction "[c]" ls rule: join.induct) auto

section \<open>Sections\<close>

definition terminated :: "string \<Rightarrow> string" where
  "terminated l = l @ [CHR 0x0A]"

lemma section_parts:
  assumes "parseSection lines file check = Inr d"
  shows "fdHeader d @ concat (map (\<lambda>h. concat (map terminated (hunk_source h))) (fdHunks d)) = concat (map terminated lines)"
    and "list_all hunk_ok (fdHunks d)" and "hunks_ordered 0 0 (fdHunks d)"
    and "fdAdded d = changed_lines ''+'' (fdHunks d)" and "fdRemoved d = changed_lines ''-'' (fdHunks d)"
    and "fdParts d = []" and "fdFile d = file"
    and "check \<Longrightarrow> cfAdditions file = Some (int (fdAdded d)) \<and> cfDeletions file = Some (int (fdRemoved d))"
proof -
  let ?p = "\<lambda>l. \<not> hunk_start l"
  obtain title rest where lines: "lines = title # rest" using assms by (cases lines) (auto simp: parseSection_def)
  let ?h = "join [CHR 0x0A] (title # takeWhile ?p rest) @ [CHR 0x0A]"
  from assms lines obtain m st where st: "section_hunks m (dropWhile ?p rest) no_hunks = Inr st"
    and d: "d = FileDiff file ?h (ssHunks st) (smUncovered m) (ssAdded st) (ssRemoved st) []"
    and stats: "check \<Longrightarrow> check_statistics file (ssAdded st) (ssRemoved st) ''diff statistics disagree with manifest'' = Inr ()"
    by (auto simp: parseSection_def Let_def result_simps split: if_splits)
  from section_hunks_ok [OF st] have hs: "list_all hunk_ok (ssHunks st)" "concat (map hunk_source (ssHunks st)) = dropWhile ?p rest"
    "hunks_ordered 0 0 (ssHunks st)" "ssAdded st = changed_lines ''+'' (ssHunks st)" "ssRemoved st = changed_lines ''-'' (ssHunks st)"
    by (auto simp: no_hunks_def)
  have "concat (map (\<lambda>h. concat (map terminated (hunk_source h))) hs) = concat (map terminated (concat (map hunk_source hs)))" for hs
    by (induction hs) simp_all
  then have "concat (map (\<lambda>h. concat (map terminated (hunk_source h))) (ssHunks st)) = concat (map terminated (dropWhile ?p rest))"
    using hs(2) by simp
  moreover have "?h = concat (map terminated (title # takeWhile ?p rest))"
    by (subst join_lines) (simp_all add: terminated_def [abs_def])
  moreover have "title # rest = (title # takeWhile ?p rest) @ dropWhile ?p rest" by simp
  ultimately show "fdHeader d @ concat (map (\<lambda>h. concat (map terminated (hunk_source h))) (fdHunks d)) = concat (map terminated lines)"
    unfolding lines d by (metis concat_append fileDiff.sel(2,3) map_append)
  show "check \<Longrightarrow> cfAdditions file = Some (int (fdAdded d)) \<and> cfDeletions file = Some (int (fdRemoved d))"
    using stats unfolding d by (auto simp: check_statistics_def statistic_ok_def result_simps split: option.splits if_splits)
  show "list_all hunk_ok (fdHunks d)" "hunks_ordered 0 0 (fdHunks d)" "fdAdded d = changed_lines ''+'' (fdHunks d)"
    "fdRemoved d = changed_lines ''-'' (fdHunks d)" "fdParts d = []" "fdFile d = file"
    using hs unfolding d by simp_all
qed

end
