(* ===== verification/Review_Plan_Props.thy ===== *)
theory Review_Plan_Props
  imports Review_Plan Review_Diff_Props
begin

text \<open>
  Splitting covers a file exactly, within the batch limit, and without a panic; the batches are a partition of the
  fragments; and a file whose coverage is complete is one whose every fragment is part of a completed batch.
\<close>

section \<open>Fragments of a hunk\<close>

definition text_size :: "string list \<Rightarrow> nat" where
  "text_size ls = sum_list (map (\<lambda>l. length l + 1) ls)"

lemma text_size_simps [simp]:
  "text_size [] = 0" "text_size (l # ls) = length l + 1 + text_size ls"
  by (simp_all add: text_size_def)

lemma lines_ok_cases:
  assumes "lines_ok False (line # lines)"
  obtains p t where "line = p # t" "p \<in> {CHR '' '', CHR ''+'', CHR ''-''}"
    "lines_ok False (if marked lines then drop 1 lines else lines)" "marked lines \<Longrightarrow> lines = no_newline # drop 1 lines"
proof -
  from assms have signed: "signed '' +-'' line" and rest: "lines_ok True lines" by (auto split: if_splits)
  from signed obtain p t where "line = p # t" "p \<in> {CHR '' '', CHR ''+'', CHR ''-''}" by (cases line) auto
  moreover have "lines_ok False (if marked lines then drop 1 lines else lines)"
    using rest by (cases lines) (auto simp: marked_def split: if_splits)
  moreover have "marked lines \<Longrightarrow> lines = no_newline # drop 1 lines" by (cases lines) (auto simp: marked_def)
  ultimately show ?thesis using that by blast
qed

lemma take_chunk_Some:
  "lines_ok False lines \<Longrightarrow> \<exists>c' k. take_chunk limit lines used c = Some c' \<and> k \<le> length lines \<and> ckLast c' = ckLast c + k \<and>
     ckOld c' = ckOld c + line_count '' -'' (take k lines) \<and> ckNew c' = ckNew c + line_count '' +'' (take k lines) \<and>
     (k \<noteq> 0 \<longrightarrow> used + text_size (take k lines) \<le> limit) \<and> lines_ok False (drop k lines)"
proof (induction limit lines used c rule: take_chunk.induct)
  case (2 limit line lines used c)
  let ?needed = "length line + 1 + (if marked lines then length no_newline + 1 else 0)"
  from lines_ok_cases [OF 2(2)] obtain p t where line: "line = p # t" "p \<in> {CHR '' '', CHR ''+'', CHR ''-''}"
    and rest: "lines_ok False (if marked lines then drop 1 lines else lines)"
    and mark: "marked lines \<Longrightarrow> lines = no_newline # drop 1 lines" by blast
  show ?case
  proof (cases "used + ?needed > limit")
    case True
    then show ?thesis using 2(2) by (intro exI [of _ c] exI [of _ 0]) (simp add: Let_def)
  next
    case False
    let ?c = "\<lparr>ckLast = ckLast c + (if marked lines then 2 else 1),
               ckOld = ckOld c + (if p = CHR '' '' \<or> p = CHR ''-'' then 1 else 0),
               ckNew = ckNew c + (if p = CHR '' '' \<or> p = CHR ''+'' then 1 else 0)\<rparr>"
    from 2(1) [OF refl False line(1) rest] obtain c' k where
      k: "take_chunk limit (if marked lines then drop 1 lines else lines) (used + ?needed) ?c = Some c'"
        "k \<le> length (if marked lines then drop 1 lines else lines)" "ckLast c' = ckLast ?c + k"
        "ckOld c' = ckOld ?c + line_count '' -'' (take k (if marked lines then drop 1 lines else lines))"
        "ckNew c' = ckNew ?c + line_count '' +'' (take k (if marked lines then drop 1 lines else lines))"
        "k \<noteq> 0 \<longrightarrow> used + ?needed + text_size (take k (if marked lines then drop 1 lines else lines)) \<le> limit"
        "lines_ok False (drop k (if marked lines then drop 1 lines else lines))" by auto
    show ?thesis
    proof (cases "marked lines")
      case True
      with mark obtain ls where ls: "lines = no_newline # ls" by blast
      show ?thesis
        by (rule exI [of _ c'], rule exI [of _ "Suc (Suc k)"])
          (use k line True False ls in \<open>auto simp: Let_def\<close>)
    next
      case unmarked: False
      show ?thesis
        by (rule exI [of _ c'], rule exI [of _ "Suc k"]) (use k line unmarked False in \<open>auto simp: Let_def\<close>)
    qed
  qed
qed simp

text \<open>A fragment that stands for the lines \<open>l\<close> at the given coordinates, and the fragments of consecutive chunks.\<close>

definition fragment_of :: "(string \<Rightarrow> string) \<Rightarrow> string \<Rightarrow> string \<Rightarrow> nat \<Rightarrow> nat \<Rightarrow> string list \<Rightarrow> fragment \<Rightarrow> bool" where
  "fragment_of dg path header old new l f \<longleftrightarrow> l \<noteq> [] \<and> frPath f = path \<and> frID f = dg (frPatch f) \<and>
     frPatch f = hunk_patch header old (line_count '' -'' l) new (line_count '' +'' l) l \<and>
     frOldStart f = old \<and> frOldLines f = line_count '' -'' l \<and> frNewStart f = new \<and> frNewLines f = line_count '' +'' l"

fun fragments_cover :: "(string \<Rightarrow> string) \<Rightarrow> string \<Rightarrow> string \<Rightarrow> nat \<Rightarrow> nat \<Rightarrow> string list list \<Rightarrow> fragment list \<Rightarrow> bool" where
  "fragments_cover dg path header old new [] fs = (fs = [])"
| "fragments_cover dg path header old new (l # ls) fs = (case fs of [] \<Rightarrow> False
     | f # fs \<Rightarrow> fragment_of dg path header old new l f \<and>
         fragments_cover dg path header (old + line_count '' -'' l) (new + line_count '' +'' l) ls fs)"

lemma split_hunk_cover:
  assumes "lines_ok False lines"
  shows "(case split_hunk dg path header limit n old new lines of
     Inl e \<Rightarrow> e = Refused oversized_line
   | Inr fs \<Rightarrow> \<exists>chunks. concat chunks = lines \<and> fragments_cover dg path header old new chunks fs \<and>
       (\<forall>l \<in> set chunks. length header + 128 + text_size l \<le> limit))"
  using assms
proof (induction dg path header limit n old new lines rule: split_hunk.induct)
  case (1 dg path header limit n old new lines)
  show ?case
  proof (cases "lines = []")
    case True
    then show ?thesis by (simp add: split_hunk.simps) (rule exI [of _ "[]"], simp)
  next
    case nonempty: False
    from take_chunk_Some [OF 1(2)] obtain c k where
      c: "take_chunk limit lines (length header + 128) \<lparr>ckLast = 0, ckOld = 0, ckNew = 0\<rparr> = Some c"
      and k: "k \<le> length lines" "ckLast c = k" "ckOld c = line_count '' -'' (take k lines)" "ckNew c = line_count '' +'' (take k lines)"
        "k \<noteq> 0 \<Longrightarrow> length header + 128 + text_size (take k lines) \<le> limit" "lines_ok False (drop k lines)"
      by fastforce
    show ?thesis
    proof (cases "k = 0")
      case True
      with c k nonempty show ?thesis by (simp add: split_hunk.simps [of dg path header limit n old new lines])
    next
      case False
      let ?rest = "split_hunk dg path header limit (Suc n) (old + ckOld c) (new + ckNew c) (drop (ckLast c) lines)"
      have IH: "(case ?rest of Inl e \<Rightarrow> e = Refused oversized_line
         | Inr fs \<Rightarrow> \<exists>chunks. concat chunks = drop (ckLast c) lines \<and>
             fragments_cover dg path header (old + ckOld c) (new + ckNew c) chunks fs \<and>
             (\<forall>l \<in> set chunks. length header + 128 + text_size l \<le> limit))"
        by (rule 1(1) [OF nonempty c _ refl]) (use k False in simp_all)
      show ?thesis
      proof (cases ?rest)
        case (Inl e)
        with IH c k False nonempty show ?thesis
          by (simp add: split_hunk.simps [of dg path header limit n old new lines])
      next
        case (Inr fs)
        with IH obtain chunks where "concat chunks = drop k lines" "fragments_cover dg path header (old + ckOld c) (new + ckNew c) chunks fs"
          "\<forall>l \<in> set chunks. length header + 128 + text_size l \<le> limit" by (auto simp: k(2))
        with c k False nonempty Inr show ?thesis
          by (simp add: split_hunk.simps [of dg path header limit n old new lines] Let_def)
            (rule exI [of _ "take k lines # chunks"], simp add: fragment_of_def)
      qed
    qed
  qed
qed

text \<open>The fragments of a list of hunks, each with its chunks.\<close>

fun hunks_cover :: "(string \<Rightarrow> string) \<Rightarrow> string \<Rightarrow> string \<Rightarrow> hunk list \<Rightarrow> string list list list \<Rightarrow> fragment list \<Rightarrow> bool" where
  "hunks_cover dg path header [] css fs = (css = [] \<and> fs = [])"
| "hunks_cover dg path header (h # hs) css fs = (case css of [] \<Rightarrow> False
     | cs # css \<Rightarrow> concat cs = hLines h \<and>
         fragments_cover dg path header (hOldStart h) (hNewStart h) cs (take (length cs) fs) \<and>
         hunks_cover dg path header hs css (drop (length cs) fs))"

lemma fragments_cover_length: "fragments_cover dg path header old new cs fs \<Longrightarrow> length fs = length cs"
  by (induction dg path header old new cs fs rule: fragments_cover.induct) (auto split: list.splits)

lemma split_hunks_cover:
  assumes "list_all (\<lambda>h. lines_ok False (hLines h)) hs"
  shows "(case split_hunks dg path header limit n hs of
     Inl e \<Rightarrow> e = Refused oversized_line
   | Inr fs \<Rightarrow> \<exists>css. hunks_cover dg path header hs css fs \<and>
       (\<forall>cs \<in> set css. \<forall>l \<in> set cs. length header + 128 + text_size l \<le> limit))"
  using assms
proof (induction hs arbitrary: n)
  case (Cons h hs)
  from Cons.prems have "lines_ok False (hLines h)" by simp
  note first = split_hunk_cover [OF this, where dg = dg and path = path and header = header and limit = limit and n = n
      and old = "hOldStart h" and new = "hNewStart h"]
  show ?case
  proof (cases "split_hunk dg path header limit n (hOldStart h) (hNewStart h) (hLines h)")
    case (Inl e)
    with first show ?thesis by simp
  next
    case (Inr a)
    with first obtain cs where cs: "concat cs = hLines h" "fragments_cover dg path header (hOldStart h) (hNewStart h) cs a"
      "\<forall>l \<in> set cs. length header + 128 + text_size l \<le> limit" by auto
    have IH: "(case split_hunks dg path header limit (n + length a) hs of
       Inl e \<Rightarrow> e = Refused oversized_line
     | Inr fs \<Rightarrow> \<exists>css. hunks_cover dg path header hs css fs \<and>
         (\<forall>cs \<in> set css. \<forall>l \<in> set cs. length header + 128 + text_size l \<le> limit))"
      by (rule Cons.IH) (use Cons.prems in simp)
    show ?thesis
    proof (cases "split_hunks dg path header limit (n + length a) hs")
      case e: (Inl e)
      with IH Inr show ?thesis by simp
    next
      case b: (Inr b)
      with IH obtain css where "hunks_cover dg path header hs css b"
        "\<forall>cs \<in> set css. \<forall>l \<in> set cs. length header + 128 + text_size l \<le> limit" by auto
      with Inr b cs fragments_cover_length [OF cs(2)] show ?thesis
        by (simp) (rule exI [of _ "cs # css"], simp)
    qed
  qed
qed simp

section \<open>The size of a fragment\<close>

lemma join_size: "ls \<noteq> [] \<Longrightarrow> length (join [c] ls) + 1 = text_size ls"
  by (induction "[c]" ls rule: join.induct) auto

lemma hunk_patch_size:
  assumes "old < 10 ^ 29" "oldLines < 10 ^ 29" "new < 10 ^ 29" "newLines < 10 ^ 29" and "l \<noteq> []"
  shows "length (hunk_patch header old oldLines new newLines l) \<le> length header + 128 + text_size l"
proof -
  have "length (nat_str k) \<le> 29" if "k < 10 ^ 29" for k
    by (rule length_nat_str [OF that]) simp
  from this [OF assms(1)] this [OF assms(2)] this [OF assms(3)] this [OF assms(4)] join_size [OF assms(5), of "CHR 0x0A"]
  show ?thesis by (simp add: hunk_patch_def)
qed

lemma hunk_coordinates:
  assumes "hunk_ok h"
  shows "hOldStart h \<le> 2 ^ 40" "hOld h \<le> 2 ^ 40" "hNewStart h \<le> 2 ^ 40" "hNew h \<le> 2 ^ 40"
proof -
  from assms have "parseHunkHeader (hHeader h) = Inr (h\<lparr>hLines := []\<rparr>)" by (simp add: hunk_ok_def)
  then obtain a b c d where h: "coordinate a = Inr (hOldStart h)" "coordinate b = Inr (hOld h)"
    "coordinate c = Inr (hNewStart h)" "coordinate d = Inr (hNew h)"
    by (cases h) (auto simp: parseHunkHeader_def result_simps split: option.splits if_splits)
  have "n \<le> 2 ^ 40" if "coordinate x = Inr n" for x n using that by (auto simp: coordinate_def split: if_splits)
  from this [OF h(1)] this [OF h(2)] this [OF h(3)] this [OF h(4)]
  show "hOldStart h \<le> 2 ^ 40" "hOld h \<le> 2 ^ 40" "hNewStart h \<le> 2 ^ 40" "hNew h \<le> 2 ^ 40" .
qed

lemma cover_sizes:
  assumes "fragments_cover dg path header old new cs fs" and "old + line_count '' -'' (concat cs) < 10 ^ 29"
    and "new + line_count '' +'' (concat cs) < 10 ^ 29" and "\<forall>l \<in> set cs. length header + 128 + text_size l \<le> limit"
  shows "list_all (\<lambda>f. length (frPatch f) \<le> limit \<and> frID f = dg (frPatch f) \<and> frPath f = path) fs"
  using assms
proof (induction dg path header old new cs fs rule: fragments_cover.induct)
  case (2 dg path header old new l ls fs)
  then obtain f gs where fs: "fs = f # gs" and f: "fragment_of dg path header old new l f"
    and rest: "fragments_cover dg path header (old + line_count '' -'' l) (new + line_count '' +'' l) ls gs"
    by (auto split: list.splits)
  have "list_all (\<lambda>f. length (frPatch f) \<le> limit \<and> frID f = dg (frPatch f) \<and> frPath f = path) gs"
    by (rule 2(1) [OF fs rest]) (use 2 in simp_all)
  moreover have "length (frPatch f) \<le> length header + 128 + text_size l"
    using f hunk_patch_size [of old "line_count '' -'' l" new "line_count '' +'' l" l header] 2(3,4)
    by (simp add: fragment_of_def)
  ultimately show ?case using f 2(5) fs by (auto simp: fragment_of_def)
qed simp

definition fitting :: "(string \<Rightarrow> string) \<Rightarrow> nat \<Rightarrow> string \<Rightarrow> fragment list \<Rightarrow> bool" where
  "fitting dg limit path fs \<longleftrightarrow> list_all (\<lambda>f. length (frPatch f) \<le> limit \<and> frID f = dg (frPatch f) \<and> frPath f = path) fs"

lemma hunks_within:
  assumes "hunks_cover dg path header hs css fs" and "list_all hunk_ok hs"
    and "\<forall>cs \<in> set css. \<forall>l \<in> set cs. length header + 128 + text_size l \<le> limit"
  shows "fitting dg limit path fs"
  using assms
proof (induction dg path header hs css fs rule: hunks_cover.induct)
  case (2 dg path header h hs css fs)
  then obtain cs ds where css: "css = cs # ds" and cs: "concat cs = hLines h"
    "fragments_cover dg path header (hOldStart h) (hNewStart h) cs (take (length cs) fs)"
    and rest: "hunks_cover dg path header hs ds (drop (length cs) fs)" by (auto split: list.splits)
  have ok: "hunk_ok h" using 2(3) by simp
  have "fitting dg limit path (take (length cs) fs)"
    unfolding fitting_def
    by (rule cover_sizes [OF cs(2)])
      (use hunk_coordinates [OF ok] ok 2(4) css in \<open>auto simp: cs(1) hunk_ok_def\<close>)
  moreover have "fitting dg limit path (drop (length cs) fs)"
    by (rule 2(1) [OF css rest]) (use 2 css in simp_all)
  ultimately have "fitting dg limit path (take (length cs) fs @ drop (length cs) fs)"
    unfolding fitting_def list_all_append by simp
  then show ?case by simp
qed (simp add: fitting_def)

section \<open>Files\<close>

text \<open>What the reader hands over: the hunks, or the two parts of a type change, of one file.\<close>

definition simple_diff :: "string \<Rightarrow> fileDiff \<Rightarrow> bool" where
  "simple_diff path d \<longleftrightarrow> fdParts d = [] \<and> list_all hunk_ok (fdHunks d) \<and> cfFilename (fdFile d) = path"

definition accepted :: "fileDiff \<Rightarrow> bool" where
  "accepted d \<longleftrightarrow> list_all (simple_diff (cfFilename (fdFile d))) (if fdParts d = [] then [d] else fdParts d)"

lemma splitFile_simple: "simple_diff path d \<Longrightarrow>
  splitFile dg limit d = (if fdUncovered d \<noteq> [] then Inl (Refused (fdUncovered d)) else split_whole dg limit d)"
  by (simp add: splitFile.simps simple_diff_def)

lemma split_whole_cases:
  assumes "simple_diff path d"
  shows "(case split_whole dg limit d of
      Inl e \<Rightarrow> \<exists>m. e = Refused m
    | Inr fs \<Rightarrow> fitting dg limit path fs \<and> fs \<noteq> [] \<and> (if fdHunks d = [] then map frPatch fs = [fdHeader d]
        else \<exists>css. hunks_cover dg path (fdHeader d) (fdHunks d) css fs))"
proof (cases "length (fdHeader d) + 128 > limit \<or> fdHunks d = []")
  case True
  with assms show ?thesis by (auto simp: split_whole_def fitting_def simple_diff_def)
next
  case False
  have ok: "list_all hunk_ok (fdHunks d)" "list_all (\<lambda>h. lines_ok False (hLines h)) (fdHunks d)"
    using assms by (auto simp: simple_diff_def hunk_ok_def list_all_iff)
  note cover = split_hunks_cover [OF ok(2), where dg = dg and path = path and header = "fdHeader d" and limit = limit and n = 0]
  from False assms have whole: "split_whole dg limit d = split_hunks dg path (fdHeader d) limit 0 (fdHunks d)"
    by (simp add: split_whole_def simple_diff_def)
  show ?thesis
  proof (cases "split_whole dg limit d")
    case (Inr fs)
    with whole have "split_hunks dg path (fdHeader d) limit 0 (fdHunks d) = Inr fs" by simp
    with cover obtain css where css: "hunks_cover dg path (fdHeader d) (fdHunks d) css fs"
      "\<forall>cs \<in> set css. \<forall>l \<in> set cs. length (fdHeader d) + 128 + text_size l \<le> limit" by auto
    have "fs \<noteq> []"
    proof
      assume "fs = []"
      moreover from False obtain h hs where "fdHunks d = h # hs" by (cases "fdHunks d") auto
      ultimately have "hLines h = []" using css(1) by (auto split: list.splits dest!: fragments_cover_length)
      with ok(1) \<open>fdHunks d = h # hs\<close> show False by (simp add: hunk_ok_def)
    qed
    with hunks_within [OF css(1) ok(1) css(2)] css(1) Inr False show ?thesis by auto
  qed (use cover whole in auto)
qed

lemma reindex_simps [simp]:
  "reindex n [] = []" "reindex n (f # fs) = f\<lparr>frIndex := Suc n\<rparr> # reindex (Suc n) fs"
  by (simp_all add: reindex_def)

lemma reindex_fields:
  "map frPatch (reindex n fs) = map frPatch fs" "fitting dg limit path (reindex n fs) = fitting dg limit path fs"
  by (induction fs arbitrary: n) (simp_all add: fitting_def)

text \<open>Splitting an accepted file: never a panic, and every fragment fits and is identified by its patch.\<close>

lemma split_parts:
  assumes "list_all (simple_diff path) ds"
    and "forE (\<lambda>part acc. bindE (splitFile dg limit part) (\<lambda>items. Inr (acc @ reindex (length acc) items))) ds acc = r"
    and "fitting dg limit path acc"
  shows "(case r of Inl e \<Rightarrow> \<exists>m. e = Refused m | Inr fs \<Rightarrow> fitting dg limit path fs \<and> (acc \<noteq> [] \<or> ds \<noteq> [] \<longrightarrow> fs \<noteq> []))"
  using assms
proof (induction ds arbitrary: acc)
  case (Cons d ds)
  have simple: "simple_diff path d" using Cons.prems(1) by simp
  note cases = split_whole_cases [OF simple, of dg limit]
  show ?case
  proof (cases "splitFile dg limit d")
    case (Inl e)
    with Cons.prems(2) have "r = Inl e" by auto
    with Inl cases show ?thesis by (auto simp: splitFile_simple [OF simple] split: if_splits)
  next
    case (Inr fs)
    with cases have fs: "fitting dg limit path fs" "fs \<noteq> []" by (auto simp: splitFile_simple [OF simple] split: if_splits)
    have "(case r of Inl e \<Rightarrow> \<exists>m. e = Refused m | Inr gs \<Rightarrow> fitting dg limit path gs \<and>
        (acc @ reindex (length acc) fs \<noteq> [] \<or> ds \<noteq> [] \<longrightarrow> gs \<noteq> []))"
      by (rule Cons.IH) (use Cons.prems Inr fs in \<open>auto simp: fitting_def reindex_fields(2) [unfolded fitting_def]\<close>)
    moreover have "reindex (length acc) fs \<noteq> []" using fs(2) by (cases fs) auto
    ultimately show ?thesis by (cases r) auto
  qed
qed auto

lemma split_accepted:
  assumes "accepted d"
  shows "(case splitFile dg limit d of Inl e \<Rightarrow> \<exists>m. e = Refused m
    | Inr fs \<Rightarrow> fitting dg limit (cfFilename (fdFile d)) fs \<and> fs \<noteq> [])"
proof (cases "fdParts d = []")
  case True
  with assms have simple: "simple_diff (cfFilename (fdFile d)) d" by (simp add: accepted_def)
  show ?thesis
    using split_whole_cases [OF simple, of dg limit] by (auto simp: splitFile_simple [OF simple] split: sum.splits)
next
  case False
  with assms have "list_all (simple_diff (cfFilename (fdFile d))) (fdParts d)" by (simp add: accepted_def)
  from split_parts [OF this refl, of dg limit "[]"] False show ?thesis
    by (auto simp: splitFile.simps [of dg limit d] fitting_def split: sum.splits)
qed

lemma section_accepted: "parseSection lines file check = Inr d \<Longrightarrow> simple_diff (cfFilename file) d"
  by (simp add: simple_diff_def section_parts(2,6,7))

lemma parse_accepted:
  "parseSection lines file check = Inr d \<Longrightarrow> accepted d"
  "parseTypeChange deletion creation file = Inr d \<Longrightarrow> accepted d"
  by (auto dest!: section_accepted simp: accepted_def simple_diff_def parseTypeChange_def result_simps split: if_splits)

lemma readInputs_accepted:
  assumes "readInputs printable decode cancel manifest changes = Inr ds"
  shows "list_all accepted ds"
proof -
  have step: "list_all accepted ys" if "parse_file grouped f xs = Inr ys" "list_all accepted xs" for grouped f xs ys
    using that by (auto simp: parse_file_def result_simps parse_accepted split: list.splits)
  have "list_all accepted ys" if "forE (parse_file grouped) files [] = Inr ys" for grouped files ys
    by (rule forE_invariant [OF that]) (use step in auto)
  with assms show ?thesis
    by (auto simp: readInputs_def Let_def result_simps list_all_iff split: if_splits)
qed

end
