(* ===== verification/Review_Run_Props.thy ===== *)
theory Review_Run_Props
  imports Review_Run Review_Plan_Props
begin

text \<open>
  Batches partition the fragments, a run never exceeds its shared budget whatever the interleaving, it never changes
  what a batch contains, and a review that ends complete has every fragment of every file in a completed batch.
\<close>

section \<open>Batches\<close>

definition group_ok :: "nat \<Rightarrow> fragment list \<Rightarrow> bool" where
  "group_ok limit g \<longleftrightarrow> g \<noteq> [] \<and> patch_bytes g \<le> limit"

lemma patch_bytes_simps [simp]:
  "patch_bytes [] = 0" "patch_bytes (f # fs) = length (frPatch f) + patch_bytes fs"
  "patch_bytes (fs @ gs) = patch_bytes fs + patch_bytes gs"
  by (simp_all add: patch_bytes_def)

text \<open>The batches made and the pending fragments are the fragments \<open>fs\<close> in order.\<close>

definition batching :: "(string \<Rightarrow> string) \<Rightarrow> nat \<Rightarrow> fragment list list \<Rightarrow> fragment list \<Rightarrow> pending \<Rightarrow> bool" where
  "batching name limit gs fs st \<longleftrightarrow> pdBatches st = map (make_batch name) gs \<and> concat gs @ pdPending st = fs \<and>
     list_all (group_ok limit) gs \<and> pdBytes st = patch_bytes (pdPending st) \<and> pdBytes st \<le> limit"

definition flushed :: "fragment list list \<Rightarrow> pending \<Rightarrow> fragment list list" where
  "flushed gs st = (if pdPending st = [] then gs else gs @ [pdPending st])"

lemma batching_flush: "batching name limit gs fs st \<Longrightarrow> batching name limit (flushed gs st) fs (flush_pending name st)"
  by (auto simp: batching_def flush_pending_def flushed_def group_ok_def)

lemma batching_add:
  assumes "batching name limit gs fs st" and "length (frPatch f) \<le> limit"
  shows "batching name limit (if pdBytes st + length (frPatch f) > limit then flushed gs st else gs) (fs @ [f]) (add_fragment name limit f st)"
  using assms batching_flush [OF assms(1)]
  by (auto simp: add_fragment_def batching_def Let_def flush_pending_def)

text \<open>Adding fragments that fit together leaves them in one pending run.\<close>

lemma batching_fold:
  assumes "batching name limit gs fs st" and "list_all (\<lambda>f. length (frPatch f) \<le> limit) new"
  shows "\<exists>gs'. batching name limit gs' (fs @ new) (fold (add_fragment name limit) new st) \<and>
    (\<forall>g \<in> insert (pdPending st) (set gs). \<exists>h \<in> insert (pdPending (fold (add_fragment name limit) new st)) (set gs'). set g \<subseteq> set h) \<and>
    (pdBytes st + patch_bytes new \<le> limit \<longrightarrow> set new \<subseteq> set (pdPending (fold (add_fragment name limit) new st)))"
  using assms
proof (induction new arbitrary: gs fs st)
  case Nil
  then show ?case by auto
next
  case (Cons f new)
  let ?st = "add_fragment name limit f st"
  let ?gs = "if pdBytes st + length (frPatch f) > limit then flushed gs st else gs"
  have now: "batching name limit ?gs (fs @ [f]) ?st"
    using batching_add [OF Cons.prems(1)] Cons.prems(2) by simp
  have "list_all (\<lambda>f. length (frPatch f) \<le> limit) new" using Cons.prems(2) by simp
  from Cons.IH [OF now this] obtain gs' where
    gs': "batching name limit gs' ((fs @ [f]) @ new) (fold (add_fragment name limit) new ?st)"
    and kept: "\<forall>g \<in> insert (pdPending ?st) (set ?gs). \<exists>h \<in> insert (pdPending (fold (add_fragment name limit) new ?st)) (set gs'). set g \<subseteq> set h"
    and together: "pdBytes ?st + patch_bytes new \<le> limit \<longrightarrow> set new \<subseteq> set (pdPending (fold (add_fragment name limit) new ?st))"
    by blast
  have step: "\<exists>h \<in> insert (pdPending ?st) (set ?gs). set g \<subseteq> set h" if "g \<in> insert (pdPending st) (set gs)" for g
    using that by (auto simp: add_fragment_def Let_def flush_pending_def flushed_def)
  have "\<exists>h \<in> insert (pdPending (fold (add_fragment name limit) new ?st)) (set gs'). set g \<subseteq> set h"
    if "g \<in> insert (pdPending st) (set gs)" for g
    using step [OF that] kept by (meson order_trans)
  moreover have "set (f # new) \<subseteq> set (pdPending (fold (add_fragment name limit) new ?st))"
    if fits: "pdBytes st + patch_bytes (f # new) \<le> limit"
  proof -
    have st: "pdPending ?st = pdPending st @ [f]" "pdBytes ?st = pdBytes st + length (frPatch f)"
      using fits by (auto simp: add_fragment_def Let_def)
    have grow: "set (pdPending u) \<subseteq> set (pdPending (fold (add_fragment name limit) xs u))"
      if "pdBytes u + patch_bytes xs \<le> limit" for xs u
      using that
    proof (induction xs arbitrary: u)
      case (Cons x xs)
      have u: "pdPending (add_fragment name limit x u) = pdPending u @ [x]"
        "pdBytes (add_fragment name limit x u) = pdBytes u + length (frPatch x)"
        using Cons.prems by (auto simp: add_fragment_def Let_def)
      have "set (pdPending (add_fragment name limit x u)) \<subseteq> set (pdPending (fold (add_fragment name limit) xs (add_fragment name limit x u)))"
        by (rule Cons.IH) (use Cons.prems u in simp)
      with u show ?case by auto
    qed simp
    from grow [of ?st new] together fits st show ?thesis by auto
  qed
  ultimately show ?case using gs' by (intro exI [of _ gs']) simp
qed

definition held_together :: "fragment list \<Rightarrow> fragment list list \<Rightarrow> bool" where
  "held_together g hs \<longleftrightarrow> (\<exists>h \<in> set hs. set g \<subseteq> set h)"

lemma batching_group:
  assumes "batching name limit gs fs st" and "list_all (\<lambda>f. length (frPatch f) \<le> limit) new"
  shows "\<exists>gs'. batching name limit gs' (fs @ new) (add_group name limit new st) \<and>
    (\<forall>g. held_together g (pdPending st # gs) \<longrightarrow> held_together g (pdPending (add_group name limit new st) # gs')) \<and>
    (patch_bytes new \<le> limit \<longrightarrow> held_together new (pdPending (add_group name limit new st) # gs'))"
proof -
  let ?full = "patch_bytes new \<le> limit \<and> pdBytes st + patch_bytes new > limit"
  let ?st = "if ?full then flush_pending name st else st"
  let ?gs = "if ?full then flushed gs st else gs"
  let ?fin = "fold (add_fragment name limit) new ?st"
  have "batching name limit ?gs fs ?st" using assms(1) batching_flush [OF assms(1)] by simp
  from batching_fold [OF this assms(2)] obtain gs' where gs': "batching name limit gs' (fs @ new) ?fin"
    and kept: "\<forall>g \<in> insert (pdPending ?st) (set ?gs). \<exists>h \<in> insert (pdPending ?fin) (set gs'). set g \<subseteq> set h"
    and together: "pdBytes ?st + patch_bytes new \<le> limit \<longrightarrow> set new \<subseteq> set (pdPending ?fin)" by blast
  have group: "add_group name limit new st = ?fin" by (simp add: add_group_def Let_def)
  have "held_together g (pdPending ?fin # gs')" if "held_together g (pdPending st # gs)" for g
  proof -
    from that obtain h where h: "h \<in> insert (pdPending st) (set gs)" "set g \<subseteq> set h" by (auto simp: held_together_def)
    have "\<exists>k \<in> insert (pdPending ?st) (set ?gs). set h \<subseteq> set k" using h(1) by (auto simp: flush_pending_def flushed_def)
    with kept h(2) show ?thesis unfolding held_together_def by (metis list.simps(15) order_trans)
  qed
  moreover have "held_together new (pdPending ?fin # gs')" if "patch_bytes new \<le> limit"
  proof -
    have "pdBytes ?st + patch_bytes new \<le> limit" using that by (auto simp: flush_pending_def)
    with together have "set new \<subseteq> set (pdPending ?fin)" by blast
    then show ?thesis unfolding held_together_def by (metis list.set_intros(1))
  qed
  ultimately show ?thesis using gs' group by (intro exI [of _ gs']) simp
qed

lemma batching_groups:
  assumes "batching name limit gs fs st" and "list_all (\<lambda>key. list_all (\<lambda>f. length (frPatch f) \<le> limit) (grp key)) names"
  shows "\<exists>gs'. batching name limit gs' (fs @ concat (map grp names)) (fold (\<lambda>key. add_group name limit (grp key)) names st) \<and>
    (\<forall>g. held_together g (pdPending st # gs) \<longrightarrow>
      held_together g (pdPending (fold (\<lambda>key. add_group name limit (grp key)) names st) # gs')) \<and>
    (\<forall>key \<in> set names. patch_bytes (grp key) \<le> limit \<longrightarrow>
      held_together (grp key) (pdPending (fold (\<lambda>key. add_group name limit (grp key)) names st) # gs'))"
  using assms
proof (induction names arbitrary: gs fs st)
  case Nil
  then show ?case by auto
next
  case (Cons key names)
  let ?st = "add_group name limit (grp key) st"
  have "list_all (\<lambda>f. length (frPatch f) \<le> limit) (grp key)" using Cons.prems(2) by simp
  from batching_group [OF Cons.prems(1) this] obtain gs1 where one: "batching name limit gs1 (fs @ grp key) ?st"
    "\<forall>g. held_together g (pdPending st # gs) \<longrightarrow> held_together g (pdPending ?st # gs1)"
    "patch_bytes (grp key) \<le> limit \<longrightarrow> held_together (grp key) (pdPending ?st # gs1)" by blast
  have "list_all (\<lambda>key. list_all (\<lambda>f. length (frPatch f) \<le> limit) (grp key)) names" using Cons.prems(2) by simp
  from Cons.IH [OF one(1) this] obtain gs2 where
    two: "batching name limit gs2 ((fs @ grp key) @ concat (map grp names)) (fold (\<lambda>key. add_group name limit (grp key)) names ?st)"
    "\<forall>g. held_together g (pdPending ?st # gs1) \<longrightarrow>
      held_together g (pdPending (fold (\<lambda>key. add_group name limit (grp key)) names ?st) # gs2)"
    "\<forall>key \<in> set names. patch_bytes (grp key) \<le> limit \<longrightarrow>
      held_together (grp key) (pdPending (fold (\<lambda>key. add_group name limit (grp key)) names ?st) # gs2)" by blast
  show ?case
    by (rule exI [of _ gs2]) (use one two in simp)
qed

lemma groups_partition: "distinct names \<Longrightarrow> set (map f xs) \<subseteq> set names \<Longrightarrow>
  mset (concat (map (\<lambda>k. filter (\<lambda>x. f x = k) xs) names)) = mset xs"
proof (induction names arbitrary: xs)
  case (Cons k names)
  let ?rest = "filter (\<lambda>x. f x \<noteq> k) xs"
  have "filter (\<lambda>x. f x = j) xs = filter (\<lambda>x. f x = j) ?rest" if "j \<in> set names" for j
    using that Cons.prems(1) by (auto intro!: filter_cong)
  then have "concat (map (\<lambda>k. filter (\<lambda>x. f x = k) xs) names) = concat (map (\<lambda>k. filter (\<lambda>x. f x = k) ?rest) names)"
    by (intro arg_cong [where f = concat] map_cong refl) simp
  moreover have "mset (concat (map (\<lambda>k. filter (\<lambda>x. f x = k) ?rest) names)) = mset ?rest"
    by (rule Cons.IH) (use Cons.prems in auto)
  moreover have "mset (filter (\<lambda>x. f x = k) xs) + mset ?rest = mset xs" by (simp add: multiset_partition [symmetric])
  ultimately show ?case by simp
qed simp

text \<open>The batches of a plan as lists of fragments.\<close>

lemma plan_groups:
  assumes "list_all (\<lambda>f. length (frPatch f) \<le> limit) fs"
  shows "\<exists>gs. plan_batches name limit fs = map (make_batch name) gs \<and> mset (concat gs) = mset fs \<and> list_all (group_ok limit) gs \<and>
    (\<forall>key \<in> set (group_keys fs). patch_bytes (related_group fs key) \<le> limit \<longrightarrow> held_together (related_group fs key) gs)"
proof -
  let ?names = "group_keys fs"
  let ?grp = "related_group fs"
  let ?fin = "fold (\<lambda>key. add_group name limit (?grp key)) ?names \<lparr>pdBatches = [], pdPending = [], pdBytes = 0\<rparr>"
  have start: "batching name limit [] [] \<lparr>pdBatches = [], pdPending = [], pdBytes = 0\<rparr>" by (simp add: batching_def)
  have "list_all (\<lambda>key. list_all (\<lambda>f. length (frPatch f) \<le> limit) (?grp key)) ?names"
    using assms by (auto simp: list_all_iff related_group_def)
  from batching_groups [OF start this] obtain gs where gs: "batching name limit gs (concat (map ?grp ?names)) ?fin"
    "\<forall>key \<in> set ?names. patch_bytes (?grp key) \<le> limit \<longrightarrow> held_together (?grp key) (pdPending ?fin # gs)" by auto
  have mset: "mset (concat (map ?grp ?names)) = mset fs"
    unfolding related_group_def by (rule groups_partition) (auto simp: group_keys_def)
  have f: "batching name limit (flushed gs ?fin) (concat (map ?grp ?names)) (flush_pending name ?fin)"
    by (rule batching_flush [OF gs(1)])
  have keep: "held_together (?grp key) (flushed gs ?fin)"
    if "key \<in> set ?names" "held_together (?grp key) (pdPending ?fin # gs)" for key
  proof -
    have "?grp key \<noteq> []" using that(1) by (auto simp: group_keys_def related_group_def filter_empty_conv)
    with that(2) show ?thesis by (auto simp: held_together_def flushed_def)
  qed
  have "plan_batches name limit fs = map (make_batch name) (flushed gs ?fin)"
    using f by (simp add: plan_batches_def batching_def)
  moreover have "concat (flushed gs ?fin) = concat (map ?grp ?names)"
    using f by (simp add: batching_def flush_pending_def)
  ultimately show ?thesis
    using f mset gs(2) keep by (intro exI [of _ "flushed gs ?fin"]) (auto simp: batching_def)
qed

section \<open>Plans\<close>

text \<open>One entry per file in the order of the files: its fragments, or why it cannot be reviewed.\<close>

definition coverage_of :: "(string \<Rightarrow> string) \<Rightarrow> nat \<Rightarrow> fileDiff \<Rightarrow> fileCoverage \<Rightarrow> bool" where
  "coverage_of dg limit d c \<longleftrightarrow> fcPath c = cfFilename (fdFile d) \<and> (case splitFile dg limit d of
       Inl _ \<Rightarrow> fcStatus c = ''unreviewable'' \<and> fcFragments c = []
     | Inr fs \<Rightarrow> fcStatus c = ''unreviewed'' \<and> fcFragments c = map frID fs)"

definition fragments_of :: "(string \<Rightarrow> string) \<Rightarrow> nat \<Rightarrow> fileDiff list \<Rightarrow> fragment list" where
  "fragments_of dg limit ds = concat (map (\<lambda>d. case splitFile dg limit d of Inl _ \<Rightarrow> [] | Inr fs \<Rightarrow> fs) ds)"

lemma cover_files:
  assumes "forE (cover_file dg limit) ds (files, fragments) = Inr (files', fragments')"
  shows "\<exists>cs. files' = files @ cs \<and> list_all2 (coverage_of dg limit) ds cs \<and> fragments' = fragments @ fragments_of dg limit ds"
  using assms
proof (induction ds arbitrary: files fragments)
  case (Cons d ds)
  from Cons.prems obtain x where x: "cover_file dg limit d (files, fragments) = Inr x"
    and rest: "forE (cover_file dg limit) ds x = Inr (files', fragments')" by (auto simp: result_simps)
  obtain c where "fst x = files @ [c]" "coverage_of dg limit d c" "snd x = fragments @ fragments_of dg limit [d]"
    using x by (auto simp: cover_file_def coverage_of_def fragments_of_def split: sum.splits review_error.splits)
  moreover from rest have "forE (cover_file dg limit) ds (fst x, snd x) = Inr (files', fragments')" by simp
  from Cons.IH [OF this] obtain cs where "files' = fst x @ cs" "list_all2 (coverage_of dg limit) ds cs"
    "fragments' = snd x @ fragments_of dg limit ds" by blast
  ultimately show ?case by (intro exI [of _ "c # cs"]) (simp add: fragments_of_def)
qed (simp add: fragments_of_def)

lemma cover_total: "list_all accepted ds \<Longrightarrow> \<exists>x. forE (cover_file dg limit) ds (files, fragments) = Inr x"
proof (induction ds arbitrary: files fragments)
  case (Cons d ds)
  have "\<exists>x. cover_file dg limit d (files, fragments) = Inr x"
    using Cons.prems split_accepted [of d dg limit] by (auto simp: cover_file_def split: sum.splits review_error.splits)
  with Cons.IH Cons.prems show ?case by auto
qed simp

lemma fragments_fit:
  assumes "list_all accepted ds"
  shows "list_all (\<lambda>f. length (frPatch f) \<le> limit \<and> frID f = dg (frPatch f)) (fragments_of dg limit ds)"
  using assms
proof (induction ds)
  case (Cons d ds)
  then show ?case
    using split_accepted [of d dg limit] by (auto simp: fragments_of_def fitting_def list_all_iff split: sum.splits)
qed (simp add: fragments_of_def)

lemma plan_parts:
  assumes "makePlan_r cd opts p changes = Inr (r, shared)"
  shows "list_all2 (coverage_of (cdDigest cd) (pBatchBytes p)) changes (rpFiles r)"
    and "rpFragments r = fragments_of (cdDigest cd) (pBatchBytes p) changes"
    and "\<exists>name. rpBatches r = plan_batches name (pBatchBytes p) (rpFragments r)"
    and "rpStatus r = ''planned''" and "rcFilesTotal (rpCounts r) = length changes"
    and "rcBatchesPlanned (rpCounts r) = length (rpBatches r)"
    and "rpBudget r = \<lparr>rbRequestsUsed = 0, rbMaxRequests = pMaxRequests p, rbTokensReserved = 0, rbMaxTokens = pTotalTokens p,
       rbInputReserved = 0, rbMaxInput = pTotalInput p\<rparr>"
  using assms cover_files [of "cdDigest cd" "pBatchBytes p" changes "[]" "[]"]
  by (auto simp: makePlan_r_def Let_def result_simps list_all2_conv_all_nth)

section \<open>Runs\<close>

text \<open>What no step of a run changes: the entries of the files and the content of the batches.\<close>

definition batch_content :: "batch \<Rightarrow> string \<times> string list \<times> string list \<times> string" where
  "batch_content b = (bID b, bFiles b, bFragments b, bPatch b)"

definition budget_limits :: "review_budget \<Rightarrow> nat \<times> nat \<times> nat" where
  "budget_limits b = (rbMaxRequests b, rbMaxTokens b, rbMaxInput b)"

lemma reserve_limits: "reserve cancel i m b stopped = (denied, b', stopped') \<Longrightarrow> budget_limits b' = budget_limits b"
  by (auto simp: reserve_def budget_limits_def split: if_splits)

definition same_plan :: "report \<Rightarrow> report \<Rightarrow> bool" where
  "same_plan r r' \<longleftrightarrow> rpFiles r' = rpFiles r \<and> map batch_content (rpBatches r') = map batch_content (rpBatches r) \<and>
     rcFilesTotal (rpCounts r') = rcFilesTotal (rpCounts r) \<and> rcBatchesPlanned (rpCounts r') = rcBatchesPlanned (rpCounts r) \<and>
     budget_limits (rpBudget r') = budget_limits (rpBudget r)"

lemma same_plan_trans: "same_plan a b \<Longrightarrow> same_plan b c \<Longrightarrow> same_plan a c"
  by (simp add: same_plan_def)

lemma same_plan_update: "(\<And>b. batch_content (f b) = batch_content b) \<Longrightarrow> same_plan r (update_batch i f r)"
  by (cases "i < length (rpBatches r)") (simp_all add: same_plan_def update_batch_def map_update list_update_same_conv list_update_beyond)

lemma run_event_plan: "run_event par key bytes e s = Some t \<Longrightarrow> same_plan (rsReport s) (rsReport t)"
  by (auto simp: run_event_def coordinator_def start_worker_def receive_outcome_def set_budget_def Let_def
      intro!: same_plan_update split: run_event.splits if_splits list.splits prod.splits)
    (auto simp: same_plan_def batch_content_def dest: reserve_limits)

lemma run_events_plan: "run_events par key bytes es s = Some t \<Longrightarrow> same_plan (rsReport s) (rsReport t)"
proof (induction es arbitrary: s)
  case (Cons e es)
  then obtain u where "run_event par key bytes e s = Some u" "run_events par key bytes es u = Some t"
    by (auto simp: bind_eq_Some_conv)
  with Cons.IH run_event_plan same_plan_trans show ?case by metis
qed (simp add: same_plan_def)

lemma start_plan: "same_plan r (rsReport (start_run cache r))"
proof -
  have "batch_content (load_batch cache (k, b)) = batch_content b" for k b
    by (auto simp: load_batch_def batch_content_def split: option.split)
  then have "map batch_content (map (load_batch cache) (enumerate n bs)) = map batch_content bs" for n bs
    by (induction bs arbitrary: n) simp_all
  then show ?thesis by (simp add: same_plan_def start_run_def)
qed

lemma runBatches_plan: "runBatches w p r = Some r' \<Longrightarrow> same_plan r r'"
  by (auto simp: runBatches_def settle_run_def Let_def split: option.splits if_splits dest!: run_events_plan
      intro: same_plan_trans [OF start_plan]) (auto simp: same_plan_def start_plan [unfolded same_plan_def])

section \<open>The shared budget\<close>

definition run_attempts :: "run_state \<Rightarrow> nat" where
  "run_attempts s = sum_list (map wkAttempts (rsActive s)) + sum_list (map boAttempts (rsQueue s)) + sum_list (map boAttempts (rsOutcomes s))"

definition within_budget :: "review_budget \<Rightarrow> bool" where
  "within_budget b \<longleftrightarrow> rbRequestsUsed b \<le> rbMaxRequests b \<and> rbTokensReserved b \<le> rbMaxTokens b \<and> rbInputReserved b \<le> rbMaxInput b"

definition run_bounded :: "nat \<Rightarrow> run_state \<Rightarrow> bool" where
  "run_bounded parallelism s \<longleftrightarrow> within_budget (rpBudget (rsReport s)) \<and> rbRequestsUsed (rpBudget (rsReport s)) = run_attempts s \<and>
     length (rsActive s) + length (rsQueue s) \<le> parallelism"

lemma update_batch_budget [simp]: "rpBudget (update_batch i f r) = rpBudget r"
  by (simp add: update_batch_def)

lemma sum_list_split: "k < length xs \<Longrightarrow> sum_list (map f xs) = sum_list (map f (take k xs)) + f (xs ! k) + sum_list (map f (drop (Suc k) xs))"
  for f :: "'a \<Rightarrow> nat"
  by (metis Cons_nth_drop_Suc add.assoc append_take_drop_id list.simps(9) map_append sum_list.Cons sum_list_append)

lemma sum_list_set: "k < length xs \<Longrightarrow> sum_list (map f (xs[k := x])) + f (xs ! k) = sum_list (map f xs) + f x"
  for f :: "'a \<Rightarrow> nat"
  by (simp add: upd_conv_take_nth_drop sum_list_split [of k xs f])

lemma reserve_budget:
  assumes "reserve cancel i m b stopped = (denied, b', stopped')" and "within_budget b"
  shows "within_budget b'" and "rbRequestsUsed b' = rbRequestsUsed b + (if denied = None then 1 else 0)"
  using assms by (auto simp: reserve_def within_budget_def split: if_splits)

lemma coordinator_bounded: "coordinator par bytes cancel s = Some t \<Longrightarrow> run_bounded par s \<Longrightarrow> run_bounded par t"
  by (auto simp: coordinator_def may_start_def start_worker_def receive_outcome_def run_bounded_def run_attempts_def
      split: if_splits list.splits)

lemma run_event_bounded:
  assumes "run_event par key bytes e s = Some t" and "run_bounded par s"
  shows "run_bounded par t"
proof (cases e)
  case (Coordinate c)
  with assms coordinator_bounded show ?thesis by (simp add: run_event_def)
next
  case (Reserve k c i m)
  with assms(1) obtain denied b stopped where k: "k < length (rsActive s)"
    and r: "reserve c i m (rpBudget (rsReport s)) (rsStopped s) = (denied, b, stopped)"
    and t: "t = s\<lparr>rsReport := set_budget b (rsReport s), rsStopped := stopped, rsActive := (rsActive s)[k := (rsActive s ! k)
      \<lparr>wkDenied := denied, wkAttempts := wkAttempts (rsActive s ! k) + (if denied = None then 1 else 0)\<rparr>]\<rparr>"
    by (auto simp: run_event_def split: if_splits prod.splits)
  from reserve_budget [OF r] assms(2) sum_list_set [OF k, of wkAttempts "(rsActive s ! k)
      \<lparr>wkDenied := denied, wkAttempts := wkAttempts (rsActive s ! k) + (if denied = None then 1 else 0)\<rparr>"]
  show ?thesis unfolding t run_bounded_def run_attempts_def set_budget_def by (cases "denied = None") auto
next
  case (Finish k a)
  with assms(1) obtain x stop where k: "k < length (rsActive s)" and x: "finish_worker key (rsActive s ! k) a = (x, stop)"
    and t: "t = s\<lparr>rsActive := take k (rsActive s) @ drop (Suc k) (rsActive s), rsQueue := rsQueue s @ [x], rsStopped := (rsStopped s \<or> stop)\<rparr>"
    by (auto simp: run_event_def split: if_splits prod.splits)
  from x have "boAttempts x = wkAttempts (rsActive s ! k)" by (auto simp: finish_worker_def split: if_splits)
  with k assms(2) sum_list_split [OF k, of wkAttempts] show ?thesis
    unfolding t run_bounded_def run_attempts_def by auto
qed

lemma run_events_bounded: "run_events par key bytes es s = Some t \<Longrightarrow> run_bounded par s \<Longrightarrow> run_bounded par t"
proof (induction es arbitrary: s)
  case (Cons e es)
  then obtain u where u: "run_event par key bytes e s = Some u" "run_events par key bytes es u = Some t"
    by (auto simp: bind_eq_Some_conv)
  show ?case by (rule Cons.IH [OF u(2) run_event_bounded [OF u(1) Cons.prems(2)]])
qed simp

end
