(* ===== verification/Review_Patch.thy ===== *)
theory Review_Patch
  imports Review_Diff
begin

text \<open>
  \<open>ApplyFilePatch\<close> (\<open>internal/reviewbatch/apply.go\<close>): the hunks of a patch applied to one exact old text.
  \<open>paRest\<close> is the old text from \<open>offset\<close> on; \<open>cancel\<close> answers the successive polls of the context.
\<close>

record patchApplication =
  paRest :: string
  paOutput :: string
  paOldLine :: nat
  paNewLine :: nat
  paUnterminated :: bool
  paPolls :: nat

type_synonym application = "patchApplication \<Rightarrow> review_error + patchApplication"

definition bad_newline :: string where
  "bad_newline = ''patch result is oversized or has a nonterminal newline marker''"

definition poll :: "(nat \<Rightarrow> bool) \<Rightarrow> application" where
  "poll cancel a = (if cancel (paPolls a) then Inl Stopped else Inr (a\<lparr>paPolls := Suc (paPolls a)\<rparr>))"

text \<open>The first line of a text, with its newline if it has one.\<close>

definition first_line :: "string \<Rightarrow> string" where
  "first_line s = takeWhile (\<lambda>c. c \<noteq> CHR 0x0A) s @ take 1 (dropWhile (\<lambda>c. c \<noteq> CHR 0x0A) s)"

definition consume_line :: "patchApplication \<Rightarrow> review_error + (string \<times> patchApplication)" where
  "consume_line a =
     (if paRest a = [] then Inl (Refused ''patch old range exceeds source'')
      else let line = first_line (paRest a) in
        Inr (line, a\<lparr>paRest := drop (length line) (paRest a), paOldLine := paOldLine a + 1\<rparr>))"

definition emit_line :: "string \<Rightarrow> application" where
  "emit_line line a =
     (if paUnterminated a \<or> length (paOutput a) + length line > inputLimit then Inl (Refused bad_newline)
      else Inr (a\<lparr>paOutput := paOutput a @ line, paNewLine := paNewLine a + 1,
        paUnterminated := (line \<noteq> [] \<and> last line \<noteq> CHR 0x0A)\<rparr>))"

text \<open>The unchanged lines before a hunk.\<close>

fun copy_lines :: "(nat \<Rightarrow> bool) \<Rightarrow> nat \<Rightarrow> application" where
  "copy_lines cancel 0 a = Inr a"
| "copy_lines cancel (Suc n) a =
     bindE (poll cancel a) (\<lambda>a. bindE (consume_line a) (\<lambda>(line, a). bindE (emit_line line a) (copy_lines cancel n)))"

definition follows_marker :: "string list \<Rightarrow> bool" where
  "follows_marker lines = (case lines of [] \<Rightarrow> False | l # _ \<Rightarrow> l = no_newline)"

text \<open>One line of a hunk: the old text must say the same unless it is added; unless it is removed it is written.\<close>

definition apply_line :: "char \<Rightarrow> string \<Rightarrow> application" where
  "apply_line sign content a =
     bindE (if sign = CHR ''+'' then Inr a
            else case consume_line a of
                Inr (line, a) \<Rightarrow>
                  if line = content then Inr a else Inl (Refused ''patch context or removal does not match source'')
              | Inl _ \<Rightarrow> Inl (Refused ''patch context or removal does not match source''))
       (\<lambda>a. if sign = CHR ''-'' then Inr a else emit_line content a)"

function apply_lines :: "(nat \<Rightarrow> bool) \<Rightarrow> string list \<Rightarrow> application" where
  "apply_lines cancel [] a = Inr a"
| "apply_lines cancel (line # rest) a = bindE (poll cancel a) (\<lambda>a. case line of
       [] \<Rightarrow> Inl Panics
     | sign # content \<Rightarrow>
         if follows_marker rest then
           (if content = [] then Inl (Refused ''empty nonterminated patch line'')
            else bindE (apply_line sign content a) (apply_lines cancel (drop 1 rest)))
         else bindE (apply_line sign (content @ [CHR 0x0A]) a) (apply_lines cancel rest))"
  by pat_completeness auto
termination by (relation "measure (\<lambda>(cancel, lines, a). length lines)") auto

definition apply_hunk :: "(nat \<Rightarrow> bool) \<Rightarrow> hunk \<Rightarrow> application" where
  "apply_hunk cancel h a =
     (let oldStart = (if hOld h = 0 then hOldStart h else hOldStart h - 1);
          newStart = (if hNew h = 0 then hNewStart h else hNewStart h - 1) in
      if oldStart < paOldLine a then Inl (Refused ''patch old coordinates overlap'')
      else bindE (copy_lines cancel (oldStart - paOldLine a) a) (\<lambda>a.
        if paNewLine a \<noteq> newStart then Inl (Refused ''patch new coordinates disagree with source'')
        else apply_lines cancel (hLines h) a))"

definition patch_file :: "nat \<Rightarrow> nat \<Rightarrow> changedFile" where
  "patch_file additions deletions = \<lparr>cfFilename = ''review-input'', cfPrevious = [], cfStatus = ''modified'',
     cfAdditions = Some (int additions), cfDeletions = Some (int deletions)\<rparr>"

definition patch_lines :: "string \<Rightarrow> string list" where
  "patch_lines patch = [''diff --git a/review-input b/review-input'', ''--- a/review-input'', ''+++ b/review-input''] @
     split_on CHR 0x0A (trim_suffix [CHR 0x0A] patch)"

definition ApplyFilePatch :: "(nat \<Rightarrow> bool) \<Rightarrow> string \<Rightarrow> string \<Rightarrow> int \<Rightarrow> int \<Rightarrow> review_error + string" where
  "ApplyFilePatch cancel before patch additions deletions =
     (if cancel 0 then Inl Stopped
      else if length before > inputLimit \<or> length patch > inputLimit \<or> \<not> utf8_valid before \<or> \<not> utf8_valid patch \<or>
         CHR 0x00 \<in> set before \<or> CHR 0x00 \<in> set patch \<or> \<not> hunk_start patch \<or> additions < 0 \<or> deletions < 0
      then Inl (Refused ''invalid bounded text patch'')
      else bindE (parseSection (patch_lines patch) (patch_file (nat additions) (nat deletions)) True) (\<lambda>d.
        bindE (forE (apply_hunk cancel) (fdHunks d)
          \<lparr>paRest = before, paOutput = [], paOldLine = 0, paNewLine = 0, paUnterminated = False, paPolls = 1\<rparr>) (\<lambda>a.
        bindE (poll cancel a) (\<lambda>a.
          if paRest a \<noteq> [] \<and> (paUnterminated a \<or> length (paOutput a) + length (paRest a) > inputLimit) then Inl (Refused bad_newline)
          else Inr (paOutput a @ paRest a)))))"

end
