(* ===== verification/Review_Patch_Props.thy ===== *)
theory Review_Patch_Props
  imports Review_Patch Review_Diff_Props
begin

text \<open>
  An applied patch as an edit script: a sequence of kept, deleted and added lines whose old side is the whole old
  text and whose new side is the result.
\<close>

datatype edit = Keep string | Del string | Add string

fun old_side :: "edit \<Rightarrow> string" where
  "old_side (Keep l) = l" | "old_side (Del l) = l" | "old_side (Add l) = []"

fun new_side :: "edit \<Rightarrow> string" where
  "new_side (Keep l) = l" | "new_side (Del l) = []" | "new_side (Add l) = l"

fun is_keep :: "edit \<Rightarrow> bool" where
  "is_keep (Keep l) = True" | "is_keep (Del l) = False" | "is_keep (Add l) = False"

definition old_text :: "edit list \<Rightarrow> string" where
  "old_text es = concat (map old_side es)"

definition new_text :: "edit list \<Rightarrow> string" where
  "new_text es = concat (map new_side es)"

definition changes_of :: "edit list \<Rightarrow> edit list" where
  "changes_of es = filter (\<lambda>e. \<not> is_keep e) es"

lemma text_simps [simp]:
  "old_text [] = []" "new_text [] = []" "changes_of [] = []"
  "old_text (e # es) = old_side e @ old_text es" "new_text (e # es) = new_side e @ new_text es"
  "old_text (es @ fs) = old_text es @ old_text fs" "new_text (es @ fs) = new_text es @ new_text fs"
  "changes_of (es @ fs) = changes_of es @ changes_of fs"
  "changes_of (e # es) = (if is_keep e then changes_of es else e # changes_of es)"
  by (simp_all add: old_text_def new_text_def changes_of_def)

text \<open>What the lines of a hunk say: a line without the newline marker after it ends with a newline.\<close>

definition edit_of :: "string \<Rightarrow> bool \<Rightarrow> edit" where
  "edit_of line marker = (let content = tl line @ (if marker then [] else [CHR 0x0A]) in
     if hd line = CHR ''+'' then Add content else if hd line = CHR ''-'' then Del content else Keep content)"

function line_edits :: "string list \<Rightarrow> edit list" where
  "line_edits [] = []"
| "line_edits (line # rest) =
     edit_of line (follows_marker rest) # line_edits (if follows_marker rest then drop 1 rest else rest)"
  by pat_completeness auto
termination by (relation "measure length") auto

definition hunk_edits :: "hunk list \<Rightarrow> edit list" where
  "hunk_edits hs = concat (map (\<lambda>h. line_edits (hLines h)) hs)"

text \<open>\<open>edited es a b\<close>: between the states \<open>a\<close> and \<open>b\<close> the edits \<open>es\<close> were applied.\<close>

definition edited :: "edit list \<Rightarrow> patchApplication \<Rightarrow> patchApplication \<Rightarrow> bool" where
  "edited es a b \<longleftrightarrow> paRest a = old_text es @ paRest b \<and> paOutput b = paOutput a @ new_text es"

lemma edited_trans: "edited es a b \<Longrightarrow> edited fs b c \<Longrightarrow> edited (es @ fs) a c"
  by (simp add: edited_def)

lemma poll_edited: "poll cancel a = Inr b \<Longrightarrow> edited [] a b"
  by (auto simp: poll_def edited_def split: if_splits)

lemma first_line_prefix: "first_line s @ drop (length (first_line s)) s = s"
proof -
  let ?p = "\<lambda>c. c \<noteq> CHR 0x0A"
  have "s = takeWhile ?p s @ take 1 (dropWhile ?p s) @ drop 1 (dropWhile ?p s)" by simp
  then have "s = first_line s @ drop 1 (dropWhile ?p s)" by (simp only: first_line_def append_assoc)
  then show ?thesis by (metis append_eq_conv_conj)
qed

lemma consume_edited: "consume_line a = Inr (line, b) \<Longrightarrow> paRest a = line @ paRest b \<and> paOutput b = paOutput a"
  using first_line_prefix [of "paRest a"] by (auto simp: consume_line_def Let_def split: if_splits)

lemma emit_edited: "emit_line line a = Inr b \<Longrightarrow> paRest b = paRest a \<and> paOutput b = paOutput a @ line"
  by (auto simp: emit_line_def split: if_splits)

lemma copy_edited:
  "copy_lines cancel n a = Inr b \<Longrightarrow> \<exists>es. edited es a b \<and> list_all is_keep es"
proof (induction n arbitrary: a)
  case 0
  then show ?case by (intro exI [of _ "[]"]) (simp add: edited_def)
next
  case (Suc n)
  then obtain a1 line a2 a3 where s: "poll cancel a = Inr a1" "consume_line a1 = Inr (line, a2)" "emit_line line a2 = Inr a3"
    "copy_lines cancel n a3 = Inr b" by (auto simp: result_simps)
  from Suc.IH [OF s(4)] obtain es where es: "edited es a3 b" "list_all is_keep es" by blast
  have "edited [Keep line] a1 a3" using consume_edited [OF s(2)] emit_edited [OF s(3)] by (simp add: edited_def)
  with poll_edited [OF s(1)] es(1) have "edited ([] @ [Keep line] @ es) a b" by (blast intro: edited_trans)
  with es(2) show ?case by (intro exI [of _ "Keep line # es"]) simp
qed

lemma apply_line_edited:
  assumes "apply_line sign content a = Inr b"
  shows "edited [if sign = CHR ''+'' then Add content else if sign = CHR ''-'' then Del content else Keep content] a b"
proof (cases "sign = CHR ''+''")
  case True
  with assms emit_edited [of content a b] show ?thesis by (auto simp: apply_line_def edited_def)
next
  case False
  with assms obtain a1 where c: "consume_line a = Inr (content, a1)"
    and e: "(if sign = CHR ''-'' then Inr a1 else emit_line content a1) = Inr b"
    by (auto simp: apply_line_def result_simps split: sum.splits if_splits)
  with False consume_edited [OF c] emit_edited [of content a1 b] show ?thesis by (auto simp: edited_def split: if_splits)
qed

lemma apply_lines_edited: "apply_lines cancel lines a = Inr b \<Longrightarrow> edited (line_edits lines) a b"
proof (induction cancel lines a rule: apply_lines.induct)
  case (1 cancel a)
  then show ?case by (simp add: edited_def)
next
  case (2 cancel line rest a)
  then obtain a1 sign content where p: "poll cancel a = Inr a1" and line: "line = sign # content"
    by (cases line) (auto simp: result_simps)
  show ?case
  proof (cases "follows_marker rest")
    case True
    with 2(3) p line obtain a2 where s: "apply_line sign content a1 = Inr a2" "apply_lines cancel (drop 1 rest) a2 = Inr b" "content \<noteq> []"
      by (auto simp: result_simps split: if_splits)
    from edited_trans [OF edited_trans [OF poll_edited [OF p] apply_line_edited [OF s(1)]] 2(1) [OF p line True s(3,1,2)]] True line
    show ?thesis by (cases "sign = CHR ''+''"; cases "sign = CHR ''-''") (simp_all add: edit_of_def)
  next
    case False
    with 2(3) p line obtain a2 where s: "apply_line sign (content @ [CHR 0x0A]) a1 = Inr a2" "apply_lines cancel rest a2 = Inr b"
      by (auto simp: result_simps)
    from edited_trans [OF edited_trans [OF poll_edited [OF p] apply_line_edited [OF s(1)]] 2(2) [OF p line False s]] False line
    show ?thesis by (cases "sign = CHR ''+''"; cases "sign = CHR ''-''") (simp_all add: edit_of_def)
  qed
qed

lemma changes_keep: "list_all is_keep es \<Longrightarrow> changes_of es = []"
  by (induction es) auto

lemma apply_hunk_edited:
  assumes "apply_hunk cancel h a = Inr b"
  shows "\<exists>es. edited es a b \<and> changes_of es = changes_of (line_edits (hLines h))"
proof -
  from assms obtain n a1 where c: "copy_lines cancel n a = Inr a1" and l: "apply_lines cancel (hLines h) a1 = Inr b"
    unfolding apply_hunk_def Let_def by (auto simp: result_simps split: if_splits)
  from copy_edited [OF c] obtain es where "edited es a a1" "list_all is_keep es" by blast
  with apply_lines_edited [OF l] show ?thesis
    by (intro exI [of _ "es @ line_edits (hLines h)"]) (simp add: edited_trans changes_keep)
qed

lemma apply_hunks_edited:
  "forE (apply_hunk cancel) hs a = Inr b \<Longrightarrow> \<exists>es. edited es a b \<and> changes_of es = changes_of (hunk_edits hs)"
proof (induction hs arbitrary: a)
  case Nil
  then show ?case by (intro exI [of _ "[]"]) (simp add: edited_def hunk_edits_def)
next
  case (Cons h hs)
  then obtain a1 where s: "apply_hunk cancel h a = Inr a1" "forE (apply_hunk cancel) hs a1 = Inr b" by (auto simp: result_simps)
  from apply_hunk_edited [OF s(1)] Cons.IH [OF s(2)] obtain es fs where
    "edited es a a1" "changes_of es = changes_of (line_edits (hLines h))" "edited fs a1 b" "changes_of fs = changes_of (hunk_edits hs)"
    by blast
  then show ?case by (intro exI [of _ "es @ fs"]) (simp add: edited_trans hunk_edits_def)
qed

section \<open>Statistics\<close>

fun is_add :: "edit \<Rightarrow> bool" where
  "is_add (Add l) = True" | "is_add (Del l) = False" | "is_add (Keep l) = False"

definition added_lines :: "edit list \<Rightarrow> nat" where
  "added_lines es = length (filter is_add es)"

definition deleted_lines :: "edit list \<Rightarrow> nat" where
  "deleted_lines es = length (filter (\<lambda>e. \<not> is_add e \<and> \<not> is_keep e) es)"

lemma lines_simps [simp]:
  "added_lines [] = 0" "deleted_lines [] = 0"
  "added_lines (e # es) = (if is_add e then 1 else 0) + added_lines es"
  "deleted_lines (e # es) = (if \<not> is_add e \<and> \<not> is_keep e then 1 else 0) + deleted_lines es"
  "added_lines (es @ fs) = added_lines es + added_lines fs" "deleted_lines (es @ fs) = deleted_lines es + deleted_lines fs"
  by (simp_all add: added_lines_def deleted_lines_def)

lemma changes_counts: "added_lines (changes_of es) = added_lines es" "deleted_lines (changes_of es) = deleted_lines es"
  by (induction es) (auto elim!: is_keep.elims)

lemma line_edits_counts: "lines_ok False ls \<Longrightarrow>
  added_lines (line_edits ls) = line_count ''+'' ls \<and> deleted_lines (line_edits ls) = line_count ''-'' ls"
proof (induction ls rule: line_edits.induct)
  case (2 line rest)
  from 2(2) have signed: "signed '' +-'' line" and rest: "lines_ok True rest" by (auto split: if_splits)
  from signed obtain p t where line: "line = p # t" "p = CHR '' '' \<or> p = CHR ''+'' \<or> p = CHR ''-''" by (cases line) auto
  have ok: "lines_ok False (if follows_marker rest then drop 1 rest else rest)"
    using rest by (cases rest) (auto simp: follows_marker_def split: if_splits)
  have same: "line_count [c] (if follows_marker rest then drop 1 rest else rest) = line_count [c] rest" if "c \<noteq> CHR 0x5C" for c
    using that by (cases rest) (auto simp: follows_marker_def)
  from 2(1) [OF ok] same [of "CHR ''+''"] same [of "CHR ''-''"] line show ?case by (auto simp: edit_of_def Let_def)
qed simp

lemma hunk_edits_counts: "list_all hunk_ok hs \<Longrightarrow>
  added_lines (hunk_edits hs) = changed_lines ''+'' hs \<and> deleted_lines (hunk_edits hs) = changed_lines ''-'' hs"
  by (induction hs) (auto simp: hunk_edits_def changed_lines_def hunk_ok_def line_edits_counts)

end
