(* ===== verification/Review_Sample.thy ===== *)
theory Review_Sample
  imports Review_Run Review_Patch
begin

text \<open>A small change, its plan and one schedule of its review, evaluated.\<close>

definition sample_entry :: changedFile where
  "sample_entry = \<lparr>cfFilename = ''f'', cfPrevious = [], cfStatus = ''modified'', cfAdditions = Some 2, cfDeletions = Some 1\<rparr>"

definition sample_lines :: "string list" where
  "sample_lines = [''diff --git a/f b/f'', ''--- a/f'', ''+++ b/f'', ''@@ -1 +1,2 @@'', ''-x'', ''+y'', ''+z'']"

definition sample_header :: string where
  "sample_header = ''diff --git a/f b/f'' @ [CHR 0x0A] @ ''--- a/f'' @ [CHR 0x0A] @ ''+++ b/f'' @ [CHR 0x0A]"

definition sample_hunk :: hunk where
  "sample_hunk = \<lparr>hHeader = ''@@ -1 +1,2 @@'', hOldStart = 1, hNewStart = 1, hOld = 1, hNew = 2, hLines = [''-x'', ''+y'', ''+z'']\<rparr>"

definition sample_diff :: fileDiff where
  "sample_diff = FileDiff sample_entry sample_header [sample_hunk] [] 2 1 []"

lemma sample_hunk_header: "parseHunkHeader ''@@ -1 +1,2 @@'' = Inr (sample_hunk\<lparr>hLines := []\<rparr>)"
  by (simp add: parseHunkHeader_def hunk_texts_def range_texts_def coordinate_def digits_val_def is_digit_def digit_val_def
      sample_hunk_def Let_def)

lemma sample_meta: "read_meta [''--- a/f'', ''+++ b/f''] = Inr (empty_meta\<lparr>smOldName := ''a/f'', smNewName := ''b/f'', smSeen := [''--- '', ''+++ '']\<rparr>)"
  by (simp add: read_meta_def note_directives_def directives_def meta_line_def named_path_def decodePath_def empty_meta_def
      trim_prefix_def trim_suffix_def has_suffix_def)

lemma sample_section: "parseSection sample_lines sample_entry True = Inr sample_diff"
  by (simp add: parseSection_def sample_lines_def hunk_start_def sample_meta check_meta_def pairs_ok_def seen_dir_def empty_meta_def
      sample_entry_def section_hunks.simps section_hunk_def sample_hunk_header hunk_line_def no_newline_def no_count_def no_hunks_def
      check_statistics_def statistic_ok_def sample_diff_def sample_header_def sample_hunk_def)

definition sample_codec :: codec where
  "sample_codec = \<lparr>cdDigest = (\<lambda>x. x), cdPolicy = (\<lambda>_. []), cdShared = (\<lambda>_ _. []), cdStrings = last\<rparr>"

definition sample_policy :: policy where
  "sample_policy = \<lparr>pModel = ''m'', pReasoning = [], pProvider = None, pMaxTokens = 8192, pBatchBytes = 60000, pMaxBatches = 16,
     pMaxRequests = 16, pTotalTokens = 524288, pTotalInput = 2097152, pTimeoutSeconds = 1200, pParallelism = 1, pBatchTimeout = 1200,
     pHTTPRetries = 0\<rparr>"

lemma sample_settings: "readPolicy [(''REVIEW_MODEL'', ''m''), (''REVIEW_API_KEY'', ''k'')] (Some []) = Inr (sample_policy, ''k'')"
  by (simp add: readPolicy_def effective_settings_def setting_def review_model_def read_setting_def integer_setting_def reasoning_ok_def
      routing_def sample_policy_def trim_runes_def runes.simps decode_rune_def is_space_rune_def contains_any_def Let_def)

definition sample_options :: review_options where
  "sample_options = \<lparr>oDiff = ''d'', oFiles = ''m'', oBase = ''b'', oHead = ''h'', oRepository = ''o/r'', oOutput = ''o'', oCache = [],
     oPlan = False\<rparr>"

definition sample_patch :: string where
  "sample_patch = sample_header @ ''@@ -1,1 +1,2 @@'' @ [CHR 0x0A] @ ''-x'' @ [CHR 0x0A] @ ''+y'' @ [CHR 0x0A] @ ''+z'' @ [CHR 0x0A]"

definition sample_fragment :: fragment where
  "sample_fragment = \<lparr>frID = sample_patch, frPath = ''f'', frIndex = 1, frOldStart = 1, frOldLines = 1, frNewStart = 1, frNewLines = 2,
     frPatch = sample_patch\<rparr>"

lemma sample_chunk: "take_chunk 60000 [''-x'', ''+y'', ''+z''] (length sample_header + 128) \<lparr>ckLast = 0, ckOld = 0, ckNew = 0\<rparr> =
   Some \<lparr>ckLast = 3, ckOld = 1, ckNew = 2\<rparr>"
  by (simp add: marked_def no_newline_def sample_header_def)

lemma small_numbers: "nat_str 1 = ''1''" "nat_str (Suc 0) = ''1''" "nat_str 2 = ''2''"
  by (simp_all add: nat_str.simps digit_char_def chr_eq_iff)

lemma sample_split: "splitFile (\<lambda>x. x) 60000 sample_diff = Inr [sample_fragment]"
proof -
  have "split_hunk (\<lambda>x. x) ''f'' sample_header 60000 0 1 1 [''-x'', ''+y'', ''+z''] = Inr [sample_fragment]"
    by (simp add: split_hunk.simps sample_chunk hunk_patch_def small_numbers sample_fragment_def sample_patch_def Let_def del: take_chunk.simps)
  then show ?thesis
    by (simp add: splitFile.simps split_whole_def sample_diff_def sample_hunk_def sample_entry_def sample_header_def)
qed

definition sample_batch :: batch where
  "sample_batch = \<lparr>bID = sample_patch, bFiles = [''f''], bFragments = [sample_patch], bStatus = ''planned'', bCached = False,
     bFindings = [], bError = [], bUsage = None, bPatch = sample_patch\<rparr>"

lemma sample_batches: "plan_batches (\<lambda>x. x) 60000 [sample_fragment] = [sample_batch]"
  by (simp add: plan_batches_def group_keys_def related_group_def add_group_def patch_bytes_def add_fragment_def flush_pending_def
      make_batch_def first_seen_def sample_fragment_def sample_batch_def sample_patch_def sample_header_def Let_def)

definition sample_report :: report where
  "sample_report = \<lparr>rpStatus = ''planned'', rpRepository = ''o/r'', rpBase = ''b'', rpHead = ''h'',
     rpContextDigest = shared_context sample_codec [sample_diff], rpPolicyDigest = [],
     rpCounts = \<lparr>rcFilesTotal = 1, rcFilesReviewed = 0, rcFragmentsTotal = 1, rcFragmentsReviewed = 0, rcBatchesPlanned = 1,
       rcBatchesCompleted = 0, rcBatchesCached = 0\<rparr>,
     rpBudget = \<lparr>rbRequestsUsed = 0, rbMaxRequests = 16, rbTokensReserved = 0, rbMaxTokens = 524288, rbInputReserved = 0, rbMaxInput = 2097152\<rparr>,
     rpUsage = None, rpBatches = [sample_batch],
     rpFiles = [\<lparr>fcPath = ''f'', fcStatus = ''unreviewed'', fcFragments = [sample_patch], fcError = []\<rparr>],
     rpFragments = [sample_fragment], rpError = []\<rparr>"

lemma review_sample_plan: "makePlan_r sample_codec sample_options sample_policy [sample_diff] =
   Inr (sample_report, shared_context sample_codec [sample_diff])"
proof -
  have "cfFilename (fdFile sample_diff) = ''f''" "frID sample_fragment = sample_patch"
    by (simp_all add: sample_diff_def sample_entry_def sample_fragment_def)
  then show ?thesis
    by (simp add: makePlan_r_def cover_file_def sample_split sample_batches sample_report_def sample_codec_def [abs_def]
        sample_policy_def sample_options_def Let_def)
qed

text \<open>The worker starts, reserves its only attempt, answers; the coordinator receives and ends.\<close>

definition sample_events :: "run_event list" where
  "sample_events = [Coordinate False, Reserve 0 False 3000 1024,
     Finish 0 \<lparr>raError = False, raFindings = ''No findings.'', raUsage = None, raCancelled = False\<rparr>, Coordinate False, Coordinate False]"

definition sample_world :: run_world where
  "sample_world = \<lparr>rwCache = (\<lambda>_. None), rwKey = ''k'', rwBytes = (\<lambda>_. 3000), rwEvents = sample_events, rwCancelled = False,
     rwCancelledLater = False\<rparr>"

lemma sample_run: "\<exists>s. run_events 1 ''k'' (\<lambda>_. 3000) sample_events (start_run (\<lambda>_. None) sample_report) = Some s \<and>
   rpBudget (rsReport s) = \<lparr>rbRequestsUsed = 1, rbMaxRequests = 16, rbTokensReserved = 1024, rbMaxTokens = 524288,
     rbInputReserved = 3000, rbMaxInput = 2097152\<rparr>"
  by (simp add: sample_events_def start_run_def sample_report_def sample_batch_def run_event_def coordinator_def may_start_def
      start_worker_def requestLimit_def reserve_def set_budget_def finish_worker_def findings_limit_def receive_outcome_def
      update_batch_def load_batch_def)

lemma sample_execute:
  "\<exists>r. execute sample_world sample_policy sample_report = Some r \<and> rpStatus r = ''complete''"
  by (simp add: execute_def runBatches_def sample_world_def sample_policy_def sample_events_def start_run_def sample_report_def
      sample_batch_def run_event_def coordinator_def may_start_def start_worker_def requestLimit_def reserve_def set_budget_def
      finish_worker_def findings_limit_def receive_outcome_def update_batch_def load_batch_def settle_run_def settle_outcome_def
      first_error_def updateCoverage_def reviewed_ids_def complete_batches_def cover_status_def all_reviewed_def conclude_def
      trim_runes_def runes.simps decode_rune_def is_space_rune_def Let_def)

lemma sample_review:
  "review_batch sample_world sample_codec sample_options sample_policy [sample_diff] True =
     Some (0, snd (the (review_batch sample_world sample_codec sample_options sample_policy [sample_diff] True)))"
proof -
  obtain r where "execute sample_world sample_policy sample_report = Some r" "rpStatus r = ''complete''" using sample_execute by blast
  moreover have "\<not> oPlan sample_options" by (simp add: sample_options_def)
  ultimately show ?thesis by (simp add: review_batch_def review_sample_plan updateCoverage_def Let_def)
qed

abbreviation small_patch :: string where
  "small_patch \<equiv> ''@@ -1 +1,2 @@'' @ [CHR 0x0A] @ ''-x'' @ [CHR 0x0A] @ ''+y'' @ [CHR 0x0A] @ ''+z'' @ [CHR 0x0A]"

lemma small_meta: "read_meta [''--- a/review-input'', ''+++ b/review-input''] =
   Inr (empty_meta\<lparr>smOldName := ''a/review-input'', smNewName := ''b/review-input'', smSeen := [''--- '', ''+++ '']\<rparr>)"
  by (simp add: read_meta_def note_directives_def directives_def meta_line_def named_path_def decodePath_def empty_meta_def
      trim_prefix_def trim_suffix_def has_suffix_def)

lemma small_section: "\<exists>d. parseSection (patch_lines small_patch) (patch_file 2 1) True = Inr d \<and> fdHunks d = [sample_hunk]"
  by (simp add: patch_lines_def trim_suffix_def has_suffix_def parseSection_def hunk_start_def small_meta check_meta_def pairs_ok_def
      seen_dir_def empty_meta_def patch_file_def section_hunks.simps section_hunk_def sample_hunk_header hunk_line_def no_newline_def
      no_count_def no_hunks_def check_statistics_def statistic_ok_def sample_hunk_def)

lemma small_apply: "ApplyFilePatch (\<lambda>_. False) (''x'' @ [CHR 0x0A]) small_patch 2 1 = Inr (''y'' @ [CHR 0x0A] @ ''z'' @ [CHR 0x0A])"
proof -
  obtain d where d: "parseSection (patch_lines small_patch) (patch_file 2 1) True = Inr d" "fdHunks d = [sample_hunk]"
    using small_section by blast
  have "utf8_valid (''x'' @ [CHR 0x0A])" "utf8_valid small_patch"
    by (simp_all add: utf8_valid_def runes.simps decode_rune_def invalid_rune_def rune_error_def)
  with d(1) show ?thesis
    unfolding ApplyFilePatch_def
    by (simp add: inputLimit_def hunk_start_def d(2) apply_hunk_def sample_hunk_def follows_marker_def no_newline_def
        apply_line_def consume_line_def emit_line_def first_line_def poll_def)
qed

end
