(* ===== verification/Review_Claims.thy ===== *)
theory Review_Claims
  imports Review_Run_Props Review_Patch_Props Review_Sample
begin

text \<open>
  The properties of the batched review: lossless parsing, exact fragments within the limit, batches that partition
  them, the shared budget under every interleaving, and the meaning of a complete review.
\<close>

section \<open>Parsing and splitting\<close>

text \<open>C24: An accepted file section loses nothing: its header and its hunks, each a header line and the lines it
  declares, are the text of the section; the hunks are in order and disjoint, and the statistics are the manifest's.\<close>

theorem section_lossless:
  assumes "parseSection lines entry True = Inr d"
  shows "fdHeader d @ concat (map (\<lambda>h. concat (map terminated (hunk_source h))) (fdHunks d)) = concat (map terminated lines) \<and>
    list_all hunk_ok (fdHunks d) \<and> hunks_ordered 0 0 (fdHunks d) \<and>
    cfAdditions entry = Some (int (changed_lines ''+'' (fdHunks d))) \<and> cfDeletions entry = Some (int (changed_lines ''-'' (fdHunks d)))"
  using section_parts [OF assms] by simp

theorem section_lossless_witness: "list_all hunk_ok (fdHunks sample_diff) \<and> cfAdditions sample_entry = Some (int (changed_lines ''+'' (fdHunks sample_diff)))"
  using section_lossless [OF sample_section] by blast

text \<open>C15: Splitting an accepted file never panics, and a success gives for every hunk consecutive chunks that are exactly
  its lines, each fragment with the chunk's coordinates and line counts and a patch within the limit.\<close>

theorem split_exact:
  assumes "parseSection lines entry check = Inr d"
  shows "(case splitFile dg limit d of
      Inl e \<Rightarrow> e \<noteq> Panics
    | Inr fs \<Rightarrow> fitting dg limit (cfFilename entry) fs \<and>
        (if fdHunks d = [] then map frPatch fs = [fdHeader d]
         else \<exists>css. hunks_cover dg (cfFilename entry) (fdHeader d) (fdHunks d) css fs))"
proof -
  from section_accepted [OF assms] have simple: "simple_diff (cfFilename entry) d" .
  show ?thesis
    using split_whole_cases [OF simple, of dg limit] by (auto simp: splitFile_simple [OF simple] split: sum.splits)
qed

theorem split_exact_witness: "fitting (\<lambda>x. x) 60000 ''f'' [sample_fragment]"
  using split_exact [OF sample_section, of "\<lambda>x. x" 60000] sample_split by (simp add: sample_entry_def)

section \<open>Batches\<close>

text \<open>C25: The batches of a plan hold every fragment exactly once, none exceeds the byte limit, and related fragments that
  fit together are in one batch.\<close>

theorem batches_partition:
  assumes "list_all accepted changes"
  shows "(case makePlan_r cd opts p changes of Inl _ \<Rightarrow> False | Inr (r, _) \<Rightarrow>
    mset (concat (map bFragments (rpBatches r))) = mset (map frID (rpFragments r)) \<and>
    list_all (\<lambda>b. length (bPatch b) \<le> pBatchBytes p \<and> bFragments b \<noteq> []) (rpBatches r) \<and>
    list_all (\<lambda>key. patch_bytes (related_group (rpFragments r) key) > pBatchBytes p \<or>
      list_ex (\<lambda>b. set (map frID (related_group (rpFragments r) key)) \<subseteq> set (bFragments b)) (rpBatches r)) (group_keys (rpFragments r)))"
proof -
  obtain r shared where plan: "makePlan_r cd opts p changes = Inr (r, shared)"
    using cover_total [OF assms, of "cdDigest cd" "pBatchBytes p" "[]" "[]"] by (auto simp: makePlan_r_def Let_def)
  from fragments_fit [OF assms, of "pBatchBytes p" "cdDigest cd"] plan_parts(2) [OF plan]
  have "list_all (\<lambda>f. length (frPatch f) \<le> pBatchBytes p) (rpFragments r)" by (auto simp: list_all_iff)
  from plan_groups [OF this] plan_parts(3) [OF plan] obtain name gs where
    gs: "rpBatches r = map (make_batch name) gs" "mset (concat gs) = mset (rpFragments r)" "list_all (group_ok (pBatchBytes p)) gs"
      "\<forall>key \<in> set (group_keys (rpFragments r)). patch_bytes (related_group (rpFragments r) key) \<le> pBatchBytes p \<longrightarrow>
        held_together (related_group (rpFragments r) key) gs" by metis
  have "concat (map bFragments (rpBatches r)) = map frID (concat gs)"
    unfolding gs(1) by (simp add: map_concat o_def make_batch_def Let_def)
  then have "mset (concat (map bFragments (rpBatches r))) = mset (map frID (rpFragments r))"
    using gs(2) by (metis mset_map)
  moreover have "length (concat (map frPatch g)) = patch_bytes g" for g by (simp add: patch_bytes_def length_concat o_def)
  then have "list_all (\<lambda>b. length (bPatch b) \<le> pBatchBytes p \<and> bFragments b \<noteq> []) (rpBatches r)"
    using gs(1,3) by (auto simp: list_all_iff group_ok_def make_batch_def Let_def)
  moreover have "list_ex (\<lambda>b. set (map frID (related_group (rpFragments r) key)) \<subseteq> set (bFragments b)) (rpBatches r)"
    if "held_together (related_group (rpFragments r) key) gs" for key
    using that unfolding gs(1) by (fastforce simp: held_together_def list_ex_iff make_batch_def Let_def)
  ultimately show ?thesis using gs(4) plan by (auto simp: list_all_iff not_less)
qed

lemma sample_accepted: "list_all accepted [sample_diff]"
  using parse_accepted(1) [OF sample_section] by simp

theorem batches_partition_witness:
  "mset (concat (map bFragments (rpBatches sample_report))) = mset (map frID (rpFragments sample_report))"
  using batches_partition [OF sample_accepted, where cd = sample_codec and opts = sample_options and p = sample_policy] by (simp add: review_sample_plan)

section \<open>Runs\<close>

lemma integer_setting_range: "integer_setting s fallback lower upper = Inr n \<Longrightarrow> n = fallback \<or> (lower \<le> n \<and> n \<le> upper)"
  by (auto simp: integer_setting_def Let_def split: if_splits)

lemma read_setting_range:
  "read_setting e key fallback lower upper = Inr n \<Longrightarrow> lower \<le> fallback \<Longrightarrow> fallback \<le> upper \<Longrightarrow> lower \<le> n \<and> n \<le> upper"
  using integer_setting_range [of "setting e key" fallback lower upper n] by (auto simp: read_setting_def split: sum.splits)

text \<open>No environment or configuration file widens the limits of a run.\<close>

lemma policy_bounds:
  assumes "readPolicy environment plan = Inr (p, key)"
  shows "pMaxRequests p \<le> 64" "pTotalTokens p \<le> 2097152" "pTotalInput p \<le> 16777216" "1 \<le> pParallelism p" "pParallelism p \<le> 4"
proof -
  from assms obtain actions where a: "plan = Some actions" by (cases plan) (simp_all add: readPolicy_def)
  let ?e = "effective_settings environment actions"
  from assms a have "read_setting ?e ''REVIEW_MAX_REQUESTS'' 16 1 64 = Inr (pMaxRequests p) \<and>
    read_setting ?e ''REVIEW_TOTAL_MAX_TOKENS'' 524288 1024 2097152 = Inr (pTotalTokens p) \<and>
    read_setting ?e ''REVIEW_TOTAL_INPUT_BYTES'' 2097152 4096 16777216 = Inr (pTotalInput p) \<and>
    read_setting ?e ''REVIEW_PARALLELISM'' 1 1 4 = Inr (pParallelism p)"
    by (simp add: readPolicy_def Let_def split: if_splits) (clarsimp simp: bindE_Inr_iff split: if_splits)
  then show "pMaxRequests p \<le> 64" "pTotalTokens p \<le> 2097152" "pTotalInput p \<le> 16777216" "1 \<le> pParallelism p" "pParallelism p \<le> 4"
    by (auto dest!: read_setting_range)
qed

text \<open>C14: However the workers, their retries and the coordinator interleave, the requests sent are exactly the admitted
  attempts, the reserved requests, tokens and bytes stay within the run's limits, and no more workers than allowed run;
  and whatever the settings are, that is at most 64 requests and 4 workers.\<close>

theorem review_budget_respected:
  assumes "readPolicy environment plan = Inr (p, key)" and "makePlan_r cd opts p changes = Inr (r, shared)"
    and "run_events (pParallelism p) key request_bytes es (start_run cache r) = Some s"
  shows "rbRequestsUsed (rpBudget (rsReport s)) = run_attempts s \<and> run_attempts s \<le> pMaxRequests p \<and> pMaxRequests p \<le> 64 \<and>
    rbTokensReserved (rpBudget (rsReport s)) \<le> pTotalTokens p \<and> rbInputReserved (rpBudget (rsReport s)) \<le> pTotalInput p \<and>
    length (rsActive s) + length (rsQueue s) \<le> pParallelism p \<and> pParallelism p \<le> 4"
proof -
  have "run_bounded (pParallelism p) (start_run cache r)"
    using plan_parts(7) [OF assms(2)] by (simp add: run_bounded_def start_run_def within_budget_def run_attempts_def)
  from run_events_bounded [OF assms(3) this] have "run_bounded (pParallelism p) s" .
  moreover have "same_plan r (rsReport s)" by (rule same_plan_trans [OF start_plan run_events_plan [OF assms(3)]])
  then have "budget_limits (rpBudget (rsReport s)) = (pMaxRequests p, pTotalTokens p, pTotalInput p)"
    using plan_parts(7) [OF assms(2)] by (simp add: same_plan_def budget_limits_def)
  ultimately show ?thesis using policy_bounds [OF assms(1)] by (auto simp: run_bounded_def within_budget_def budget_limits_def)
qed

theorem review_budget_respected_witness:
  "run_attempts (the (run_events 1 ''k'' (\<lambda>_. 3000) sample_events (start_run (\<lambda>_. None) sample_report))) \<le> 64"
proof -
  obtain s where s: "run_events 1 ''k'' (\<lambda>_. 3000) sample_events (start_run (\<lambda>_. None) sample_report) = Some s" using sample_run by blast
  have "pParallelism sample_policy = 1" by (simp add: sample_policy_def)
  with review_budget_respected [OF sample_settings review_sample_plan, of "\<lambda>_. 3000" sample_events "\<lambda>_. None" s] s
  show ?thesis by simp
qed

lemma complete_files:
  assumes "length (filter Q xs) = length xs" and "x \<in> set xs"
  shows "Q x"
  using assms by (metis filter_id_conv length_filter_less less_irrefl)

lemma execute_complete:
  assumes "execute w p r = Some r'" and "rpStatus r' = ''complete''" and "rpStatus r = ''planned''"
  shows "\<exists>r2. same_plan r r2 \<and> all_reviewed (updateCoverage r2) \<and> rpBatches r' = map skip_planned (rpBatches r2)"
proof -
  have "rpStatus r' \<noteq> ''complete''" if "rpBatches r = []" using assms(1) that by (auto simp: execute_def)
  with assms obtain r2 where r2: "runBatches w p r = Some r2" "r' = conclude (rwCancelledLater w) (updateCoverage r2)"
    by (auto simp: execute_def split: if_splits)
  have "all_reviewed (updateCoverage r2)"
    using assms(2) unfolding r2(2) conclude_def Let_def by (auto split: if_splits)
  moreover have "rpBatches r' = map skip_planned (rpBatches r2)"
    unfolding r2(2) conclude_def Let_def updateCoverage_def by auto
  ultimately show ?thesis using runBatches_plan [OF r2(1)] by blast
qed

lemma reviewed_entry:
  assumes "all_reviewed (updateCoverage r)" and "length (rpFiles r) = rcFilesTotal (rpCounts r)" and "c \<in> set (rpFiles r)"
  shows "fcStatus c \<noteq> ''unreviewable''"
    and "i \<in> set (fcFragments c) \<Longrightarrow> \<exists>b \<in> set (rpBatches r). bStatus b = ''complete'' \<and> i \<in> set (bFragments b)"
proof -
  let ?files = "map (cover_status (reviewed_ids r)) (rpFiles r)"
  from assms(1,2) have "length (filter (\<lambda>f. fcStatus f = ''complete'') ?files) = length ?files"
    by (simp add: all_reviewed_def updateCoverage_def Let_def)
  from complete_files [OF this, of "cover_status (reviewed_ids r) c"] assms(3)
  have status: "fcStatus (cover_status (reviewed_ids r) c) = ''complete''" by simp
  then show ok: "fcStatus c \<noteq> ''unreviewable''" by (auto simp: cover_status_def)
  with status have "length (filter (\<lambda>i. i \<in> set (reviewed_ids r)) (fcFragments c)) = length (fcFragments c)"
    by (auto simp: cover_status_def Let_def split: if_splits)
  from complete_files [OF this]
  show "i \<in> set (fcFragments c) \<Longrightarrow> \<exists>b \<in> set (rpBatches r). bStatus b = ''complete'' \<and> i \<in> set (bFragments b)"
    by (auto simp: reviewed_ids_def complete_batches_def)
qed

lemma contains_sub_infix: "contains_sub (u @ s @ v) s"
proof (induction u)
  case Nil
  have "has_prefix s (s @ v)" by simp
  then show ?case by (cases "s @ v") auto
qed simp

lemma contains_concat: "x \<in> set xs \<Longrightarrow> contains_sub (concat xs) x"
  by (metis concat.simps(2) concat_append contains_sub_infix split_list)

text \<open>A planned batch that answers a fragment's identity has its patch.\<close>

lemma batch_has_patch:
  assumes "list_all accepted changes" and "inj (cdDigest cd)" and "makePlan_r cd opts p changes = Inr (r, shared)"
    and "b \<in> set (rpBatches r)" and "cdDigest cd patch \<in> set (bFragments b)"
  shows "contains_sub (bPatch b) patch"
proof -
  have fit: "list_all (\<lambda>f. length (frPatch f) \<le> pBatchBytes p \<and> frID f = cdDigest cd (frPatch f)) (rpFragments r)"
    using fragments_fit [OF assms(1), of "pBatchBytes p" "cdDigest cd"] plan_parts(2) [OF assms(3)] by simp
  then have "list_all (\<lambda>f. length (frPatch f) \<le> pBatchBytes p) (rpFragments r)" by (auto simp: list_all_iff)
  from plan_groups [OF this] plan_parts(3) [OF assms(3)] obtain name gs where
    gs: "rpBatches r = map (make_batch name) gs" "mset (concat gs) = mset (rpFragments r)" by metis
  from assms(4) gs(1) obtain g where g: "g \<in> set gs" "b = make_batch name g" by auto
  with assms(5) obtain f where f: "f \<in> set g" "frID f = cdDigest cd patch" by (auto simp: make_batch_def Let_def)
  have "f \<in> set (rpFragments r)" using f(1) g(1) mset_eq_setD [OF gs(2)] by auto
  with fit f(2) have "cdDigest cd (frPatch f) = cdDigest cd patch" by (auto simp: list_all_iff)
  with assms(2) have "frPatch f = patch" by (simp add: inj_eq)
  with f(1) g(2) contains_concat [of patch "map frPatch g"] show ?thesis by (auto simp: make_batch_def Let_def)
qed

lemma skip_complete: "bStatus b = ''complete'' \<Longrightarrow> skip_planned b = b"
  by (simp add: skip_planned_def)

text \<open>C8: A review that ends with exit code 0 is complete: no changed file was unreviewable, and the patch of every
  fragment of every file is part of the patch of a batch that the provider (or the authenticated cache) answered.\<close>

theorem complete_review_covers:
  assumes "list_all accepted changes" and "inj (cdDigest cd)" and "\<not> oPlan opts"
    and "review_batch w cd opts p changes publishes = Some (0, r)" and "d \<in> set changes"
  shows "(case splitFile (cdDigest cd) (pBatchBytes p) d of
      Inl _ \<Rightarrow> False
    | Inr fs \<Rightarrow> fs \<noteq> [] \<and> list_all (\<lambda>f. list_ex (\<lambda>b. bStatus b = ''complete'' \<and> contains_sub (bPatch b) (frPatch f)) (rpBatches r)) fs)"
proof -
  let ?dg = "cdDigest cd"
  let ?limit = "pBatchBytes p"
  from assms(3,4) obtain r0 sh r1 where plan: "makePlan_r cd opts p changes = Inr (r0, sh)" and run: "execute w p r0 = Some r1"
    and r: "r = updateCoverage r1" and done_: "rpStatus r1 = ''complete''"
    by (auto simp: review_batch_def Let_def updateCoverage_def split: sum.splits if_splits)
  from execute_complete [OF run done_ plan_parts(4) [OF plan]] obtain r2 where r2: "same_plan r0 r2"
    "all_reviewed (updateCoverage r2)" "rpBatches r1 = map skip_planned (rpBatches r2)" by blast
  note entries = plan_parts(1) [OF plan]
  from assms(5) entries obtain c where c: "c \<in> set (rpFiles r0)" "coverage_of ?dg ?limit d c"
    by (metis in_set_conv_nth list_all2_conv_all_nth)
  have files: "rpFiles r2 = rpFiles r0" "length (rpFiles r2) = rcFilesTotal (rpCounts r2)"
    using r2(1) plan_parts(5) [OF plan] list_all2_lengthD [OF entries] by (simp_all add: same_plan_def)
  note review = reviewed_entry [OF r2(2) files(2)]
  from c(1) files(1) have entry: "c \<in> set (rpFiles r2)" by simp
  show ?thesis
  proof (cases "splitFile ?dg ?limit d")
    case (Inl e)
    with c(2) review(1) [OF entry] show ?thesis by (simp add: coverage_of_def)
  next
    case (Inr fs)
    from assms(1,5) have "accepted d" by (auto simp: list_all_iff)
    with Inr split_accepted [of d ?dg ?limit] have fs: "fs \<noteq> []" "\<And>f. f \<in> set fs \<Longrightarrow> frID f = ?dg (frPatch f)"
      by (auto simp: fitting_def list_all_iff)
    have "list_ex (\<lambda>b. bStatus b = ''complete'' \<and> contains_sub (bPatch b) (frPatch f)) (rpBatches r)" if "f \<in> set fs" for f
    proof -
      from that c(2) Inr have "frID f \<in> set (fcFragments c)" by (auto simp: coverage_of_def)
      from review(2) [OF entry this] obtain b where b: "b \<in> set (rpBatches r2)" "bStatus b = ''complete''" "frID f \<in> set (bFragments b)"
        by blast
      have same: "map batch_content (rpBatches r2) = map batch_content (rpBatches r0)" using r2(1) by (simp add: same_plan_def)
      from b(1) have "batch_content b \<in> set (map batch_content (rpBatches r2))" by simp
      then have "batch_content b \<in> set (map batch_content (rpBatches r0))" by (simp only: same)
      then obtain b0 where b0: "b0 \<in> set (rpBatches r0)" "batch_content b0 = batch_content b" by auto
      from b0(2) have "bPatch b0 = bPatch b" "bFragments b0 = bFragments b" by (simp_all add: batch_content_def)
      with batch_has_patch [OF assms(1,2) plan b0(1), of "frPatch f"] b(3) fs(2) [OF that]
      have "contains_sub (bPatch b) (frPatch f)" by simp
      moreover have "b \<in> set (rpBatches r)"
      proof -
        have "rpBatches r = map skip_planned (rpBatches r2)" using r2(3) by (simp add: r updateCoverage_def Let_def)
        moreover have "skip_planned b \<in> set (map skip_planned (rpBatches r2))" using b(1) by simp
        ultimately show ?thesis using skip_complete [OF b(2)] by simp
      qed
      ultimately show ?thesis using b(2) unfolding list_ex_iff by blast
    qed
    then have "list_all (\<lambda>f. list_ex (\<lambda>b. bStatus b = ''complete'' \<and> contains_sub (bPatch b) (frPatch f)) (rpBatches r)) fs"
      unfolding list_all_iff by blast
    with fs(1) Inr show ?thesis by simp
  qed
qed

theorem complete_review_covers_witness:
  "list_ex (\<lambda>b. bStatus b = ''complete'' \<and> contains_sub (bPatch b) sample_patch)
     (rpBatches (snd (the (review_batch sample_world sample_codec sample_options sample_policy [sample_diff] True))))"
proof -
  have "inj (cdDigest sample_codec)" "\<not> oPlan sample_options" "sample_diff \<in> set [sample_diff]"
    by (simp_all add: sample_codec_def sample_options_def)
  moreover have "splitFile (cdDigest sample_codec) (pBatchBytes sample_policy) sample_diff = Inr [sample_fragment]"
    using sample_split by (simp add: sample_codec_def sample_policy_def)
  moreover have "frPatch sample_fragment = sample_patch" by (simp add: sample_fragment_def)
  ultimately show ?thesis
    using complete_review_covers [OF sample_accepted _ _ sample_review, of sample_diff] by simp
qed

section \<open>Applying a patch\<close>

text \<open>C16: A patch that applies is an edit script from exactly the old text to exactly the result, whose changes are those of
  the patch, in order, with as many additions and deletions as the caller states.\<close>

theorem patch_is_edit_script:
  assumes "ApplyFilePatch cancel before patch additions deletions = Inr after"
  shows "\<exists>es d. parseSection (patch_lines patch) (patch_file (nat additions) (nat deletions)) True = Inr d \<and>
    old_text es = before \<and> new_text es = after \<and> changes_of es = changes_of (hunk_edits (fdHunks d)) \<and>
    int (added_lines es) = additions \<and> int (deleted_lines es) = deletions"
proof -
  let ?start = "\<lparr>paRest = before, paOutput = [], paOldLine = 0, paNewLine = 0, paUnterminated = False, paPolls = 1\<rparr>"
  from assms obtain d a b where nonneg: "0 \<le> additions" "0 \<le> deletions"
    and d: "parseSection (patch_lines patch) (patch_file (nat additions) (nat deletions)) True = Inr d"
    and run: "forE (apply_hunk cancel) (fdHunks d) ?start = Inr a" and p: "poll cancel a = Inr b"
    and after: "after = paOutput b @ paRest b"
    by (auto simp: ApplyFilePatch_def result_simps split: if_splits)
  from apply_hunks_edited [OF run] obtain es where es: "edited es ?start a" "changes_of es = changes_of (hunk_edits (fdHunks d))"
    by blast
  let ?all = "es @ [Keep (paRest b)]"
  have "edited (es @ []) ?start b" by (rule edited_trans [OF es(1) poll_edited [OF p]])
  then have sides: "old_text ?all = before" "new_text ?all = after" by (simp_all add: edited_def after)
  have changes: "changes_of ?all = changes_of (hunk_edits (fdHunks d))" using es(2) by simp
  from section_parts(2,4,5,8) [OF d] hunk_edits_counts [of "fdHunks d"] nonneg
  have "int (added_lines (hunk_edits (fdHunks d))) = additions" "int (deleted_lines (hunk_edits (fdHunks d))) = deletions"
    by (simp_all add: patch_file_def)
  then have "int (added_lines ?all) = additions" "int (deleted_lines ?all) = deletions"
    using changes_counts [of ?all] changes_counts [of "hunk_edits (fdHunks d)"] by (simp_all only: changes)
  with d sides changes show ?thesis by blast
qed

theorem patch_is_edit_script_witness:
  "\<exists>es. old_text es = ''x'' @ [CHR 0x0A] \<and> new_text es = ''y'' @ [CHR 0x0A] @ ''z'' @ [CHR 0x0A] \<and> int (added_lines es) = 2"
  using patch_is_edit_script [OF small_apply] by blast

end
