(* ===== verification/Go_Task.thy ===== *)
theory Go_Task
  imports Prelude
begin

text \<open>
  Concurrent Go code.  A procedure that shares the operating system with other processes is a program that
  stops at each call it makes: it is finished, or it is a call together with the continuation on the answer,
  so that an execution can interleave the calls of several processes one at a time.  \<open>bindT\<close> and \<open>tryT\<close> are
  sequencing and the error return over a local state.  \<open>drive\<close> runs a program alone against the effect of
  calls; \<open>safely\<close> is its weakest precondition when other processes act between any two calls, within a rely
  relation, and says that every call it makes was permitted.  The locale \<open>interference\<close> holds the rules of
  \<open>safely\<close> for any rely relation that is reflexive and transitive.
\<close>

section \<open>Programs\<close>

datatype ('q, 'r, 'a) prog = Done 'a | Call 'q "'r \<Rightarrow> ('q, 'r, 'a) prog"

primrec bindP :: "('q, 'r, 'a) prog \<Rightarrow> ('a \<Rightarrow> ('q, 'r, 'b) prog) \<Rightarrow> ('q, 'r, 'b) prog" where
  "bindP (Done x) f = f x"
| "bindP (Call q k) f = Call q (\<lambda>r. bindP (k r) f)"

type_synonym ('q, 'r, 'g, 'a) task = "'g \<Rightarrow> ('q, 'r, 'a \<times> 'g) prog"

definition retT :: "'a \<Rightarrow> ('q, 'r, 'g, 'a) task" where
  "retT x = (\<lambda>g. Done (x, g))"

definition bindT :: "('q, 'r, 'g, 'a) task \<Rightarrow> ('a \<Rightarrow> ('q, 'r, 'g, 'b) task) \<Rightarrow> ('q, 'r, 'g, 'b) task" where
  "bindT m f = (\<lambda>g. bindP (m g) (\<lambda>(x, h). f x h))"

definition tryT :: "('q, 'r, 'g, 'e + 'a) task \<Rightarrow> ('a \<Rightarrow> ('q, 'r, 'g, 'e + 'b) task) \<Rightarrow> ('q, 'r, 'g, 'e + 'b) task" where
  "tryT m f = bindT m (\<lambda>r. case r of Inl e \<Rightarrow> retT (Inl e) | Inr x \<Rightarrow> f x)"

definition askT :: "'q \<Rightarrow> ('q, 'r, 'g, 'r) task" where
  "askT q = (\<lambda>g. Call q (\<lambda>r. Done (r, g)))"

definition getT :: "('g \<Rightarrow> 'a) \<Rightarrow> ('q, 'r, 'g, 'a) task" where
  "getT f = (\<lambda>g. Done (f g, g))"

definition setT :: "('g \<Rightarrow> 'g) \<Rightarrow> ('q, 'r, 'g, unit) task" where
  "setT f = (\<lambda>g. Done ((), f g))"

primrec eachT :: "('x \<Rightarrow> ('q, 'r, 'g, 'e + unit) task) \<Rightarrow> 'x list \<Rightarrow> ('q, 'r, 'g, 'e + unit) task" where
  "eachT f [] = retT (Inr ())"
| "eachT f (x # xs) = tryT (f x) (\<lambda>_. eachT f xs)"

lemma bindP_assoc: "bindP (bindP p f) h = bindP p (\<lambda>x. bindP (f x) h)"
  by (induction p) auto

section \<open>Running alone\<close>

primrec drive :: "('q \<Rightarrow> 's \<Rightarrow> 'r \<times> 's) \<Rightarrow> ('q, 'r, 'a) prog \<Rightarrow> 's \<Rightarrow> 'a \<times> 's" where
  "drive e (Done x) s = (x, s)"
| "drive e (Call q k) s = (case e q s of (r, t) \<Rightarrow> drive e (k r) t)"

named_theorems drive_simps \<open>running the combinators alone\<close>

lemma drive_bindP: "drive e (bindP p f) s = (case drive e p s of (x, t) \<Rightarrow> drive e (f x) t)"
  by (induction p arbitrary: s) (auto split: prod.splits)

lemma drive_combinators [drive_simps]:
  "drive e (retT x g) s = ((x, g), s)"
  "drive e (getT f g) s = ((f g, g), s)"
  "drive e (setT u g) s = (((), u g), s)"
  "drive e (askT q g) s = (case e q s of (r, t) \<Rightarrow> ((r, g), t))"
  "drive e (bindT m k g) s = (case drive e (m g) s of ((x, h), t) \<Rightarrow> drive e (k x h) t)"
  by (simp_all add: retT_def getT_def setT_def askT_def bindT_def drive_bindP split: prod.splits)

lemma drive_tryT [drive_simps]:
  "drive e (tryT m k g) s = (case drive e (m g) s of ((r, h), t) \<Rightarrow>
     (case r of Inl x \<Rightarrow> ((Inl x, h), t) | Inr x \<Rightarrow> drive e (k x h) t))"
  by (simp add: tryT_def drive_simps split: prod.splits sum.splits)

lemma drive_eachT [drive_simps]:
  "drive e (eachT f [] g) s = ((Inr (), g), s)"
  "drive e (eachT f (x # xs) g) s = (case drive e (f x g) s of ((r, h), t) \<Rightarrow>
     (case r of Inl y \<Rightarrow> ((Inl y, h), t) | Inr _ \<Rightarrow> drive e (eachT f xs h) t))"
  by (simp_all add: drive_simps)

section \<open>Running among others\<close>

primrec safely :: "('s \<Rightarrow> 's \<Rightarrow> bool) \<Rightarrow> ('q \<Rightarrow> 's \<Rightarrow> bool) \<Rightarrow> ('q \<Rightarrow> 's \<Rightarrow> ('r \<times> 's) set) \<Rightarrow>
    ('q, 'r, 'a) prog \<Rightarrow> ('a \<Rightarrow> 's \<Rightarrow> bool) \<Rightarrow> 's \<Rightarrow> bool" where
  "safely R A E (Done x) Q s = (\<forall>t. R s t \<longrightarrow> Q x t)"
| "safely R A E (Call q k) Q s = (\<forall>t. R s t \<longrightarrow> A q t \<and> (\<forall>(r, u) \<in> E q t. safely R A E (k r) Q u))"

lemma safely_mono:
  "safely R A E p Q s \<Longrightarrow> (\<And>x t. Q x t \<Longrightarrow> W x t) \<Longrightarrow> safely R A E p W s"
  by (induction p arbitrary: s) fastforce+

lemma safely_weaken:
  "safely R A E p Q s \<Longrightarrow> (\<And>q t. A q t \<Longrightarrow> B q t) \<Longrightarrow> safely R B E p Q s"
  by (induction p arbitrary: s) fastforce+

lemma safely_step:
  assumes "safely R A E (Call q k) Q s" "R s s" "(r, u) \<in> E q s"
  shows "A q s \<and> safely R A E (k r) Q u"
  using assms by fastforce

locale interference =
  fixes rely :: "'s \<Rightarrow> 's \<Rightarrow> bool"
    and permitted :: "'q \<Rightarrow> 's \<Rightarrow> bool"
    and effect :: "'q \<Rightarrow> 's \<Rightarrow> ('r \<times> 's) set"
  assumes rely_refl: "rely s s"
    and rely_trans: "rely s t \<Longrightarrow> rely t u \<Longrightarrow> rely s u"
begin

lemma safely_rely: "safely rely permitted effect p Q s \<Longrightarrow> rely s t \<Longrightarrow> safely rely permitted effect p Q t"
  by (cases p) (auto intro: rely_trans)

lemma safely_bindP:
  "safely rely permitted effect p (\<lambda>x t. safely rely permitted effect (f x) Q t) s \<Longrightarrow>
   safely rely permitted effect (bindP p f) Q s"
proof (induction p arbitrary: s)
  case (Done x)
  then show ?case using rely_refl by simp
next
  case (Call q k)
  then show ?case by (fastforce simp: image_def)
qed

lemma safely_bindT:
  "safely rely permitted effect (m g) (\<lambda>(x, h) t. safely rely permitted effect (k x h) Q t) s \<Longrightarrow>
   safely rely permitted effect (bindT m k g) Q s"
  unfolding bindT_def by (rule safely_bindP) (auto elim!: safely_mono)

lemma safely_tryT:
  assumes "safely rely permitted effect (m g) (\<lambda>(r, h) t. case r of
       Inl e \<Rightarrow> (\<forall>u. rely t u \<longrightarrow> Q (Inl e, h) u)
     | Inr x \<Rightarrow> safely rely permitted effect (k x h) Q t) s"
  shows "safely rely permitted effect (tryT m k g) Q s"
  unfolding tryT_def
  by (rule safely_bindT, rule safely_mono [OF assms]) (auto simp: retT_def split: sum.splits)

text \<open>A Hoare triple: from a state of its precondition the procedure is safe and ends in its postcondition.\<close>

definition hoare :: "('g \<Rightarrow> 's \<Rightarrow> bool) \<Rightarrow> ('q, 'r, 'g, 'a) task \<Rightarrow> ('a \<Rightarrow> 'g \<Rightarrow> 's \<Rightarrow> bool) \<Rightarrow> bool" where
  "hoare P m Q \<longleftrightarrow> (\<forall>g s. P g s \<longrightarrow> safely rely permitted effect (m g) (\<lambda>(x, h) t. Q x h t) s)"

definition stable :: "('s \<Rightarrow> bool) \<Rightarrow> bool" where
  "stable P \<longleftrightarrow> (\<forall>s t. P s \<longrightarrow> rely s t \<longrightarrow> P t)"

lemma hoareD: "hoare P m Q \<Longrightarrow> P g s \<Longrightarrow> safely rely permitted effect (m g) (\<lambda>(x, h). Q x h) s"
  by (simp add: hoare_def)

lemma hoare_bind:
  assumes "hoare P m (\<lambda>x. W x)" "\<And>x. hoare (W x) (k x) Q"
  shows "hoare P (bindT m k) Q"
  unfolding hoare_def
  by (intro allI impI safely_bindT, rule safely_mono [OF hoareD [OF assms(1)]], assumption)
     (auto intro: hoareD [OF assms(2)])

lemma hoare_try:
  assumes "hoare P m W" "\<And>x. hoare (W (Inr x)) (k x) Q"
    and "\<And>e h. stable (W (Inl e) h)" "\<And>e h t. W (Inl e) h t \<Longrightarrow> Q (Inl e) h t"
  shows "hoare P (tryT m k) Q"
  unfolding hoare_def
proof (intro allI impI)
  fix g s assume "P g s"
  note run = hoareD [OF assms(1) this]
  show "safely rely permitted effect (tryT m k g) (\<lambda>(x, h). Q x h) s"
    by (rule safely_tryT, rule safely_mono [OF run])
       (use assms(3,4) in \<open>auto simp: stable_def intro: hoareD [OF assms(2)] split: sum.splits\<close>)
qed

lemma hoare_return:
  assumes "\<And>g. stable (P g)" "\<And>g s. P g s \<Longrightarrow> Q x g s"
  shows "hoare P (retT x) Q"
  using assms by (auto simp: hoare_def retT_def stable_def)

lemma hoare_read:
  assumes "\<And>g. stable (P g)" "\<And>g s. P g s \<Longrightarrow> Q (f g) g s"
  shows "hoare P (getT f) Q"
  using assms by (auto simp: hoare_def getT_def stable_def)

lemma hoare_update:
  assumes "\<And>g. stable (P g)" "\<And>g s. P g s \<Longrightarrow> Q () (f g) s"
  shows "hoare P (setT f) Q"
  using assms by (auto simp: hoare_def setT_def stable_def)

lemma hoare_call:
  assumes "\<And>g. stable (P g)" "\<And>g s. P g s \<Longrightarrow> permitted q s"
    and "\<And>g s r t u. P g s \<Longrightarrow> (r, t) \<in> effect q s \<Longrightarrow> rely t u \<Longrightarrow> Q r g u"
  shows "hoare P (askT q) Q"
  using assms unfolding hoare_def askT_def stable_def by fastforce

lemma hoare_pre: "hoare P m Q \<Longrightarrow> (\<And>g s. W g s \<Longrightarrow> P g s) \<Longrightarrow> hoare W m Q"
  by (auto simp: hoare_def)

lemma hoare_post: "hoare P m Q \<Longrightarrow> (\<And>x g s. Q x g s \<Longrightarrow> W x g s) \<Longrightarrow> hoare P m W"
  unfolding hoare_def by (intro allI impI, rule safely_mono [of _ _ _ _ "\<lambda>(x, h). Q x h"]) auto

lemma hoare_if:
  "(b \<Longrightarrow> hoare P m Q) \<Longrightarrow> (\<not> b \<Longrightarrow> hoare P n Q) \<Longrightarrow> hoare P (if b then m else n) Q"
  by simp

lemma hoare_exists: "(\<And>x. hoare (P x) m Q) \<Longrightarrow> hoare (\<lambda>g s. \<exists>x. P x g s) m Q"
  by (auto simp: hoare_def)

lemma hoare_fact: "(b \<Longrightarrow> hoare P m Q) \<Longrightarrow> hoare (\<lambda>g s. b \<and> P g s) m Q"
  by (auto simp: hoare_def)

lemma hoare_each:
  assumes "\<And>x. x \<in> set xs \<Longrightarrow> hoare P (f x) (\<lambda>r. P)" "\<And>g. stable (P g)"
  shows "hoare P (eachT f xs) (\<lambda>r. P)"
  using assms(1)
proof (induction xs)
  case Nil
  then show ?case by (auto intro: hoare_return assms(2))
next
  case (Cons x xs)
  show ?case unfolding eachT.simps
    by (rule hoare_try [where W = "\<lambda>r. P"]) (use Cons assms(2) in auto)
qed

end

end
