(* ===== verification/Transition_Fs.thy ===== *)
theory Transition_Fs
  imports Go_Task Go_Strings
begin

text \<open>
  The shared machine the guards of \<open>internal/transition\<close> run on: inodes with their \<open>unix.Stat_t\<close>, directory
  entries, open file descriptions with their \<open>flock\<close>, and what a power loss may do to entries that were
  changed since their directory was last synchronised.  \<open>serve\<close> is the answer and the effect of one call of
  the process that owns descriptors under the number \<open>a\<close>; the kernel may refuse any call with an error of its
  own choice.  Device and inode are one number, never reused; \<open>t_maker\<close> is a history variable: who created it.
\<close>

section \<open>Inodes and calls\<close>

datatype file_kind = RegularFile | DirectoryFile | LinkFile | OtherFile

record attrs =
  a_kind :: file_kind
  a_mode :: nat
  a_uid :: nat
  a_gid :: nat
  a_nlink :: nat
  a_size :: nat
  a_mtim :: nat
  a_ctim :: nat

record stat =
  st_ino :: nat
  st_attrs :: attrs

datatype errno = ENOENT | EEXIST | EWOULDBLOCK | EBADF | ENOTDIR | EISDIR | ELOOP | ECANCELED | EOther nat

datatype open_mode = OpenDirectory | OpenWrite | OpenCreate

text \<open>The parent of a name is a descriptor, or \<open>None\<close> for \<open>unix.AT_FDCWD\<close>.\<close>

datatype query =
    QContext
  | QRandom
  | QNamed "nat option" string
  | QOpen "nat option" string open_mode
  | QMkdir "nat option" string
  | QFstat "nat option"
  | QRead "nat option"
  | QReadDir "nat option"
  | QFlock "nat option" bool
  | QSync "nat option"
  | QUnlink "nat option" string
  | QClose "nat option"

datatype answer = AErr errno | AOk | AStat stat | AFd nat | ACount nat | AEnd | AText string

section \<open>The machine\<close>

text \<open>An open file description: its process, descriptor number, inode and \<open>flock\<close> (\<open>Some True\<close> is exclusive).\<close>

record desc =
  d_owner :: nat
  d_fd :: nat
  d_ino :: nat
  d_lock :: "bool option"

record machine =
  t_paths :: "(string \<times> nat) list"
  t_entries :: "((nat \<times> string) \<times> nat) list"
  t_unsynced :: "((nat \<times> string) \<times> nat option) list"
  t_attrs :: "nat \<Rightarrow> attrs"
  t_maker :: "nat \<Rightarrow> nat option"
  t_next :: nat
  t_open :: "desc list"
  t_fds :: nat

record choice =
  ch_fail :: "nat option"
  ch_stamp :: nat
  ch_text :: string
  ch_uid :: nat

definition entry :: "machine \<Rightarrow> nat \<Rightarrow> string \<Rightarrow> nat option" where
  "entry s d n = map_of (t_entries s) (d, n)"

definition logged :: "machine \<Rightarrow> nat \<Rightarrow> string \<Rightarrow> nat option \<Rightarrow> bool" where
  "logged s d n v \<longleftrightarrow> ((d, n), v) \<in> set (t_unsynced s)"

definition desc_of :: "nat \<Rightarrow> machine \<Rightarrow> nat \<Rightarrow> desc option" where
  "desc_of a s fd = find (\<lambda>d. d_owner d = a \<and> d_fd d = fd) (t_open s)"

definition fd_ino :: "nat \<Rightarrow> machine \<Rightarrow> nat option \<Rightarrow> nat option" where
  "fd_ino a s f = Option.bind f (\<lambda>fd. map_option d_ino (desc_of a s fd))"

text \<open>Every change of an entry is logged with the old value until the directory is synchronised.\<close>

definition bind_entry :: "nat \<Rightarrow> string \<Rightarrow> nat \<Rightarrow> machine \<Rightarrow> machine" where
  "bind_entry d n i s = s\<lparr>t_entries := AList.update (d, n) i (t_entries s),
     t_unsynced := ((d, n), entry s d n) # t_unsynced s\<rparr>"

definition drop_entry :: "nat \<Rightarrow> string \<Rightarrow> machine \<Rightarrow> machine" where
  "drop_entry d n s = s\<lparr>t_entries := AList.delete (d, n) (t_entries s),
     t_unsynced := ((d, n), entry s d n) # t_unsynced s\<rparr>"

definition sync_entries :: "nat \<Rightarrow> machine \<Rightarrow> machine" where
  "sync_entries d s = s\<lparr>t_unsynced := filter (\<lambda>e. fst (fst e) \<noteq> d) (t_unsynced s)\<rparr>"

definition set_attrs :: "nat \<Rightarrow> attrs \<Rightarrow> machine \<Rightarrow> machine" where
  "set_attrs i x s = s\<lparr>t_attrs := (t_attrs s)(i := x)\<rparr>"

definition touch :: "nat \<Rightarrow> nat \<Rightarrow> machine \<Rightarrow> machine" where
  "touch i stamp s = set_attrs i ((t_attrs s i)\<lparr>a_mtim := stamp, a_ctim := stamp\<rparr>) s"

definition new_inode :: "nat \<Rightarrow> attrs \<Rightarrow> machine \<Rightarrow> machine" where
  "new_inode a x s = (set_attrs (t_next s) x s)\<lparr>t_next := Suc (t_next s), t_maker := (t_maker s)(t_next s := Some a)\<rparr>"

definition new_desc :: "nat \<Rightarrow> nat \<Rightarrow> machine \<Rightarrow> machine" where
  "new_desc a i s = s\<lparr>t_open := \<lparr>d_owner = a, d_fd = t_fds s, d_ino = i, d_lock = None\<rparr> # t_open s, t_fds := Suc (t_fds s)\<rparr>"

definition close_descs :: "(desc \<Rightarrow> bool) \<Rightarrow> machine \<Rightarrow> machine" where
  "close_descs P s = s\<lparr>t_open := filter (\<lambda>d. \<not> P d) (t_open s)\<rparr>"

definition lock_desc :: "nat \<Rightarrow> nat \<Rightarrow> bool \<Rightarrow> machine \<Rightarrow> machine" where
  "lock_desc a fd x s = s\<lparr>t_open := map (\<lambda>d. if d_owner d = a \<and> d_fd d = fd then d\<lparr>d_lock := Some x\<rparr> else d) (t_open s)\<rparr>"

text \<open>\<open>flock\<close> with \<open>LOCK_NB\<close>: refused when another description of the inode holds an incompatible lock.\<close>

definition contended :: "nat \<Rightarrow> nat \<Rightarrow> nat \<Rightarrow> bool \<Rightarrow> machine \<Rightarrow> bool" where
  "contended a fd i x s = list_ex (\<lambda>d. d_ino d = i \<and> \<not> (d_owner d = a \<and> d_fd d = fd) \<and>
     (case d_lock d of None \<Rightarrow> False | Some y \<Rightarrow> x \<or> y)) (t_open s)"

definition file_attrs :: "choice \<Rightarrow> attrs" where
  "file_attrs c = \<lparr>a_kind = RegularFile, a_mode = 384, a_uid = ch_uid c, a_gid = 0, a_nlink = 1, a_size = 0,
     a_mtim = ch_stamp c, a_ctim = ch_stamp c\<rparr>"

definition directory_attrs :: "choice \<Rightarrow> attrs" where
  "directory_attrs c = \<lparr>a_kind = DirectoryFile, a_mode = 448, a_uid = ch_uid c, a_gid = 0, a_nlink = 2, a_size = 0,
     a_mtim = ch_stamp c, a_ctim = ch_stamp c\<rparr>"

section \<open>Calls\<close>

text \<open>What a name stands for: an error of the parent, an absent entry, or an inode.\<close>

definition resolve :: "nat \<Rightarrow> machine \<Rightarrow> nat option \<Rightarrow> string \<Rightarrow> errno + nat" where
  "resolve a s parent n = (case parent of
       None \<Rightarrow> (case map_of (t_paths s) n of None \<Rightarrow> Inl ENOENT | Some i \<Rightarrow> Inr i)
     | Some fd \<Rightarrow> (case fd_ino a s (Some fd) of None \<Rightarrow> Inl EBADF
         | Some d \<Rightarrow> (case entry s d n of None \<Rightarrow> Inl ENOENT | Some i \<Rightarrow> Inr i)))"

definition openable :: "open_mode \<Rightarrow> file_kind \<Rightarrow> errno option" where
  "openable m k = (case k of
       LinkFile \<Rightarrow> Some ELOOP
     | DirectoryFile \<Rightarrow> if m = OpenDirectory then None else Some EISDIR
     | _ \<Rightarrow> if m = OpenDirectory then Some ENOTDIR else None)"

definition serve_open :: "nat \<Rightarrow> choice \<Rightarrow> nat option \<Rightarrow> string \<Rightarrow> open_mode \<Rightarrow> machine \<Rightarrow> answer \<times> machine" where
  "serve_open a c parent n m s =
    (if m = OpenCreate then (case fd_ino a s parent of
         None \<Rightarrow> (AErr EBADF, s)
       | Some d \<Rightarrow> if entry s d n \<noteq> None then (AErr EEXIST, s)
           else (AFd (t_fds s), new_desc a (t_next s) (new_inode a (file_attrs c)
             (touch d (ch_stamp c) (bind_entry d n (t_next s) s)))))
     else (case resolve a s parent n of
         Inl e \<Rightarrow> (AErr e, s)
       | Inr i \<Rightarrow> (case openable m (a_kind (t_attrs s i)) of
           Some e \<Rightarrow> (AErr e, s)
         | None \<Rightarrow> (AFd (t_fds s), new_desc a i s))))"

definition serve_mkdir :: "nat \<Rightarrow> choice \<Rightarrow> nat option \<Rightarrow> string \<Rightarrow> machine \<Rightarrow> answer \<times> machine" where
  "serve_mkdir a c parent n s = (case fd_ino a s parent of
       None \<Rightarrow> (AErr EBADF, s)
     | Some d \<Rightarrow> if entry s d n \<noteq> None then (AErr EEXIST, s)
         else (AOk, new_inode a (directory_attrs c) (touch d (ch_stamp c) (bind_entry d n (t_next s) s))))"

definition serve_unlink :: "nat \<Rightarrow> choice \<Rightarrow> nat option \<Rightarrow> string \<Rightarrow> machine \<Rightarrow> answer \<times> machine" where
  "serve_unlink a c parent n s = (case fd_ino a s parent of
       None \<Rightarrow> (AErr EBADF, s)
     | Some d \<Rightarrow> (case entry s d n of
         None \<Rightarrow> (AErr ENOENT, s)
       | Some i \<Rightarrow> if a_kind (t_attrs s i) = DirectoryFile then (AErr EISDIR, s)
           else (AOk, touch d (ch_stamp c) (drop_entry d n s))))"

text \<open>A call on a descriptor that is not open fails; the reads of a file see its size, of a directory its first entry.\<close>

definition with_desc :: "nat \<Rightarrow> machine \<Rightarrow> nat option \<Rightarrow> (desc \<Rightarrow> answer \<times> machine) \<Rightarrow> answer \<times> machine" where
  "with_desc a s f k = (case Option.bind f (desc_of a s) of None \<Rightarrow> (AErr EBADF, s) | Some d \<Rightarrow> k d)"

definition serve_call :: "nat \<Rightarrow> choice \<Rightarrow> query \<Rightarrow> machine \<Rightarrow> answer \<times> machine" where
  "serve_call a c q s = (case q of
       QContext \<Rightarrow> (AOk, s)
     | QRandom \<Rightarrow> (AText (ch_text c), s)
     | QNamed parent n \<Rightarrow> (case resolve a s parent n of
         Inl e \<Rightarrow> (AErr e, s)
       | Inr i \<Rightarrow> (AStat \<lparr>st_ino = i, st_attrs = t_attrs s i\<rparr>, s))
     | QOpen parent n m \<Rightarrow> serve_open a c parent n m s
     | QMkdir parent n \<Rightarrow> serve_mkdir a c parent n s
     | QFstat f \<Rightarrow> with_desc a s f (\<lambda>d. (AStat \<lparr>st_ino = d_ino d, st_attrs = t_attrs s (d_ino d)\<rparr>, s))
     | QRead f \<Rightarrow> with_desc a s f (\<lambda>d. (if a_size (t_attrs s (d_ino d)) = 0 then AEnd else ACount 1, s))
     | QReadDir f \<Rightarrow> with_desc a s f (\<lambda>d.
         (if \<not> list_ex (\<lambda>e. fst (fst e) = d_ino d) (t_entries s) then AEnd else ACount 1, s))
     | QFlock f x \<Rightarrow> with_desc a s f (\<lambda>d.
         if contended a (d_fd d) (d_ino d) x s then (AErr EWOULDBLOCK, s) else (AOk, lock_desc a (d_fd d) x s))
     | QSync f \<Rightarrow> with_desc a s f (\<lambda>d. (AOk, sync_entries (d_ino d) s))
     | QUnlink f n \<Rightarrow> serve_unlink a c f n s
     | QClose f \<Rightarrow> with_desc a s f (\<lambda>d. (AOk, close_descs (\<lambda>e. e = d) s)))"

text \<open>
  A refused call has no effect, except that \<open>close\<close> always closes.  A refused \<open>QContext\<close> is a cancelled
  context.
\<close>

definition refusal :: "query \<Rightarrow> nat \<Rightarrow> errno" where
  "refusal q e = (if q = QContext then ECANCELED else EOther e)"

definition serve :: "nat \<Rightarrow> choice \<Rightarrow> query \<Rightarrow> machine \<Rightarrow> answer \<times> machine" where
  "serve a c q s = (case ch_fail c of
       None \<Rightarrow> serve_call a c q s
     | Some e \<Rightarrow> (case q of
         QClose f \<Rightarrow> (AErr (EOther e), snd (serve_call a c q s))
       | QRandom \<Rightarrow> serve_call a c q s
       | _ \<Rightarrow> (AErr (refusal q e), s)))"

text \<open>All answers and effects the kernel may choose.\<close>

definition may_serve :: "nat \<Rightarrow> query \<Rightarrow> machine \<Rightarrow> (answer \<times> machine) set" where
  "may_serve a q s = range (\<lambda>c. serve a c q s)"

section \<open>Other software and power loss\<close>

text \<open>The names of the protocol; other software leaves entries of these names alone.\<close>

definition lockName :: string where
  "lockName = ''runtime-transition.lock''"

definition activityName :: string where
  "activityName = ''runtime-activity''"

definition pendingName :: string where
  "pendingName = ''runtime-publication.pending''"

definition factoryName :: string where
  "factoryName = ''.factory''"

definition is_marker :: "string \<Rightarrow> bool" where
  "is_marker n \<longleftrightarrow> has_prefix ''activity-'' n"

definition reserved :: "string \<Rightarrow> bool" where
  "reserved n \<longleftrightarrow> n = lockName \<or> n = activityName \<or> n = factoryName \<or> is_marker n"

datatype outside =
    OutBind nat string nat
  | OutDrop nat string
  | OutCreate nat string attrs
  | OutAttrs nat attrs
  | OutPath string "nat option"
  | OutSync nat

definition outside_effect :: "outside \<Rightarrow> machine \<Rightarrow> machine" where
  "outside_effect x s = (case x of
       OutBind d n i \<Rightarrow> if reserved n \<or> d \<ge> t_next s \<or> i \<ge> t_next s then s else bind_entry d n i s
     | OutDrop d n \<Rightarrow> if reserved n \<or> d \<ge> t_next s then s else drop_entry d n s
     | OutCreate d n y \<Rightarrow> if reserved n \<or> d \<ge> t_next s then s else
         (set_attrs (t_next s) y (bind_entry d n (t_next s) s))\<lparr>t_next := Suc (t_next s)\<rparr>
     | OutAttrs i y \<Rightarrow> set_attrs i y s
     | OutPath n v \<Rightarrow> s\<lparr>t_paths := (case v of
           None \<Rightarrow> AList.delete n (t_paths s)
         | Some i \<Rightarrow> if i < t_next s then AList.update n i (t_paths s) else t_paths s)\<rparr>
     | OutSync d \<Rightarrow> sync_entries d s)"

text \<open>
  A power loss closes every description and may leave any changed entry at any value it had since its
  directory was last synchronised: \<open>picks\<close> lists the entries the disk has not followed, as logged.
\<close>

definition revert :: "((nat \<times> string) \<times> nat option) \<Rightarrow> machine \<Rightarrow> machine" where
  "revert e s = (if e \<in> set (t_unsynced s) then s\<lparr>t_entries := (case snd e of
       None \<Rightarrow> AList.delete (fst e) (t_entries s)
     | Some i \<Rightarrow> AList.update (fst e) i (t_entries s))\<rparr> else s)"

definition power_loss :: "((nat \<times> string) \<times> nat option) list \<Rightarrow> machine \<Rightarrow> machine" where
  "power_loss picks s = (fold revert picks s)\<lparr>t_unsynced := [], t_open := []\<rparr>"

end
