(* ===== verification/Transition_Guard.thy ===== *)
theory Transition_Guard
  imports Transition_Fs
begin

text \<open>
  The runtime transition guard (\<open>internal/transition/guard.go\<close>).  Each function is a task over the
  \<open>Guard\<close> it builds; every system call of the code is one call of the task.  The collaborators of \<open>ops\<close> are
  the calls they default to.  An \<open>*os.File\<close> is its descriptor number and \<open>nil\<close> is \<open>None\<close>; pointer equality
  of pins is equality of the number the pin was opened under, and the fields \<open>lock\<close>, \<open>activity\<close> and \<open>marker\<close>
  hold copies of their pins.
\<close>

section \<open>Data\<close>

text \<open>Go errors, with the parts of the messages that callers distinguish; \<open>Joined\<close> is \<open>errors.Join\<close>.\<close>

datatype failure =
    Errno errno
  | EndOfFile
  | Unexpected
  | Canceled
  | Message string
  | RecoveryError "failure option" bool
  | RootError "failure option" bool
  | Joined "failure list"

datatype pin_kind = PinDirectory | PinPrivate | PinControl

record pin =
  pId :: nat
  pParent :: "nat option"
  pFile :: "nat option"
  pName :: string
  pStat :: stat
  pKind :: pin_kind

record guard =
  gPins :: "pin list"
  gLock :: "pin option"
  gActivity :: "pin option"
  gMarker :: "pin option"
  gClosed :: bool
  gRecoveryOnly :: bool
  gRootOnly :: bool
  gUid :: nat

type_synonym 'a guarded = "(query, answer, guard, 'a) task"

definition newGuard :: "nat \<Rightarrow> bool \<Rightarrow> bool \<Rightarrow> guard" where
  "newGuard uid recovery rootOnly = \<lparr>gPins = [], gLock = None, gActivity = None, gMarker = None, gClosed = False,
     gRecoveryOnly = recovery, gRootOnly = rootOnly, gUid = uid\<rparr>"

definition storageError :: failure where
  "storageError = Message ''unsafe or unavailable runtime transition storage''"

definition issue :: "guard \<Rightarrow> failure option \<Rightarrow> bool \<Rightarrow> failure" where
  "issue g cause conflict = (if gRootOnly g then RootError cause conflict
     else if gRecoveryOnly g then RecoveryError cause conflict
     else storageError)"

definition joinErrors :: "failure option list \<Rightarrow> failure option" where
  "joinErrors es = (let found = map the (filter (\<lambda>e. e \<noteq> None) es) in if found = [] then None else Some (Joined found))"

definition failure_of :: "failure + 'b \<Rightarrow> failure option" where
  "failure_of r = (case r of Inl e \<Rightarrow> Some e | Inr _ \<Rightarrow> None)"

definition outcome_of :: "failure option \<Rightarrow> failure + unit" where
  "outcome_of e = (case e of Some x \<Rightarrow> Inl x | None \<Rightarrow> Inr ())"

section \<open>Roots and stats\<close>

function trim_root :: "string \<Rightarrow> string" where
  "trim_root path = (if path \<noteq> ''/'' \<and> (has_suffix ''/'' path \<or> has_suffix ''/.'' path)
     then trim_root (if has_suffix ''/.'' path then trim_suffix ''/.'' path else trim_suffix ''/'' path)
     else path)"
  by auto
termination
  by (relation "measure length") (auto simp: has_suffix_def trim_suffix_def)

declare trim_root.simps [simp del]

definition selectedGuardRoot :: "string \<Rightarrow> failure + string" where
  "selectedGuardRoot path =
    (if path = [] \<or> CHR 0x00 \<in> set path then Inl storageError
     else if ''..'' \<in> set (split_on (CHR ''/'') path) then Inl storageError
     else Inr (trim_root path))"

definition safe :: "nat \<Rightarrow> stat \<Rightarrow> pin_kind \<Rightarrow> bool" where
  "safe uid st k = (let x = st_attrs st in
     if a_uid x \<noteq> uid then False
     else if k = PinControl
     then a_kind x = RegularFile \<and> and (a_mode x) 4095 = 384 \<and> a_nlink x = 1 \<and> a_size x = 0
     else a_kind x = DirectoryFile \<and> and (a_mode x) 3602 = 0 \<and> (k \<noteq> PinPrivate \<or> and (a_mode x) 4095 = 448))"

definition same_inode :: "stat \<Rightarrow> stat \<Rightarrow> bool" where
  "same_inode x y \<longleftrightarrow> st_ino x = st_ino y \<and> a_kind (st_attrs x) = a_kind (st_attrs y)"

definition same_mode :: "stat \<Rightarrow> stat \<Rightarrow> bool" where
  "same_mode x y \<longleftrightarrow> a_kind (st_attrs x) = a_kind (st_attrs y) \<and> a_mode (st_attrs x) = a_mode (st_attrs y)"

definition same_times :: "stat \<Rightarrow> stat \<Rightarrow> bool" where
  "same_times x y \<longleftrightarrow> a_mtim (st_attrs x) = a_mtim (st_attrs y) \<and> a_ctim (st_attrs x) = a_ctim (st_attrs y)"

definition unchangedActivity :: "stat \<Rightarrow> stat \<Rightarrow> bool" where
  "unchangedActivity x y \<longleftrightarrow> same_inode x y \<and> same_mode x y \<and> a_uid (st_attrs x) = a_uid (st_attrs y) \<and>
     a_gid (st_attrs x) = a_gid (st_attrs y) \<and> a_nlink (st_attrs x) = a_nlink (st_attrs y) \<and>
     a_size (st_attrs x) = a_size (st_attrs y) \<and> same_times x y"

section \<open>Calls\<close>

text \<open>\<open>ctx.Err()\<close>, and \<open>errors.Join(e, ctx.Err())\<close>.\<close>

definition ctxErr :: "(failure + unit) guarded" where
  "ctxErr = bindT (askT QContext) (\<lambda>r. retT (case r of AErr _ \<Rightarrow> Inl Canceled | _ \<Rightarrow> Inr ()))"

definition joinContext :: "failure \<Rightarrow> (failure + 'a) guarded" where
  "joinContext e = bindT ctxErr (\<lambda>c. retT (Inl (the (joinErrors [Some e, failure_of c]))))"

text \<open>The error of a call that answers nothing else.\<close>

definition plainCall :: "query \<Rightarrow> (failure + unit) guarded" where
  "plainCall q = bindT (askT q) (\<lambda>r. retT (case r of AErr e \<Rightarrow> Inl (Errno e) | _ \<Rightarrow> Inr ()))"

definition statCall :: "query \<Rightarrow> (failure + stat) guarded" where
  "statCall q = bindT (askT q) (\<lambda>r. retT (case r of AErr e \<Rightarrow> Inl (Errno e) | AStat st \<Rightarrow> Inr st | _ \<Rightarrow> Inl Unexpected))"

text \<open>A read of at most one byte or entry: how many there were, and the error.\<close>

definition readCall :: "query \<Rightarrow> (nat \<times> failure option) guarded" where
  "readCall q = bindT (askT q) (\<lambda>r. retT (case r of
       AErr e \<Rightarrow> (0, Some (Errno e))
     | AEnd \<Rightarrow> (0, Some EndOfFile)
     | ACount n \<Rightarrow> (n, None)
     | _ \<Rightarrow> (0, Some Unexpected)))"

definition named :: "nat option \<Rightarrow> string \<Rightarrow> (failure + stat) guarded" where
  "named parent name = tryT ctxErr (\<lambda>_. statCall (QNamed parent name))"

definition openAt :: "nat option \<Rightarrow> string \<Rightarrow> open_mode \<Rightarrow> (failure + nat) guarded" where
  "openAt parent name mode = tryT ctxErr (\<lambda>_. bindT (askT (QOpen parent name mode)) (\<lambda>r. retT (case r of
       AErr e \<Rightarrow> Inl (Errno e) | AFd fd \<Rightarrow> Inr fd | _ \<Rightarrow> Inl Unexpected)))"

section \<open>Revalidation\<close>

definition is_activity :: "guard \<Rightarrow> pin \<Rightarrow> bool" where
  "is_activity g p \<longleftrightarrow> (case gActivity g of None \<Rightarrow> False | Some x \<Rightarrow> pId x = pId p)"

definition refuse :: "failure option \<Rightarrow> bool \<Rightarrow> (failure + 'a) guarded" where
  "refuse cause conflict = bindT (getT (\<lambda>g. issue g cause conflict)) (\<lambda>e. retT (Inl e))"

definition refuseJoined :: "failure option \<Rightarrow> bool \<Rightarrow> (failure + 'a) guarded" where
  "refuseJoined cause conflict = bindT (getT (\<lambda>g. issue g cause conflict)) (\<lambda>e. joinContext e)"

definition checkEmpty :: "pin \<Rightarrow> (failure + unit) guarded" where
  "checkEmpty p = (if pKind p \<noteq> PinControl then retT (Inr ()) else
     bindT (readCall (QRead (pFile p))) (\<lambda>(n, e).
       if n \<noteq> 0 then refuseJoined None True
       else if e \<noteq> Some EndOfFile then refuseJoined e False
       else retT (Inr ())))"

definition checkPin :: "pin \<Rightarrow> (failure + unit) guarded" where
  "checkPin p = bindT (named (pParent p) (pName p)) (\<lambda>r. case r of
       Inl e \<Rightarrow> refuseJoined (Some e) False
     | Inr current \<Rightarrow> bindT (getT id) (\<lambda>g.
         if \<not> safe (gUid g) current (pKind p) \<or> \<not> same_inode current (pStat p) then refuseJoined None True
         else if gRecoveryOnly g \<and> is_activity g p \<and> \<not> unchangedActivity (pStat p) current then refuse None True
         else if pFile p = None then retT (Inr ())
         else bindT (statCall (QFstat (pFile p))) (\<lambda>r. case r of
             Inl e \<Rightarrow> refuse (Some e) False
           | Inr descriptor \<Rightarrow>
               if \<not> safe (gUid g) descriptor (pKind p) \<or> \<not> same_inode current descriptor then refuse None True
               else if gRecoveryOnly g \<and> is_activity g p \<and> \<not> unchangedActivity (pStat p) descriptor then refuse None True
               else checkEmpty p)))"

definition check :: "(failure + unit) guarded" where
  "check = tryT ctxErr (\<lambda>_. bindT (getT gPins) (\<lambda>ps. tryT (eachT checkPin ps) (\<lambda>_. ctxErr)))"

section \<open>Pins\<close>

definition addPin :: "pin \<Rightarrow> guard \<Rightarrow> guard" where
  "addPin p g = g\<lparr>gPins := gPins g @ [p]\<rparr>"

definition existing :: "nat option \<Rightarrow> string \<Rightarrow> pin_kind \<Rightarrow> (failure + pin) guarded" where
  "existing parent name k = bindT (named parent name) (\<lambda>r. case r of
       Inl e \<Rightarrow> refuseJoined (Some e) False
     | Inr earlier \<Rightarrow> bindT (getT gUid) (\<lambda>uid.
         if \<not> safe uid earlier k then refuseJoined None True
         else bindT (openAt parent name (if k = PinControl then OpenWrite else OpenDirectory)) (\<lambda>r. case r of
             Inl e \<Rightarrow> refuseJoined (Some e) False
           | Inr fd \<Rightarrow> (let p = \<lparr>pId = fd, pParent = parent, pFile = Some fd, pName = name, pStat = earlier, pKind = k\<rparr> in
               bindT (setT (addPin p)) (\<lambda>_. tryT check (\<lambda>_. retT (Inr p)))))))"

definition made_directory :: "pin \<Rightarrow> string \<Rightarrow> bool \<Rightarrow> (failure + pin) guarded" where
  "made_directory parent name priv = existing (pFile parent) name (if priv then PinPrivate else PinDirectory)"

definition directory :: "pin \<Rightarrow> string \<Rightarrow> bool \<Rightarrow> (failure + pin) guarded" where
  "directory parent name priv = tryT check (\<lambda>_. bindT (named (pFile parent) name) (\<lambda>r. case r of
       Inr _ \<Rightarrow> made_directory parent name priv
     | Inl e \<Rightarrow> if e = Errno ENOENT
         then bindT (plainCall (QMkdir (pFile parent) name)) (\<lambda>m. case m of
             Inl x \<Rightarrow> if x = Errno EEXIST then made_directory parent name priv else retT (Inl storageError)
           | Inr _ \<Rightarrow> made_directory parent name priv)
         else joinContext storageError))"

text \<open>\<open>unix.Fstat\<close> fails with a zero stat: the pin keeps it, as the code appends before it looks at the error.\<close>

definition zero_stat :: stat where
  "zero_stat = \<lparr>st_ino = 0, st_attrs = \<lparr>a_kind = OtherFile, a_mode = 0, a_uid = 0, a_gid = 0, a_nlink = 0, a_size = 0,
     a_mtim = 0, a_ctim = 0\<rparr>\<rparr>"

definition control :: "pin \<Rightarrow> string \<Rightarrow> bool \<Rightarrow> (failure + pin) guarded" where
  "control parent name reuse = tryT check (\<lambda>_. bindT (openAt (pFile parent) name OpenCreate) (\<lambda>r. case r of
       Inl e \<Rightarrow> if e = Errno EEXIST \<and> reuse then existing (pFile parent) name PinControl else joinContext storageError
     | Inr fd \<Rightarrow> bindT (statCall (QFstat (Some fd))) (\<lambda>f.
         (let st = (case f of Inl _ \<Rightarrow> zero_stat | Inr st \<Rightarrow> st);
              p = \<lparr>pId = fd, pParent = pFile parent, pFile = Some fd, pName = name, pStat = st, pKind = PinControl\<rparr>
          in bindT (setT (addPin p)) (\<lambda>_. bindT (getT gUid) (\<lambda>uid.
               if failure_of f \<noteq> None \<or> \<not> safe uid st PinControl then retT (Inl storageError)
               else tryT check (\<lambda>_. retT (Inr p))))))))"

definition pendingAbsent :: "pin \<Rightarrow> (failure + unit) guarded" where
  "pendingAbsent state = bindT (named (pFile state) pendingName) (\<lambda>r.
     if r = Inl (Errno ENOENT) then ctxErr
     else joinContext (Message ''runtime publication is pending or cannot be inspected''))"

definition lockFile :: "guard \<Rightarrow> nat option" where
  "lockFile g = Option.bind (gLock g) pFile"

definition flockGuard :: "bool \<Rightarrow> (failure + unit) guarded" where
  "flockGuard exclusive = tryT check (\<lambda>_. bindT (getT id) (\<lambda>g.
     bindT (plainCall (QFlock (lockFile g) exclusive)) (\<lambda>r. case r of
         Inl e \<Rightarrow> if gRecoveryOnly g \<or> gRootOnly g then refuse (Some e) (e = Errno EWOULDBLOCK)
           else retT (Inl (Message ''runtime transition is locked or unavailable''))
       | Inr _ \<Rightarrow> check)))"

definition syncFile :: "nat option \<Rightarrow> (failure + unit) guarded" where
  "syncFile f = tryT check (\<lambda>_. bindT (plainCall (QSync f)) (\<lambda>r. case r of
       Inl _ \<Rightarrow> joinContext (Message ''cannot sync runtime transition storage'')
     | Inr _ \<Rightarrow> check))"

section \<open>Closing\<close>

definition clear_file :: "nat \<Rightarrow> guard \<Rightarrow> guard" where
  "clear_file i g = g\<lparr>gPins := map (\<lambda>p. if pId p = i then p\<lparr>pFile := None\<rparr> else p) (gPins g)\<rparr>"

primrec closeEach :: "pin list \<Rightarrow> failure list \<Rightarrow> failure list guarded" where
  "closeEach [] es = retT es"
| "closeEach (p # ps) es = (if pFile p = None then closeEach ps es
     else bindT (plainCall (QClose (pFile p))) (\<lambda>r. bindT (setT (clear_file (pId p))) (\<lambda>_.
       closeEach ps (case r of Inl e \<Rightarrow> es @ [e] | Inr _ \<Rightarrow> es))))"

definition closeFiles :: "failure option guarded" where
  "closeFiles = bindT (setT (\<lambda>g. g\<lparr>gClosed := True\<rparr>)) (\<lambda>_. bindT (getT id) (\<lambda>g.
     bindT (closeEach (rev (gPins g)) []) (\<lambda>es. retT (if es = [] then None
       else if gRecoveryOnly g \<or> gRootOnly g then Some (issue g (joinErrors (map Some es)) False)
       else Some (Message ''cannot close runtime transition storage'')))))"

definition drop_marker :: "guard \<Rightarrow> guard" where
  "drop_marker g = g\<lparr>gPins := butlast (gPins g)\<rparr>"

definition retireMarker :: "pin \<Rightarrow> (failure + unit) guarded" where
  "retireMarker m = bindT (plainCall (QClose (pFile m))) (\<lambda>r. bindT (setT (clear_file (pId m))) (\<lambda>_. case r of
       Inl _ \<Rightarrow> retT (Inl (Message ''cannot close runtime activity marker''))
     | Inr _ \<Rightarrow> tryT check (\<lambda>_. bindT (getT (\<lambda>g. Option.bind (gActivity g) pFile)) (\<lambda>f.
         bindT (plainCall (QUnlink f (pName m))) (\<lambda>r. case r of
             Inl _ \<Rightarrow> joinContext (Message ''cannot remove runtime activity marker'')
           | Inr _ \<Rightarrow> bindT (setT drop_marker) (\<lambda>_. syncFile f))))))"

definition closeBody :: "bool \<Rightarrow> (failure + unit) guarded" where
  "closeBody clean = tryT check (\<lambda>_. bindT (getT gMarker) (\<lambda>m. case m of
       None \<Rightarrow> retT (Inr ())
     | Some p \<Rightarrow> if \<not> clean then retT (Inr ()) else retireMarker p))"

definition closeGuard :: "bool \<Rightarrow> failure option guarded" where
  "closeGuard clean = bindT (getT gClosed) (\<lambda>closed. if closed then retT (Some storageError)
     else bindT (closeBody clean) (\<lambda>r. bindT closeFiles (\<lambda>c. retT (joinErrors [failure_of r, c]))))"

definition checkGuard :: "failure option guarded" where
  "checkGuard = bindT (getT gClosed) (\<lambda>closed. if closed then retT (Some storageError)
     else bindT check (\<lambda>r. retT (failure_of r)))"

section \<open>Acquisition\<close>

text \<open>The deferred clean-up of an acquisition that returns no guard: its files are closed on every path.\<close>

definition releasing :: "(failure option \<Rightarrow> failure option \<Rightarrow> failure option) \<Rightarrow> (failure + 'a) guarded \<Rightarrow> (failure + 'a) guarded" where
  "releasing combine m = bindT m (\<lambda>r. case r of
       Inr x \<Rightarrow> retT (Inr x)
     | Inl e \<Rightarrow> bindT closeFiles (\<lambda>c. retT (Inl (the (combine (Some e) c)))))"

definition no_activity :: "(failure + unit) guarded" where
  "no_activity = bindT (getT (\<lambda>g. Option.bind (gActivity g) pFile)) (\<lambda>f. bindT (readCall (QReadDir f)) (\<lambda>(n, e).
     if n \<noteq> 0 \<or> (e \<noteq> None \<and> e \<noteq> Some EndOfFile)
     then retT (Inl (Message ''runtime activity remains or cannot be inspected'')) else retT (Inr ())))"

definition mark_activity :: "pin \<Rightarrow> (failure + unit) guarded" where
  "mark_activity activity = bindT (askT QRandom) (\<lambda>r. tryT (control activity (''activity-'' @ (case r of AText t \<Rightarrow> t | _ \<Rightarrow> [])) False) (\<lambda>m.
     bindT (setT (\<lambda>g. g\<lparr>gMarker := Some m\<rparr>)) (\<lambda>_. syncFile (pFile m))))"

definition settle :: "pin \<Rightarrow> pin \<Rightarrow> pin \<Rightarrow> (failure + unit) guarded" where
  "settle project state activity = bindT (getT lockFile) (\<lambda>f. tryT (syncFile f) (\<lambda>_.
     tryT (eachT (\<lambda>p. syncFile (pFile p)) [activity, state, project]) (\<lambda>_.
     tryT check (\<lambda>_. pendingAbsent state))))"

definition acquireBody :: "string \<Rightarrow> bool \<Rightarrow> (failure + unit) guarded" where
  "acquireBody path exclusive =
     tryT (existing None path PinDirectory) (\<lambda>project.
     tryT (directory project factoryName False) (\<lambda>state.
     tryT (control state lockName True) (\<lambda>lock.
     bindT (setT (\<lambda>g. g\<lparr>gLock := Some lock\<rparr>)) (\<lambda>_.
     tryT (flockGuard exclusive) (\<lambda>_.
     tryT (pendingAbsent state) (\<lambda>_.
     tryT (directory state activityName True) (\<lambda>activity.
     bindT (setT (\<lambda>g. g\<lparr>gActivity := Some activity\<rparr>)) (\<lambda>_.
     tryT (if exclusive then no_activity else mark_activity activity) (\<lambda>_.
     settle project state activity)))))))))"

definition acquire :: "string \<Rightarrow> bool \<Rightarrow> (failure + unit) guarded" where
  "acquire path exclusive = (case selectedGuardRoot path of
       Inl e \<Rightarrow> retT (Inl e)
     | Inr selected \<Rightarrow> releasing (\<lambda>e c. joinErrors [e, c]) (acquireBody selected exclusive))"

section \<open>Acquisition for recovery and preparation\<close>

definition recovery_empty :: "(failure + unit) guarded" where
  "recovery_empty = bindT (getT (\<lambda>g. Option.bind (gActivity g) pFile)) (\<lambda>f. bindT (readCall (QReadDir f)) (\<lambda>(n, e).
     if e \<noteq> None \<and> e \<noteq> Some EndOfFile then refuse e False
     else if n \<noteq> 0 then refuse None True
     else retT (Inr ())))"

definition drop_pin :: "guard \<Rightarrow> guard" where
  "drop_pin g = g\<lparr>gPins := butlast (gPins g)\<rparr>"

definition pending_unchanged :: "guard \<Rightarrow> stat \<Rightarrow> stat \<Rightarrow> bool" where
  "pending_unchanged g current earlier \<longleftrightarrow> safe (gUid g) current PinControl \<and> same_inode current earlier \<and>
     same_mode current earlier \<and> a_gid (st_attrs current) = a_gid (st_attrs earlier) \<and> same_times current earlier"

definition qualify_pending :: "pin \<Rightarrow> (failure + unit) guarded" where
  "qualify_pending state = tryT (existing (pFile state) pendingName PinControl) (\<lambda>pending.
     bindT (plainCall (QClose (pFile pending))) (\<lambda>r. case r of
         Inl e \<Rightarrow> refuse (Some e) False
       | Inr _ \<Rightarrow> bindT (setT drop_pin) (\<lambda>_. bindT (named (pFile state) pendingName) (\<lambda>r. case r of
             Inl e \<Rightarrow> refuse (Some e) False
           | Inr current \<Rightarrow> bindT (getT id) (\<lambda>g.
               if \<not> pending_unchanged g current (pStat pending) then refuse None True else check)))))"

definition require_absent :: "pin \<Rightarrow> (failure + unit) guarded" where
  "require_absent state = bindT (named (pFile state) pendingName) (\<lambda>r.
     if r = Inl (Errno ENOENT) then check else refuse (failure_of r) (failure_of r = None))"

definition recoveryBody :: "string \<Rightarrow> bool \<Rightarrow> (failure + unit) guarded" where
  "recoveryBody path requirePending =
     tryT (existing None path PinDirectory) (\<lambda>project.
     tryT (existing (pFile project) factoryName PinDirectory) (\<lambda>state.
     tryT (existing (pFile state) lockName PinControl) (\<lambda>lock.
     bindT (setT (\<lambda>g. g\<lparr>gLock := Some lock\<rparr>)) (\<lambda>_.
     tryT (existing (pFile state) activityName PinPrivate) (\<lambda>activity.
     bindT (setT (\<lambda>g. g\<lparr>gActivity := Some activity\<rparr>)) (\<lambda>_.
     tryT (flockGuard True) (\<lambda>_.
     tryT recovery_empty (\<lambda>_.
     if requirePending then qualify_pending state else require_absent state))))))))"

definition acquireRecoveryFor :: "string \<Rightarrow> bool \<Rightarrow> (failure + unit) guarded" where
  "acquireRecoveryFor path requirePending = (case selectedGuardRoot path of
       Inl _ \<Rightarrow> retT (Inl (RecoveryError None True))
     | Inr selected \<Rightarrow> releasing (\<lambda>e c. joinErrors [c, e]) (recoveryBody selected requirePending))"

section \<open>The root lease\<close>

text \<open>\<open>internal/transition/root_lease.go\<close>: a \<open>flock\<close> on the project directory itself.\<close>

record lease =
  lRoot :: pin
  lFactory :: "pin option"
  lReadOnly :: bool

definition leaseCheck :: "lease \<Rightarrow> (failure + unit) guarded" where
  "leaseCheck l = tryT check (\<lambda>_. if \<not> lReadOnly l then retT (Inr ())
     else (case lFactory l of
         None \<Rightarrow> bindT (named (pFile (lRoot l)) factoryName) (\<lambda>r.
           if r = Inl (Errno ENOENT) then ctxErr else refuse (failure_of r) (failure_of r = None))
       | Some f \<Rightarrow> bindT (named (pFile f) pendingName) (\<lambda>r.
           if r = Inl (Errno ENOENT) then ctxErr else refuse (failure_of r) (failure_of r = None))))"

definition leaseFactory :: "pin \<Rightarrow> (failure + pin option) guarded" where
  "leaseFactory project = bindT (named (pFile project) factoryName) (\<lambda>r. case r of
       Inl e \<Rightarrow> if e = Errno ENOENT then retT (Inr None) else refuse (Some e) False
     | Inr _ \<Rightarrow> tryT (existing (pFile project) factoryName PinDirectory) (\<lambda>f. retT (Inr (Some f))))"

definition leaseBody :: "string \<Rightarrow> bool \<Rightarrow> (failure + lease) guarded" where
  "leaseBody path exclusive =
     tryT (existing None path PinDirectory) (\<lambda>project.
     bindT (setT (\<lambda>g. g\<lparr>gLock := Some project\<rparr>)) (\<lambda>_.
     tryT (flockGuard exclusive) (\<lambda>_.
     tryT (if exclusive then retT (Inr None) else leaseFactory project) (\<lambda>f.
     (let l = \<lparr>lRoot = project, lFactory = f, lReadOnly = \<not> exclusive\<rparr> in
      tryT (leaseCheck l) (\<lambda>_. retT (Inr l)))))))"

definition rootLease :: "string \<Rightarrow> bool \<Rightarrow> (failure + lease) guarded" where
  "rootLease path exclusive = (case selectedGuardRoot path of
       Inl e \<Rightarrow> retT (Inl e)
     | Inr selected \<Rightarrow> releasing (\<lambda>e c. joinErrors [e, c]) (leaseBody selected exclusive))"

definition checkLease :: "lease \<Rightarrow> failure option guarded" where
  "checkLease l = bindT (getT gClosed) (\<lambda>closed. if closed then retT (Some storageError)
     else bindT (leaseCheck l) (\<lambda>r. retT (failure_of r)))"

definition closeLease :: "failure option guarded" where
  "closeLease = bindT (getT gClosed) (\<lambda>closed. if closed then retT (Some storageError)
     else bindT closeFiles (\<lambda>c. bindT ctxErr (\<lambda>x. retT (joinErrors [c, failure_of x]))))"

end
