(* ===== verification/Transition_System.thy ===== *)
theory Transition_System
  imports Transition_Guard
begin

text \<open>
  Several processes using the guards of \<open>internal/transition\<close> on one machine.  An agent is one acquisition
  with the guard it returns; a process that holds several guards is several agents.  A schedule is a list of
  events: an agent starts, makes its next system call, revalidates or closes its guard, or crashes; other
  software changes the machine; the machine loses power.  \<open>s_active\<close> is a history variable: the shared guards
  that were granted and whose holder has not yet closed them as clean, each with its project directory and the
  name of its marker.
\<close>

datatype request = Shared | Exclusive | ExclusiveRecovery | ExclusivePreparation | ReadOnly | RootExclusive

record holding =
  hGuard :: guard
  hLease :: "lease option"

datatype agent =
    isIdle: Idle
  | Acquiring request "(query, answer, failure + holding) prog"
  | Held request holding
  | Checking request holding "(query, answer, failure option \<times> guard) prog"
  | Closing request bool "(query, answer, failure option) prog"
  | Refused failure
  | Released request bool "failure option"
  | Crashed

record system =
  s_machine :: machine
  s_agents :: "nat \<Rightarrow> agent"
  s_active :: "(nat \<times> nat \<times> string) list"

section \<open>The operations of the package as programs\<close>

definition granting :: "(failure + lease option) guarded \<Rightarrow> guard \<Rightarrow> (query, answer, failure + holding) prog" where
  "granting m g = bindP (m g) (\<lambda>(r, h). Done (case r of
     Inl e \<Rightarrow> Inl e | Inr l \<Rightarrow> Inr \<lparr>hGuard = h, hLease = l\<rparr>))"

definition guard_task :: "(failure + unit) guarded \<Rightarrow> (failure + lease option) guarded" where
  "guard_task m = tryT m (\<lambda>_. retT (Inr None))"

definition lease_task :: "(failure + lease) guarded \<Rightarrow> (failure + lease option) guarded" where
  "lease_task m = tryT m (\<lambda>l. retT (Inr (Some l)))"

definition acquisition :: "request \<Rightarrow> nat \<Rightarrow> string \<Rightarrow> (query, answer, failure + holding) prog" where
  "acquisition r uid path = (case r of
       Shared \<Rightarrow> granting (guard_task (acquire path False)) (newGuard uid False False)
     | Exclusive \<Rightarrow> granting (guard_task (acquire path True)) (newGuard uid False False)
     | ExclusiveRecovery \<Rightarrow> granting (guard_task (acquireRecoveryFor path True)) (newGuard uid True False)
     | ExclusivePreparation \<Rightarrow> granting (guard_task (acquireRecoveryFor path False)) (newGuard uid True False)
     | ReadOnly \<Rightarrow> granting (lease_task (rootLease path False)) (newGuard uid False True)
     | RootExclusive \<Rightarrow> granting (lease_task (rootLease path True)) (newGuard uid False True))"

definition revalidation :: "holding \<Rightarrow> (query, answer, failure option \<times> guard) prog" where
  "revalidation h = (case hLease h of None \<Rightarrow> checkGuard (hGuard h) | Some l \<Rightarrow> checkLease l (hGuard h))"

definition release :: "holding \<Rightarrow> bool \<Rightarrow> (query, answer, failure option) prog" where
  "release h clean = bindP ((case hLease h of None \<Rightarrow> closeGuard clean | Some _ \<Rightarrow> closeLease) (hGuard h))
     (\<lambda>(r, g). Done r)"

section \<open>Steps\<close>

definition root_ino :: "nat \<Rightarrow> machine \<Rightarrow> holding \<Rightarrow> nat option" where
  "root_ino a m h = (case gPins (hGuard h) of [] \<Rightarrow> None | p # _ \<Rightarrow> fd_ino a m (pFile p))"

definition evidence :: "nat \<Rightarrow> machine \<Rightarrow> request \<Rightarrow> holding \<Rightarrow> (nat \<times> nat \<times> string) list" where
  "evidence a m r h = (if r \<noteq> Shared then [] else (case (root_ino a m h, gMarker (hGuard h)) of
       (Some p, Some k) \<Rightarrow> [(a, p, pName k)]
     | _ \<Rightarrow> []))"

definition set_agent :: "nat \<Rightarrow> agent \<Rightarrow> system \<Rightarrow> system" where
  "set_agent a x s = s\<lparr>s_agents := (s_agents s)(a := x)\<rparr>"

definition serving :: "nat \<Rightarrow> choice \<Rightarrow> query \<Rightarrow> (answer \<Rightarrow> agent) \<Rightarrow> system \<Rightarrow> system" where
  "serving a c q k s = (case serve a c q (s_machine s) of (r, m) \<Rightarrow> set_agent a (k r) (s\<lparr>s_machine := m\<rparr>))"

definition proceed :: "nat \<Rightarrow> choice \<Rightarrow> system \<Rightarrow> system" where
  "proceed a c s = (case s_agents s a of
       Acquiring r (Call q k) \<Rightarrow> serving a c q (\<lambda>x. Acquiring r (k x)) s
     | Acquiring r (Done (Inl e)) \<Rightarrow> set_agent a (Refused e) s
     | Acquiring r (Done (Inr h)) \<Rightarrow> set_agent a (Held r h) (s\<lparr>s_active := evidence a (s_machine s) r h @ s_active s\<rparr>)
     | Checking r h (Call q k) \<Rightarrow> serving a c q (\<lambda>x. Checking r h (k x)) s
     | Checking r h (Done (e, g)) \<Rightarrow> set_agent a (Held r (h\<lparr>hGuard := g\<rparr>)) s
     | Closing r clean (Call q k) \<Rightarrow> serving a c q (\<lambda>x. Closing r clean (k x)) s
     | Closing r clean (Done e) \<Rightarrow> set_agent a (Released r clean e) s
     | _ \<Rightarrow> s)"

datatype event =
    Begin nat request nat string
  | Turn nat choice
  | Recheck nat
  | Release nat bool
  | Crash nat
  | Power "((nat \<times> string) \<times> nat option) list"
  | Outside outside

definition turn :: "event \<Rightarrow> system \<Rightarrow> system" where
  "turn x s = (case x of
       Begin a r uid path \<Rightarrow> if isIdle (s_agents s a) then set_agent a (Acquiring r (acquisition r uid path)) s else s
     | Turn a c \<Rightarrow> proceed a c s
     | Recheck a \<Rightarrow> (case s_agents s a of
         Held r h \<Rightarrow> set_agent a (Checking r h (revalidation h)) s
       | _ \<Rightarrow> s)
     | Release a clean \<Rightarrow> (case s_agents s a of
         Held r h \<Rightarrow> set_agent a (Closing r clean (release h clean))
           (if clean then s\<lparr>s_active := filter (\<lambda>e. fst e \<noteq> a) (s_active s)\<rparr> else s)
       | _ \<Rightarrow> s)
     | Crash a \<Rightarrow> if isIdle (s_agents s a) then s
         else set_agent a Crashed (s\<lparr>s_machine := close_descs (\<lambda>d. d_owner d = a) (s_machine s)\<rparr>)
     | Power picks \<Rightarrow> s\<lparr>s_machine := power_loss picks (s_machine s),
         s_agents := (\<lambda>a. if isIdle (s_agents s a) then Idle else Crashed)\<rparr>
     | Outside y \<Rightarrow> s\<lparr>s_machine := outside_effect y (s_machine s)\<rparr>)"

text \<open>A machine nobody uses yet: its entries bind existing inodes in existing directories, with one parent per activity directory.\<close>

definition one_parent :: "machine \<Rightarrow> bool" where
  "one_parent m \<longleftrightarrow> (\<forall>e \<in> set (t_entries m). \<forall>f \<in> set (t_entries m).
     snd (fst e) = activityName \<and> snd (fst f) = activityName \<and> snd e = snd f \<longrightarrow> fst e = fst f)"

definition fresh_machine :: "machine \<Rightarrow> bool" where
  "fresh_machine m \<longleftrightarrow> t_open m = [] \<and> t_unsynced m = [] \<and>
     distinct (map fst (t_entries m)) \<and>
     list_all (\<lambda>e. fst (fst e) < t_next m \<and> snd e < t_next m) (t_entries m) \<and> list_all (\<lambda>e. snd e < t_next m) (t_paths m) \<and>
     t_maker m = (\<lambda>_. None) \<and> one_parent m"

definition boot :: "machine \<Rightarrow> system" where
  "boot m = \<lparr>s_machine = m, s_agents = (\<lambda>_. Idle), s_active = []\<rparr>"

definition execute :: "event list \<Rightarrow> machine \<Rightarrow> system" where
  "execute events m = fold turn events (boot m)"

end
