(* ===== verification/Transition_Rely.thy ===== *)
theory Transition_Rely
  imports Transition_System
begin

text \<open>
  What the guards rely on and guarantee.  \<open>machine_ok\<close> is the invariant of the machine; \<open>rely a\<close> is what every
  step that is not agent \<open>a\<close>'s own preserves: \<open>a\<close>'s descriptors and locks, the entries of the protocol (its
  own markers among them) and their durability, an activity directory that \<open>a\<close> has seen empty under the
  exclusive lock, and that nobody else leaves a marker \<open>a\<close> made.  \<open>permitted\<close> is the discipline of the calls;
  the lemma \<open>served\<close> says that a permitted call of one agent is within the rely of every other.
\<close>

named_theorems machine_simps \<open>reading a machine after an elementary change\<close>

lemma entry_simps [machine_simps]:
  "entry (bind_entry d n i s) e m = (if e = d \<and> m = n then Some i else entry s e m)"
  "entry (drop_entry d n s) e m = (if e = d \<and> m = n then None else entry s e m)"
  "entry (sync_entries d s) e m = entry s e m"
  "entry (set_attrs j x s) e m = entry s e m"
  "entry (touch j c s) e m = entry s e m"
  "entry (new_inode a x s) e m = entry s e m"
  "entry (new_desc a j s) e m = entry s e m"
  "entry (close_descs P s) e m = entry s e m"
  "entry (lock_desc a fd b s) e m = entry s e m"
  by (auto simp: entry_def bind_entry_def drop_entry_def sync_entries_def set_attrs_def touch_def new_inode_def
      new_desc_def close_descs_def lock_desc_def update_conv' delete_conv')

lemma logged_simps [machine_simps]:
  "logged (bind_entry d n i s) e m v \<longleftrightarrow> e = d \<and> m = n \<and> v = entry s d n \<or> logged s e m v"
  "logged (drop_entry d n s) e m v \<longleftrightarrow> e = d \<and> m = n \<and> v = entry s d n \<or> logged s e m v"
  "logged (sync_entries d s) e m v \<longleftrightarrow> e \<noteq> d \<and> logged s e m v"
  "logged (set_attrs j x s) e m v = logged s e m v"
  "logged (touch j c s) e m v = logged s e m v"
  "logged (new_inode a x s) e m v = logged s e m v"
  "logged (new_desc a j s) e m v = logged s e m v"
  "logged (close_descs P s) e m v = logged s e m v"
  "logged (lock_desc a fd b s) e m v = logged s e m v"
  by (auto simp: logged_def bind_entry_def drop_entry_def sync_entries_def set_attrs_def touch_def new_inode_def
      new_desc_def close_descs_def lock_desc_def)

lemma next_simps [machine_simps]:
  "t_next (bind_entry d n i s) = t_next s" "t_next (drop_entry d n s) = t_next s"
  "t_next (sync_entries d s) = t_next s" "t_next (set_attrs j x s) = t_next s" "t_next (touch j c s) = t_next s"
  "t_next (new_inode a x s) = Suc (t_next s)" "t_next (new_desc a j s) = t_next s"
  "t_next (close_descs P s) = t_next s" "t_next (lock_desc a fd b s) = t_next s"
  by (simp_all add: bind_entry_def drop_entry_def sync_entries_def set_attrs_def touch_def new_inode_def
      new_desc_def close_descs_def lock_desc_def)

lemma maker_simps [machine_simps]:
  "t_maker (bind_entry d n i s) = t_maker s" "t_maker (drop_entry d n s) = t_maker s"
  "t_maker (sync_entries d s) = t_maker s" "t_maker (set_attrs j x s) = t_maker s" "t_maker (touch j c s) = t_maker s"
  "t_maker (new_inode a x s) = (t_maker s)(t_next s := Some a)" "t_maker (new_desc a j s) = t_maker s"
  "t_maker (close_descs P s) = t_maker s" "t_maker (lock_desc a fd b s) = t_maker s"
  by (simp_all add: bind_entry_def drop_entry_def sync_entries_def set_attrs_def touch_def new_inode_def
      new_desc_def close_descs_def lock_desc_def)

lemma open_simps [machine_simps]:
  "t_open (bind_entry d n i s) = t_open s" "t_open (drop_entry d n s) = t_open s"
  "t_open (sync_entries d s) = t_open s" "t_open (set_attrs j x s) = t_open s" "t_open (touch j c s) = t_open s"
  "t_open (new_inode a x s) = t_open s"
  "t_open (new_desc a j s) = \<lparr>d_owner = a, d_fd = t_fds s, d_ino = j, d_lock = None\<rparr> # t_open s"
  "t_open (close_descs P s) = filter (\<lambda>d. \<not> P d) (t_open s)"
  "t_open (lock_desc a fd b s) = map (\<lambda>d. if d_owner d = a \<and> d_fd d = fd then d\<lparr>d_lock := Some b\<rparr> else d) (t_open s)"
  by (simp_all add: bind_entry_def drop_entry_def sync_entries_def set_attrs_def touch_def new_inode_def
      new_desc_def close_descs_def lock_desc_def)

lemma fds_simps [machine_simps]:
  "t_fds (bind_entry d n i s) = t_fds s" "t_fds (drop_entry d n s) = t_fds s"
  "t_fds (sync_entries d s) = t_fds s" "t_fds (set_attrs j x s) = t_fds s" "t_fds (touch j c s) = t_fds s"
  "t_fds (new_inode a x s) = t_fds s" "t_fds (new_desc a j s) = Suc (t_fds s)"
  "t_fds (close_descs P s) = t_fds s" "t_fds (lock_desc a fd b s) = t_fds s"
  by (simp_all add: bind_entry_def drop_entry_def sync_entries_def set_attrs_def touch_def new_inode_def
      new_desc_def close_descs_def lock_desc_def)

lemma paths_simps [machine_simps]:
  "t_paths (bind_entry d n i s) = t_paths s" "t_paths (drop_entry d n s) = t_paths s"
  "t_paths (sync_entries d s) = t_paths s" "t_paths (set_attrs j x s) = t_paths s" "t_paths (touch j c s) = t_paths s"
  "t_paths (new_inode a x s) = t_paths s" "t_paths (new_desc a j s) = t_paths s"
  "t_paths (close_descs P s) = t_paths s" "t_paths (lock_desc a fd b s) = t_paths s"
  by (simp_all add: bind_entry_def drop_entry_def sync_entries_def set_attrs_def touch_def new_inode_def
      new_desc_def close_descs_def lock_desc_def)

lemma update_simps [machine_simps]:
  "entry (s\<lparr>t_next := k\<rparr>) d n = entry s d n" "entry (s\<lparr>t_paths := ps\<rparr>) d n = entry s d n"
  "logged (s\<lparr>t_next := k\<rparr>) d n v = logged s d n v" "logged (s\<lparr>t_paths := ps\<rparr>) d n v = logged s d n v"
  by (simp_all add: entry_def logged_def)

section \<open>The invariant of the machine\<close>

definition descs_ok :: "machine \<Rightarrow> bool" where
  "descs_ok s \<longleftrightarrow> (\<forall>d \<in> set (t_open s). d_fd d < t_fds s \<and> d_ino d < t_next s) \<and>
     (\<forall>d \<in> set (t_open s). \<forall>e \<in> set (t_open s). d_fd d = d_fd e \<longrightarrow> d = e) \<and>
     (\<forall>d \<in> set (t_open s). \<forall>e \<in> set (t_open s).
        d \<noteq> e \<and> d_ino d = d_ino e \<and> d_lock d = Some True \<longrightarrow> d_lock e = None)"

definition inodes_ok :: "machine \<Rightarrow> bool" where
  "inodes_ok s \<longleftrightarrow> (\<forall>d n i. entry s d n = Some i \<or> logged s d n (Some i) \<longrightarrow> i < t_next s) \<and>
     (\<forall>n i. map_of (t_paths s) n = Some i \<longrightarrow> i < t_next s) \<and> (\<forall>i. t_maker s i \<noteq> None \<longrightarrow> i < t_next s)"

definition names_ok :: "machine \<Rightarrow> bool" where
  "names_ok s \<longleftrightarrow> (\<forall>d e i. entry s d activityName = Some i \<and> entry s e activityName = Some i \<longrightarrow> d = e) \<and>
     (\<forall>d n i. logged s d n (Some i) \<and> reserved n \<longrightarrow> is_marker n)"

definition dirs_ok :: "machine \<Rightarrow> bool" where
  "dirs_ok s \<longleftrightarrow> (\<forall>d n i. entry s d n = Some i \<longrightarrow> d < t_next s) \<and> (\<forall>d n v. logged s d n v \<longrightarrow> d < t_next s)"

definition machine_ok :: "machine \<Rightarrow> bool" where
  "machine_ok s \<longleftrightarrow> descs_ok s \<and> inodes_ok s \<and> names_ok s \<and> dirs_ok s"

section \<open>Facts of one agent\<close>

definition descs :: "nat \<Rightarrow> machine \<Rightarrow> desc list" where
  "descs a s = filter (\<lambda>d. d_owner d = a) (t_open s)"

definition locks :: "nat \<Rightarrow> machine \<Rightarrow> nat \<Rightarrow> bool \<Rightarrow> bool" where
  "locks a s i x \<longleftrightarrow> (\<exists>d \<in> set (descs a s). d_ino d = i \<and> d_lock d = Some x)"

definition kept :: "nat \<Rightarrow> machine \<Rightarrow> string \<Rightarrow> nat \<Rightarrow> bool" where
  "kept a s n i \<longleftrightarrow> reserved n \<and> (is_marker n \<longrightarrow> t_maker s i = Some a)"

definition settled :: "machine \<Rightarrow> nat \<Rightarrow> string \<Rightarrow> nat \<Rightarrow> bool" where
  "settled s d n i \<longleftrightarrow> entry s d n = Some i \<and> (\<forall>v. \<not> logged s d n v)"

text \<open>The lock of the state directory that holds the activity directory \<open>d\<close>.\<close>

definition guarded_by :: "nat \<Rightarrow> machine \<Rightarrow> bool \<Rightarrow> nat \<Rightarrow> bool" where
  "guarded_by a s x d \<longleftrightarrow> (\<exists>e l. locks a s l x \<and> entry s e lockName = Some l \<and> entry s e activityName = Some d)"

definition no_marker :: "machine \<Rightarrow> nat \<Rightarrow> bool" where
  "no_marker s d \<longleftrightarrow> (\<forall>n. is_marker n \<longrightarrow> entry s d n = None)"

definition traces :: "nat \<Rightarrow> machine \<Rightarrow> nat \<Rightarrow> string \<Rightarrow> bool" where
  "traces a s d n \<longleftrightarrow> is_marker n \<and> (\<exists>i. t_maker s i = Some a \<and> (entry s d n = Some i \<or> logged s d n (Some i)))"

definition marked :: "nat \<Rightarrow> machine \<Rightarrow> nat \<Rightarrow> string \<Rightarrow> bool" where
  "marked a s d n \<longleftrightarrow> is_marker n \<and> (\<exists>i. t_maker s i = Some a \<and> entry s d n = Some i)"

datatype fact =
    Opened nat nat
  | Locks nat bool
  | Entry nat string nat
  | Settled nat string nat
  | Frozen nat
  | Traces "(nat \<times> string) option"
  | Unmarked nat string
  | Unlocked
  | Free nat

fun fulfils :: "nat \<Rightarrow> machine \<Rightarrow> fact \<Rightarrow> bool" where
  "fulfils a s (Opened fd i) \<longleftrightarrow> (\<exists>d \<in> set (descs a s). d_fd d = fd \<and> d_ino d = i)"
| "fulfils a s (Locks i x) \<longleftrightarrow> locks a s i x"
| "fulfils a s (Entry d n i) \<longleftrightarrow> entry s d n = Some i \<and> kept a s n i"
| "fulfils a s (Settled d n i) \<longleftrightarrow> settled s d n i \<and> kept a s n i"
| "fulfils a s (Frozen d) \<longleftrightarrow> guarded_by a s True d \<and> no_marker s d"
| "fulfils a s (Traces K) \<longleftrightarrow> (\<forall>d n. traces a s d n \<longrightarrow> K = Some (d, n))"
| "fulfils a s (Unmarked d n) \<longleftrightarrow> \<not> marked a s d n"
| "fulfils a s (Free fd) \<longleftrightarrow> (\<forall>d \<in> set (descs a s). d_fd d = fd \<longrightarrow> d_lock d = None)"
| "fulfils a s Unlocked \<longleftrightarrow> (\<forall>d \<in> set (descs a s). d_lock d = None)"

section \<open>Rely\<close>

definition persists :: "nat \<Rightarrow> machine \<Rightarrow> machine \<Rightarrow> bool" where
  "persists a s t \<longleftrightarrow> t_next s \<le> t_next t \<and> (\<forall>i < t_next s. t_maker t i = t_maker s i) \<and>
     (\<forall>d n i. entry s d n = Some i \<and> kept a s n i \<longrightarrow> entry t d n = Some i \<and> (settled s d n i \<longrightarrow> settled t d n i))"

definition unchanged :: "nat \<Rightarrow> machine \<Rightarrow> machine \<Rightarrow> bool" where
  "unchanged a s t \<longleftrightarrow> descs a t = descs a s \<and> persists a s t \<and>
     (\<forall>d. guarded_by a s True d \<and> no_marker s d \<longrightarrow> no_marker t d) \<and>
     (\<forall>d n. traces a t d n \<longrightarrow> traces a s d n) \<and> (\<forall>d n. marked a t d n \<longrightarrow> marked a s d n)"

definition rely :: "nat \<Rightarrow> machine \<Rightarrow> machine \<Rightarrow> bool" where
  "rely a s t \<longleftrightarrow> (machine_ok s \<longrightarrow> machine_ok t \<and> unchanged a s t)"

lemma entry_below: "machine_ok s \<Longrightarrow> entry s d n = Some i \<Longrightarrow> i < t_next s"
  by (simp add: machine_ok_def inodes_ok_def)

lemma reserved_names [simp]:
  "reserved lockName" "reserved activityName" "reserved factoryName" "is_marker n \<Longrightarrow> reserved n"
  "\<not> is_marker lockName" "\<not> is_marker activityName" "\<not> is_marker factoryName" "\<not> reserved pendingName"
  "is_marker (''activity-'' @ x)"
  by (auto simp: reserved_def is_marker_def lockName_def activityName_def factoryName_def pendingName_def has_prefix_def)

lemma names_distinct [simp]:
  "lockName \<noteq> activityName" "activityName \<noteq> lockName" "lockName \<noteq> factoryName" "factoryName \<noteq> lockName"
  "activityName \<noteq> factoryName" "factoryName \<noteq> activityName"
  by (simp_all add: lockName_def activityName_def factoryName_def)

lemma kept_names [simp]:
  "kept a s lockName i" "kept a s activityName i" "kept a s factoryName i"
  by (simp_all add: kept_def)

lemma persists_entry: "persists a s t \<Longrightarrow> entry s d n = Some i \<Longrightarrow> kept a s n i \<Longrightarrow> entry t d n = Some i"
  by (simp add: persists_def)

lemma persists_settled:
  "persists a s t \<Longrightarrow> settled s d n i \<Longrightarrow> kept a s n i \<Longrightarrow> settled t d n i"
  by (simp add: persists_def settled_def)

lemma persists_kept:
  "machine_ok s \<Longrightarrow> persists a s t \<Longrightarrow> entry s d n = Some i \<Longrightarrow> kept a s n i \<Longrightarrow> kept a t n i"
  by (auto simp: persists_def kept_def dest: entry_below)

lemma guarded_by_mono:
  "persists a s t \<Longrightarrow> (\<And>l. locks a s l x \<Longrightarrow> locks a t l x) \<Longrightarrow> guarded_by a s x d \<Longrightarrow> guarded_by a t x d"
  unfolding guarded_by_def by (meson kept_names persists_entry)

lemma unchanged_facts:
  assumes "machine_ok s" "unchanged a s t" "fulfils a s f"
  shows "fulfils a t f"
proof -
  have p: "persists a s t" and d: "descs a t = descs a s"
    using assms(2) by (auto simp: unchanged_def)
  have l: "locks a t l x = locks a s l x" for l x by (simp add: locks_def d)
  show ?thesis
  proof (cases f)
    case (Frozen e)
    then show ?thesis
      using assms guarded_by_mono [OF p] l by (auto simp: unchanged_def)
  next
    case (Settled e n i)
    then show ?thesis
      using assms(3) persists_settled [OF p] persists_kept [OF assms(1) p] by (auto simp: settled_def)
  next
    case (Entry e n i)
    then show ?thesis
      using assms(3) persists_entry [OF p] persists_kept [OF assms(1) p] by auto
  next
    case (Traces K)
    then show ?thesis using assms by (auto simp: unchanged_def)
  next
    case (Unmarked e n)
    then show ?thesis using assms by (auto simp: unchanged_def)
  qed (use assms(3) d l in auto)
qed

lemma persists_refl: "persists a s s"
  by (simp add: persists_def)

lemma persists_trans:
  assumes "machine_ok s" "persists a s t" "persists a t u"
  shows "persists a s u"
  unfolding persists_def
proof (intro conjI allI impI)
  show "t_next s \<le> t_next u" using assms by (simp add: persists_def)
  show "t_maker u i = t_maker s i" if "i < t_next s" for i
    using assms that by (simp add: persists_def)
  fix d n i assume e: "entry s d n = Some i \<and> kept a s n i"
  note k = persists_kept [OF assms(1,2)] persists_entry [OF assms(2)]
  show "entry u d n = Some i" using e k persists_entry [OF assms(3)] by blast
  show "settled u d n i" if "settled s d n i"
    using that e k persists_settled [OF assms(2)] persists_settled [OF assms(3)] by blast
qed

lemma unchanged_refl: "unchanged a s s"
  by (simp add: unchanged_def persists_refl)

lemma unchanged_trans:
  assumes "machine_ok s" "unchanged a s t" "unchanged a t u"
  shows "unchanged a s u"
proof -
  have "no_marker u d" if "guarded_by a s True d" "no_marker s d" for d
    using unchanged_facts [OF assms(1,2), of "Frozen d"] that assms(3) by (simp add: unchanged_def)
  then show ?thesis
    using assms persists_trans [OF assms(1)] by (auto simp: unchanged_def)
qed

section \<open>The discipline of the calls\<close>

text \<open>
  A lock file may be created anywhere, a marker only under the shared lock of its state directory; a
  directory only under the names of the protocol; a lock is taken once; a marker is removed only by the agent
  that made it, and only when \<open>c\<close> says so.
\<close>

definition permitted :: "nat \<Rightarrow> bool \<Rightarrow> query \<Rightarrow> machine \<Rightarrow> bool" where
  "permitted a c q s = (case q of
       QOpen f n m \<Rightarrow> m = OpenCreate \<longrightarrow> (\<forall>d. fd_ino a s f = Some d \<longrightarrow>
         n = lockName \<or> is_marker n \<and> guarded_by a s False d)
     | QMkdir f n \<Rightarrow> n = factoryName \<or> n = activityName
     | QFlock f x \<Rightarrow> \<forall>d \<in> set (descs a s). d_lock d = None
     | QUnlink f n \<Rightarrow> c \<and> is_marker n \<and> (\<forall>d i. fd_ino a s f = Some d \<and> entry s d n = Some i \<longrightarrow> t_maker s i = Some a)
     | _ \<Rightarrow> True)"

interpretation among: interference "rely a" "permitted a c" "may_serve a" for a c
  by unfold_locales (auto simp: rely_def unchanged_refl intro: unchanged_trans)

end
