(* ===== verification/Transition_Steps.thy ===== *)
theory Transition_Steps
  imports Transition_Rely
begin

text \<open>
  Every permitted call is one of eight elementary moves of the machine (\<open>served_moves\<close>), and every move keeps
  the machine's invariant and is within the rely of every other agent (\<open>moves_ok\<close>, \<open>moves_unchanged\<close>); so are
  the changes other software makes.  A power loss closes every descriptor and keeps what was settled.
\<close>

inductive moves :: "nat \<Rightarrow> bool \<Rightarrow> machine \<Rightarrow> machine \<Rightarrow> bool" for a c s where
  Stays: "moves a c s s"
| Opens: "i < t_next s \<Longrightarrow> moves a c s (new_desc a i s)"
| Creates: "d < t_next s \<Longrightarrow> entry s d n = None \<Longrightarrow> n = lockName \<or> is_marker n \<and> guarded_by a s False d \<Longrightarrow>
    moves a c s (new_desc a (t_next s) (new_inode a x (touch d k (bind_entry d n (t_next s) s))))"
| Makes: "d < t_next s \<Longrightarrow> entry s d n = None \<Longrightarrow> n = factoryName \<or> n = activityName \<Longrightarrow>
    moves a c s (new_inode a x (touch d k (bind_entry d n (t_next s) s)))"
| Locks: "e \<in> set (t_open s) \<Longrightarrow> d_owner e = a \<Longrightarrow> d_lock e = None \<Longrightarrow>
    \<not> contended a (d_fd e) (d_ino e) b s \<Longrightarrow> moves a c s (lock_desc a (d_fd e) b s)"
| Syncs: "moves a c s (sync_entries d s)"
| Removes: "c \<Longrightarrow> is_marker n \<Longrightarrow> entry s d n = Some i \<Longrightarrow> t_maker s i = Some a \<Longrightarrow>
    moves a c s (touch d k (drop_entry d n s))"
| Closes: "e \<in> set (t_open s) \<Longrightarrow> d_owner e = a \<Longrightarrow> moves a c s (close_descs (\<lambda>d. d = e) s)"

lemma desc_of_Some: "desc_of a s fd = Some d \<Longrightarrow> d \<in> set (t_open s) \<and> d_owner d = a \<and> d_fd d = fd"
  by (auto simp: desc_of_def find_Some_iff)

lemma fd_ino_Some:
  "fd_ino a s f = Some i \<longleftrightarrow> (\<exists>fd d. f = Some fd \<and> desc_of a s fd = Some d \<and> d_ino d = i)"
  by (auto simp: fd_ino_def split: bind_splits)

lemma fd_ino_below: "machine_ok s \<Longrightarrow> fd_ino a s f = Some d \<Longrightarrow> d < t_next s"
  by (auto simp: fd_ino_Some machine_ok_def descs_ok_def dest!: desc_of_Some)

lemma resolve_below:
  assumes "machine_ok s" "resolve a s f n = Inr i"
  shows "i < t_next s"
  using assms by (auto simp: resolve_def machine_ok_def inodes_ok_def split: option.splits)

lemma descs_iff: "d \<in> set (descs a s) \<longleftrightarrow> d \<in> set (t_open s) \<and> d_owner d = a"
  by (simp add: descs_def)

lemma with_desc_moves:
  assumes "with_desc a s f k = (r, t)"
    and "\<And>d. d \<in> set (t_open s) \<Longrightarrow> d_owner d = a \<Longrightarrow> k d = (r, t) \<Longrightarrow> moves a c s t"
  shows "moves a c s t"
proof (cases "Option.bind f (desc_of a s)")
  case None
  then show ?thesis using assms(1) by (auto simp: with_desc_def Stays)
next
  case (Some d)
  then have "d \<in> set (t_open s) \<and> d_owner d = a"
    by (auto split: bind_splits dest!: desc_of_Some)
  then show ?thesis using assms Some by (auto simp: with_desc_def)
qed

lemma serve_call_moves:
  assumes ok: "machine_ok s" and perm: "permitted a c q s" and run: "serve_call a ch q s = (r, t)"
  shows "moves a c s t"
proof (cases q)
  case (QOpen f n m)
  then show ?thesis
    using run perm resolve_below [OF ok] fd_ino_below [OF ok]
    by (auto simp: serve_call_def serve_open_def permitted_def split: if_splits option.splits sum.splits
        intro: Stays Opens Creates)
next
  case (QMkdir f n)
  then show ?thesis
    using run perm fd_ino_below [OF ok]
    by (auto simp: serve_call_def serve_mkdir_def permitted_def split: if_splits option.splits
        intro: Stays Makes)
next
  case (QUnlink f n)
  then show ?thesis
    using run perm
    by (auto simp: serve_call_def serve_unlink_def permitted_def split: if_splits option.splits
        intro: Stays Removes)
next
  case (QFlock f x)
  have free: "d_lock d = None" if "d \<in> set (t_open s)" "d_owner d = a" for d
    using perm QFlock that by (simp add: permitted_def descs_iff)
  from run QFlock show ?thesis
    by (auto simp: serve_call_def Stays split: if_splits elim!: with_desc_moves intro!: Locks free)
next
  case (QSync f)
  show ?thesis
    by (rule with_desc_moves [of a s f _ r]) (use run QSync in \<open>auto simp: serve_call_def intro: Syncs\<close>)
next
  case (QClose f)
  show ?thesis
    by (rule with_desc_moves [of a s f _ r]) (use run QClose in \<open>auto simp: serve_call_def intro: Closes\<close>)
qed (use run in \<open>auto simp: serve_call_def with_desc_def split: sum.splits option.splits intro: Stays\<close>)

lemma served_moves:
  assumes "machine_ok s" "permitted a c q s" "(r, t) \<in> may_serve a q s"
  shows "moves a c s t"
proof -
  obtain ch where ch: "serve a ch q s = (r, t)"
    using assms(3) by (auto simp: may_serve_def)
  then have "t = s \<or> t = snd (serve_call a ch q s)"
    by (auto simp: serve_def split: option.splits query.splits)
  then show ?thesis
    using serve_call_moves [OF assms(1,2)] by (metis Stays prod.collapse)
qed

section \<open>Moves keep the invariant\<close>

lemma descs_okD:
  assumes "descs_ok s" "d \<in> set (t_open s)" "e \<in> set (t_open s)"
  shows "d_fd d = d_fd e \<Longrightarrow> d = e"
    and "d \<noteq> e \<Longrightarrow> d_ino d = d_ino e \<Longrightarrow> d_lock d = Some True \<Longrightarrow> d_lock e = None"
    and "d_fd d < t_fds s" and "d_ino d < t_next s"
  using assms unfolding descs_ok_def by blast+

lemma compatible:
  assumes "machine_ok s" "locks a s l True" "locks b s l x"
  shows "a = b \<and> x"
proof -
  obtain d where d: "d \<in> set (t_open s)" "d_owner d = a" "d_ino d = l" "d_lock d = Some True"
    using assms(2) by (auto simp: locks_def descs_iff)
  obtain e where e: "e \<in> set (t_open s)" "d_owner e = b" "d_ino e = l" "d_lock e = Some x"
    using assms(3) by (auto simp: locks_def descs_iff)
  have "descs_ok s" using assms(1) by (simp add: machine_ok_def)
  then have "d = e" using descs_okD(2) [of s d e] d e by fastforce
  then show ?thesis using d e by simp
qed

lemma guarded_compatible:
  assumes ok: "machine_ok s" and "guarded_by b s True d" "guarded_by a s x d"
  shows "a = b \<and> x"
proof -
  obtain e l where e: "locks b s l True" "entry s e lockName = Some l" "entry s e activityName = Some d"
    using assms(2) by (auto simp: guarded_by_def)
  obtain e' l' where e': "locks a s l' x" "entry s e' lockName = Some l'" "entry s e' activityName = Some d"
    using assms(3) by (auto simp: guarded_by_def)
  have "e = e'" using ok e(3) e'(3) unfolding machine_ok_def names_ok_def by blast
  then show ?thesis using compatible [OF ok] e e' by auto
qed

lemma fewer_descs_ok:
  assumes "descs_ok s" "set (t_open t) \<subseteq> set (t_open s)" "t_fds s \<le> t_fds t" "t_next s \<le> t_next t"
  shows "descs_ok t"
  using assms unfolding descs_ok_def by (meson order_less_le_trans subset_iff)

lemma new_descs_ok:
  assumes "descs_ok s" "t_open t = \<lparr>d_owner = a, d_fd = t_fds s, d_ino = i, d_lock = None\<rparr> # t_open s"
    and "t_fds t = Suc (t_fds s)" "t_next s \<le> t_next t" "i < t_next t"
  shows "descs_ok t"
proof -
  have "d_fd d < t_fds s" "d_ino d < t_next t" if "d \<in> set (t_open s)" for d
    using descs_okD(3,4) [OF assms(1) that that] assms(4) by simp_all
  then show ?thesis
    using assms(1,2,3,5) unfolding descs_ok_def by (fastforce simp: less_Suc_eq)
qed

lemma moves_descs_ok:
  assumes "machine_ok s" "moves a c s t"
  shows "descs_ok t"
  using assms(2)
proof cases
  case (Locks e b)
  let ?f = "\<lambda>d. if d_owner d = a \<and> d_fd d = d_fd e then d\<lparr>d_lock := Some b\<rparr> else d"
  have ok: "descs_ok s" using assms(1) by (simp add: machine_ok_def)
  have f: "?f d = (if d = e then e\<lparr>d_lock := Some b\<rparr> else d)" if "d \<in> set (t_open s)" for d
    using descs_okD(1) [OF ok that Locks(2)] Locks(3) by auto
  have free: "d_lock d = None \<or> \<not> b \<and> d_lock d = Some False"
    if "d \<in> set (t_open s)" "d \<noteq> e" "d_ino d = d_ino e" for d
  proof -
    have "\<not> (case d_lock d of None \<Rightarrow> False | Some y \<Rightarrow> b \<or> y)"
      using Locks(5) that descs_okD(1) [OF ok that(1) Locks(2)]
      unfolding contended_def list_ex_iff by blast
    then show ?thesis by (cases "d_lock d") auto
  qed
  have origin: "\<exists>d \<in> set (t_open s). x = (if d = e then e\<lparr>d_lock := Some b\<rparr> else d)" if "x \<in> set (t_open t)" for x
    using that f Locks(1) by (auto simp: machine_simps)
  show ?thesis
    unfolding descs_ok_def
  proof (intro conjI ballI impI)
    fix x assume "x \<in> set (t_open t)"
    then obtain d where d: "d \<in> set (t_open s)" "x = (if d = e then e\<lparr>d_lock := Some b\<rparr> else d)" using origin by blast
    then show "d_fd x < t_fds t" "d_ino x < t_next t"
      using descs_okD(3,4) [OF ok, of d d] Locks(1) by (auto simp: machine_simps)
    fix y assume "y \<in> set (t_open t)"
    then obtain d' where d': "d' \<in> set (t_open s)" "y = (if d' = e then e\<lparr>d_lock := Some b\<rparr> else d')" using origin by blast
    have same: "d_fd x = d_fd d" "d_ino x = d_ino d" "d_fd y = d_fd d'" "d_ino y = d_ino d'"
      using d d' by simp_all
    show "x = y" if "d_fd x = d_fd y"
      using descs_okD(1) [OF ok d(1) d'(1)] that d d' same by simp
    show "d_lock y = None" if xy: "x \<noteq> y \<and> d_ino x = d_ino y \<and> d_lock x = Some True"
    proof -
      have "d \<noteq> d'" using xy d d' by auto
      then show ?thesis
        using xy d d' same descs_okD(2) [OF ok d(1) d'(1)] free [of d] free [of d'] Locks(4)
        by (cases "d = e"; cases "d' = e") auto
    qed
  qed
next
  case (Opens i)
  then show ?thesis using assms(1) by (intro new_descs_ok [of s t a i]) (simp_all add: machine_ok_def machine_simps)
next
  case (Creates d n x k)
  then show ?thesis
    using assms(1) by (intro new_descs_ok [of s t a "t_next s"]) (simp_all add: machine_ok_def machine_simps)
qed (use assms(1) in \<open>auto simp: machine_ok_def machine_simps intro!: fewer_descs_ok [of s]\<close>)

lemma moves_entry:
  assumes "moves a c s t" "entry t d n = Some i"
  shows "entry s d n = Some i \<or> i = t_next s \<and> t_next t = Suc (t_next s)"
  using assms by cases (simp_all add: machine_simps split: if_splits)

lemma moves_new:
  assumes ok: "machine_ok s" and "moves a c s t" "entry t d n = Some (t_next s)" "entry t e n = Some (t_next s)"
  shows "d = e"
  using assms(2-4)
  by cases (simp_all add: machine_simps split: if_splits, (fastforce dest: entry_below [OF ok])+)

lemma moves_logged:
  "moves a c s t \<Longrightarrow> logged t d n (Some i) \<Longrightarrow> logged s d n (Some i) \<or> is_marker n \<and> entry s d n = Some i"
  by (erule moves.cases) (auto simp: machine_simps)

lemma moves_grow: "moves a c s t \<Longrightarrow> t_next s \<le> t_next t \<and> t_paths t = t_paths s \<and>
    (\<forall>i. t_maker t i \<noteq> None \<longrightarrow> t_maker s i \<noteq> None \<or> i < t_next t)"
  by (erule moves.cases) (auto simp: machine_simps)

lemma moves_inodes_ok:
  assumes ok: "machine_ok s" and m: "moves a c s t"
  shows "inodes_ok t"
  unfolding inodes_ok_def
proof (intro conjI allI impI)
  have below: "i < t_next s" if "entry s d n = Some i \<or> logged s d n (Some i)" for d n i
    using ok that unfolding machine_ok_def inodes_ok_def by blast
  fix d n i assume "entry t d n = Some i \<or> logged t d n (Some i)"
  then show "i < t_next t"
    using moves_entry [OF m, of d n i] moves_logged [OF m, of d n i] moves_grow [OF m] below [of d n i] by auto
next
  fix n i assume "map_of (t_paths t) n = Some i"
  then show "i < t_next t"
    using moves_grow [OF m] ok unfolding machine_ok_def inodes_ok_def by (metis order_less_le_trans)
next
  fix i assume "t_maker t i \<noteq> None"
  then show "i < t_next t"
    using moves_grow [OF m] ok by (auto simp: machine_ok_def inodes_ok_def) (meson order_less_le_trans)
qed

lemma moves_names_ok:
  assumes ok: "machine_ok s" and m: "moves a c s t"
  shows "names_ok t"
  unfolding names_ok_def
proof (intro conjI allI impI)
  fix d e i assume "entry t d activityName = Some i \<and> entry t e activityName = Some i"
  then show "d = e"
    using moves_entry [OF m, of d activityName i] moves_entry [OF m, of e activityName i] ok
      entry_below [OF ok, of d activityName i] entry_below [OF ok, of e activityName i] moves_new [OF ok m]
    unfolding machine_ok_def names_ok_def by (metis less_irrefl)
next
  fix d n i assume "logged t d n (Some i) \<and> reserved n"
  then show "is_marker n"
    using moves_logged [OF m] ok unfolding machine_ok_def names_ok_def by blast
qed

lemma moves_dirs_ok:
  assumes ok: "machine_ok s" and m: "moves a c s t"
  shows "dirs_ok t"
proof -
  have e: "d < t_next s" if "entry s d n = Some i" for d n i
    using ok that unfolding machine_ok_def dirs_ok_def by blast
  have l: "d < t_next s" if "logged s d n v" for d n v
    using ok that unfolding machine_ok_def dirs_ok_def by blast
  show ?thesis
    using m by cases (auto simp: dirs_ok_def machine_simps less_Suc_eq split: if_splits dest: e l)
qed

lemma moves_ok: "machine_ok s \<Longrightarrow> moves a c s t \<Longrightarrow> machine_ok t"
  by (simp add: machine_ok_def [of t] moves_descs_ok moves_inodes_ok moves_names_ok moves_dirs_ok)

section \<open>Moves are within the rely of the others\<close>

lemma moves_persists:
  assumes ok: "machine_ok s" and "moves a c s t" "\<not> c \<or> b \<noteq> a"
  shows "persists b s t"
  using assms(2,3)
  by cases (auto simp: persists_def settled_def kept_def machine_simps entry_below [OF ok])

lemma moves_frozen:
  assumes ok: "machine_ok s" and "moves a c s t" "guarded_by b s True d" "no_marker s d"
  shows "no_marker t d"
  using assms(2)
proof cases
  case (Creates e n x k)
  then have "e \<noteq> d \<or> \<not> is_marker n"
    using guarded_compatible [OF ok assms(3)] by auto
  then show ?thesis using Creates assms(4) by (auto simp: no_marker_def machine_simps)
qed (use assms(4) in \<open>auto simp: no_marker_def machine_simps\<close>)

lemma moves_traces:
  assumes ok: "machine_ok s" and "moves a c s t" "b \<noteq> a" "traces b t d n"
  shows "traces b s d n"
  using assms(2-4)
  by cases (auto simp: traces_def machine_simps split: if_splits)

lemma moves_marked:
  assumes ok: "machine_ok s" and "moves a c s t" "b \<noteq> a" "marked b t d n"
  shows "marked b s d n"
  using assms(2-4)
  by cases (auto simp: marked_def machine_simps split: if_splits)

lemma others_locked:
  "b \<noteq> a \<Longrightarrow> filter (\<lambda>d. d_owner d = b) (map (\<lambda>d. if d_owner d = a \<and> d_fd d = fd then d\<lparr>d_lock := Some x\<rparr> else d) ds) =
     filter (\<lambda>d. d_owner d = b) ds"
  by (induction ds) auto

lemma moves_descs: "moves a c s t \<Longrightarrow> b \<noteq> a \<Longrightarrow> descs b t = descs b s"
  by (erule moves.cases) (auto simp: descs_def machine_simps others_locked intro!: filter_cong)

lemma moves_unchanged:
  assumes "machine_ok s" "moves a c s t" "b \<noteq> a"
  shows "unchanged b s t"
  using assms moves_persists moves_frozen [OF assms(1,2)] moves_traces [OF assms] moves_marked [OF assms] moves_descs
  by (auto simp: unchanged_def)

section \<open>Other software and power loss\<close>

lemma outside_names:
  assumes "outside_effect x s = t"
  shows "reserved n \<Longrightarrow> entry t d n = entry s d n"
    and "reserved n \<Longrightarrow> logged t d n v \<Longrightarrow> logged s d n v"
    and "t_open t = t_open s" and "t_fds t = t_fds s" and "t_maker t = t_maker s" and "t_next s \<le> t_next t"
  using assms by (auto simp: outside_effect_def machine_simps split: outside.splits if_splits)

lemma outside_inodes_ok:
  assumes ok: "machine_ok s"
  shows "inodes_ok (outside_effect x s)"
proof -
  note b = ok [unfolded machine_ok_def inodes_ok_def]
  show ?thesis
  proof (cases x)
    case (OutPath n v)
    then show ?thesis
      using b by (cases v) (auto simp: inodes_ok_def outside_effect_def machine_simps update_conv' delete_conv' split: if_splits)
  qed (use b in \<open>auto simp: inodes_ok_def outside_effect_def machine_simps less_Suc_eq split: if_splits\<close>)
qed

lemma outside_dirs_ok:
  assumes ok: "machine_ok s"
  shows "dirs_ok (outside_effect x s)"
proof -
  have e: "d < t_next s" if "entry s d n = Some i" for d n i
    using ok that unfolding machine_ok_def dirs_ok_def by blast
  have l: "d < t_next s" if "logged s d n v" for d n v
    using ok that unfolding machine_ok_def dirs_ok_def by blast
  show ?thesis
    by (cases x) (auto simp: dirs_ok_def outside_effect_def machine_simps less_Suc_eq split: if_splits dest: e l)
qed

lemma outside_ok:
  assumes "machine_ok s"
  shows "machine_ok (outside_effect x s)"
proof -
  note n = outside_names [OF refl [of "outside_effect x s"]]
  have "descs_ok (outside_effect x s)"
    by (rule fewer_descs_ok [of s]) (use assms n(3,4,6) in \<open>auto simp: machine_ok_def\<close>)
  moreover have "names_ok (outside_effect x s)"
    using assms n(2) unfolding machine_ok_def names_ok_def n(1) [OF reserved_names(2)] by blast
  ultimately show ?thesis using outside_inodes_ok [OF assms] outside_dirs_ok [OF assms] by (simp add: machine_ok_def)
qed

lemma outside_unchanged: "unchanged b s (outside_effect x s)"
proof -
  note n = outside_names [OF refl [of "outside_effect x s"]]
  have "settled (outside_effect x s) d m i" if "settled s d m i" "reserved m" for d m i
    using that(1) n(1) [OF that(2)] n(2) [OF that(2)] unfolding settled_def by metis
  then show ?thesis
    using n unfolding unchanged_def persists_def no_marker_def traces_def marked_def descs_def
    by (auto simp: kept_def)
qed

lemma revert_simps:
  "t_unsynced (revert e s) = t_unsynced s" "t_maker (revert e s) = t_maker s" "t_next (revert e s) = t_next s"
  "t_paths (revert e s) = t_paths s"
  by (simp_all add: revert_def)

lemma revert_entry: "entry (revert e s) d n = entry s d n \<or> logged s d n (entry (revert e s) d n)"
  by (cases e) (auto simp: revert_def entry_def logged_def update_conv' delete_conv' split: option.splits)

lemma reverts_simps:
  "t_unsynced (fold revert es s) = t_unsynced s" "t_maker (fold revert es s) = t_maker s"
  "t_next (fold revert es s) = t_next s" "t_paths (fold revert es s) = t_paths s"
  by (induction es arbitrary: s) (simp_all add: revert_simps)

lemma reverts_entry: "entry (fold revert es s) d n = entry s d n \<or> logged s d n (entry (fold revert es s) d n)"
proof (induction es arbitrary: s)
  case (Cons e es)
  show ?case
    using Cons.IH [of "revert e s"] revert_entry [of e s d n] by (auto simp: logged_def revert_simps)
qed simp

lemma power_simps:
  "t_unsynced (power_loss es s) = []" "t_open (power_loss es s) = []" "t_maker (power_loss es s) = t_maker s"
  "t_next (power_loss es s) = t_next s" "t_paths (power_loss es s) = t_paths s" "\<not> logged (power_loss es s) d n v"
  by (simp_all add: power_loss_def reverts_simps logged_def)

lemma power_entry: "entry (power_loss es s) d n = entry s d n \<or> logged s d n (entry (power_loss es s) d n)"
  using reverts_entry [of es s d n] by (simp add: power_loss_def entry_def)

lemma power_ok:
  assumes "machine_ok s"
  shows "machine_ok (power_loss es s)"
proof -
  have old: "entry s d n = Some i \<or> logged s d n (Some i)" if "entry (power_loss es s) d n = Some i" for d n i
    using power_entry [of es s d n] that by auto
  have "entry s d activityName = Some i" if "entry (power_loss es s) d activityName = Some i" for d i
    using old [OF that] assms reserved_names(2,6) unfolding machine_ok_def names_ok_def by blast
  then have "names_ok (power_loss es s)"
    using assms by (auto simp: machine_ok_def names_ok_def power_simps)
  moreover have "dirs_ok (power_loss es s)"
    using assms power_entry [of es s] by (simp add: machine_ok_def dirs_ok_def power_simps) metis
  moreover have "inodes_ok (power_loss es s)"
    using assms old by (simp add: machine_ok_def inodes_ok_def power_simps) blast
  ultimately show ?thesis by (simp add: machine_ok_def descs_ok_def power_simps)
qed

lemma power_settled: "settled s d n i \<Longrightarrow> settled (power_loss es s) d n i"
  using power_entry [of es s d n] by (auto simp: settled_def power_simps)

lemma power_traces: "traces a (power_loss es s) d n \<Longrightarrow> traces a s d n"
  using power_entry [of es s d n] by (auto simp: traces_def power_simps)

end
