(* ===== verification/Transition_Triples.thy ===== *)
theory Transition_Triples
  imports Transition_Steps
begin

text \<open>
  Triples of the functions of \<open>guard.go\<close> among other agents.  \<open>reading\<close> tasks make only calls that change
  nothing, so they keep every stable assertion; \<open>stands a F g\<close> is the assertion that agent \<open>a\<close> holds the facts
  \<open>F\<close> and that each of its descriptors is the file of a pin of the guard \<open>g\<close>, which is what the deferred
  clean-up closes.  \<open>attempt\<close> is a triple whose error return only keeps that.
\<close>

section \<open>Reading\<close>

definition is_read :: "query \<Rightarrow> bool" where
  "is_read q \<longleftrightarrow> (case q of QContext \<Rightarrow> True | QRandom \<Rightarrow> True | QNamed _ _ \<Rightarrow> True | QFstat _ \<Rightarrow> True
     | QRead _ \<Rightarrow> True | QReadDir _ \<Rightarrow> True | _ \<Rightarrow> False)"

primrec only_reads :: "(query, answer, 'a) prog \<Rightarrow> ('a \<Rightarrow> bool) \<Rightarrow> bool" where
  "only_reads (Done x) P = P x"
| "only_reads (Call q k) P = (is_read q \<and> (\<forall>r. only_reads (k r) P))"

definition reading :: "'a guarded \<Rightarrow> bool" where
  "reading m \<longleftrightarrow> (\<forall>g. only_reads (m g) (\<lambda>(x, h). h = g))"

named_theorems reading_intros \<open>tasks that only read\<close>

lemma only_reads_bindP: "only_reads p (\<lambda>x. only_reads (f x) P) \<Longrightarrow> only_reads (bindP p f) P"
  by (induction p) auto

lemma only_reads_mono: "only_reads p P \<Longrightarrow> (\<And>x. P x \<Longrightarrow> Q x) \<Longrightarrow> only_reads p Q"
  by (induction p) auto

lemma reading_bind [reading_intros]: "reading m \<Longrightarrow> (\<And>x. reading (k x)) \<Longrightarrow> reading (bindT m k)"
  unfolding reading_def bindT_def
  by (intro allI only_reads_bindP, rule only_reads_mono, assumption?) (auto intro: only_reads_mono)

lemma reading_ret [reading_intros]: "reading (retT x)"
  by (simp add: reading_def retT_def)

lemma reading_get [reading_intros]: "reading (getT f)"
  by (simp add: reading_def getT_def)

lemma reading_ask [reading_intros]: "is_read q \<Longrightarrow> reading (askT q)"
  by (simp add: reading_def askT_def)

lemma reading_try [reading_intros]: "reading m \<Longrightarrow> (\<And>x. reading (k x)) \<Longrightarrow> reading (tryT m k)"
  unfolding tryT_def by (intro reading_bind) (auto intro: reading_ret split: sum.splits)

lemma reading_each [reading_intros]: "(\<And>x. reading (f x)) \<Longrightarrow> reading (eachT f xs)"
  by (induction xs) (auto intro: reading_intros)

lemma reading_if [reading_intros]: "(b \<Longrightarrow> reading m) \<Longrightarrow> (\<not> b \<Longrightarrow> reading n) \<Longrightarrow> reading (if b then m else n)"
  by simp

lemma reading_sum [reading_intros]:
  "(\<And>e. reading (m e)) \<Longrightarrow> (\<And>x. reading (n x)) \<Longrightarrow> reading (case r of Inl e \<Rightarrow> m e | Inr x \<Rightarrow> n x)"
  by (cases r) auto

lemma reading_pair [reading_intros]: "(\<And>x y. reading (m x y)) \<Longrightarrow> reading (case r of (x, y) \<Rightarrow> m x y)"
  by (cases r) auto

lemma reading_option [reading_intros]:
  "reading m \<Longrightarrow> (\<And>x. reading (n x)) \<Longrightarrow> reading (case r of None \<Rightarrow> m | Some x \<Rightarrow> n x)"
  by (cases r) auto

lemma reads [simp]: "is_read QContext" "is_read QRandom" "is_read (QNamed f n)" "is_read (QFstat f)"
  "is_read (QRead f)" "is_read (QReadDir f)"
  by (simp_all add: is_read_def)

lemma reading_calls [reading_intros]:
  "reading ctxErr" "reading (joinContext e)" "is_read q \<Longrightarrow> reading (plainCall q)" "is_read q \<Longrightarrow> reading (statCall q)"
  "is_read q \<Longrightarrow> reading (readCall q)" "reading (refuse c b)"
  by (auto simp: ctxErr_def joinContext_def plainCall_def statCall_def readCall_def refuse_def intro!: reading_intros)

lemma reading_named [reading_intros]: "reading (named f n)"
  by (auto simp: named_def intro!: reading_intros)

lemma reading_refuseJoined [reading_intros]: "reading (refuseJoined c b)"
  by (auto simp: refuseJoined_def intro!: reading_intros)

lemma reading_checkPin: "reading (checkPin p)"
  by (auto simp: checkPin_def checkEmpty_def intro!: reading_intros)

lemma reading_check [reading_intros]: "reading check"
  by (auto simp: check_def intro!: reading_intros reading_checkPin)

lemma reading_more [reading_intros]:
  "reading (pendingAbsent p)" "reading recovery_empty" "reading no_activity" "reading (require_absent p)"
  "reading (leaseCheck l)" "reading checkGuard" "reading (checkLease l)"
  by (auto simp: pendingAbsent_def recovery_empty_def no_activity_def require_absent_def leaseCheck_def
      checkGuard_def checkLease_def intro!: reading_intros)

section \<open>Triples among other agents\<close>

abbreviation triple_of :: "nat \<Rightarrow> bool \<Rightarrow> (guard \<Rightarrow> machine \<Rightarrow> bool) \<Rightarrow> 'a guarded \<Rightarrow> ('a \<Rightarrow> guard \<Rightarrow> machine \<Rightarrow> bool) \<Rightarrow> bool" where
  "triple_of a c \<equiv> interference.hoare (rely a) (permitted a c) (may_serve a)"

abbreviation stable_for :: "nat \<Rightarrow> (machine \<Rightarrow> bool) \<Rightarrow> bool" where
  "stable_for a \<equiv> interference.stable (rely a)"

lemma read_stays: "is_read q \<Longrightarrow> (r, t) \<in> may_serve a q s \<Longrightarrow> t = s"
  by (auto simp: may_serve_def serve_def serve_call_def is_read_def with_desc_def
      split: query.splits option.splits sum.splits if_splits)

lemma read_permitted: "is_read q \<Longrightarrow> permitted a c q s"
  by (auto simp: is_read_def permitted_def split: query.splits)

lemma only_reads_safely:
  assumes "only_reads p P" "W s" "stable_for a W"
  shows "safely (rely a) (permitted a c) (may_serve a) p (\<lambda>x t. P x \<and> W t) s"
  using assms(1,2)
proof (induction p arbitrary: s)
  case (Done x)
  then show ?case using assms(3) by (auto simp: among.stable_def)
next
  case (Call q k)
  have "W t" if "rely a s t" for t
    using Call.prems(2) assms(3) that by (auto simp: among.stable_def)
  then show ?case
    using Call by (auto simp: read_permitted dest: read_stays)
qed

lemma reading_triple:
  assumes "reading m" "\<And>g. stable_for a (P g)"
  shows "triple_of a c P m (\<lambda>r. P)"
  unfolding among.hoare_def
proof (intro allI impI)
  fix g s assume "P g s"
  have "safely (rely a) (permitted a c) (may_serve a) (m g) (\<lambda>x t. (case x of (x, h) \<Rightarrow> h = g) \<and> P g t) s"
    by (rule only_reads_safely) (use assms \<open>P g s\<close> in \<open>auto simp: reading_def\<close>)
  then show "safely (rely a) (permitted a c) (may_serve a) (m g) (\<lambda>(x, h). P h) s"
    by (rule safely_mono) auto
qed

section \<open>Assertions\<close>

definition tracked :: "nat \<Rightarrow> guard \<Rightarrow> machine \<Rightarrow> bool" where
  "tracked a g s \<longleftrightarrow> (\<forall>d \<in> set (descs a s). \<exists>p \<in> set (gPins g). pFile p = Some (d_fd d)) \<and>
     (\<forall>p \<in> set (gPins g). pFile p = None \<or> pFile p = Some (pId p))"

lemma tracked_fds: "tracked a g s \<Longrightarrow> (\<And>e. e \<in> set (descs a t) \<Longrightarrow> \<exists>d \<in> set (descs a s). d_fd e = d_fd d) \<Longrightarrow> tracked a g t"
  unfolding tracked_def by metis

definition loose :: "nat \<Rightarrow> guard \<Rightarrow> machine \<Rightarrow> bool" where
  "loose a g s \<longleftrightarrow> machine_ok s \<and> tracked a g s"

definition facts :: "nat \<Rightarrow> fact set \<Rightarrow> machine \<Rightarrow> bool" where
  "facts a F s \<longleftrightarrow> machine_ok s \<and> (\<forall>f \<in> F. fulfils a s f)"

definition stands :: "nat \<Rightarrow> fact set \<Rightarrow> guard \<Rightarrow> guard \<Rightarrow> machine \<Rightarrow> bool" where
  "stands a F h g s \<longleftrightarrow> g = h \<and> facts a F s \<and> tracked a g s"

definition attempt :: "nat \<Rightarrow> bool \<Rightarrow> (guard \<Rightarrow> machine \<Rightarrow> bool) \<Rightarrow> (failure + 'a) guarded \<Rightarrow>
    ('a \<Rightarrow> guard \<Rightarrow> machine \<Rightarrow> bool) \<Rightarrow> bool" where
  "attempt a c P m Q \<longleftrightarrow> triple_of a c P m (\<lambda>r. case r of Inl e \<Rightarrow> loose a | Inr x \<Rightarrow> Q x)"

lemma factsD: "facts a F s \<Longrightarrow> f \<in> F \<Longrightarrow> fulfils a s f"
  by (simp add: facts_def)

lemma stable_facts: "stable_for a (facts a F)"
  by (auto simp: among.stable_def facts_def rely_def intro: unchanged_facts)

lemma stable_loose: "stable_for a (loose a g)"
  by (auto simp: among.stable_def loose_def tracked_def rely_def unchanged_def)

lemma stable_stands: "stable_for a (stands a F h g)"
  using stable_facts [of a F]
  by (auto simp: among.stable_def stands_def tracked_def facts_def rely_def unchanged_def)

lemma stands_loose: "stands a F h g s \<Longrightarrow> loose a g s"
  by (auto simp: stands_def loose_def facts_def)

lemma stands_subset: "stands a F h g s \<Longrightarrow> E \<subseteq> F \<Longrightarrow> stands a E h g s"
  by (auto simp: stands_def facts_def)

lemma attempt_reading: "reading m \<Longrightarrow> attempt a c (stands a F h) m (\<lambda>_. stands a F h)"
  unfolding attempt_def
  by (rule among.hoare_post, rule reading_triple)
     (auto intro: stable_stands stands_loose split: sum.splits)

lemma attempt_try:
  assumes "attempt a c P m W" "\<And>x. attempt a c (W x) (k x) Q"
  shows "attempt a c P (tryT m k) Q"
  unfolding attempt_def
  by (rule among.hoare_try [OF assms(1) [unfolded attempt_def]])
     (use assms(2) stable_loose in \<open>auto simp: attempt_def\<close>)

lemma attempt_bind:
  assumes "triple_of a c P m W" "\<And>x. attempt a c (W x) (k x) Q"
  shows "attempt a c P (bindT m k) Q"
  unfolding attempt_def
  by (rule among.hoare_bind [OF assms(1)]) (use assms(2) in \<open>simp add: attempt_def\<close>)

lemma attempt_pre: "attempt a c P m Q \<Longrightarrow> (\<And>g s. W g s \<Longrightarrow> P g s) \<Longrightarrow> attempt a c W m Q"
  unfolding attempt_def by (rule among.hoare_pre)

lemma attempt_post: "attempt a c P m Q \<Longrightarrow> (\<And>x g s. Q x g s \<Longrightarrow> W x g s) \<Longrightarrow> attempt a c P m W"
  unfolding attempt_def by (erule among.hoare_post) (simp split: sum.splits)

lemma attempt_exists: "(\<And>x. attempt a c (P x) m Q) \<Longrightarrow> attempt a c (\<lambda>g s. \<exists>x. P x g s) m Q"
  unfolding attempt_def by (rule among.hoare_exists)

lemma attempt_fact: "(b \<Longrightarrow> attempt a c P m Q) \<Longrightarrow> attempt a c (\<lambda>g s. b \<and> P g s) m Q"
  unfolding attempt_def by (rule among.hoare_fact)

lemma attempt_return:
  assumes "\<And>g. stable_for a (P g)" "\<And>g s. P g s \<Longrightarrow> Q x g s"
  shows "attempt a c P (retT (Inr x)) Q"
  unfolding attempt_def by (rule among.hoare_return) (use assms in auto)

lemma attempt_if:
  "(b \<Longrightarrow> attempt a c P m Q) \<Longrightarrow> (\<not> b \<Longrightarrow> attempt a c P n Q) \<Longrightarrow> attempt a c P (if b then m else n) Q"
  by simp

text \<open>Tasks that read and then return an error meet every postcondition of an attempt.\<close>

definition failing :: "(failure + 'a) guarded \<Rightarrow> bool" where
  "failing m \<longleftrightarrow> (\<forall>g. only_reads (m g) (\<lambda>(r, h). h = g \<and> (\<exists>e. r = Inl e)))"

lemma failing_bind: "reading m \<Longrightarrow> (\<And>x. failing (k x)) \<Longrightarrow> failing (bindT m k)"
  unfolding reading_def failing_def bindT_def
  by (intro allI only_reads_bindP, rule only_reads_mono, assumption?) (auto intro: only_reads_mono)

lemma failing_ret: "failing (retT (Inl e))"
  by (simp add: failing_def retT_def)

lemma failing_tasks [simp]:
  "failing (retT (Inl e))" "failing (joinContext e)" "failing (refuse x b)" "failing (refuseJoined x b)"
  by (auto simp: joinContext_def refuse_def refuseJoined_def intro!: failing_ret failing_bind reading_intros)

lemma attempt_failing:
  assumes "failing m" "\<And>g. stable_for a (P g)" "\<And>g s. P g s \<Longrightarrow> loose a g s"
  shows "attempt a c P m Q"
  unfolding attempt_def among.hoare_def
proof (intro allI impI)
  fix g s assume "P g s"
  have "safely (rely a) (permitted a c) (may_serve a) (m g)
      (\<lambda>x t. (case x of (r, h) \<Rightarrow> h = g \<and> (\<exists>e. r = Inl e)) \<and> P g t) s"
    by (rule only_reads_safely) (use assms \<open>P g s\<close> in \<open>auto simp: failing_def\<close>)
  then show "safely (rely a) (permitted a c) (may_serve a) (m g)
      (\<lambda>(x, h). (case x of Inl e \<Rightarrow> loose a | Inr x \<Rightarrow> Q x) h) s"
    by (rule safely_mono) (auto intro: assms(3))
qed

lemma attempt_stands_failing: "failing m \<Longrightarrow> attempt a c (stands a F h) m Q"
  by (rule attempt_failing) (auto intro: stable_stands stands_loose)

section \<open>Combinators of an attempt\<close>

lemma attempt_get: "attempt a c (stands a F h) (k (f h)) Q \<Longrightarrow> attempt a c (stands a F h) (bindT (getT f) k) Q"
  by (auto simp: attempt_def among.hoare_def bindT_def getT_def stands_def)

lemma attempt_set:
  "attempt a c W (k ()) Q \<Longrightarrow> (\<And>g s. P g s \<Longrightarrow> W (u g) s) \<Longrightarrow> attempt a c P (bindT (setT u) k) Q"
  by (auto simp: attempt_def among.hoare_def bindT_def setT_def)

lemma attempt_case:
  assumes "attempt a c P m W" "\<And>e. failing (n e)" "\<And>x. attempt a c (W x) (k x) Q"
  shows "attempt a c P (bindT m (\<lambda>r. case r of Inl e \<Rightarrow> n e | Inr x \<Rightarrow> k x)) Q"
proof (rule attempt_bind [OF assms(1) [unfolded attempt_def]])
  fix r
  show "attempt a c (case r of Inl e \<Rightarrow> loose a | Inr x \<Rightarrow> W x) (case r of Inl e \<Rightarrow> n e | Inr x \<Rightarrow> k x) Q"
    by (cases r) (use assms(2,3) stable_loose in \<open>auto intro: attempt_failing\<close>)
qed

end
