(* ===== verification/Transition_Acquire.thy ===== *)
theory Transition_Acquire
  imports Transition_Triples
begin

text \<open>
  The calls of an acquisition that change the machine: which facts survive them, which they add, and the
  triples of the functions that make them.
\<close>

section \<open>Facts after one's own call\<close>

lemma own_facts:
  assumes ok: "machine_ok s" and m: "moves a c s t" and p: "persists a s t"
    and grow: "\<forall>d \<in> set (descs a s). \<exists>e \<in> set (descs a t). d_fd e = d_fd d \<and> d_ino e = d_ino d \<and>
      (\<forall>x. d_lock d = Some x \<longrightarrow> d_lock e = Some x)"
    and f: "fulfils a s f" and u: "f = Unlocked \<Longrightarrow> fulfils a t f" and k: "\<And>K. f = Traces K \<Longrightarrow> fulfils a t f"
    and n: "\<And>d n. f = Unmarked d n \<Longrightarrow> fulfils a t f" and v: "\<And>k. f = Free k \<Longrightarrow> fulfils a t f"
  shows "fulfils a t f"
proof -
  have l: "locks a t i x" if "locks a s i x" for i x
    using that grow unfolding locks_def by metis
  show ?thesis
  proof (cases f)
    case (Opened fd i)
    then show ?thesis using f grow by (metis fulfils.simps(1))
  next
    case (Frozen e)
    then show ?thesis using f guarded_by_mono [OF p l] moves_frozen [OF ok m] by auto
  next
    case (Settled e n i)
    then show ?thesis
      using f persists_settled [OF p] persists_kept [OF ok p] by (auto simp: settled_def)
  next
    case (Entry e n i)
    then show ?thesis using f persists_entry [OF p] persists_kept [OF ok p] by auto
  next
    case (Traces K)
    then show ?thesis by (rule k)
  next
    case Unlocked
    then show ?thesis by (rule u)
  next
    case (Unmarked d n)
    then show ?thesis by (rule n)
  next
    case (Free k)
    then show ?thesis by (rule v)
  qed (use f l in auto)
qed

text \<open>A call that opens, locks and marks nothing keeps every fact.\<close>

lemma quiet_facts:
  assumes "moves a c s t" "persists a s t" "descs a t = descs a s" "\<And>d n. traces a t d n \<Longrightarrow> traces a s d n"
    and "\<And>d n. marked a t d n \<Longrightarrow> marked a s d n" and "facts a F s"
  shows "facts a F t"
proof -
  have ok: "machine_ok s" using assms(6) by (simp add: facts_def)
  have "fulfils a t f" if "f \<in> F" for f
  proof -
    have "fulfils a s f" using assms(6) that by (simp add: facts_def)
    then show ?thesis by - (rule own_facts [OF ok assms(1,2)], use assms(3-5) in auto)
  qed
  then show ?thesis using moves_ok [OF ok assms(1)] by (simp add: facts_def)
qed

lemma opened_desc:
  assumes "machine_ok s" "fulfils a s (Opened fd i)"
  obtains d where "desc_of a s fd = Some d" "d_ino d = i" "d_fd d = fd" "d \<in> set (t_open s)" "d_owner d = a"
proof -
  obtain e where e: "e \<in> set (t_open s)" "d_owner e = a" "d_fd e = fd" "d_ino e = i"
    using assms(2) by (auto simp: descs_iff)
  obtain d where d: "desc_of a s fd = Some d"
    using e by (cases "desc_of a s fd") (auto simp: desc_of_def find_None_iff)
  have "descs_ok s" using assms(1) by (simp add: machine_ok_def)
  then have "d = e" using desc_of_Some [OF d] e descs_okD(1) by metis
  then show ?thesis using that d e by blast
qed

lemma opened_ino: "machine_ok s \<Longrightarrow> fulfils a s (Opened fd i) \<Longrightarrow> fd_ino a s (Some fd) = Some i"
  by (erule (1) opened_desc) (simp add: fd_ino_Some)

section \<open>Opening an existing entry\<close>

text \<open>What is known of the entry that was opened when its parent directory is.\<close>

definition link :: "fact set \<Rightarrow> nat option \<Rightarrow> string \<Rightarrow> nat \<Rightarrow> fact set" where
  "link F f n i = {Entry d n i | d pfd. f = Some pfd \<and> Opened pfd d \<in> F \<and> reserved n \<and> \<not> is_marker n}"

definition new_fd :: "nat \<Rightarrow> fact set \<Rightarrow> bool" where
  "new_fd fd F \<longleftrightarrow> (\<forall>k i. Opened k i \<in> F \<longrightarrow> k \<noteq> fd)"

definition opens :: "nat \<Rightarrow> fact set \<Rightarrow> nat \<Rightarrow> guard \<Rightarrow> guard \<Rightarrow> machine \<Rightarrow> bool" where
  "opens a F fd h g s \<longleftrightarrow> g = h \<and> facts a F s \<and>
     (\<forall>d \<in> set (descs a s). d_fd d = fd \<or> (\<exists>p \<in> set (gPins h). pFile p = Some (d_fd d))) \<and>
     (\<forall>p \<in> set (gPins h). pFile p = None \<or> pFile p = Some (pId p))"

lemma stable_opens: "stable_for a (opens a F fd h g)"
  using stable_facts [of a F]
  by (auto simp: among.stable_def opens_def facts_def rely_def unchanged_def)

lemma opens_tracked:
  "opens a F fd h g s \<Longrightarrow> pFile p = Some fd \<Longrightarrow> pId p = fd \<Longrightarrow> stands a F (addPin p h) (addPin p g) s"
  by (auto simp: opens_def stands_def tracked_def addPin_def)

lemma descs_new: "descs a (new_desc a i s) = \<lparr>d_owner = a, d_fd = t_fds s, d_ino = i, d_lock = None\<rparr> # descs a s"
  by (simp add: descs_def machine_simps)

lemma new_desc_facts:
  assumes "facts a F s" "i < t_next s"
  shows "facts a (insert (Free (t_fds s)) (insert (Opened (t_fds s) i) F)) (new_desc a i s)"
proof -
  have ok: "machine_ok s" using assms(1) by (simp add: facts_def)
  have m: "moves a c s (new_desc a i s)" for c by (rule Opens) (rule assms(2))
  have "fulfils a (new_desc a i s) f" if "f \<in> F" for f
  proof -
    have f: "fulfils a s f" using assms(1) that by (simp add: facts_def)
    show ?thesis
      by (rule own_facts [OF ok m [of False] moves_persists [OF ok m]])
         (use f in \<open>auto simp: descs_new traces_def marked_def machine_simps\<close>)
  qed
  moreover have "d_fd d \<noteq> t_fds s" if "d \<in> set (descs a s)" for d
    using ok that unfolding machine_ok_def descs_ok_def descs_iff by (metis less_irrefl)
  ultimately show ?thesis using moves_ok [OF ok m] by (auto simp: facts_def descs_new)
qed

lemma open_effect:
  assumes "stands a F h g s" "(AFd fd, t) \<in> may_serve a (QOpen f n m) s" "m \<noteq> OpenCreate"
  shows "new_fd fd F \<and> (\<exists>i. opens a (insert (Free fd) (insert (Opened fd i) F) \<union> link F f n i) fd h g t)"
proof -
  have F: "facts a F s" and ok: "machine_ok s" and tr: "tracked a h s" and g: "g = h"
    using assms(1) by (auto simp: stands_def facts_def)
  obtain ch where "serve a ch (QOpen f n m) s = (AFd fd, t)"
    using assms(2) by (auto simp: may_serve_def)
  then obtain i where i: "resolve a s f n = Inr i" "fd = t_fds s" "t = new_desc a i s"
    using assms(3) by (auto simp: serve_def serve_call_def serve_open_def split: option.splits sum.splits)
  have "facts a (insert (Free fd) (insert (Opened fd i) F)) t"
    using new_desc_facts [OF F] resolve_below [OF ok i(1)] i by simp
  moreover have "fulfils a t x" if "x \<in> link F f n i" for x
  proof -
    obtain d pfd where d: "x = Entry d n i" "f = Some pfd" "Opened pfd d \<in> F" "reserved n" "\<not> is_marker n"
      using \<open>x \<in> link F f n i\<close> by (auto simp: link_def)
    have "fd_ino a s (Some pfd) = Some d"
      by (rule opened_ino [OF ok]) (use F d(3) in \<open>auto simp: facts_def simp del: fulfils.simps\<close>)
    then have "entry s d n = Some i"
      using i(1) d(2) by (auto simp: resolve_def split: option.splits)
    then show ?thesis using d i(3) by (simp add: machine_simps kept_def)
  qed
  ultimately have "facts a (insert (Free fd) (insert (Opened fd i) F) \<union> link F f n i) t"
    by (auto simp: facts_def)
  moreover have "\<forall>d \<in> set (descs a t). d_fd d = fd \<or> (\<exists>p \<in> set (gPins h). pFile p = Some (d_fd d))"
    using tr i by (auto simp: descs_new tracked_def)
  moreover have "new_fd fd F"
    unfolding new_fd_def
  proof (intro allI impI)
    fix k j assume "Opened k j \<in> F"
    then obtain b where "d_fd b = k" "b \<in> set (t_open s)" by (rule opened_desc [OF ok factsD [OF F]])
    then show "k \<noteq> fd" using ok i(2) unfolding machine_ok_def descs_ok_def by (metis less_irrefl)
  qed
  ultimately show ?thesis using tr g by (auto simp: opens_def tracked_def)
qed

text \<open>A call whose answer is an error has changed nothing, except \<open>close\<close>.\<close>

lemma refused_stays:
  assumes "(AErr e, t) \<in> may_serve a q s" "case q of QClose _ \<Rightarrow> False | _ \<Rightarrow> True"
  shows "t = s"
proof -
  obtain ch where "serve a ch q s = (AErr e, t)" using assms(1) by (auto simp: may_serve_def)
  then show ?thesis
    using assms(2)
    by (cases q) (auto simp: serve_def serve_call_def serve_open_def serve_mkdir_def serve_unlink_def with_desc_def
      split: option.splits sum.splits if_splits)
qed

lemma open_answers:
  "(r, t) \<in> may_serve a (QOpen f n m) s \<Longrightarrow> (\<exists>fd. r = AFd fd) \<or> (\<exists>e. r = AErr e)"
  by (auto simp: may_serve_def serve_def serve_call_def serve_open_def split: option.splits sum.splits if_splits)

lemma stable_exists: "(\<And>x. stable_for a (P x)) \<Longrightarrow> stable_for a (\<lambda>s. \<exists>x. P x s)"
  unfolding among.stable_def by blast

lemma stable_fact: "(b \<Longrightarrow> stable_for a P) \<Longrightarrow> stable_for a (\<lambda>s. b \<and> P s)"
  unfolding among.stable_def by blast

lemma call_triple:
  assumes perm: "\<And>s. stands a F h h s \<Longrightarrow> permitted a c q s"
    and post: "\<And>s r t. stands a F h h s \<Longrightarrow> (r, t) \<in> may_serve a q s \<Longrightarrow> W (f r) h t"
    and stable: "\<And>x. stable_for a (W x h)"
  shows "triple_of a c (stands a F h) (bindT (askT q) (\<lambda>r. retT (f r))) W"
proof (rule among.hoare_bind)
  let ?W = "\<lambda>r g s. g = h \<and> W (f r) h s"
  have st: "stable_for a (?W r g)" for r g
    using stable unfolding among.stable_def by blast
  show "triple_of a c (stands a F h) (askT q) ?W"
  proof (rule among.hoare_call [OF stable_stands])
    show "permitted a c q s" if "stands a F h g s" for g s
    proof -
      have "g = h" using that by (simp add: stands_def)
      then show ?thesis using perm that by simp
    qed
    fix g s r t u
    assume s: "stands a F h g s" "(r, t) \<in> may_serve a q s" and u: "rely a t u"
    have "g = h" using s(1) by (simp add: stands_def)
    then have "?W r g t" using post s by auto
    then show "?W r g u" using st [where r = r and g = g] u unfolding among.stable_def by blast
  qed
  show "triple_of a c (?W r) (retT (f r)) W" for r
    by (rule among.hoare_return [OF st]) auto
qed

lemma call_attempt:
  assumes perm: "\<And>s. stands a F h h s \<Longrightarrow> permitted a c q s"
    and post: "\<And>s r t. stands a F h h s \<Longrightarrow> (r, t) \<in> may_serve a q s \<Longrightarrow>
      case f r of Inl e \<Rightarrow> loose a h t | Inr x \<Rightarrow> Q x h t"
    and stable: "\<And>x. stable_for a (Q x h)"
  shows "attempt a c (stands a F h) (bindT (askT q) (\<lambda>r. retT (f r))) Q"
  unfolding attempt_def
proof (rule call_triple [OF perm])
  fix s r t assume "stands a F h h s" "(r, t) \<in> may_serve a q s"
  from post [OF this] show "(case f r of Inl e \<Rightarrow> loose a | Inr x \<Rightarrow> Q x) h t"
    by (cases "f r") simp_all
next
  show "stable_for a ((case x of Inl e \<Rightarrow> loose a | Inr x \<Rightarrow> Q x) h)" for x
    using stable stable_loose by (cases x) simp_all
qed

lemma openAt_attempt:
  assumes "m \<noteq> OpenCreate"
  shows "attempt a c (stands a F h) (openAt f n m) (\<lambda>fd g s. new_fd fd F \<and> (\<exists>i. opens a (insert (Free fd) (insert (Opened fd i) F) \<union> link F f n i) fd h g s))"
  unfolding openAt_def
proof (rule attempt_try [OF attempt_reading [OF reading_calls(1)]], rule call_attempt)
  show "permitted a c (QOpen f n m) s" for s using assms by (simp add: permitted_def)
  fix s r t assume s: "stands a F h h s" "(r, t) \<in> may_serve a (QOpen f n m) s"
  then show "case case r of AErr e \<Rightarrow> Inl (Errno e) | AFd x \<Rightarrow> Inr x | _ \<Rightarrow> Inl Unexpected of Inl e \<Rightarrow> loose a h t
    | Inr fd \<Rightarrow> new_fd fd F \<and> (\<exists>i. opens a (insert (Free fd) (insert (Opened fd i) F) \<union> link F f n i) fd h h t)"
    using open_answers [OF s(2)] open_effect [OF s(1) _ assms] refused_stays stands_loose by fastforce
qed (auto intro!: stable_fact stable_exists stable_opens)

section \<open>Pins\<close>

abbreviation new_pin :: "nat \<Rightarrow> nat option \<Rightarrow> string \<Rightarrow> stat \<Rightarrow> pin_kind \<Rightarrow> pin" where
  "new_pin fd f n st k \<equiv> \<lparr>pId = fd, pParent = f, pFile = Some fd, pName = n, pStat = st, pKind = k\<rparr>"

lemma pinned_attempt:
  "attempt a c (opens a F fd h) (bindT (setT (addPin (new_pin fd f n st k))) (\<lambda>_. tryT check (\<lambda>_. retT (Inr (new_pin fd f n st k)))))
     (\<lambda>p g s. p = new_pin fd f n st k \<and> stands a F (addPin p h) g s)"
proof (rule attempt_bind [where W = "\<lambda>_. stands a F (addPin (new_pin fd f n st k) h)"])
  show "triple_of a c (opens a F fd h) (setT (addPin (new_pin fd f n st k))) (\<lambda>_. stands a F (addPin (new_pin fd f n st k) h))"
    by (rule among.hoare_update [OF stable_opens]) (rule opens_tracked, auto)
  show "attempt a c (stands a F (addPin (new_pin fd f n st k) h)) (tryT check (\<lambda>_. retT (Inr (new_pin fd f n st k))))
     (\<lambda>p g s. p = new_pin fd f n st k \<and> stands a F (addPin p h) g s)"
    by (rule attempt_try [OF attempt_reading [OF reading_check]], rule attempt_return) (auto intro: stable_stands)
qed

definition pinned :: "nat \<Rightarrow> fact set \<Rightarrow> guard \<Rightarrow> nat option \<Rightarrow> string \<Rightarrow> pin_kind \<Rightarrow> pin \<Rightarrow> guard \<Rightarrow> machine \<Rightarrow> bool" where
  "pinned a F h f n k p g s \<longleftrightarrow> (\<exists>fd i st. p = new_pin fd f n st k \<and> new_fd fd F \<and>
     stands a (insert (Free fd) (insert (Opened fd i) F) \<union> link F f n i) (addPin p h) g s)"

lemma existing_attempt: "attempt a c (stands a F h) (existing f n k) (pinned a F h f n k)"
  unfolding existing_def Let_def
  by (intro attempt_case [OF attempt_reading [OF reading_named]] attempt_get attempt_if attempt_stands_failing
      failing_tasks attempt_case [OF openAt_attempt] attempt_fact attempt_exists)
     (auto simp: pinned_def intro!: attempt_post [OF pinned_attempt])

section \<open>Making directories\<close>

lemma quiet_stands:
  assumes "stands a F h g s" "moves a c s t" "persists a s t" "descs a t = descs a s"
    and "\<And>d n. traces a t d n \<Longrightarrow> traces a s d n" "\<And>d n. marked a t d n \<Longrightarrow> marked a s d n"
  shows "stands a F h g t"
  using assms quiet_facts [OF assms(2-6)] by (auto simp: stands_def tracked_def)

lemma traces_created:
  assumes ok: "machine_ok s" and new: "entry s d n = None"
    and tr: "traces b (new_inode a x (touch d k (bind_entry d n (t_next s) s))) e m"
  shows "traces b s e m \<or> is_marker n \<and> e = d \<and> m = n"
proof -
  obtain i where i: "is_marker m" "((t_maker s)(t_next s := Some a)) i = Some b"
      "(if e = d \<and> m = n then Some (t_next s) else entry s e m) = Some i \<or> logged s e m (Some i)"
    using tr new by (auto simp: traces_def machine_simps)
  show ?thesis
  proof (cases "e = d \<and> m = n")
    case False
    then have old: "entry s e m = Some i \<or> logged s e m (Some i)" using i(3) by (simp only: False if_False)
    then have "i < t_next s" using ok unfolding machine_ok_def inodes_ok_def by blast
    then show ?thesis using i(1,2) old by (auto simp: traces_def)
  qed (use i(1) in auto)
qed

lemma marked_created:
  assumes ok: "machine_ok s" and "marked b (new_inode a x (touch d k (bind_entry d n (t_next s) s))) e m"
  shows "marked b s e m \<or> is_marker n \<and> e = d \<and> m = n"
  using assms(2) entry_below [OF ok]
  by (auto simp: marked_def machine_simps split: if_splits)

lemma mkdir_effect:
  assumes st: "stands a F h g s" and r: "(r, t) \<in> may_serve a (QMkdir f n) s" and n: "n = factoryName \<or> n = activityName"
  shows "stands a F h g t"
proof -
  have ok: "machine_ok s" using st by (simp add: stands_def facts_def)
  have m: "moves a False s t"
    by (rule served_moves [OF ok _ r]) (use n in \<open>auto simp: permitted_def\<close>)
  obtain ch where "serve a ch (QMkdir f n) s = (r, t)" using r by (auto simp: may_serve_def)
  then have "t = s \<or> (\<exists>d k x. entry s d n = None \<and> t = new_inode a x (touch d k (bind_entry d n (t_next s) s)))"
    by (auto simp: serve_def serve_call_def serve_mkdir_def split: option.splits if_splits)
  then have "descs a t = descs a s" and "\<And>d m. traces a t d m \<Longrightarrow> traces a s d m"
      and "\<And>d m. marked a t d m \<Longrightarrow> marked a s d m"
    using n traces_created [OF ok] marked_created [OF ok]
    by (auto simp: descs_def machine_simps) (metis reserved_names(6,7))+
  then show ?thesis
    by (intro quiet_stands [OF st m moves_persists [OF ok m]]) auto
qed

lemma mkdir_call:
  assumes "n = factoryName \<or> n = activityName"
  shows "triple_of a c (stands a F h) (plainCall (QMkdir f n)) (\<lambda>_. stands a F h)"
  unfolding plainCall_def
proof (rule among.hoare_bind, rule among.hoare_call [OF stable_stands])
  show "permitted a c (QMkdir f n) s" for s using assms by (simp add: permitted_def)
  show "stands a F h g u" if "stands a F h g s" "(r, t) \<in> may_serve a (QMkdir f n) s" "rely a t u" for g s r t u
    using mkdir_effect [OF that(1,2) assms] that(3) stable_stands unfolding among.stable_def by blast
qed (auto intro: among.hoare_return stable_stands)

lemma directory_attempt:
  assumes "n = factoryName \<or> n = activityName"
  shows "attempt a c (stands a F h) (directory p n b) (pinned a F h (pFile p) n (if b then PinPrivate else PinDirectory))"
proof -
  let ?Q = "pinned a F h (pFile p) n (if b then PinPrivate else PinDirectory)"
  have made: "attempt a c (stands a F h) (made_directory p n b) ?Q"
    unfolding made_directory_def by (rule existing_attempt)
  have refused: "attempt a c (stands a F h) m ?Q" if "failing m" for m
    using that by (rule attempt_stands_failing)
  have mkdir: "attempt a c (stands a F h) (bindT (plainCall (QMkdir (pFile p) n)) (\<lambda>m. case m of
             Inl x \<Rightarrow> if x = Errno EEXIST then made_directory p n b else retT (Inl storageError)
           | Inr _ \<Rightarrow> made_directory p n b)) ?Q"
  proof (rule attempt_bind [OF mkdir_call [OF assms]])
    show "attempt a c (stands a F h) (case r of
             Inl x \<Rightarrow> if x = Errno EEXIST then made_directory p n b else retT (Inl storageError)
           | Inr _ \<Rightarrow> made_directory p n b) ?Q" for r :: "failure + unit"
      by (cases r) (simp_all add: made refused split del: if_split, simp add: made refused)
  qed
  have named: "attempt a c (stands a F h) (bindT (named (pFile p) n) (\<lambda>r. case r of
       Inr _ \<Rightarrow> made_directory p n b
     | Inl e \<Rightarrow> if e = Errno ENOENT then bindT (plainCall (QMkdir (pFile p) n)) (\<lambda>m. case m of
             Inl x \<Rightarrow> if x = Errno EEXIST then made_directory p n b else retT (Inl storageError)
           | Inr _ \<Rightarrow> made_directory p n b)
         else joinContext storageError)) ?Q"
  proof (rule attempt_bind [OF reading_triple [OF reading_named stable_stands]])
    show "attempt a c (stands a F h) (case r of
       Inr _ \<Rightarrow> made_directory p n b
     | Inl e \<Rightarrow> if e = Errno ENOENT then bindT (plainCall (QMkdir (pFile p) n)) (\<lambda>m. case m of
             Inl x \<Rightarrow> if x = Errno EEXIST then made_directory p n b else retT (Inl storageError)
           | Inr _ \<Rightarrow> made_directory p n b)
         else joinContext storageError) ?Q" for r :: "failure + stat"
    proof (cases r)
      case (Inl e)
      then show ?thesis by (cases "e = Errno ENOENT") (simp_all only: sum.case simp_thms if_True if_False mkdir refused failing_tasks)
    qed (simp add: made)
  qed
  show ?thesis
    unfolding directory_def by (rule attempt_try [OF attempt_reading [OF reading_check] named])
qed

section \<open>Creating control files\<close>

lemma create_effect:
  assumes st: "stands a F h g s" and r: "(AFd fd, t) \<in> may_serve a (QOpen f n OpenCreate) s"
    and perm: "permitted a False (QOpen f n OpenCreate) s"
    and E: "\<And>K. Traces K \<in> F \<Longrightarrow> \<not> is_marker n" "\<And>e m. Unmarked e m \<notin> F"
    and pfd: "f = Some pfd" "Opened pfd d \<in> F"
  shows "fd \<noteq> pfd \<and> (\<exists>i. opens a (insert (Opened fd i) (insert (Entry d n i) F)) fd h g t \<and> t_maker t i = Some a \<and>
     (is_marker n \<longrightarrow> (\<forall>e m. traces a t e m \<longrightarrow> traces a s e m \<or> e = d \<and> m = n)))"
proof -
  have F: "facts a F s" and ok: "machine_ok s" and tr: "tracked a h s" and g: "g = h"
    using st by (auto simp: stands_def facts_def)
  have m: "moves a False s t" by (rule served_moves [OF ok perm r])
  have d: "fd_ino a s f = Some d"
    unfolding pfd(1) by (rule opened_ino [OF ok]) (use F pfd in \<open>auto simp: facts_def simp del: fulfils.simps\<close>)
  obtain ch where "serve a ch (QOpen f n OpenCreate) s = (AFd fd, t)" using r by (auto simp: may_serve_def)
  then have t: "fd = t_fds s" "entry s d n = None"
      "t = new_desc a (t_next s) (new_inode a (file_attrs ch) (touch d (ch_stamp ch) (bind_entry d n (t_next s) s)))"
    using d by (auto simp: serve_def serve_call_def serve_open_def split: option.splits if_splits)
  have descs: "descs a t = \<lparr>d_owner = a, d_fd = t_fds s, d_ino = t_next s, d_lock = None\<rparr> # descs a s"
    using t by (simp add: descs_def machine_simps)
  have traces: "traces a t e m \<Longrightarrow> traces a s e m \<or> is_marker n \<and> e = d \<and> m = n" for e m
    using traces_created [OF ok t(2), of a a] t(3) by (simp add: traces_def machine_simps)
  have "fulfils a t x" if "x \<in> F" for x
  proof -
    have x: "fulfils a s x" using F that by (simp add: facts_def)
    show ?thesis
      by (rule own_facts [OF ok m moves_persists [OF ok m]])
         (use x that traces E in \<open>auto simp: descs\<close>)
  qed
  moreover have n: "reserved n" using perm d by (auto simp: permitted_def)
  have "entry t d n = Some (t_next s)" "kept a t n (t_next s)" "t_maker t (t_next s) = Some a"
    using t n by (auto simp: machine_simps kept_def)
  ultimately have "facts a (insert (Opened fd (t_next s)) (insert (Entry d n (t_next s)) F)) t"
    using moves_ok [OF ok m] t(1) by (simp add: facts_def descs)
  then have "opens a (insert (Opened fd (t_next s)) (insert (Entry d n (t_next s)) F)) fd h g t"
    using tr g t(1) by (auto simp: opens_def tracked_def descs)
  moreover have "fd \<noteq> pfd"
  proof -
    obtain b where "d_fd b = pfd" "b \<in> set (t_open s)"
      by (rule opened_desc [OF ok factsD [OF F pfd(2)]])
    then show ?thesis using ok t(1) unfolding machine_ok_def descs_ok_def by (metis less_irrefl)
  qed
  ultimately show ?thesis using \<open>t_maker t (t_next s) = Some a\<close> traces by blast
qed

end
