(* ===== verification/Transition_Locking.thy ===== *)
theory Transition_Locking
  imports Transition_Acquire
begin

text \<open>
  The triples of \<open>control\<close>, \<open>flock\<close>, \<open>sync\<close> and the look at the activity directory, and of the clean-up that
  closes every file of the pins.
\<close>

section \<open>The lock file and the marker\<close>

lemma create_triple:
  assumes E: "\<And>K. Traces K \<in> F \<Longrightarrow> \<not> is_marker n" "\<And>e m. Unmarked e m \<notin> F" and pfd: "f = Some pfd" "Opened pfd d \<in> F"
    and perm: "\<And>s. facts a F s \<Longrightarrow> permitted a False (QOpen f n OpenCreate) s"
  shows "triple_of a False (stands a F h) (openAt f n OpenCreate) (\<lambda>r. case r of Inl e \<Rightarrow> stands a F h
     | Inr fd \<Rightarrow> \<lambda>g s. \<exists>i. opens a (insert (Opened fd i) (insert (Entry d n i) F)) fd h g s)" (is "triple_of _ _ _ _ ?W")
  unfolding openAt_def
proof (rule among.hoare_try [OF reading_triple [OF reading_calls(1) stable_stands]], rule call_triple)
  show "permitted a False (QOpen f n OpenCreate) s" if "stands a F h h s" for s
    using perm that by (simp add: stands_def)
  fix s r t assume s: "stands a F h h s" "(r, t) \<in> may_serve a (QOpen f n OpenCreate) s"
  have p: "permitted a False (QOpen f n OpenCreate) s" using perm s(1) by (simp add: stands_def)
  show "?W (case r of AErr e \<Rightarrow> Inl (Errno e) | AFd x \<Rightarrow> Inr x | _ \<Rightarrow> Inl Unexpected) h t"
  proof (rule disjE [OF open_answers [OF s(2)]]; elim exE)
    fix fd assume r: "r = AFd fd"
    have "fd \<noteq> pfd \<and> (\<exists>i. opens a (insert (Opened fd i) (insert (Entry d n i) F)) fd h h t \<and> t_maker t i = Some a \<and>
        (is_marker n \<longrightarrow> (\<forall>e m. traces a t e m \<longrightarrow> traces a s e m \<or> e = d \<and> m = n)))"
      by (rule create_effect [OF s(1) s(2) [unfolded r] p E pfd])
    then show ?thesis using r by auto
  next
    fix e assume r: "r = AErr e"
    then have "t = s" using refused_stays [OF s(2) [unfolded r]] by simp
    then show ?thesis using s(1) r by simp
  qed
qed (auto intro: stable_exists stable_opens stable_stands split: sum.splits)

lemma marker_attempt:
  assumes n: "is_marker n" and pfd: "f = Some pfd" "Opened pfd d \<in> F"
    and guard: "Locks l False \<in> F" "Entry e lockName l \<in> F" "Entry e activityName d \<in> F" and T: "\<And>K. Traces K \<notin> F" "\<And>e m. Unmarked e m \<notin> F"
  shows "attempt a False (stands a (insert (Traces None) F) h) (openAt f n OpenCreate)
     (\<lambda>fd g s. fd \<noteq> pfd \<and> (\<exists>i. opens a (insert (Traces (Some (d, n))) (insert (Opened fd i) (insert (Entry d n i) F))) fd h g s))"
  unfolding openAt_def
proof (rule attempt_try [OF attempt_reading [OF reading_calls(1)]], rule call_attempt)
  have perm: "permitted a False (QOpen f n OpenCreate) s" if "facts a F s" for s
  proof -
    have "fd_ino a s f = Some d"
      unfolding pfd(1) by (rule opened_ino) (use that pfd in \<open>auto simp: facts_def simp del: fulfils.simps\<close>)
    moreover have "guarded_by a s False d"
      using that guard unfolding guarded_by_def facts_def by (metis fulfils.simps(2,3))
    ultimately show ?thesis using n by (simp add: permitted_def)
  qed
  have F: "facts a F s" if "stands a (insert (Traces None) F) h h s" for s
    using that by (simp add: stands_def facts_def)
  show "permitted a False (QOpen f n OpenCreate) s" if "stands a (insert (Traces None) F) h h s" for s
    using perm F that by blast
  fix s r t assume s: "stands a (insert (Traces None) F) h h s" "(r, t) \<in> may_serve a (QOpen f n OpenCreate) s"
  have S: "stands a F h h s" using stands_subset [OF s(1)] by blast
  have none: "\<not> traces a s e m" for e m using s(1) by (auto simp: stands_def facts_def)
  have p: "permitted a False (QOpen f n OpenCreate) s" by (rule perm [OF F [OF s(1)]])
  show "case case r of AErr e \<Rightarrow> Inl (Errno e) | AFd x \<Rightarrow> Inr x | _ \<Rightarrow> Inl Unexpected of Inl e \<Rightarrow> loose a h t
    | Inr fd \<Rightarrow> fd \<noteq> pfd \<and> (\<exists>i. opens a (insert (Traces (Some (d, n))) (insert (Opened fd i) (insert (Entry d n i) F))) fd h h t)"
  proof (rule disjE [OF open_answers [OF s(2)]]; elim exE)
    fix fd assume r: "r = AFd fd"
    obtain i where i: "opens a (insert (Opened fd i) (insert (Entry d n i) F)) fd h h t"
        "\<forall>e m. traces a t e m \<longrightarrow> traces a s e m \<or> e = d \<and> m = n" "fd \<noteq> pfd"
      using create_effect [OF S s(2) [unfolded r] p _ _ pfd] T n by auto
    have "fulfils a t (Traces (Some (d, n)))" using i(2) none by auto
    then have "opens a (insert (Traces (Some (d, n))) (insert (Opened fd i) (insert (Entry d n i) F))) fd h h t"
      using i(1) by (auto simp: opens_def facts_def)
    then show ?thesis using r i(3) by auto
  next
    fix e assume r: "r = AErr e"
    then have "t = s" using refused_stays [OF s(2) [unfolded r]] by simp
    then show ?thesis using stands_loose [OF s(1)] r by simp
  qed
qed (auto intro!: stable_fact stable_exists stable_opens)

text \<open>What follows a creation: the new file is pinned on every path.\<close>

lemma fresh_control_attempt:
  "attempt a c (opens a F fd h) (bindT (statCall (QFstat (Some fd))) (\<lambda>r.
     (let st = (case r of Inl _ \<Rightarrow> zero_stat | Inr st \<Rightarrow> st); p = new_pin fd f n st PinControl
      in bindT (setT (addPin p)) (\<lambda>_. bindT (getT gUid) (\<lambda>uid.
           if failure_of r \<noteq> None \<or> \<not> safe uid st PinControl then retT (Inl storageError)
           else tryT check (\<lambda>_. retT (Inr p)))))))
   (\<lambda>p g s. \<exists>st. p = new_pin fd f n st PinControl \<and> stands a F (addPin p h) g s)"
proof (rule attempt_bind [OF reading_triple [OF _ stable_opens]])
  show "reading (statCall (QFstat (Some fd)))" by (rule reading_calls) simp
  fix r :: "failure + stat"
  let ?st = "case r of Inl _ \<Rightarrow> zero_stat | Inr st \<Rightarrow> st"
  let ?p = "new_pin fd f n ?st PinControl"
  show "attempt a c (opens a F fd h) (let st = ?st; p = new_pin fd f n st PinControl
      in bindT (setT (addPin p)) (\<lambda>_. bindT (getT gUid) (\<lambda>uid.
           if failure_of r \<noteq> None \<or> \<not> safe uid st PinControl then retT (Inl storageError)
           else tryT check (\<lambda>_. retT (Inr p)))))
   (\<lambda>p g s. \<exists>st. p = new_pin fd f n st PinControl \<and> stands a F (addPin p h) g s)"
    unfolding Let_def
  proof (rule attempt_set [where W = "stands a F (addPin ?p h)"], rule attempt_get, rule attempt_if)
    show "attempt a c (stands a F (addPin ?p h)) (tryT check (\<lambda>_. retT (Inr ?p)))
        (\<lambda>p g s. \<exists>st. p = new_pin fd f n st PinControl \<and> stands a F (addPin p h) g s)"
      by (rule attempt_try [OF attempt_reading [OF reading_check]], rule attempt_return) (auto intro: stable_stands)
  qed (auto intro!: attempt_stands_failing opens_tracked)
qed

lemma control_lock_attempt:
  assumes pfd: "pFile p = Some pfd" "Opened pfd d \<in> F" and un: "\<And>e m. Unmarked e m \<notin> F"
  shows "attempt a False (stands a F h) (control p lockName True) (\<lambda>q g s. \<exists>fd i st.
     q = new_pin fd (Some pfd) lockName st PinControl \<and>
     stands a (insert (Opened fd i) (insert (Entry d lockName i) F)) (addPin q h) g s)"
    (is "attempt _ _ _ _ ?Q")
proof -
  have opened: "attempt a False (stands a F h) (existing (Some pfd) lockName PinControl) ?Q"
  proof (rule attempt_post [OF existing_attempt])
    fix q g s assume "pinned a F h (Some pfd) lockName PinControl q g s"
    then obtain fd i st where "q = new_pin fd (Some pfd) lockName st PinControl"
        and st: "stands a (insert (Free fd) (insert (Opened fd i) F) \<union> link F (Some pfd) lockName i) (addPin q h) g s"
      by (auto simp: pinned_def)
    moreover have "stands a (insert (Opened fd i) (insert (Entry d lockName i) F)) (addPin q h) g s"
      by (rule stands_subset [OF st]) (use pfd in \<open>auto simp: link_def\<close>)
    ultimately show "?Q q g s" by blast
  qed
  have created: "attempt a False (\<lambda>g s. \<exists>i. opens a (insert (Opened fd i) (insert (Entry d lockName i) F)) fd h g s)
     (bindT (statCall (QFstat (Some fd))) (\<lambda>r.
     (let st = (case r of Inl _ \<Rightarrow> zero_stat | Inr st \<Rightarrow> st); p = new_pin fd (Some pfd) lockName st PinControl
      in bindT (setT (addPin p)) (\<lambda>_. bindT (getT gUid) (\<lambda>uid.
           if failure_of r \<noteq> None \<or> \<not> safe uid st PinControl then retT (Inl storageError)
           else tryT check (\<lambda>_. retT (Inr p))))))) ?Q" for fd
    by (rule attempt_exists, rule attempt_post [OF fresh_control_attempt]) blast
  note create = create_triple [OF _ un refl pfd(2), of lockName a h]
  show ?thesis
    unfolding control_def pfd(1)
  proof (rule attempt_try [OF attempt_reading [OF reading_check]], rule attempt_bind [OF create])
    fix r :: "failure + nat"
    let ?P = "case r of Inl e \<Rightarrow> stands a F h | Inr fd \<Rightarrow> \<lambda>g s. \<exists>i. opens a (insert (Opened fd i) (insert (Entry d lockName i) F)) fd h g s"
    show "attempt a False ?P (case r of
       Inl e \<Rightarrow> if e = Errno EEXIST \<and> True then existing (Some pfd) lockName PinControl else joinContext storageError
     | Inr fd \<Rightarrow> bindT (statCall (QFstat (Some fd))) (\<lambda>f.
         (let st = (case f of Inl _ \<Rightarrow> zero_stat | Inr st \<Rightarrow> st); p = new_pin fd (Some pfd) lockName st PinControl
          in bindT (setT (addPin p)) (\<lambda>_. bindT (getT gUid) (\<lambda>uid.
               if failure_of f \<noteq> None \<or> \<not> safe uid st PinControl then retT (Inl storageError)
               else tryT check (\<lambda>_. retT (Inr p))))))) ?Q"
    proof (cases r)
      case (Inl e)
      then show ?thesis using opened by (cases "e = Errno EEXIST") (auto intro: attempt_stands_failing)
    qed (use created in simp)
  qed (auto simp: permitted_def)
qed

lemma control_marker_attempt:
  assumes n: "is_marker n" and pfd: "pFile p = Some pfd" "Opened pfd d \<in> F"
    and guard: "Locks l False \<in> F" "Entry e lockName l \<in> F" "Entry e activityName d \<in> F" and T: "\<And>K. Traces K \<notin> F" "\<And>e m. Unmarked e m \<notin> F"
  shows "attempt a False (stands a (insert (Traces None) F) h) (control p n False) (\<lambda>q g s. \<exists>fd i st.
     q = new_pin fd (Some pfd) n st PinControl \<and> fd \<noteq> pfd \<and>
     stands a (insert (Traces (Some (d, n))) (insert (Opened fd i) (insert (Entry d n i) F))) (addPin q h) g s)"
  unfolding control_def pfd(1) simp_thms if_False
  by (rule attempt_try [OF attempt_reading [OF reading_check]],
      rule attempt_case [OF marker_attempt [OF n refl pfd(2) guard T]], simp, rule attempt_fact, rule attempt_exists,
      rule attempt_post [OF fresh_control_attempt]) blast

section \<open>Locking and synchronising\<close>

lemma lock_descs:
  "set (descs a (lock_desc a fd x s)) = (\<lambda>d. if d_fd d = fd then d\<lparr>d_lock := Some x\<rparr> else d) ` set (descs a s)"
  by (auto simp: descs_def machine_simps)

lemma locked_desc:
  assumes "d \<in> set (descs a s)"
  obtains e where "e \<in> set (descs a (lock_desc a fd x s))" "d_fd e = d_fd d" "d_ino e = d_ino d"
    "d_fd d = fd \<longrightarrow> d_lock e = Some x" "d_fd d \<noteq> fd \<longrightarrow> d_lock e = d_lock d"
proof
  let ?e = "if d_fd d = fd then d\<lparr>d_lock := Some x\<rparr> else d"
  show "?e \<in> set (descs a (lock_desc a fd x s))" unfolding lock_descs using assms by (rule imageI)
qed auto

lemma locked_facts:
  assumes F: "facts a F s" and U: "Unlocked \<notin> F" "fulfils a s Unlocked" "\<And>k. Free k \<notin> F" and e: "e \<in> set (descs a s)"
    and m: "moves a False s (lock_desc a (d_fd e) x s)"
  shows "facts a (insert (Locks (d_ino e) x) F) (lock_desc a (d_fd e) x s)"
proof -
  let ?t = "lock_desc a (d_fd e) x s"
  have ok: "machine_ok s" using F by (simp add: facts_def)
  have "fulfils a ?t f" if "f \<in> F" for f
  proof (rule own_facts [OF ok m moves_persists [OF ok m]])
    show "fulfils a s f" by (rule factsD [OF F that])
    then show "fulfils a ?t f" if "f = Traces K" for K
      using that by (auto simp: traces_def machine_simps)
    show "fulfils a ?t f" if "f = Unmarked d n" for d n
      using that \<open>fulfils a s f\<close> by (auto simp: marked_def machine_simps)
    show "\<forall>d \<in> set (descs a s). \<exists>e \<in> set (descs a ?t). d_fd e = d_fd d \<and> d_ino e = d_ino d \<and>
        (\<forall>x. d_lock d = Some x \<longrightarrow> d_lock e = Some x)"
    proof
      fix d assume d: "d \<in> set (descs a s)"
      then have "d_lock d = None" using U(2) by simp
      then show "\<exists>e \<in> set (descs a ?t). d_fd e = d_fd d \<and> d_ino e = d_ino d \<and> (\<forall>x. d_lock d = Some x \<longrightarrow> d_lock e = Some x)"
        by (auto intro: locked_desc [OF d])
    qed
  qed (use U(1,3) that in auto)
  moreover have "locks a ?t (d_ino e) x"
    by (rule locked_desc [OF e, of "d_fd e" x]) (auto simp: locks_def)
  ultimately show ?thesis using moves_ok [OF ok m] by (simp add: facts_def)
qed

lemma flock_effect:
  assumes st: "stands a (insert Unlocked F) h g s" and U: "Unlocked \<notin> F" "\<And>k. Free k \<notin> F" and fd: "Opened fd l \<in> F"
    and r: "(r, t) \<in> may_serve a (QFlock (Some fd) x) s" "\<And>e. r \<noteq> AErr e"
  shows "stands a (insert (Locks l x) F) h g t"
proof -
  have F: "facts a F s" "fulfils a s Unlocked" and ok: "machine_ok s"
    using st by (auto simp: stands_def facts_def)
  have m: "moves a False s t"
    by (rule served_moves [OF ok _ r(1)]) (use F(2) in \<open>simp add: permitted_def\<close>)
  have op: "fulfils a s (Opened fd l)" by (rule factsD [OF F(1) fd])
  obtain d where d: "desc_of a s fd = Some d" "d_ino d = l" "d_fd d = fd" "d \<in> set (t_open s)" "d_owner d = a"
    by (rule opened_desc [OF ok op])
  obtain ch where "serve a ch (QFlock (Some fd) x) s = (r, t)" using r(1) by (auto simp: may_serve_def)
  then have t: "t = lock_desc a (d_fd d) x s"
    using d r(2) by (auto simp: serve_def serve_call_def with_desc_def split: option.splits if_splits)
  have "facts a (insert (Locks l x) F) t"
    using locked_facts [OF F(1) U(1) F(2) U(2), of d x] d m t by (simp add: descs_iff)
  moreover have "tracked a h t"
  proof (rule tracked_fds [of a h s])
    show "tracked a h s" using st by (auto simp: stands_def)
    show "\<exists>d \<in> set (descs a s). d_fd e = d_fd d" if "e \<in> set (descs a t)" for e
      using that unfolding t lock_descs by (auto split: if_splits) metis
  qed
  ultimately show ?thesis using st by (simp add: stands_def)
qed

lemma plain_triple:
  assumes "\<And>s. stands a F h h s \<Longrightarrow> permitted a c q s" "case q of QClose _ \<Rightarrow> False | _ \<Rightarrow> True"
    and "\<And>s r t. stands a F h h s \<Longrightarrow> (r, t) \<in> may_serve a q s \<Longrightarrow> (\<And>e. r \<noteq> AErr e) \<Longrightarrow> stands a E h h t"
  shows "attempt a c (stands a F h) (plainCall q) (\<lambda>_. stands a E h)"
  unfolding plainCall_def
proof (rule call_attempt)
  show "permitted a c q s" if "stands a F h h s" for s using that by (rule assms(1))
  fix s r t assume s: "stands a F h h s" "(r, t) \<in> may_serve a q s"
  show "case case r of AErr e \<Rightarrow> Inl (Errno e) | _ \<Rightarrow> Inr () of Inl e \<Rightarrow> loose a h t | Inr _ \<Rightarrow> stands a E h h t"
  proof (cases "\<exists>e. r = AErr e")
    case True
    then show ?thesis using refused_stays [OF _ assms(2)] s stands_loose by fastforce
  next
    case False
    then show ?thesis using assms(3) [OF s] by (auto split: answer.splits)
  qed
qed (rule stable_stands)

lemma flockGuard_attempt:
  assumes "lockFile h = Some fd" "Opened fd l \<in> F" "Unlocked \<notin> F" "\<And>k. Free k \<notin> F"
  shows "attempt a c (stands a (insert Unlocked F) h) (flockGuard x) (\<lambda>_. stands a (insert (Locks l x) F) h)"
proof -
  have call: "attempt a c (stands a (insert Unlocked F) h) (plainCall (QFlock (Some fd) x)) (\<lambda>_. stands a (insert (Locks l x) F) h)"
    by (rule plain_triple) (simp_all add: permitted_def flock_effect [OF _ assms(3,4,2)], simp add: stands_def facts_def)
  show ?thesis
    unfolding flockGuard_def
    by (rule attempt_try [OF attempt_reading [OF reading_check]], rule attempt_get, unfold id_apply assms(1),
        rule attempt_case [OF call _ attempt_reading [OF reading_check]]) simp
qed

text \<open>Synchronising a directory settles its entries.\<close>

definition settle_facts :: "nat \<Rightarrow> fact set \<Rightarrow> fact set" where
  "settle_facts d F = F \<union> {Settled d n i | n i. Entry d n i \<in> F}"

lemma sync_effect:
  assumes st: "stands a F h g s" and fd: "Opened fd d \<in> F"
    and r: "(r, t) \<in> may_serve a (QSync (Some fd)) s" "\<And>e. r \<noteq> AErr e"
  shows "stands a (settle_facts d F) h g t"
proof -
  have F: "facts a F s" and ok: "machine_ok s" using st by (auto simp: stands_def facts_def)
  have m: "moves a False s t" by (rule served_moves [OF ok _ r(1)]) (simp add: permitted_def)
  obtain b where b: "desc_of a s fd = Some b" "d_ino b = d"
    by (rule opened_desc [OF ok factsD [OF F fd]])
  obtain ch where "serve a ch (QSync (Some fd)) s = (r, t)" using r(1) by (auto simp: may_serve_def)
  then have t: "t = sync_entries d s"
    using b r(2) by (auto simp: serve_def serve_call_def with_desc_def split: option.splits)
  have "stands a F h g t"
    by (rule quiet_stands [OF st m moves_persists [OF ok m]]) (auto simp: t descs_def traces_def marked_def machine_simps)
  moreover have "fulfils a t (Settled d n i)" if "Entry d n i \<in> F" for n i
    using factsD [OF F that] by (auto simp: t settled_def machine_simps kept_def)
  ultimately show ?thesis by (auto simp: stands_def facts_def settle_facts_def)
qed

lemma syncFile_attempt:
  assumes "Opened fd d \<in> F"
  shows "attempt a c (stands a F h) (syncFile (Some fd)) (\<lambda>_. stands a (settle_facts d F) h)"
proof -
  have call: "attempt a c (stands a F h) (plainCall (QSync (Some fd))) (\<lambda>_. stands a (settle_facts d F) h)"
    by (rule plain_triple) (use assms sync_effect in \<open>auto simp: permitted_def\<close>)
  show ?thesis
    unfolding syncFile_def
    by (rule attempt_try [OF attempt_reading [OF reading_check]],
        rule attempt_case [OF call _ attempt_reading [OF reading_check]]) simp
qed

section \<open>An activity directory without entries\<close>

lemma readdir_effect:
  assumes st: "stands a F h g s" and fd: "Opened fd d \<in> F"
    and guard: "Locks l True \<in> F" "Entry e lockName l \<in> F" "Entry e activityName d \<in> F"
    and r: "(AEnd, t) \<in> may_serve a (QReadDir (Some fd)) s"
  shows "stands a (insert (Frozen d) F) h g t"
proof -
  have F: "facts a F s" and ok: "machine_ok s" using st by (auto simp: stands_def facts_def)
  obtain b where b: "desc_of a s fd = Some b" "d_ino b = d"
    by (rule opened_desc [OF ok factsD [OF F fd]])
  obtain ch where "serve a ch (QReadDir (Some fd)) s = (AEnd, t)" using r by (auto simp: may_serve_def)
  then have t: "t = s" and empty: "\<not> list_ex (\<lambda>x. fst (fst x) = d) (t_entries s)"
    using b by (auto simp: serve_def serve_call_def with_desc_def split: option.splits if_splits)
  have "entry s d n = None" for n
    using empty by (auto simp: entry_def list_ex_iff map_of_eq_None_iff)
  moreover have "guarded_by a s True d"
    using factsD [OF F guard(1)] factsD [OF F guard(2)] factsD [OF F guard(3)] by (auto simp: guarded_by_def)
  ultimately have "fulfils a s (Frozen d)" by (simp add: no_marker_def)
  then show ?thesis using st by (auto simp: stands_def facts_def t simp del: fulfils.simps)
qed

lemma readdir_counts:
  "(ACount n, t) \<in> may_serve a (QReadDir f) s \<Longrightarrow> n = 1" "(AOk, t) \<notin> may_serve a (QReadDir f) s"
  by (auto simp: may_serve_def serve_def serve_call_def with_desc_def split: option.splits if_splits)

lemma readCall_dir:
  assumes fd: "Opened fd d \<in> F"
    and guard: "Locks l True \<in> F" "Entry e lockName l \<in> F" "Entry e activityName d \<in> F"
  shows "triple_of a c (stands a F h) (readCall (QReadDir (Some fd))) (\<lambda>(n, x) g s.
      if n = 0 \<and> (x = None \<or> x = Some EndOfFile) then stands a (insert (Frozen d) F) h g s else stands a F h g s)"
    (is "triple_of _ _ _ _ ?W")
  unfolding readCall_def
proof (rule call_triple)
  fix s r t assume s: "stands a F h h s" "(r, t) \<in> may_serve a (QReadDir (Some fd)) s"
  have "t = s" by (rule read_stays [OF _ s(2)]) simp
  then show "?W (case r of AErr e \<Rightarrow> (0, Some (Errno e)) | AEnd \<Rightarrow> (0, Some EndOfFile) | ACount n \<Rightarrow> (n, None)
       | _ \<Rightarrow> (0, Some Unexpected)) h t"
    using s readdir_effect [OF s(1) fd guard] readdir_counts(1) [of 0 t a "Some fd" s] by (cases r) auto
next
  show "stable_for a (?W x h)" for x
    by (cases x; cases "fst x = 0 \<and> (snd x = None \<or> snd x = Some EndOfFile)")
       (simp_all only: prod.case fst_conv snd_conv simp_thms if_True if_False stable_stands)
qed (simp add: permitted_def)

lemma empty_attempts:
  assumes "Opened fd d \<in> F" "Locks l True \<in> F" "Entry e lockName l \<in> F" "Entry e activityName d \<in> F"
    and dir: "Option.bind (gActivity h) pFile = Some fd"
  shows "attempt a c (stands a F h) no_activity (\<lambda>_. stands a (insert (Frozen d) F) h)" (is ?no)
    and "attempt a c (stands a F h) recovery_empty (\<lambda>_. stands a (insert (Frozen d) F) h)" (is ?recovery)
proof -
  let ?found = "\<lambda>n x. n = (0 :: nat) \<and> (x = None \<or> x = Some EndOfFile)"
  let ?P = "\<lambda>(n, x) g s. if ?found n x then stands a (insert (Frozen d) F) h g s else stands a F h g s"
  have found: "attempt a c (?P (n, x)) (retT (Inr ())) (\<lambda>_. stands a (insert (Frozen d) F) h)" if "?found n x" for n x
    using that by (auto intro!: attempt_return stable_stands)
  have other: "attempt a c (?P (n, x)) m (\<lambda>_. stands a (insert (Frozen d) F) h)" if "\<not> ?found n x" "failing m" for n x m
    by (simp only: prod.case that(1) if_False attempt_stands_failing [OF that(2)])
  have no: "attempt a c (?P r) (case r of (n, e) \<Rightarrow> if n \<noteq> 0 \<or> (e \<noteq> None \<and> e \<noteq> Some EndOfFile)
     then retT (Inl (Message ''runtime activity remains or cannot be inspected'')) else retT (Inr ()))
     (\<lambda>_. stands a (insert (Frozen d) F) h)" for r
  proof (cases r)
    case (Pair n e)
    let ?body = "if n \<noteq> 0 \<or> (e \<noteq> None \<and> e \<noteq> Some EndOfFile)
      then retT (Inl (Message ''runtime activity remains or cannot be inspected'')) else retT (Inr ()) :: (failure + unit) guarded"
    show ?thesis
    proof (cases "?found n e")
      case True
      then have "?body = retT (Inr ())" by auto
      then show ?thesis using found [OF True] by (simp only: Pair prod.case)
    next
      case False
      then have "?body = retT (Inl (Message ''runtime activity remains or cannot be inspected''))" by auto
      then show ?thesis using other [OF False failing_tasks(1)] by (simp only: Pair prod.case)
    qed
  qed
  show ?no
    unfolding no_activity_def
    by (rule attempt_get, unfold dir, rule attempt_bind [OF readCall_dir [OF assms(1-4)] no])
  have recovery: "attempt a c (?P r) (case r of (n, e) \<Rightarrow> if e \<noteq> None \<and> e \<noteq> Some EndOfFile then refuse e False
     else if n \<noteq> 0 then refuse None True else retT (Inr ())) (\<lambda>_. stands a (insert (Frozen d) F) h)" for r
  proof (cases r)
    case (Pair n e)
    let ?body = "if e \<noteq> None \<and> e \<noteq> Some EndOfFile then refuse e False
      else if n \<noteq> 0 then refuse None True else retT (Inr ()) :: (failure + unit) guarded"
    show ?thesis
    proof (cases "?found n e")
      case True
      then have "?body = retT (Inr ())" by auto
      then show ?thesis using found [OF True] by (simp only: Pair prod.case)
    next
      case False
      then obtain x b where "?body = refuse x b" by (metis (full_types))
      then show ?thesis using other [OF False failing_tasks(3)] by (simp only: Pair prod.case)
    qed
  qed
  show ?recovery
    unfolding recovery_empty_def
    by (rule attempt_get, unfold dir, rule attempt_bind [OF readCall_dir [OF assms(1-4)] recovery])
qed

end
