(* ===== verification/Transition_Closing.thy ===== *)
theory Transition_Closing
  imports Transition_Locking
begin

text \<open>
  Closing: \<open>closeFiles\<close> leaves the agent without a descriptor whatever the closes answer, an acquisition that
  returns no guard has run it, and a clean close that reports no error has removed the marker for good.
\<close>

section \<open>Closing one descriptor\<close>

definition outlives :: "nat \<Rightarrow> fact \<Rightarrow> bool" where
  "outlives fd f \<longleftrightarrow> (case f of Opened k i \<Rightarrow> k \<noteq> fd | Entry d n i \<Rightarrow> True | Settled d n i \<Rightarrow> True
     | Traces K \<Rightarrow> True | Unmarked d n \<Rightarrow> True | _ \<Rightarrow> False)"

lemma close_effect:
  assumes F: "facts a F s" and r: "(r, t) \<in> may_serve a (QClose (Some fd)) s"
  shows "facts a (Set.filter (outlives fd) F) t" and "set (descs a t) = {d \<in> set (descs a s). d_fd d \<noteq> fd}"
proof -
  have ok: "machine_ok s" using F by (simp add: facts_def)
  have m: "moves a False s t" by (rule served_moves [OF ok _ r]) (simp add: permitted_def)
  have descs_ok: "descs_ok s" using ok by (simp add: machine_ok_def)
  obtain ch where "serve a ch (QClose (Some fd)) s = (r, t)" using r by (auto simp: may_serve_def)
  then have "t = snd (serve_call a ch (QClose (Some fd)) s)"
    by (auto simp: serve_def split: option.splits)
  then have t: "(desc_of a s fd = None \<and> t = s) \<or> (\<exists>e. desc_of a s fd = Some e \<and> t = close_descs (\<lambda>d. d = e) s)"
    by (auto simp: serve_call_def with_desc_def split: option.splits)
  then show descs: "set (descs a t) = {d \<in> set (descs a s). d_fd d \<noteq> fd}"
  proof
    assume n: "desc_of a s fd = None \<and> t = s"
    then have "\<forall>d \<in> set (descs a s). d_fd d \<noteq> fd" by (auto simp: desc_of_def find_None_iff descs_iff)
    then show ?thesis using n by auto
  next
    assume "\<exists>e. desc_of a s fd = Some e \<and> t = close_descs (\<lambda>d. d = e) s"
    then obtain e where e: "desc_of a s fd = Some e" "t = close_descs (\<lambda>d. d = e) s" by blast
    have "d_fd d \<noteq> d_fd e" if "d \<in> set (t_open s)" "d \<noteq> e" for d
      using desc_of_Some [OF e(1)] descs_okD(1) [OF descs_ok that(1), of e] that(2) by auto
    then show ?thesis using e(2) desc_of_Some [OF e(1)] by (auto simp: descs_iff machine_simps)
  qed
  have same: "traces a t d n = traces a s d n" "marked a t d n = marked a s d n" for d n
    using t by (auto simp: traces_def marked_def machine_simps)
  have "fulfils a t f" if "f \<in> F" "outlives fd f" for f
  proof -
    have f: "fulfils a s f" by (rule factsD [OF F that(1)])
    note p = moves_persists [OF ok m]
    show ?thesis
      using that(2) f same descs persists_entry [of a s t] persists_settled [of a s t] persists_kept [OF ok, of a t] p
      by (cases f) (auto simp: outlives_def settled_def)
  qed
  then show "facts a (Set.filter (outlives fd) F) t" using moves_ok [OF ok m] by (auto simp: facts_def)
qed

section \<open>Closing every file\<close>

text \<open>The facts about markers outlive every descriptor.\<close>

definition lasting :: "fact set \<Rightarrow> bool" where
  "lasting T \<longleftrightarrow> (\<forall>f \<in> T. \<forall>fd. outlives fd f)"

definition covered :: "nat \<Rightarrow> fact set \<Rightarrow> pin list \<Rightarrow> guard \<Rightarrow> machine \<Rightarrow> bool" where
  "covered a T ps g s \<longleftrightarrow> facts a T s \<and> (\<forall>d \<in> set (descs a s). \<exists>p \<in> set ps. pFile p = Some (d_fd d))"

lemma stable_covered: "stable_for a (covered a T ps g)"
  using stable_facts [of a T]
  by (auto simp: among.stable_def covered_def facts_def rely_def unchanged_def)

lemma covered_close:
  assumes "lasting T" "covered a T (p # ps) g s" "pFile p = Some fd" "(r, t) \<in> may_serve a (QClose (Some fd)) s"
  shows "covered a T ps h t"
proof -
  have "facts a T s" using assms(2) by (simp add: covered_def)
  note c = close_effect [OF this assms(4)]
  have "Set.filter (outlives fd) T = T" using assms(1) by (auto simp: lasting_def)
  then show ?thesis using assms(2,3) c by (auto simp: covered_def)
qed

lemma closeEach_triple:
  assumes T: "lasting T"
  shows "triple_of a c (covered a T ps) (closeEach ps es) (\<lambda>_. covered a T [])"
proof (induction ps arbitrary: es)
  case Nil
  then show ?case by (auto intro: among.hoare_return stable_covered)
next
  case (Cons p ps)
  show ?case
  proof (cases "pFile p")
    case None
    then have "covered a T (p # ps) g s \<Longrightarrow> covered a T ps g s" for g s by (auto simp: covered_def)
    then show ?thesis using among.hoare_pre [OF Cons] None by simp
  next
    case (Some fd)
    have call: "triple_of a c (covered a T (p # ps)) (plainCall (QClose (Some fd))) (\<lambda>_. covered a T ps)"
      unfolding plainCall_def
    proof (rule among.hoare_bind, rule among.hoare_call [OF stable_covered])
      show "permitted a c (QClose (Some fd)) s" for s by (simp add: permitted_def)
      show "covered a T ps g u" if "covered a T (p # ps) g s" "(r, t) \<in> may_serve a (QClose (Some fd)) s" "rely a t u" for g s r t u
        using covered_close [OF T that(1) Some that(2), of g] that(3) stable_covered unfolding among.stable_def by blast
    qed (auto intro: among.hoare_return stable_covered)
    have clear: "triple_of a c (covered a T ps) (setT (clear_file (pId p))) (\<lambda>_. covered a T ps)"
      by (rule among.hoare_update [OF stable_covered]) (simp add: covered_def)
    show ?thesis
      using Some by (simp, intro among.hoare_bind [OF call] among.hoare_bind [OF clear] Cons)
  qed
qed

definition released :: "nat \<Rightarrow> fact set \<Rightarrow> guard \<Rightarrow> machine \<Rightarrow> bool" where
  "released a T g s \<longleftrightarrow> facts a T s \<and> descs a s = []"

lemma stable_released: "stable_for a (released a T g)"
  using stable_facts [of a T]
  by (auto simp: among.stable_def released_def facts_def rely_def unchanged_def)

lemma closeFiles_triple:
  assumes T: "lasting T"
  shows "triple_of a c (\<lambda>g s. tracked a g s \<and> facts a T s) closeFiles (\<lambda>_. released a T)"
proof -
  have pre: "covered a T (rev (gPins g)) g' s" if "tracked a g s \<and> facts a T s" for g g' s
    using that by (auto simp: covered_def tracked_def)
  have run: "triple_of a c (covered a T (rev ps)) (bindT (closeEach (rev ps) []) (\<lambda>es. retT (f es))) (\<lambda>_. released a T)" for ps f
    by (rule among.hoare_bind [OF closeEach_triple [OF T]], rule among.hoare_return)
       (auto simp: covered_def released_def intro: stable_covered)
  show ?thesis
    unfolding among.hoare_def
  proof (intro allI impI)
    fix g s assume "tracked a g s \<and> facts a T s"
    then have "covered a T (rev (gPins g)) (g\<lparr>gClosed := True\<rparr>) s" by (rule pre)
    from among.hoareD [OF run this] show "safely (rely a) (permitted a c) (may_serve a) (closeFiles g) (\<lambda>(x, h). released a T h) s"
      by (simp add: closeFiles_def bindT_def setT_def getT_def)
  qed
qed

lemma releasing_triple:
  assumes m: "attempt a c P m Q" and st: "\<And>x g. stable_for a (Q x g)"
  shows "triple_of a c P (releasing f m) (\<lambda>r. case r of Inl e \<Rightarrow> released a {} | Inr x \<Rightarrow> Q x)"
  unfolding releasing_def
proof (rule among.hoare_bind [OF m [unfolded attempt_def]])
  fix r
  show "triple_of a c (case r of Inl e \<Rightarrow> loose a | Inr x \<Rightarrow> Q x) (case r of
       Inr x \<Rightarrow> retT (Inr x)
     | Inl e \<Rightarrow> bindT closeFiles (\<lambda>c. retT (Inl (the (f (Some e) c))))) (\<lambda>r. case r of Inl e \<Rightarrow> released a {} | Inr x \<Rightarrow> Q x)"
  proof (cases r)
    case (Inl e)
    have "triple_of a c (loose a) closeFiles (\<lambda>_. released a {})"
      by (rule among.hoare_pre [OF closeFiles_triple]) (auto simp: lasting_def loose_def facts_def)
    then show ?thesis
      using Inl by (auto intro!: among.hoare_bind among.hoare_return stable_released)
  next
    case (Inr x)
    then show ?thesis by (auto intro!: among.hoare_return st)
  qed
qed

section \<open>Retiring the marker\<close>

text \<open>What a shared guard holds of its marker, which is its last pin.\<close>

definition marker_facts :: "nat \<Rightarrow> nat \<Rightarrow> string \<Rightarrow> nat \<Rightarrow> fact set" where
  "marker_facts fa d n i = {Opened fa d, Entry d n i, Traces (Some (d, n))}"

definition retired_facts :: "nat \<Rightarrow> nat \<Rightarrow> string \<Rightarrow> fact set" where
  "retired_facts fa d n = {Opened fa d, Unmarked d n, Traces (Some (d, n))}"

lemma marker_close:
  assumes "pFile k = Some (pId k)" "pId k \<noteq> fa"
  shows "triple_of a c (stands a (marker_facts fa d n i) h) (plainCall (QClose (pFile k)))
     (\<lambda>_ g s. stands a (marker_facts fa d n i) (clear_file (pId k) h) (clear_file (pId k) g) s)"
  unfolding plainCall_def assms(1)
proof (rule call_triple)
  show "permitted a c (QClose (Some (pId k))) s" for s by (simp add: permitted_def)
  fix s r t assume st: "stands a (marker_facts fa d n i) h h s" and r: "(r, t) \<in> may_serve a (QClose (Some (pId k))) s"
  have F: "facts a (marker_facts fa d n i) s" using st by (simp add: stands_def)
  have "Set.filter (outlives (pId k)) (marker_facts fa d n i) = marker_facts fa d n i"
    using assms(2) by (auto simp: outlives_def marker_facts_def)
  then have "facts a (marker_facts fa d n i) t" and descs: "set (descs a t) = {d \<in> set (descs a s). d_fd d \<noteq> pId k}"
    using close_effect [OF F r] by auto
  moreover have "tracked a (clear_file (pId k) h) t"
    unfolding tracked_def
  proof (intro conjI ballI)
    fix b assume "b \<in> set (descs a t)"
    then have b: "b \<in> set (descs a s)" "d_fd b \<noteq> pId k" using descs by auto
    then obtain p where p: "p \<in> set (gPins h)" "pFile p = Some (d_fd b)" "pFile p = None \<or> pFile p = Some (pId p)"
      using st by (fastforce simp: stands_def tracked_def)
    then show "\<exists>p \<in> set (gPins (clear_file (pId k) h)). pFile p = Some (d_fd b)"
      using b(2) by (auto simp: clear_file_def intro!: bexI [of _ p])
  next
    fix p assume "p \<in> set (gPins (clear_file (pId k) h))"
    then show "pFile p = None \<or> pFile p = Some (pId p)"
      using st by (auto simp: clear_file_def stands_def tracked_def split: if_splits)
  qed
  ultimately show "stands a (marker_facts fa d n i) (clear_file (pId k) h) (clear_file (pId k) h) t"
    by (simp add: stands_def)
qed (rule stable_stands)

lemma unlink_effect:
  assumes st: "stands a (marker_facts fa d n i) h g s" and n: "is_marker n"
    and r: "(r, t) \<in> may_serve a (QUnlink (Some fa) n) s" "\<And>e. r \<noteq> AErr e"
  shows "stands a (retired_facts fa d n) h g t"
proof -
  have F: "facts a (marker_facts fa d n i) s" and ok: "machine_ok s" using st by (auto simp: stands_def facts_def)
  have fa: "fd_ino a s (Some fa) = Some d"
    by (rule opened_ino [OF ok factsD [OF F]]) (simp add: marker_facts_def)
  have e: "entry s d n = Some i" "kept a s n i" and tr: "\<forall>e m. traces a s e m \<longrightarrow> e = d \<and> m = n"
    and op: "fulfils a s (Opened fa d)"
    using F by (auto simp: facts_def marker_facts_def)
  have m: "moves a True s t"
    by (rule served_moves [OF ok _ r(1)]) (use e n fa in \<open>auto simp: permitted_def kept_def\<close>)
  obtain ch where "serve a ch (QUnlink (Some fa) n) s = (r, t)" using r(1) by (auto simp: may_serve_def)
  then have t: "t = touch d (ch_stamp ch) (drop_entry d n s)"
    using fa e r(2) by (auto simp: serve_def serve_call_def serve_unlink_def split: option.splits if_splits)
  have "traces a t x y \<Longrightarrow> x = d \<and> y = n" for x y
    using tr by (auto simp: t traces_def machine_simps split: if_splits)
  then have "facts a (retired_facts fa d n) t"
    using moves_ok [OF ok m] op by (auto simp: facts_def retired_facts_def t marked_def machine_simps descs_iff)
  then show ?thesis using st by (auto simp: stands_def tracked_def t descs_def machine_simps)
qed

lemma unlink_attempt:
  assumes "is_marker n"
  shows "attempt a True (stands a (marker_facts fa d n i) h) (plainCall (QUnlink (Some fa) n)) (\<lambda>_. stands a (retired_facts fa d n) h)"
proof (rule plain_triple)
  fix s assume "stands a (marker_facts fa d n i) h h s"
  then have F: "facts a (marker_facts fa d n i) s" and ok: "machine_ok s" by (auto simp: stands_def facts_def)
  have "fd_ino a s (Some fa) = Some d"
    by (rule opened_ino [OF ok factsD [OF F]]) (simp add: marker_facts_def)
  then show "permitted a True (QUnlink (Some fa) n) s"
    using F assms by (auto simp: permitted_def facts_def marker_facts_def kept_def)
qed (use unlink_effect [OF _ assms] in auto)

lemma forget_effect:
  assumes st: "stands a (retired_facts fa d n) h g s" and r: "(r, t) \<in> may_serve a (QSync (Some fa)) s" "\<And>e. r \<noteq> AErr e"
  shows "stands a {Traces None} h g t"
proof -
  have F: "facts a (retired_facts fa d n) s" and ok: "machine_ok s" using st by (auto simp: stands_def facts_def)
  have "stands a (settle_facts d (retired_facts fa d n)) h g t"
    by (rule sync_effect [OF st _ r]) (simp add: retired_facts_def)
  then have st': "stands a (retired_facts fa d n) h g t"
    by (rule stands_subset) (simp add: settle_facts_def)
  obtain b where b: "desc_of a s fa = Some b" "d_ino b = d"
    by (rule opened_desc [OF ok factsD [OF F]]) (auto simp: retired_facts_def)
  obtain ch where "serve a ch (QSync (Some fa)) s = (r, t)" using r(1) by (auto simp: may_serve_def)
  then have t: "t = sync_entries d s"
    using b r(2) by (auto simp: serve_def serve_call_def with_desc_def split: option.splits)
  have "\<not> traces a t x y" for x y
    using F by (auto simp: t traces_def marked_def facts_def retired_facts_def machine_simps)
  then show ?thesis using st' by (auto simp: stands_def facts_def)
qed

lemma forget_attempt:
  "attempt a c (stands a (retired_facts fa d n) h) (syncFile (Some fa)) (\<lambda>_. stands a {Traces None} h)"
proof -
  have call: "attempt a c (stands a (retired_facts fa d n) h) (plainCall (QSync (Some fa))) (\<lambda>_. stands a {Traces None} h)"
    by (rule plain_triple) (use forget_effect in \<open>auto simp: permitted_def\<close>)
  show ?thesis
    unfolding syncFile_def
    by (rule attempt_try [OF attempt_reading [OF reading_check]],
        rule attempt_case [OF call _ attempt_reading [OF reading_check]]) simp
qed

lemma drop_last_stands:
  assumes "stands a F h g s" "gPins h = ps @ [p]" "pFile p = None"
  shows "stands a F (drop_marker h) (drop_marker g) s"
  using assms by (fastforce simp: stands_def tracked_def drop_marker_def)

lemma retire_attempt:
  assumes k: "gPins h = ps @ [k]" "pFile k = Some (pId k)" "pId k \<noteq> fa" "is_marker (pName k)"
    and act: "Option.bind (gActivity h) pFile = Some fa"
  shows "attempt a True (stands a (marker_facts fa d (pName k) i) h) (retireMarker k) (\<lambda>_ g s. stands a {Traces None} g g s)"
proof -
  let ?h = "clear_file (pId k) h"
  have act': "Option.bind (gActivity ?h) pFile = Some fa" using act by (simp add: clear_file_def)
  have last: "gPins ?h = map (\<lambda>p. if pId p = pId k then p\<lparr>pFile := None\<rparr> else p) ps @ [k\<lparr>pFile := None\<rparr>]"
    using k(1) by (simp add: clear_file_def)
  have tail: "attempt a True (stands a (marker_facts fa d (pName k) i) ?h) (tryT check (\<lambda>_. bindT (getT (\<lambda>g. Option.bind (gActivity g) pFile)) (\<lambda>f.
         bindT (plainCall (QUnlink f (pName k))) (\<lambda>r. case r of
             Inl _ \<Rightarrow> joinContext (Message ''cannot remove runtime activity marker'')
           | Inr _ \<Rightarrow> bindT (setT drop_marker) (\<lambda>_. syncFile f))))) (\<lambda>_ g s. stands a {Traces None} g g s)"
  proof (rule attempt_try [OF attempt_reading [OF reading_check]], rule attempt_get, unfold act',
      rule attempt_case [OF unlink_attempt [OF k(4)]])
    show "attempt a True (stands a (retired_facts fa d (pName k)) ?h) (bindT (setT drop_marker) (\<lambda>_. syncFile (Some fa)))
        (\<lambda>_ g s. stands a {Traces None} g g s)"
    proof (rule attempt_set [where W = "stands a (retired_facts fa d (pName k)) (drop_marker ?h)"])
      show "attempt a True (stands a (retired_facts fa d (pName k)) (drop_marker ?h)) (syncFile (Some fa))
          (\<lambda>_ g s. stands a {Traces None} g g s)"
        by (rule attempt_post [OF forget_attempt]) (auto simp: stands_def)
    qed (erule drop_last_stands [OF _ last], simp)
  qed simp
  show ?thesis
    unfolding retireMarker_def
  proof (rule attempt_bind [OF marker_close [OF k(2,3)]], rule attempt_set)
    fix r :: "failure + unit"
    show "attempt a True (stands a (marker_facts fa d (pName k) i) ?h) (case r of
       Inl _ \<Rightarrow> retT (Inl (Message ''cannot close runtime activity marker''))
     | Inr _ \<Rightarrow> tryT check (\<lambda>_. bindT (getT (\<lambda>g. Option.bind (gActivity g) pFile)) (\<lambda>f.
         bindT (plainCall (QUnlink f (pName k))) (\<lambda>r. case r of
             Inl _ \<Rightarrow> joinContext (Message ''cannot remove runtime activity marker'')
           | Inr _ \<Rightarrow> bindT (setT drop_marker) (\<lambda>_. syncFile f))))) (\<lambda>_ g s. stands a {Traces None} g g s)"
      using tail by (cases r) (auto intro: attempt_stands_failing)
  qed
qed

section \<open>Closing a guard\<close>

text \<open>The part of a granted guard that its close uses: no marker, or its last pin and what is known of it.\<close>

definition marker_held :: "nat \<Rightarrow> guard \<Rightarrow> machine \<Rightarrow> bool" where
  "marker_held a g s \<longleftrightarrow> (case gMarker g of None \<Rightarrow> True
     | Some k \<Rightarrow> (\<exists>ps fa d i. gPins g = ps @ [k] \<and> pFile k = Some (pId k) \<and> pId k \<noteq> fa \<and> is_marker (pName k) \<and>
         Option.bind (gActivity g) pFile = Some fa \<and> facts a (marker_facts fa d (pName k) i) s))"

definition unmarked :: "bool \<Rightarrow> guard \<Rightarrow> fact set" where
  "unmarked clean g = (if clean \<and> gMarker g \<noteq> None then {Traces None} else {})"

lemma closeBody_attempt:
  "attempt a clean (\<lambda>g s. g = h \<and> marker_held a h s \<and> loose a h s) (closeBody clean)
     (\<lambda>_ g s. tracked a g s \<and> facts a (unmarked clean h) s)"
proof -
  have stays: "attempt a clean (stands a F h) (closeBody clean) (\<lambda>_ g s. tracked a g s \<and> facts a {} s)"
    if "\<not> clean \<or> gMarker h = None" for F
    unfolding closeBody_def
    by (rule attempt_try [OF attempt_reading [OF reading_check]], rule attempt_get)
       (use that in \<open>auto simp: stands_def facts_def intro!: attempt_return [OF stable_stands] split: option.splits\<close>)
  show ?thesis
  proof (cases "\<not> clean \<or> gMarker h = None")
    case True
    then have "unmarked clean h = {}" by (auto simp: unmarked_def)
    then show ?thesis
      using attempt_pre [OF stays [OF True, of "{}"]] by (fastforce simp: stands_def loose_def facts_def)
  next
    case False
    then obtain k where k: "gMarker h = Some k" and clean by auto
    have "attempt a True (\<lambda>g s. \<exists>fa d i. (\<exists>ps. gPins h = ps @ [k] \<and> pFile k = Some (pId k) \<and> pId k \<noteq> fa \<and> is_marker (pName k) \<and>
         Option.bind (gActivity h) pFile = Some fa) \<and> stands a (marker_facts fa d (pName k) i) h g s) (closeBody True)
         (\<lambda>_ g s. tracked a g s \<and> facts a {Traces None} s)"
    proof (intro attempt_exists attempt_fact, elim exE conjE)
      fix fa d i ps
      assume s: "gPins h = ps @ [k]" "pFile k = Some (pId k)" "pId k \<noteq> fa" "is_marker (pName k)"
         "Option.bind (gActivity h) pFile = Some fa"
      have "attempt a True (stands a (marker_facts fa d (pName k) i) h) (retireMarker k) (\<lambda>_ g s. tracked a g s \<and> facts a {Traces None} s)"
        by (rule attempt_post [OF retire_attempt [OF s]]) (auto simp: stands_def)
      then show "attempt a True (stands a (marker_facts fa d (pName k) i) h) (closeBody True) (\<lambda>_ g s. tracked a g s \<and> facts a {Traces None} s)"
        unfolding closeBody_def
        by (intro attempt_try [OF attempt_reading [OF reading_check]] attempt_get) (simp add: k)
    qed
    then show ?thesis
      using \<open>clean\<close> k by (simp add: unmarked_def) (erule attempt_pre, fastforce simp: stands_def loose_def marker_held_def)
  qed
qed

lemma joined_none: "joinErrors [x, y] = None \<longleftrightarrow> x = None \<and> y = None"
  by (cases x; cases y) (auto simp: joinErrors_def Let_def)

lemma closeGuard_triple:
  "triple_of a clean (\<lambda>g s. g = h \<and> \<not> gClosed h \<and> marker_held a h s \<and> loose a h s) (closeGuard clean)
     (\<lambda>r g s. released a (if r = None then unmarked clean h else {}) g s)"
proof -
  have files: "triple_of a clean (case r of Inl e \<Rightarrow> loose a | Inr _ \<Rightarrow> \<lambda>g s. tracked a g s \<and> facts a (unmarked clean h) s)
      closeFiles (\<lambda>_. released a (if failure_of r = None then unmarked clean h else {}))" for r :: "failure + unit"
  proof (cases r)
    case (Inl e)
    then show ?thesis
      using among.hoare_pre [OF closeFiles_triple [of "{}" a clean]] by (fastforce simp: lasting_def loose_def facts_def failure_of_def)
  next
    case (Inr x)
    have "lasting (unmarked clean h)" by (auto simp: lasting_def unmarked_def outlives_def)
    then show ?thesis using closeFiles_triple Inr by (simp add: failure_of_def)
  qed
  have run: "triple_of a clean (\<lambda>g s. g = h \<and> marker_held a h s \<and> loose a h s)
      (bindT (closeBody clean) (\<lambda>r. bindT closeFiles (\<lambda>c. retT (joinErrors [failure_of r, c]))))
      (\<lambda>r g s. released a (if r = None then unmarked clean h else {}) g s)"
    by (rule among.hoare_bind [OF closeBody_attempt [unfolded attempt_def]], rule among.hoare_bind [OF files],
        rule among.hoare_return [OF stable_released])
       (auto simp: joined_none released_def facts_def split: if_splits)
  show ?thesis
    using run unfolding closeGuard_def among.hoare_def by (simp add: bindT_def getT_def)
qed

lemma closeLease_triple:
  "triple_of a c (\<lambda>g s. \<not> gClosed g \<and> loose a g s) closeLease (\<lambda>r. released a {})"
proof -
  have "triple_of a c (loose a) closeFiles (\<lambda>_. released a {})"
    by (rule among.hoare_pre [OF closeFiles_triple]) (auto simp: lasting_def loose_def facts_def)
  then have "triple_of a c (loose a) (bindT closeFiles (\<lambda>c. bindT ctxErr (\<lambda>x. retT (joinErrors [c, failure_of x])))) (\<lambda>r. released a {})"
    by (rule among.hoare_bind)
       (auto intro!: among.hoare_bind [OF reading_triple [OF reading_calls(1) stable_released]] among.hoare_return stable_released)
  then show ?thesis
    unfolding closeLease_def among.hoare_def by (simp add: bindT_def getT_def)
qed

end
