(* ===== verification/Transition_Grants.thy ===== *)
theory Transition_Grants
  imports Transition_Closing
begin

text \<open>
  What a granted guard or lease holds (\<open>granted\<close>), that the acquisitions of \<open>guard.go\<close> and \<open>root_lease.go\<close>
  return only such guards and otherwise leave no descriptor open, and that revalidation keeps it.
\<close>

section \<open>Granted guards\<close>

definition is_lease :: "request \<Rightarrow> bool" where
  "is_lease r \<longleftrightarrow> r = ReadOnly \<or> r = RootExclusive"

definition exclusive :: "request \<Rightarrow> bool" where
  "exclusive r \<longleftrightarrow> r \<noteq> Shared \<and> r \<noteq> ReadOnly"

definition lease_facts :: "nat \<Rightarrow> nat \<Rightarrow> bool \<Rightarrow> fact set" where
  "lease_facts fd p x = {Opened fd p, Locks p x}"

definition path_facts :: "nat \<Rightarrow> nat \<Rightarrow> nat \<Rightarrow> nat \<Rightarrow> nat \<Rightarrow> bool \<Rightarrow> fact set" where
  "path_facts fd p e l d x = {Opened fd p, Entry p factoryName e, Entry e lockName l, Entry e activityName d, Locks l x}"

definition trail_facts :: "nat \<Rightarrow> nat \<Rightarrow> nat \<Rightarrow> string \<Rightarrow> nat \<Rightarrow> fact set" where
  "trail_facts p e d n i = {Settled p factoryName e, Settled e activityName d, Settled d n i}"

definition held_facts :: "nat \<Rightarrow> request \<Rightarrow> guard \<Rightarrow> nat \<Rightarrow> nat \<Rightarrow> machine \<Rightarrow> bool" where
  "held_facts a r g fd p s \<longleftrightarrow> (if is_lease r then facts a (lease_facts fd p (exclusive r)) s
     else (\<exists>e l d. facts a (path_facts fd p e l d (exclusive r)) s \<and>
       (case gMarker g of
           None \<Rightarrow> exclusive r \<and> facts a {Frozen d} s
         | Some k \<Rightarrow> \<not> exclusive r \<and> (\<exists>i. facts a (trail_facts p e d (pName k) i) s))))"

definition granted :: "nat \<Rightarrow> request \<Rightarrow> holding \<Rightarrow> machine \<Rightarrow> bool" where
  "granted a r h s \<longleftrightarrow> loose a (hGuard h) s \<and> \<not> gClosed (hGuard h) \<and> marker_held a (hGuard h) s \<and>
     (hLease h = None \<longleftrightarrow> \<not> is_lease r) \<and>
     (\<exists>q ps fd p. gPins (hGuard h) = q # ps \<and> pFile q = Some fd \<and> held_facts a r (hGuard h) fd p s)"

lemma stable_marker_held: "stable_for a (marker_held a g)"
  using stable_facts unfolding marker_held_def among.stable_def by (cases "gMarker g") fastforce+

lemma stable_held_facts: "stable_for a (held_facts a r g fd p)"
  using stable_facts unfolding held_facts_def among.stable_def by (cases "gMarker g"; simp) blast+

lemma stable_granted: "stable_for a (granted a r h)"
  using stable_loose [of a "hGuard h"] stable_marker_held [of a "hGuard h"] stable_held_facts [of a r "hGuard h"]
  unfolding granted_def among.stable_def by blast

section \<open>Steps of an acquisition\<close>

lemma existing_step:
  assumes "Opened pfd d \<in> F" "reserved n" "\<not> is_marker n"
  shows "attempt a c (stands a F h) (existing (Some pfd) n k) (\<lambda>q g s. \<exists>fd i st. q = new_pin fd (Some pfd) n st k \<and>
     stands a (insert (Opened fd i) (insert (Entry d n i) F)) (addPin q h) g s)"
proof (rule attempt_post [OF existing_attempt])
  fix q g s assume "pinned a F h (Some pfd) n k q g s"
  then obtain fd i st where q: "q = new_pin fd (Some pfd) n st k"
      and st: "stands a (insert (Free fd) (insert (Opened fd i) F) \<union> link F (Some pfd) n i) (addPin q h) g s"
    by (auto simp: pinned_def)
  have "stands a (insert (Opened fd i) (insert (Entry d n i) F)) (addPin q h) g s"
    by (rule stands_subset [OF st]) (use assms in \<open>auto simp: link_def\<close>)
  then show "\<exists>fd i st. q = new_pin fd (Some pfd) n st k \<and>
     stands a (insert (Opened fd i) (insert (Entry d n i) F)) (addPin q h) g s"
    using q by blast
qed

lemma directory_step:
  assumes "pFile p = Some pfd" "Opened pfd d \<in> F" "n = factoryName \<or> n = activityName"
  shows "attempt a c (stands a F h) (directory p n b) (\<lambda>q g s. \<exists>fd i st.
     q = new_pin fd (Some pfd) n st (if b then PinPrivate else PinDirectory) \<and>
     stands a (insert (Opened fd i) (insert (Entry d n i) F)) (addPin q h) g s)"
proof (rule attempt_post [OF directory_attempt [OF assms(3)]])
  let ?k = "if b then PinPrivate else PinDirectory"
  fix q g s assume "pinned a F h (pFile p) n ?k q g s"
  then obtain fd i st where q: "q = new_pin fd (Some pfd) n st ?k"
      and st: "stands a (insert (Free fd) (insert (Opened fd i) F) \<union> link F (Some pfd) n i) (addPin q h) g s"
    by (auto simp: pinned_def assms(1))
  have "stands a (insert (Opened fd i) (insert (Entry d n i) F)) (addPin q h) g s"
    by (rule stands_subset [OF st]) (use assms in \<open>auto simp: link_def\<close>)
  then show "\<exists>fd i st. q = new_pin fd (Some pfd) n st ?k \<and>
     stands a (insert (Opened fd i) (insert (Entry d n i) F)) (addPin q h) g s"
    using q by blast
qed

lemma root_step:
  "attempt a c (stands a F h) (existing None n k) (\<lambda>q g s. \<exists>fd i st. q = new_pin fd None n st k \<and>
     stands a (insert (Opened fd i) F) (addPin q h) g s)"
proof (rule attempt_post [OF existing_attempt])
  fix q g s assume "pinned a F h None n k q g s"
  then obtain fd i st where q: "q = new_pin fd None n st k"
      and st: "stands a (insert (Free fd) (insert (Opened fd i) F) \<union> link F None n i) (addPin q h) g s"
    by (auto simp: pinned_def)
  have "stands a (insert (Opened fd i) F) (addPin q h) g s" by (rule stands_subset [OF st]) auto
  then show "\<exists>fd i st. q = new_pin fd None n st k \<and> stands a (insert (Opened fd i) F) (addPin q h) g s"
    using q by blast
qed

lemma attempt_pin:
  assumes "attempt a c P m (\<lambda>q g s. \<exists>fd i st. q = N fd st \<and> W fd i st q g s)"
    and "\<And>fd i st. attempt a c (W fd i st (N fd st)) (k (N fd st)) Q"
  shows "attempt a c P (tryT m k) Q"
proof (rule attempt_try [OF assms(1)], intro attempt_exists attempt_fact)
  fix q fd i st assume "q = N fd st"
  then show "attempt a c (W fd i st q) (k q) Q" using assms(2) by simp
qed

lemma stands_update:
  "gPins (u h) = gPins h \<Longrightarrow> stands a F h g s \<Longrightarrow> stands a F (u h) (u g) s"
  by (auto simp: stands_def tracked_def)

lemma attempt_assign:
  "(\<And>g. gPins (u g) = gPins g) \<Longrightarrow> attempt a c (stands a F (u h)) (k ()) Q \<Longrightarrow> attempt a c (stands a F h) (bindT (setT u) k) Q"
  by (rule attempt_set [where W = "stands a F (u h)"]) (auto intro: stands_update)

lemma attempt_weaken: "attempt a c (stands a E h) m Q \<Longrightarrow> E \<subseteq> F \<Longrightarrow> attempt a c (stands a F h) m Q"
  by (erule attempt_pre) (rule stands_subset)

section \<open>Shared and exclusive acquisition\<close>

definition base_facts :: "nat \<Rightarrow> nat \<Rightarrow> nat \<Rightarrow> nat \<Rightarrow> nat \<Rightarrow> nat \<Rightarrow> nat \<Rightarrow> nat \<Rightarrow> bool \<Rightarrow> fact set" where
  "base_facts f1 f2 f3 f4 p e l d x = {Opened f1 p, Opened f2 e, Entry p factoryName e, Opened f3 l, Entry e lockName l,
     Locks l x, Opened f4 d, Entry e activityName d}"

lemma settle_attempt:
  assumes lock: "lockFile h = Some f3" and B: "base_facts f1 f2 f3 f4 p e l d x \<subseteq> F"
    and files: "pFile project = Some f1" "pFile state = Some f2" "pFile activity = Some f4"
  shows "attempt a c (stands a F h) (settle project state activity)
     (\<lambda>_. stands a (F \<union> {Settled p factoryName e, Settled e activityName d} \<union> {Settled d n i | n i. Entry d n i \<in> F}) h)"
    (is "attempt _ _ _ _ (\<lambda>_. stands a ?G h)")
proof -
  let ?F1 = "settle_facts l F" and ?F2 = "settle_facts d (settle_facts l F)"
  let ?F3 = "settle_facts e ?F2" let ?F4 = "settle_facts p ?F3"
  have sub: "F \<subseteq> settle_facts k F" for k and F :: "fact set" by (auto simp: settle_facts_def)
  have o: "Opened f3 l \<in> F" "Opened f4 d \<in> ?F1" "Opened f2 e \<in> ?F2" "Opened f1 p \<in> ?F3"
    using B sub by (auto simp: base_facts_def settle_facts_def)
  have each: "attempt a c (stands a ?F1 h) (eachT (\<lambda>p. syncFile (pFile p)) [activity, state, project]) (\<lambda>_. stands a ?F4 h)"
    unfolding eachT.simps files
    by (rule attempt_try [OF syncFile_attempt [OF o(2)]], rule attempt_try [OF syncFile_attempt [OF o(3)]],
        rule attempt_try [OF syncFile_attempt [OF o(4)]], rule attempt_return [OF stable_stands])
  have "attempt a c (stands a F h) (settle project state activity) (\<lambda>_. stands a ?F4 h)"
    unfolding settle_def
    by (rule attempt_get, unfold lock, rule attempt_try [OF syncFile_attempt [OF o(1)]], rule attempt_try [OF each],
        rule attempt_try [OF attempt_reading [OF reading_check]], rule attempt_reading, rule reading_more)
  then show ?thesis
    by (rule attempt_post) (erule stands_subset, use B in \<open>auto simp: settle_facts_def base_facts_def\<close>)
qed

text \<open>The first half of \<open>acquire\<close>: the pins, the lock and the activity directory.\<close>

abbreviation acquired_guard :: "guard \<Rightarrow> pin \<Rightarrow> pin \<Rightarrow> pin \<Rightarrow> pin \<Rightarrow> guard" where
  "acquired_guard g q1 q2 q3 q4 \<equiv> (addPin q4 ((addPin q3 (addPin q2 (addPin q1 g)))\<lparr>gLock := Some q3\<rparr>))\<lparr>gActivity := Some q4\<rparr>"

lemma acquireBody_attempt:
  assumes rest: "\<And>f1 f2 f3 f4 p e l d s1 s2 s3 s4.
      attempt a False (stands a (insert (Traces None) (base_facts f1 f2 f3 f4 p e l d x))
        (acquired_guard g (new_pin f1 None path s1 PinDirectory) (new_pin f2 (Some f1) factoryName s2 PinDirectory)
          (new_pin f3 (Some f2) lockName s3 PinControl) (new_pin f4 (Some f2) activityName s4 PinPrivate)))
        (tryT (if x then no_activity else mark_activity (new_pin f4 (Some f2) activityName s4 PinPrivate)) (\<lambda>_.
          settle (new_pin f1 None path s1 PinDirectory) (new_pin f2 (Some f1) factoryName s2 PinDirectory)
            (new_pin f4 (Some f2) activityName s4 PinPrivate))) Q"
  shows "attempt a False (stands a {Unlocked, Traces None} g) (acquireBody path x) Q"
  unfolding acquireBody_def
proof (rule attempt_pin [OF root_step])
  fix f1 p s1
  let ?q1 = "new_pin f1 None path s1 PinDirectory"
  let ?F1 = "insert (Opened f1 p) {Unlocked, Traces None}"
  show "attempt a False (stands a ?F1 (addPin ?q1 g)) (tryT (directory ?q1 factoryName False) (\<lambda>state.
     tryT (control state lockName True) (\<lambda>lock.
     bindT (setT (\<lambda>g. g\<lparr>gLock := Some lock\<rparr>)) (\<lambda>_.
     tryT (flockGuard x) (\<lambda>_.
     tryT (pendingAbsent state) (\<lambda>_.
     tryT (directory state activityName True) (\<lambda>activity.
     bindT (setT (\<lambda>g. g\<lparr>gActivity := Some activity\<rparr>)) (\<lambda>_.
     tryT (if x then no_activity else mark_activity activity) (\<lambda>_.
     settle ?q1 state activity)))))))) ) Q"
  proof (rule attempt_pin [OF directory_step [of ?q1 f1 p ?F1 factoryName a False "addPin ?q1 g" False]], unfold if_False)
    fix f2 e s2
    let ?q2 = "new_pin f2 (Some f1) factoryName s2 PinDirectory"
    let ?F2 = "insert (Opened f2 e) (insert (Entry p factoryName e) ?F1)"
    show "attempt a False (stands a ?F2 (addPin ?q2 (addPin ?q1 g))) (tryT (control ?q2 lockName True) (\<lambda>lock.
     bindT (setT (\<lambda>g. g\<lparr>gLock := Some lock\<rparr>)) (\<lambda>_.
     tryT (flockGuard x) (\<lambda>_.
     tryT (pendingAbsent ?q2) (\<lambda>_.
     tryT (directory ?q2 activityName True) (\<lambda>activity.
     bindT (setT (\<lambda>g. g\<lparr>gActivity := Some activity\<rparr>)) (\<lambda>_.
     tryT (if x then no_activity else mark_activity activity) (\<lambda>_.
     settle ?q1 ?q2 activity)))))))) Q"
    proof (rule attempt_pin [OF control_lock_attempt [of ?q2 f2 e ?F2]])
      fix f3 l s3
      let ?q3 = "new_pin f3 (Some f2) lockName s3 PinControl"
      let ?h3 = "(addPin ?q3 (addPin ?q2 (addPin ?q1 g)))\<lparr>gLock := Some ?q3\<rparr>"
      let ?E3 = "{Opened f1 p, Opened f2 e, Entry p factoryName e, Opened f3 l, Entry e lockName l, Traces None}"
      have flock: "attempt a False (stands a (insert Unlocked ?E3) ?h3) (flockGuard x) (\<lambda>_. stands a (insert (Locks l x) ?E3) ?h3)"
        by (rule flockGuard_attempt [of _ f3]) (auto simp: lockFile_def)
      show "attempt a False (stands a (insert (Opened f3 l) (insert (Entry e lockName l) ?F2)) (addPin ?q3 (addPin ?q2 (addPin ?q1 g))))
     (bindT (setT (\<lambda>g. g\<lparr>gLock := Some ?q3\<rparr>)) (\<lambda>_.
     tryT (flockGuard x) (\<lambda>_.
     tryT (pendingAbsent ?q2) (\<lambda>_.
     tryT (directory ?q2 activityName True) (\<lambda>activity.
     bindT (setT (\<lambda>g. g\<lparr>gActivity := Some activity\<rparr>)) (\<lambda>_.
     tryT (if x then no_activity else mark_activity activity) (\<lambda>_.
     settle ?q1 ?q2 activity))))))) Q"
      proof (rule attempt_assign, simp, rule attempt_weaken [of _ _ "insert Unlocked ?E3"], rule attempt_try [OF flock],
          rule attempt_try [OF attempt_reading [OF reading_more(1)]],
          rule attempt_pin [OF directory_step [of ?q2 f2 e "insert (Locks l x) ?E3" activityName a False ?h3 True]], unfold if_True)
        fix f4 d s4
        let ?q4 = "new_pin f4 (Some f2) activityName s4 PinPrivate"
        show "attempt a False (stands a (insert (Opened f4 d) (insert (Entry e activityName d) (insert (Locks l x) ?E3))) (addPin ?q4 ?h3))
         (bindT (setT (\<lambda>g. g\<lparr>gActivity := Some ?q4\<rparr>)) (\<lambda>_.
         tryT (if x then no_activity else mark_activity ?q4) (\<lambda>_. settle ?q1 ?q2 ?q4))) Q"
        proof (rule attempt_assign)
          show "attempt a False (stands a (insert (Opened f4 d) (insert (Entry e activityName d) (insert (Locks l x) ?E3)))
             ((addPin ?q4 ?h3)\<lparr>gActivity := Some ?q4\<rparr>))
             (tryT (if x then no_activity else mark_activity ?q4) (\<lambda>_. settle ?q1 ?q2 ?q4)) Q"
            by (rule attempt_weaken [OF rest]) (auto simp: base_facts_def)
        qed simp
      qed auto
    qed auto
  qed auto
qed

definition grants :: "nat \<Rightarrow> request \<Rightarrow> guard \<Rightarrow> machine \<Rightarrow> bool" where
  "grants a r g s \<longleftrightarrow> granted a r \<lparr>hGuard = g, hLease = None\<rparr> s"

lemma stable_grants: "stable_for a (grants a r g)"
  using stable_granted unfolding grants_def .

lemma exclusive_granted:
  assumes st: "stands a G h g s" and G: "base_facts f1 f2 f3 f4 p e l d True \<subseteq> G" "Frozen d \<in> G"
    and h: "gPins h = q # ps" "pFile q = Some f1" "gMarker h = None" "\<not> gClosed h" and r: "exclusive r" "\<not> is_lease r"
  shows "grants a r g s"
proof -
  have g: "g = h" and G': "facts a G s" using st by (auto simp: stands_def)
  have "facts a (path_facts f1 p e l d True) s" "facts a {Frozen d} s"
    using G G' by (auto simp: facts_def path_facts_def base_facts_def)
  then have "held_facts a r h f1 p s" using r h(3) unfolding held_facts_def by auto
  then show ?thesis
    using stands_loose [OF st] g h r by (auto simp: grants_def granted_def marker_held_def)
qed

lemma exclusive_acquired:
  assumes g: "gPins g = []" "gMarker g = None" "\<not> gClosed g" and r: "exclusive r" "\<not> is_lease r"
  shows "attempt a False (stands a {Unlocked, Traces None} g) (acquireBody path True) (\<lambda>_. grants a r)"
proof (rule acquireBody_attempt, unfold if_True)
  fix f1 f2 f3 f4 p e l d s1 s2 s3 s4
  let ?q1 = "new_pin f1 None path s1 PinDirectory" and ?q2 = "new_pin f2 (Some f1) factoryName s2 PinDirectory"
  let ?q3 = "new_pin f3 (Some f2) lockName s3 PinControl" and ?q4 = "new_pin f4 (Some f2) activityName s4 PinPrivate"
  let ?h = "acquired_guard g ?q1 ?q2 ?q3 ?q4"
  let ?F = "insert (Traces None) (base_facts f1 f2 f3 f4 p e l d True)"
  have empty: "attempt a False (stands a ?F ?h) no_activity (\<lambda>_. stands a (insert (Frozen d) ?F) ?h)"
    by (rule empty_attempts(1) [of f4 d _ l e]) (auto simp: base_facts_def addPin_def)
  show "attempt a False (stands a ?F ?h) (tryT no_activity (\<lambda>_. settle ?q1 ?q2 ?q4)) (\<lambda>_. grants a r)"
  proof (rule attempt_try [OF empty], rule attempt_post [OF settle_attempt])
    show "lockFile ?h = Some f3" by (simp add: lockFile_def addPin_def)
    show "base_facts f1 f2 f3 f4 p e l d True \<subseteq> insert (Frozen d) ?F" by auto
  next
    fix x h' s
    assume "stands a (insert (Frozen d) ?F \<union> {Settled p factoryName e, Settled e activityName d} \<union>
        {Settled d n i | n i. Entry d n i \<in> insert (Frozen d) ?F}) ?h h' s"
    then show "grants a r h' s"
      by (rule exclusive_granted [where q = ?q1 and ps = "[?q2, ?q3, ?q4]"]) (use g r in \<open>auto simp: addPin_def\<close>)
  qed simp_all
qed

lemma shared_granted:
  assumes st: "stands a G h g s" and G: "base_facts f1 f2 f3 f4 p e l d False \<subseteq> G"
      "{Settled p factoryName e, Settled e activityName d, Settled d (pName k) i, Entry d (pName k) i, Traces (Some (d, pName k))} \<subseteq> G"
    and h: "gPins h = q # ps @ [k]" "pFile q = Some f1" "gMarker h = Some k" "\<not> gClosed h"
      "Option.bind (gActivity h) pFile = Some f4"
    and k: "pFile k = Some (pId k)" "pId k \<noteq> f4" "is_marker (pName k)"
  shows "grants a Shared g s"
proof -
  have g: "g = h" and G': "facts a G s" using st by (auto simp: stands_def)
  have "facts a (path_facts f1 p e l d False) s" "facts a (trail_facts p e d (pName k) i) s"
    using G G' by (auto simp: facts_def path_facts_def base_facts_def trail_facts_def)
  then have "held_facts a Shared h f1 p s" using h(3) unfolding held_facts_def by (auto simp: exclusive_def is_lease_def)
  moreover have "facts a (marker_facts f4 d (pName k) i) s"
    using G G' by (auto simp: facts_def base_facts_def marker_facts_def)
  then have "marker_held a h s" using h k unfolding marker_held_def by (auto intro!: exI [of _ "q # ps"])
  ultimately show ?thesis
    using stands_loose [OF st] g h by (auto simp: grants_def granted_def is_lease_def)
qed

lemma shared_acquired:
  assumes g: "gPins g = []" "gMarker g = None" "\<not> gClosed g"
  shows "attempt a False (stands a {Unlocked, Traces None} g) (acquireBody path False) (\<lambda>_. grants a Shared)"
proof (rule acquireBody_attempt, unfold if_False)
  fix f1 f2 f3 f4 p e l d s1 s2 s3 s4
  let ?q1 = "new_pin f1 None path s1 PinDirectory" and ?q2 = "new_pin f2 (Some f1) factoryName s2 PinDirectory"
  let ?q3 = "new_pin f3 (Some f2) lockName s3 PinControl" and ?q4 = "new_pin f4 (Some f2) activityName s4 PinPrivate"
  let ?h = "acquired_guard g ?q1 ?q2 ?q3 ?q4"
  let ?B = "base_facts f1 f2 f3 f4 p e l d False"
  have named: "attempt a False (stands a (insert (Traces None) ?B) ?h)
      (tryT (tryT (control ?q4 n False) (\<lambda>m. bindT (setT (\<lambda>g. g\<lparr>gMarker := Some m\<rparr>)) (\<lambda>_. syncFile (pFile m)))) (\<lambda>_. settle ?q1 ?q2 ?q4))
      (\<lambda>_. grants a Shared)" if n: "is_marker n" for n
  proof -
    let ?W = "\<lambda>fd i st h. let k = new_pin fd (Some f4) n st PinControl in fd \<noteq> f4 \<and>
       h = (addPin k ?h)\<lparr>gMarker := Some k\<rparr>"
    have marked: "attempt a False (stands a (insert (Traces None) ?B) ?h)
      (tryT (control ?q4 n False) (\<lambda>m. bindT (setT (\<lambda>g. g\<lparr>gMarker := Some m\<rparr>)) (\<lambda>_. syncFile (pFile m))))
      (\<lambda>_ g s. \<exists>fd i st h. ?W fd i st h \<and> stands a (insert (Traces (Some (d, n))) (insert (Entry d n i) ?B)) h g s)"
    proof (rule attempt_pin [OF control_marker_attempt [of n ?q4 f4 d ?B l e]])
      fix fd i st
      let ?k = "new_pin fd (Some f4) n st PinControl"
      let ?F = "insert (Traces (Some (d, n))) (insert (Opened fd i) (insert (Entry d n i) ?B))"
      let ?Q = "\<lambda>_ g s. \<exists>fd i st h. ?W fd i st h \<and> stands a (insert (Traces (Some (d, n))) (insert (Entry d n i) ?B)) h g s"
      have "attempt a False (stands a ?F ((addPin ?k ?h)\<lparr>gMarker := Some ?k\<rparr>)) (syncFile (pFile ?k)) ?Q" if "fd \<noteq> f4"
        unfolding pin.select_convs Let_def
        by (rule attempt_post [OF syncFile_attempt [of fd i]])
           (use that in \<open>auto simp: settle_facts_def elim!: stands_subset intro!: exI\<close>)
      then show "attempt a False (\<lambda>g s. fd \<noteq> f4 \<and> stands a ?F (addPin ?k ?h) g s)
          (bindT (setT (\<lambda>g. g\<lparr>gMarker := Some ?k\<rparr>)) (\<lambda>_. syncFile (pFile ?k))) ?Q"
        by (intro attempt_fact attempt_assign) simp_all
    qed (use n in \<open>auto simp: base_facts_def\<close>)
    show ?thesis
    proof (rule attempt_try [OF marked], intro attempt_exists attempt_fact, unfold Let_def, elim conjE)
      fix fd i st h
      let ?k = "new_pin fd (Some f4) n st PinControl"
      assume k: "fd \<noteq> f4" "h = (addPin ?k ?h)\<lparr>gMarker := Some ?k\<rparr>"
      let ?F = "insert (Traces (Some (d, n))) (insert (Entry d n i) ?B)"
      show "attempt a False (stands a ?F h) (settle ?q1 ?q2 ?q4) (\<lambda>_. grants a Shared)"
      proof (rule attempt_post [OF settle_attempt])
        show "lockFile h = Some f3" by (simp add: k lockFile_def addPin_def)
        show "?B \<subseteq> ?F" by auto
      next
        fix x h' s
        assume st: "stands a (?F \<union> {Settled p factoryName e, Settled e activityName d} \<union> {Settled d n i | n i. Entry d n i \<in> ?F}) h h' s"
        show "grants a Shared h' s"
          by (rule shared_granted [OF st, where k = ?k and i = i and q = ?q1 and ps = "[?q2, ?q3, ?q4]"])
             (use g k n in \<open>auto simp: addPin_def\<close>)
      qed simp_all
    qed
  qed
  show "attempt a False (stands a (insert (Traces None) ?B) ?h) (tryT (mark_activity ?q4) (\<lambda>_. settle ?q1 ?q2 ?q4)) (\<lambda>_. grants a Shared)"
  proof -
    have split: "tryT (mark_activity ?q4) (\<lambda>_. settle ?q1 ?q2 ?q4) = bindT (askT QRandom) (\<lambda>r.
       tryT (tryT (control ?q4 (''activity-'' @ (case r of AText t \<Rightarrow> t | _ \<Rightarrow> [])) False) (\<lambda>m.
         bindT (setT (\<lambda>g. g\<lparr>gMarker := Some m\<rparr>)) (\<lambda>_. syncFile (pFile m)))) (\<lambda>_. settle ?q1 ?q2 ?q4))"
      by (simp add: mark_activity_def tryT_def bindT_def askT_def fun_eq_iff)
    show ?thesis
      unfolding split
      by (rule attempt_bind [OF reading_triple [OF reading_ask stable_stands]], simp) (rule named, rule reserved_names)
  qed
qed

section \<open>Recovery and preparation\<close>

lemma close_free:
  assumes F: "facts a F s" and fd: "Free fd \<in> F" and r: "(r, t) \<in> may_serve a (QClose (Some fd)) s"
    and E: "E \<subseteq> F" "\<And>f. f \<in> E \<Longrightarrow> case f of Opened k _ \<Rightarrow> k \<noteq> fd | _ \<Rightarrow> True"
  shows "facts a E t"
proof -
  note c = close_effect [OF F r]
  have free: "d_lock d = None" if "d \<in> set (descs a s)" "d_fd d = fd" for d
    using factsD [OF F fd] that by simp
  have l: "locks a t i x" if "locks a s i x" for i x
    using that free unfolding locks_def c(2) by fastforce
  have ok: "machine_ok s" using F by (simp add: facts_def)
  have m: "moves a False s t" by (rule served_moves [OF ok _ r]) (simp add: permitted_def)
  have "fulfils a t f" if f: "f \<in> E" for f
  proof (cases f)
    case (Locks i x)
    then show ?thesis using l factsD [OF F] f E(1) by fastforce
  next
    case (Frozen d)
    then have "fulfils a s (Frozen d)" using factsD [OF F] f E(1) by blast
    then have "guarded_by a t True d" "no_marker t d"
      using guarded_by_mono [OF moves_persists [OF ok m] l, of True d] moves_frozen [OF ok m, of a d] by simp_all
    then show ?thesis using Frozen by simp
  next
    case Unlocked
    then show ?thesis using factsD [OF F, of f] f E(1) c(2) by auto
  next
    case (Free k)
    then show ?thesis using factsD [OF F, of f] f E(1) c(2) by auto
  qed (use c(1) E(1) E(2) [OF f] f in \<open>auto simp: facts_def outlives_def simp del: fulfils.simps\<close>)
  then show ?thesis using c(1) by (simp add: facts_def)
qed

lemma close_pin_attempt:
  assumes fd: "Free fd \<in> F" and E: "E \<subseteq> F" "new_fd fd E"
  shows "attempt a c (stands a F (addPin (new_pin fd f n st k) h)) (plainCall (QClose (Some fd)))
     (\<lambda>_ g s. g = addPin (new_pin fd f n st k) h \<and> stands a E h (drop_pin g) s)"
  unfolding plainCall_def
proof (rule call_attempt)
  let ?p = "new_pin fd f n st k"
  show "permitted a c (QClose (Some fd)) s" for s by (simp add: permitted_def)
  have drop: "drop_pin (addPin ?p h) = h" by (simp add: drop_pin_def addPin_def)
  fix s r t assume st: "stands a F (addPin ?p h) (addPin ?p h) s" and r: "(r, t) \<in> may_serve a (QClose (Some fd)) s"
  have F: "facts a F s" using st by (simp add: stands_def)
  have E': "facts a E t"
    by (rule close_free [OF F fd r E(1)]) (use E(2) in \<open>auto simp: new_fd_def split: fact.splits\<close>)
  have descs: "set (descs a t) = {d \<in> set (descs a s). d_fd d \<noteq> fd}" by (rule close_effect(2) [OF F r])
  have "tracked a h t" using st descs by (fastforce simp: stands_def tracked_def addPin_def)
  moreover have "loose a (addPin ?p h) t"
    using E' st descs by (auto simp: loose_def facts_def stands_def tracked_def)
  ultimately show "case case r of AErr e \<Rightarrow> Inl (Errno e) | _ \<Rightarrow> Inr () of Inl e \<Rightarrow> loose a (addPin ?p h) t
     | Inr _ \<Rightarrow> addPin ?p h = addPin ?p h \<and> stands a E h (drop_pin (addPin ?p h)) t"
    using E' by (cases r) (auto simp: drop stands_def)
qed (use stable_stands in \<open>simp add: drop_pin_def addPin_def\<close>)

lemma pending_attempt:
  assumes "pFile state = Some f2"
  shows "attempt a c (stands a F h) (qualify_pending state) (\<lambda>_. stands a F h)"
  unfolding qualify_pending_def assms
proof (rule attempt_try [OF existing_attempt])
  fix pending :: pin
  let ?rest = "bindT (plainCall (QClose (pFile pending))) (\<lambda>r. case r of
         Inl e \<Rightarrow> refuse (Some e) False
       | Inr _ \<Rightarrow> bindT (setT drop_pin) (\<lambda>_. bindT (named (Some f2) pendingName) (\<lambda>r. case r of
             Inl e \<Rightarrow> refuse (Some e) False
           | Inr current \<Rightarrow> bindT (getT id) (\<lambda>g.
               if \<not> pending_unchanged g current (pStat pending) then refuse None True else check))))"
  have last: "attempt a c (stands a F h) (bindT (named (Some f2) pendingName) (\<lambda>r. case r of
             Inl e \<Rightarrow> refuse (Some e) False
           | Inr current \<Rightarrow> bindT (getT id) (\<lambda>g.
               if \<not> pending_unchanged g current (pStat pending) then refuse None True else check))) (\<lambda>_. stands a F h)"
    by (intro attempt_case [OF attempt_reading [OF reading_named]] attempt_get attempt_if attempt_stands_failing
        attempt_reading reading_check failing_tasks)
  have "attempt a c (\<lambda>g s. \<exists>fd i st. (pending = new_pin fd (Some f2) pendingName st PinControl \<and> new_fd fd F) \<and>
      stands a (insert (Free fd) (insert (Opened fd i) F)) (addPin pending h) g s) ?rest (\<lambda>_. stands a F h)"
  proof (intro attempt_exists attempt_fact, elim conjE)
    fix fd i st assume p: "pending = new_pin fd (Some f2) pendingName st PinControl" and new: "new_fd fd F"
    have close: "attempt a c (stands a (insert (Free fd) (insert (Opened fd i) F)) (addPin pending h)) (plainCall (QClose (Some fd)))
        (\<lambda>_ g s. g = addPin pending h \<and> stands a F h (drop_pin g) s)"
      unfolding p by (rule close_pin_attempt) (use new in auto)
    have "attempt a c (stands a (insert (Free fd) (insert (Opened fd i) F)) (addPin pending h))
        (bindT (plainCall (QClose (Some fd))) (\<lambda>r. case r of
         Inl e \<Rightarrow> refuse (Some e) False
       | Inr _ \<Rightarrow> bindT (setT drop_pin) (\<lambda>_. bindT (named (Some f2) pendingName) (\<lambda>r. case r of
             Inl e \<Rightarrow> refuse (Some e) False
           | Inr current \<Rightarrow> bindT (getT id) (\<lambda>g.
               if \<not> pending_unchanged g current (pStat pending) then refuse None True else check))))) (\<lambda>_. stands a F h)"
      by (rule attempt_case [OF close], simp, rule attempt_set [OF last]) simp
    then show "attempt a c (stands a (insert (Free fd) (insert (Opened fd i) F)) (addPin pending h)) ?rest (\<lambda>_. stands a F h)"
      using p by simp
  qed
  then show "attempt a c (pinned a F h (Some f2) pendingName PinControl pending) ?rest (\<lambda>_. stands a F h)"
    by (rule attempt_pre) (auto simp: pinned_def intro: stands_subset)
qed

abbreviation recovery_guard :: "guard \<Rightarrow> pin \<Rightarrow> pin \<Rightarrow> pin \<Rightarrow> pin \<Rightarrow> guard" where
  "recovery_guard g q1 q2 q3 q4 \<equiv> (addPin q4 ((addPin q3 (addPin q2 (addPin q1 g)))\<lparr>gLock := Some q3\<rparr>))\<lparr>gActivity := Some q4\<rparr>"

lemma recovery_attempt:
  assumes g: "gPins g = []" "gMarker g = None" "\<not> gClosed g" and r: "exclusive r" "\<not> is_lease r"
  shows "attempt a False (stands a {Unlocked, Traces None} g) (recoveryBody path b) (\<lambda>_. grants a r)"
  unfolding recoveryBody_def
proof (rule attempt_pin [OF root_step])
  fix f1 p s1
  let ?q1 = "new_pin f1 None path s1 PinDirectory"
  let ?F1 = "insert (Opened f1 p) {Unlocked, Traces None}"
  let ?tail = "\<lambda>state. tryT (flockGuard True) (\<lambda>_. tryT recovery_empty (\<lambda>_.
     if b then qualify_pending state else require_absent state))"
  have p1: "pFile ?q1 = Some f1" by simp
  show "attempt a False (stands a ?F1 (addPin ?q1 g)) (tryT (existing (pFile ?q1) factoryName PinDirectory) (\<lambda>state.
     tryT (existing (pFile state) lockName PinControl) (\<lambda>lock.
     bindT (setT (\<lambda>g. g\<lparr>gLock := Some lock\<rparr>)) (\<lambda>_.
     tryT (existing (pFile state) activityName PinPrivate) (\<lambda>activity.
     bindT (setT (\<lambda>g. g\<lparr>gActivity := Some activity\<rparr>)) (\<lambda>_. ?tail state)))))) (\<lambda>_. grants a r)"
    unfolding p1
  proof (rule attempt_pin [OF existing_step [of f1 p ?F1 factoryName]])
    fix f2 e s2
    let ?q2 = "new_pin f2 (Some f1) factoryName s2 PinDirectory"
    let ?F2 = "insert (Opened f2 e) (insert (Entry p factoryName e) ?F1)"
    have p2: "pFile ?q2 = Some f2" by simp
    show "attempt a False (stands a ?F2 (addPin ?q2 (addPin ?q1 g))) (
     tryT (existing (pFile ?q2) lockName PinControl) (\<lambda>lock.
     bindT (setT (\<lambda>g. g\<lparr>gLock := Some lock\<rparr>)) (\<lambda>_.
     tryT (existing (pFile ?q2) activityName PinPrivate) (\<lambda>activity.
     bindT (setT (\<lambda>g. g\<lparr>gActivity := Some activity\<rparr>)) (\<lambda>_. ?tail ?q2))))) (\<lambda>_. grants a r)"
      unfolding p2
    proof (rule attempt_pin [OF existing_step [of f2 e ?F2 lockName]])
      fix f3 l s3
      let ?q3 = "new_pin f3 (Some f2) lockName s3 PinControl"
      let ?h3 = "(addPin ?q3 (addPin ?q2 (addPin ?q1 g)))\<lparr>gLock := Some ?q3\<rparr>"
      let ?F3 = "insert (Opened f3 l) (insert (Entry e lockName l) ?F2)"
      have body: "attempt a False (stands a ?F3 ?h3) (tryT (existing (Some f2) activityName PinPrivate) (\<lambda>activity.
          bindT (setT (\<lambda>g. g\<lparr>gActivity := Some activity\<rparr>)) (\<lambda>_. ?tail ?q2))) (\<lambda>_. grants a r)"
      proof (rule attempt_pin [OF existing_step [of f2 e ?F3 activityName]])
        fix f4 d s4
        let ?q4 = "new_pin f4 (Some f2) activityName s4 PinPrivate"
        let ?h = "recovery_guard g ?q1 ?q2 ?q3 ?q4"
        let ?E = "{Opened f1 p, Opened f2 e, Entry p factoryName e, Opened f3 l, Entry e lockName l, Opened f4 d, Entry e activityName d}"
        let ?F = "insert (Locks l True) ?E"
        have flock: "attempt a False (stands a (insert Unlocked ?E) ?h) (flockGuard True) (\<lambda>_. stands a ?F ?h)"
          by (rule flockGuard_attempt [of _ f3]) (auto simp: lockFile_def addPin_def)
        have empty: "attempt a False (stands a ?F ?h) recovery_empty (\<lambda>_. stands a (insert (Frozen d) ?F) ?h)"
          by (rule empty_attempts(2) [of f4 d _ l e]) (auto simp: addPin_def)
        have last: "attempt a False (stands a (insert (Frozen d) ?F) ?h) (if b then qualify_pending ?q2 else require_absent ?q2)
            (\<lambda>_. stands a (insert (Frozen d) ?F) ?h)"
          by (intro attempt_if pending_attempt attempt_reading reading_more) simp
        have "attempt a False (stands a (insert Unlocked ?E) ?h) (?tail ?q2) (\<lambda>_. stands a (insert (Frozen d) ?F) ?h)"
          by (rule attempt_try [OF flock attempt_try [OF empty last]])
        moreover have "grants a r h s" if "stands a (insert (Frozen d) ?F) ?h h s" for h s
          by (rule exclusive_granted [OF that, of f1 f2 f3 f4 p e l d ?q1 "[?q2, ?q3, ?q4]"])
             (use g r in \<open>auto simp: base_facts_def addPin_def\<close>)
        ultimately have "attempt a False (stands a (insert Unlocked ?E) ?h) (?tail ?q2) (\<lambda>_. grants a r)"
          by (rule attempt_post)
        then have all: "attempt a False (stands a (insert (Opened f4 d) (insert (Entry e activityName d) ?F3)) ?h) (?tail ?q2) (\<lambda>_. grants a r)"
          by (rule attempt_weaken) auto
        show "attempt a False (stands a (insert (Opened f4 d) (insert (Entry e activityName d) ?F3)) (addPin ?q4 ?h3))
           (bindT (setT (\<lambda>g. g\<lparr>gActivity := Some ?q4\<rparr>)) (\<lambda>_. ?tail ?q2)) (\<lambda>_. grants a r)"
          by (rule attempt_assign) (simp, rule all)
      qed auto
      show "attempt a False (stands a ?F3 (addPin ?q3 (addPin ?q2 (addPin ?q1 g)))) (bindT (setT (\<lambda>g. g\<lparr>gLock := Some ?q3\<rparr>)) (\<lambda>_.
          tryT (existing (Some f2) activityName PinPrivate) (\<lambda>activity.
          bindT (setT (\<lambda>g. g\<lparr>gActivity := Some activity\<rparr>)) (\<lambda>_. ?tail ?q2)))) (\<lambda>_. grants a r)"
        by (rule attempt_assign) (simp, rule body)
    qed auto
  qed auto
qed

section \<open>The root lease\<close>

definition leases :: "nat \<Rightarrow> request \<Rightarrow> lease \<Rightarrow> guard \<Rightarrow> machine \<Rightarrow> bool" where
  "leases a r l g s \<longleftrightarrow> granted a r \<lparr>hGuard = g, hLease = Some l\<rparr> s"

lemma stable_leases: "stable_for a (leases a r l g)"
  using stable_granted unfolding leases_def .

definition lease_stands :: "nat \<Rightarrow> request \<Rightarrow> guard \<Rightarrow> machine \<Rightarrow> bool" where
  "lease_stands a r g s \<longleftrightarrow> (\<exists>q ps fd p F. stands a F g g s \<and> lease_facts fd p (exclusive r) \<subseteq> F \<and> gPins g = q # ps \<and>
     pFile q = Some fd \<and> gMarker g = None \<and> \<not> gClosed g)"

lemma lease_stands_leases: "lease_stands a r g s \<Longrightarrow> is_lease r \<Longrightarrow> leases a r l g s"
  unfolding lease_stands_def
proof (elim exE conjE)
  fix q ps fd p F
  assume st: "stands a F g g s" "lease_facts fd p (exclusive r) \<subseteq> F" and r: "is_lease r"
    and g: "gPins g = q # ps" "pFile q = Some fd" "gMarker g = None" "\<not> gClosed g"
  have "facts a (lease_facts fd p (exclusive r)) s" using st by (auto simp: stands_def facts_def)
  then have "held_facts a r g fd p s" using r by (simp add: held_facts_def)
  then show "leases a r l g s"
    using stands_loose [OF st(1)] r g by (auto simp: leases_def granted_def marker_held_def)
qed

lemma leaseBody_attempt:
  assumes g: "gPins g = []" "gMarker g = None" "\<not> gClosed g" and r: "is_lease r"
  shows "attempt a False (stands a {Unlocked, Traces None} g) (leaseBody path (exclusive r)) (leases a r)"
  unfolding leaseBody_def
proof (rule attempt_pin [OF root_step])
  fix f1 p s1
  let ?q1 = "new_pin f1 None path s1 PinDirectory"
  let ?h = "(addPin ?q1 g)\<lparr>gLock := Some ?q1\<rparr>"
  let ?F = "insert (Locks p (exclusive r)) {Opened f1 p}"
  have flock: "attempt a False (stands a (insert Unlocked {Opened f1 p}) ?h) (flockGuard (exclusive r)) (\<lambda>_. stands a ?F ?h)"
    by (rule flockGuard_attempt [of _ f1]) (auto simp: lockFile_def)
  have held: "stands a F h h s \<Longrightarrow> ?F \<subseteq> F \<Longrightarrow> gPins h = ?q1 # ps \<Longrightarrow> gMarker h = None \<Longrightarrow> \<not> gClosed h \<Longrightarrow> lease_stands a r h s" for F h s ps
    unfolding lease_stands_def by (rule exI [of _ ?q1]) (auto simp: lease_facts_def)
  have factory: "attempt a False (stands a ?F ?h) (if exclusive r then retT (Inr None) else leaseFactory ?q1) (\<lambda>_. lease_stands a r)"
  proof (rule attempt_if)
    show "attempt a False (stands a ?F ?h) (retT (Inr None)) (\<lambda>_. lease_stands a r)"
      by (rule attempt_return [OF stable_stands]) (use g held [of ?F ?h _ "[]"] in \<open>auto simp: stands_def addPin_def\<close>)
    have absent: "attempt a False (stands a ?F ?h) (retT (Inr None)) (\<lambda>_. lease_stands a r)"
      by (rule attempt_return [OF stable_stands]) (use g held [of ?F ?h _ "[]"] in \<open>auto simp: stands_def addPin_def\<close>)
    have found: "attempt a False (stands a ?F ?h) (tryT (existing (pFile ?q1) factoryName PinDirectory) (\<lambda>f. retT (Inr (Some f)))) (\<lambda>_. lease_stands a r)"
      unfolding pin.select_convs
    proof (rule attempt_pin [OF existing_step [of f1 p ?F factoryName]])
      fix f2 e s2
      let ?q2 = "new_pin f2 (Some f1) factoryName s2 PinDirectory"
      let ?F2 = "insert (Opened f2 e) (insert (Entry p factoryName e) ?F)"
      have "lease_stands a r h' s" if "stands a ?F2 (addPin ?q2 ?h) h' s" for h' s
      proof -
        have h': "h' = addPin ?q2 ?h" using that by (simp add: stands_def)
        show ?thesis
          by (rule held [of ?F2 h' s "[?q2]"]) (use that g in \<open>auto simp: h' addPin_def\<close>)
      qed
      then show "attempt a False (stands a ?F2 (addPin ?q2 ?h)) (retT (Inr (Some ?q2))) (\<lambda>_. lease_stands a r)"
        by (intro attempt_return [OF stable_stands])
    qed auto
    show "attempt a False (stands a ?F ?h) (leaseFactory ?q1) (\<lambda>_. lease_stands a r)"
      unfolding leaseFactory_def
    proof (rule attempt_bind [OF reading_triple [OF reading_named stable_stands]])
      fix x
      show "attempt a False (stands a ?F ?h) (case x of
         Inl e \<Rightarrow> if e = Errno ENOENT then retT (Inr None) else refuse (Some e) False
       | Inr _ \<Rightarrow> tryT (existing (pFile ?q1) factoryName PinDirectory) (\<lambda>f. retT (Inr (Some f)))) (\<lambda>_. lease_stands a r)"
        by (cases x) (simp_all only: sum.case found, intro attempt_if absent attempt_stands_failing failing_tasks)
    qed
  qed
  have stable: "stable_for a (lease_stands a r g)" for g
    unfolding lease_stands_def
    by (intro stable_exists) (use stable_stands in \<open>auto simp: among.stable_def\<close>)
  have check: "attempt a False (lease_stands a r) (leaseCheck l) (\<lambda>_. lease_stands a r)" for l
    unfolding attempt_def
    by (rule among.hoare_post [OF reading_triple [OF reading_more(5) stable]])
       (auto simp: lease_stands_def intro: stands_loose split: sum.splits)
  have rest: "attempt a False (lease_stands a r) (let l = \<lparr>lRoot = ?q1, lFactory = f, lReadOnly = \<not> exclusive r\<rparr> in
      tryT (leaseCheck l) (\<lambda>_. retT (Inr l))) (leases a r)" for f
    unfolding Let_def
    by (rule attempt_try [OF check], rule attempt_return [OF stable]) (rule lease_stands_leases [OF _ r])
  have "attempt a False (stands a (insert (Opened f1 p) {Unlocked, Traces None}) ?h) (tryT (flockGuard (exclusive r)) (\<lambda>_.
     tryT (if exclusive r then retT (Inr None) else leaseFactory ?q1) (\<lambda>f.
     (let l = \<lparr>lRoot = ?q1, lFactory = f, lReadOnly = \<not> exclusive r\<rparr> in
      tryT (leaseCheck l) (\<lambda>_. retT (Inr l)))))) (leases a r)"
    by (rule attempt_weaken [of _ _ "insert Unlocked {Opened f1 p}"], rule attempt_try [OF flock],
        rule attempt_try [OF factory rest]) auto
  then show "attempt a False (stands a (insert (Opened f1 p) {Unlocked, Traces None}) (addPin ?q1 g))
     (bindT (setT (\<lambda>g. g\<lparr>gLock := Some ?q1\<rparr>)) (\<lambda>_. tryT (flockGuard (exclusive r)) (\<lambda>_.
     tryT (if exclusive r then retT (Inr None) else leaseFactory ?q1) (\<lambda>f.
     (let l = \<lparr>lRoot = ?q1, lFactory = f, lReadOnly = \<not> exclusive r\<rparr> in
      tryT (leaseCheck l) (\<lambda>_. retT (Inr l))))))) (leases a r)"
    by (intro attempt_assign) simp_all
qed

end
