(* ===== verification/Transition_Inv.thy ===== *)
theory Transition_Inv
  imports Transition_Grants
begin

text \<open>
  The invariant of a system of agents (\<open>system_ok\<close>) and that every event of a schedule keeps it: what each
  agent still has to do is safe against the others, a held guard is \<open>granted\<close>, an agent that is finished owns
  no descriptor, and the evidence of every active shared guard is settled on disk.
\<close>

section \<open>Programs of an agent\<close>

abbreviation safe_prog :: "nat \<Rightarrow> bool \<Rightarrow> (query, answer, 'a) prog \<Rightarrow> ('a \<Rightarrow> machine \<Rightarrow> bool) \<Rightarrow> machine \<Rightarrow> bool" where
  "safe_prog a c \<equiv> safely (rely a) (permitted a c) (may_serve a)"

definition bare :: "nat \<Rightarrow> fact set \<Rightarrow> machine \<Rightarrow> bool" where
  "bare a T s \<longleftrightarrow> facts a T s \<and> descs a s = []"

lemma stable_bare: "stable_for a (bare a T)"
  using stable_released [of a T undefined] unfolding among.stable_def bare_def released_def by blast

lemma task_safely:
  assumes "triple_of a c P m Q" "P g s" "\<And>x h t. Q x h t \<Longrightarrow> W (f x h) t" "\<And>x. stable_for a (W x)"
  shows "safe_prog a c (bindP (m g) (\<lambda>(x, h). Done (f x h))) W s"
proof (rule among.safely_bindP)
  have "safe_prog a c (m g) (\<lambda>(x, h). Q x h) s" by (rule among.hoareD [OF assms(1,2)])
  then show "safe_prog a c (m g) (\<lambda>x t. safe_prog a c (case x of (x, h) \<Rightarrow> Done (f x h)) W t) s"
  proof (rule safely_mono)
    fix y t assume y: "(case y of (x, h) \<Rightarrow> Q x h) t"
    obtain x h where xh: "y = (x, h)" by (cases y)
    then have "W (f x h) t" using y assms(3) by simp
    then have "W (f x h) u" if "rely a t u" for u
      using assms(4) that unfolding among.stable_def by blast
    then show "safe_prog a c (case y of (x, h) \<Rightarrow> Done (f x h)) W t" using xh by simp
  qed
qed

definition begins :: "nat \<Rightarrow> guard \<Rightarrow> guard \<Rightarrow> machine \<Rightarrow> bool" where
  "begins a h g s \<longleftrightarrow> g = h \<and> bare a {Traces None} s"

lemma begins_stands: "begins a h g s \<Longrightarrow> gPins h = [] \<Longrightarrow> stands a {Unlocked, Traces None} h g s"
  by (auto simp: begins_def bare_def stands_def tracked_def facts_def)

lemma begins_released: "begins a h g s \<Longrightarrow> released a {} g s"
  by (auto simp: begins_def bare_def released_def facts_def)

lemma stable_begins: "stable_for a (begins a h g)"
  using stable_bare [of a "{Traces None}"] by (auto simp: among.stable_def begins_def)

definition obtains_holding :: "nat \<Rightarrow> request \<Rightarrow> failure + holding \<Rightarrow> machine \<Rightarrow> bool" where
  "obtains_holding a r x s \<longleftrightarrow> (case x of Inl e \<Rightarrow> bare a {} s | Inr h \<Rightarrow> granted a r h s)"

lemma stable_obtains: "stable_for a (obtains_holding a r x)"
  by (cases x) (use stable_bare stable_granted in \<open>auto simp: obtains_holding_def among.stable_def\<close>)

lemma selected_triple:
  assumes "\<And>path. attempt a False (stands a {Unlocked, Traces None} h) (m path) Q" "\<And>x g. stable_for a (Q x g)" "gPins h = []"
  shows "triple_of a False (begins a h) (case selectedGuardRoot path of Inl e \<Rightarrow> retT (Inl (f e)) | Inr p \<Rightarrow> releasing k (m p))
     (\<lambda>r. case r of Inl e \<Rightarrow> released a {} | Inr x \<Rightarrow> Q x)"
proof (cases "selectedGuardRoot path")
  case (Inl e)
  then show ?thesis by (auto intro!: among.hoare_return stable_begins begins_released)
next
  case (Inr p)
  have "triple_of a False (begins a h) (releasing k (m p)) (\<lambda>r. case r of Inl e \<Rightarrow> released a {} | Inr x \<Rightarrow> Q x)"
    by (rule among.hoare_pre [OF releasing_triple [OF assms(1,2)]]) (rule begins_stands [OF _ assms(3)])
  then show ?thesis using Inr by simp
qed

lemma guard_task_triple:
  assumes "triple_of a False P m (\<lambda>x. case x of Inl e \<Rightarrow> released a {} | Inr _ \<Rightarrow> grants a r)"
  shows "triple_of a False P (guard_task m) (\<lambda>x g. obtains_holding a r (case x of Inl e \<Rightarrow> Inl e | Inr l \<Rightarrow> Inr \<lparr>hGuard = g, hLease = l\<rparr>))"
  unfolding guard_task_def
  by (rule among.hoare_try [OF assms], rule among.hoare_return)
     (auto simp: obtains_holding_def grants_def released_def bare_def intro: stable_grants stable_released)

lemma lease_task_triple:
  assumes "triple_of a False P m (\<lambda>x. case x of Inl e \<Rightarrow> released a {} | Inr l \<Rightarrow> leases a r l)"
  shows "triple_of a False P (lease_task m) (\<lambda>x g. obtains_holding a r (case x of Inl e \<Rightarrow> Inl e | Inr l \<Rightarrow> Inr \<lparr>hGuard = g, hLease = l\<rparr>))"
  unfolding lease_task_def
  by (rule among.hoare_try [OF assms], rule among.hoare_return)
     (auto simp: obtains_holding_def leases_def released_def bare_def intro: stable_leases stable_released)

lemma granting_safely:
  assumes "triple_of a False (begins a g) m (\<lambda>x g. obtains_holding a r (case x of Inl e \<Rightarrow> Inl e | Inr l \<Rightarrow> Inr \<lparr>hGuard = g, hLease = l\<rparr>))"
    and "bare a {Traces None} s"
  shows "safe_prog a False (granting m g) (obtains_holding a r) s"
  unfolding granting_def
  by (rule task_safely [OF assms(1)]) (use assms(2) stable_obtains in \<open>auto simp: begins_def\<close>)

lemma newGuard_simps [simp]:
  "gPins (newGuard u b c) = []" "gMarker (newGuard u b c) = None" "\<not> gClosed (newGuard u b c)"
  by (simp_all add: newGuard_def)

lemma acquisition_safely:
  assumes "bare a {Traces None} s"
  shows "safe_prog a False (acquisition r uid path) (obtains_holding a r) s"
proof -
  have guards: "safe_prog a False (granting (guard_task (case selectedGuardRoot path of Inl e \<Rightarrow> retT (Inl (f e))
      | Inr p \<Rightarrow> releasing k (m p))) g) (obtains_holding a r) s"
    if "\<And>path. attempt a False (stands a {Unlocked, Traces None} g) (m path) (\<lambda>_. grants a r)" "gPins g = []" for f k m g r
    by (rule granting_safely [OF guard_task_triple [OF selected_triple [OF that(1) stable_grants that(2)]] assms])
  have locks: "safe_prog a False (granting (lease_task (case selectedGuardRoot path of Inl e \<Rightarrow> retT (Inl (f e))
      | Inr p \<Rightarrow> releasing k (m p))) g) (obtains_holding a r) s"
    if "\<And>path. attempt a False (stands a {Unlocked, Traces None} g) (m path) (leases a r)" "gPins g = []" for f k m g r
    by (rule granting_safely [OF lease_task_triple [OF selected_triple [OF that(1) stable_leases that(2)]] assms])
  have r: "exclusive Exclusive" "exclusive ExclusiveRecovery" "exclusive ExclusivePreparation" "\<not> exclusive ReadOnly"
    "exclusive RootExclusive" "\<not> is_lease Exclusive" "\<not> is_lease ExclusiveRecovery" "\<not> is_lease ExclusivePreparation"
    "is_lease ReadOnly" "is_lease RootExclusive"
    by (simp_all add: exclusive_def is_lease_def)
  have l: "attempt a False (stands a {Unlocked, Traces None} (newGuard u b c)) (leaseBody q x) (leases a r)"
    if "is_lease r" "x = exclusive r" for u b c q x r
    using leaseBody_attempt [of "newGuard u b c" r a q] that by simp
  show ?thesis
    by (cases r)
       (simp_all add: acquisition_def acquire_def acquireRecoveryFor_def rootLease_def,
        (rule guards locks, (rule shared_acquired exclusive_acquired recovery_attempt l; simp add: r), simp)+)
qed

lemma revalidation_safely:
  assumes "granted a r h s"
  shows "safe_prog a False (revalidation h) (\<lambda>(e, g). granted a r (h\<lparr>hGuard := g\<rparr>)) s"
proof -
  have "only_reads (revalidation h) (\<lambda>(e, g). g = hGuard h)"
    using reading_more(6,7) by (auto simp: revalidation_def reading_def split: option.splits)
  from only_reads_safely [OF this assms stable_granted] show ?thesis
    by (rule safely_mono) auto
qed

definition closed_for :: "nat \<Rightarrow> request \<Rightarrow> bool \<Rightarrow> failure option \<Rightarrow> machine \<Rightarrow> bool" where
  "closed_for a r clean e s \<longleftrightarrow> bare a (if r = Shared \<and> clean \<and> e = None then {Traces None} else {}) s"

lemma stable_closed: "stable_for a (closed_for a r clean e)"
  using stable_bare unfolding among.stable_def closed_for_def by blast

lemma release_safely:
  assumes "granted a r h s"
  shows "safe_prog a clean (release h clean) (closed_for a r clean) s"
proof (cases "hLease h")
  case None
  have g: "loose a (hGuard h) s" "\<not> gClosed (hGuard h)" "marker_held a (hGuard h) s" "\<not> is_lease r"
    using assms None by (auto simp: granted_def)
  have marker: "r = Shared \<Longrightarrow> gMarker (hGuard h) \<noteq> None"
    using assms by (auto simp: granted_def held_facts_def is_lease_def exclusive_def split: option.splits)
  show ?thesis
    unfolding release_def None option.case
    by (rule task_safely [OF closeGuard_triple])
       (use g marker in \<open>auto simp: closed_for_def released_def bare_def unmarked_def facts_def stable_closed split: if_splits\<close>)
next
  case (Some l)
  have g: "loose a (hGuard h) s" "\<not> gClosed (hGuard h)" "r \<noteq> Shared"
    using assms Some by (auto simp: granted_def is_lease_def)
  show ?thesis
    unfolding release_def Some option.case
    by (rule task_safely [OF closeLease_triple])
       (use g in \<open>auto simp: closed_for_def released_def bare_def stable_closed\<close>)
qed

section \<open>The invariant of the system\<close>

definition agent_ok :: "nat \<Rightarrow> agent \<Rightarrow> machine \<Rightarrow> bool" where
  "agent_ok a x m \<longleftrightarrow> (case x of
       Idle \<Rightarrow> bare a {Traces None} m
     | Acquiring r p \<Rightarrow> safe_prog a False p (obtains_holding a r) m
     | Held r h \<Rightarrow> granted a r h m
     | Checking r h p \<Rightarrow> safe_prog a False p (\<lambda>(e, g). granted a r (h\<lparr>hGuard := g\<rparr>)) m
     | Closing r clean p \<Rightarrow> safe_prog a clean p (closed_for a r clean) m
     | Refused e \<Rightarrow> bare a {} m
     | Released r clean e \<Rightarrow> closed_for a r clean e m
     | Crashed \<Rightarrow> bare a {} m)"

text \<open>The agents whose evidence may still be active: they have been granted and are not closing as clean.\<close>

definition may_hold :: "agent \<Rightarrow> bool" where
  "may_hold x \<longleftrightarrow> (case x of Held _ _ \<Rightarrow> True | Checking _ _ _ \<Rightarrow> True | Closing _ clean _ \<Rightarrow> \<not> clean
     | Released _ clean _ \<Rightarrow> \<not> clean | Crashed \<Rightarrow> True | _ \<Rightarrow> False)"

definition recorded :: "nat \<Rightarrow> nat \<Rightarrow> string \<Rightarrow> machine \<Rightarrow> bool" where
  "recorded a p n m \<longleftrightarrow> is_marker n \<and> (\<exists>e d i. facts a (trail_facts p e d n i) m)"

definition system_ok :: "system \<Rightarrow> bool" where
  "system_ok s \<longleftrightarrow> machine_ok (s_machine s) \<and> (\<forall>a. agent_ok a (s_agents s a) (s_machine s)) \<and>
     (\<forall>(a, p, n) \<in> set (s_active s). may_hold (s_agents s a) \<and> recorded a p n (s_machine s))"

lemma stable_safe_prog: "stable_for a (safe_prog a c p W)"
  unfolding among.stable_def by (blast intro: among.safely_rely)

lemma stable_agent_ok: "stable_for a (agent_ok a x)"
proof -
  have "agent_ok a x = (case x of
       Idle \<Rightarrow> bare a {Traces None}
     | Acquiring r p \<Rightarrow> safe_prog a False p (obtains_holding a r)
     | Held r h \<Rightarrow> granted a r h
     | Checking r h p \<Rightarrow> safe_prog a False p (\<lambda>(e, g). granted a r (h\<lparr>hGuard := g\<rparr>))
     | Closing r clean p \<Rightarrow> safe_prog a clean p (closed_for a r clean)
     | Refused e \<Rightarrow> bare a {}
     | Released r clean e \<Rightarrow> closed_for a r clean e
     | Crashed \<Rightarrow> bare a {})"
    by (rule ext) (simp add: agent_ok_def split: agent.split)
  then show ?thesis
    by (cases x) (simp_all add: stable_bare stable_granted stable_closed stable_safe_prog)
qed

lemma stable_recorded: "stable_for a (recorded a p n)"
  using stable_facts unfolding recorded_def among.stable_def by blast

lemma agent_ok_unchanged:
  "machine_ok m \<Longrightarrow> machine_ok m' \<Longrightarrow> unchanged a m m' \<Longrightarrow> agent_ok a x m \<Longrightarrow> agent_ok a x m'"
  using stable_agent_ok unfolding among.stable_def rely_def by blast

lemma recorded_unchanged:
  "machine_ok m \<Longrightarrow> machine_ok m' \<Longrightarrow> unchanged a m m' \<Longrightarrow> recorded a p n m \<Longrightarrow> recorded a p n m'"
  using stable_recorded unfolding among.stable_def rely_def by blast

lemma recorded_persists:
  assumes "machine_ok m" "machine_ok m'" "persists a m m'" "recorded a p n m"
  shows "recorded a p n m'"
proof -
  obtain e d i where t: "is_marker n" "facts a (trail_facts p e d n i) m" using assms(4) by (auto simp: recorded_def)
  have "fulfils a m' (Settled x y z)" if "Settled x y z \<in> trail_facts p e d n i" for x y z
    using factsD [OF t(2) that] persists_settled [OF assms(3)] persists_kept [OF assms(1,3)] by (auto simp: settled_def)
  then have "facts a (trail_facts p e d n i) m'" using assms(2) by (auto simp: facts_def trail_facts_def)
  then show ?thesis using t(1) by (auto simp: recorded_def)
qed

text \<open>The machine moves within the rely of every agent but \<open>b\<close>, which is in its next state.\<close>

lemma system_ok_agent:
  assumes ok: "system_ok s" and m: "machine_ok m" and others: "\<And>a. a \<noteq> b \<Longrightarrow> unchanged a (s_machine s) m"
    and mine: "agent_ok b x m"
    and act: "\<And>a p n. (a, p, n) \<in> set act \<Longrightarrow> (a, p, n) \<in> set (s_active s) \<and> (a = b \<longrightarrow> may_hold x \<and> persists b (s_machine s) m)
      \<or> a = b \<and> may_hold x \<and> recorded b p n m"
  shows "system_ok (set_agent b x (s\<lparr>s_machine := m, s_active := act\<rparr>))"
proof -
  have s: "machine_ok (s_machine s)" "\<And>a. agent_ok a (s_agents s a) (s_machine s)"
    "\<And>a p n. (a, p, n) \<in> set (s_active s) \<Longrightarrow> may_hold (s_agents s a) \<and> recorded a p n (s_machine s)"
    using ok by (auto simp: system_ok_def)
  have "agent_ok a (((s_agents s)(b := x)) a) m" for a
    using agent_ok_unchanged [OF s(1) m others s(2)] mine by (cases "a = b") auto
  moreover have "may_hold (((s_agents s)(b := x)) a) \<and> recorded a p n m" if e: "(a, p, n) \<in> set act" for a p n
  proof (cases "a = b")
    case True
    then show ?thesis using act [OF e] recorded_persists [OF s(1) m] s(3) by auto
  next
    case False
    then show ?thesis using act [OF e] recorded_unchanged [OF s(1) m others] s(3) by auto
  qed
  ultimately show ?thesis using m by (auto simp: system_ok_def set_agent_def)
qed

section \<open>Every event keeps the invariant\<close>

lemma system_ok_quiet:
  assumes ok: "system_ok s" and "agent_ok b x (s_machine s)"
    and "\<And>a p n. (a, p, n) \<in> set act \<Longrightarrow> (a, p, n) \<in> set (s_active s) \<and> (a = b \<longrightarrow> may_hold x)
      \<or> a = b \<and> may_hold x \<and> recorded b p n (s_machine s)"
  shows "system_ok (set_agent b x (s\<lparr>s_active := act\<rparr>))"
proof -
  have "machine_ok (s_machine s)" using ok by (simp add: system_ok_def)
  then have "system_ok (set_agent b x (s\<lparr>s_machine := s_machine s, s_active := act\<rparr>))"
    using assms by (intro system_ok_agent) (auto simp: unchanged_refl persists_refl)
  then show ?thesis by simp
qed

lemma system_ok_move:
  assumes ok: "system_ok s" and perm: "permitted b c q (s_machine s)" and run: "(r, m) \<in> may_serve b q (s_machine s)"
    and mine: "agent_ok b x m" and hold: "may_hold (s_agents s b) \<Longrightarrow> may_hold x \<and> \<not> c"
  shows "system_ok (set_agent b x (s\<lparr>s_machine := m\<rparr>))"
proof -
  have mok: "machine_ok (s_machine s)" using ok by (simp add: system_ok_def)
  have mv: "moves b c (s_machine s) m" by (rule served_moves [OF mok perm run])
  have "may_hold (s_agents s b)" if "(b, p, n) \<in> set (s_active s)" for p n
    using ok that by (auto simp: system_ok_def)
  then have "system_ok (set_agent b x (s\<lparr>s_machine := m, s_active := s_active s\<rparr>))"
    by (intro system_ok_agent [OF ok moves_ok [OF mok mv] moves_unchanged [OF mok mv] mine])
       (use hold moves_persists [OF mok mv] in auto)
  then show ?thesis by simp
qed

lemma served_step:
  assumes "safe_prog b c (Call q k) W m" "(r, t) \<in> may_serve b q m"
  shows "permitted b c q m \<and> safe_prog b c (k r) W t"
  by (rule safely_step [OF assms(1) among.rely_refl assms(2)])

lemma finished:
  assumes "safe_prog b c (Done x) W m"
  shows "W x m"
  using assms among.rely_refl [of b m] by simp

lemma granted_recorded:
  assumes g: "granted a r h m" and e: "(b, p, n) \<in> set (evidence a m r h)"
  shows "b = a \<and> recorded a p n m"
proof -
  obtain q ps fd p' where h: "gPins (hGuard h) = q # ps" "pFile q = Some fd" "held_facts a r (hGuard h) fd p' m"
    using g by (auto simp: granted_def)
  obtain k where k: "r = Shared" "b = a" "gMarker (hGuard h) = Some k" "n = pName k" "fd_ino a m (Some fd) = Some p"
    using e h(1,2) that
    by (cases "gMarker (hGuard h)"; cases "fd_ino a m (Some fd)") (auto simp: evidence_def root_ino_def split: if_splits)
  then obtain e' l d i where f: "facts a (path_facts fd p' e' l d False) m" "facts a (trail_facts p' e' d n i) m"
    using h(3) by (auto simp: held_facts_def is_lease_def exclusive_def)
  have "machine_ok m" using f(1) by (simp add: facts_def)
  then have "fd_ino a m (Some fd) = Some p'"
    by (rule opened_ino) (rule factsD [OF f(1)], simp add: path_facts_def)
  moreover have "is_marker n"
    using g k by (auto simp: granted_def marker_held_def)
  ultimately show ?thesis using k f(2) by (auto simp: recorded_def)
qed

lemma serving_ok:
  assumes ok: "system_ok s" and safe: "safe_prog a clean (Call q k) W (s_machine s)"
    and "\<And>r m. safe_prog a clean (k r) W m \<Longrightarrow> agent_ok a (f r) m" "\<And>r. may_hold (s_agents s a) \<Longrightarrow> may_hold (f r) \<and> \<not> clean"
  shows "system_ok (serving a c q f s)"
proof -
  obtain r m where m: "serve a c q (s_machine s) = (r, m)" by force
  then have r: "(r, m) \<in> may_serve a q (s_machine s)" by (auto simp: may_serve_def intro: range_eqI [of _ _ c])
  note st = served_step [OF safe r]
  show ?thesis
    using system_ok_move [OF ok _ r assms(3), of clean] st assms(4) m by (simp add: serving_def)
qed

lemma agents_ok: "system_ok s \<Longrightarrow> s_agents s a = x \<Longrightarrow> agent_ok a x (s_machine s)"
  by (auto simp: system_ok_def)

lemma active_holds: "system_ok s \<Longrightarrow> (a, p, n) \<in> set (s_active s) \<Longrightarrow> may_hold (s_agents s a)"
  by (auto simp: system_ok_def)

lemma set_agent_same: "set_agent a x s = set_agent a x (s\<lparr>s_active := s_active s\<rparr>)"
  by simp

lemma proceed_ok:
  assumes ok: "system_ok s"
  shows "system_ok (proceed a c s)"
proof (cases "s_agents s a")
  case (Acquiring r p)
  have safe: "safe_prog a False p (obtains_holding a r) (s_machine s)"
    using agents_ok [OF ok Acquiring] by (simp add: agent_ok_def)
  have none: "(a, p, n) \<notin> set (s_active s)" for p n
    using active_holds [OF ok] Acquiring by (force simp: may_hold_def)
  show ?thesis
  proof (cases p)
    case (Call q k)
    have "system_ok (serving a c q (\<lambda>x. Acquiring r (k x)) s)"
      by (rule serving_ok [OF ok safe [unfolded Call]]) (simp_all add: agent_ok_def may_hold_def Acquiring)
    then show ?thesis using Acquiring Call by (simp add: proceed_def)
  next
    case (Done x)
    have x: "obtains_holding a r x (s_machine s)" by (rule finished [OF safe [unfolded Done]])
    show ?thesis
    proof (cases x)
      case (Inl e)
      have "system_ok (set_agent a (Refused e) (s\<lparr>s_active := s_active s\<rparr>))"
        by (rule system_ok_quiet [OF ok]) (use x Inl none in \<open>auto simp: obtains_holding_def agent_ok_def\<close>)
      then show ?thesis using Acquiring Done Inl by (simp add: proceed_def)
    next
      case (Inr h)
      then have g: "granted a r h (s_machine s)" using x by (simp add: obtains_holding_def)
      have "system_ok (set_agent a (Held r h) (s\<lparr>s_active := evidence a (s_machine s) r h @ s_active s\<rparr>))"
        by (rule system_ok_quiet [OF ok])
           (use g granted_recorded [OF g] in \<open>auto simp: agent_ok_def may_hold_def\<close>)
      then show ?thesis using Acquiring Done Inr by (simp add: proceed_def)
    qed
  qed
next
  case (Checking r h p)
  have safe: "safe_prog a False p (\<lambda>(e, g). granted a r (h\<lparr>hGuard := g\<rparr>)) (s_machine s)"
    using agents_ok [OF ok Checking] by (simp add: agent_ok_def)
  show ?thesis
  proof (cases p)
    case (Call q k)
    have "system_ok (serving a c q (\<lambda>x. Checking r h (k x)) s)"
      by (rule serving_ok [OF ok safe [unfolded Call]]) (simp_all add: agent_ok_def may_hold_def)
    then show ?thesis using Checking Call by (simp add: proceed_def)
  next
    case (Done x)
    obtain e g where x: "x = (e, g)" by (cases x)
    have "granted a r (h\<lparr>hGuard := g\<rparr>) (s_machine s)" using finished [OF safe [unfolded Done]] x by simp
    then have "system_ok (set_agent a (Held r (h\<lparr>hGuard := g\<rparr>)) (s\<lparr>s_active := s_active s\<rparr>))"
      by (intro system_ok_quiet [OF ok]) (auto simp: agent_ok_def may_hold_def)
    then show ?thesis using Checking Done x by (simp add: proceed_def)
  qed
next
  case (Closing r clean p)
  have safe: "safe_prog a clean p (closed_for a r clean) (s_machine s)"
    using agents_ok [OF ok Closing] by (simp add: agent_ok_def)
  have none: "(a, p, n) \<in> set (s_active s) \<Longrightarrow> \<not> clean" for p n
    using active_holds [OF ok] Closing by (force simp: may_hold_def)
  show ?thesis
  proof (cases p)
    case (Call q k)
    have "system_ok (serving a c q (\<lambda>x. Closing r clean (k x)) s)"
      by (rule serving_ok [OF ok safe [unfolded Call]]) (simp_all add: agent_ok_def may_hold_def Closing)
    then show ?thesis using Closing Call by (simp add: proceed_def)
  next
    case (Done e)
    have "closed_for a r clean e (s_machine s)" by (rule finished [OF safe [unfolded Done]])
    then have "system_ok (set_agent a (Released r clean e) (s\<lparr>s_active := s_active s\<rparr>))"
      by (intro system_ok_quiet [OF ok]) (use none in \<open>auto simp: agent_ok_def may_hold_def\<close>)
    then show ?thesis using Closing Done by (simp add: proceed_def)
  qed
qed (use ok in \<open>simp_all add: proceed_def\<close>)

lemma system_ok_power:
  assumes ok: "system_ok s"
  shows "system_ok (turn (Power picks) s)"
proof -
  let ?m = "power_loss picks (s_machine s)"
  have m: "machine_ok (s_machine s)" using ok by (simp add: system_ok_def)
  have m': "machine_ok ?m" by (rule power_ok [OF m])
  have "bare a {} ?m" for a using m' by (simp add: bare_def facts_def descs_def power_simps)
  moreover have "bare a {Traces None} ?m" if "isIdle (s_agents s a)" for a
  proof -
    have "bare a {Traces None} (s_machine s)"
      using ok that by (cases "s_agents s a") (auto simp: system_ok_def agent_ok_def dest: spec [of _ a])
    then show ?thesis using m' power_traces [of a picks "s_machine s"] by (auto simp: bare_def facts_def descs_def power_simps)
  qed
  ultimately have "agent_ok a (if isIdle (s_agents s a) then Idle else Crashed) ?m" for a
    by (simp add: agent_ok_def)
  moreover have "may_hold (if isIdle (s_agents s a) then Idle else Crashed) \<and> recorded a p n ?m"
    if e: "(a, p, n) \<in> set (s_active s)" for a p n
  proof -
    obtain e' d i where t: "is_marker n" "facts a (trail_facts p e' d n i) (s_machine s)"
      using ok e by (auto simp: system_ok_def recorded_def)
    have "facts a (trail_facts p e' d n i) ?m"
      using t(2) m' power_settled by (auto simp: facts_def trail_facts_def kept_def power_simps)
    moreover have "\<not> isIdle (s_agents s a)"
      using active_holds [OF ok e] by (cases "s_agents s a") (auto simp: may_hold_def)
    ultimately show ?thesis using t(1) by (auto simp: may_hold_def recorded_def)
  qed
  ultimately show ?thesis using m' by (auto simp: system_ok_def turn_def)
qed

lemma system_ok_outside:
  assumes ok: "system_ok s"
  shows "system_ok (turn (Outside x) s)"
proof -
  let ?m = "outside_effect x (s_machine s)"
  have m: "machine_ok (s_machine s)" using ok by (simp add: system_ok_def)
  have m': "machine_ok ?m" by (rule outside_ok [OF m])
  have "agent_ok a (s_agents s a) ?m" for a
    using agent_ok_unchanged [OF m m' outside_unchanged agents_ok [OF ok refl]] .
  moreover have "may_hold (s_agents s a) \<and> recorded a p n ?m" if "(a, p, n) \<in> set (s_active s)" for a p n
    using ok that recorded_unchanged [OF m m' outside_unchanged] by (auto simp: system_ok_def)
  ultimately show ?thesis using m' by (auto simp: system_ok_def turn_def)
qed

lemma crash_moves:
  assumes "machine_ok s"
  shows "machine_ok (close_descs (\<lambda>d. d_owner d = a) s)"
    and "b \<noteq> a \<Longrightarrow> unchanged b s (close_descs (\<lambda>d. d_owner d = a) s)"
    and "persists b s (close_descs (\<lambda>d. d_owner d = a) s)"
proof -
  let ?t = "close_descs (\<lambda>d. d_owner d = a) s"
  show p: "persists b s ?t" for b by (simp add: persists_def settled_def machine_simps)
  show "machine_ok ?t"
    using assms by (auto simp: machine_ok_def inodes_ok_def names_ok_def machine_simps dirs_ok_def intro!: fewer_descs_ok [of s])
  show "unchanged b s ?t" if "b \<noteq> a"
    using that p by (auto simp: unchanged_def descs_def traces_def marked_def no_marker_def machine_simps intro!: filter_cong)
qed

lemma turn_ok:
  assumes ok: "system_ok s"
  shows "system_ok (turn x s)"
proof (cases x)
  case (Begin a r uid path)
  show ?thesis
  proof (cases "isIdle (s_agents s a)")
    case True
    then have i: "s_agents s a = Idle" by (cases "s_agents s a") auto
    then have b: "bare a {Traces None} (s_machine s)" using agents_ok [OF ok i] by (simp add: agent_ok_def)
    have none: "(a, p, n) \<notin> set (s_active s)" for p n
      using active_holds [OF ok] i by (force simp: may_hold_def)
    have "system_ok (set_agent a (Acquiring r (acquisition r uid path)) (s\<lparr>s_active := s_active s\<rparr>))"
      by (rule system_ok_quiet [OF ok]) (use acquisition_safely [OF b] none in \<open>auto simp: agent_ok_def\<close>)
    then show ?thesis using Begin True by (simp add: turn_def)
  next
    case False
    then show ?thesis using ok Begin by (simp add: turn_def)
  qed
next
  case (Turn a c)
  then show ?thesis using proceed_ok [OF ok] by (simp add: turn_def)
next
  case (Recheck a)
  show ?thesis
  proof (cases "s_agents s a")
    case (Held r h)
    then have "granted a r h (s_machine s)" using agents_ok [OF ok Held] by (simp add: agent_ok_def)
    then have "system_ok (set_agent a (Checking r h (revalidation h)) (s\<lparr>s_active := s_active s\<rparr>))"
      by (intro system_ok_quiet [OF ok]) (auto simp: agent_ok_def may_hold_def revalidation_safely)
    then show ?thesis using Recheck Held by (simp add: turn_def)
  qed (use ok Recheck in \<open>simp_all add: turn_def\<close>)
next
  case (Release a clean)
  show ?thesis
  proof (cases "s_agents s a")
    case (Held r h)
    then have "granted a r h (s_machine s)" using agents_ok [OF ok Held] by (simp add: agent_ok_def)
    then have "system_ok (set_agent a (Closing r clean (release h clean)) (s\<lparr>s_active :=
        (if clean then filter (\<lambda>e. fst e \<noteq> a) (s_active s) else s_active s)\<rparr>))"
      by (intro system_ok_quiet [OF ok]) (auto simp: agent_ok_def may_hold_def release_safely split: if_splits)
    then show ?thesis using Release Held by (cases clean) (simp_all add: turn_def)
  qed (use ok Release in \<open>simp_all add: turn_def\<close>)
next
  case (Crash a)
  show ?thesis
  proof (cases "isIdle (s_agents s a)")
    case False
    let ?m = "close_descs (\<lambda>d. d_owner d = a) (s_machine s)"
    have m: "machine_ok (s_machine s)" using ok by (simp add: system_ok_def)
    have "bare a {} ?m" using crash_moves(1) [OF m] by (simp add: bare_def facts_def descs_def machine_simps)
    then have "system_ok (set_agent a Crashed (s\<lparr>s_machine := ?m, s_active := s_active s\<rparr>))"
      by (intro system_ok_agent [OF ok]) (use crash_moves [OF m] in \<open>auto simp: agent_ok_def may_hold_def\<close>)
    then show ?thesis using Crash False by (simp add: turn_def)
  qed (use ok Crash in \<open>simp add: turn_def\<close>)
next
  case (Power picks)
  then show ?thesis using system_ok_power [OF ok] by simp
next
  case (Outside y)
  then show ?thesis using system_ok_outside [OF ok] by simp
qed

lemma fresh_machine_ok:
  assumes "fresh_machine m"
  shows "machine_ok m" and "\<not> traces a m d n" and "t_open m = []"
proof -
  have f: "t_open m = []" "t_unsynced m = []" "t_maker m = (\<lambda>_. None)" "list_all (\<lambda>e. fst (fst e) < t_next m \<and> snd e < t_next m) (t_entries m)"
    "list_all (\<lambda>e. snd e < t_next m) (t_paths m)" "one_parent m"
    using assms by (auto simp: fresh_machine_def)
  have "d < t_next m \<and> i < t_next m" if "entry m d n = Some i" for d n i
    using f(4) that by (auto simp: entry_def list_all_iff dest!: map_of_SomeD)
  moreover have "i < t_next m" if "map_of (t_paths m) n = Some i" for n i
    using f(5) that by (auto simp: list_all_iff dest!: map_of_SomeD)
  ultimately have "inodes_ok m" using f(2,3) by (simp add: inodes_ok_def logged_def)
  moreover have "names_ok m"
    using f(2,6) unfolding names_ok_def one_parent_def entry_def logged_def
    by (auto dest!: map_of_SomeD) (metis fst_conv snd_conv)
  moreover have "dirs_ok m" using \<open>\<And>d n i. entry m d n = Some i \<Longrightarrow> d < t_next m \<and> i < t_next m\<close> f(2)
    by (auto simp: dirs_ok_def logged_def)
  ultimately show "machine_ok m" using f(1) by (simp add: machine_ok_def descs_ok_def)
  show "\<not> traces a m d n" "t_open m = []" using f(1,3) by (simp_all add: traces_def)
qed

lemma boot_ok:
  assumes "fresh_machine m"
  shows "system_ok (boot m)"
  using fresh_machine_ok [OF assms] by (auto simp: system_ok_def boot_def agent_ok_def bare_def facts_def descs_def)

lemma execute_ok:
  assumes "fresh_machine m"
  shows "system_ok (execute events m)"
proof -
  have "system_ok (fold turn events s)" if "system_ok s" for s
    using that by (induction events arbitrary: s) (auto intro: turn_ok)
  then show ?thesis using boot_ok [OF assms] by (simp add: execute_def)
qed

end
