(* ===== verification/Transition_Run.thy ===== *)
theory Transition_Run
  imports Transition_Inv
begin

text \<open>
  An agent that runs alone and whose calls are not refused: on a project whose control entries are safe or
  absent, without a conflicting lock, pending publication or (for an exclusive guard) activity, \<open>acquire\<close>
  returns a guard.  Each function is run by \<open>drive\<close>; \<open>placed\<close> is what a step that adds a pin leaves, and
  \<open>ready\<close> that every pin of the guard passes \<open>check\<close>.
\<close>

section \<open>Revalidation succeeds\<close>

abbreviation alone :: "nat \<Rightarrow> choice \<Rightarrow> (query, answer, 'a) prog \<Rightarrow> machine \<Rightarrow> 'a \<times> machine" where
  "alone a c \<equiv> drive (serve a c)"

definition stat_of :: "machine \<Rightarrow> nat \<Rightarrow> stat" where
  "stat_of m i = \<lparr>st_ino = i, st_attrs = t_attrs m i\<rparr>"

definition pin_valid :: "nat \<Rightarrow> nat \<Rightarrow> machine \<Rightarrow> pin \<Rightarrow> bool" where
  "pin_valid a uid m p \<longleftrightarrow> (\<exists>fd i. pFile p = Some fd \<and> fd_ino a m (Some fd) = Some i \<and>
     resolve a m (pParent p) (pName p) = Inr i \<and> safe uid (stat_of m i) (pKind p) \<and> same_inode (stat_of m i) (pStat p))"

text \<open>The part of \<open>machine_ok\<close> a run alone needs: descriptors are below the next one, inodes below the next inode.\<close>

definition sound :: "machine \<Rightarrow> bool" where
  "sound m \<longleftrightarrow> (\<forall>d \<in> set (t_open m). d_fd d < t_fds m \<and> d_ino d < t_next m) \<and>
     (\<forall>d n i. entry m d n = Some i \<longrightarrow> d < t_next m \<and> i < t_next m) \<and> (\<forall>n i. map_of (t_paths m) n = Some i \<longrightarrow> i < t_next m)"

lemma machine_ok_sound: "machine_ok m \<Longrightarrow> sound m"
  unfolding machine_ok_def descs_ok_def inodes_ok_def dirs_ok_def sound_def by blast

lemma sound_ino: "sound m \<Longrightarrow> fd_ino a m f = Some i \<Longrightarrow> i < t_next m"
  by (auto simp: fd_ino_Some sound_def dest!: desc_of_Some)

lemma sound_fd: "sound m \<Longrightarrow> fd_ino a m (Some fd) = Some i \<Longrightarrow> fd < t_fds m"
  by (auto simp: fd_ino_Some sound_def dest!: desc_of_Some)

lemma sound_free: "sound m \<Longrightarrow> fd_ino a m (Some (t_fds m)) = None"
  by (cases "fd_ino a m (Some (t_fds m))") (auto dest: sound_fd)

lemma sound_new: "sound m \<Longrightarrow> entry m (t_next m) n = None"
  by (cases "entry m (t_next m) n") (auto simp: sound_def)

definition ready :: "nat \<Rightarrow> guard \<Rightarrow> machine \<Rightarrow> bool" where
  "ready a g m \<longleftrightarrow> sound m \<and> \<not> gRecoveryOnly g \<and> (\<forall>p \<in> set (gPins g). pin_valid a (gUid g) m p)"

lemma serve_calm:
  assumes "ch_fail c = None"
  shows "serve a c q m = serve_call a c q m"
  using assms by (simp add: serve_def)

lemma fd_ino_desc:
  "fd_ino a m (Some fd) = Some i \<Longrightarrow> \<exists>d. desc_of a m fd = Some d \<and> d_ino d = i"
  by (auto simp: fd_ino_Some)

lemma calm_reads:
  assumes "ch_fail c = None"
  shows "alone a c (ctxErr g) m = ((Inr (), g), m)"
    and "resolve a m f n = Inr i \<Longrightarrow> alone a c (named f n g) m = ((Inr (stat_of m i), g), m)"
    and "resolve a m f n = Inl e \<Longrightarrow> alone a c (named f n g) m = ((Inl (Errno e), g), m)"
    and "fd_ino a m (Some fd) = Some i \<Longrightarrow> alone a c (statCall (QFstat (Some fd)) g) m = ((Inr (stat_of m i), g), m)"
    and "fd_ino a m (Some fd) = Some i \<Longrightarrow> a_size (t_attrs m i) = 0 \<Longrightarrow>
      alone a c (readCall (QRead (Some fd)) g) m = ((((0, Some EndOfFile), g)), m)"
  using assms fd_ino_desc [of a m fd i]
  by (auto simp: ctxErr_def named_def statCall_def readCall_def drive_simps serve_calm serve_call_def with_desc_def stat_of_def)

lemma checkPin_alone:
  assumes c: "ch_fail c = None" and p: "pin_valid a (gUid g) m p" and g: "\<not> gRecoveryOnly g"
  shows "alone a c (checkPin p g) m = ((Inr (), g), m)"
proof -
  obtain fd i where p: "pFile p = Some fd" "fd_ino a m (Some fd) = Some i" "resolve a m (pParent p) (pName p) = Inr i"
    "safe (gUid g) (stat_of m i) (pKind p)" "same_inode (stat_of m i) (pStat p)"
    using p by (auto simp: pin_valid_def)
  have same: "same_inode (stat_of m i) (stat_of m i)" by (simp add: same_inode_def)
  have "alone a c (checkEmpty p g) m = ((Inr (), g), m)"
  proof (cases "pKind p = PinControl")
    case True
    then have "a_size (t_attrs m i) = 0" using p(4) by (auto simp: safe_def Let_def stat_of_def split: if_splits)
    then show ?thesis using True calm_reads(5) [OF c p(2)] p(1) by (simp add: checkEmpty_def drive_simps)
  qed (simp add: checkEmpty_def drive_simps)
  then show ?thesis
    using p g same calm_reads(2) [OF c p(3)] calm_reads(4) [OF c p(2)]
    by (simp add: checkPin_def drive_simps)
qed

lemma check_alone:
  assumes c: "ch_fail c = None" and r: "ready a g m"
  shows "alone a c (check g) m = ((Inr (), g), m)"
proof -
  have "alone a c (eachT checkPin ps g) m = ((Inr (), g), m)" if "set ps \<subseteq> set (gPins g)" for ps
    using that
  proof (induction ps)
    case (Cons p ps)
    then have "alone a c (checkPin p g) m = ((Inr (), g), m)"
      using r by (intro checkPin_alone [OF c]) (auto simp: ready_def)
    then show ?case using Cons by (simp add: drive_eachT del: eachT.simps)
  qed (simp add: drive_eachT del: eachT.simps)
  then show ?thesis by (simp add: check_def drive_simps calm_reads(1) [OF c])
qed

section \<open>What later calls leave of a valid pin\<close>

definition core :: "attrs \<Rightarrow> attrs" where
  "core x = x\<lparr>a_gid := 0, a_mtim := 0, a_ctim := 0\<rparr>"

definition extends :: "nat \<Rightarrow> machine \<Rightarrow> machine \<Rightarrow> bool" where
  "extends a m m' \<longleftrightarrow> sound m' \<and> t_next m \<le> t_next m' \<and> t_paths m' = t_paths m \<and>
     (\<forall>fd i. fd_ino a m (Some fd) = Some i \<longrightarrow> fd_ino a m' (Some fd) = Some i) \<and>
     (\<forall>d n i. entry m d n = Some i \<longrightarrow> entry m' d n = Some i) \<and>
     (\<forall>i < t_next m. core (t_attrs m' i) = core (t_attrs m i))"

lemma core_safe: "core (t_attrs m' i) = core (t_attrs m i) \<Longrightarrow> safe uid (stat_of m' i) k = safe uid (stat_of m i) k"
  by (cases "t_attrs m i"; cases "t_attrs m' i") (simp add: core_def safe_def stat_of_def)

lemma core_same: "core (t_attrs m' i) = core (t_attrs m i) \<Longrightarrow> same_inode (stat_of m' i) s = same_inode (stat_of m i) s"
  by (cases "t_attrs m i"; cases "t_attrs m' i") (simp add: core_def same_inode_def stat_of_def)

lemma extends_resolve: "extends a m m' \<Longrightarrow> resolve a m f n = Inr i \<Longrightarrow> resolve a m' f n = Inr i"
  by (auto simp: resolve_def extends_def split: option.splits)

lemma extends_valid:
  assumes "sound m" "extends a m m'" "pin_valid a uid m p"
  shows "pin_valid a uid m' p"
proof -
  obtain fd i where p: "pFile p = Some fd" "fd_ino a m (Some fd) = Some i" "resolve a m (pParent p) (pName p) = Inr i"
    "safe uid (stat_of m i) (pKind p)" "same_inode (stat_of m i) (pStat p)"
    using assms(3) by (auto simp: pin_valid_def)
  have "i < t_next m" by (rule sound_ino [OF assms(1) p(2)])
  then have "core (t_attrs m' i) = core (t_attrs m i)" using assms(2) by (simp add: extends_def)
  then show ?thesis
    using p extends_resolve [OF assms(2)] assms(2) core_safe core_same unfolding pin_valid_def extends_def by metis
qed

lemma extends_ready: "ready a g m \<Longrightarrow> extends a m m' \<Longrightarrow> ready a g m'"
  using extends_valid by (auto simp: ready_def extends_def)

lemma extends_refl: "sound m \<Longrightarrow> extends a m m"
  by (simp add: extends_def)

lemma extends_trans: "extends a m m' \<Longrightarrow> extends a m' m'' \<Longrightarrow> extends a m m''"
  by (auto simp: extends_def)

text \<open>Locks held on the machine, which opening files does not change.\<close>

definition locked_by :: "machine \<Rightarrow> (nat \<times> nat \<times> nat \<times> bool) set" where
  "locked_by m = {(d_owner d, d_fd d, d_ino d, x) | d x. d \<in> set (t_open m) \<and> d_lock d = Some x}"

lemma contended_iff: "contended a fd i x m \<longleftrightarrow> (\<exists>b f y. (b, f, i, y) \<in> locked_by m \<and> (b, f) \<noteq> (a, fd) \<and> (x \<or> y))"
  by (fastforce simp: contended_def list_ex_iff locked_by_def split: option.splits)

lemma attrs_simps [machine_simps]:
  "t_attrs (bind_entry d n i s) = t_attrs s" "t_attrs (sync_entries d s) = t_attrs s" "t_attrs (new_desc a j s) = t_attrs s"
  "t_attrs (lock_desc a fd b s) = t_attrs s" "t_attrs (set_attrs j x s) = (t_attrs s)(j := x)"
  "t_attrs (touch j k s) = (t_attrs s)(j := (t_attrs s j)\<lparr>a_mtim := k, a_ctim := k\<rparr>)"
  "t_attrs (new_inode a x s) = (t_attrs s)(t_next s := x)"
  by (simp_all add: bind_entry_def sync_entries_def new_desc_def lock_desc_def set_attrs_def touch_def new_inode_def)

lemma core_touch [simp]: "core (x\<lparr>a_mtim := k, a_ctim := k'\<rparr>) = core x"
  by (simp add: core_def)

lemma fd_ino_new:
  assumes "sound m"
  shows "fd_ino a (new_desc a i m) (Some (t_fds m)) = Some i"
    and "fd_ino a m (Some fd) = Some j \<Longrightarrow> fd_ino a (new_desc a i m) (Some fd) = Some j"
proof -
  show "fd_ino a (new_desc a i m) (Some (t_fds m)) = Some i"
    by (simp add: fd_ino_def desc_of_def new_desc_def)
  assume j: "fd_ino a m (Some fd) = Some j"
  then have "fd < t_fds m" by (rule sound_fd [OF assms])
  then show "fd_ino a (new_desc a i m) (Some fd) = Some j"
    using j by (simp add: fd_ino_def desc_of_def new_desc_def)
qed

section \<open>The elementary steps of an acquisition\<close>

lemma locked_by_simps [simp]:
  "locked_by (new_desc a i m) = locked_by m" "locked_by (bind_entry d n i m) = locked_by m"
  "locked_by (touch j k m) = locked_by m" "locked_by (new_inode a x m) = locked_by m" "locked_by (sync_entries d m) = locked_by m"
  by (auto simp: locked_by_def new_desc_def bind_entry_def touch_def new_inode_def set_attrs_def sync_entries_def)

lemma extends_open:
  assumes "sound m" "i < t_next m"
  shows "extends a m (new_desc a i m)"
proof -
  have "sound (new_desc a i m)" using assms by (auto simp: sound_def machine_simps new_desc_def entry_def)
  then show ?thesis
    using fd_ino_new(2) [OF assms(1)] by (simp add: extends_def machine_simps)
qed

lemma extends_entry:
  assumes "sound m" "d < t_next m" "entry m d n = None"
  shows "extends a m (new_inode a x (touch d k (bind_entry d n (t_next m) m)))" (is "extends a m ?t")
proof -
  have parts: "t_next ?t = Suc (t_next m)" "t_open ?t = t_open m" "t_fds ?t = t_fds m" "t_paths ?t = t_paths m"
    by (simp_all add: new_inode_def touch_def set_attrs_def bind_entry_def)
  have fd: "fd_ino a ?t f = fd_ino a m f" for f by (simp add: fd_ino_def desc_of_def parts)
  have "sound ?t" using assms by (auto simp: sound_def parts machine_simps less_Suc_eq split: if_splits)
  moreover have "core (t_attrs ?t i) = core (t_attrs m i)" if "i < t_next m" for i
    using that by (auto simp: machine_simps)
  ultimately show ?thesis using assms(3) by (auto simp: extends_def parts fd machine_simps)
qed

lemma extends_flock:
  assumes "sound m"
  shows "extends a m (lock_desc a fd x m)"
proof -
  have "fd_ino a (lock_desc a fd x m) f = fd_ino a m f" for f
  proof -
    have "find (\<lambda>d. d_owner d = a \<and> d_fd d = k) (map (\<lambda>d. if d_owner d = a \<and> d_fd d = fd then d\<lparr>d_lock := Some x\<rparr> else d) ds) =
        map_option (\<lambda>d. if d_owner d = a \<and> d_fd d = fd then d\<lparr>d_lock := Some x\<rparr> else d)
          (find (\<lambda>d. d_owner d = a \<and> d_fd d = k) ds)" for k and ds :: "desc list"
      by (induction ds) auto
    then show ?thesis
      by (cases f) (auto simp: fd_ino_def desc_of_def lock_desc_def option.map_comp o_def intro!: map_option_cong)
  qed
  moreover have "sound (lock_desc a fd x m)"
    using assms by (auto simp: sound_def machine_simps lock_desc_def entry_def)
  ultimately show ?thesis by (simp add: extends_def machine_simps)
qed

lemma extends_sync:
  assumes "sound m"
  shows "extends a m (sync_entries d m)"
proof -
  have "fd_ino a (sync_entries d m) f = fd_ino a m f" for f by (simp add: fd_ino_def desc_of_def sync_entries_def)
  moreover have "sound (sync_entries d m)" using assms by (auto simp: sound_def machine_simps)
  ultimately show ?thesis by (simp add: extends_def machine_simps)
qed

lemma ready_update: "ready a g m \<Longrightarrow> gPins h = gPins g \<Longrightarrow> gUid h = gUid g \<Longrightarrow> gRecoveryOnly h = gRecoveryOnly g \<Longrightarrow> ready a h m"
  by (simp add: ready_def)

lemma ready_add:
  assumes "ready a g m" "extends a m m'" "fd_ino a m' (Some fd) = Some i" "resolve a m' f n = Inr i"
    and "safe (gUid g) (stat_of m' i) k" "same_inode (stat_of m' i) st"
  shows "ready a (addPin (new_pin fd f n st k) g) m'"
  using extends_ready [OF assms(1,2)] assms(3-6) by (auto simp: ready_def addPin_def pin_valid_def)

lemma safe_openable:
  "safe uid (stat_of m i) k \<Longrightarrow> openable (if k = PinControl then OpenWrite else OpenDirectory) (a_kind (t_attrs m i)) = None"
  by (auto simp: safe_def stat_of_def openable_def Let_def split: if_splits)

lemma sound_resolve: "sound m \<Longrightarrow> resolve a m f n = Inr i \<Longrightarrow> i < t_next m"
  by (auto simp: resolve_def sound_def split: option.splits)

lemma existing_alone:
  assumes c: "ch_fail c = None" and r: "ready a g m" and i: "resolve a m f n = Inr i" and safe: "safe (gUid g) (stat_of m i) k"
  defines "p \<equiv> new_pin (t_fds m) f n (stat_of m i) k"
  shows "alone a c (existing f n k g) m = ((Inr p, addPin p g), new_desc a i m)"
    and "ready a (addPin p g) (new_desc a i m)" and "extends a m (new_desc a i m)"
    and "fd_ino a (new_desc a i m) (Some (t_fds m)) = Some i"
proof -
  have sound: "sound m" using r by (simp add: ready_def)
  show ext: "extends a m (new_desc a i m)" by (rule extends_open [OF sound sound_resolve [OF sound i]])
  show ino: "fd_ino a (new_desc a i m) (Some (t_fds m)) = Some i" by (rule fd_ino_new(1) [OF sound])
  have same: "stat_of (new_desc a i m) j = stat_of m j" for j by (simp add: stat_of_def machine_simps)
  have refl: "same_inode (stat_of m i) (stat_of m i)" by (simp add: same_inode_def)
  show ready: "ready a (addPin p g) (new_desc a i m)"
    unfolding p_def by (rule ready_add [OF r ext ino extends_resolve [OF ext i]]) (simp_all add: same safe refl)
  have "alone a c (openAt f n (if k = PinControl then OpenWrite else OpenDirectory) g) m = ((Inr (t_fds m), g), new_desc a i m)"
    using safe_openable [OF safe]
    by (simp add: openAt_def drive_simps calm_reads(1) [OF c] serve_calm [OF c] serve_call_def serve_open_def i)
  then show "alone a c (existing f n k g) m = ((Inr p, addPin p g), new_desc a i m)"
    using check_alone [OF c ready] by (simp add: existing_def drive_simps calm_reads(2) [OF c i] safe p_def Let_def)
qed

lemma gUid_addPin [simp]: "gUid (addPin p g) = gUid g"
  by (simp add: addPin_def)

section \<open>Infrastructure, locks and synchronisation\<close>

text \<open>The entry \<open>n\<close> of the directory \<open>d\<close> may be used as a pin of kind \<open>k\<close>, or does not exist and can be made.\<close>

definition suits :: "choice \<Rightarrow> nat \<Rightarrow> machine \<Rightarrow> nat \<Rightarrow> string \<Rightarrow> pin_kind \<Rightarrow> bool" where
  "suits c uid m d n k \<longleftrightarrow> (case entry m d n of None \<Rightarrow> ch_uid c = uid | Some i \<Rightarrow> safe uid (stat_of m i) k)"

definition placed :: "nat \<Rightarrow> guard \<Rightarrow> machine \<Rightarrow> nat option \<Rightarrow> nat \<Rightarrow> string \<Rightarrow> pin_kind \<Rightarrow> nat \<Rightarrow> nat \<Rightarrow> pin \<Rightarrow> machine \<Rightarrow> bool" where
  "placed a g m f d n k fd i q m' \<longleftrightarrow> (\<exists>st. q = new_pin fd f n st k) \<and> fd_ino a m' (Some fd) = Some i \<and>
     fd_ino a m (Some fd) = None \<and> ready a (addPin q g) m' \<and> extends a m m' \<and> locked_by m' = locked_by m \<and>
     (\<forall>e x. entry m' e x = (if e = d \<and> x = n then Some i else entry m e x)) \<and> (entry m d n = None \<longrightarrow> i = t_next m)"

lemma resolve_child: "fd_ino a m (Some pf) = Some d \<Longrightarrow> resolve a m (Some pf) n = (case entry m d n of None \<Rightarrow> Inl ENOENT | Some i \<Rightarrow> Inr i)"
  by (simp add: resolve_def)

lemma extends_ino: "extends a m m' \<Longrightarrow> fd_ino a m (Some fd) = Some i \<Longrightarrow> fd_ino a m' (Some fd) = Some i"
  by (simp add: extends_def)

lemma placed_existing:
  assumes c: "ch_fail c = None" and r: "ready a g m" and d: "fd_ino a m (Some pf) = Some d" and i: "entry m d n = Some i"
    and safe: "safe (gUid g) (stat_of m i) k"
  shows "\<exists>fd q m'. alone a c (existing (Some pf) n k g) m = ((Inr q, addPin q g), m') \<and> placed a g m (Some pf) d n k fd i q m'"
proof -
  have res: "resolve a m (Some pf) n = Inr i" using i by (simp add: resolve_child [OF d])
  note ex = existing_alone [OF c r res safe]
  have "sound m" using r by (simp add: ready_def)
  then show ?thesis using ex i sound_free [of m a] unfolding placed_def by (auto simp: machine_simps)
qed

lemma placed_made:
  assumes p: "placed a g t f d n k fd i q m'" and e: "extends a m t" "locked_by t = locked_by m" "entry m d n = None" "i = t_next m"
    and "\<And>e x. entry t e x = (if e = d \<and> x = n then Some i else entry m e x)"
  shows "placed a g m f d n k fd i q m'"
proof -
  have "fd_ino a m (Some fd) = None"
    using p e(1) by (cases "fd_ino a m (Some fd)") (auto simp: placed_def extends_def)
  then show ?thesis using p extends_trans [OF e(1)] e(2-) assms(6) by (auto simp: placed_def)
qed

lemma directory_alone:
  assumes c: "ch_fail c = None" and r: "ready a g m" and d: "pFile parent = Some pf" "fd_ino a m (Some pf) = Some d"
    and s: "suits c (gUid g) m d n (if b then PinPrivate else PinDirectory)"
  shows "\<exists>fd i q m'. alone a c (directory parent n b g) m = ((Inr q, addPin q g), m') \<and>
     placed a g m (Some pf) d n (if b then PinPrivate else PinDirectory) fd i q m'"
proof (cases "entry m d n")
  case (Some i)
  have safe: "safe (gUid g) (stat_of m i) (if b then PinPrivate else PinDirectory)" using s Some by (simp add: suits_def)
  have n: "alone a c (named (Some pf) n g) m = ((Inr (stat_of m i), g), m)"
    by (rule calm_reads(2) [OF c]) (simp add: resolve_child [OF d(2)] Some)
  obtain fd q m' where q: "alone a c (existing (Some pf) n (if b then PinPrivate else PinDirectory) g) m = ((Inr q, addPin q g), m')"
    "placed a g m (Some pf) d n (if b then PinPrivate else PinDirectory) fd i q m'"
    using placed_existing [OF c r d(2) Some safe] by blast
  have "alone a c (directory parent n b g) m = ((Inr q, addPin q g), m')"
    using q(1) by (simp add: directory_def drive_simps check_alone [OF c r] d(1) n made_directory_def)
  then show ?thesis using q(2) by blast
next
  case None
  let ?t = "new_inode a (directory_attrs c) (touch d (ch_stamp c) (bind_entry d n (t_next m) m))"
  have uid: "ch_uid c = gUid g" using s None by (simp add: suits_def)
  have sound: "sound m" using r by (simp add: ready_def)
  have ext: "extends a m ?t" by (rule extends_entry [OF sound sound_ino [OF sound d(2)] None])
  have n: "alone a c (named (Some pf) n g) m = ((Inl (Errno ENOENT), g), m)"
    by (rule calm_reads(3) [OF c]) (simp add: resolve_child [OF d(2)] None)
  have mk: "alone a c (plainCall (QMkdir (Some pf) n) g) m = ((Inr (), g), ?t)"
    using d(2) None by (simp add: plainCall_def drive_simps serve_calm [OF c] serve_call_def serve_mkdir_def)
  have safe: "safe (gUid g) (stat_of ?t (t_next m)) (if b then PinPrivate else PinDirectory)"
    using uid by (simp add: safe_def stat_of_def machine_simps directory_attrs_def)
  have at: "entry ?t d n = Some (t_next m)" by (simp add: machine_simps)
  obtain fd q m' where q: "alone a c (existing (Some pf) n (if b then PinPrivate else PinDirectory) g) ?t = ((Inr q, addPin q g), m')"
    "placed a g ?t (Some pf) d n (if b then PinPrivate else PinDirectory) fd (t_next m) q m'"
    using placed_existing [OF c extends_ready [OF r ext] extends_ino [OF ext d(2)] at safe] by blast
  have "placed a g m (Some pf) d n (if b then PinPrivate else PinDirectory) fd (t_next m) q m'"
    by (rule placed_made [OF q(2) ext _ None refl]) (simp_all add: machine_simps)
  moreover have "alone a c (directory parent n b g) m = ((Inr q, addPin q g), m')"
    using q(1) by (simp add: directory_def drive_simps check_alone [OF c r] d(1) n mk made_directory_def)
  ultimately show ?thesis by blast
qed

lemma control_alone:
  assumes c: "ch_fail c = None" and r: "ready a g m" and d: "pFile parent = Some pf" "fd_ino a m (Some pf) = Some d"
    and s: "suits c (gUid g) m d n PinControl" and b: "b \<or> entry m d n = None"
  shows "\<exists>fd i q m'. alone a c (control parent n b g) m = ((Inr q, addPin q g), m') \<and> placed a g m (Some pf) d n PinControl fd i q m'"
proof (cases "entry m d n")
  case (Some i)
  have safe: "safe (gUid g) (stat_of m i) PinControl" using s Some by (simp add: suits_def)
  have n: "alone a c (openAt (Some pf) n OpenCreate g) m = ((Inl (Errno EEXIST), g), m)"
    by (simp add: openAt_def drive_simps calm_reads(1) [OF c] serve_calm [OF c] serve_call_def serve_open_def d(2) Some)
  obtain fd q m' where q: "alone a c (existing (Some pf) n PinControl g) m = ((Inr q, addPin q g), m')"
    "placed a g m (Some pf) d n PinControl fd i q m'"
    using placed_existing [OF c r d(2) Some safe] by blast
  have "alone a c (control parent n b g) m = ((Inr q, addPin q g), m')"
    using q(1) b Some by (simp add: control_def drive_simps check_alone [OF c r] d(1) n)
  then show ?thesis using q(2) by blast
next
  case None
  let ?u = "new_inode a (file_attrs c) (touch d (ch_stamp c) (bind_entry d n (t_next m) m))"
  let ?t = "new_desc a (t_next m) ?u" and ?fd = "t_fds m" and ?i = "t_next m"
  have uid: "ch_uid c = gUid g" using s None by (simp add: suits_def)
  have sound: "sound m" using r by (simp add: ready_def)
  have ext: "extends a m ?u" by (rule extends_entry [OF sound sound_ino [OF sound d(2)] None])
  have u: "sound ?u" "t_fds ?u = ?fd" "?i < t_next ?u"
    using ext by (simp_all add: extends_def new_inode_def touch_def set_attrs_def bind_entry_def)
  have ext2: "extends a m ?t" by (rule extends_trans [OF ext extends_open [OF u(1,3)]])
  have ino: "fd_ino a ?t (Some ?fd) = Some ?i" using fd_ino_new(1) [OF u(1), of a ?i] by (simp only: u(2))
  have n: "alone a c (openAt (Some pf) n OpenCreate g) m = ((Inr ?fd, g), ?t)"
    by (simp add: openAt_def drive_simps calm_reads(1) [OF c] serve_calm [OF c] serve_call_def serve_open_def d(2) None)
  let ?st = "stat_of ?t ?i"
  have safe: "safe (gUid g) ?st PinControl"
    using uid by (simp add: safe_def stat_of_def machine_simps file_attrs_def)
  let ?q = "new_pin ?fd (Some pf) n ?st PinControl"
  have res: "resolve a ?t (Some pf) n = Inr ?i"
    by (simp add: resolve_child [OF extends_ino [OF ext2 d(2)]] machine_simps)
  have ready: "ready a (addPin ?q g) ?t"
    by (rule ready_add [OF r ext2 ino res safe]) (simp add: same_inode_def)
  have run: "alone a c (control parent n b g) m = ((Inr ?q, addPin ?q g), ?t)"
    using safe by (simp add: control_def drive_simps check_alone [OF c r] check_alone [OF c ready] d(1) n
        calm_reads(4) [OF c ino] Let_def failure_of_def gUid_addPin)
  have "placed a g m (Some pf) d n PinControl ?fd ?i ?q ?t"
    using ino ready ext2 sound_free [OF sound] by (auto simp: placed_def machine_simps)
  then show ?thesis using run by blast
qed

lemma flock_alone:
  assumes c: "ch_fail c = None" and r: "ready a g m" and l: "lockFile g = Some fd" "fd_ino a m (Some fd) = Some i"
    and free: "\<not> contended a fd i x m"
  shows "alone a c (flockGuard x g) m = ((Inr (), g), lock_desc a fd x m)" and "extends a m (lock_desc a fd x m)"
proof -
  have sound: "sound m" using r by (simp add: ready_def)
  show ext: "extends a m (lock_desc a fd x m)" by (rule extends_flock [OF sound])
  obtain d where d: "desc_of a m fd = Some d" "d_ino d = i" "d_fd d = fd"
    using fd_ino_desc [OF l(2)] desc_of_Some by blast
  show "alone a c (flockGuard x g) m = ((Inr (), g), lock_desc a fd x m)"
    using d free by (simp add: flockGuard_def drive_simps check_alone [OF c r] check_alone [OF c extends_ready [OF r ext]]
        plainCall_def l(1) serve_calm [OF c] serve_call_def with_desc_def)
qed

lemma locked_by_lock: "locked_by (lock_desc a fd x m) \<subseteq> locked_by m \<union> {(a, fd, i, x) | i. True}"
  by (auto simp: locked_by_def lock_desc_def split: if_splits)

lemma sync_alone:
  assumes c: "ch_fail c = None" and r: "ready a g m" and f: "fd_ino a m (Some fd) = Some i"
  shows "alone a c (syncFile (Some fd) g) m = ((Inr (), g), sync_entries i m)" and "extends a m (sync_entries i m)"
proof -
  have sound: "sound m" using r by (simp add: ready_def)
  show ext: "extends a m (sync_entries i m)" by (rule extends_sync [OF sound])
  obtain d where "desc_of a m fd = Some d" "d_ino d = i" using fd_ino_desc [OF f] by blast
  then show "alone a c (syncFile (Some fd) g) m = ((Inr (), g), sync_entries i m)"
    by (simp add: syncFile_def drive_simps check_alone [OF c r] check_alone [OF c extends_ready [OF r ext]]
        plainCall_def serve_calm [OF c] serve_call_def with_desc_def)
qed

lemma pending_alone:
  assumes c: "ch_fail c = None" and f: "pFile state = Some pf" "fd_ino a m (Some pf) = Some e" "entry m e pendingName = None"
  shows "alone a c (pendingAbsent state g) m = ((Inr (), g), m)"
proof -
  have "alone a c (named (Some pf) pendingName g) m = ((Inl (Errno ENOENT), g), m)"
    by (rule calm_reads(3) [OF c]) (simp add: resolve_child [OF f(2)] f(3))
  then show ?thesis by (simp add: pendingAbsent_def drive_simps f(1) calm_reads(1) [OF c])
qed

lemma no_entries: "\<not> list_ex (\<lambda>f. fst (fst f) = d) (t_entries m) \<longleftrightarrow> (\<forall>n. entry m d n = None)"
proof -
  have "(\<exists>f \<in> set (t_entries m). fst (fst f) = d) \<longleftrightarrow> (\<exists>n. (d, n) \<in> fst ` set (t_entries m))"
    by (auto simp: image_iff) (metis prod.collapse fst_conv)+
  then show ?thesis by (simp add: list_ex_iff entry_def map_of_eq_None_iff)
qed

lemma no_activity_alone:
  assumes c: "ch_fail c = None" and f: "Option.bind (gActivity g) pFile = Some fd" "fd_ino a m (Some fd) = Some d"
    and empty: "\<And>n. entry m d n = None"
  shows "alone a c (no_activity g) m = ((Inr (), g), m)"
proof -
  have "\<not> list_ex (\<lambda>e. fst (fst e) = d) (t_entries m)"
    using empty by (simp add: no_entries)
  then show ?thesis
    using fd_ino_desc [OF f(2)]
    by (auto simp: no_activity_def drive_simps f(1) readCall_def serve_calm [OF c] serve_call_def with_desc_def)
qed

lemma settle_alone:
  assumes c: "ch_fail c = None" and r: "ready a g m" and l: "lockFile g = Some f3" "fd_ino a m (Some f3) = Some l"
    and d: "pFile activity = Some f4" "fd_ino a m (Some f4) = Some d" and e: "pFile state = Some f2" "fd_ino a m (Some f2) = Some e"
    and p: "pFile project = Some f1" "fd_ino a m (Some f1) = Some p" and absent: "entry m e pendingName = None"
  shows "\<exists>m'. alone a c (settle project state activity g) m = ((Inr (), g), m') \<and> extends a m m' \<and>
     locked_by m' = locked_by m \<and> (\<forall>i n. entry m' i n = entry m i n) \<and> ready a g m'"
proof -
  let ?m1 = "sync_entries l m" let ?m2 = "sync_entries d ?m1" let ?m3 = "sync_entries e ?m2" let ?m4 = "sync_entries p ?m3"
  note s1 = sync_alone [OF c r l(2)]
  note r1 = extends_ready [OF r s1(2)]
  note s2 = sync_alone [OF c r1 extends_ino [OF s1(2) d(2)]]
  note r2 = extends_ready [OF r1 s2(2)] and x2 = extends_trans [OF s1(2) s2(2)]
  note s3 = sync_alone [OF c r2 extends_ino [OF x2 e(2)]]
  note r3 = extends_ready [OF r2 s3(2)] and x3 = extends_trans [OF x2 s3(2)]
  note s4 = sync_alone [OF c r3 extends_ino [OF x3 p(2)]]
  note r4 = extends_ready [OF r3 s4(2)] and x4 = extends_trans [OF x3 s4(2)]
  have "alone a c (settle project state activity g) m = ((Inr (), g), ?m4)"
    using pending_alone [OF c e(1) extends_ino [OF x4 e(2)], of g] absent
    by (simp add: settle_def drive_simps l(1) d(1) e(1) p(1) s1(1) s2(1) s3(1) s4(1) check_alone [OF c r4] machine_simps
        del: eachT.simps)
  then show ?thesis using x4 r4 by (auto simp: machine_simps)
qed

lemma mark_alone:
  assumes c: "ch_fail c = None" and r: "ready a g m" and d: "pFile activity = Some pf" "fd_ino a m (Some pf) = Some d"
    and uid: "ch_uid c = gUid g" and new: "entry m d (''activity-'' @ ch_text c) = None"
  shows "\<exists>fd i q m'. alone a c (mark_activity activity g) m = ((Inr (), (addPin q g)\<lparr>gMarker := Some q\<rparr>), m') \<and>
     (\<exists>st. q = new_pin fd (Some pf) (''activity-'' @ ch_text c) st PinControl) \<and> fd_ino a m (Some fd) = None \<and>
     ready a (addPin q g) m' \<and> extends a m m' \<and> locked_by m' = locked_by m \<and>
     (\<forall>e x. entry m' e x = (if e = d \<and> x = ''activity-'' @ ch_text c then Some i else entry m e x))"
proof -
  have "suits c (gUid g) m d (''activity-'' @ ch_text c) PinControl" using uid new by (simp add: suits_def)
  then obtain fd i q m1 where q: "alone a c (control activity (''activity-'' @ ch_text c) False g) m = ((Inr q, addPin q g), m1)"
      "placed a g m (Some pf) d (''activity-'' @ ch_text c) PinControl fd i q m1"
    using control_alone [OF c r d] new by blast
  have p: "ready a (addPin q g) m1" "extends a m m1" "locked_by m1 = locked_by m" "pFile q = Some fd"
    "\<exists>st. q = new_pin fd (Some pf) (''activity-'' @ ch_text c) st PinControl" "fd_ino a m1 (Some fd) = Some i" "fd_ino a m (Some fd) = None"
    "\<And>e x. entry m1 e x = (if e = d \<and> x = ''activity-'' @ ch_text c then Some i else entry m e x)"
    using q(2) unfolding placed_def by auto
  have "ready a ((addPin q g)\<lparr>gMarker := Some q\<rparr>) m1" by (rule ready_update [OF p(1)]) simp_all
  note s = sync_alone [OF c this p(6)]
  have "alone a c (mark_activity activity g) m = ((Inr (), (addPin q g)\<lparr>gMarker := Some q\<rparr>), sync_entries i m1)"
    using q(1) s(1) by (simp add: mark_activity_def drive_simps serve_calm [OF c] serve_call_def p(4))
  then show ?thesis
    using extends_ready [OF p(1) s(2)] extends_trans [OF p(2) s(2)] p(3,5,7,8) by (auto simp: machine_simps)
qed

section \<open>A project on which a guard can be acquired\<close>

definition unlocked_for :: "bool \<Rightarrow> nat \<Rightarrow> machine \<Rightarrow> bool" where
  "unlocked_for x i m \<longleftrightarrow> \<not> list_ex (\<lambda>d. d_ino d = i \<and> (case d_lock d of None \<Rightarrow> False | Some y \<Rightarrow> x \<or> y)) (t_open m)"

definition quiet :: "choice \<Rightarrow> bool \<Rightarrow> nat \<Rightarrow> machine \<Rightarrow> bool" where
  "quiet c x d m \<longleftrightarrow> (if x then \<not> list_ex (\<lambda>f. fst (fst f) = d) (t_entries m) else entry m d (''activity-'' @ ch_text c) = None)"

definition state_open :: "choice \<Rightarrow> nat \<Rightarrow> bool \<Rightarrow> machine \<Rightarrow> nat \<Rightarrow> bool" where
  "state_open c uid x m e \<longleftrightarrow> entry m e pendingName = None \<and>
     suits c uid m e lockName PinControl \<and> (case entry m e lockName of None \<Rightarrow> True | Some l \<Rightarrow> unlocked_for x l m) \<and>
     suits c uid m e activityName PinPrivate \<and> (case entry m e activityName of None \<Rightarrow> True | Some d \<Rightarrow> quiet c x d m)"

definition project_open :: "choice \<Rightarrow> nat \<Rightarrow> bool \<Rightarrow> machine \<Rightarrow> nat \<Rightarrow> bool" where
  "project_open c uid x m p \<longleftrightarrow> ch_uid c = uid \<and> safe uid (stat_of m p) PinDirectory \<and> suits c uid m p factoryName PinDirectory \<and>
     (case entry m p factoryName of None \<Rightarrow> True | Some e \<Rightarrow> state_open c uid x m e)"

lemma unlocked_for_iff: "unlocked_for x i m \<longleftrightarrow> (\<forall>b f y. (b, f, i, y) \<in> locked_by m \<longrightarrow> \<not> (x \<or> y))"
  by (fastforce simp: unlocked_for_def list_ex_iff locked_by_def split: option.splits)

lemma quiet_iff: "quiet c x d m \<longleftrightarrow> (if x then \<forall>n. entry m d n = None else entry m d (''activity-'' @ ch_text c) = None)"
  by (simp add: quiet_def no_entries)

lemma suits_kept:
  assumes "sound m" "extends a m m'" "suits c uid m d n k" "entry m' d n = entry m d n"
  shows "suits c uid m' d n k"
proof (cases "entry m d n")
  case (Some i)
  then have "i < t_next m" using assms(1) by (auto simp: sound_def)
  then have "core (t_attrs m' i) = core (t_attrs m i)" using assms(2) by (simp add: extends_def)
  from core_safe [OF this] show ?thesis using assms(3,4) Some by (simp add: suits_def)
qed (use assms in \<open>simp add: suits_def\<close>)

lemma state_open_kept:
  assumes "sound m" "extends a m m'" "locked_by m' = locked_by m" "\<And>e n. entry m' e n = entry m e n" "state_open c uid x m e"
  shows "state_open c uid x m' e"
proof -
  have "suits c uid m' e n k" if "suits c uid m e n k" for n k
    by (rule suits_kept [OF assms(1,2) that assms(4)])
  moreover have "unlocked_for x l m' = unlocked_for x l m" for l by (simp add: unlocked_for_iff assms(3))
  moreover have "quiet c x d m' = quiet c x d m" for d by (simp add: quiet_iff assms(4))
  ultimately show ?thesis using assms(5) by (simp add: state_open_def assms(4) split: option.splits)
qed

lemma placed_state_open:
  assumes m: "sound m" and p: "placed a g m f p factoryName k fd e q m'" and uid: "ch_uid c = uid"
    and h: "case entry m p factoryName of None \<Rightarrow> True | Some e \<Rightarrow> state_open c uid x m e"
  shows "state_open c uid x m' e"
proof (cases "entry m p factoryName")
  case None
  then have "e = t_next m" and same: "\<And>i n. entry m' i n = (if i = p \<and> n = factoryName then Some e else entry m i n)"
    using p by (auto simp: placed_def)
  moreover have "pendingName \<noteq> factoryName" by (simp add: pendingName_def factoryName_def)
  ultimately have "entry m' e n = None" if "n \<in> {pendingName, lockName, activityName}" for n
    using sound_new [OF m] that by auto
  then show ?thesis using uid by (simp add: state_open_def suits_def)
next
  case (Some e')
  have at: "entry m' i n = (if i = p \<and> n = factoryName then Some e else entry m i n)" for i n
    using p by (simp add: placed_def)
  have "extends a m m'" using p by (simp add: placed_def)
  then have "entry m' p factoryName = Some e'" using Some unfolding extends_def by blast
  then have same: "e' = e" by (simp add: at)
  then have "entry m' i n = entry m i n" for i n using Some by (simp add: at)
  with same show ?thesis
    using state_open_kept [OF m, of a m' c uid x e] p h Some by (auto simp: placed_def)
qed

text \<open>A guard granted to an agent alone: its project directory, its marker and the locks it adds.\<close>

definition closable :: "nat \<Rightarrow> guard \<Rightarrow> machine \<Rightarrow> bool" where
  "closable a g m \<longleftrightarrow> ready a g m \<and> \<not> gClosed g \<and> \<not> gRootOnly g \<and> (\<exists>ps k f d. gPins g = ps @ [k] \<and> gMarker g = Some k \<and>
     Option.bind (gActivity g) pFile = Some f \<and> fd_ino a m (Some f) = Some d \<and> pParent k = Some f \<and> f \<noteq> pId k \<and> pKind k = PinControl \<and>
     distinct (map pId (ps @ [k])) \<and> list_all (\<lambda>p. pFile p = Some (pId p)) (ps @ [k]) \<and>
     list_all (\<lambda>p. pParent p \<noteq> Some (pId k) \<and> (pParent p = None \<or> pName p \<noteq> pName k)) ps)"

definition obtained :: "nat \<Rightarrow> choice \<Rightarrow> bool \<Rightarrow> machine \<Rightarrow> nat \<Rightarrow> guard \<Rightarrow> machine \<Rightarrow> bool" where
  "obtained a c x m p g m' \<longleftrightarrow> extends a m m' \<and> ready a g m' \<and>
     (\<exists>q ps fd. gPins g = q # ps \<and> pFile q = Some fd \<and> fd_ino a m' (Some fd) = Some p) \<and>
     (if x then gMarker g = None else closable a g m' \<and> (\<exists>k. gMarker g = Some k \<and> pName k = ''activity-'' @ ch_text c))"

lemma closable_extends: "closable a g m \<Longrightarrow> extends a m m' \<Longrightarrow> closable a g m'"
  unfolding closable_def using extends_ready extends_ino by blast

lemma acquireBody_alone:
  assumes c: "ch_fail c = None" and m: "sound m" and p: "map_of (t_paths m) path = Some p"
    and h: "project_open c uid x m p" and g: "g = newGuard uid False False"
  shows "\<exists>h m'. alone a c (acquireBody path x g) m = ((Inr (), h), m') \<and> obtained a c x m p h m'"
proof -
  have uid: "ch_uid c = uid" and safe: "safe uid (stat_of m p) PinDirectory"
    using h by (auto simp: project_open_def)
  have r: "ready a g m" using m g by (simp add: ready_def newGuard_def)
  have gu: "gUid g = uid" "gPins g = []" "gMarker g = None" using g by (simp_all add: newGuard_def)
  have res: "resolve a m None path = Inr p" using p by (simp add: resolve_def)
  let ?f1 = "t_fds m" and ?m1 = "new_desc a p m"
  let ?q1 = "new_pin ?f1 None path (stat_of m p) PinDirectory"
  let ?g1 = "addPin ?q1 g"
  note s1 = existing_alone [OF c r res safe [folded gu(1)]]
  have m1: "sound ?m1" using s1(2) by (simp add: ready_def)
  have e1: "entry ?m1 i n = entry m i n" for i n by (simp add: machine_simps)
  have "suits c (gUid ?g1) ?m1 p factoryName PinDirectory"
    using suits_kept [OF m s1(3)] h by (simp add: project_open_def e1 gu)
  then obtain f2 e q2 m2 where d2: "alone a c (directory ?q1 factoryName False ?g1) ?m1 = ((Inr q2, addPin q2 ?g1), m2)"
    and p2: "placed a ?g1 ?m1 (Some ?f1) p factoryName PinDirectory f2 e q2 m2"
    using directory_alone [OF c s1(2) _ s1(4), of ?q1 factoryName False] by auto
  let ?g2 = "addPin q2 ?g1"
  have x2: "extends a ?m1 m2" "ready a ?g2 m2" "fd_ino a m2 (Some f2) = Some e" "pFile q2 = Some f2" and m2: "sound m2"
    using p2 by (auto simp: placed_def ready_def)
  have "case entry ?m1 p factoryName of None \<Rightarrow> True | Some e \<Rightarrow> state_open c uid x ?m1 e"
    using h state_open_kept [OF m s1(3) _ e1] by (simp add: project_open_def e1 split: option.splits)
  from placed_state_open [OF m1 p2 uid this] have st: "state_open c uid x m2 e" .
  then obtain f3 l q3 m3 where d3: "alone a c (control q2 lockName True ?g2) m2 = ((Inr q3, addPin q3 ?g2), m3)"
    and p3: "placed a ?g2 m2 (Some f2) e lockName PinControl f3 l q3 m3"
    using control_alone [OF c x2(2,4,3), of lockName True] by (auto simp: state_open_def gu)
  let ?h3 = "(addPin q3 ?g2)\<lparr>gLock := Some q3\<rparr>"
  have x3: "extends a m2 m3" "ready a (addPin q3 ?g2) m3" "fd_ino a m3 (Some f3) = Some l" "pFile q3 = Some f3" and m3: "sound m3"
    and b3: "locked_by m3 = locked_by m2"
    and e3: "entry m3 i n = (if i = e \<and> n = lockName then Some l else entry m2 i n)" and n3: "entry m2 e lockName = None \<Longrightarrow> l = t_next m2"
    for i n using p3 by (auto simp: placed_def ready_def)
  have r3: "ready a ?h3 m3" by (rule ready_update [OF x3(2)]) simp_all
  have free: "\<not> contended a f3 l x m3"
  proof (cases "entry m2 e lockName")
    case None
    have "b < t_next m2" if "(o', f, b, y) \<in> locked_by m2" for o' f b y
      using that m2 by (auto simp: locked_by_def sound_def)
    then show ?thesis using n3 [OF None] by (auto simp: contended_iff b3)
  next
    case (Some l')
    then have "entry m3 e lockName = Some l'" using x3(1) by (simp add: extends_def)
    then have "l' = l" by (simp add: e3)
    then show ?thesis using st Some by (auto simp: contended_iff b3 state_open_def unlocked_for_iff)
  qed
  let ?m4 = "lock_desc a f3 x m3"
  have "lockFile ?h3 = Some f3" by (simp add: lockFile_def x3(4))
  note s4 = flock_alone [OF c r3 this x3(3) free]
  have r4: "ready a ?h3 ?m4" and m4: "sound ?m4" and x4: "extends a m2 ?m4"
    using extends_ready [OF r3 s4(2)] s4(2) extends_trans [OF x3(1) s4(2)] by (simp_all add: extends_def)
  have e4: "entry ?m4 i n = (if i = e \<and> n = lockName then Some l else entry m2 i n)" for i n by (simp add: machine_simps e3)
  have f2: "fd_ino a ?m4 (Some f2) = Some e" by (rule extends_ino [OF x4 x2(3)])
  have pend: "pendingName \<noteq> lockName" "pendingName \<noteq> activityName"
    by (simp_all add: pendingName_def lockName_def activityName_def)
  have s5: "alone a c (pendingAbsent q2 ?h3) ?m4 = ((Inr (), ?h3), ?m4)"
    using st pend by (intro pending_alone [OF c x2(4) f2]) (simp add: e4 state_open_def)
  have "suits c (gUid ?h3) ?m4 e activityName PinPrivate"
    using suits_kept [OF m2 x4, of c uid e activityName PinPrivate] st by (simp add: e4 state_open_def gu)
  then obtain f4 d q4 m5 where d5: "alone a c (directory q2 activityName True ?h3) ?m4 = ((Inr q4, addPin q4 ?h3), m5)"
    and p5: "placed a ?h3 ?m4 (Some f2) e activityName PinPrivate f4 d q4 m5"
    using directory_alone [OF c r4 x2(4) f2, of activityName True] by auto
  let ?h5 = "(addPin q4 ?h3)\<lparr>gActivity := Some q4\<rparr>"
  have x5: "extends a ?m4 m5" "ready a (addPin q4 ?h3) m5" "fd_ino a m5 (Some f4) = Some d" "pFile q4 = Some f4"
    and e5: "entry m5 i n = (if i = e \<and> n = activityName then Some d else entry ?m4 i n)"
    and n5: "entry ?m4 e activityName = None \<Longrightarrow> d = t_next ?m4" for i n
    using p5 by (auto simp: placed_def)
  have r5: "ready a ?h5 m5" by (rule ready_update [OF x5(2)]) simp_all
  have below: "e < t_next ?m4" by (rule sound_ino [OF m4 f2])
  have quiet5: "quiet c x d m5"
  proof (cases "entry m2 e activityName")
    case None
    then have "d = t_next ?m4" using n5 by (simp add: e4)
    then have "entry m5 d n = None" for n using below sound_new [OF m4, of n] by (simp add: e5)
    then show ?thesis by (simp add: quiet_iff)
  next
    case (Some d')
    then have "entry m5 e activityName = Some d'" using extends_trans [OF x4 x5(1)] by (simp add: extends_def)
    then have "d' = d" by (simp add: e5)
    then have "quiet c x d m2" "entry m2 e activityName = Some d" using st Some by (auto simp: state_open_def)
    moreover have "entry m5 i n = (if i = e \<and> n = activityName then Some d else if i = e \<and> n = lockName then Some l else entry m2 i n)" for i n
      by (simp add: e5 e4)
    ultimately show ?thesis
      by (cases "d = e") (auto simp: quiet_iff lockName_def activityName_def split: if_splits)
  qed
  have f5: "fd_ino a m5 (Some ?f1) = Some p" "fd_ino a m5 (Some f2) = Some e" "fd_ino a m5 (Some f3) = Some l"
    using extends_ino [OF x5(1)] extends_ino [OF x4] extends_ino [OF s4(2)] extends_ino [OF x2(1)] s1(4) x2(3) x3(3) by blast+
  have pend5: "entry m5 e pendingName = None" using st pend by (simp add: e5 e4 state_open_def)
  have uids: "ch_uid c = gUid ?h5" by (simp add: uid gu)
  have "\<exists>h m6. alone a c ((if x then no_activity else mark_activity q4) ?h5) m5 = ((Inr (), h), m6) \<and> ready a h m6 \<and>
      extends a m5 m6 \<and> entry m6 e pendingName = None \<and> lockFile h = Some f3 \<and> hd (gPins h) = ?q1 \<and> gPins h \<noteq> [] \<and>
      (if x then gMarker h = None else closable a h m6 \<and> (\<exists>k. gMarker h = Some k \<and> pName k = ''activity-'' @ ch_text c))"
  proof (cases x)
    case True
    have "alone a c (no_activity ?h5) m5 = ((Inr (), ?h5), m5)"
      by (rule no_activity_alone [OF c _ x5(3)]) (use quiet5 True in \<open>simp_all add: x5(4) quiet_iff\<close>)
    then show ?thesis
      using True r5 pend5 extends_refl [of m5 a] by (auto simp: ready_def lockFile_def x3(4) addPin_def g newGuard_def)
  next
    case False
    then have "entry m5 d (''activity-'' @ ch_text c) = None" using quiet5 by (simp add: quiet_iff)
    from mark_alone [OF c r5 x5(4,3) uids this] obtain fd q m6 st where
      k: "alone a c (mark_activity q4 ?h5) m5 = ((Inr (), (addPin q ?h5)\<lparr>gMarker := Some q\<rparr>), m6)"
        "q = new_pin fd (Some f4) (''activity-'' @ ch_text c) st PinControl" "fd_ino a m5 (Some fd) = None"
        "ready a (addPin q ?h5) m6" "extends a m5 m6" "entry m6 e pendingName = entry m5 e pendingName"
      by (auto simp: pendingName_def)
    let ?h = "(addPin q ?h5)\<lparr>gMarker := Some q\<rparr>"
    have r6: "ready a ?h m6" by (rule ready_update [OF k(4)]) simp_all
    obtain s2 s3 s4 where q: "q2 = new_pin f2 (Some ?f1) factoryName s2 PinDirectory" "q3 = new_pin f3 (Some f2) lockName s3 PinControl"
        "q4 = new_pin f4 (Some f2) activityName s4 PinPrivate"
      using p2 p3 p5 by (auto simp: placed_def)
    have "fd_ino a ?m1 (Some f2) = None" "fd_ino a m2 (Some f3) = None" "fd_ino a ?m4 (Some f4) = None"
      using p2 p3 p5 by (auto simp: placed_def)
    moreover have "fd_ino a m2 (Some ?f1) = Some p" "fd_ino a ?m4 (Some ?f1) = Some p" "fd_ino a ?m4 (Some f3) = Some l"
      using extends_ino [OF x2(1) s1(4)] extends_ino [OF x4] extends_ino [OF s4(2) x3(3)] by blast+
    ultimately have fds: "f2 \<noteq> ?f1" "f3 \<noteq> ?f1" "f3 \<noteq> f2" "f4 \<noteq> ?f1" "f4 \<noteq> f2" "f4 \<noteq> f3" "fd \<noteq> ?f1" "fd \<noteq> f2" "fd \<noteq> f3" "fd \<noteq> f4"
      using s1(4) x2(3) f2 f5 x5(3) k(3) by auto
    have pins: "gPins ?h = [?q1, q2, q3, q4] @ [q]" "\<not> gClosed ?h" "\<not> gRootOnly ?h" "gMarker ?h = Some q"
      by (simp_all add: addPin_def g newGuard_def)
    have act: "Option.bind (gActivity ?h) pFile = Some f4" "fd_ino a m6 (Some f4) = Some d" "pParent q = Some f4"
      using x5(4) extends_ino [OF k(5) x5(3)] k(2) by (simp_all add: addPin_def)
    have names: "factoryName \<noteq> ''activity-'' @ ch_text c" "lockName \<noteq> ''activity-'' @ ch_text c" "activityName \<noteq> ''activity-'' @ ch_text c"
      by (simp_all add: factoryName_def lockName_def activityName_def)
    have "closable a ?h m6"
      unfolding closable_def
      by (intro conjI exI [of _ "[?q1, q2, q3, q4]"] exI [of _ q] exI [of _ f4] exI [of _ d] r6 pins act)
         (use fds names in \<open>auto simp: q k(2)\<close>)
    then show ?thesis
      using k(1,2,5,6) r6 False pend5 by (simp add: lockFile_def x3(4) addPin_def g newGuard_def)
  qed
  then obtain h m6 where k: "alone a c ((if x then no_activity else mark_activity q4) ?h5) m5 = ((Inr (), h), m6)"
    "ready a h m6" "extends a m5 m6" "entry m6 e pendingName = None" "lockFile h = Some f3" "hd (gPins h) = ?q1" "gPins h \<noteq> []"
    "if x then gMarker h = None else closable a h m6 \<and> (\<exists>k. gMarker h = Some k \<and> pName k = ''activity-'' @ ch_text c)"
    by blast
  note ino = extends_ino [OF k(3)]
  obtain m7 where s7: "alone a c (settle ?q1 q2 q4 h) m6 = ((Inr (), h), m7)" "extends a m6 m7" "ready a h m7"
    using settle_alone [OF c k(2,5) ino [OF f5(3)] x5(4) ino [OF x5(3)] x2(4) ino [OF f5(2)] _ ino [OF f5(1)] k(4), of ?q1] by auto
  have run: "alone a c (acquireBody path x g) m = ((Inr (), h), m7)"
    using k(1) s7(1) by (simp add: acquireBody_def drive_simps s1(1) d2 d3 s4(1) s5 d5)
  have ext: "extends a m m7"
    using extends_trans [OF s1(3) x2(1)] x4 x5(1) k(3) s7(2) extends_trans by meson
  have "fd_ino a m7 (Some ?f1) = Some p" by (rule extends_ino [OF s7(2) ino [OF f5(1)]])
  then have "obtained a c x m p h m7"
    using ext s7(3) k(6,7,8) closable_extends [OF _ s7(2)] by (cases "gPins h") (auto simp: obtained_def)
  then show ?thesis using run by blast
qed

end
