(* ===== verification/Transition_Finish.thy ===== *)
theory Transition_Finish
  imports Transition_Run
begin

text \<open>
  Closing a shared guard as clean, by an agent that runs alone and whose calls are not refused: its marker is
  removed, every descriptor is closed and no error is reported.
\<close>

section \<open>Descriptors that are closed\<close>

lemma find_filter_other: "(\<And>x. P x \<Longrightarrow> Q x) \<Longrightarrow> find P (filter Q xs) = find P xs"
  by (induction xs) auto

lemma close_alone:
  assumes c: "ch_fail c = None" and f: "fd_ino a m (Some fd) = Some i"
  shows "\<exists>m'. alone a c (plainCall (QClose (Some fd)) g) m = ((Inr (), g), m') \<and> t_paths m' = t_paths m \<and> t_next m' = t_next m \<and>
     t_attrs m' = t_attrs m \<and> t_entries m' = t_entries m \<and> (sound m \<longrightarrow> sound m') \<and>
     (\<forall>x. x \<noteq> fd \<longrightarrow> fd_ino a m' (Some x) = fd_ino a m (Some x))"
proof -
  obtain d where d: "desc_of a m fd = Some d" using fd_ino_desc [OF f] by blast
  let ?m = "close_descs (\<lambda>e. e = d) m"
  have run: "alone a c (plainCall (QClose (Some fd)) g) m = ((Inr (), g), ?m)"
    using d by (simp add: plainCall_def drive_simps serve_calm [OF c] serve_call_def with_desc_def)
  have "fd_ino a ?m (Some x) = fd_ino a m (Some x)" if "x \<noteq> fd" for x
  proof -
    have "e \<noteq> d" if "d_owner e = a \<and> d_fd e = x" for e using that \<open>x \<noteq> fd\<close> desc_of_Some [OF d] by auto
    then have "find (\<lambda>e. d_owner e = a \<and> d_fd e = x) (filter (\<lambda>e. e \<noteq> d) (t_open m)) = find (\<lambda>e. d_owner e = a \<and> d_fd e = x) (t_open m)"
      by (rule find_filter_other)
    then show ?thesis by (simp add: fd_ino_def desc_of_def close_descs_def)
  qed
  moreover have "sound ?m" if "sound m" using that by (auto simp: sound_def close_descs_def entry_def)
  ultimately show ?thesis using run by (intro exI [of _ ?m]) (simp add: close_descs_def)
qed

lemma closeEach_alone:
  assumes c: "ch_fail c = None" and "list_all (\<lambda>p. pFile p = Some (pId p) \<and> fd_ino a m (Some (pId p)) \<noteq> None) ps" "distinct (map pId ps)"
  shows "\<exists>h m'. alone a c (closeEach ps es g) m = ((es, h), m')"
  using assms(2,3)
proof (induction ps arbitrary: m g)
  case (Cons p ps)
  then obtain i where p: "pFile p = Some (pId p)" "fd_ino a m (Some (pId p)) = Some i" by auto
  from close_alone [OF c p(2), of g] obtain m' where
    m': "alone a c (plainCall (QClose (Some (pId p))) g) m = ((Inr (), g), m')" "\<And>x. x \<noteq> pId p \<Longrightarrow> fd_ino a m' (Some x) = fd_ino a m (Some x)"
    by blast
  have "list_all (\<lambda>p. pFile p = Some (pId p) \<and> fd_ino a m' (Some (pId p)) \<noteq> None) ps" "distinct (map pId ps)"
    using Cons.prems m'(2) by (auto simp: list_all_iff image_iff)
  from Cons.IH [OF this] obtain h u where "alone a c (closeEach ps es (clear_file (pId p) g)) m' = ((es, h), u)" by blast
  then show ?case using p(1) m'(1) by (simp add: drive_simps)
qed (simp add: drive_simps)

section \<open>Retiring the marker\<close>

lemma valid_transfer:
  assumes "pin_valid a uid m p" "\<And>fd. pFile p = Some fd \<Longrightarrow> fd_ino a m' (Some fd) = fd_ino a m (Some fd)"
    and "resolve a m' (pParent p) (pName p) = resolve a m (pParent p) (pName p)" "\<And>i. core (t_attrs m' i) = core (t_attrs m i)"
  shows "pin_valid a uid m' p"
proof -
  obtain fd i where p: "pFile p = Some fd" "fd_ino a m (Some fd) = Some i" "resolve a m (pParent p) (pName p) = Inr i"
    "safe uid (stat_of m i) (pKind p)" "same_inode (stat_of m i) (pStat p)"
    using assms(1) by (auto simp: pin_valid_def)
  have "safe uid (stat_of m' i) (pKind p)" "same_inode (stat_of m' i) (pStat p)"
    using core_safe [OF assms(4), of uid i "pKind p"] core_same [OF assms(4), of i "pStat p"] p(4,5) by simp_all
  then show ?thesis using p assms(2,3) unfolding pin_valid_def by auto
qed

lemma check_pins_alone:
  assumes "ch_fail c = None" "\<And>p. p \<in> set (gPins g) \<Longrightarrow> alone a c (checkPin p g) m = ((Inr (), g), m)"
  shows "alone a c (check g) m = ((Inr (), g), m)"
proof -
  have "alone a c (eachT checkPin ps g) m = ((Inr (), g), m)" if "set ps \<subseteq> set (gPins g)" for ps
    using that assms(2) by (induction ps) (simp_all add: drive_eachT del: eachT.simps)
  then show ?thesis by (simp add: check_def drive_simps calm_reads(1) [OF assms(1)])
qed

lemma checkPin_closed_alone:
  assumes "ch_fail c = None" "pFile p = None" "\<not> gRecoveryOnly g" "resolve a m (pParent p) (pName p) = Inr i"
    and "safe (gUid g) (stat_of m i) (pKind p)" "same_inode (stat_of m i) (pStat p)"
  shows "alone a c (checkPin p g) m = ((Inr (), g), m)"
  using assms(2-) calm_reads(2) [OF assms(1,4)] by (simp add: checkPin_def drive_simps)

lemma clear_last:
  assumes "distinct (map pId (ps @ [k]))" "gPins g = ps @ [k]"
  shows "gPins (clear_file (pId k) g) = ps @ [k\<lparr>pFile := None\<rparr>]"
proof -
  have "pId p \<noteq> pId k" if "p \<in> set ps" for p using assms(1) that by (auto simp: image_iff)
  then have "map (\<lambda>p. if pId p = pId k then p\<lparr>pFile := None\<rparr> else p) ps = ps" by (simp add: map_idI)
  then show ?thesis using assms(2) by (simp add: clear_file_def)
qed

lemma retire_alone:
  assumes c: "ch_fail c = None" and g: "closable a g m" "gMarker g = Some k"
  shows "\<exists>h m' ps. alone a c (retireMarker k g) m = ((Inr (), h), m') \<and> gPins h = ps \<and> gRecoveryOnly h = gRecoveryOnly g \<and> gRootOnly h = gRootOnly g \<and>
     list_all (\<lambda>p. pFile p = Some (pId p) \<and> fd_ino a m' (Some (pId p)) \<noteq> None) ps \<and> distinct (map pId ps)"
proof -
  obtain ps f d where k: "gPins g = ps @ [k]" "Option.bind (gActivity g) pFile = Some f" "fd_ino a m (Some f) = Some d"
    "pParent k = Some f" "f \<noteq> pId k" "pKind k = PinControl" "distinct (map pId (ps @ [k]))"
    "\<forall>p \<in> set (ps @ [k]). pFile p = Some (pId p)"
    "\<And>p. p \<in> set ps \<Longrightarrow> pParent p \<noteq> Some (pId k) \<and> (pParent p = None \<or> pName p \<noteq> pName k)" "ready a g m"
    using g unfolding closable_def list_all_iff by auto
  have valid: "pin_valid a (gUid g) m p" if "p \<in> set (ps @ [k])" for p using k(1,10) that by (auto simp: ready_def)
  have rec: "\<not> gRecoveryOnly g" and sound: "sound m" using k(10) by (simp_all add: ready_def)
  obtain i where i: "fd_ino a m (Some (pId k)) = Some i" "resolve a m (Some f) (pName k) = Inr i" "safe (gUid g) (stat_of m i) PinControl"
      "same_inode (stat_of m i) (pStat k)"
    using valid [of k] k(4,6,8) by (auto simp: pin_valid_def)
  have at: "entry m d (pName k) = Some i" using i(2) resolve_child [OF k(3)] by (auto split: option.splits)
  obtain m1 where m1: "alone a c (plainCall (QClose (Some (pId k))) g) m = ((Inr (), g), m1)" "t_paths m1 = t_paths m" "t_attrs m1 = t_attrs m"
      "t_entries m1 = t_entries m" "sound m1" "\<And>x. x \<noteq> pId k \<Longrightarrow> fd_ino a m1 (Some x) = fd_ino a m (Some x)" "t_next m1 = t_next m"
    using close_alone [OF c i(1), of g] sound by blast
  let ?g1 = "clear_file (pId k) g"
  have g1: "gPins ?g1 = ps @ [k\<lparr>pFile := None\<rparr>]" "gUid ?g1 = gUid g" "gRecoveryOnly ?g1 = gRecoveryOnly g" "gActivity ?g1 = gActivity g"
      "gRootOnly ?g1 = gRootOnly g"
    using clear_last [OF k(7,1)] by (simp_all add: clear_file_def)
  have entries: "entry m1 e n = entry m e n" for e n by (simp add: entry_def m1(4))
  have fdp: "pId p \<noteq> pId k" if "p \<in> set ps" for p using k(7) imageI [OF that, of pId] by auto
  have res1: "resolve a m1 (pParent p) (pName p) = resolve a m (pParent p) (pName p)" if "pParent p \<noteq> Some (pId k)" for p
    by (cases "pParent p") (use that m1(2,6) in \<open>simp_all add: resolve_def entries split: option.split\<close>)
  have v1: "pin_valid a (gUid g) m1 p" if "p \<in> set ps" for p
    by (rule valid_transfer [OF valid]) (use that k(8,9) m1(3,6) fdp in \<open>auto simp: res1\<close>)
  have last: "alone a c (checkPin (k\<lparr>pFile := None\<rparr>) ?g1) m1 = ((Inr (), ?g1), m1)"
    by (rule checkPin_closed_alone [OF c])
       (use i rec res1 [of k] k(4-6) m1(3) in \<open>auto simp: g1(2,3) stat_of_def\<close>)
  have check1: "alone a c (check ?g1) m1 = ((Inr (), ?g1), m1)"
    by (rule check_pins_alone [OF c]) (use last checkPin_alone [OF c] v1 rec in \<open>auto simp: g1\<close>)
  let ?m2 = "touch d (ch_stamp c) (drop_entry d (pName k) m1)"
  have fdd: "fd_ino a m1 (Some f) = Some d" using m1(6) k(3,5) by simp
  have "a_kind (t_attrs m i) = RegularFile" using i(3) by (auto simp: safe_def stat_of_def Let_def split: if_splits)
  then have unlink: "alone a c (plainCall (QUnlink (Some f) (pName k)) ?g1) m1 = ((Inr (), ?g1), ?m2)"
    by (simp add: plainCall_def drive_simps serve_calm [OF c] serve_call_def serve_unlink_def fdd entries at m1(3))
  have fd2: "fd_ino a ?m2 x = fd_ino a m1 x" for x by (simp add: fd_ino_def desc_of_def touch_def set_attrs_def drop_entry_def)
  have res2: "resolve a ?m2 (pParent p) (pName p) = resolve a m1 (pParent p) (pName p)" if "pParent p = None \<or> pName p \<noteq> pName k" for p
  proof -
    have "t_paths ?m2 = t_paths m1" by (simp add: touch_def set_attrs_def drop_entry_def)
    moreover have "entry ?m2 e (pName p) = entry m1 e (pName p)" if "pName p \<noteq> pName k" for e using that by (simp add: machine_simps)
    ultimately show ?thesis using that by (auto simp: resolve_def fd2 split: option.splits)
  qed
  have attrs2: "core (t_attrs ?m2 x) = core (t_attrs m1 x)" for x
    by (simp add: touch_def set_attrs_def drop_entry_def)
  have v2: "pin_valid a (gUid g) ?m2 p" if "p \<in> set ps" for p
    by (rule valid_transfer [OF v1 [OF that] fd2 res2 attrs2]) (use k(9) that in blast)
  let ?g2 = "drop_marker ?g1"
  have g2: "gPins ?g2 = ps" by (simp add: drop_marker_def g1)
  have "t_open ?m2 = t_open m1" "t_fds ?m2 = t_fds m1" "t_next ?m2 = t_next m1" "t_paths ?m2 = t_paths m1"
    by (simp_all add: touch_def set_attrs_def drop_entry_def)
  then have "sound ?m2" using m1(5) by (auto simp: sound_def machine_simps split: if_splits)
  then have ready2: "ready a ?g2 ?m2"
    using v2 rec g2 by (simp add: ready_def drop_marker_def clear_file_def)
  have fd22: "fd_ino a ?m2 (Some f) = Some d" by (simp add: fd2 fdd)
  note s = sync_alone [OF c ready2 fd22]
  have run: "alone a c (retireMarker k g) m = ((Inr (), ?g2), sync_entries d ?m2)"
    using m1(1) check1 unlink s(1) k(2) k(8) by (simp add: retireMarker_def drive_simps g1(4))
  have "fd_ino a (sync_entries d ?m2) (Some (pId p)) \<noteq> None" if "p \<in> set ps" for p
    using v2 [OF that] k(8) that extends_ino [OF s(2)] by (fastforce simp: pin_valid_def)
  then have "list_all (\<lambda>p. pFile p = Some (pId p) \<and> fd_ino a (sync_entries d ?m2) (Some (pId p)) \<noteq> None) ps" "distinct (map pId ps)"
    using k(7,8) by (simp_all add: list_all_iff)
  moreover have "gRecoveryOnly ?g2 = gRecoveryOnly g" "gRootOnly ?g2 = gRootOnly g" by (simp_all add: drop_marker_def clear_file_def)
  ultimately show ?thesis using run g2 by blast
qed

lemma closeGuard_alone:
  assumes c: "ch_fail c = None" and g: "closable a g m"
  shows "\<exists>h m'. alone a c (closeGuard True g) m = ((None, h), m')"
proof -
  obtain k where k: "gMarker g = Some k" and r: "ready a g m" "\<not> gClosed g" using g by (auto simp: closable_def)
  from retire_alone [OF c g k] obtain h m1 where
    h: "alone a c (retireMarker k g) m = ((Inr (), h), m1)"
       "list_all (\<lambda>p. pFile p = Some (pId p) \<and> fd_ino a m1 (Some (pId p)) \<noteq> None) (gPins h)" "distinct (map pId (gPins h))"
    by blast
  have "alone a c (closeBody True g) m = ((Inr (), h), m1)"
    using h(1) k by (simp add: closeBody_def drive_simps check_alone [OF c r(1)])
  moreover obtain h' m2 where "alone a c (closeEach (rev (gPins h)) [] (h\<lparr>gClosed := True\<rparr>)) m1 = (([], h'), m2)"
    using closeEach_alone [OF c, of a m1 "rev (gPins h)" "[]" "h\<lparr>gClosed := True\<rparr>"] h(2,3)
    by (auto simp: list_all_iff rev_map [symmetric])
  ultimately show ?thesis
    using r(2) by (simp add: closeGuard_def drive_simps closeFiles_def joinErrors_def failure_of_def)
qed

end
