(* ===== verification/Transition_Claims.thy ===== *)
theory Transition_Claims
  imports Transition_Finish
begin

text \<open>
  The promises of the transition guard, for every schedule of any number of agents, crashes, power losses and
  other software: exclusion, evidence of active work that survives, no lock left behind; and that an agent
  alone on a healthy project gets its guard.
\<close>

section \<open>Schedules\<close>

lemma drive_turns:
  assumes step: "\<And>q k s. s_agents s a = f (Call q k) \<Longrightarrow> turn (Turn a c) s = serving a c q (\<lambda>x. f (k x)) s"
    and "s_agents s a = f p" "drive (serve a c) p (s_machine s) = (x, m')"
  shows "\<exists>n. fold turn (replicate n (Turn a c)) s = set_agent a (f (Done x)) (s\<lparr>s_machine := m'\<rparr>)"
  using assms(2,3)
proof (induction p arbitrary: s)
  case (Done y)
  then have "fold turn (replicate 0 (Turn a c)) s = set_agent a (f (Done x)) (s\<lparr>s_machine := m'\<rparr>)"
    by (cases s) (auto simp: set_agent_def)
  then show ?case by blast
next
  case (Call q k)
  obtain y t where y: "serve a c q (s_machine s) = (y, t)" by force
  let ?s = "set_agent a (f (k y)) (s\<lparr>s_machine := t\<rparr>)"
  have one: "turn (Turn a c) s = ?s" using step [OF Call.prems(1)] y by (simp add: serving_def)
  have "drive (serve a c) (k y) (s_machine ?s) = (x, m')" using Call.prems(2) y by (simp add: set_agent_def)
  then obtain n where "fold turn (replicate n (Turn a c)) ?s = set_agent a (f (Done x)) (?s\<lparr>s_machine := m'\<rparr>)"
    using Call.IH [of "k y" ?s] by (auto simp: set_agent_def)
  then have "fold turn (replicate (Suc n) (Turn a c)) s = set_agent a (f (Done x)) (s\<lparr>s_machine := m'\<rparr>)"
    using one by (simp add: set_agent_def)
  then show ?case by blast
qed

lemma last_turn:
  assumes "fold turn (replicate n (Turn a c)) s = t"
  shows "fold turn (replicate (Suc n) (Turn a c)) s = turn (Turn a c) t"
proof -
  have "replicate (Suc n) (Turn a c) = replicate n (Turn a c) @ [Turn a c]" by (simp add: replicate_append_same)
  then show ?thesis by (simp only: fold_append o_apply assms fold.simps id_apply)
qed

lemma begin_turns:
  assumes "isIdle (s_agents s a)" "drive (serve a c) (acquisition r uid path) (s_machine s) = (Inr h, m')"
  shows "\<exists>n. fold turn (Begin a r uid path # replicate n (Turn a c)) s =
     set_agent a (Held r h) (s\<lparr>s_machine := m', s_active := evidence a m' r h @ s_active s\<rparr>)"
proof -
  let ?s = "set_agent a (Acquiring r (acquisition r uid path)) s"
  have b: "turn (Begin a r uid path) s = ?s" using assms(1) by (simp add: turn_def)
  have "s_agents ?s a = Acquiring r (acquisition r uid path)" "drive (serve a c) (acquisition r uid path) (s_machine ?s) = (Inr h, m')"
    using assms(2) by (simp_all add: set_agent_def)
  from drive_turns [where f = "Acquiring r", OF _ this] obtain n where
    "fold turn (replicate n (Turn a c)) ?s = set_agent a (Acquiring r (Done (Inr h))) (?s\<lparr>s_machine := m'\<rparr>)"
    by (auto simp: turn_def proceed_def)
  from last_turn [OF this] have "fold turn (replicate (Suc n) (Turn a c)) ?s =
      set_agent a (Held r h) (s\<lparr>s_machine := m', s_active := evidence a m' r h @ s_active s\<rparr>)"
    by (simp add: turn_def proceed_def set_agent_def)
  then have "fold turn (Begin a r uid path # replicate (Suc n) (Turn a c)) s =
      set_agent a (Held r h) (s\<lparr>s_machine := m', s_active := evidence a m' r h @ s_active s\<rparr>)"
    by (simp only: fold.simps o_apply b)
  then show ?thesis by blast
qed

lemma close_turns:
  assumes "s_agents s a = Held r h" "drive (serve a c) (release h True) (s_machine s) = (e, m')"
  shows "\<exists>n. s_agents (fold turn (Release a True # replicate n (Turn a c)) s) a = Released r True e"
proof -
  let ?s = "set_agent a (Closing r True (release h True)) (s\<lparr>s_active := filter (\<lambda>e. fst e \<noteq> a) (s_active s)\<rparr>)"
  have b: "turn (Release a True) s = ?s" using assms(1) by (simp add: turn_def)
  have "s_agents ?s a = Closing r True (release h True)" "drive (serve a c) (release h True) (s_machine ?s) = (e, m')"
    using assms(2) by (simp_all add: set_agent_def)
  from drive_turns [where f = "Closing r True", OF _ this] obtain n where
    "fold turn (replicate n (Turn a c)) ?s = set_agent a (Closing r True (Done e)) (?s\<lparr>s_machine := m'\<rparr>)"
    by (auto simp: turn_def proceed_def)
  from last_turn [OF this] have "s_agents (fold turn (replicate (Suc n) (Turn a c)) ?s) a = Released r True e"
    by (simp add: turn_def proceed_def set_agent_def)
  then have "s_agents (fold turn (Release a True # replicate (Suc n) (Turn a c)) s) a = Released r True e"
    by (simp only: fold.simps o_apply b)
  then show ?thesis by blast
qed

lemma execute_append: "execute (xs @ ys) m = fold turn ys (execute xs m)"
  by (simp add: execute_def)

lemma execute_sound: "fresh_machine m \<Longrightarrow> sound (s_machine (execute events m))"
  using execute_ok [of m events] by (simp add: system_ok_def machine_ok_sound)

lemma acquisition_alone:
  assumes c: "ch_fail c = None" and m: "sound m" and q: "selectedGuardRoot path = Inr q" "map_of (t_paths m) q = Some p"
    and h: "project_open c uid x m p"
  shows "\<exists>g m'. alone a c (acquisition (if x then Exclusive else Shared) uid path) m = (Inr \<lparr>hGuard = g, hLease = None\<rparr>, m') \<and>
     obtained a c x m p g m'"
proof -
  obtain g m' where g: "alone a c (acquireBody q x (newGuard uid False False)) m = ((Inr (), g), m')" "obtained a c x m p g m'"
    using acquireBody_alone [OF c m q(2) h refl] by blast
  have "alone a c (acquisition (if x then Exclusive else Shared) uid path) m = (Inr \<lparr>hGuard = g, hLease = None\<rparr>, m')"
    using g(1) q(1) by (cases x) (simp_all add: acquisition_def granting_def guard_task_def acquire_def releasing_def
        drive_simps drive_bindP)
  then show ?thesis using g(2) by blast
qed

lemma obtained_root:
  assumes "obtained a c x m p g m'"
  shows "root_ino a m' \<lparr>hGuard = g, hLease = l\<rparr> = Some p"
    and "\<not> x \<Longrightarrow> evidence a m' Shared \<lparr>hGuard = g, hLease = l\<rparr> = [(a, p, ''activity-'' @ ch_text c)]"
  using assms by (auto simp: obtained_def root_ino_def evidence_def)

lemma granted_turns:
  assumes "sound (s_machine s)" "isIdle (s_agents s a)" "ch_fail c = None"
    and "selectedGuardRoot path = Inr q" "map_of (t_paths (s_machine s)) q = Some p" "project_open c uid x (s_machine s) p"
  shows "\<exists>n h t. t = fold turn (Begin a (if x then Exclusive else Shared) uid path # replicate n (Turn a c)) s \<and>
     s_agents t a = Held (if x then Exclusive else Shared) h \<and> root_ino a (s_machine t) h = Some p \<and>
     (x \<or> (a, p, ''activity-'' @ ch_text c) \<in> set (s_active t))"
proof -
  let ?r = "if x then Exclusive else Shared"
  obtain g m' where g: "alone a c (acquisition ?r uid path) (s_machine s) = (Inr \<lparr>hGuard = g, hLease = None\<rparr>, m')"
      "obtained a c x (s_machine s) p g m'"
    using acquisition_alone [OF assms(3,1,4-6)] by blast
  let ?h = "\<lparr>hGuard = g, hLease = None\<rparr>"
  from begin_turns [OF assms(2) g(1)] obtain n where
    t: "fold turn (Begin a ?r uid path # replicate n (Turn a c)) s =
      set_agent a (Held ?r ?h) (s\<lparr>s_machine := m', s_active := evidence a m' ?r ?h @ s_active s\<rparr>)" (is "?t = _")
    by blast
  have "s_agents ?t a = Held ?r ?h" "s_machine ?t = m'" "s_active ?t = evidence a m' ?r ?h @ s_active s"
    by (simp_all only: t) (simp_all add: set_agent_def)
  then show ?thesis
    using obtained_root [OF g(2), of None] by (intro exI [of _ n] exI [of _ ?h] exI [of _ ?t]) auto
qed

text \<open>C17: An agent whose calls the kernel does not refuse, that runs alone on a project whose control
  entries are safe or absent, without a conflicting lock, without a pending publication and, for an exclusive
  guard, without activity evidence, is granted the guard after finitely many steps; a shared guard is then
  recorded as active under its marker.\<close>

theorem acquisition_granted:
  assumes "fresh_machine m" "s = execute events m" "isIdle (s_agents s a)" "ch_fail c = None"
    and "selectedGuardRoot path = Inr q" "map_of (t_paths (s_machine s)) q = Some p" "project_open c uid x (s_machine s) p"
  shows "\<exists>n h t. t = execute (events @ Begin a (if x then Exclusive else Shared) uid path # replicate n (Turn a c)) m \<and>
     s_agents t a = Held (if x then Exclusive else Shared) h \<and> root_ino a (s_machine t) h = Some p \<and>
     (x \<or> (a, p, ''activity-'' @ ch_text c) \<in> set (s_active t))"
  using granted_turns [of s a c path q p uid x] execute_sound [OF assms(1)] assms(2-7) by (simp add: execute_append)

section \<open>Read-only leases\<close>

lemma existing_root_alone:
  assumes "ch_fail c = None" "sound m" "map_of (t_paths m) q = Some p" "safe uid (stat_of m p) PinDirectory"
    and "g = newGuard uid False r"
  shows "alone a c (existing None q PinDirectory g) m =
      ((Inr (new_pin (t_fds m) None q (stat_of m p) PinDirectory), addPin (new_pin (t_fds m) None q (stat_of m p) PinDirectory) g),
        new_desc a p m)"
    and "ready a (addPin (new_pin (t_fds m) None q (stat_of m p) PinDirectory) g) (new_desc a p m)"
    and "fd_ino a (new_desc a p m) (Some (t_fds m)) = Some p"
proof -
  have r: "ready a g m" and u: "gUid g = uid" using assms(2,5) by (simp_all add: ready_def newGuard_def)
  have "resolve a m None q = Inr p" using assms(3) by (simp add: resolve_def)
  note ex = existing_alone [OF assms(1) r this assms(4) [folded u]]
  show "alone a c (existing None q PinDirectory g) m =
      ((Inr (new_pin (t_fds m) None q (stat_of m p) PinDirectory), addPin (new_pin (t_fds m) None q (stat_of m p) PinDirectory) g),
        new_desc a p m)" "ready a (addPin (new_pin (t_fds m) None q (stat_of m p) PinDirectory) g) (new_desc a p m)"
    "fd_ino a (new_desc a p m) (Some (t_fds m)) = Some p"
    by (rule ex(1), rule ex(2), rule ex(4))
qed

lemma lease_alone:
  assumes c: "ch_fail c = None" and m: "sound m" and q: "selectedGuardRoot path = Inr q" "map_of (t_paths m) q = Some p"
    and safe: "safe uid (stat_of m p) PinDirectory" and "entry m p factoryName = None" "unlocked_for False p m"
  shows "\<exists>g l. alone a c (acquisition ReadOnly uid path) m = (Inr \<lparr>hGuard = g, hLease = l\<rparr>, lock_desc a (t_fds m) False (new_desc a p m)) \<and>
     root_ino a (lock_desc a (t_fds m) False (new_desc a p m)) \<lparr>hGuard = g, hLease = l\<rparr> = Some p"
proof -
  let ?g = "newGuard uid False True" and ?q = "new_pin (t_fds m) None q (stat_of m p) PinDirectory"
  let ?m1 = "new_desc a p m" and ?m2 = "lock_desc a (t_fds m) False (new_desc a p m)"
  note ex = existing_root_alone [where a = a and r = True, OF c m q(2) safe refl]
  let ?h = "(addPin ?q ?g)\<lparr>gLock := Some ?q\<rparr>"
  have r1: "ready a ?h ?m1" by (rule ready_update [OF ex(2)]) simp_all
  have free: "\<not> contended a (t_fds m) p False ?m1" using assms(7) by (auto simp: contended_iff unlocked_for_iff)
  have "lockFile ?h = Some (t_fds m)" by (simp add: lockFile_def)
  note fl = flock_alone [OF c r1 this ex(3) free]
  note r2 = extends_ready [OF r1 fl(2)] and ino = extends_ino [OF fl(2) ex(3)]
  have absent: "alone a c (named (Some (t_fds m)) factoryName ?h) ?m2 = ((Inl (Errno ENOENT), ?h), ?m2)"
    by (rule calm_reads(3) [OF c]) (simp add: resolve_child [OF ino] machine_simps assms(6))
  let ?l = "\<lparr>lRoot = ?q, lFactory = None, lReadOnly = True\<rparr>"
  have body: "alone a c (leaseBody q False ?g) m = ((Inr ?l, ?h), ?m2)"
    by (simp add: leaseBody_def leaseFactory_def leaseCheck_def drive_simps ex(1) fl(1) absent check_alone [OF c r2]
        calm_reads(1) [OF c] Let_def)
  have run: "alone a c (acquisition ReadOnly uid path) m = (Inr \<lparr>hGuard = ?h, hLease = Some ?l\<rparr>, ?m2)"
    by (simp add: acquisition_def granting_def lease_task_def rootLease_def releasing_def q(1) drive_simps drive_bindP body)
  have "root_ino a ?m2 \<lparr>hGuard = ?h, hLease = Some ?l\<rparr> = Some p"
    using ino by (simp add: root_ino_def addPin_def newGuard_def)
  then show ?thesis using run by blast
qed

lemma lease_turns:
  fixes c :: choice
  assumes "sound (s_machine s)" "isIdle (s_agents s a)" "ch_fail c = None" "selectedGuardRoot path = Inr q"
    and "map_of (t_paths (s_machine s)) q = Some p" "safe uid (stat_of (s_machine s) p) PinDirectory"
    and "entry (s_machine s) p factoryName = None" "unlocked_for False p (s_machine s)"
  shows "\<exists>xs h m'. fold turn xs s = set_agent a (Held ReadOnly h) (s\<lparr>s_machine := m'\<rparr>) \<and> root_ino a m' h = Some p \<and>
     m' = lock_desc a (t_fds (s_machine s)) False (new_desc a p (s_machine s))"
proof -
  let ?m' = "lock_desc a (t_fds (s_machine s)) False (new_desc a p (s_machine s))"
  obtain h where h: "alone a c (acquisition ReadOnly uid path) (s_machine s) = (Inr h, ?m')" "root_ino a ?m' h = Some p"
    using lease_alone [OF assms(3,1,4-8)] by blast
  have "evidence a ?m' ReadOnly h = []" by (simp add: evidence_def)
  with begin_turns [OF assms(2) h(1)] obtain n where
    "fold turn (Begin a ReadOnly uid path # replicate n (Turn a c)) s = set_agent a (Held ReadOnly h) (s\<lparr>s_machine := ?m'\<rparr>)"
    by auto
  then show ?thesis using h(2) by blast
qed

lemma fd_ino_other:
  assumes "a \<noteq> b"
  shows "fd_ino a (lock_desc b fd x (new_desc b i m)) f = fd_ino a m f"
proof -
  have "find (\<lambda>d. d_owner d = a \<and> d_fd d = k) (map (\<lambda>d. if d_owner d = b \<and> d_fd d = fd then d\<lparr>d_lock := Some x\<rparr> else d) ds) =
      find (\<lambda>d. d_owner d = a \<and> d_fd d = k) ds" for k and ds :: "desc list"
    using assms by (induction ds) auto
  then show ?thesis using assms by (simp add: fd_ino_def desc_of_def lock_desc_def new_desc_def)
qed

section \<open>Safety\<close>

lemma held_granted:
  assumes "system_ok s" "s_agents s a = Held r h"
  shows "granted a r h (s_machine s)"
  using agents_ok [OF assms] by (simp add: agent_ok_def)

lemma granted_root:
  assumes "granted a r h m"
  shows "\<exists>fd p. root_ino a m h = Some p \<and> held_facts a r (hGuard h) fd p m"
proof -
  obtain q ps fd p where h: "gPins (hGuard h) = q # ps" "pFile q = Some fd" "held_facts a r (hGuard h) fd p m"
    using assms by (auto simp: granted_def)
  then have "fulfils a m (Opened fd p)" and ok: "machine_ok m"
    by (auto simp: held_facts_def facts_def lease_facts_def path_facts_def split: if_splits)
  from opened_ino [OF ok this(1)] show ?thesis using h by (auto simp: root_ino_def)
qed

lemma held_lock:
  assumes "held_facts a r g fd p m"
  shows "\<exists>l. locks a m l (exclusive r) \<and>
     (if is_lease r then l = p else \<exists>e. entry m p factoryName = Some e \<and> entry m e lockName = Some l)"
  using assms by (auto simp: held_facts_def facts_def lease_facts_def path_facts_def split: if_splits)

text \<open>C5: An exclusive guard excludes every other guard of the same project, and an exclusive root lease
  every other lease, whatever the processes do, crash or lose power in between.\<close>

theorem guard_exclusion:
  assumes "fresh_machine m" "s = execute events m" "s_agents s a = Held r h" "s_agents s b = Held r' h'" "a \<noteq> b"
    and "is_lease r = is_lease r'" "root_ino a (s_machine s) h = root_ino b (s_machine s) h'"
  shows "\<not> exclusive r \<and> \<not> exclusive r'"
proof -
  have ok: "system_ok s" using execute_ok [OF assms(1)] assms(2) by simp
  then have m: "machine_ok (s_machine s)" by (simp add: system_ok_def)
  obtain fd p where a: "root_ino a (s_machine s) h = Some p" "held_facts a r (hGuard h) fd p (s_machine s)"
    using granted_root [OF held_granted [OF ok assms(3)]] by blast
  obtain fd' p' where b: "root_ino b (s_machine s) h' = Some p'" "held_facts b r' (hGuard h') fd' p' (s_machine s)"
    using granted_root [OF held_granted [OF ok assms(4)]] by blast
  have p: "p' = p" using a(1) b(1) assms(7) by simp
  have "\<exists>l. locks a (s_machine s) l (exclusive r) \<and> locks b (s_machine s) l (exclusive r')"
    using held_lock [OF a(2)] held_lock [OF b(2)] assms(6) p by (cases "is_lease r") auto
  then show ?thesis using compatible [OF m] assms(5) by (metis (full_types))
qed

text \<open>C6: While an exclusive guard of a project is held there is no active shared work on it: not by an
  agent that still runs, and not by one that crashed, lost power or closed its guard without calling it clean.\<close>

theorem exclusive_unaccompanied:
  assumes "fresh_machine m" "s = execute events m" "s_agents s a = Held r h" "exclusive r" "\<not> is_lease r"
    and "root_ino a (s_machine s) h = Some p"
  shows "(b, p, n) \<notin> set (s_active s)"
proof
  assume act: "(b, p, n) \<in> set (s_active s)"
  have ok: "system_ok s" using execute_ok [OF assms(1)] assms(2) by simp
  obtain fd where "held_facts a r (hGuard h) fd p (s_machine s)"
    using granted_root [OF held_granted [OF ok assms(3)]] assms(6) by auto
  then obtain e d where own: "entry (s_machine s) p factoryName = Some e" "entry (s_machine s) e activityName = Some d"
    "no_marker (s_machine s) d"
    using assms(4,5) by (auto simp: held_facts_def facts_def path_facts_def split: option.splits)
  obtain e' d' i where "is_marker n" "entry (s_machine s) p factoryName = Some e'" "entry (s_machine s) e' activityName = Some d'"
    "entry (s_machine s) d' n = Some i"
    using ok act by (fastforce simp: system_ok_def recorded_def facts_def trail_facts_def settled_def)
  then show False using own by (auto simp: no_marker_def)
qed

text \<open>The marker of an active guard is found under its project directory.\<close>

definition evident :: "machine \<Rightarrow> nat \<Rightarrow> string \<Rightarrow> bool" where
  "evident m p n \<longleftrightarrow> (case entry m p factoryName of None \<Rightarrow> False | Some e \<Rightarrow>
     (case entry m e activityName of None \<Rightarrow> False | Some d \<Rightarrow> entry m d n \<noteq> None))"

text \<open>C7: The evidence of active shared work is durable: from the moment the guard is granted until its
  holder closes it as clean, its marker is under the project, also after a power loss at any moment, whatever
  the disk kept of the changes that were not synchronised.\<close>

theorem evidence_survives:
  assumes "fresh_machine m" "s = execute events m" "(a, p, n) \<in> set (s_active s)"
  shows "evident (s_machine s) p n \<and> evident (power_loss picks (s_machine s)) p n"
proof -
  have ok: "system_ok s" using execute_ok [OF assms(1)] assms(2) by simp
  obtain e d i where e: "settled (s_machine s) p factoryName e" "settled (s_machine s) e activityName d" "settled (s_machine s) d n i"
    using ok assms(3) by (fastforce simp: system_ok_def recorded_def facts_def trail_facts_def)
  note after = e [THEN power_settled [where es = picks]]
  show ?thesis using e after by (simp add: evident_def settled_def)
qed

text \<open>An agent that has no guard any more.\<close>

definition finished_agent :: "agent \<Rightarrow> bool" where
  "finished_agent x \<longleftrightarrow> (case x of Refused _ \<Rightarrow> True | Released _ _ _ \<Rightarrow> True | Crashed \<Rightarrow> True | _ \<Rightarrow> False)"

text \<open>C18: An acquisition that is refused on any path, a closed guard, even when closing reported an error,
  and a crashed process leave no descriptor open and so no lock held.\<close>

theorem finished_leaves_nothing:
  assumes "fresh_machine m" "s = execute events m" "finished_agent (s_agents s a)"
  shows "\<not> list_ex (\<lambda>d. d_owner d = a) (t_open (s_machine s))"
proof -
  have "agent_ok a (s_agents s a) (s_machine s)"
    using execute_ok [OF assms(1)] assms(2) by (simp add: system_ok_def)
  then have "descs a (s_machine s) = []"
    using assms(3) by (cases "s_agents s a") (auto simp: agent_ok_def finished_agent_def bare_def closed_for_def)
  then show ?thesis by (auto simp: descs_def filter_empty_conv list_ex_iff)
qed

text \<open>A marker that agent \<open>a\<close> created and that a directory still holds.\<close>

definition left_by :: "nat \<Rightarrow> machine \<Rightarrow> nat \<Rightarrow> string \<Rightarrow> bool" where
  "left_by a m d n \<longleftrightarrow> is_marker n \<and> (case entry m d n of None \<Rightarrow> False | Some i \<Rightarrow> t_maker m i = Some a)"

text \<open>C19: A shared guard that was closed as clean without an error has left no evidence, now or after a
  power loss, so it does not block a later exclusive guard.\<close>

theorem clean_close_forgets:
  assumes "fresh_machine m" "s = execute events m" "s_agents s a = Released Shared True None"
  shows "\<not> left_by a (s_machine s) d n \<and> \<not> left_by a (power_loss picks (s_machine s)) d n"
proof -
  have "agent_ok a (s_agents s a) (s_machine s)"
    using execute_ok [OF assms(1)] assms(2) by (simp add: system_ok_def)
  then have none: "\<not> traces a (s_machine s) e k" for e k
    using assms(3) by (auto simp: agent_ok_def closed_for_def bare_def facts_def)
  then have "\<not> traces a (power_loss picks (s_machine s)) e k" for e k using power_traces by blast
  with none show ?thesis by (auto simp: left_by_def traces_def split: option.splits)
qed

section \<open>Examples\<close>

definition sample_root :: attrs where
  "sample_root = \<lparr>a_kind = DirectoryFile, a_mode = 493, a_uid = 7, a_gid = 0, a_nlink = 2, a_size = 0, a_mtim = 0, a_ctim = 0\<rparr>"

definition sample_machine :: machine where
  "sample_machine = \<lparr>t_paths = [(''/r'', 1)], t_entries = [], t_unsynced = [], t_attrs = (\<lambda>_. sample_root),
     t_maker = (\<lambda>_. None), t_next = 2, t_open = [], t_fds = 0\<rparr>"

definition sample_calm :: choice where
  "sample_calm = \<lparr>ch_fail = None, ch_stamp = 5, ch_text = ''X'', ch_uid = 7\<rparr>"

lemma sample_facts:
  "fresh_machine sample_machine" "isIdle (s_agents (execute [] sample_machine) a)" "ch_fail sample_calm = None"
  "selectedGuardRoot ''/r/.'' = Inr ''/r''" "map_of (t_paths (s_machine (execute [] sample_machine))) ''/r'' = Some 1"
  "project_open sample_calm 7 x (s_machine (execute [] sample_machine)) 1"
  by (simp_all add: fresh_machine_def sample_machine_def one_parent_def execute_def boot_def sample_calm_def project_open_def
      stat_of_def safe_def sample_root_def suits_def entry_def) code_simp

lemma acquisition_granted_witness:
  "\<exists>n h. s_agents (execute (Begin 3 Exclusive 7 ''/r/.'' # replicate n (Turn 3 sample_calm)) sample_machine) 3 = Held Exclusive h"
  using acquisition_granted [OF sample_facts(1) refl sample_facts(2-6), of 3 True] by auto

lemma sample_sound: "sound (s_machine (execute [] sample_machine))"
  by (rule execute_sound [OF sample_facts(1)])

lemma sample_granted:
  "\<exists>events h s. s = execute events sample_machine \<and> s_agents s a = Held (if x then Exclusive else Shared) h \<and>
     root_ino a (s_machine s) h = Some 1 \<and> (x \<or> (a, 1, ''activity-X'') \<in> set (s_active s))"
proof -
  have "ch_text sample_calm = ''X''" by (simp add: sample_calm_def)
  then obtain n h t where t: "t = fold turn (Begin a (if x then Exclusive else Shared) 7 ''/r/.'' # replicate n (Turn a sample_calm)) (execute [] sample_machine)"
    "s_agents t a = Held (if x then Exclusive else Shared) h" "root_ino a (s_machine t) h = Some 1" "x \<or> (a, 1, ''activity-X'') \<in> set (s_active t)"
    using granted_turns [OF sample_sound sample_facts(2-6), of a x] by auto
  have "t = execute (Begin a (if x then Exclusive else Shared) 7 ''/r/.'' # replicate n (Turn a sample_calm)) sample_machine"
    unfolding t(1) by (simp add: execute_def)
  then show ?thesis using t(2-4) by blast
qed

lemma exclusive_unaccompanied_witness:
  "\<exists>events h s. s = execute events sample_machine \<and> s_agents s 3 = Held Exclusive h \<and> (4, 1, ''activity-X'') \<notin> set (s_active s)"
proof -
  obtain events h s where s: "s = execute events sample_machine" "s_agents s 3 = Held Exclusive h" "root_ino 3 (s_machine s) h = Some 1"
    using sample_granted [of 3 True] by auto
  have "exclusive Exclusive" "\<not> is_lease Exclusive" by (simp_all add: exclusive_def is_lease_def)
  then show ?thesis using exclusive_unaccompanied [OF sample_facts(1) s(1,2) _ _ s(3)] s(1,2) by blast
qed

lemma evidence_survives_witness:
  "\<exists>events. evident (power_loss [] (s_machine (execute events sample_machine))) 1 ''activity-X''"
proof -
  obtain events s where "s = execute events sample_machine" "(5, 1, ''activity-X'') \<in> set (s_active s)"
    using sample_granted [of 5 False] by auto
  then show ?thesis using evidence_survives [OF sample_facts(1)] by blast
qed

lemma finished_leaves_nothing_witness:
  "\<not> list_ex (\<lambda>d. d_owner d = 3) (t_open (s_machine (execute [Begin 3 Shared 7 '''', Turn 3 sample_calm] sample_machine)))"
proof -
  have "finished_agent (s_agents (execute [Begin 3 Shared 7 '''', Turn 3 sample_calm] sample_machine) 3)"
    by (simp add: execute_def boot_def turn_def acquisition_def granting_def guard_task_def acquire_def selectedGuardRoot_def
        proceed_def set_agent_def finished_agent_def tryT_def bindT_def retT_def)
  then show ?thesis by (rule finished_leaves_nothing [OF sample_facts(1) refl])
qed

lemma guard_exclusion_witness:
  "\<exists>s events h h'. s = execute events sample_machine \<and> s_agents s 3 = Held ReadOnly h \<and> s_agents s 4 = Held ReadOnly h' \<and>
     \<not> exclusive ReadOnly"
proof -
  let ?s = "execute [] sample_machine"
  have root: "safe 7 (stat_of (s_machine ?s) 1) PinDirectory" "entry (s_machine ?s) 1 factoryName = None" "unlocked_for False 1 (s_machine ?s)"
    using sample_facts(6) [of False] by (simp_all add: project_open_def execute_def boot_def sample_machine_def entry_def unlocked_for_def)
  let ?m = "lock_desc 3 (t_fds (s_machine ?s)) False (new_desc 3 1 (s_machine ?s))"
  obtain xs h where xs: "fold turn xs ?s = set_agent 3 (Held ReadOnly h) (?s\<lparr>s_machine := ?m\<rparr>)" "root_ino 3 ?m h = Some 1"
    using lease_turns [OF sample_sound sample_facts(2-5) root, of 3] by blast
  obtain t where t: "t = fold turn xs ?s" "s_agents t 3 = Held ReadOnly h" "isIdle (s_agents t 4)" "root_ino 3 (s_machine t) h = Some 1"
      "s_machine t = ?m"
    using xs sample_facts(2) [of 4] by (simp add: set_agent_def)
  have "s_machine ?s = sample_machine" by (simp add: execute_def boot_def)
  then have again: "entry (s_machine t) 1 factoryName = None" "unlocked_for False 1 (s_machine t)"
      "map_of (t_paths (s_machine t)) ''/r'' = Some 1" "safe 7 (stat_of (s_machine t) 1) PinDirectory"
    using root by (auto simp: t(5) machine_simps entry_def sample_machine_def unlocked_for_def lock_desc_def new_desc_def stat_of_def)
  have "sound (s_machine t)"
    using execute_sound [OF sample_facts(1), of xs] by (simp add: t(1) execute_def)
  from lease_turns [OF this t(3) sample_facts(3,4) again(3,4,1,2)] obtain ys h' m' where
    u: "fold turn ys t = set_agent 4 (Held ReadOnly h') (t\<lparr>s_machine := m'\<rparr>)" "root_ino 4 m' h' = Some 1"
      "m' = lock_desc 4 (t_fds (s_machine t)) False (new_desc 4 1 (s_machine t))"
    by blast
  have ino: "root_ino 3 m' h = Some 1"
    using t(4) by (simp add: u(3) root_ino_def fd_ino_other split: list.splits)
  let ?u = "set_agent 4 (Held ReadOnly h') (t\<lparr>s_machine := m'\<rparr>)"
  have e: "?u = execute (xs @ ys) sample_machine" by (simp add: execute_append flip: u(1)) (simp add: t(1) execute_def)
  have held: "s_agents ?u 3 = Held ReadOnly h" "s_agents ?u 4 = Held ReadOnly h'" using t(2) by (simp_all add: set_agent_def)
  have "root_ino 3 (s_machine ?u) h = root_ino 4 (s_machine ?u) h'" using ino u(2) by (simp add: set_agent_def)
  from guard_exclusion [OF sample_facts(1) e held _ refl this] show ?thesis using e held by auto
qed

lemma shared_cycle:
  assumes "sound (s_machine s)" "isIdle (s_agents s a)" "ch_fail c = None"
    and "selectedGuardRoot path = Inr q" "map_of (t_paths (s_machine s)) q = Some p" "project_open c uid False (s_machine s) p"
  shows "\<exists>xs. s_agents (fold turn xs s) a = Released Shared True None"
proof -
  obtain g m' where g: "alone a c (acquisition Shared uid path) (s_machine s) = (Inr \<lparr>hGuard = g, hLease = None\<rparr>, m')"
      "obtained a c False (s_machine s) p g m'"
    using acquisition_alone [OF assms(3,1,4-6), of a, unfolded if_False] by blast
  let ?h = "\<lparr>hGuard = g, hLease = None\<rparr>"
  let ?t = "set_agent a (Held Shared ?h) (s\<lparr>s_machine := m', s_active := evidence a m' Shared ?h @ s_active s\<rparr>)"
  from begin_turns [OF assms(2) g(1)] obtain n t where
    t: "fold turn (Begin a Shared uid path # replicate n (Turn a c)) s = t" "t = ?t" by blast
  then have t: "fold turn (Begin a Shared uid path # replicate n (Turn a c)) s = t" "s_agents t a = Held Shared ?h" "s_machine t = m'"
    by (simp_all add: set_agent_def del: fold.simps)
  have "closable a g m'" using g(2) by (simp add: obtained_def)
  from closeGuard_alone [OF assms(3) this] obtain m'' where "alone a c (release ?h True) (s_machine t) = (None, m'')"
    by (auto simp: release_def drive_bindP t(3))
  from close_turns [OF t(2) this] obtain k where
    "s_agents (fold turn (Release a True # replicate k (Turn a c)) t) a = Released Shared True None" by blast
  then have "s_agents (fold turn ((Begin a Shared uid path # replicate n (Turn a c)) @ (Release a True # replicate k (Turn a c))) s) a =
      Released Shared True None"
    by (simp only: fold_append o_apply t(1))
  then show ?thesis by blast
qed

lemma clean_close_forgets_witness:
  "\<exists>events s. s = execute events sample_machine \<and> s_agents s 3 = Released Shared True None \<and> \<not> left_by 3 (s_machine s) 4 ''activity-X''"
proof -
  obtain xs where "s_agents (fold turn xs (execute [] sample_machine)) 3 = Released Shared True None"
    using shared_cycle [OF sample_sound sample_facts(2-6)] by blast
  then have r: "s_agents (execute xs sample_machine) 3 = Released Shared True None" by (simp add: execute_def)
  from clean_close_forgets [OF sample_facts(1) refl r] show ?thesis using r by blast
qed

end
