(* ===== verification/Spec2Isabelle.thy ===== *)
theory Spec2Isabelle
  imports Json_Props Usage_Props Budget_Claims Loop_Claims Loop_Inputs Loop_Glob_Props Loop_Snapshot_Sample Statefile_Claims Review_Claims Transition_Claims
begin

text \<open>
  Verification library for the Go implementation of the software factory (\<open>src/internal\<close>): the controllers that
  run coding agents under a budget, keep their evidence in durable files, and review changes in bounded batches.

  \<^bold>\<open>Parts of the program and their theories.\<close>

  \<^item> \<^emph>\<open>Shared vocabulary.\<close>  \<open>Prelude\<close> (Go results as sums \<open>error + value\<close>, loops with early return as \<open>forE\<close>),
    \<open>Go_Strings\<close>, \<open>Go_Runes\<close>, \<open>Go_Text\<close> and \<open>Go_Float\<close> (what the sources use of \<open>strings\<close>, \<open>strconv\<close>, \<open>utf8\<close>,
    \<open>path\<close> and \<open>float64\<close>), \<open>Go_State\<close> (effectful procedures as functions from a state to a result and a state,
    with weakest preconditions), \<open>Capped_Log\<close> and \<open>Atomic_Store\<close> (contracts as locales).
  \<^item> \<^emph>\<open>\<open>jsonvalue\<close>\<close>, the Python-compatible JSON codec every stored file passes through: \<open>Json_Value\<close> (decoder),
    \<open>Json_Numbers\<close>, \<open>Json_Encode\<close> (canonical encoder).  \<open>Json_Grammar\<close> is a reference syntax that keeps repeated
    members.  \<open>Json_Roundtrip\<close> and \<open>Json_Props\<close> show that encoding then decoding gives the value back, that decoded values
    have distinct keys and bounded nesting, that the encoding is printable and independent of member order, that both
    decoders read exactly the reference syntax, and that the strict one refuses exactly the texts that repeat a key.
  \<^item> \<^emph>\<open>\<open>usage\<close>\<close>, the accounting of native agent events: \<open>Usage\<close>; \<open>Usage_Props\<close> shows the totals are sums over distinct
    steps, are unaffected by replay, and are never negative.
  \<^item> \<^emph>\<open>\<open>budget\<close>\<close>, the ledger of paid runs: \<open>Budget_Numbers\<close>, \<open>Budget_History\<close> (schema), \<open>Budget_Plan\<close> (\<open>MakePlan\<close>),
    \<open>Budget_Lifecycle\<close> (admission, \<open>PublishPID\<close>, \<open>Finalize\<close> under the lock).  \<open>Budget_Props\<close> and \<open>Budget_Claims\<close> show
    that no interleaving of locked operations exceeds the attempt, session or concurrency limits, leaves an
    invalid history or changes a recorded process identity, and what each operation writes; \<open>Budget_Sample\<close> is a concrete run for the witnesses.
  \<^item> \<^emph>\<open>\<open>loop\<close>\<close>, the controller that alternates implementer, check and reviewer: \<open>Loop_History\<close> (checkpoints),
    \<open>Loop_Plan\<close> (configuration, admission), \<open>Loop_Run\<close> (storage transaction and the world of observations),
    \<open>Loop_Bounded\<close> (check, invocations, bounded repair), \<open>Loop_Control\<close> (\<open>Plan\<close> and \<open>Run\<close>), \<open>Loop_Glob\<close> and
    \<open>Loop_Snapshot\<close> (the fingerprint of a checkout).  \<open>Loop_Trace\<close>, \<open>Loop_Stages\<close>, \<open>Loop_Props\<close> carry triples over
    the trace of visible events; \<open>Loop_Claims\<close> concludes bounded invocations, write-ahead checkpoints, that
    a run was admitted against the histories it read under the locks, that a failed publication ends it with an
    error, and that an approval rests on a passed check of an unchanged source; \<open>Loop_Inputs\<close>, \<open>Loop_Glob_Props\<close>,
    \<open>Loop_Snapshot_Props\<close> treat the pure inputs and what equal digests prove; \<open>Loop_Sample\<close> and
    \<open>Loop_Snapshot_Sample\<close> are concrete runs.
  \<^item> \<^emph>\<open>\<open>statefile\<close>\<close>, the durable locked file under the ledger and the checkpoints: \<open>Statefile\<close> models every system call
    as a step on a file system with volatile and durable content; \<open>Statefile_Props\<close> carries phase invariants through
    a publication; \<open>Statefile_Claims\<close> shows crash atomicity, that the reported error tells what the file holds (a
    refinement of the transaction of \<open>Loop_Run\<close>), the read-back of what was published, and that waiting acquires
    the lock.
  \<^item> \<^emph>\<open>\<open>reviewbatch\<close>\<close>, the batched review of a change: \<open>Review_Diff\<close> (the diff and its manifest), \<open>Review_Settings\<close>,
    \<open>Review_Plan\<close> (fragments, batches, coverage), \<open>Review_Run\<close> (admission, workers and coordinator as interleaved
    events), \<open>Review_Patch\<close> (exact patch application).  \<open>Review_Diff_Props\<close>, \<open>Review_Plan_Props\<close>,
    \<open>Review_Run_Props\<close>, \<open>Review_Patch_Props\<close> and \<open>Review_Claims\<close> show that parsing and splitting lose no line, that batches
    partition the fragments within the limit, that the shared budget is never exceeded, and that exit code 0 means
    every fragment was answered; \<open>Review_Sample\<close> is a concrete review.
  \<^item> \<^emph>\<open>\<open>transition\<close>\<close>, the guard that keeps runtime transitions and ordinary work apart.  \<open>Go_Task\<close> is concurrent code:
    a procedure stops at each system call, so schedules interleave calls; its locale \<open>interference\<close> has the rules for
    triples under a rely relation.  \<open>Transition_Fs\<close> is the shared machine (entries, unsynchronised changes,
    descriptors, \<open>flock\<close>, power loss), \<open>Transition_Guard\<close> translates \<open>guard.go\<close> and \<open>root_lease.go\<close>,
    \<open>Transition_System\<close> runs any number of agents under a list of events.  \<open>Transition_Rely\<close> (which interprets
    \<open>interference\<close>), \<open>Transition_Steps\<close>, \<open>Transition_Triples\<close>, \<open>Transition_Acquire\<close>, \<open>Transition_Locking\<close>,
    \<open>Transition_Closing\<close>, \<open>Transition_Grants\<close> and \<open>Transition_Inv\<close> carry the invariant of the system through every
    event; \<open>Transition_Run\<close> and \<open>Transition_Finish\<close> run one agent alone.  \<open>Transition_Claims\<close> concludes exclusion,
    durable evidence of active work, that nothing is left behind, and that a healthy project grants its guard.

  \<^bold>\<open>How the parts interact.\<close>  The loop invokes agents through the budget controller, which admits each run in the ledger;
  ledger and checkpoints are JSON histories (\<open>jsonvalue\<close>) replaced through \<open>statefile\<close> under its lock; the answers of
  a run are accounted by \<open>usage\<close>.  In \<open>Loop_Run\<close> and \<open>Budget_Lifecycle\<close> a publication is an answer (\<open>publish_result\<close>);
  \<open>Atomic_Store\<close> is the contract both rely on, and \<open>Statefile_Claims\<close> proves it for the modelled storage.  A command
  that starts such work holds a shared guard of \<open>transition\<close>; publishing a new runtime needs the exclusive one.

  \<^bold>\<open>State and nondeterminism.\<close>  What a component observes outside (clock, cancellation, processes, models, disk faults)
  is a field of a world record, read at the position of a tick that every observation advances, so a theorem for all
  worlds covers all behaviours.  Interleavings are explicit: ledger operations as a reachability relation, other
  processes of the state directory as a function applied before every system call, review workers and the agents of
  \<open>transition\<close> as event lists.

  \<^bold>\<open>Bounds and fuel.\<close>  \<open>bounded\<close> (the repair loop) takes fuel; one more than \<open>loop_max_attempts\<close> is enough
  (\<open>loop_bounded_invocations\<close>).  \<open>walk\<close> has fuel 514, enough because the source stops after 512 entries
  (\<open>snapshot_total\<close>).  \<open>flock_loop\<close> takes fuel for the polling loop, which the source leaves unbounded; fuel above the
  number of contended polls is enough (\<open>acquire_succeeds\<close>).  Everything else terminates by its arguments.

  \<^bold>\<open>Assumptions.\<close>  SHA-256 is a parameter; where a digest identifies content its injectivity is a hypothesis.  The other
  processes of a state directory respect the advisory lock (\<open>quiet\<close>), a temporary name is fresh (\<open>apart\<close>), and a
  system call that fails has no effect.  Checkout observations treat an entry that changes while it is read as
  unreadable.  For \<open>transition\<close>: inode and descriptor numbers are not reused, a new file or directory has the mode that
  was asked for, and software that does not use the guard leaves the entries of its names (\<open>reserved\<close>) alone.

  \<^bold>\<open>Simplifications.\<close>  In \<open>Review_Run\<close> a worker's last two actions, stopping admission and sending its outcome, are one
  event.  The routing fields of a review policy that are constant in the source are left out of \<open>policy\<close>.  Closing a
  file of a guard clears it in the list of pins only, the other copies being unused from then on.  Budget and JSON
  functions leave out the polls of the context, which can only turn a run into a cancellation.

  \<^bold>\<open>Not modelled.\<close>  \<open>usage.Normalize\<close>'s decoding and the manifest of a review (both \<open>encoding/json\<close>), context polls of the
  pure parsers, the execution of native processes and their pipes, HTTP, the report and cache files of a review,
  \<open>WriteFormat\<close>, and the packages the manifest lists as not modelled: installation, assessment, native, the
  configuration editor and the command front ends.

  \<^bold>\<open>Findings.\<close>  The comment of \<open>loop/files.go\<close> says that file bytes, modes and link text remain distinct; a symbolic link
  and a regular file with mode 0777 whose bytes are the link target have the same content value
  (\<open>link_and_file_agree\<close> in \<open>Loop_Snapshot_Props\<close>).
\<close>

end
